(* ===== verification/Prelude.thy ===== *)
theory Prelude
  imports Main "HOL-Library.Sublist" "HOL-Library.Char_ord"
begin

text \<open>
  The part of the Go language and of its standard library that several components use: byte
  strings (\<^verbatim>\<open>package strings\<close>), decimal integers (\<^verbatim>\<open>package strconv\<close>), instants and durations
  (\<^verbatim>\<open>package time\<close>), and the generic lemmas on lists and association lists that the components share.

  A Go string is a sequence of bytes and so is a HOL \<open>string\<close> (a list of 8 bit characters);
  \<open>length\<close> counts bytes, as \<open>len\<close> does. A \<open>time.Time\<close> is the \<open>int\<close> of its nanoseconds since
  the Unix epoch and a \<open>time.Duration\<close> the \<open>int\<close> of its nanoseconds; \<open>time_sub\<close> saturates at
  the bounds of a 64 bit integer, as \<open>Time.Sub\<close> does.
\<close>

named_theorems go_strings \<open>characterisations of the string operations\<close>
named_theorems go_time \<open>definitions of the time operations and units\<close>

section \<open>Byte strings\<close>

fun str_contains :: "string \<Rightarrow> string \<Rightarrow> bool" where
  "str_contains s p =
     (prefix p s \<or> (case s of [] \<Rightarrow> False | _ # s' \<Rightarrow> str_contains s' p))"

declare str_contains.simps [simp del]

lemma str_contains_iff [go_strings]: "str_contains s p \<longleftrightarrow> (\<exists>a b. s = a @ p @ b)"
proof (induction s)
  case Nil
  then show ?case by (simp add: str_contains.simps)
next
  case (Cons c s)
  have "str_contains (c # s) p \<longleftrightarrow> prefix p (c # s) \<or> (\<exists>a b. s = a @ p @ b)"
    using Cons by (simp add: str_contains.simps [of "c # s"])
  also have "\<dots> \<longleftrightarrow> (\<exists>a b. c # s = a @ p @ b)"
    by (auto simp: prefix_def Cons_eq_append_conv)
  finally show ?case .
qed

definition trim_prefix :: "string \<Rightarrow> string \<Rightarrow> string" where
  "trim_prefix s p = (if prefix p s then drop (length p) s else s)"

definition trim_suffix :: "string \<Rightarrow> string \<Rightarrow> string" where
  "trim_suffix s p = (if suffix p s then take (length s - length p) s else s)"

lemma trim_prefix_append [simp]: "trim_prefix (p @ s) p = s"
  by (simp add: trim_prefix_def)

lemma trim_suffix_append [simp]: "trim_suffix (s @ p) p = s"
  by (simp add: trim_suffix_def suffix_def)

lemma trim_prefix_id: "\<not> prefix p s \<Longrightarrow> trim_prefix s p = s"
  by (simp add: trim_prefix_def)

lemma trim_suffix_id: "\<not> suffix p s \<Longrightarrow> trim_suffix s p = s"
  by (simp add: trim_suffix_def)

text \<open>
  \<open>strings.TrimSpace\<close> and \<open>strings.ToLower\<close>/\<open>ToUpper\<close>, on the ASCII bytes: a byte of 128 or more
  is neither white space nor a letter here, so that the results agree with Go's on ASCII strings.
\<close>

definition is_space :: "char \<Rightarrow> bool" where
  "is_space c \<longleftrightarrow> of_char c \<in> {9, 10, 11, 12, 13, 32 :: nat}"

definition trim_space :: "string \<Rightarrow> string" where
  "trim_space s = rev (dropWhile is_space (rev (dropWhile is_space s)))"

definition char_lower :: "char \<Rightarrow> char" where
  "char_lower c = (let n = of_char c :: nat in if 65 \<le> n \<and> n \<le> 90 then char_of (n + 32) else c)"

definition char_upper :: "char \<Rightarrow> char" where
  "char_upper c = (let n = of_char c :: nat in if 97 \<le> n \<and> n \<le> 122 then char_of (n - 32) else c)"

definition to_lower :: "string \<Rightarrow> string" where
  "to_lower s = map char_lower s"

definition to_upper :: "string \<Rightarrow> string" where
  "to_upper s = map char_upper s"

definition equal_fold :: "string \<Rightarrow> string \<Rightarrow> bool" where
  "equal_fold s t \<longleftrightarrow> to_lower s = to_lower t"

definition contains_any :: "string \<Rightarrow> string \<Rightarrow> bool" where
  "contains_any s chars \<longleftrightarrow> list_ex (\<lambda>c. c \<in> set chars) s"

lemma length_to_lower [simp]: "length (to_lower s) = length s"
  by (simp add: to_lower_def)

lemma length_to_upper [simp]: "length (to_upper s) = length s"
  by (simp add: to_upper_def)

lemma char_lower_idem [simp]: "char_lower (char_lower c) = char_lower c"
  by (auto simp: char_lower_def Let_def)

lemma to_lower_idem [simp]: "to_lower (to_lower s) = to_lower s"
  by (simp add: to_lower_def)

lemma dropWhile_idem_rev:
  "dropWhile P (rev (dropWhile P (rev (dropWhile P s)))) = rev (dropWhile P (rev (dropWhile P s)))"
proof (cases "rev (dropWhile P (rev (dropWhile P s)))")
  case (Cons c cs)
  have "suffix (dropWhile P (rev (dropWhile P s))) (rev (dropWhile P s))"
    by (rule suffix_dropWhile)
  then have "prefix (rev (dropWhile P (rev (dropWhile P s)))) (dropWhile P s)"
    by (simp add: suffix_to_prefix)
  with Cons obtain r where "dropWhile P s = c # r"
    by (auto simp: prefix_def)
  then have "\<not> P c" using hd_dropWhile [of P s] by simp
  with Cons show ?thesis by simp
next
  case Nil
  then show ?thesis by (metis dropWhile.simps(1))
qed

lemma trim_space_idem [simp]: "trim_space (trim_space s) = trim_space s"
  by (simp add: trim_space_def dropWhile_idem_rev dropWhile_idem [of is_space])

lemma set_trim_space: "set (trim_space s) \<subseteq> set s"
  unfolding trim_space_def by (auto dest!: set_dropWhileD)

text \<open>\<open>strings.Index\<close>, and \<open>strings.Split\<close> for the non-empty separators the program uses.\<close>

fun str_index :: "string \<Rightarrow> string \<Rightarrow> nat option" where
  "str_index s p =
     (if prefix p s then Some 0
      else (case s of [] \<Rightarrow> None | _ # s' \<Rightarrow> map_option Suc (str_index s' p)))"

declare str_index.simps [simp del]

lemma str_index_Some:
  "str_index s p = Some i \<Longrightarrow> i + length p \<le> length s \<and> take (length p) (drop i s) = p"
proof (induction s arbitrary: i)
  case Nil
  then show ?case by (simp add: str_index.simps split: if_splits)
next
  case (Cons c s)
  show ?case
  proof (cases "prefix p (c # s)")
    case True
    with Cons.prems have "i = 0" by (simp add: str_index.simps [of "c # s"])
    moreover from True obtain zs where "c # s = p @ zs" by (auto simp: prefix_def)
    then have "length p \<le> length (c # s)" and "take (length p) (c # s) = p"
      by (simp_all del: length_Cons)
    ultimately show ?thesis by simp
  next
    case False
    with Cons show ?thesis by (auto simp: str_index.simps [of "c # s"])
  qed
qed

lemma str_index_None: "str_index s p = None \<longleftrightarrow> \<not> str_contains s p"
  by (induction s) (simp_all add: str_index.simps [of _ p] str_contains.simps [of _ p])

function str_split :: "string \<Rightarrow> string \<Rightarrow> string list" where
  "str_split s sep =
     (if sep = [] then [s]
      else (case str_index s sep of
              None \<Rightarrow> [s]
            | Some i \<Rightarrow> take i s # str_split (drop (i + length sep) s) sep))"
  by pat_completeness auto
termination
proof (relation "measure (\<lambda>(s, sep). length s)", goal_cases)
  case (2 s sep i)
  then show ?case using str_index_Some [of s sep i] by (cases sep) auto
qed simp

declare str_split.simps [simp del]

fun str_join :: "string list \<Rightarrow> string \<Rightarrow> string" where
  "str_join [] sep = []"
| "str_join [s] sep = s"
| "str_join (s # t # ss) sep = s @ sep @ str_join (t # ss) sep"

lemma str_split_ne [simp]: "str_split s sep \<noteq> []"
  by (subst str_split.simps) (simp split: option.splits)

lemma str_join_Cons: "ss \<noteq> [] \<Longrightarrow> str_join (s # ss) sep = s @ sep @ str_join ss sep"
  by (cases ss) simp_all

lemma str_join_split: "str_join (str_split s sep) sep = s"
proof (induction s sep rule: str_split.induct)
  case (1 s sep)
  show ?case
  proof (cases "sep = [] \<or> str_index s sep = None")
    case True
    then show ?thesis by (subst str_split.simps) auto
  next
    case False
    then obtain i where i: "str_index s sep = Some i" and ne: "sep \<noteq> []" by auto
    from str_index_Some [OF i] have "s = take i s @ sep @ drop (i + length sep) s"
      by (metis add.commute append_take_drop_id drop_drop)
    with "1" [OF ne i] i ne show ?thesis
      by (subst str_split.simps) (simp add: str_join_Cons)
  qed
qed

lemma str_split_single: "\<not> str_contains s sep \<Longrightarrow> str_split s sep = [s]"
  by (subst str_split.simps) (simp add: str_index_None [symmetric])

text \<open>\<open>strings.ReplaceAll\<close> of one byte by another, and \<open>strings.Replace\<close> of the first occurrence.\<close>

definition replace_char :: "char \<Rightarrow> char \<Rightarrow> string \<Rightarrow> string" where
  "replace_char c d s = map (\<lambda>x. if x = c then d else x) s"

definition remove_char :: "char \<Rightarrow> string \<Rightarrow> string" where
  "remove_char c s = filter (\<lambda>x. x \<noteq> c) s"

definition replace_first :: "string \<Rightarrow> string \<Rightarrow> string \<Rightarrow> string" where
  "replace_first s old new =
     (case str_index s old of
        None \<Rightarrow> s
      | Some i \<Rightarrow> take i s @ new @ drop (i + length old) s)"

text \<open>
  \<open>utf8.DecodeRuneInString\<close>: the first code point of a non-empty string and the number of its bytes; a byte
  that starts no valid encoding is the code point \<open>U+FFFD\<close> of one byte.
\<close>

definition cont_byte :: "nat \<Rightarrow> nat \<Rightarrow> nat \<Rightarrow> bool" where
  "cont_byte lo hi b \<longleftrightarrow> lo \<le> b \<and> b \<le> hi"

definition decode_bytes :: "nat list \<Rightarrow> nat \<times> nat" where
  "decode_bytes bs =
     (case bs of
        [] \<Rightarrow> (65533, 0)
      | a # r \<Rightarrow>
          (if a < 128 then (a, 1)
           else if 194 \<le> a \<and> a \<le> 223 then
             (case r of b # _ \<Rightarrow> (if cont_byte 128 191 b then ((a - 192) * 64 + (b - 128), 2) else (65533, 1)) | _ \<Rightarrow> (65533, 1))
           else if 224 \<le> a \<and> a \<le> 239 then
             (case r of b # c # _ \<Rightarrow>
                (if cont_byte (if a = 224 then 160 else 128) (if a = 237 then 159 else 191) b \<and> cont_byte 128 191 c
                 then ((a - 224) * 4096 + (b - 128) * 64 + (c - 128), 3) else (65533, 1)) | _ \<Rightarrow> (65533, 1))
           else if 240 \<le> a \<and> a \<le> 244 then
             (case r of b # c # d # _ \<Rightarrow>
                (if cont_byte (if a = 240 then 144 else 128) (if a = 244 then 143 else 191) b \<and>
                    cont_byte 128 191 c \<and> cont_byte 128 191 d
                 then ((a - 240) * 262144 + (b - 128) * 4096 + (c - 128) * 64 + (d - 128), 4) else (65533, 1)) | _ \<Rightarrow> (65533, 1))
           else (65533, 1)))"

definition decode_rune :: "string \<Rightarrow> nat \<times> nat" where
  "decode_rune s = decode_bytes (map of_char (take 4 s))"

lemma decode_bytes_size: "bs \<noteq> [] \<Longrightarrow> 0 < snd (decode_bytes bs) \<and> snd (decode_bytes bs) \<le> length bs"
  unfolding decode_bytes_def by (simp split: list.split)

lemma decode_rune_size:
  assumes "s \<noteq> []"
  shows "0 < snd (decode_rune s) \<and> snd (decode_rune s) \<le> length s"
proof -
  have "map of_char (take 4 s) \<noteq> ([] :: nat list)" using assms by simp
  from decode_bytes_size [OF this] show ?thesis by (simp add: decode_rune_def)
qed

text \<open>The first \<open>n\<close> code points, as the verb \<^verbatim>\<open>%.ns\<close> of \<open>fmt\<close> prints them, and their number.\<close>

fun take_runes :: "nat \<Rightarrow> string \<Rightarrow> string" where
  "take_runes 0 s = []"
| "take_runes (Suc n) [] = []"
| "take_runes (Suc n) (c # s) =
     (let k = snd (decode_rune (c # s)) in take k (c # s) @ take_runes n (drop k (c # s)))"

function rune_count :: "string \<Rightarrow> nat" where
  "rune_count s = (if s = [] then 0 else Suc (rune_count (drop (snd (decode_rune s)) s)))"
  by pat_completeness auto
termination
  by (relation "measure length") (use decode_rune_size in auto)

declare rune_count.simps [simp del]

text \<open>
  \<open>strings.ReplaceAll\<close>: with an empty \<open>old\<close> the new text goes before every code point and at the end.
\<close>

function runes :: "string \<Rightarrow> string list" where
  "runes s = (if s = [] then [] else (let k = snd (decode_rune s) in take k s # runes (drop k s)))"
  by pat_completeness auto
termination
  by (relation "measure length") (use decode_rune_size in auto)

declare runes.simps [simp del]

definition replace_all :: "string \<Rightarrow> string \<Rightarrow> string \<Rightarrow> string" where
  "replace_all s old new =
     (if old = [] then new @ concat (map (\<lambda>r. r @ new) (runes s)) else str_join (str_split s old) new)"

lemma replace_all_absent: "old \<noteq> [] \<Longrightarrow> \<not> str_contains s old \<Longrightarrow> replace_all s old new = s"
  by (simp add: replace_all_def str_split_single)

section \<open>Decimal integers\<close>

definition digit_char :: "nat \<Rightarrow> char" where
  "digit_char d = char_of (48 + d)"

definition char_digit :: "char \<Rightarrow> nat" where
  "char_digit c = of_char c - 48"

definition is_digit :: "char \<Rightarrow> bool" where
  "is_digit c \<longleftrightarrow> (48 :: nat) \<le> of_char c \<and> (of_char c :: nat) \<le> 57"

fun nat_digits :: "nat \<Rightarrow> string" where
  "nat_digits n = (if n < 10 then [digit_char n] else nat_digits (n div 10) @ [digit_char (n mod 10)])"

declare nat_digits.simps [simp del]

definition digits_nat :: "string \<Rightarrow> nat" where
  "digits_nat s = foldl (\<lambda>acc c. 10 * acc + char_digit c) 0 s"

definition itoa :: "int \<Rightarrow> string" where
  "itoa i = (if i < 0 then CHR ''-'' # nat_digits (nat (- i)) else nat_digits (nat i))"

text \<open>The digits of an \<open>int\<close>, which the evaluation of \<open>itoa\<close> uses.\<close>

function int_digits :: "int \<Rightarrow> string" where
  "int_digits i = (if i < 10 then [digit_char (nat i)] else int_digits (i div 10) @ [digit_char (nat (i mod 10))])"
  by pat_completeness auto

termination
  by (relation "measure nat") (auto simp: nat_less_iff)

declare int_digits.simps [simp del]

lemma int_digits_nat: "0 \<le> i \<Longrightarrow> int_digits i = nat_digits (nat i)"
proof (induction i rule: int_digits.induct)
  case (1 i)
  have "nat (i div 10) = nat i div 10" "nat (i mod 10) = nat i mod 10"
    using 1(2) by (simp_all add: nat_div_distrib nat_mod_distrib)
  then show ?case
    using 1 by (simp add: int_digits.simps [of i] nat_digits.simps [of "nat i"] nat_less_iff)
qed

lemma itoa_code [code]: "itoa i = (if i < 0 then CHR ''-'' # int_digits (- i) else int_digits i)"
  by (simp add: itoa_def int_digits_nat)

lemma of_digit_char: "d < 10 \<Longrightarrow> of_char (digit_char d) = 48 + d"
  by (simp add: digit_char_def)

lemma digit_char_0 [simp]: "digit_char 0 = CHR ''0''"
  by code_simp

lemma digit_char_eq_0: "d < 10 \<Longrightarrow> digit_char d = CHR ''0'' \<longleftrightarrow> d = 0"
  using of_digit_char [of d] by (auto simp: digit_char_0)

lemma char_digit_digit_char [simp]: "d < 10 \<Longrightarrow> char_digit (digit_char d) = d"
  by (simp add: char_digit_def of_digit_char)

lemma is_digit_digit_char [simp]: "d < 10 \<Longrightarrow> is_digit (digit_char d)"
  by (simp add: is_digit_def of_digit_char)

lemma digits_nat_snoc [simp]: "digits_nat (s @ [c]) = 10 * digits_nat s + char_digit c"
  by (simp add: digits_nat_def)

lemma digits_nat_digits [simp]: "digits_nat (nat_digits n) = n"
proof (induction n rule: nat_digits.induct)
  case (1 n)
  show ?case
  proof (cases "n < 10")
    case True
    then show ?thesis by (simp add: nat_digits.simps [of n] digits_nat_def)
  next
    case False
    with "1" show ?thesis by (simp add: nat_digits.simps [of n])
  qed
qed

lemma nat_digits_all: "list_all is_digit (nat_digits n)"
proof (induction n rule: nat_digits.induct)
  case (1 n)
  then show ?case by (cases "n < 10") (simp_all add: nat_digits.simps [of n])
qed

lemma nat_digits_ne [simp]: "nat_digits n \<noteq> []"
  by (subst nat_digits.simps) simp

lemma nat_digits_inj [simp]: "nat_digits m = nat_digits n \<longleftrightarrow> m = n"
  by (metis digits_nat_digits)

lemma hd_nat_digits: "is_digit (hd (nat_digits n))"
  using nat_digits_all [of n] by (cases "nat_digits n") simp_all

lemma minus_not_digit [simp]: "\<not> is_digit (CHR ''-'')"
  by (simp add: is_digit_def)

lemma nat_digits_no_minus: "nat_digits n \<noteq> CHR ''-'' # s"
  using hd_nat_digits [of n] by auto

lemma itoa_inj [simp]: "itoa i = itoa j \<longleftrightarrow> i = j"
  by (auto simp: itoa_def nat_digits_no_minus nat_digits_no_minus [symmetric] split: if_splits)

lemma itoa_ne [simp]: "itoa i \<noteq> []"
  by (simp add: itoa_def)

lemma itoa_chars: "c \<in> set (itoa i) \<Longrightarrow> is_digit c \<or> c = CHR ''-''"
  using nat_digits_all by (auto simp: itoa_def list_all_iff split: if_splits)

text \<open>The arithmetic of \<open>int\<close> (64 bits) wraps around.\<close>

definition wrap64 :: "int \<Rightarrow> int" where
  "wrap64 i = (i + 9223372036854775808) mod 18446744073709551616 - 9223372036854775808"

text \<open>\<open>strconv.Atoi\<close>: an optional sign, then decimal digits only, within 64 bits; \<open>None\<close> is the error.\<close>

definition parse_digits :: "string \<Rightarrow> nat option" where
  "parse_digits s = (if s \<noteq> [] \<and> list_all is_digit s then Some (digits_nat s) else None)"

definition in_int64 :: "int \<Rightarrow> bool" where
  "in_int64 i \<longleftrightarrow> -9223372036854775808 \<le> i \<and> i \<le> 9223372036854775807"

definition atoi :: "string \<Rightarrow> int option" where
  "atoi s =
     (let (neg, digits) = (case s of
          [] \<Rightarrow> (False, [])
        | c # r \<Rightarrow> if c = CHR ''-'' then (True, r) else if c = CHR ''+'' then (False, r) else (False, s))
      in case parse_digits digits of
           None \<Rightarrow> None
         | Some n \<Rightarrow> (let i = (if neg then - int n else int n) in if in_int64 i then Some i else None))"

lemma wrap64_id [simp]: "in_int64 i \<Longrightarrow> wrap64 i = i"
  by (simp add: wrap64_def in_int64_def)

lemma wrap64_in_int64: "in_int64 (wrap64 i)"
  unfolding wrap64_def in_int64_def
  using pos_mod_bound [of 18446744073709551616 "i + 9223372036854775808"]
    pos_mod_sign [of 18446744073709551616 "i + 9223372036854775808"] by linarith

lemma wrap64_over:
  assumes "9223372036854775807 < i" and "i \<le> 27670116110564327423"
  shows "wrap64 i = i - 18446744073709551616"
proof -
  have "(i + 9223372036854775808) mod 18446744073709551616 = (i + 9223372036854775808 - 18446744073709551616) mod 18446744073709551616"
    by (rule minus_mod_self2 [symmetric])
  also have "\<dots> = i + 9223372036854775808 - 18446744073709551616"
    using assms by (intro mod_pos_pos_trivial) auto
  finally show ?thesis by (simp add: wrap64_def)
qed

lemma wrap64_diff: "wrap64 (i - j) = wrap64 (wrap64 i - j)"
  by (simp add: wrap64_def mod_simps algebra_simps)

lemma parse_digits_nat_digits [simp]: "parse_digits (nat_digits n) = Some n"
  by (simp add: parse_digits_def nat_digits_all)

lemma not_digit_signs: "is_digit c \<Longrightarrow> c \<noteq> CHR ''-'' \<and> c \<noteq> CHR ''+''"
  by (auto simp: is_digit_def)

lemma atoi_itoa: "in_int64 i \<Longrightarrow> atoi (itoa i) = Some i"
proof (cases "i < 0")
  case True
  moreover assume "in_int64 i"
  ultimately show ?thesis by (simp add: atoi_def itoa_def Let_def)
next
  case False
  assume "in_int64 i"
  obtain c r where cr: "nat_digits (nat i) = c # r" by (cases "nat_digits (nat i)") auto
  then have "c \<noteq> CHR ''-''" "c \<noteq> CHR ''+''"
    using hd_nat_digits [of "nat i"] not_digit_signs [of c] by auto
  moreover have "parse_digits (c # r) = Some (nat i)"
    using parse_digits_nat_digits [of "nat i"] cr by simp
  ultimately show ?thesis using False cr \<open>in_int64 i\<close>
    by (simp add: atoi_def itoa_def Let_def)
qed

definition format_bool :: "bool \<Rightarrow> string" where
  "format_bool b = (if b then ''true'' else ''false'')"

lemma format_bool_inj [simp]: "format_bool a = format_bool b \<longleftrightarrow> a = b"
  by (simp add: format_bool_def)

section \<open>Instants and durations\<close>

type_synonym time = int
type_synonym duration = int

definition max_duration :: duration where [go_time]: "max_duration = 9223372036854775807"
definition min_duration :: duration where [go_time]: "min_duration = -9223372036854775808"
definition millisecond :: duration where [go_time]: "millisecond = 1000000"
definition second :: duration where [go_time]: "second = 1000000000"
definition minute :: duration where [go_time]: "minute = 60000000000"
definition hour :: duration where [go_time]: "hour = 3600000000000"

text \<open>The zero value of \<open>time.Time\<close>: January 1 of year 1, UTC.\<close>

definition zero_time :: time where [go_time]: "zero_time = -62135596800000000000"

definition time_sub :: "time \<Rightarrow> time \<Rightarrow> duration" where
  [go_time]: "time_sub t u = max min_duration (min max_duration (t - u))"

text \<open>Go's integer division truncates towards zero.\<close>

definition quot :: "int \<Rightarrow> int \<Rightarrow> int" where
  "quot a b = sgn a * sgn b * (\<bar>a\<bar> div \<bar>b\<bar>)"

definition milliseconds :: "duration \<Rightarrow> int" where
  "milliseconds d = quot d millisecond"

text \<open>\<open>Time.Unix\<close>, and the Unix time of \<open>Time.Truncate(time.Hour)\<close>: hours start with the Unix epoch.\<close>

definition unix :: "time \<Rightarrow> int" where
  "unix t = t div second"

definition unix_hour :: "time \<Rightarrow> int" where
  "unix_hour t = unix (t div hour * hour)"

lemma unix_hour_alt: "unix_hour t = t div hour * 3600"
proof -
  have "t div hour * hour = (t div hour * 3600) * second" by (simp add: go_time)
  then show ?thesis by (simp add: unix_hour_def unix_def go_time)
qed

lemma quot_nonneg: "0 \<le> a \<Longrightarrow> 0 < b \<Longrightarrow> quot a b = a div b"
  by (cases "a = 0") (simp_all add: quot_def)

lemma div_mod_swap: "0 < a \<Longrightarrow> 0 < b \<Longrightarrow> (t :: int) div a mod b = t mod (a * b) div a"
  by (simp add: zmod_zmult2_eq)

text \<open>
  \<open>Duration.String\<close>: a duration below a second in its largest unit that gives a positive integer part,
  and otherwise hours, minutes and seconds, without trailing zeros in the fraction. \<open>frac_digits\<close> is the
  fraction of a number of units of \<open>10 ^ k\<close>.
\<close>

definition frac_digits :: "nat \<Rightarrow> int \<Rightarrow> string" where
  "frac_digits k n =
     (let s = rev (dropWhile (\<lambda>c. c = CHR ''0'') (rev (replicate (k - length (itoa n)) CHR ''0'' @ itoa n)))
      in if s = [] then [] else CHR ''.'' # s)"

definition decimal_units :: "nat \<Rightarrow> int \<Rightarrow> string" where
  "decimal_units k n = itoa (n div 10 ^ k) @ frac_digits k (n mod 10 ^ k)"

definition duration_string :: "duration \<Rightarrow> string" where
  "duration_string d =
     (let u = \<bar>d\<bar>; sign = (if d < 0 then ''-'' else []); s = u div 1000000000; f = u mod 1000000000;
          secs = itoa (s mod 60) @ frac_digits 9 f @ ''s''
      in if u = 0 then ''0s''
         else if u < 1000 then sign @ itoa u @ ''ns''
         else if u < 1000000 then sign @ decimal_units 3 u @ [char_of (194 :: nat), char_of (181 :: nat)] @ ''s''
         else if u < 1000000000 then sign @ decimal_units 6 u @ ''ms''
         else if s < 60 then sign @ secs
         else if s < 3600 then sign @ itoa (s div 60) @ ''m'' @ secs
         else sign @ itoa (s div 3600) @ ''h'' @ itoa (s div 60 mod 60) @ ''m'' @ secs)"

text \<open>The two equations of \<open>nat_digits\<close>, conditional, to evaluate it on numerals.\<close>

lemma nat_digits_eval:
  "n < 10 \<Longrightarrow> nat_digits n = [digit_char n]"
  "10 \<le> n \<Longrightarrow> nat_digits n = nat_digits (n div 10) @ [digit_char (n mod 10)]"
  by (simp_all add: nat_digits.simps [of n])

lemma duration_string_example: "duration_string (2 * hour + 1500000000) = ''2h0m1.5s''"
  by (simp add: duration_string_def frac_digits_def itoa_def nat_digits_eval digit_char_def go_time Let_def
      char_of_def bit_0)

section \<open>Association lists with distinct keys\<close>

text \<open>
  A table whose rows have a unique key: \<open>alist_put\<close> replaces the row of a key or appends a new
  one at the end, \<open>alist_del\<close> removes it.
\<close>

fun alist_put :: "'k \<Rightarrow> 'v \<Rightarrow> ('k \<times> 'v) list \<Rightarrow> ('k \<times> 'v) list" where
  "alist_put k v [] = [(k, v)]"
| "alist_put k v ((k', v') # r) = (if k = k' then (k, v) # r else (k', v') # alist_put k v r)"

definition alist_del :: "'k \<Rightarrow> ('k \<times> 'v) list \<Rightarrow> ('k \<times> 'v) list" where
  "alist_del k r = filter (\<lambda>(k', _). k' \<noteq> k) r"

lemma map_of_alist_put [simp]: "map_of (alist_put k v r) = (map_of r)(k \<mapsto> v)"
  by (induction r) (auto simp: fun_eq_iff)

lemma map_of_filter_key: "map_of (filter (\<lambda>(k, _). P k) r) k = (if P k then map_of r k else None)"
  by (induction r) auto

lemma map_of_alist_del [simp]: "map_of (alist_del k r) = (map_of r)(k := None)"
  by (auto simp: alist_del_def map_of_filter_key fun_eq_iff)

lemma dom_alist_put [simp]: "fst ` set (alist_put k v r) = insert k (fst ` set r)"
proof (induction r)
  case (Cons p r)
  then show ?case by (cases p) (simp add: insert_commute)
qed simp

lemma distinct_alist_put [simp]: "distinct (map fst r) \<Longrightarrow> distinct (map fst (alist_put k v r))"
proof (induction r)
  case (Cons p r)
  have "set (map fst (alist_put k v r)) = insert k (set (map fst r))"
    using dom_alist_put [of k v r] by simp
  with Cons show ?case by (cases p) auto
qed simp

lemma distinct_filter_fst [simp]: "distinct (map fst r) \<Longrightarrow> distinct (map fst (filter P r))"
  by (rule distinct_map_filter)

lemma distinct_alist_del: "distinct (map fst m) \<Longrightarrow> distinct (map fst (alist_del k m))"
  unfolding alist_del_def by (rule distinct_filter_fst)

lemma fold_put_distinct:
  "distinct (map fst m0) \<Longrightarrow> distinct (map fst (fold (\<lambda>row m. alist_put (f row) (g row) m) rows m0))"
  by (induction rows arbitrary: m0) (simp_all add: distinct_alist_put)

lemma distinct_fst_sort: "distinct (map fst (sort_key fst ps)) = distinct (map fst ps)"
  by (simp add: distinct_map)

lemma map_of_sorted:
  assumes "distinct (map fst ps)"
  shows "map_of (sort_key fst ps) = map_of ps"
proof (rule ext)
  show "map_of (sort_key fst ps) k = map_of ps k" for k
    using map_of_eq_Some_iff [OF assms, of k] map_of_eq_Some_iff [of "sort_key fst ps" k] assms
    by (metis distinct_fst_sort option.exhaust set_sort)
qed

lemma length_alist_del: "map_of m k \<noteq> None \<Longrightarrow> length (alist_del k m) < length m"
  unfolding alist_del_def by (rule length_filter_less [where x = "(k, the (map_of m k))"]) (auto intro: map_of_SomeD)

lemma map_of_filtered:
  assumes "distinct (map fst m)" and "map_of (filter P m) h = Some s"
  shows "map_of m h = Some s"
proof -
  have "(h, s) \<in> set m" using map_of_SomeD [OF assms(2)] by simp
  with assms(1) show ?thesis by simp
qed

section \<open>Lists\<close>

lemma split_at_eq:
  assumes "c \<notin> set a" and "c \<notin> set a'"
  shows "a @ c # b = a' @ c # b' \<longleftrightarrow> a = a' \<and> b = b'"
  using assms
proof (induction a arbitrary: a')
  case Nil
  then show ?case by (cases a') auto
next
  case (Cons x a)
  then show ?case by (cases a') auto
qed

text \<open>Keeping at most the last \<open>n\<close> elements, the slice \<^verbatim>\<open>s[len(s)-n:]\<close> of the code.\<close>

definition keep_last :: "nat \<Rightarrow> 'a list \<Rightarrow> 'a list" where
  "keep_last n xs = (if length xs > n then drop (length xs - n) xs else xs)"

lemma length_keep_last: "length (keep_last n xs) = min n (length xs)"
  by (simp add: keep_last_def)

lemma keep_last_suffix: "suffix (keep_last n xs) xs"
  by (simp add: keep_last_def suffix_drop)

lemma last_keep_last: "0 < n \<Longrightarrow> xs \<noteq> [] \<Longrightarrow> last (keep_last n xs) = last xs"
  by (simp add: keep_last_def)

lemma keep_last_ne: "0 < n \<Longrightarrow> xs \<noteq> [] \<Longrightarrow> keep_last n xs \<noteq> []"
  by (cases xs) (auto simp: keep_last_def)

subsection \<open>Validation loops\<close>

text \<open>
  A loop that validates the elements of a list in place and stops at the first error: the elements before it
  keep their defaults and the others are as they were. The body may carry a state, such as the keys seen so far.
\<close>

fun validate_seq :: "('s \<Rightarrow> 'a \<Rightarrow> 'e option \<times> 's \<times> 'a) \<Rightarrow> 's \<Rightarrow> 'a list \<Rightarrow> 'e option \<times> 's \<times> 'a list" where
  "validate_seq f s [] = (None, s, [])"
| "validate_seq f s (x # xs) =
     (case f s x of
        (Some e, s', x') \<Rightarrow> (Some e, s', x' # xs)
      | (None, s', x') \<Rightarrow> (let (e, s'', xs') = validate_seq f s' xs in (e, s'', x' # xs')))"

lemma validate_seq_rel:
  assumes "validate_seq f s xs = (None, s', ys)" and "\<And>s s' x y. f s x = (None, s', y) \<Longrightarrow> R x y"
  shows "list_all2 R xs ys"
  using assms(1) by (induction xs arbitrary: s ys) (auto split: prod.splits option.splits dest: assms(2))

text \<open>An invariant between the state and the elements validated so far.\<close>

lemma validate_seq_inv:
  assumes "validate_seq f s xs = (None, s', ys)" and "I s zs"
    and "\<And>s s' x y zs. f s x = (None, s', y) \<Longrightarrow> I s zs \<Longrightarrow> I s' (zs @ [y])"
  shows "I s' (zs @ ys)"
  using assms(1,2)
proof (induction xs arbitrary: s zs ys)
  case (Cons x xs)
  then obtain s1 y ys' where f: "f s x = (None, s1, y)" and ys: "ys = y # ys'"
    and rest: "validate_seq f s1 xs = (None, s', ys')"
    by (auto split: prod.splits option.splits)
  from Cons.IH [OF rest assms(3) [OF f Cons.prems(2)]] show ?case by (simp add: ys)
qed simp

text \<open>When the body refuses an element whose key was seen and records the key otherwise, the keys are distinct.\<close>

lemma validate_seq_distinct:
  assumes "validate_seq f seen xs = (None, seen', ys)"
    and "\<And>s s' x y. f s x = (None, s', y) \<Longrightarrow> key y \<notin> set s \<and> s' = key y # s"
  shows "seen' = rev (map key ys) @ seen" and "distinct (map key ys)" and "set (map key ys) \<inter> set seen = {}"
proof -
  have "seen' = rev (map key ys) @ seen \<and> distinct (map key ys) \<and> set (map key ys) \<inter> set seen = {}"
    using assms(1)
  proof (induction xs arbitrary: seen ys)
    case (Cons x xs)
    then obtain s1 y ys' where f: "f seen x = (None, s1, y)" and ys: "ys = y # ys'"
      and rest: "validate_seq f s1 xs = (None, seen', ys')"
      by (auto split: prod.splits option.splits)
    from assms(2) [OF f] Cons.IH [OF rest] show ?case by (auto simp: ys)
  qed simp
  then show "seen' = rev (map key ys) @ seen" and "distinct (map key ys)" and "set (map key ys) \<inter> set seen = {}"
    by auto
qed

end
