(* ===== verification/Keys.thy ===== *)
theory Keys
  imports Prelude
begin

text \<open>
  The key of an endpoint, an external endpoint or a suite (\<^verbatim>\<open>internal/config/key/key.go\<close>): the
  sanitized group and the sanitized name joined by an underscore. The key identifies the endpoint in
  the storage, in the registry of the watchdog and in the routes of the API. The lemmas show what a
  sanitized part can contain, and that a key determines its two parts.
\<close>

definition sanitize :: "string \<Rightarrow> string" where
  "sanitize s0 =
     (let s = trim_space (to_lower s0);
          s = replace_char (CHR ''/'') (CHR ''-'') s;
          s = replace_char (CHR ''_'') (CHR ''-'') s;
          s = replace_char (CHR ''.'') (CHR ''-'') s;
          s = replace_char (CHR '','') (CHR ''-'') s;
          s = replace_char (CHR '' '') (CHR ''-'') s;
          s = replace_char (CHR ''#'') (CHR ''-'') s;
          s = replace_char (CHR ''+'') (CHR ''-'') s;
          s = replace_char (CHR ''&'') (CHR ''-'') s
      in s)"

definition ConvertGroupAndNameToKey :: "string \<Rightarrow> string \<Rightarrow> string" where
  "ConvertGroupAndNameToKey groupName name = sanitize groupName @ ''_'' @ sanitize name"

abbreviation reserved_chars :: "char list" where
  "reserved_chars \<equiv> ''/_., #+&''"

definition sanitize_char :: "char \<Rightarrow> char" where
  "sanitize_char c = (if c \<in> set reserved_chars then CHR ''-'' else c)"

lemma sanitize_map: "sanitize s = map sanitize_char (trim_space (to_lower s))"
  by (auto simp: sanitize_def replace_char_def Let_def sanitize_char_def)

lemma sanitize_char_reserved: "sanitize_char c \<notin> set reserved_chars"
  by (simp add: sanitize_char_def)

lemma sanitize_reserved: "set (sanitize s) \<inter> set reserved_chars = {}"
  using sanitize_char_reserved by (auto simp: sanitize_map simp del: list.set)

lemma sanitize_no_underscore [simp]: "CHR ''_'' \<notin> set (sanitize s)"
  using sanitize_reserved [of s] by auto

lemma char_lower_sanitize_char: "char_lower (sanitize_char (char_lower c)) = sanitize_char (char_lower c)"
  by (auto simp: sanitize_char_def char_lower_def Let_def)

lemma sanitize_char_idem: "sanitize_char (sanitize_char c) = sanitize_char c"
  by (simp add: sanitize_char_def)

lemma to_lower_sanitize: "to_lower (sanitize s) = sanitize s"
proof -
  have "\<forall>c \<in> set (trim_space (to_lower s)). char_lower (sanitize_char c) = sanitize_char c"
  proof
    fix c assume "c \<in> set (trim_space (to_lower s))"
    then obtain d where "c = char_lower d"
      using set_trim_space [of "to_lower s"] by (auto simp: to_lower_def)
    then show "char_lower (sanitize_char c) = sanitize_char c"
      by (simp add: char_lower_sanitize_char)
  qed
  then show ?thesis by (simp add: sanitize_map to_lower_def)
qed

text \<open>Two endpoints have the same key only if both sanitized parts agree: the underscore separates them.\<close>

lemma key_eq_iff:
  "ConvertGroupAndNameToKey g n = ConvertGroupAndNameToKey g' n' \<longleftrightarrow>
     sanitize g = sanitize g' \<and> sanitize n = sanitize n'"
  by (simp add: ConvertGroupAndNameToKey_def split_at_eq)

end
