(* ===== verification/Values.thy ===== *)
theory Values
  imports Prelude "HOL-Library.List_Lexorder"
begin

text \<open>
  Dynamically typed values, the \<^verbatim>\<open>interface{}\<close> of the code, and the context that the endpoints of a suite
  share (\<^verbatim>\<open>internal/config/gontext\<close>). A map is an association list with distinct keys. A number is the text
  that \<^verbatim>\<open>%v\<close> prints for it, since the code only prints numbers and never computes with them.
\<close>

datatype val =
    VNil
  | VBool bool
  | VNum string
  | VStr string
  | VList "val list"
  | VMap "(string \<times> val) list"

type_synonym gontext = "(string \<times> val) list"

subsection \<open>Printing\<close>

text \<open>\<^verbatim>\<open>fmt.Sprintf("%v", value)\<close>: maps are printed in the order of their keys.\<close>

fun fmt_v :: "val \<Rightarrow> string" where
  "fmt_v VNil = ''<nil>''"
| "fmt_v (VBool b) = format_bool b"
| "fmt_v (VNum s) = s"
| "fmt_v (VStr s) = s"
| "fmt_v (VList vs) = ''['' @ str_join (map fmt_v vs) '' '' @ '']''"
| "fmt_v (VMap m) =
     ''map['' @ str_join (map (\<lambda>(k, t). k @ '':'' @ t) (sort_key fst (map (\<lambda>(k, v). (k, fmt_v v)) m))) '' '' @ '']''"

subsection \<open>The context\<close>

text \<open>\<open>New\<close> and \<open>GetAll\<close> copy the values deeply; a copy of a value is the value.\<close>

fun deepCopyValue :: "val \<Rightarrow> val" where
  "deepCopyValue (VMap m) = VMap (map (\<lambda>(k, v). (k, deepCopyValue v)) m)"
| "deepCopyValue (VList vs) = VList (map deepCopyValue vs)"
| "deepCopyValue v = v"

definition gontext_New :: "gontext option \<Rightarrow> gontext" where
  "gontext_New initial = map (\<lambda>(k, v). (k, deepCopyValue v)) (case initial of None \<Rightarrow> [] | Some m \<Rightarrow> m)"

definition gontext_GetAll :: "gontext \<Rightarrow> gontext" where
  "gontext_GetAll g = map (\<lambda>(k, v). (k, deepCopyValue v)) g"

text \<open>The walk of \<open>Get\<close> over the segments; \<open>None\<close> is \<open>ErrGontextPathNotFound\<close>.\<close>

fun get_parts :: "val \<Rightarrow> string list \<Rightarrow> val option" where
  "get_parts v [] = Some v"
| "get_parts v (p # ps) =
     (case v of
        VMap m \<Rightarrow> (case map_of m p of None \<Rightarrow> None | Some w \<Rightarrow> get_parts w ps)
      | _ \<Rightarrow> None)"

definition gontext_Get :: "gontext \<Rightarrow> string \<Rightarrow> val option" where
  "gontext_Get g path = get_parts (VMap g) (str_split path ''.'')"

text \<open>\<open>Set\<close> creates the missing maps on its way and replaces what is not a map.\<close>

fun set_parts :: "gontext \<Rightarrow> string list \<Rightarrow> val \<Rightarrow> gontext" where
  "set_parts m [] v = m"
| "set_parts m [p] v = alist_put p v m"
| "set_parts m (p # q # ps) v =
     (let inner = (case map_of m p of Some (VMap m') \<Rightarrow> m' | _ \<Rightarrow> [])
      in alist_put p (VMap (set_parts inner (q # ps) v)) m)"

definition gontext_Set :: "gontext \<Rightarrow> string \<Rightarrow> val \<Rightarrow> gontext" where
  "gontext_Set g path v = set_parts g (str_split path ''.'') v"

section \<open>Facts\<close>

lemma deepCopyValue_id [simp]: "deepCopyValue v = v"
proof (induction v rule: deepCopyValue.induct)
  case (1 m)
  then have "map (\<lambda>(k, v). (k, deepCopyValue v)) m = map id m"
    by (intro map_cong) auto
  then show ?case by simp
next
  case (2 vs)
  then show ?case by (simp add: map_idI)
qed simp_all

lemma gontext_copies [simp]: "gontext_New (Some m) = m" "gontext_New None = []" "gontext_GetAll g = g"
  by (simp_all add: gontext_New_def gontext_GetAll_def case_prod_eta)

lemma get_set_parts: "ps \<noteq> [] \<Longrightarrow> get_parts (VMap (set_parts m ps v)) ps = Some v"
  by (induction m ps v rule: set_parts.induct) (simp_all add: Let_def)

text \<open>Two paths meet when one is a prefix of the other; a path that does not meet the one set keeps its value.\<close>

lemma get_set_parts_other:
  assumes "\<not> prefix ps qs" and "\<not> prefix qs ps" and "get_parts (VMap m) qs = Some w"
  shows "get_parts (VMap (set_parts m ps v)) qs = Some w"
  using assms
proof (induction m ps v arbitrary: qs rule: set_parts.induct)
  case (2 m p v)
  then obtain q qs' where "qs = q # qs'" "q \<noteq> p" by (cases qs) auto
  with 2 show ?case by simp
next
  case (3 m p q ps v)
  then obtain r qs' where qs: "qs = r # qs'" by (cases qs) auto
  show ?case
  proof (cases "r = p")
    case False
    with 3 show ?thesis by (simp add: qs Let_def)
  next
    case True
    define inner where "inner = (case map_of m p of Some (VMap m') \<Rightarrow> m' | _ \<Rightarrow> [])"
    have "qs' \<noteq> []" using 3 qs True by auto
    with "3.prems"(3) have "get_parts (VMap inner) qs' = Some w"
      by (cases qs') (auto simp: qs True inner_def split: option.splits val.splits)
    then have "get_parts (VMap (set_parts inner (q # ps) v)) qs' = Some w"
      using 3 qs True by (intro "3.IH") (simp_all add: inner_def)
    then show ?thesis by (simp add: qs True inner_def [symmetric] Let_def)
  qed
qed auto

lemma gontext_get_set: "gontext_Get (gontext_Set g path v) path = Some v"
  by (simp add: gontext_Get_def gontext_Set_def get_set_parts)

lemma gontext_get_set_other:
  assumes "gontext_Get g other = Some w"
    and "\<not> prefix (str_split path ''.'') (str_split other ''.'')"
    and "\<not> prefix (str_split other ''.'') (str_split path ''.'')"
  shows "gontext_Get (gontext_Set g path v) other = Some w"
  using get_set_parts_other [OF assms(2,3)] assms(1)
  by (simp add: gontext_Get_def gontext_Set_def)

end
