(* ===== verification/Alerts.thy ===== *)
theory Alerts
  imports Values
begin

text \<open>
  The alert configuration of an endpoint (\<^verbatim>\<open>internal/alerting/alert/alert.go\<close>). The record has the
  fields of \<open>Alert\<close>; pointers that may be nil are options, and the free-form \<open>ProviderOverride\<close> is a
  map of dynamic values, empty when nil. The alert type is the string of \<open>alert.Type\<close>.
  \<open>ValidateAndSetDefaults\<close> returns the alert as the code leaves it, next to the error, because the
  code sets the thresholds before it reports an error.
\<close>

record alert =
  al_type :: string
  al_enabled :: "bool option"
  failure_threshold :: int
  success_threshold :: int
  minimum_reminder_interval :: duration
  al_description :: "string option"
  send_on_resolved :: "bool option"
  resolve_key :: string
  triggered :: bool
  provider_override :: "(string \<times> val) list"

datatype alert_error = ErrAlertWithInvalidDescription | ErrAlertWithInvalidMinimumReminderInterval

definition GetDescription :: "alert \<Rightarrow> string" where
  "GetDescription a = (case al_description a of None \<Rightarrow> [] | Some d \<Rightarrow> d)"

definition alert_IsEnabled :: "alert \<Rightarrow> bool" where
  "alert_IsEnabled a = (case al_enabled a of None \<Rightarrow> True | Some b \<Rightarrow> b)"

definition IsSendingOnResolved :: "alert \<Rightarrow> bool" where
  "IsSendingOnResolved a = (case send_on_resolved a of None \<Rightarrow> False | Some b \<Rightarrow> b)"

abbreviation quote_and_backslash :: string where
  "quote_and_backslash \<equiv> [CHR 0x22, CHR 0x5C]"

definition alert_ValidateAndSetDefaults :: "alert \<Rightarrow> alert_error option \<times> alert" where
  "alert_ValidateAndSetDefaults a0 =
     (let a = (if failure_threshold a0 \<le> 0 then a0\<lparr>failure_threshold := 3\<rparr> else a0);
          a = (if success_threshold a \<le> 0 then a\<lparr>success_threshold := 2\<rparr> else a)
      in if minimum_reminder_interval a \<noteq> 0 \<and> minimum_reminder_interval a < 5 * minute
         then (Some ErrAlertWithInvalidMinimumReminderInterval, a)
         else if contains_any (GetDescription a) quote_and_backslash
         then (Some ErrAlertWithInvalidDescription, a)
         else (None, a))"

text \<open>
  The text that \<open>Checksum\<close> hashes, and the checksum for the hash function \<open>sha\<close> (hexadecimal
  SHA-256 in the code): a parameter of the model.
\<close>

definition checksum_input :: "alert \<Rightarrow> string" where
  "checksum_input a =
     al_type a @ ''_'' @
     format_bool (alert_IsEnabled a) @ ''_'' @
     format_bool (IsSendingOnResolved a) @ ''_'' @
     itoa (success_threshold a) @ ''_'' @
     itoa (failure_threshold a) @ ''_'' @
     GetDescription a"

definition Checksum :: "(string \<Rightarrow> string) \<Rightarrow> alert \<Rightarrow> string" where
  "Checksum sha a = sha (checksum_input a)"

text \<open>What a validated alert satisfies: the thresholds are positive and a reminder interval is at least 5 minutes.\<close>

definition valid_alert :: "alert \<Rightarrow> bool" where
  "valid_alert a \<longleftrightarrow>
     0 < failure_threshold a \<and> 0 < success_threshold a \<and>
     (minimum_reminder_interval a = 0 \<or> 5 * minute \<le> minimum_reminder_interval a) \<and>
     set (GetDescription a) \<inter> set quote_and_backslash = {}"

lemma contains_any_iff [go_strings]: "contains_any s cs \<longleftrightarrow> set s \<inter> set cs \<noteq> {}"
  by (auto simp: contains_any_def list_ex_iff)

lemma GetDescription_thresholds [simp]:
  "GetDescription (a\<lparr>failure_threshold := n\<rparr>) = GetDescription a"
  "GetDescription (a\<lparr>success_threshold := n\<rparr>) = GetDescription a"
  by (simp_all add: GetDescription_def)

lemma alert_validate_valid:
  "alert_ValidateAndSetDefaults a = (None, b) \<Longrightarrow> valid_alert b"
  by (auto simp: alert_ValidateAndSetDefaults_def Let_def valid_alert_def contains_any_iff split: if_splits)

lemma alert_validate_id: "valid_alert a \<Longrightarrow> alert_ValidateAndSetDefaults a = (None, a)"
  by (auto simp: alert_ValidateAndSetDefaults_def Let_def valid_alert_def contains_any_iff)

text \<open>The parts of the hashed text can be read back when the alert type has no underscore.\<close>

lemma format_bool_no_underscore [simp]: "CHR ''_'' \<notin> set (format_bool b)"
  by (simp add: format_bool_def)

lemma itoa_no_underscore [simp]: "CHR ''_'' \<notin> set (itoa i)"
  using itoa_chars [of "CHR ''_''" i] by (auto simp: is_digit_def)

lemma checksum_input_eq_iff:
  assumes "CHR ''_'' \<notin> set (al_type a)" and "CHR ''_'' \<notin> set (al_type b)"
  shows "checksum_input a = checksum_input b \<longleftrightarrow>
     al_type a = al_type b \<and> alert_IsEnabled a = alert_IsEnabled b \<and>
     IsSendingOnResolved a = IsSendingOnResolved b \<and>
     success_threshold a = success_threshold b \<and> failure_threshold a = failure_threshold b \<and>
     GetDescription a = GetDescription b"
  using assms by (simp add: checksum_input_def split_at_eq)

text \<open>The run-time fields \<open>triggered\<close> and \<open>resolve_key\<close> are not part of the checksum.\<close>

lemma Checksum_runtime [simp]:
  "Checksum sha (a\<lparr>triggered := t\<rparr>) = Checksum sha a"
  "Checksum sha (a\<lparr>resolve_key := k\<rparr>) = Checksum sha a"
  by (simp_all add: Checksum_def checksum_input_def alert_IsEnabled_def IsSendingOnResolved_def GetDescription_def)

lemma alert_accessors_runtime [simp]:
  "alert_IsEnabled (a\<lparr>triggered := t\<rparr>) = alert_IsEnabled a"
  "alert_IsEnabled (a\<lparr>resolve_key := k\<rparr>) = alert_IsEnabled a"
  "IsSendingOnResolved (a\<lparr>triggered := t\<rparr>) = IsSendingOnResolved a"
  "IsSendingOnResolved (a\<lparr>resolve_key := k\<rparr>) = IsSendingOnResolved a"
  by (simp_all add: alert_IsEnabled_def IsSendingOnResolved_def)

text \<open>The configuration of an alert: the alert without its run-time fields.\<close>

definition alert_config :: "alert \<Rightarrow> alert" where
  "alert_config a = a\<lparr>resolve_key := [], triggered := False\<rparr>"

lemma alert_config_runtime [simp]:
  "alert_config (a\<lparr>triggered := t\<rparr>) = alert_config a"
  "alert_config (a\<lparr>resolve_key := k\<rparr>) = alert_config a"
  "alert_config (alert_config a) = alert_config a"
  by (simp_all add: alert_config_def)

lemma alert_config_selectors:
  assumes "alert_config a = alert_config b"
  shows "al_type a = al_type b" and "alert_IsEnabled a = alert_IsEnabled b"
    and "IsSendingOnResolved a = IsSendingOnResolved b"
    and "failure_threshold a = failure_threshold b" and "success_threshold a = success_threshold b"
    and "minimum_reminder_interval a = minimum_reminder_interval b"
    and "Checksum sha a = Checksum sha b"
proof -
  have "al_type (alert_config a) = al_type (alert_config b)"
    "alert_IsEnabled (alert_config a) = alert_IsEnabled (alert_config b)"
    "IsSendingOnResolved (alert_config a) = IsSendingOnResolved (alert_config b)"
    "failure_threshold (alert_config a) = failure_threshold (alert_config b)"
    "success_threshold (alert_config a) = success_threshold (alert_config b)"
    "minimum_reminder_interval (alert_config a) = minimum_reminder_interval (alert_config b)"
    "Checksum sha (alert_config a) = Checksum sha (alert_config b)"
    using assms by simp_all
  then show "al_type a = al_type b" and "alert_IsEnabled a = alert_IsEnabled b"
    and "IsSendingOnResolved a = IsSendingOnResolved b"
    and "failure_threshold a = failure_threshold b" and "success_threshold a = success_threshold b"
    and "minimum_reminder_interval a = minimum_reminder_interval b"
    and "Checksum sha a = Checksum sha b"
    by (simp_all add: alert_config_def)
qed

end
