(* ===== verification/Maintenance.thy ===== *)
theory Maintenance
  imports Prelude
begin

text \<open>
  Maintenance windows (\<^verbatim>\<open>internal/config/maintenance/maintenance.go\<close>), during which no alert is
  sent. A location is UTC or a zone given by the lookup of the time zone database: for a Unix second,
  the offset of the zone in seconds and the first and the past-the-end second of the period in which
  that offset applies. \<open>date_midnight\<close> is \<open>time.Date\<close> of a day at 00:00: the wall clock is turned
  into an instant by the two lookups that Go makes. \<open>IsUnderMaintenance\<close> takes the instant that
  \<open>time.Now\<close> returns and the local location of the process.
\<close>

datatype location = UTC | Zone "int \<Rightarrow> int \<times> int \<times> int"

datatype maintenance_error =
    ErrInvalidMaintenanceStartFormat
  | ErrStartNotANumber string
  | ErrInvalidMaintenanceDuration
  | ErrInvalidDayName
  | ErrInvalidTimezone

definition longDayNames :: "string list" where
  "longDayNames =
     [''Sunday'', ''Monday'', ''Tuesday'', ''Wednesday'', ''Thursday'', ''Friday'', ''Saturday'']"

record maintenance =
  mw_enabled :: "bool option"
  mw_start :: string
  mw_duration :: duration
  mw_timezone :: string
  mw_every :: "string list"
  timezoneLocation :: "location option"
  durationToStartFromMidnight :: duration

definition mw_GetDefaultConfig :: maintenance where
  "mw_GetDefaultConfig =
     \<lparr>mw_enabled = Some False, mw_start = [], mw_duration = 0, mw_timezone = [], mw_every = [],
      timezoneLocation = None, durationToStartFromMidnight = 0\<rparr>"

definition mw_IsEnabled :: "maintenance \<Rightarrow> bool" where
  "mw_IsEnabled c = (case mw_enabled c of None \<Rightarrow> True | Some b \<Rightarrow> b)"

subsection \<open>The start of a window\<close>

definition extractNumericalValueFromPotentiallyZeroPaddedString :: "string \<Rightarrow> int option" where
  "extractNumericalValueFromPotentiallyZeroPaddedString s = atoi (trim_prefix s ''0'')"

definition hhmmToDuration :: "string \<Rightarrow> maintenance_error + duration" where
  "hhmmToDuration s =
     (if length s \<noteq> 5 then Inl ErrInvalidMaintenanceStartFormat
      else
        (let hh = take 2 s; mm = take 2 (drop 3 s)
         in case extractNumericalValueFromPotentiallyZeroPaddedString hh of
              None \<Rightarrow> Inl (ErrStartNotANumber hh)
            | Some hours \<Rightarrow>
                (case extractNumericalValueFromPotentiallyZeroPaddedString mm of
                   None \<Rightarrow> Inl (ErrStartNotANumber mm)
                 | Some minutes \<Rightarrow>
                     (let duration = hours * hour + minutes * minute
                      in if hours < 0 \<or> hours > 23 \<or> minutes < 0 \<or> minutes > 59 \<or>
                            duration < 0 \<or> duration \<ge> 24 * hour
                         then Inl ErrInvalidMaintenanceStartFormat
                         else Inr duration))))"

text \<open>
  \<open>ValidateAndSetDefaults\<close>, with \<open>load\<close> for \<open>time.LoadLocation\<close> (the time zone database). A nil
  configuration is the caller's \<open>None\<close>; the window is returned as the code leaves it.
\<close>

definition mw_ValidateAndSetDefaults ::
    "(string \<Rightarrow> location option) \<Rightarrow> maintenance \<Rightarrow> maintenance_error option \<times> maintenance" where
  "mw_ValidateAndSetDefaults load c =
     (if \<not> mw_IsEnabled c then (None, c)
      else if list_ex (\<lambda>day. day \<notin> set longDayNames) (mw_every c) then (Some ErrInvalidDayName, c)
      else case hhmmToDuration (mw_start c) of
             Inl e \<Rightarrow> (Some e, c\<lparr>durationToStartFromMidnight := 0\<rparr>)
           | Inr d \<Rightarrow>
               (let c = c\<lparr>durationToStartFromMidnight := d\<rparr>
                in if mw_duration c \<le> 0 \<or> mw_duration c > 24 * hour
                   then (Some ErrInvalidMaintenanceDuration, c)
                   else if mw_timezone c \<noteq> []
                   then (case load (mw_timezone c) of
                           None \<Rightarrow> (Some ErrInvalidTimezone, c\<lparr>timezoneLocation := None\<rparr>)
                         | Some l \<Rightarrow> (None, c\<lparr>timezoneLocation := Some l\<rparr>))
                   else (None, c\<lparr>mw_timezone := ''UTC'', timezoneLocation := Some UTC\<rparr>)))"

subsection \<open>The calendar\<close>

definition zone_offset :: "location \<Rightarrow> int \<Rightarrow> int" where
  "zone_offset loc sec = (case loc of UTC \<Rightarrow> 0 | Zone lookup \<Rightarrow> fst (lookup sec))"

text \<open>The wall clock in a location, in seconds since January 1, 1970 at 00:00 of that wall clock.\<close>

definition wall_clock :: "location \<Rightarrow> time \<Rightarrow> int" where
  "wall_clock loc t = (let sec = t div second in sec + zone_offset loc sec)"

definition day_number :: "location \<Rightarrow> time \<Rightarrow> int" where
  "day_number loc t = wall_clock loc t div 86400"

definition hour_of_day :: "location \<Rightarrow> time \<Rightarrow> int" where
  "hour_of_day loc t = (wall_clock loc t mod 86400) div 3600"

text \<open>January 1, 1970 was a Thursday.\<close>

definition weekday_name :: "location \<Rightarrow> time \<Rightarrow> string" where
  "weekday_name loc t = longDayNames ! nat ((day_number loc t + 4) mod 7)"

definition date_midnight :: "location \<Rightarrow> int \<Rightarrow> time" where
  "date_midnight loc day =
     (let unix = day * 86400
      in case loc of
           UTC \<Rightarrow> unix * second
         | Zone lookup \<Rightarrow>
             (let (offset, start, end') = lookup unix
              in if offset = 0 then unix * second
                 else (let utc = unix - offset;
                           offset = (if utc < start \<or> utc \<ge> end' then fst (lookup utc) else offset)
                       in (unix - offset) * second)))"

definition IsUnderMaintenance :: "location \<Rightarrow> time \<Rightarrow> maintenance \<Rightarrow> bool" where
  "IsUnderMaintenance local now c =
     (if \<not> mw_IsEnabled c then False
      else
        (let loc = (case timezoneLocation c of None \<Rightarrow> local | Some l \<Rightarrow> l);
             adjustedDate = day_number loc now -
               (if hour_of_day loc now < durationToStartFromMidnight c div hour then 1 else 0);
             dayStart = date_midnight loc adjustedDate;
             everyDay = mw_every c = [];
             scheduled = weekday_name loc dayStart \<in> set (mw_every c)
         in if \<not> everyDay \<and> \<not> scheduled then False
            else
              (let start = dayStart + durationToStartFromMidnight c;
                   end' = start + mw_duration c
               in start < now \<and> now < end')))"

subsection \<open>Lemmas\<close>

lemma hhmmToDuration_bounds:
  "hhmmToDuration s = Inr d \<Longrightarrow> 0 \<le> d \<and> d < 24 * hour"
  by (auto simp: hhmmToDuration_def Let_def go_time split: option.splits if_splits)

lemma atoi_small:
  assumes "n < 100"
  shows "atoi (nat_digits n) = Some (int n)"
proof -
  have "in_int64 (int n)" using assms by (simp add: in_int64_def)
  from atoi_itoa [OF this] show ?thesis by (simp add: itoa_def)
qed

text \<open>Two digits, zero padded, as \<^verbatim>\<open>hh:mm\<close> wants them.\<close>

definition two_digits :: "nat \<Rightarrow> string" where
  "two_digits n = [digit_char (n div 10), digit_char (n mod 10)]"

lemma two_digits_trim:
  "n < 100 \<Longrightarrow> trim_prefix (two_digits n) ''0'' = nat_digits n"
proof -
  assume n: "n < 100"
  show ?thesis
  proof (cases "n < 10")
    case True
    then show ?thesis by (simp add: two_digits_def trim_prefix_def nat_digits.simps [of n])
  next
    case False
    then have d: "n div 10 < 10" "n div 10 \<noteq> 0" using n by auto
    then have "digit_char (n div 10) \<noteq> CHR ''0''" by (simp add: digit_char_eq_0)
    with False d show ?thesis
      by (simp add: two_digits_def trim_prefix_def nat_digits.simps [of n] nat_digits.simps [of "n div 10"])
  qed
qed

lemma extract_two_digits:
  "n < 100 \<Longrightarrow> extractNumericalValueFromPotentiallyZeroPaddedString (two_digits n) = Some (int n)"
  by (simp add: extractNumericalValueFromPotentiallyZeroPaddedString_def two_digits_trim atoi_small)

lemma length_two_digits [simp]: "length (two_digits n) = 2"
  by (simp add: two_digits_def)

lemma hhmm_roundtrip:
  assumes "h < 24" and "m < 60"
  shows "hhmmToDuration (two_digits h @ '':'' @ two_digits m) = Inr (int h * hour + int m * minute)"
proof -
  have "take 2 (drop 3 (two_digits h @ '':'' @ two_digits m)) = two_digits m"
    by (simp add: two_digits_def)
  moreover have "int h * hour + int m * minute < 24 * hour"
    using assms by (simp add: go_time)
  ultimately show ?thesis using assms
    by (simp add: hhmmToDuration_def Let_def extract_two_digits) (simp add: go_time)
qed

text \<open>
  In UTC the window chosen by the code is compared with the set of all scheduled windows: the one of
  each day \<open>d\<close> that is scheduled, from \<open>d\<close> at the start until the duration has passed.
\<close>

definition window_open :: "maintenance \<Rightarrow> int \<Rightarrow> time \<Rightarrow> bool" where
  "window_open c d now \<longleftrightarrow>
     (let start = d * (24 * hour) + durationToStartFromMidnight c
      in (mw_every c = [] \<or> longDayNames ! nat ((d + 4) mod 7) \<in> set (mw_every c)) \<and>
         start < now \<and> now < start + mw_duration c)"

definition utc_window :: "maintenance \<Rightarrow> bool" where
  "utc_window c \<longleftrightarrow>
     mw_IsEnabled c \<and> timezoneLocation c = Some UTC \<and>
     0 \<le> durationToStartFromMidnight c \<and> durationToStartFromMidnight c < 24 * hour \<and>
     0 < mw_duration c \<and> mw_duration c \<le> 24 * hour"

lemma utc_day: "day_number UTC t = t div (24 * hour)"
  by (simp add: day_number_def wall_clock_def zone_offset_def go_time zdiv_zmult2_eq [symmetric])

lemma utc_hour: "hour_of_day UTC t = (t mod (24 * hour)) div hour"
  by (simp add: hour_of_day_def wall_clock_def zone_offset_def go_time div_mod_swap zdiv_zmult2_eq [symmetric])

lemma utc_midnight: "date_midnight UTC d = d * (24 * hour)"
  by (simp add: date_midnight_def go_time)

lemma utc_midnight_weekday: "weekday_name UTC (d * (24 * hour)) = longDayNames ! nat ((d + 4) mod 7)"
  by (simp add: weekday_name_def utc_day) (simp add: go_time)

lemma IsUnderMaintenance_utc:
  "utc_window c \<Longrightarrow>
   IsUnderMaintenance local now c =
     window_open c (now div (24 * hour) -
       (if (now mod (24 * hour)) div hour < durationToStartFromMidnight c div hour then 1 else 0)) now"
  by (simp add: IsUnderMaintenance_def utc_window_def Let_def utc_day utc_hour utc_midnight
      utc_midnight_weekday window_open_def)

text \<open>
  Which day can have its window open: today's or yesterday's. Yesterday's window can be open after
  the hour of the start only when the duration exceeds a day less the minutes of the start.
\<close>

lemma window_open_day:
  assumes "utc_window c" and "window_open c d now"
    and short: "mw_duration c \<le> 24 * hour - durationToStartFromMidnight c mod hour"
  shows "d = now div (24 * hour) -
       (if (now mod (24 * hour)) div hour < durationToStartFromMidnight c div hour then 1 else 0)"
proof -
  define s where "s = durationToStartFromMidnight c"
  define q where "q = now div (24 * hour)"
  define r where "r = now mod (24 * hour)"
  have now: "now = q * 86400000000000 + r" and r: "0 \<le> r" "r < 86400000000000"
    by (simp_all add: q_def r_def go_time)
  have s: "0 \<le> s" "s < 86400000000000" and dur: "mw_duration c \<le> 86400000000000 - s mod 3600000000000"
    and o: "d * 86400000000000 + s < now" "now < d * 86400000000000 + s + mw_duration c"
    using assms by (auto simp: s_def utc_window_def window_open_def Let_def go_time)
  have sq: "s = (s div 3600000000000) * 3600000000000 + s mod 3600000000000"
    and rq: "r = (r div 3600000000000) * 3600000000000 + r mod 3600000000000" by simp_all
  have sm: "0 \<le> s mod 3600000000000" "s mod 3600000000000 < 3600000000000"
    and rm: "0 \<le> r mod 3600000000000" "r mod 3600000000000 < 3600000000000" by simp_all
  show ?thesis
  proof (cases "r div 3600000000000 < s div 3600000000000")
    case True
    then have "r div 3600000000000 \<le> s div 3600000000000 - 1" by simp
    then have "r < s" using sq rq sm rm by linarith
    have "\<not> d \<le> q - 2" using now r s o dur sm by linarith
    moreover have "\<not> q \<le> d" using now r s o \<open>r < s\<close> by linarith
    ultimately have "d = q - 1" by linarith
    then show ?thesis using True by (simp add: q_def r_def s_def go_time)
  next
    case False
    then have "s div 3600000000000 \<le> r div 3600000000000" by simp
    then have le: "s - s mod 3600000000000 \<le> r" using sq rq rm by linarith
    have "\<not> d \<le> q - 1" using now r s o dur le by linarith
    moreover have "\<not> q + 1 \<le> d" using now r s o by linarith
    ultimately have "d = q" by linarith
    then show ?thesis using False by (simp add: q_def r_def s_def go_time)
  qed
qed

end
