(* ===== verification/Clients.thy ===== *)
theory Clients
  imports Prelude
begin

text \<open>
  The settings of the client of an endpoint (\<^verbatim>\<open>internal/client/config.go\<close>) and their validation. The
  regular expression of the DNS resolver is written out: the protocol is what precedes the last
  \<^verbatim>\<open>://\<close> from which the rest matches. A resolved tunnel is represented by its name. The HTTP client
  that \<open>getHTTPClient\<close> builds from these settings is a parameter of the checks (theory \<open>Health\<close>).
\<close>

record oauth2_config =
  TokenURL :: string
  ClientID :: string
  ClientSecret :: string
  Scopes :: "string list"

record iap_config =
  Audience :: string

record tls_config =
  CertificateFile :: string
  PrivateKeyFile :: string
  RenegotiationSupport :: string

record client_config =
  cl_proxy_url :: string
  cl_insecure :: bool
  cl_ignore_redirect :: bool
  cl_timeout :: duration
  cl_dns_resolver :: string
  cl_oauth2 :: "oauth2_config option"
  cl_iap :: "iap_config option"
  cl_network :: string
  cl_tls :: "tls_config option"
  cl_tunnel :: string
  cl_resolved_tunnel :: "string option"
  cl_store_cookies :: bool

definition client_GetDefaultConfig :: client_config where
  "client_GetDefaultConfig =
     \<lparr>cl_proxy_url = [], cl_insecure = False, cl_ignore_redirect = False, cl_timeout = 10 * second,
      cl_dns_resolver = [], cl_oauth2 = None, cl_iap = None, cl_network = ''ip'', cl_tls = None,
      cl_tunnel = [], cl_resolved_tunnel = None, cl_store_cookies = False\<rparr>"

datatype client_error =
    ErrInvalidDNSResolver
  | InvalidPortNumber
  | ErrInvalidDNSResolverPort
  | ErrInvalidClientOAuth2Config
  | ErrInvalidClientIAPConfig
  | ErrInvalidClientTLSConfig
  | InvalidKeyPair string

record dns_resolver_config =
  dr_protocol :: string
  dr_host :: string
  dr_port :: string

definition is_host_char :: "char \<Rightarrow> bool" where
  "is_host_char c \<longleftrightarrow>
     (let n = of_char c :: nat
      in 65 \<le> n \<and> n \<le> 90 \<or> 97 \<le> n \<and> n \<le> 122 \<or> 48 \<le> n \<and> n \<le> 57 \<or> c = CHR ''-'' \<or> c = CHR ''.'')"

text \<open>What follows \<^verbatim>\<open>://\<close>: the longest run of host characters, a colon, and the digits of the port, possibly none.\<close>

definition match_host_port :: "string \<Rightarrow> (string \<times> string) option" where
  "match_host_port s =
     (let host = takeWhile is_host_char s; rest = dropWhile is_host_char s
      in if host \<noteq> [] \<and> prefix '':'' rest then Some (host, takeWhile is_digit (tl rest)) else None)"

text \<open>The greedy protocol: the matches further to the right are preferred.\<close>

fun match_resolver :: "string \<Rightarrow> string \<Rightarrow> dns_resolver_config option" where
  "match_resolver proto [] = None"
| "match_resolver proto (c # s) =
     (case match_resolver (proto @ [c]) s of
        Some d \<Rightarrow> Some d
      | None \<Rightarrow>
          (if prefix ''://'' (c # s)
           then map_option (\<lambda>(host, port). \<lparr>dr_protocol = proto, dr_host = host, dr_port = port\<rparr>)
                  (match_host_port (drop 3 (c # s)))
           else None))"

definition parseDNSResolver :: "string \<Rightarrow> client_error + dns_resolver_config" where
  "parseDNSResolver resolver =
     (if CHR 0x0A \<in> set resolver then Inl ErrInvalidDNSResolver
      else (case match_resolver [] resolver of
              None \<Rightarrow> Inl ErrInvalidDNSResolver
            | Some d \<Rightarrow>
                (case atoi (dr_port d) of
                   None \<Rightarrow> Inl InvalidPortNumber
                 | Some port \<Rightarrow>
                     (if port < 1 \<or> port > 65535 then Inl ErrInvalidDNSResolverPort else Inr d))))"

definition HasCustomDNSResolver :: "client_config \<Rightarrow> bool" where
  "HasCustomDNSResolver c \<longleftrightarrow> cl_dns_resolver c \<noteq> []"

definition oauth2_isValid :: "oauth2_config \<Rightarrow> bool" where
  "oauth2_isValid c \<longleftrightarrow> TokenURL c \<noteq> [] \<and> ClientID c \<noteq> [] \<and> ClientSecret c \<noteq> [] \<and> Scopes c \<noteq> []"

definition iap_isValid :: "iap_config \<Rightarrow> bool" where
  "iap_isValid c \<longleftrightarrow> Audience c \<noteq> []"

definition HasTLSConfig :: "client_config \<Rightarrow> bool" where
  "HasTLSConfig c \<longleftrightarrow>
     (case cl_tls c of None \<Rightarrow> False | Some t \<Rightarrow> CertificateFile t \<noteq> [] \<and> PrivateKeyFile t \<noteq> [])"

text \<open>\<open>load\<close> is \<^verbatim>\<open>tls.LoadX509KeyPair\<close>: the error, if any, of the pair of files.\<close>

definition tls_isValid :: "(string \<Rightarrow> string \<Rightarrow> string option) \<Rightarrow> tls_config \<Rightarrow> client_error option" where
  "tls_isValid load t =
     (if CertificateFile t \<noteq> [] \<and> PrivateKeyFile t \<noteq> []
      then map_option InvalidKeyPair (load (CertificateFile t) (PrivateKeyFile t))
      else Some ErrInvalidClientTLSConfig)"

definition dns_resolver_error :: "client_config \<Rightarrow> client_error option" where
  "dns_resolver_error c =
     (if HasCustomDNSResolver c
      then (case parseDNSResolver (cl_dns_resolver c) of Inl e \<Rightarrow> Some e | Inr _ \<Rightarrow> None) else None)"

definition client_check :: "(string \<Rightarrow> string \<Rightarrow> string option) \<Rightarrow> client_config \<Rightarrow> client_error option" where
  "client_check load c =
     (case dns_resolver_error c of
        Some e \<Rightarrow> Some e
      | None \<Rightarrow>
          (if (case cl_oauth2 c of None \<Rightarrow> False | Some o2 \<Rightarrow> \<not> oauth2_isValid o2)
           then Some ErrInvalidClientOAuth2Config
           else if (case cl_iap c of None \<Rightarrow> False | Some iap \<Rightarrow> \<not> iap_isValid iap)
           then Some ErrInvalidClientIAPConfig
           else if HasTLSConfig c then (case cl_tls c of None \<Rightarrow> None | Some t \<Rightarrow> tls_isValid load t)
           else None))"

definition client_ValidateAndSetDefaults ::
    "(string \<Rightarrow> string \<Rightarrow> string option) \<Rightarrow> client_config \<Rightarrow> client_error option \<times> client_config" where
  "client_ValidateAndSetDefaults load c0 =
     (let c = (if cl_timeout c0 < millisecond then c0\<lparr>cl_timeout := 10 * second\<rparr> else c0)
      in (client_check load c, c))"

section \<open>Facts\<close>

lemma match_host_port_text:
  assumes "match_host_port s = Some (host, port)"
  obtains rest where "s = host @ '':'' @ port @ rest" and "host \<noteq> []" and "list_all is_host_char host"
    and "list_all is_digit port"
proof -
  let ?rest = "dropWhile is_host_char s"
  from assms have host: "host = takeWhile is_host_char s" "host \<noteq> []" and colon: "prefix '':'' ?rest"
    and port: "port = takeWhile is_digit (tl ?rest)"
    by (auto simp: match_host_port_def Let_def split: if_splits)
  from colon have "?rest = '':'' @ tl ?rest" by (cases ?rest) auto
  moreover have "tl ?rest = port @ dropWhile is_digit (tl ?rest)" by (simp add: port)
  ultimately have "s = host @ '':'' @ port @ dropWhile is_digit (tl ?rest)"
    by (metis host(1) takeWhile_dropWhile_id append.assoc)
  moreover have "list_all is_host_char host" and "list_all is_digit port"
    by (auto simp: host(1) port list_all_iff dest: set_takeWhileD)
  ultimately show ?thesis using that host(2) by blast
qed

lemma match_resolver_text:
  assumes "match_resolver proto s = Some d"
  shows "\<exists>rest. proto @ s = dr_protocol d @ ''://'' @ dr_host d @ '':'' @ dr_port d @ rest \<and> dr_host d \<noteq> [] \<and>
    list_all is_host_char (dr_host d) \<and> list_all is_digit (dr_port d)"
  using assms
proof (induction proto s rule: match_resolver.induct)
  case (2 proto c s)
  show ?case
  proof (cases "match_resolver (proto @ [c]) s")
    case (Some d')
    with 2 show ?thesis by simp
  next
    case None
    with "2.prems" obtain host port where pre: "prefix ''://'' (c # s)"
      and m: "match_host_port (drop 3 (c # s)) = Some (host, port)"
      and d: "d = \<lparr>dr_protocol = proto, dr_host = host, dr_port = port\<rparr>"
      by (auto split: if_splits)
    obtain t where t: "c # s = ''://'' @ t" using pre by (auto simp: prefix_def)
    with m have "match_host_port t = Some (host, port)" by simp
    then obtain rest where "t = host @ '':'' @ port @ rest" "host \<noteq> []" "list_all is_host_char host"
      "list_all is_digit port" by (rule match_host_port_text)
    then show ?thesis by (simp add: d t)
  qed
qed simp

lemma parseDNSResolver_text:
  assumes "parseDNSResolver s = Inr d"
  shows "\<exists>rest. s = dr_protocol d @ ''://'' @ dr_host d @ '':'' @ dr_port d @ rest \<and> dr_host d \<noteq> [] \<and>
    list_all is_host_char (dr_host d) \<and> list_all is_digit (dr_port d) \<and>
    (\<exists>port. atoi (dr_port d) = Some port \<and> 1 \<le> port \<and> port \<le> 65535)"
  using assms match_resolver_text [of "[]" s d]
  by (auto simp: parseDNSResolver_def split: if_splits option.splits)

lemma client_never_incomplete_tls: "client_check load c \<noteq> Some ErrInvalidClientTLSConfig"
  by (auto simp: client_check_def dns_resolver_error_def HasTLSConfig_def tls_isValid_def parseDNSResolver_def
      split: option.splits sum.splits)

end
