(* ===== verification/Endpoints.thy ===== *)
theory Endpoints
  imports Keys Alerts Maintenance Clients
begin

text \<open>
  The endpoint, external endpoint and result objects (\<^verbatim>\<open>internal/config/endpoint\<close>: \<^verbatim>\<open>endpoint.go\<close>,
  \<^verbatim>\<open>external_endpoint.go\<close>, \<^verbatim>\<open>common.go\<close>, \<^verbatim>\<open>result.go\<close>, \<^verbatim>\<open>result_push.go\<close>, \<^verbatim>\<open>event.go\<close>, \<^verbatim>\<open>ui/ui.go\<close>,
  \<^verbatim>\<open>ssh/ssh.go\<close>, \<^verbatim>\<open>dns/dns.go\<close>). The records keep the fields of the Go structs. A map is an association
  list. The pointers of \<open>Alerts\<close> and \<open>MaintenanceWindows\<close> are taken to be non-nil.
\<close>

subsection \<open>Sub-configurations\<close>

text \<open>\<open>badge_thresholds\<close> is \<open>Badge.ResponseTime\<close>: the outer option is the pointer \<open>Badge\<close>, the inner one \<open>ResponseTime\<close>.\<close>

record ui_config =
  HideConditions :: bool
  HideHostname :: bool
  HideURL :: bool
  HidePort :: bool
  HideErrors :: bool
  DontResolveFailedConditions :: bool
  ResolveSuccessfulConditions :: bool
  badge_thresholds :: "int list option option"

definition ui_GetDefaultConfig :: ui_config where
  "ui_GetDefaultConfig =
     \<lparr>HideConditions = False, HideHostname = False, HideURL = False, HidePort = False, HideErrors = False,
      DontResolveFailedConditions = False, ResolveSuccessfulConditions = False,
      badge_thresholds = Some (Some [50, 200, 300, 500, 750])\<rparr>"

datatype ui_error = ErrInvalidBadgeResponseTimeConfig | UiNilPointerPanic

text \<open>A badge section without \<open>response-time\<close> dereferences a nil pointer: the panic is an error of its own.\<close>

definition ui_ValidateAndSetDefaults :: "ui_config \<Rightarrow> ui_error + ui_config" where
  "ui_ValidateAndSetDefaults c =
     (case badge_thresholds c of
        None \<Rightarrow> Inr (c\<lparr>badge_thresholds := badge_thresholds ui_GetDefaultConfig\<rparr>)
      | Some None \<Rightarrow> Inl UiNilPointerPanic
      | Some (Some ts) \<Rightarrow>
          (if length ts \<noteq> 5 then Inl ErrInvalidBadgeResponseTimeConfig
           else if list_ex (\<lambda>i. ts ! i < ts ! (i - 1)) [4, 3, 2, 1]
           then Inl ErrInvalidBadgeResponseTimeConfig
           else Inr c))"

record ssh_config =
  ssh_username :: string
  ssh_password :: string
  ssh_private_key :: string

datatype ssh_error = ErrEndpointWithoutSSHUsername | ErrEndpointWithoutSSHAuth

definition ssh_Validate :: "ssh_config \<Rightarrow> ssh_error option" where
  "ssh_Validate cfg =
     (if ssh_username cfg = [] \<and> ssh_password cfg = [] \<and> ssh_private_key cfg = [] then None
      else if ssh_username cfg = [] then Some ErrEndpointWithoutSSHUsername
      else if ssh_password cfg = [] \<and> ssh_private_key cfg = [] then Some ErrEndpointWithoutSSHAuth
      else None)"

record dns_config =
  dns_query_type :: string
  dns_query_name :: string

datatype dns_error = ErrDNSWithNoQueryName | ErrDNSWithInvalidQueryType

text \<open>\<open>known\<close> tells the record types of the DNS library (a third-party package).\<close>

definition dns_ValidateAndSetDefault ::
    "(string \<Rightarrow> bool) \<Rightarrow> dns_config \<Rightarrow> dns_error option \<times> dns_config" where
  "dns_ValidateAndSetDefault known d =
     (if dns_query_name d = [] then (Some ErrDNSWithNoQueryName, d)
      else
        (let d = (if \<not> suffix ''.'' (dns_query_name d)
                  then d\<lparr>dns_query_name := dns_query_name d @ ''.''\<rparr> else d)
         in if \<not> known (dns_query_type d) then (Some ErrDNSWithInvalidQueryType, d) else (None, d)))"

subsection \<open>Endpoint\<close>

record endpoint =
  ep_enabled :: "bool option"
  ep_name :: string
  ep_group :: string
  ep_url :: string
  ep_method :: string
  ep_body :: string
  ep_graphql :: bool
  ep_headers :: "(string \<times> string) list"
  ep_extra_labels :: "(string \<times> string) list"
  ep_interval :: duration
  ep_conditions :: "string list"
  ep_alerts :: "alert list"
  ep_maintenance_windows :: "maintenance list"
  ep_dns :: "dns_config option"
  ep_ssh :: "ssh_config option"
  ep_client :: "client_config option"
  ep_ui :: "ui_config option"
  NumberOfFailuresInARow :: int
  NumberOfSuccessesInARow :: int
  LastReminderSent :: time
  ep_store :: "(string \<times> string) list"
  ep_always_run :: bool

text \<open>The zero value of the struct.\<close>

definition empty_endpoint :: endpoint where
  "empty_endpoint =
     \<lparr>ep_enabled = None, ep_name = [], ep_group = [], ep_url = [], ep_method = [], ep_body = [],
      ep_graphql = False, ep_headers = [], ep_extra_labels = [], ep_interval = 0, ep_conditions = [], ep_alerts = [],
      ep_maintenance_windows = [], ep_dns = None, ep_ssh = None, ep_client = None, ep_ui = None,
      NumberOfFailuresInARow = 0, NumberOfSuccessesInARow = 0, LastReminderSent = zero_time,
      ep_store = [], ep_always_run = False\<rparr>"

definition ep_IsEnabled :: "endpoint \<Rightarrow> bool" where
  "ep_IsEnabled e = (case ep_enabled e of None \<Rightarrow> True | Some b \<Rightarrow> b)"

definition ep_DisplayName :: "endpoint \<Rightarrow> string" where
  "ep_DisplayName e = (if ep_group e \<noteq> [] then ep_group e @ ''/'' @ ep_name e else ep_name e)"

definition ep_Key :: "endpoint \<Rightarrow> string" where
  "ep_Key e = ConvertGroupAndNameToKey (ep_group e) (ep_name e)"

datatype endpoint_type =
    TypeDNS | TypeTCP | TypeSCTP | TypeUDP | TypeICMP | TypeSTARTTLS | TypeTLS | TypeHTTP | TypeGRPC
  | TypeWS | TypeSSH | TypeUNKNOWN

definition ep_Type :: "endpoint \<Rightarrow> endpoint_type" where
  "ep_Type e =
     (if ep_dns e \<noteq> None then TypeDNS
      else if prefix ''tcp://'' (ep_url e) then TypeTCP
      else if prefix ''sctp://'' (ep_url e) then TypeSCTP
      else if prefix ''udp://'' (ep_url e) then TypeUDP
      else if prefix ''icmp://'' (ep_url e) then TypeICMP
      else if prefix ''starttls://'' (ep_url e) then TypeSTARTTLS
      else if prefix ''tls://'' (ep_url e) then TypeTLS
      else if prefix ''http://'' (ep_url e) \<or> prefix ''https://'' (ep_url e) then TypeHTTP
      else if prefix ''grpc://'' (ep_url e) \<or> prefix ''grpcs://'' (ep_url e) then TypeGRPC
      else if prefix ''ws://'' (ep_url e) \<or> prefix ''wss://'' (ep_url e) then TypeWS
      else if prefix ''ssh://'' (ep_url e) then TypeSSH
      else TypeUNKNOWN)"

definition hasHeader :: "(string \<times> string) list \<Rightarrow> string \<Rightarrow> bool" where
  "hasHeader headers name = list_ex (\<lambda>(k, _). equal_fold k name) headers"

datatype name_error =
    ErrEndpointWithNoName | ErrEndpointWithInvalidNameOrGroup | InvalidAlert alert_error

text \<open>The loop over the alerts stops at the first invalid one; the alerts before it keep their defaults.\<close>

fun validate_alerts :: "alert list \<Rightarrow> alert_error option \<times> alert list" where
  "validate_alerts [] = (None, [])"
| "validate_alerts (a # as) =
     (case alert_ValidateAndSetDefaults a of
        (Some e, a') \<Rightarrow> (Some e, a' # as)
      | (None, a') \<Rightarrow> (let (e, as') = validate_alerts as in (e, a' # as')))"

definition validateEndpointNameGroupAndAlerts ::
    "string \<Rightarrow> string \<Rightarrow> alert list \<Rightarrow> name_error option \<times> alert list" where
  "validateEndpointNameGroupAndAlerts name grp alerts =
     (if name = [] then (Some ErrEndpointWithNoName, alerts)
      else if contains_any name quote_and_backslash \<or> contains_any grp quote_and_backslash
      then (Some ErrEndpointWithInvalidNameOrGroup, alerts)
      else (case validate_alerts alerts of
              (Some e, as) \<Rightarrow> (Some (InvalidAlert e), as)
            | (None, as) \<Rightarrow> (None, as)))"

subsection \<open>External endpoint\<close>

record heartbeat =
  hb_interval :: duration
  hb_retries :: int

record external_endpoint =
  ee_enabled :: "bool option"
  ee_name :: string
  ee_group :: string
  ee_token :: string
  ee_alerts :: "alert list"
  ee_maintenance_windows :: "maintenance list"
  ee_heartbeat :: heartbeat
  ee_failures :: int
  ee_successes :: int

datatype external_error =
    InvalidNameGroupOrAlerts name_error
  | ErrExternalEndpointWithNoToken
  | ErrExternalEndpointHeartbeatIntervalTooLow
  | ErrExternalEndpointHeartbeatRetriesOutOfRange
  | ErrExternalEndpointHeartbeatRetriesWithoutInterval

definition MaximumHeartbeatRetries :: int where
  "MaximumHeartbeatRetries = 100"

definition ee_ValidateAndSetDefaults ::
    "external_endpoint \<Rightarrow> external_error option \<times> external_endpoint" where
  "ee_ValidateAndSetDefaults ee0 =
     (case validateEndpointNameGroupAndAlerts (ee_name ee0) (ee_group ee0) (ee_alerts ee0) of
        (Some e, as) \<Rightarrow> (Some (InvalidNameGroupOrAlerts e), ee0\<lparr>ee_alerts := as\<rparr>)
      | (None, as) \<Rightarrow>
          (let ee = ee0\<lparr>ee_alerts := as\<rparr>; interval = hb_interval (ee_heartbeat ee);
               retries = hb_retries (ee_heartbeat ee)
           in if ee_token ee = [] then (Some ErrExternalEndpointWithNoToken, ee)
              else if interval \<noteq> 0 \<and> interval < 10 * second
              then (Some ErrExternalEndpointHeartbeatIntervalTooLow, ee)
              else if retries < 0 \<or> retries > MaximumHeartbeatRetries
              then (Some ErrExternalEndpointHeartbeatRetriesOutOfRange, ee)
              else if retries > 0 \<and> interval = 0
              then (Some ErrExternalEndpointHeartbeatRetriesWithoutInterval, ee)
              else (None, ee)))"

definition ee_IsEnabled :: "external_endpoint \<Rightarrow> bool" where
  "ee_IsEnabled ee = (case ee_enabled ee of None \<Rightarrow> True | Some b \<Rightarrow> b)"

definition ee_DisplayName :: "external_endpoint \<Rightarrow> string" where
  "ee_DisplayName ee = (if ee_group ee \<noteq> [] then ee_group ee @ ''/'' @ ee_name ee else ee_name ee)"

definition ee_Key :: "external_endpoint \<Rightarrow> string" where
  "ee_Key ee = ConvertGroupAndNameToKey (ee_group ee) (ee_name ee)"

definition ToEndpoint :: "external_endpoint \<Rightarrow> endpoint" where
  "ToEndpoint ee =
     empty_endpoint\<lparr>ep_enabled := ee_enabled ee, ep_name := ee_name ee, ep_group := ee_group ee,
       ep_alerts := ee_alerts ee, NumberOfFailuresInARow := ee_failures ee,
       NumberOfSuccessesInARow := ee_successes ee\<rparr>"

subsection \<open>Results and events\<close>

record condition_result =
  cr_condition :: string
  cr_success :: bool

record result =
  HTTPStatus :: int
  DNSRCode :: string
  Hostname :: string
  r_IP :: string
  Connected :: bool
  r_Duration :: duration
  Errors :: "string list"
  Message :: string
  Origin :: string
  Pending :: bool
  ConditionResults :: "condition_result list"
  Success :: bool
  Timestamp :: time
  CertificateExpiration :: duration
  DomainExpiration :: duration
  r_Body :: string
  r_port :: string
  r_Name :: string

definition empty_result :: result where
  "empty_result =
     \<lparr>HTTPStatus = 0, DNSRCode = [], Hostname = [], r_IP = [], Connected = False, r_Duration = 0,
      Errors = [], Message = [], Origin = [], Pending = False, ConditionResults = [], Success = False,
      Timestamp = zero_time, CertificateExpiration = 0, DomainExpiration = 0, r_Body = [], r_port = [],
      r_Name = []\<rparr>"

definition AddError :: "string \<Rightarrow> result \<Rightarrow> result" where
  "AddError e r = (if e \<in> set (Errors r) then r else r\<lparr>Errors := Errors r @ [e]\<rparr>)"

definition MaximumResultMessageLength :: nat where
  "MaximumResultMessageLength = 1024"

text \<open>\<open>utf8.RuneStart\<close>: the byte is not a continuation byte \<^verbatim>\<open>10xxxxxx\<close>.\<close>

definition rune_start :: "char \<Rightarrow> bool" where
  "rune_start c \<longleftrightarrow> \<not> ((128 :: nat) \<le> of_char c \<and> (of_char c :: nat) < 192)"

fun cut_at_rune :: "string \<Rightarrow> nat \<Rightarrow> nat" where
  "cut_at_rune msg 0 = 0"
| "cut_at_rune msg (Suc n) = (if rune_start (msg ! Suc n) then Suc n else cut_at_rune msg n)"

definition TruncateResultMessage :: "string \<Rightarrow> string" where
  "TruncateResultMessage msg =
     (if length msg \<le> MaximumResultMessageLength then msg
      else take (cut_at_rune msg MaximumResultMessageLength) msg)"

datatype event_type = EventStart | EventHealthy | EventUnhealthy

record event =
  ev_type :: event_type
  ev_timestamp :: time

definition NewEventFromResult :: "result \<Rightarrow> event" where
  "NewEventFromResult r =
     \<lparr>ev_type = (if Success r then EventHealthy else EventUnhealthy), ev_timestamp = Timestamp r\<rparr>"

subsection \<open>Lemmas\<close>

lemma ep_Key_simps [simp]:
  "ep_Key (ep\<lparr>NumberOfFailuresInARow := n\<rparr>) = ep_Key ep"
  "ep_Key (ep\<lparr>NumberOfSuccessesInARow := n\<rparr>) = ep_Key ep"
  "ep_Key (ep\<lparr>LastReminderSent := t\<rparr>) = ep_Key ep"
  "ep_Key (ep\<lparr>ep_alerts := as\<rparr>) = ep_Key ep"
  by (simp_all add: ep_Key_def)

lemma ep_Key_ToEndpoint [simp]: "ep_Key (ToEndpoint ee) = ee_Key ee"
  by (simp add: ep_Key_def ee_Key_def ToEndpoint_def)

lemma distinct_AddError: "distinct (Errors r) \<Longrightarrow> distinct (Errors (AddError e r))"
  by (simp add: AddError_def)

lemma set_AddError [simp]: "set (Errors (AddError e r)) = insert e (set (Errors r))"
  by (auto simp: AddError_def)

lemma validate_alerts_valid:
  "validate_alerts as = (None, bs) \<Longrightarrow> list_all valid_alert bs \<and> length bs = length as"
  by (induction as arbitrary: bs)
    (auto split: prod.splits option.splits dest: alert_validate_valid)

lemma cut_at_rune_le: "cut_at_rune msg n \<le> n"
  by (induction n) auto

lemma cut_at_rune_start:
  "cut_at_rune msg n > 0 \<Longrightarrow> rune_start (msg ! cut_at_rune msg n)"
  by (induction n) auto

lemma cut_at_rune_greatest:
  "cut_at_rune msg n < i \<Longrightarrow> i \<le> n \<Longrightarrow> \<not> rune_start (msg ! i)"
  by (induction n) (auto simp: le_Suc_eq split: if_splits)

lemma TruncateResultMessage_prefix: "prefix (TruncateResultMessage msg) msg"
  by (simp add: TruncateResultMessage_def take_is_prefix)

lemma TruncateResultMessage_length: "length (TruncateResultMessage msg) \<le> MaximumResultMessageLength"
  using cut_at_rune_le [of msg MaximumResultMessageLength]
  by (simp add: TruncateResultMessage_def)

lemma TruncateResultMessage_boundary:
  assumes "TruncateResultMessage msg \<noteq> msg" and "TruncateResultMessage msg \<noteq> []"
  shows "rune_start (msg ! length (TruncateResultMessage msg))"
proof -
  have long: "\<not> length msg \<le> MaximumResultMessageLength"
    using assms by (auto simp: TruncateResultMessage_def)
  have le: "cut_at_rune msg MaximumResultMessageLength \<le> MaximumResultMessageLength"
    by (rule cut_at_rune_le)
  have len: "length (TruncateResultMessage msg) = cut_at_rune msg MaximumResultMessageLength"
    using long le by (simp add: TruncateResultMessage_def)
  with assms(2) have "cut_at_rune msg MaximumResultMessageLength > 0"
    by (metis length_greater_0_conv)
  then show ?thesis by (simp add: len cut_at_rune_start)
qed

end
