(* ===== verification/TriggeredStore.thy ===== *)
theory TriggeredStore
  imports Endpoints
begin

text \<open>
  The part of the storage interface (\<^verbatim>\<open>internal/storage/store/store.go\<close>) that keeps the triggered
  alerts across restarts, as a record of operations, since the code calls it through a Go interface;
  its contract as the locales \<open>alert_store\<close> (an operation on an endpoint leaves the alerts of the
  others alone) and \<open>persistent_alert_store\<close> (what was upserted is read back); and its two
  implementations: the SQL store (\<^verbatim>\<open>sql/sql.go\<close>), which satisfies both, and the memory store
  (\<^verbatim>\<open>memory/memory.go\<close>), which keeps nothing and satisfies the first.

  The SQL tables are lists of rows with unique keys; \<open>db_fault\<close> names the statement that fails, if
  any, so that every error branch of the code is a branch of the model.
\<close>

datatype store_error = StoreError

record 'st alert_store_ops =
  GetTriggeredEndpointAlert :: "'st \<Rightarrow> endpoint \<Rightarrow> alert \<Rightarrow> store_error + (string \<times> int) option"
  UpsertTriggeredEndpointAlert :: "'st \<Rightarrow> endpoint \<Rightarrow> alert \<Rightarrow> store_error option \<times> 'st"
  DeleteTriggeredEndpointAlert :: "'st \<Rightarrow> endpoint \<Rightarrow> alert \<Rightarrow> store_error option \<times> 'st"
  DeleteAllTriggeredAlertsNotInChecksumsByEndpoint :: "'st \<Rightarrow> endpoint \<Rightarrow> string list \<Rightarrow> nat \<times> 'st"

subsection \<open>The contract\<close>

text \<open>\<open>rows s k c\<close> is the persisted alert of the endpoint with key \<open>k\<close> and the checksum \<open>c\<close>.\<close>

locale alert_store =
  fixes ops :: "'st alert_store_ops"
    and rows :: "'st \<Rightarrow> string \<Rightarrow> string \<Rightarrow> (string \<times> int) option"
    and inv :: "'st \<Rightarrow> bool"
  assumes upsert_inv: "inv s \<Longrightarrow> inv (snd (UpsertTriggeredEndpointAlert ops s ep a))"
    and delete_inv: "inv s \<Longrightarrow> inv (snd (DeleteTriggeredEndpointAlert ops s ep a))"
    and delete_not_in_inv:
      "inv s \<Longrightarrow> inv (snd (DeleteAllTriggeredAlertsNotInChecksumsByEndpoint ops s ep cs))"
    and upsert_frame:
      "inv s \<Longrightarrow> k \<noteq> ep_Key ep \<Longrightarrow> rows (snd (UpsertTriggeredEndpointAlert ops s ep a)) k = rows s k"
    and delete_frame:
      "inv s \<Longrightarrow> k \<noteq> ep_Key ep \<Longrightarrow> rows (snd (DeleteTriggeredEndpointAlert ops s ep a)) k = rows s k"
    and delete_not_in_frame:
      "inv s \<Longrightarrow> k \<noteq> ep_Key ep \<Longrightarrow>
       rows (snd (DeleteAllTriggeredAlertsNotInChecksumsByEndpoint ops s ep cs)) k = rows s k"

locale persistent_alert_store = alert_store ops rows inv
  for ops :: "'st alert_store_ops"
    and rows :: "'st \<Rightarrow> string \<Rightarrow> string \<Rightarrow> (string \<times> int) option"
    and inv :: "'st \<Rightarrow> bool" +
  fixes sha :: "string \<Rightarrow> string"
    and healthy :: "'st \<Rightarrow> bool"
  assumes upsert_healthy: "healthy s \<Longrightarrow> healthy (snd (UpsertTriggeredEndpointAlert ops s ep a))"
    and delete_healthy: "healthy s \<Longrightarrow> healthy (snd (DeleteTriggeredEndpointAlert ops s ep a))"
    and delete_not_in_healthy:
      "healthy s \<Longrightarrow> healthy (snd (DeleteAllTriggeredAlertsNotInChecksumsByEndpoint ops s ep cs))"
    and get_row:
      "inv s \<Longrightarrow> healthy s \<Longrightarrow>
       GetTriggeredEndpointAlert ops s ep a = Inr (rows s (ep_Key ep) (Checksum sha a))"
    and upsert_row:
      "inv s \<Longrightarrow> healthy s \<Longrightarrow>
       fst (UpsertTriggeredEndpointAlert ops s ep a) = None \<and>
       rows (snd (UpsertTriggeredEndpointAlert ops s ep a)) (ep_Key ep) =
         (rows s (ep_Key ep))(Checksum sha a \<mapsto> (resolve_key a, NumberOfSuccessesInARow ep))"
    and delete_row:
      "inv s \<Longrightarrow> healthy s \<Longrightarrow>
       fst (DeleteTriggeredEndpointAlert ops s ep a) = None \<and>
       rows (snd (DeleteTriggeredEndpointAlert ops s ep a)) (ep_Key ep) =
         (rows s (ep_Key ep))(Checksum sha a := None)"
    and delete_not_in_row:
      "inv s \<Longrightarrow> healthy s \<Longrightarrow>
       rows (snd (DeleteAllTriggeredAlertsNotInChecksumsByEndpoint ops s ep cs)) (ep_Key ep) =
         (rows s (ep_Key ep)) |` set cs"

subsection \<open>The SQL store\<close>

text \<open>
  \<open>endpoint_rows\<close> is the table \<open>endpoints\<close>, by the unique \<open>endpoint_key\<close> (id, name, group), and
  \<open>triggered_rows\<close> the table \<open>endpoint_alerts_triggered\<close>, unique by endpoint id and configuration
  checksum (resolve key, number of successes in a row).
\<close>

datatype sql_fault = NoFault | FailBegin | FailSelect | FailInsertEndpoint | FailExec | FailCommit

record sql_state =
  endpoint_rows :: "(string \<times> (nat \<times> string \<times> string)) list"
  triggered_rows :: "((nat \<times> string) \<times> (string \<times> int)) list"
  next_endpoint_id :: nat
  db_fault :: sql_fault

text \<open>The subquery \<^verbatim>\<open>(SELECT endpoint_id FROM endpoints WHERE endpoint_key = $1 LIMIT 1)\<close>.\<close>

definition endpoint_id :: "sql_state \<Rightarrow> string \<Rightarrow> nat option" where
  "endpoint_id s k = map_option fst (map_of (endpoint_rows s) k)"

definition sql_GetTriggered ::
    "(string \<Rightarrow> string) \<Rightarrow> sql_state \<Rightarrow> endpoint \<Rightarrow> alert \<Rightarrow> store_error + (string \<times> int) option" where
  "sql_GetTriggered sha s ep a =
     (if db_fault s = FailSelect then Inl StoreError
      else Inr (case endpoint_id s (ep_Key ep) of
                  None \<Rightarrow> None
                | Some i \<Rightarrow> map_of (triggered_rows s) (i, Checksum sha a)))"

text \<open>\<open>getEndpointID\<close>: the inner \<open>None\<close> is \<open>ErrEndpointNotFound\<close>.\<close>

definition getEndpointID :: "sql_state \<Rightarrow> endpoint \<Rightarrow> store_error + nat option" where
  "getEndpointID s ep = (if db_fault s = FailSelect then Inl StoreError else Inr (endpoint_id s (ep_Key ep)))"

definition insertEndpoint :: "sql_state \<Rightarrow> endpoint \<Rightarrow> store_error + (nat \<times> sql_state)" where
  "insertEndpoint s ep =
     (if db_fault s = FailInsertEndpoint then Inl StoreError
      else Inr (next_endpoint_id s,
                s\<lparr>endpoint_rows := endpoint_rows s @ [(ep_Key ep, (next_endpoint_id s, ep_name ep, ep_group ep))],
                  next_endpoint_id := Suc (next_endpoint_id s)\<rparr>))"

text \<open>
  A failed statement rolls the transaction back. A failed commit also leaves the tables as they were,
  but the code returns no error for it.
\<close>

definition sql_UpsertTriggered ::
    "(string \<Rightarrow> string) \<Rightarrow> sql_state \<Rightarrow> endpoint \<Rightarrow> alert \<Rightarrow> store_error option \<times> sql_state" where
  "sql_UpsertTriggered sha s ep a =
     (if db_fault s = FailBegin then (Some StoreError, s)
      else
        (let found = (case getEndpointID s ep of
                        Inl e \<Rightarrow> Inl e
                      | Inr (Some i) \<Rightarrow> Inr (i, s)
                      | Inr None \<Rightarrow> insertEndpoint s ep)
         in case found of
              Inl e \<Rightarrow> (Some e, s)
            | Inr (i, tx) \<Rightarrow>
                (if db_fault s = FailExec then (Some StoreError, s)
                 else if db_fault s = FailCommit then (None, s)
                 else (None, tx\<lparr>triggered_rows :=
                         alist_put (i, Checksum sha a) (resolve_key a, NumberOfSuccessesInARow ep)
                           (triggered_rows tx)\<rparr>))))"

definition sql_DeleteTriggered ::
    "(string \<Rightarrow> string) \<Rightarrow> sql_state \<Rightarrow> endpoint \<Rightarrow> alert \<Rightarrow> store_error option \<times> sql_state" where
  "sql_DeleteTriggered sha s ep a =
     (if db_fault s = FailExec then (Some StoreError, s)
      else (None,
            case endpoint_id s (ep_Key ep) of
              None \<Rightarrow> s
            | Some i \<Rightarrow> s\<lparr>triggered_rows := alist_del (i, Checksum sha a) (triggered_rows s)\<rparr>))"

definition sql_DeleteNotInChecksums :: "sql_state \<Rightarrow> endpoint \<Rightarrow> string list \<Rightarrow> nat \<times> sql_state" where
  "sql_DeleteNotInChecksums s ep checksums =
     (if db_fault s = FailExec then (0, s)
      else case endpoint_id s (ep_Key ep) of
             None \<Rightarrow> (0, s)
           | Some i \<Rightarrow>
               (let kept = (if checksums = []
                            then filter (\<lambda>((j, c), _). j \<noteq> i) (triggered_rows s)
                            else filter (\<lambda>((j, c), _). j \<noteq> i \<or> c \<in> set checksums) (triggered_rows s))
                in (length (triggered_rows s) - length kept, s\<lparr>triggered_rows := kept\<rparr>)))"

definition sql_ops :: "(string \<Rightarrow> string) \<Rightarrow> sql_state alert_store_ops" where
  "sql_ops sha =
     \<lparr>GetTriggeredEndpointAlert = sql_GetTriggered sha,
      UpsertTriggeredEndpointAlert = sql_UpsertTriggered sha,
      DeleteTriggeredEndpointAlert = sql_DeleteTriggered sha,
      DeleteAllTriggeredAlertsNotInChecksumsByEndpoint = sql_DeleteNotInChecksums\<rparr>"

text \<open>The constraints of the schema: unique keys, and distinct ids below the next one.\<close>

definition sql_inv :: "sql_state \<Rightarrow> bool" where
  "sql_inv s \<longleftrightarrow>
     distinct (map fst (endpoint_rows s)) \<and>
     distinct (map (fst \<circ> snd) (endpoint_rows s)) \<and>
     list_all (\<lambda>(_, i, _). i < next_endpoint_id s) (endpoint_rows s) \<and>
     distinct (map fst (triggered_rows s)) \<and>
     list_all (\<lambda>((i, _), _). i < next_endpoint_id s) (triggered_rows s)"

definition sql_rows :: "sql_state \<Rightarrow> string \<Rightarrow> string \<Rightarrow> (string \<times> int) option" where
  "sql_rows s k c =
     (case endpoint_id s k of None \<Rightarrow> None | Some i \<Rightarrow> map_of (triggered_rows s) (i, c))"

definition sql_healthy :: "sql_state \<Rightarrow> bool" where
  "sql_healthy s \<longleftrightarrow> db_fault s = NoFault"

definition empty_sql :: sql_state where
  "empty_sql = \<lparr>endpoint_rows = [], triggered_rows = [], next_endpoint_id = 1, db_fault = NoFault\<rparr>"

lemma sql_inv_empty [simp]: "sql_inv empty_sql"
  by (simp add: sql_inv_def empty_sql_def)

lemma endpoint_id_less: "sql_inv s \<Longrightarrow> endpoint_id s k = Some i \<Longrightarrow> i < next_endpoint_id s"
  by (auto simp: endpoint_id_def sql_inv_def list_all_iff dest!: map_of_SomeD)

lemma endpoint_id_inj:
  assumes "sql_inv s" and "endpoint_id s k = Some i" and "endpoint_id s k' = Some i"
  shows "k = k'"
proof -
  obtain v v' where "(k, i, v) \<in> set (endpoint_rows s)" "(k', i, v') \<in> set (endpoint_rows s)"
    using assms(2,3) by (auto simp: endpoint_id_def dest!: map_of_SomeD)
  moreover have "inj_on (fst \<circ> snd) (set (endpoint_rows s))"
    using assms(1) by (simp add: sql_inv_def distinct_map)
  ultimately have "(k, i, v) = (k', i, v')"
    by (auto dest!: inj_onD [where x = "(k, i, v)" and y = "(k', i, v')"])
  then show ?thesis by simp
qed

lemma endpoint_id_append:
  "endpoint_id (s\<lparr>endpoint_rows := endpoint_rows s @ [(k, (i, v))], next_endpoint_id := n\<rparr>) k' =
     (case endpoint_id s k' of Some j \<Rightarrow> Some j | None \<Rightarrow> (if k' = k then Some i else None))"
  by (auto simp: endpoint_id_def map_add_def split: option.splits)

lemma endpoint_id_triggered [simp]: "endpoint_id (s\<lparr>triggered_rows := r\<rparr>) = endpoint_id s"
  by (simp add: endpoint_id_def fun_eq_iff)

lemma triggered_new_id: "sql_inv s \<Longrightarrow> map_of (triggered_rows s) (next_endpoint_id s, c) = None"
  by (force simp: sql_inv_def list_all_iff map_of_eq_None_iff)

text \<open>The successful upsert, on the row of an existing endpoint and on that of a new one.\<close>

lemma insertEndpoint_inv:
  assumes "sql_inv s" and "endpoint_id s (ep_Key ep) = None" and "insertEndpoint s ep = Inr (i, s')"
  shows "sql_inv s' \<and> i < next_endpoint_id s' \<and> endpoint_id s' (ep_Key ep) = Some i \<and>
     sql_rows s' = sql_rows s \<and> triggered_rows s' = triggered_rows s \<and> db_fault s' = db_fault s"
proof -
  have s': "s' = s\<lparr>endpoint_rows := endpoint_rows s @ [(ep_Key ep, (i, ep_name ep, ep_group ep))],
      next_endpoint_id := Suc i\<rparr>" and i: "i = next_endpoint_id s"
    using assms(3) by (auto simp: insertEndpoint_def split: if_splits)
  have "ep_Key ep \<notin> fst ` set (endpoint_rows s)"
    using assms(2) by (auto simp: endpoint_id_def map_of_eq_None_iff)
  then have "sql_inv s'"
    using assms(1) by (force simp: s' i sql_inv_def list_all_iff)
  moreover have "sql_rows s' k c = sql_rows s k c" for k c
    using triggered_new_id [OF assms(1)] assms(2)
    by (auto simp: sql_rows_def s' i endpoint_id_append split: option.splits)
  ultimately show ?thesis
    using assms(2) by (simp add: s' i endpoint_id_append fun_eq_iff)
qed

lemma sql_put_inv:
  assumes "sql_inv s" and "i < next_endpoint_id s"
  shows "sql_inv (s\<lparr>triggered_rows := alist_put (i, c) v (triggered_rows s)\<rparr>)"
proof -
  have "list_all (\<lambda>((i, _), _). i < next_endpoint_id s) r \<Longrightarrow> i < next_endpoint_id s \<Longrightarrow>
      list_all (\<lambda>((i, _), _). i < next_endpoint_id s) (alist_put (i, c) v r)" for r
    by (induction r) auto
  with assms show ?thesis by (simp add: sql_inv_def)
qed

lemma sql_put_rows:
  assumes "sql_inv s" and "endpoint_id s k = Some i"
  shows "sql_rows (s\<lparr>triggered_rows := alist_put (i, c) v (triggered_rows s)\<rparr>) k' =
     (if k' = k then (sql_rows s k)(c \<mapsto> v) else sql_rows s k')"
proof (cases "k' = k")
  case True
  with assms(2) show ?thesis by (simp add: sql_rows_def fun_eq_iff)
next
  case False
  then have "endpoint_id s k' \<noteq> Some i" using assms endpoint_id_inj by blast
  with False show ?thesis by (simp add: sql_rows_def fun_eq_iff split: option.split)
qed

lemma sql_UpsertTriggered_cases:
  assumes "sql_inv s"
  obtains e where "sql_UpsertTriggered sha s ep a = (e, s)" and "\<not> sql_healthy s"
  | i tx where "sql_UpsertTriggered sha s ep a =
       (None, tx\<lparr>triggered_rows := alist_put (i, Checksum sha a) (resolve_key a, NumberOfSuccessesInARow ep)
                  (triggered_rows tx)\<rparr>)"
      and "sql_inv tx" and "i < next_endpoint_id tx" and "endpoint_id tx (ep_Key ep) = Some i"
      and "sql_rows tx = sql_rows s" and "db_fault tx = db_fault s"
proof (cases "db_fault s \<in> {FailBegin, FailSelect, FailExec, FailCommit} \<or>
    db_fault s = FailInsertEndpoint \<and> endpoint_id s (ep_Key ep) = None")
  case True
  then have "\<exists>e. sql_UpsertTriggered sha s ep a = (e, s)"
    by (auto simp: sql_UpsertTriggered_def getEndpointID_def insertEndpoint_def Let_def
        split: option.splits sum.splits)
  then show ?thesis using True that(1) by (auto simp: sql_healthy_def)
next
  case False
  show ?thesis
  proof (cases "endpoint_id s (ep_Key ep)")
    case (Some i)
    with False have "sql_UpsertTriggered sha s ep a =
       (None, s\<lparr>triggered_rows := alist_put (i, Checksum sha a) (resolve_key a, NumberOfSuccessesInARow ep)
                  (triggered_rows s)\<rparr>)"
      by (auto simp: sql_UpsertTriggered_def getEndpointID_def Let_def)
    with Some assms show ?thesis using that(2) endpoint_id_less [OF assms Some] by blast
  next
    case None
    with False obtain i tx where tx: "insertEndpoint s ep = Inr (i, tx)"
      by (auto simp: insertEndpoint_def)
    with None False have "sql_UpsertTriggered sha s ep a =
       (None, tx\<lparr>triggered_rows := alist_put (i, Checksum sha a) (resolve_key a, NumberOfSuccessesInARow ep)
                  (triggered_rows tx)\<rparr>)"
      by (auto simp: sql_UpsertTriggered_def getEndpointID_def Let_def)
    with insertEndpoint_inv [OF assms None tx] show ?thesis using that(2) by blast
  qed
qed

lemma sql_filter_inv:
  "sql_inv s \<Longrightarrow> sql_inv (s\<lparr>triggered_rows := filter P (triggered_rows s)\<rparr>)"
  by (auto simp: sql_inv_def list_all_iff)

lemma sql_DeleteTriggered_inv: "sql_inv s \<Longrightarrow> sql_inv (snd (sql_DeleteTriggered sha s ep a))"
  by (auto simp: sql_DeleteTriggered_def alist_del_def sql_filter_inv split: option.splits)

lemma sql_DeleteTriggered_rows:
  assumes "sql_inv s" and "db_fault s \<noteq> FailExec"
  shows "sql_rows (snd (sql_DeleteTriggered sha s ep a)) k =
    (if k = ep_Key ep then (sql_rows s k)(Checksum sha a := None) else sql_rows s k)"
proof (cases "endpoint_id s (ep_Key ep)")
  case None
  then show ?thesis by (auto simp: sql_DeleteTriggered_def sql_rows_def fun_eq_iff split: option.splits)
next
  case (Some i)
  then have "k \<noteq> ep_Key ep \<Longrightarrow> endpoint_id s k \<noteq> Some i" using assms(1) endpoint_id_inj by blast
  with Some assms(2) show ?thesis
    by (cases "k = ep_Key ep")
      (simp_all add: sql_DeleteTriggered_def sql_rows_def fun_eq_iff split: option.split)
qed

lemma sql_DeleteNotInChecksums_inv: "sql_inv s \<Longrightarrow> sql_inv (snd (sql_DeleteNotInChecksums s ep cs))"
  by (auto simp: sql_DeleteNotInChecksums_def Let_def sql_filter_inv split: option.splits)

lemma sql_kept_rows:
  "map_of (filter (\<lambda>((j, c), _). j = i \<longrightarrow> P c) r) (j, c) =
     (if j = i \<longrightarrow> P c then map_of r (j, c) else None)"
  by (induction r) auto

lemma sql_DeleteNotInChecksums_rows:
  assumes "sql_inv s" and "db_fault s \<noteq> FailExec"
  shows "sql_rows (snd (sql_DeleteNotInChecksums s ep cs)) k =
    (if k = ep_Key ep then (sql_rows s k) |` set cs else sql_rows s k)"
proof (cases "endpoint_id s (ep_Key ep)")
  case None
  then show ?thesis
    by (auto simp: sql_DeleteNotInChecksums_def sql_rows_def fun_eq_iff restrict_map_def split: option.splits)
next
  case (Some i)
  have kept: "(if cs = [] then filter (\<lambda>((j, c), _). j \<noteq> i) (triggered_rows s)
      else filter (\<lambda>((j, c), _). j \<noteq> i \<or> c \<in> set cs) (triggered_rows s)) =
      filter (\<lambda>((j, c), _). j \<noteq> i \<or> c \<in> set cs) (triggered_rows s)"
    by simp
  have "k \<noteq> ep_Key ep \<Longrightarrow> endpoint_id s k \<noteq> Some i" using Some assms(1) endpoint_id_inj by blast
  with Some assms(2) show ?thesis
    by (cases "k = ep_Key ep")
      (simp_all add: sql_DeleteNotInChecksums_def Let_def kept sql_rows_def fun_eq_iff restrict_map_def
        sql_kept_rows split: option.split)
qed

interpretation sql_store: alert_store "sql_ops sha" sql_rows sql_inv
proof
  fix s ep a cs k
  assume inv: "sql_inv s"
  show "sql_inv (snd (UpsertTriggeredEndpointAlert (sql_ops sha) s ep a))"
    by (rule sql_UpsertTriggered_cases [OF inv, of sha ep a]) (simp_all add: sql_ops_def inv sql_put_inv)
  show "sql_inv (snd (DeleteTriggeredEndpointAlert (sql_ops sha) s ep a))"
    using inv by (simp add: sql_ops_def sql_DeleteTriggered_inv)
  show "sql_inv (snd (DeleteAllTriggeredAlertsNotInChecksumsByEndpoint (sql_ops sha) s ep cs))"
    using inv by (simp add: sql_ops_def sql_DeleteNotInChecksums_inv)
  assume k: "k \<noteq> ep_Key ep"
  show "sql_rows (snd (UpsertTriggeredEndpointAlert (sql_ops sha) s ep a)) k = sql_rows s k"
    by (rule sql_UpsertTriggered_cases [OF inv, of sha ep a]) (simp_all add: sql_ops_def k sql_put_rows)
  show "sql_rows (snd (DeleteTriggeredEndpointAlert (sql_ops sha) s ep a)) k = sql_rows s k"
    using k sql_DeleteTriggered_rows [OF inv]
    by (cases "db_fault s = FailExec") (simp_all add: sql_ops_def, simp add: sql_DeleteTriggered_def)
  show "sql_rows (snd (DeleteAllTriggeredAlertsNotInChecksumsByEndpoint (sql_ops sha) s ep cs)) k = sql_rows s k"
    using k sql_DeleteNotInChecksums_rows [OF inv]
    by (cases "db_fault s = FailExec") (simp_all add: sql_ops_def, simp add: sql_DeleteNotInChecksums_def)
qed

interpretation sql_persistent: persistent_alert_store "sql_ops sha" sql_rows sql_inv sha sql_healthy
proof
  fix s ep a cs
  assume h: "sql_healthy s"
  then have nf: "db_fault s = NoFault" by (simp add: sql_healthy_def)
  show "sql_healthy (snd (UpsertTriggeredEndpointAlert (sql_ops sha) s ep a))"
    using nf by (auto simp: sql_ops_def sql_UpsertTriggered_def getEndpointID_def insertEndpoint_def Let_def
        sql_healthy_def split: option.splits)
  show "sql_healthy (snd (DeleteTriggeredEndpointAlert (sql_ops sha) s ep a))"
    using nf by (auto simp: sql_ops_def sql_DeleteTriggered_def sql_healthy_def split: option.splits)
  show "sql_healthy (snd (DeleteAllTriggeredAlertsNotInChecksumsByEndpoint (sql_ops sha) s ep cs))"
    using nf by (auto simp: sql_ops_def sql_DeleteNotInChecksums_def sql_healthy_def Let_def split: option.splits)
  assume inv: "sql_inv s"
  show "GetTriggeredEndpointAlert (sql_ops sha) s ep a = Inr (sql_rows s (ep_Key ep) (Checksum sha a))"
    using nf by (simp add: sql_ops_def sql_GetTriggered_def sql_rows_def)
  show "fst (UpsertTriggeredEndpointAlert (sql_ops sha) s ep a) = None \<and>
       sql_rows (snd (UpsertTriggeredEndpointAlert (sql_ops sha) s ep a)) (ep_Key ep) =
         (sql_rows s (ep_Key ep))(Checksum sha a \<mapsto> (resolve_key a, NumberOfSuccessesInARow ep))"
    by (rule sql_UpsertTriggered_cases [OF inv, of sha ep a]) (simp_all add: sql_ops_def h sql_put_rows)
  show "fst (DeleteTriggeredEndpointAlert (sql_ops sha) s ep a) = None \<and>
       sql_rows (snd (DeleteTriggeredEndpointAlert (sql_ops sha) s ep a)) (ep_Key ep) =
         (sql_rows s (ep_Key ep))(Checksum sha a := None)"
    using nf sql_DeleteTriggered_rows [OF inv] by (simp add: sql_ops_def) (simp add: sql_DeleteTriggered_def)
  show "sql_rows (snd (DeleteAllTriggeredAlertsNotInChecksumsByEndpoint (sql_ops sha) s ep cs)) (ep_Key ep) =
         (sql_rows s (ep_Key ep)) |` set cs"
    using nf sql_DeleteNotInChecksums_rows [OF inv] by (simp add: sql_ops_def)
qed

subsection \<open>The memory store\<close>

text \<open>The memory store does not keep triggered alerts: reads find nothing and writes do nothing.\<close>

definition memory_ops :: "'st alert_store_ops" where
  "memory_ops =
     \<lparr>GetTriggeredEndpointAlert = (\<lambda>s ep a. Inr None),
      UpsertTriggeredEndpointAlert = (\<lambda>s ep a. (None, s)),
      DeleteTriggeredEndpointAlert = (\<lambda>s ep a. (None, s)),
      DeleteAllTriggeredAlertsNotInChecksumsByEndpoint = (\<lambda>s ep cs. (0, s))\<rparr>"

interpretation memory_alerts: alert_store "memory_ops" "\<lambda>s k c. None" "\<lambda>s. True"
  by unfold_locales (simp_all add: memory_ops_def)

end
