(* ===== verification/Alerting.thy ===== *)
theory Alerting
  imports TriggeredStore
begin

text \<open>
  The alert handling of the watchdog (\<^verbatim>\<open>internal/watchdog/alerting.go\<close>, \<^verbatim>\<open>alert_state.go\<close> and
  \<^verbatim>\<open>alerting_source.go\<close>): what a successful or failed result does to the counters of the endpoint, to
  the state of its alerts, to the persisted triggered alerts and which notifications it sends; the
  restoration of the persisted alerts on start and their migration when a provider changes.

  A provider is a parameter: a function of the endpoint, the alert, the result and the resolved flag
  that gives the delivery error, if any, and the resolve key that it leaves in the alert. It sees the
  alert as it is when it is sent. \<open>alerting_config\<close> is \<open>GetAlertingProviderByAlertType\<close>. Every
  delivery attempt is logged with the position of its alert in the endpoint and its time. The clock is read once
  per call (\<open>wd_now\<close>); the log messages of the code are left out.
\<close>

type_synonym alert_provider = "endpoint \<Rightarrow> alert \<Rightarrow> result \<Rightarrow> bool \<Rightarrow> string option \<times> string"
type_synonym alerting_config = "string \<Rightarrow> alert_provider option"

datatype notice_kind = Initial | Reminder | Resolution

record notification =
  nt_index :: nat
  nt_kind :: notice_kind
  nt_alert :: alert
  nt_time :: time
  nt_error :: "string option"

text \<open>
  What the handlers read besides their arguments: the store, the two environment variables
  \<^verbatim>\<open>MOCK_ALERT_PROVIDER\<close> and \<^verbatim>\<open>MOCK_ALERT_PROVIDER_ERROR\<close>, and the clock.
\<close>

record 'st watchdog_env =
  wd_store :: "'st alert_store_ops"
  wd_mock :: bool
  wd_mock_error :: bool
  wd_now :: time

text \<open>The loop \<^verbatim>\<open>for _, endpointAlert := range ep.Alerts\<close>, for a body that may change the alert, the
  endpoint and the store, and send notifications.\<close>

fun alert_loop ::
    "(nat \<Rightarrow> endpoint \<Rightarrow> 'st \<Rightarrow> alert \<Rightarrow> alert \<times> endpoint \<times> 'st \<times> notification list) \<Rightarrow>
     nat \<Rightarrow> endpoint \<Rightarrow> 'st \<Rightarrow> alert list \<Rightarrow> alert list \<times> endpoint \<times> 'st \<times> notification list" where
  "alert_loop f i ep s [] = ([], ep, s, [])"
| "alert_loop f i ep s (a # as) =
     (let (a', ep1, s1, l) = f i ep s a;
          (as', ep2, s2, l') = alert_loop f (Suc i) ep1 s1 as
      in (a' # as', ep2, s2, l @ l'))"

definition trigger_step ::
    "'st watchdog_env \<Rightarrow> alerting_config \<Rightarrow> result \<Rightarrow> time \<Rightarrow>
     nat \<Rightarrow> endpoint \<Rightarrow> 'st \<Rightarrow> alert \<Rightarrow> alert \<times> endpoint \<times> 'st \<times> notification list" where
  "trigger_step env cfg r lastReminderSent i ep s a =
     (if \<not> alert_IsEnabled a \<or> failure_threshold a > NumberOfFailuresInARow ep then (a, ep, s, [])
      else
        (let sendInitialAlert = (\<not> triggered a);
             sendReminder = (triggered a \<and> minimum_reminder_interval a > 0 \<and>
               time_sub (wd_now env) lastReminderSent \<ge> minimum_reminder_interval a)
         in if \<not> sendInitialAlert \<and> \<not> sendReminder then (a, ep, s, [])
            else
              (case cfg (al_type a) of
                 None \<Rightarrow> (a, ep, s, [])
               | Some provider \<Rightarrow>
                   (let (err, key) =
                          (if wd_mock env then (if wd_mock_error env then Some ''error'' else None, resolve_key a)
                           else provider ep a r False);
                        sent = a\<lparr>resolve_key := key\<rparr>;
                        kind = (if sendInitialAlert then Initial else Reminder);
                        log = [\<lparr>nt_index = i, nt_kind = kind, nt_alert = a, nt_time = wd_now env, nt_error = err\<rparr>]
                    in (case err of
                          Some _ \<Rightarrow> (sent, ep, s, log)
                        | None \<Rightarrow>
                            (let a' = (if sendInitialAlert then sent\<lparr>triggered := True\<rparr> else sent);
                                 ep' = ep\<lparr>LastReminderSent := wd_now env\<rparr>;
                                 s' = snd (UpsertTriggeredEndpointAlert (wd_store env) s ep' a')
                             in (a', ep', s', log)))))))"

definition handleAlertsToTrigger ::
    "'st watchdog_env \<Rightarrow> alerting_config \<Rightarrow> endpoint \<Rightarrow> result \<Rightarrow> 'st \<Rightarrow>
     endpoint \<times> 'st \<times> notification list" where
  "handleAlertsToTrigger env cfg ep r s =
     (let ep = ep\<lparr>NumberOfSuccessesInARow := 0, NumberOfFailuresInARow := NumberOfFailuresInARow ep + 1\<rparr>;
          (as, ep', s', log) = alert_loop (trigger_step env cfg r (LastReminderSent ep)) 0 ep s (ep_alerts ep)
      in (ep'\<lparr>ep_alerts := as\<rparr>, s', log))"

definition resolve_step ::
    "'st watchdog_env \<Rightarrow> alerting_config \<Rightarrow> result \<Rightarrow>
     nat \<Rightarrow> endpoint \<Rightarrow> 'st \<Rightarrow> alert \<Rightarrow> alert \<times> endpoint \<times> 'st \<times> notification list" where
  "resolve_step env cfg r i ep s a =
     (let isStillBelowSuccessThreshold = (success_threshold a > NumberOfSuccessesInARow ep);
          s = (if isStillBelowSuccessThreshold \<and> alert_IsEnabled a \<and> triggered a
               then snd (UpsertTriggeredEndpointAlert (wd_store env) s ep a) else s)
      in if \<not> alert_IsEnabled a \<or> \<not> triggered a \<or> isStillBelowSuccessThreshold then (a, ep, s, [])
         else
           (let a' = a\<lparr>triggered := False\<rparr>;
                s = snd (DeleteTriggeredEndpointAlert (wd_store env) s ep a')
            in if \<not> IsSendingOnResolved a' then (a', ep, s, [])
               else (case cfg (al_type a') of
                       None \<Rightarrow> (a', ep, s, [])
                     | Some provider \<Rightarrow>
                         (let (err, key) = provider ep a' r True
                          in (a'\<lparr>resolve_key := key\<rparr>, ep, s,
                              [\<lparr>nt_index = i, nt_kind = Resolution, nt_alert = a', nt_time = wd_now env,
                                nt_error = err\<rparr>])))))"

definition handleAlertsToResolve ::
    "'st watchdog_env \<Rightarrow> alerting_config \<Rightarrow> endpoint \<Rightarrow> result \<Rightarrow> 'st \<Rightarrow>
     endpoint \<times> 'st \<times> notification list" where
  "handleAlertsToResolve env cfg ep r s =
     (let ep = ep\<lparr>NumberOfSuccessesInARow := NumberOfSuccessesInARow ep + 1\<rparr>;
          (as, ep', s', log) = alert_loop (resolve_step env cfg r) 0 ep s (ep_alerts ep)
      in (ep'\<lparr>ep_alerts := as, NumberOfFailuresInARow := 0\<rparr>, s', log))"

definition HandleAlerting ::
    "'st watchdog_env \<Rightarrow> alerting_config option \<Rightarrow> endpoint \<Rightarrow> result \<Rightarrow> 'st \<Rightarrow>
     endpoint \<times> 'st \<times> notification list" where
  "HandleAlerting env alertingConfig ep r s =
     (case alertingConfig of
        None \<Rightarrow> (ep, s, [])
      | Some cfg \<Rightarrow>
          if Success r then handleAlertsToResolve env cfg ep r s
          else handleAlertsToTrigger env cfg ep r s)"

text \<open>A sequence of results of one endpoint, each with the environment of its moment.\<close>

fun handle_results ::
    "alerting_config option \<Rightarrow> ('st watchdog_env \<times> result) list \<Rightarrow> endpoint \<Rightarrow> 'st \<Rightarrow>
     endpoint \<times> 'st \<times> notification list" where
  "handle_results cfg [] ep s = (ep, s, [])"
| "handle_results cfg ((env, r) # rs) ep s =
     (let (ep1, s1, l) = HandleAlerting env cfg ep r s;
          (ep2, s2, l') = handle_results cfg rs ep1 s1
      in (ep2, s2, l @ l'))"

subsection \<open>Restoration and migration of the persisted alerts\<close>

text \<open>The second loop of \<open>RestorePersistedTriggeredAlerts\<close>, with the number of alerts restored so far.\<close>

fun restore_loop ::
    "'st alert_store_ops \<Rightarrow> 'st \<Rightarrow> endpoint \<Rightarrow> nat \<Rightarrow> alert list \<Rightarrow> alert list \<times> endpoint \<times> nat" where
  "restore_loop ops s ep n [] = ([], ep, n)"
| "restore_loop ops s ep n (a # as) =
     (let (a', ep', n') =
            (case GetTriggeredEndpointAlert ops s ep a of
               Inl e \<Rightarrow> (a, ep, n)
             | Inr None \<Rightarrow> (a, ep, n)
             | Inr (Some (key, successes)) \<Rightarrow>
                 (a\<lparr>triggered := True, resolve_key := key\<rparr>,
                  ep\<lparr>NumberOfSuccessesInARow := successes, NumberOfFailuresInARow := failure_threshold a\<rparr>,
                  Suc n));
          (as', ep'', n'') = restore_loop ops s ep' n' as
      in (a' # as', ep'', n''))"

definition RestorePersistedTriggeredAlerts ::
    "'st alert_store_ops \<Rightarrow> (string \<Rightarrow> string) \<Rightarrow> endpoint \<Rightarrow> 'st \<Rightarrow> nat \<times> endpoint \<times> 'st" where
  "RestorePersistedTriggeredAlerts ops sha ep s =
     (let checksums = map (Checksum sha) (filter alert_IsEnabled (ep_alerts ep));
          s' = snd (DeleteAllTriggeredAlertsNotInChecksumsByEndpoint ops s ep checksums);
          (as, ep', n) = restore_loop ops s' ep 0 (ep_alerts ep)
      in (n, ep'\<lparr>ep_alerts := as\<rparr>, s'))"

text \<open>The loop of \<open>MigrateTriggeredAlerts\<close> over the alerts of both endpoints at the same position.\<close>

fun migrate_loop ::
    "'st alert_store_ops \<Rightarrow> (string \<Rightarrow> string) \<Rightarrow> endpoint \<Rightarrow> endpoint \<Rightarrow> 'st \<Rightarrow> nat \<Rightarrow>
     alert list \<Rightarrow> alert list \<Rightarrow> 'st \<times> nat" where
  "migrate_loop ops sha previous next' s n (p # ps) (a # as) =
     (let (s', n') =
            (if al_type a \<noteq> al_type p then (s, n)
             else if Checksum sha p = Checksum sha a \<or> \<not> alert_IsEnabled a then (s, n)
             else (case GetTriggeredEndpointAlert ops s previous p of
                     Inl e \<Rightarrow> (s, n)
                   | Inr None \<Rightarrow> (s, n)
                   | Inr (Some (key, successes)) \<Rightarrow>
                       (let migratedAlert = a\<lparr>triggered := True, resolve_key := key\<rparr>;
                            migratingEndpoint = next'\<lparr>NumberOfSuccessesInARow := successes\<rparr>
                        in case UpsertTriggeredEndpointAlert ops s migratingEndpoint migratedAlert of
                             (Some e, s') \<Rightarrow> (s', n)
                           | (None, s') \<Rightarrow> (s', Suc n))))
      in migrate_loop ops sha previous next' s' n' ps as)"
| "migrate_loop ops sha previous next' s n ps as = (s, n)"

definition MigrateTriggeredAlerts ::
    "'st alert_store_ops \<Rightarrow> (string \<Rightarrow> string) \<Rightarrow> endpoint option \<Rightarrow> endpoint option \<Rightarrow> 'st \<Rightarrow> 'st \<times> nat" where
  "MigrateTriggeredAlerts ops sha previous next' s =
     (case (previous, next') of
        (Some p, Some n) \<Rightarrow>
          (if ep_Key p \<noteq> ep_Key n then (s, 0)
           else migrate_loop ops sha p n s 0 (ep_alerts p) (ep_alerts n))
      | _ \<Rightarrow> (s, 0))"

end
