(* ===== verification/AlertingFacts.thy ===== *)
theory AlertingFacts
  imports Alerting
begin

text \<open>
  Lemmas about the alert handling: what one step of the loop over the alerts does to an alert, to the
  counters and to the log; the lifting of a step to the loop (\<open>alert_loop_pointwise\<close> for the alerts
  and the log, \<open>alert_loop_store\<close> for the persisted rows); and, for the runs of one endpoint, the
  balance between triggered and resolved notifications and the spacing of the reminders.
\<close>

subsection \<open>The loop\<close>

text \<open>The notifications of the alert at position \<open>i\<close>.\<close>

definition notices_of :: "nat \<Rightarrow> notification list \<Rightarrow> notification list" where
  "notices_of i log = filter (\<lambda>n. nt_index n = i) log"

lemma notices_of_append [simp]: "notices_of i (l @ l') = notices_of i l @ notices_of i l'"
  by (simp add: notices_of_def)

lemma notices_of_Nil [simp]: "notices_of i [] = []"
  by (simp add: notices_of_def)

lemma notices_of_same: "list_all (\<lambda>n. nt_index n = i) l \<Longrightarrow> notices_of i l = l"
  by (simp add: notices_of_def list_all_iff filter_id_conv)

lemma notices_of_other: "list_all (\<lambda>n. nt_index n \<noteq> i) l \<Longrightarrow> notices_of i l = []"
  by (simp add: notices_of_def list_all_iff filter_empty_conv)

lemma alert_loop_length: "length (fst (alert_loop f i ep s as)) = length as"
proof (induction as arbitrary: i ep s)
  case (Cons a as)
  obtain a1 ep1 s1 l where "f i ep s a = (a1, ep1, s1, l)" by (metis prod_cases4)
  moreover have "length (fst (alert_loop f (Suc i) ep1 s1 as)) = length as" by (rule Cons.IH)
  ultimately show ?case by (cases "alert_loop f (Suc i) ep1 s1 as") simp
qed simp

lemma alert_loop_pointwise:
  assumes step: "\<And>i ep s a a' ep' s' l. I ep \<Longrightarrow> f i ep s a = (a', ep', s', l) \<Longrightarrow>
      I ep' \<and> R a a' l \<and> list_all (\<lambda>n. nt_index n = i) l"
  shows "I ep \<Longrightarrow> alert_loop f i ep s as = (as', ep', s', log) \<Longrightarrow>
     I ep' \<and> list_all (\<lambda>n. i \<le> nt_index n \<and> nt_index n < i + length as) log \<and>
     (\<forall>k < length as. R (as ! k) (as' ! k) (notices_of (i + k) log))"
proof (induction as arbitrary: i ep s as' log)
  case Nil
  then show ?case by simp
next
  case (Cons a as)
  obtain a1 ep1 s1 l where f: "f i ep s a = (a1, ep1, s1, l)" by (metis prod_cases4)
  obtain as2 ep2 s2 l' where rest: "alert_loop f (Suc i) ep1 s1 as = (as2, ep2, s2, l')"
    by (metis prod_cases4)
  from Cons.prems f rest have eqs: "as' = a1 # as2" "ep' = ep2" "s' = s2" "log = l @ l'" by auto
  from step [OF Cons.prems(1) f] have I1: "I ep1" and R1: "R a a1 l"
    and l: "list_all (\<lambda>n. nt_index n = i) l" by auto
  from Cons.IH [OF I1 rest [folded eqs(2,3)]] have IH: "I ep2"
      "list_all (\<lambda>n. Suc i \<le> nt_index n \<and> nt_index n < Suc i + length as) l'"
      "\<And>k. k < length as \<Longrightarrow> R (as ! k) (as2 ! k) (notices_of (Suc i + k) l')"
    by (auto simp: eqs)
  have "notices_of i l' = []"
    using IH(2) by (intro notices_of_other) (auto simp: list_all_iff)
  moreover have "notices_of (Suc i + k) l = []" for k
    using l by (intro notices_of_other) (auto simp: list_all_iff)
  ultimately have "R ((a # as) ! k) (as' ! k) (notices_of (i + k) log)" if "k < length (a # as)" for k
    using that R1 IH(3) l by (cases k) (auto simp: eqs notices_of_same)
  with IH(1,2) l show ?case by (auto simp: eqs list_all_iff)
qed

text \<open>
  The same for what the steps do to the store: a relation between the alert and its row that the step
  establishes and that the steps on the other alerts keep.
\<close>

lemma alert_loop_store:
  assumes step: "\<And>i ep s a a' ep' s' l. I ep \<Longrightarrow> J s \<Longrightarrow> S s a \<Longrightarrow> f i ep s a = (a', ep', s', l) \<Longrightarrow>
      I ep' \<and> J s' \<and> S s' a' \<and> K a' = K a \<and> (\<forall>b. K b \<noteq> K a \<longrightarrow> S s' b = S s b)"
  shows "I ep \<Longrightarrow> J s \<Longrightarrow> distinct (map K as) \<Longrightarrow> list_all (S s) as \<Longrightarrow>
    alert_loop f i ep s as = (as', ep', s', log) \<Longrightarrow>
    I ep' \<and> J s' \<and> list_all (S s') as' \<and> map K as' = map K as \<and>
    (\<forall>b. K b \<notin> K ` set as \<longrightarrow> S s' b = S s b)"
proof (induction as arbitrary: i ep s as' log)
  case Nil
  then show ?case by simp
next
  case (Cons a as)
  obtain a1 ep1 s1 l where f: "f i ep s a = (a1, ep1, s1, l)" by (metis prod_cases4)
  obtain as2 ep2 s2 l' where rest: "alert_loop f (Suc i) ep1 s1 as = (as2, ep2, s2, l')"
    by (metis prod_cases4)
  from Cons.prems f rest have eqs: "as' = a1 # as2" "ep' = ep2" "s' = s2" "log = l @ l'" by auto
  have st: "I ep1" "J s1" "S s1 a1" "K a1 = K a" "\<forall>b. K b \<noteq> K a \<longrightarrow> S s1 b = S s b"
    using step [OF Cons.prems(1,2) _ f] Cons.prems(4) by auto
  have "list_all (S s1) as"
    using Cons.prems(3,4) st(5) by (auto simp: list_all_iff image_iff)
  from Cons.IH [OF st(1,2) _ this rest [folded eqs(2,3)]] Cons.prems(3)
  have IH: "I ep2 \<and> J s2 \<and> list_all (S s2) as2 \<and> map K as2 = map K as \<and>
      (\<forall>b. K b \<notin> K ` set as \<longrightarrow> S s2 b = S s1 b)"
    by (simp add: eqs)
  moreover have "S s2 a1"
    using IH st(3,4) Cons.prems(3) by auto
  ultimately show ?case using st(4,5) by (auto simp: eqs)
qed

subsection \<open>The steps\<close>

text \<open>Every delivery for the alert type succeeds in this environment.\<close>

definition delivers :: "'st watchdog_env \<Rightarrow> alerting_config \<Rightarrow> string \<Rightarrow> bool" where
  "delivers env cfg ty \<longleftrightarrow>
     (case cfg ty of
        None \<Rightarrow> False
      | Some p \<Rightarrow> (if wd_mock env then \<not> wd_mock_error env else (\<forall>ep a r. fst (p ep a r False) = None)))"

text \<open>No delivery for the alert type succeeds.\<close>

definition refuses :: "'st watchdog_env \<Rightarrow> alerting_config \<Rightarrow> string \<Rightarrow> bool" where
  "refuses env cfg ty \<longleftrightarrow>
     (case cfg ty of
        None \<Rightarrow> True
      | Some p \<Rightarrow> (if wd_mock env then wd_mock_error env else (\<forall>ep a r. fst (p ep a r False) \<noteq> None)))"

text \<open>How a failed result moves an alert, given the number of failures in a row it makes.\<close>

definition trigger_rel :: "'st watchdog_env \<Rightarrow> alerting_config \<Rightarrow> int \<Rightarrow> alert \<Rightarrow> alert \<Rightarrow> notification list \<Rightarrow> bool" where
  "trigger_rel env cfg failures a a' l \<longleftrightarrow>
     alert_config a' = alert_config a \<and>
     (triggered a \<longrightarrow> triggered a') \<and>
     (l = [] \<longrightarrow> a' = a) \<and>
     (delivers env cfg (al_type a) \<and> alert_IsEnabled a \<and> failure_threshold a \<le> failures \<longrightarrow> triggered a') \<and>
     (refuses env cfg (al_type a) \<or> \<not> alert_IsEnabled a \<or> failures < failure_threshold a \<longrightarrow>
        triggered a' = triggered a) \<and>
     (l \<noteq> [] \<longrightarrow> alert_IsEnabled a \<and> failure_threshold a \<le> failures \<and> cfg (al_type a) \<noteq> None \<and>
        (\<exists>n. l = [n] \<and> nt_alert n = a \<and> nt_kind n = (if triggered a then Reminder else Initial) \<and>
           (nt_error n = None \<longrightarrow> triggered a') \<and>
           (nt_error n \<noteq> None \<longrightarrow> triggered a' = triggered a)))"

lemma trigger_step_rel:
  assumes "NumberOfFailuresInARow ep = F \<and> NumberOfSuccessesInARow ep = N"
    and "trigger_step env cfg r t i ep s a = (a', ep', s', l)"
  shows "(NumberOfFailuresInARow ep' = F \<and> NumberOfSuccessesInARow ep' = N) \<and>
     trigger_rel env cfg F a a' l \<and> list_all (\<lambda>n. nt_index n = i) l"
  using assms
  by (auto simp: trigger_step_def trigger_rel_def delivers_def refuses_def Let_def
      split: if_splits option.splits prod.splits) (metis fst_conv option.distinct(1))+

text \<open>How a successful result moves an alert, given the number of successes in a row it makes.\<close>

definition resolve_rel :: "alerting_config \<Rightarrow> int \<Rightarrow> alert \<Rightarrow> alert \<Rightarrow> notification list \<Rightarrow> bool" where
  "resolve_rel cfg successes a a' l \<longleftrightarrow>
     (let due = (alert_IsEnabled a \<and> triggered a \<and> success_threshold a \<le> successes)
      in alert_config a' = alert_config a \<and> triggered a' = (triggered a \<and> \<not> due) \<and>
         (\<not> due \<longrightarrow> a' = a \<and> l = []) \<and>
         (due \<longrightarrow> length l = (if IsSendingOnResolved a \<and> cfg (al_type a) \<noteq> None then 1 else 0) \<and>
            list_all (\<lambda>n. nt_kind n = Resolution \<and> nt_alert n = a\<lparr>triggered := False\<rparr>) l))"

lemma resolve_step_rel:
  assumes "NumberOfFailuresInARow ep = F \<and> NumberOfSuccessesInARow ep = N"
    and "resolve_step env cfg r i ep s a = (a', ep', s', l)"
  shows "(NumberOfFailuresInARow ep' = F \<and> NumberOfSuccessesInARow ep' = N) \<and>
     resolve_rel cfg N a a' l \<and> list_all (\<lambda>n. nt_index n = i) l"
  using assms
  by (auto simp: resolve_step_def resolve_rel_def Let_def split: if_splits option.splits prod.splits)

subsection \<open>One result\<close>

lemma handleAlertsToTrigger_pointwise:
  assumes "handleAlertsToTrigger env cfg ep r s = (ep', s', log)"
  shows "NumberOfFailuresInARow ep' = NumberOfFailuresInARow ep + 1 \<and> NumberOfSuccessesInARow ep' = 0 \<and>
     length (ep_alerts ep') = length (ep_alerts ep) \<and>
     list_all (\<lambda>n. nt_index n < length (ep_alerts ep)) log \<and>
     (\<forall>k < length (ep_alerts ep).
        trigger_rel env cfg (NumberOfFailuresInARow ep + 1) (ep_alerts ep ! k) (ep_alerts ep' ! k) (notices_of k log))"
proof -
  define ep0 where "ep0 = ep\<lparr>NumberOfSuccessesInARow := 0, NumberOfFailuresInARow := NumberOfFailuresInARow ep + 1\<rparr>"
  obtain as ep1 where loop:
      "alert_loop (trigger_step env cfg r (LastReminderSent ep0)) 0 ep0 s (ep_alerts ep0) = (as, ep1, s', log)"
    and ep': "ep' = ep1\<lparr>ep_alerts := as\<rparr>"
    using assms by (auto simp: handleAlertsToTrigger_def ep0_def Let_def split: prod.splits)
  have "length as = length (ep_alerts ep0)"
    using alert_loop_length [of "trigger_step env cfg r (LastReminderSent ep0)" 0 ep0 s "ep_alerts ep0"] loop
    by simp
  moreover from alert_loop_pointwise [where I = "\<lambda>e. NumberOfFailuresInARow e = NumberOfFailuresInARow ep + 1 \<and>
        NumberOfSuccessesInARow e = 0" and R = "trigger_rel env cfg (NumberOfFailuresInARow ep + 1)",
      OF trigger_step_rel _ loop]
  have "(NumberOfFailuresInARow ep1 = NumberOfFailuresInARow ep + 1 \<and> NumberOfSuccessesInARow ep1 = 0) \<and>
    list_all (\<lambda>n. nt_index n < length (ep_alerts ep0)) log \<and>
     (\<forall>k < length (ep_alerts ep0).
        trigger_rel env cfg (NumberOfFailuresInARow ep + 1) (ep_alerts ep0 ! k) (as ! k) (notices_of k log))"
    by (simp add: ep0_def)
  ultimately show ?thesis by (simp add: ep' ep0_def)
qed

lemma handleAlertsToResolve_pointwise:
  assumes "handleAlertsToResolve env cfg ep r s = (ep', s', log)"
  shows "NumberOfFailuresInARow ep' = 0 \<and> NumberOfSuccessesInARow ep' = NumberOfSuccessesInARow ep + 1 \<and>
     length (ep_alerts ep') = length (ep_alerts ep) \<and>
     list_all (\<lambda>n. nt_index n < length (ep_alerts ep)) log \<and>
     (\<forall>k < length (ep_alerts ep).
        resolve_rel cfg (NumberOfSuccessesInARow ep + 1) (ep_alerts ep ! k) (ep_alerts ep' ! k) (notices_of k log))"
proof -
  define ep0 where "ep0 = ep\<lparr>NumberOfSuccessesInARow := NumberOfSuccessesInARow ep + 1\<rparr>"
  obtain as ep1 where loop:
      "alert_loop (resolve_step env cfg r) 0 ep0 s (ep_alerts ep0) = (as, ep1, s', log)"
    and ep': "ep' = ep1\<lparr>ep_alerts := as, NumberOfFailuresInARow := 0\<rparr>"
    using assms by (auto simp: handleAlertsToResolve_def ep0_def Let_def split: prod.splits)
  have "length as = length (ep_alerts ep0)"
    using alert_loop_length [of "resolve_step env cfg r" 0 ep0 s "ep_alerts ep0"] loop by simp
  moreover from alert_loop_pointwise [where I = "\<lambda>e. NumberOfFailuresInARow e = NumberOfFailuresInARow ep \<and>
        NumberOfSuccessesInARow e = NumberOfSuccessesInARow ep + 1"
        and R = "resolve_rel cfg (NumberOfSuccessesInARow ep + 1)", OF resolve_step_rel _ loop]
  have "(NumberOfFailuresInARow ep1 = NumberOfFailuresInARow ep \<and>
      NumberOfSuccessesInARow ep1 = NumberOfSuccessesInARow ep + 1) \<and>
    list_all (\<lambda>n. nt_index n < length (ep_alerts ep0)) log \<and>
     (\<forall>k < length (ep_alerts ep0).
        resolve_rel cfg (NumberOfSuccessesInARow ep + 1) (ep_alerts ep0 ! k) (as ! k) (notices_of k log))"
    by (simp add: ep0_def)
  ultimately show ?thesis by (simp add: ep' ep0_def)
qed

lemma HandleAlerting_pointwise:
  assumes "HandleAlerting env (Some cfg) ep r s = (ep', s', log)"
  shows "length (ep_alerts ep') = length (ep_alerts ep)"
    and "list_all (\<lambda>n. nt_index n < length (ep_alerts ep)) log"
    and "k < length (ep_alerts ep) \<Longrightarrow>
      (if Success r
       then resolve_rel cfg (NumberOfSuccessesInARow ep + 1) (ep_alerts ep ! k) (ep_alerts ep' ! k) (notices_of k log)
       else trigger_rel env cfg (NumberOfFailuresInARow ep + 1) (ep_alerts ep ! k) (ep_alerts ep' ! k)
         (notices_of k log))"
    and "NumberOfFailuresInARow ep' = (if Success r then 0 else NumberOfFailuresInARow ep + 1)"
    and "NumberOfSuccessesInARow ep' = (if Success r then NumberOfSuccessesInARow ep + 1 else 0)"
  using assms handleAlertsToTrigger_pointwise [of env cfg ep r s ep' s' log]
    handleAlertsToResolve_pointwise [of env cfg ep r s ep' s' log]
  by (auto simp: HandleAlerting_def split: if_splits)

lemma HandleAlerting_config:
  assumes "HandleAlerting env (Some cfg) ep r s = (ep', s', log)"
  shows "map alert_config (ep_alerts ep') = map alert_config (ep_alerts ep)"
proof (rule nth_equalityI)
  show "length (map alert_config (ep_alerts ep')) = length (map alert_config (ep_alerts ep))"
    using HandleAlerting_pointwise(1) [OF assms] by simp
  fix k assume "k < length (map alert_config (ep_alerts ep'))"
  then have "k < length (ep_alerts ep)" using HandleAlerting_pointwise(1) [OF assms] by simp
  with HandleAlerting_pointwise(3) [OF assms this] HandleAlerting_pointwise(1) [OF assms]
  show "map alert_config (ep_alerts ep') ! k = map alert_config (ep_alerts ep) ! k"
    by (simp add: trigger_rel_def resolve_rel_def Let_def split: if_splits)
qed

lemma HandleAlerting_config_nth:
  assumes "HandleAlerting env (Some cfg) ep r s = (ep', s', log)" and "k < length (ep_alerts ep)"
  shows "alert_config (ep_alerts ep' ! k) = alert_config (ep_alerts ep ! k)"
  using HandleAlerting_config [OF assms(1)] HandleAlerting_pointwise(1) [OF assms(1)] assms(2)
  by (metis nth_map)

subsection \<open>The balance of the notifications\<close>

definition delivered_initials :: "notification list \<Rightarrow> nat" where
  "delivered_initials l = length (filter (\<lambda>n. nt_kind n = Initial \<and> nt_error n = None) l)"

definition resolutions :: "notification list \<Rightarrow> nat" where
  "resolutions l = length (filter (\<lambda>n. nt_kind n = Resolution) l)"

lemma delivered_initials_append [simp]:
  "delivered_initials (l @ l') = delivered_initials l + delivered_initials l'"
  by (simp add: delivered_initials_def)

lemma resolutions_append [simp]: "resolutions (l @ l') = resolutions l + resolutions l'"
  by (simp add: resolutions_def)

lemma notices_Nil [simp]: "delivered_initials [] = 0" "resolutions [] = 0"
  by (simp_all add: delivered_initials_def resolutions_def)

lemma trigger_rel_balance:
  "trigger_rel env cfg F a a' l \<Longrightarrow>
   delivered_initials l + of_bool (triggered a) = resolutions l + of_bool (triggered a')"
  by (cases "l = []") (auto simp: trigger_rel_def delivered_initials_def resolutions_def split: if_splits)

lemma resolve_rel_balance:
  assumes "resolve_rel cfg N a a' l"
  shows "delivered_initials l = 0"
    and "resolutions l + of_bool (triggered a') \<le> of_bool (triggered a)"
    and "IsSendingOnResolved a \<Longrightarrow> cfg (al_type a) \<noteq> None \<Longrightarrow>
      resolutions l + of_bool (triggered a') = of_bool (triggered a)"
proof -
  have "filter (\<lambda>n. nt_kind n = Initial \<and> nt_error n = None) l = [] \<and> resolutions l = length l"
    using assms by (cases "l = []") (auto simp: resolve_rel_def Let_def resolutions_def list_all_iff
        filter_empty_conv filter_id_conv split: if_splits)
  then show "delivered_initials l = 0"
    and "resolutions l + of_bool (triggered a') \<le> of_bool (triggered a)"
    and "IsSendingOnResolved a \<Longrightarrow> cfg (al_type a) \<noteq> None \<Longrightarrow>
      resolutions l + of_bool (triggered a') = of_bool (triggered a)"
    using assms by (auto simp: delivered_initials_def resolve_rel_def Let_def split: if_splits)
qed

lemma HandleAlerting_balance:
  assumes h: "HandleAlerting env (Some cfg) ep r s = (ep', s', log)" and k: "k < length (ep_alerts ep)"
  shows "resolutions (notices_of k log) + of_bool (triggered (ep_alerts ep' ! k))
      \<le> delivered_initials (notices_of k log) + of_bool (triggered (ep_alerts ep ! k))"
    and "IsSendingOnResolved (ep_alerts ep ! k) \<Longrightarrow> cfg (al_type (ep_alerts ep ! k)) \<noteq> None \<Longrightarrow>
      resolutions (notices_of k log) + of_bool (triggered (ep_alerts ep' ! k))
      = delivered_initials (notices_of k log) + of_bool (triggered (ep_alerts ep ! k))"
proof -
  show "resolutions (notices_of k log) + of_bool (triggered (ep_alerts ep' ! k))
      \<le> delivered_initials (notices_of k log) + of_bool (triggered (ep_alerts ep ! k))"
    and "IsSendingOnResolved (ep_alerts ep ! k) \<Longrightarrow> cfg (al_type (ep_alerts ep ! k)) \<noteq> None \<Longrightarrow>
      resolutions (notices_of k log) + of_bool (triggered (ep_alerts ep' ! k))
      = delivered_initials (notices_of k log) + of_bool (triggered (ep_alerts ep ! k))"
    using HandleAlerting_pointwise(3) [OF h k] trigger_rel_balance resolve_rel_balance
    by (cases "Success r", fastforce, fastforce)+
qed

lemma handle_results_step:
  assumes "handle_results cfg ((env, r) # rs) ep s = (ep', s', log)"
  obtains ep1 s1 l l' where "HandleAlerting env cfg ep r s = (ep1, s1, l)"
    and "handle_results cfg rs ep1 s1 = (ep', s', l')" and "log = l @ l'"
  using assms by (auto simp: Let_def split: prod.splits)

lemma handle_results_config:
  "handle_results (Some cfg) rs ep s = (ep', s', log) \<Longrightarrow>
   map alert_config (ep_alerts ep') = map alert_config (ep_alerts ep)"
proof (induction rs arbitrary: ep s log)
  case (Cons p rs)
  obtain env r where p: "p = (env, r)" by (cases p)
  from handle_results_step [OF Cons.prems [unfolded p]] Cons.IH show ?case
    by (metis HandleAlerting_config)
qed simp

lemma handle_results_balance:
  assumes "handle_results (Some cfg) rs ep s = (ep', s', log)" and "k < length (ep_alerts ep)"
  shows "resolutions (notices_of k log) + of_bool (triggered (ep_alerts ep' ! k))
      \<le> delivered_initials (notices_of k log) + of_bool (triggered (ep_alerts ep ! k))"
    and "IsSendingOnResolved (ep_alerts ep ! k) \<Longrightarrow> cfg (al_type (ep_alerts ep ! k)) \<noteq> None \<Longrightarrow>
      resolutions (notices_of k log) + of_bool (triggered (ep_alerts ep' ! k))
      = delivered_initials (notices_of k log) + of_bool (triggered (ep_alerts ep ! k))"
  using assms
proof (induction rs arbitrary: ep s log)
  case Nil
  { case 1 with Nil show ?case by simp next case 2 with Nil show ?case by simp }
next
  case (Cons p rs)
  obtain env r where p: "p = (env, r)" by (cases p)
  { fix ep s log assume run: "handle_results (Some cfg) (p # rs) ep s = (ep', s', log)"
      and k: "k < length (ep_alerts ep)"
    obtain ep1 s1 l l' where h: "HandleAlerting env (Some cfg) ep r s = (ep1, s1, l)"
      and rest: "handle_results (Some cfg) rs ep1 s1 = (ep', s', l')" and log: "log = l @ l'"
      using run [unfolded p] by (rule handle_results_step)
    have k1: "k < length (ep_alerts ep1)" using HandleAlerting_pointwise(1) [OF h] k by simp
    note sel = alert_config_selectors [OF HandleAlerting_config_nth [OF h k]]
    have "resolutions (notices_of k log) + of_bool (triggered (ep_alerts ep' ! k))
        \<le> delivered_initials (notices_of k log) + of_bool (triggered (ep_alerts ep ! k))"
      using HandleAlerting_balance(1) [OF h k] Cons.IH(1) [OF rest k1] by (simp add: log)
    moreover have "IsSendingOnResolved (ep_alerts ep ! k) \<Longrightarrow> cfg (al_type (ep_alerts ep ! k)) \<noteq> None \<Longrightarrow>
        resolutions (notices_of k log) + of_bool (triggered (ep_alerts ep' ! k))
        = delivered_initials (notices_of k log) + of_bool (triggered (ep_alerts ep ! k))"
      using HandleAlerting_balance(2) [OF h k] Cons.IH(2) [OF _ _ rest k1] by (simp add: log sel)
    moreover note calculation }
  note both = this
  { case 1 with both(1) show ?case by blast next case 2 with both(2) show ?case by blast }
qed

subsection \<open>Timing\<close>

lemma HandleAlerting_failure:
  assumes h: "HandleAlerting env (Some cfg) ep r s = (ep', s', log)" and k: "k < length (ep_alerts ep)"
    and "\<not> Success r" and en: "alert_IsEnabled (ep_alerts ep ! k)"
    and d: "delivers env cfg (al_type (ep_alerts ep ! k))"
  shows "triggered (ep_alerts ep' ! k) \<longleftrightarrow> triggered (ep_alerts ep ! k) \<or>
     failure_threshold (ep_alerts ep ! k) \<le> NumberOfFailuresInARow ep + 1"
  using HandleAlerting_pointwise(3) [OF h k] assms by (auto simp: trigger_rel_def)

text \<open>After \<open>n\<close> failures in a row, an alert that was not triggered is triggered from its threshold on.\<close>

lemma handle_results_failures:
  assumes "handle_results (Some cfg) rs ep s = (ep', s', log)" and "k < length (ep_alerts ep)"
    and "\<forall>(env, r) \<in> set rs. \<not> Success r \<and> delivers env cfg (al_type (ep_alerts ep ! k))"
    and "alert_IsEnabled (ep_alerts ep ! k)"
  shows "NumberOfFailuresInARow ep' = NumberOfFailuresInARow ep + int (length rs) \<and>
     triggered (ep_alerts ep' ! k) =
       (triggered (ep_alerts ep ! k) \<or>
        rs \<noteq> [] \<and> failure_threshold (ep_alerts ep ! k) \<le> NumberOfFailuresInARow ep + int (length rs))"
  using assms
proof (induction rs arbitrary: ep s log)
  case (Cons p rs)
  obtain env r where p: "p = (env, r)" by (cases p)
  obtain ep1 s1 l l' where h: "HandleAlerting env (Some cfg) ep r s = (ep1, s1, l)"
    and rest: "handle_results (Some cfg) rs ep1 s1 = (ep', s', l')"
    using Cons.prems(1) [unfolded p] by (rule handle_results_step)
  have k1: "k < length (ep_alerts ep1)" using HandleAlerting_pointwise(1) [OF h] Cons.prems(2) by simp
  note sel = alert_config_selectors [OF HandleAlerting_config_nth [OF h Cons.prems(2)]]
  have r: "\<not> Success r" and d: "delivers env cfg (al_type (ep_alerts ep ! k))"
    using Cons.prems(3) p by auto
  have IH: "NumberOfFailuresInARow ep' = NumberOfFailuresInARow ep1 + int (length rs) \<and>
     triggered (ep_alerts ep' ! k) =
       (triggered (ep_alerts ep1 ! k) \<or>
        rs \<noteq> [] \<and> failure_threshold (ep_alerts ep1 ! k) \<le> NumberOfFailuresInARow ep1 + int (length rs))"
    by (rule Cons.IH [OF rest k1]) (use Cons.prems(3,4) sel in auto)
  show ?case
    using IH HandleAlerting_failure [OF h Cons.prems(2) r Cons.prems(4) d]
      HandleAlerting_pointwise(4) [OF h] r sel(4)
    by (cases "rs = []") auto
qed simp

lemma HandleAlerting_success:
  assumes h: "HandleAlerting env (Some cfg) ep r s = (ep', s', log)" and k: "k < length (ep_alerts ep)"
    and "Success r" and "alert_IsEnabled (ep_alerts ep ! k)"
  shows "triggered (ep_alerts ep' ! k) \<longleftrightarrow> triggered (ep_alerts ep ! k) \<and>
     NumberOfSuccessesInARow ep + 1 < success_threshold (ep_alerts ep ! k)"
  using HandleAlerting_pointwise(3) [OF h k] assms by (auto simp: resolve_rel_def Let_def)

lemma handle_results_successes:
  assumes "handle_results (Some cfg) rs ep s = (ep', s', log)" and "k < length (ep_alerts ep)"
    and "\<forall>(env, r) \<in> set rs. Success r" and "alert_IsEnabled (ep_alerts ep ! k)"
  shows "NumberOfSuccessesInARow ep' = NumberOfSuccessesInARow ep + int (length rs) \<and>
     triggered (ep_alerts ep' ! k) =
       (triggered (ep_alerts ep ! k) \<and>
        (rs = [] \<or> NumberOfSuccessesInARow ep + int (length rs) < success_threshold (ep_alerts ep ! k)))"
  using assms
proof (induction rs arbitrary: ep s log)
  case (Cons p rs)
  obtain env r where p: "p = (env, r)" by (cases p)
  obtain ep1 s1 l l' where h: "HandleAlerting env (Some cfg) ep r s = (ep1, s1, l)"
    and rest: "handle_results (Some cfg) rs ep1 s1 = (ep', s', l')"
    using Cons.prems(1) [unfolded p] by (rule handle_results_step)
  have k1: "k < length (ep_alerts ep1)" using HandleAlerting_pointwise(1) [OF h] Cons.prems(2) by simp
  note sel = alert_config_selectors [OF HandleAlerting_config_nth [OF h Cons.prems(2)]]
  have r: "Success r" using Cons.prems(3) p by auto
  have IH: "NumberOfSuccessesInARow ep' = NumberOfSuccessesInARow ep1 + int (length rs) \<and>
     triggered (ep_alerts ep' ! k) =
       (triggered (ep_alerts ep1 ! k) \<and>
        (rs = [] \<or> NumberOfSuccessesInARow ep1 + int (length rs) < success_threshold (ep_alerts ep1 ! k)))"
    by (rule Cons.IH [OF rest k1]) (use Cons.prems(3,4) sel in auto)
  show ?case
    using IH HandleAlerting_success [OF h Cons.prems(2) r Cons.prems(4)]
      HandleAlerting_pointwise(5) [OF h] r sel(5)
    by (cases "rs = []") auto
qed simp

subsection \<open>Reminders\<close>

text \<open>A delivered notification of a failure: the ones that set \<open>LastReminderSent\<close>.\<close>

definition delivered_failure :: "notification \<Rightarrow> bool" where
  "delivered_failure n \<longleftrightarrow> nt_kind n \<noteq> Resolution \<and> nt_error n = None"

definition reminder_due :: "time \<Rightarrow> notification \<Rightarrow> bool" where
  "reminder_due prev n \<longleftrightarrow>
     (nt_kind n = Reminder \<longrightarrow>
        0 < minimum_reminder_interval (nt_alert n) \<and>
        minimum_reminder_interval (nt_alert n) \<le> time_sub (nt_time n) prev)"

lemma trigger_step_reminder:
  "trigger_step env cfg r t i ep s a = (a', ep', s', l) \<Longrightarrow>
   LastReminderSent ep' = (if list_ex delivered_failure l then wd_now env else LastReminderSent ep) \<and>
   list_all (\<lambda>n. nt_time n = wd_now env \<and> reminder_due t n) l"
  by (auto simp: trigger_step_def Let_def delivered_failure_def reminder_due_def
      split: if_splits option.splits prod.splits)

lemma trigger_loop_reminder:
  "alert_loop (trigger_step env cfg r t) i ep s as = (as', ep', s', log) \<Longrightarrow>
   LastReminderSent ep' = (if list_ex delivered_failure log then wd_now env else LastReminderSent ep) \<and>
   list_all (\<lambda>n. nt_time n = wd_now env \<and> reminder_due t n) log"
proof (induction as arbitrary: i ep s as' log)
  case (Cons a as)
  obtain a1 ep1 s1 l where f: "trigger_step env cfg r t i ep s a = (a1, ep1, s1, l)" by (metis prod_cases4)
  obtain as2 ep2 s2 l' where rest: "alert_loop (trigger_step env cfg r t) (Suc i) ep1 s1 as = (as2, ep2, s2, l')"
    by (metis prod_cases4)
  from Cons.prems f rest have eqs: "ep' = ep2" "s' = s2" "log = l @ l'" by auto
  show ?case using trigger_step_reminder [OF f] Cons.IH [OF rest [folded eqs(1,2)]] eqs
    by (auto simp: list_ex_iff)
qed simp

lemma resolve_step_reminder:
  "resolve_step env cfg r i ep s a = (a', ep', s', l) \<Longrightarrow>
   LastReminderSent ep' = LastReminderSent ep \<and> list_all (\<lambda>n. nt_kind n = Resolution) l"
  by (auto simp: resolve_step_def Let_def split: if_splits option.splits prod.splits)

lemma resolve_loop_reminder:
  "alert_loop (resolve_step env cfg r) i ep s as = (as', ep', s', log) \<Longrightarrow>
   LastReminderSent ep' = LastReminderSent ep \<and> list_all (\<lambda>n. nt_kind n = Resolution) log"
proof (induction as arbitrary: i ep s as' log)
  case (Cons a as)
  obtain a1 ep1 s1 l where f: "resolve_step env cfg r i ep s a = (a1, ep1, s1, l)" by (metis prod_cases4)
  obtain as2 ep2 s2 l' where rest: "alert_loop (resolve_step env cfg r) (Suc i) ep1 s1 as = (as2, ep2, s2, l')"
    by (metis prod_cases4)
  from Cons.prems f rest have eqs: "ep' = ep2" "s' = s2" "log = l @ l'" by auto
  show ?case using resolve_step_reminder [OF f] Cons.IH [OF rest [folded eqs(1,2)]] eqs
    by auto
qed simp

lemma HandleAlerting_reminder:
  assumes "HandleAlerting env (Some cfg) ep r s = (ep', s', log)"
  shows "LastReminderSent ep' =
      (if list_ex delivered_failure log then wd_now env else LastReminderSent ep) \<and>
    list_all (\<lambda>n. delivered_failure n \<longrightarrow> nt_time n = wd_now env) log \<and>
    list_all (reminder_due (LastReminderSent ep)) log"
proof (cases "Success r")
  case True
  let ?ep = "ep\<lparr>NumberOfSuccessesInARow := NumberOfSuccessesInARow ep + 1\<rparr>"
  obtain as ep1 where loop: "alert_loop (resolve_step env cfg r) 0 ?ep s (ep_alerts ?ep) = (as, ep1, s', log)"
    and "ep' = ep1\<lparr>ep_alerts := as, NumberOfFailuresInARow := 0\<rparr>"
    using assms True by (auto simp: HandleAlerting_def handleAlertsToResolve_def Let_def split: prod.splits)
  then show ?thesis using resolve_loop_reminder [OF loop]
    by (auto simp: list_ex_iff list_all_iff delivered_failure_def reminder_due_def)
next
  case False
  let ?ep = "ep\<lparr>NumberOfSuccessesInARow := 0, NumberOfFailuresInARow := NumberOfFailuresInARow ep + 1\<rparr>"
  obtain as ep1 where
      loop: "alert_loop (trigger_step env cfg r (LastReminderSent ?ep)) 0 ?ep s (ep_alerts ?ep) = (as, ep1, s', log)"
    and "ep' = ep1\<lparr>ep_alerts := as\<rparr>"
    using assms False by (auto simp: HandleAlerting_def handleAlertsToTrigger_def Let_def split: prod.splits)
  then show ?thesis using trigger_loop_reminder [OF loop] by (auto simp: list_ex_iff list_all_iff)
qed

lemma reminder_due_gap: "reminder_due prev n \<Longrightarrow> nt_kind n = Reminder \<Longrightarrow>
   prev + minimum_reminder_interval (nt_alert n) \<le> nt_time n"
  by (auto simp: reminder_due_def go_time max_def min_def split: if_splits)

text \<open>With a clock that does not go back, no failure was delivered after \<open>LastReminderSent\<close>.\<close>

lemma handle_results_last_reminder:
  assumes "handle_results (Some cfg) rs ep s = (ep', s', log)" and "sorted (map (wd_now \<circ> fst) rs)"
    and "n \<in> set log" and "delivered_failure n"
  shows "nt_time n \<le> LastReminderSent ep' \<and> LastReminderSent ep' \<in> wd_now ` fst ` set rs"
  using assms
proof (induction rs arbitrary: ep s log)
  case (Cons p rs)
  obtain env r where p: "p = (env, r)" by (cases p)
  obtain ep1 s1 l l' where h: "HandleAlerting env (Some cfg) ep r s = (ep1, s1, l)"
    and rest: "handle_results (Some cfg) rs ep1 s1 = (ep', s', l')" and log: "log = l @ l'"
    using Cons.prems(1) [unfolded p] by (rule handle_results_step)
  have unchanged: "LastReminderSent ep' = LastReminderSent ep1 \<or>
      LastReminderSent ep' \<in> wd_now ` fst ` set rs" 
    using rest
  proof (induction rs arbitrary: ep1 s1 l')
    case (Cons q rs)
    obtain env' r' where q: "q = (env', r')" by (cases q)
    obtain ep2 s2 m m' where h2: "HandleAlerting env' (Some cfg) ep1 r' s1 = (ep2, s2, m)"
      and rest2: "handle_results (Some cfg) rs ep2 s2 = (ep', s', m')"
      using Cons.prems [unfolded q] by (rule handle_results_step)
    from Cons.IH [OF rest2] HandleAlerting_reminder [OF h2] show ?case
      by (auto simp: q split: if_splits)
  qed simp
  show ?case
  proof (cases "n \<in> set l'")
    case True
    with Cons.IH [OF rest _ True Cons.prems(4)] Cons.prems(2) show ?thesis by auto
  next
    case False
    with Cons.prems(3,4) log have n: "n \<in> set l" and ex: "list_ex delivered_failure l"
      by (auto simp: list_ex_iff)
    then have "nt_time n = wd_now env" "LastReminderSent ep1 = wd_now env"
      using HandleAlerting_reminder [OF h] Cons.prems(4) by (auto simp: list_all_iff)
    with unchanged Cons.prems(2) show ?thesis by (auto simp: p)
  qed
qed simp

subsection \<open>The specification of an alert\<close>

text \<open>
  What the handling of the results promises for one alert: an automaton over the numbers of failures and successes
  in a row and whether the alert is triggered, driven by the outcome of each result and whether a notification would
  be delivered. A failure triggers at the failure threshold, a success resolves at the success threshold.
\<close>

record alert_view =
  av_failures :: int
  av_successes :: int
  av_triggered :: bool

definition view_of :: "nat \<Rightarrow> endpoint \<Rightarrow> alert_view" where
  "view_of k ep = \<lparr>av_failures = NumberOfFailuresInARow ep, av_successes = NumberOfSuccessesInARow ep,
     av_triggered = triggered (ep_alerts ep ! k)\<rparr>"

definition spec_step :: "alert \<Rightarrow> alert_view \<Rightarrow> bool \<times> bool \<Rightarrow> alert_view" where
  "spec_step a v e =
     (let (success, delivered) = e
      in if success
         then \<lparr>av_failures = 0, av_successes = av_successes v + 1,
               av_triggered = (av_triggered v \<and> \<not> (alert_IsEnabled a \<and> success_threshold a \<le> av_successes v + 1))\<rparr>
         else \<lparr>av_failures = av_failures v + 1, av_successes = 0,
               av_triggered = (av_triggered v \<or>
                 alert_IsEnabled a \<and> failure_threshold a \<le> av_failures v + 1 \<and> delivered)\<rparr>)"

lemma spec_step_config: "alert_config a = alert_config b \<Longrightarrow> spec_step a = spec_step b"
  using alert_config_selectors [of a b] by (intro ext) (simp add: spec_step_def split: prod.split)

lemma HandleAlerting_refines:
  assumes h: "HandleAlerting env (Some cfg) ep r s = (ep', s', log)" and k: "k < length (ep_alerts ep)"
    and d: "delivers env cfg (al_type (ep_alerts ep ! k)) \<or> refuses env cfg (al_type (ep_alerts ep ! k))"
  shows "view_of k ep' = spec_step (ep_alerts ep ! k) (view_of k ep)
     (Success r, delivers env cfg (al_type (ep_alerts ep ! k)))"
  using HandleAlerting_pointwise(3) [OF h k] HandleAlerting_pointwise(4,5) [OF h] d
  by (auto simp: view_of_def spec_step_def resolve_rel_def trigger_rel_def delivers_def refuses_def Let_def
      split: if_splits option.splits)

end
