(* ===== verification/AlertPersistence.thy ===== *)
theory AlertPersistence
  imports AlertingFacts
begin

text \<open>
  The alert handling as a client of the storage interface. Inside \<open>alert_store\<close>: the handling of one
  endpoint never touches the persisted alerts of another. Inside \<open>persistent_alert_store\<close>: the
  persisted rows follow the triggered flags and the resolve keys of the alerts, so that a restart
  (\<open>RestorePersistedTriggeredAlerts\<close>) gives them back, and a change of a provider
  (\<open>MigrateTriggeredAlerts\<close>) carries them over. The facts on the SQL store are the interpretations of
  these lemmas.
\<close>

subsection \<open>Isolation\<close>

lemma step_Key:
  "trigger_step env cfg r t i ep s a = (a', ep', s', l) \<Longrightarrow> ep_Key ep' = ep_Key ep"
  "resolve_step env cfg r i ep s a = (a', ep', s', l) \<Longrightarrow> ep_Key ep' = ep_Key ep"
  by (auto simp: trigger_step_def resolve_step_def Let_def split: if_splits option.splits prod.splits)

lemma alert_loop_invariant:
  assumes "\<And>i ep s a a' ep' s' l. P ep s \<Longrightarrow> f i ep s a = (a', ep', s', l) \<Longrightarrow> P ep' s'"
  shows "P ep s \<Longrightarrow> alert_loop f i ep s as = (as', ep', s', log) \<Longrightarrow> P ep' s'"
proof (induction as arbitrary: i ep s as' log)
  case (Cons a as)
  obtain a1 ep1 s1 l where f: "f i ep s a = (a1, ep1, s1, l)" by (metis prod_cases4)
  obtain as2 ep2 s2 l' where rest: "alert_loop f (Suc i) ep1 s1 as = (as2, ep2, s2, l')"
    by (metis prod_cases4)
  with Cons.prems f Cons.IH [OF assms [OF Cons.prems(1) f]] show ?case by auto
qed simp

text \<open>A relation that the store operations on an endpoint keep is kept by the handling of a result.\<close>

lemma HandleAlerting_store:
  assumes upsert: "\<And>ep s a. ep_Key ep = key \<Longrightarrow> P s \<Longrightarrow> P (snd (UpsertTriggeredEndpointAlert (wd_store env) s ep a))"
    and delete: "\<And>ep s a. ep_Key ep = key \<Longrightarrow> P s \<Longrightarrow> P (snd (DeleteTriggeredEndpointAlert (wd_store env) s ep a))"
    and "ep_Key ep = key" and "P s" and h: "HandleAlerting env cfg ep r s = (ep', s', log)"
  shows "ep_Key ep' = key \<and> P s'"
proof (cases cfg)
  case None
  with assms show ?thesis by (simp add: HandleAlerting_def)
next
  case (Some c)
  have trigger: "ep_Key ep2 = key \<and> P s2" if "ep_Key ep1 = key \<and> P s1"
    and f: "trigger_step env c r t i ep1 s1 a = (a', ep2, s2, l)" for t i ep1 s1 a a' ep2 s2 l
    using that step_Key(1) [OF f] upsert
    by (auto simp: trigger_step_def Let_def split: if_splits option.splits prod.splits)
  have resolve: "ep_Key ep2 = key \<and> P s2" if "ep_Key ep1 = key \<and> P s1"
    and f: "resolve_step env c r i ep1 s1 a = (a', ep2, s2, l)" for i ep1 s1 a a' ep2 s2 l
    using that step_Key(2) [OF f] upsert delete
    by (auto simp: resolve_step_def Let_def split: if_splits option.splits prod.splits)
  show ?thesis
  proof (cases "Success r")
    case True
    let ?ep = "ep\<lparr>NumberOfSuccessesInARow := NumberOfSuccessesInARow ep + 1\<rparr>"
    obtain as ep1 where loop: "alert_loop (resolve_step env c r) 0 ?ep s (ep_alerts ?ep) = (as, ep1, s', log)"
      and ep': "ep' = ep1\<lparr>ep_alerts := as, NumberOfFailuresInARow := 0\<rparr>"
      using h Some True by (auto simp: HandleAlerting_def handleAlertsToResolve_def Let_def split: prod.splits)
    have "ep_Key ep1 = key \<and> P s'"
      by (rule alert_loop_invariant [OF _ _ loop]) (erule (1) resolve, simp add: assms(3,4))
    then show ?thesis by (simp add: ep')
  next
    case False
    let ?ep = "ep\<lparr>NumberOfSuccessesInARow := 0, NumberOfFailuresInARow := NumberOfFailuresInARow ep + 1\<rparr>"
    obtain as ep1 where
        loop: "alert_loop (trigger_step env c r (LastReminderSent ?ep)) 0 ?ep s (ep_alerts ?ep) = (as, ep1, s', log)"
      and ep': "ep' = ep1\<lparr>ep_alerts := as\<rparr>"
      using h Some False by (auto simp: HandleAlerting_def handleAlertsToTrigger_def Let_def split: prod.splits)
    have "ep_Key ep1 = key \<and> P s'"
      by (rule alert_loop_invariant [OF _ _ loop]) (erule (1) trigger, simp add: assms(3,4))
    then show ?thesis by (simp add: ep')
  qed
qed

context alert_store
begin

lemma HandleAlerting_isolated:
  assumes "wd_store env = ops" and "inv s" and "k \<noteq> ep_Key ep"
    and "HandleAlerting env cfg ep r s = (ep', s', log)"
  shows "inv s' \<and> rows s' k = rows s k"
  using HandleAlerting_store [where P = "\<lambda>s'. inv s' \<and> rows s' k = rows s k" and key = "ep_Key ep", OF _ _ _ _ assms(4)]
    assms upsert_inv delete_inv upsert_frame delete_frame
  by auto

lemma handle_results_isolated:
  assumes "\<forall>(env, r) \<in> set rs. wd_store env = ops" and "inv s" and "k \<noteq> ep_Key ep"
    and "handle_results cfg rs ep s = (ep', s', log)"
  shows "inv s' \<and> rows s' k = rows s k"
  using assms
proof (induction rs arbitrary: ep s log)
  case (Cons p rs)
  obtain env r where p: "p = (env, r)" by (cases p)
  obtain ep1 s1 l l' where h: "HandleAlerting env cfg ep r s = (ep1, s1, l)"
    and rest: "handle_results cfg rs ep1 s1 = (ep', s', l')"
    using Cons.prems(4) [unfolded p] by (rule handle_results_step)
  have env: "wd_store env = ops" using Cons.prems(1) p by auto
  have "ep_Key ep1 = ep_Key ep"
    using HandleAlerting_store [where P = "\<lambda>_. True", OF _ _ refl _ h] by simp
  with Cons.IH [OF _ _ _ rest] HandleAlerting_isolated [OF env Cons.prems(2,3) h] Cons.prems(1,3)
  show ?case by auto
qed simp

end

subsection \<open>Persistence\<close>

text \<open>
  The types of \<open>K\<close> have providers that leave the resolve key alone when the delivery of a reminder fails. GitLab's draws
  a key for an alert without one before it sends, and that of incident.io may set it to the empty key of an answer that
  it could not read, and both then report a failure: they are not of \<open>K\<close>.
\<close>

definition keeping :: "string set \<Rightarrow> alerting_config \<Rightarrow> bool" where
  "keeping K cfg \<longleftrightarrow>
     (\<forall>ty \<in> K. \<forall>p ep a r. cfg ty = Some p \<longrightarrow> triggered a \<longrightarrow> fst (p ep a r False) \<noteq> None \<longrightarrow>
        snd (p ep a r False) = resolve_key a)"

lemma keepingD:
  "keeping K cfg \<Longrightarrow> ty \<in> K \<Longrightarrow> cfg ty = Some p \<Longrightarrow> triggered a \<Longrightarrow> p ep a r False = (Some e, k) \<Longrightarrow> k = resolve_key a"
  unfolding keeping_def by (metis fst_conv option.distinct(1) snd_conv)

text \<open>The row of an alert says whether it is triggered and, if so, has its resolve key, when its type is of \<open>K\<close>.\<close>

definition row_matches ::
    "string set \<Rightarrow> ('st \<Rightarrow> string \<Rightarrow> string \<Rightarrow> (string \<times> int) option) \<Rightarrow> (string \<Rightarrow> string) \<Rightarrow> string \<Rightarrow> 'st \<Rightarrow> alert \<Rightarrow> bool" where
  "row_matches K rows sha key s a \<longleftrightarrow>
     (alert_IsEnabled a \<longrightarrow>
        (case rows s key (Checksum sha a) of
           None \<Rightarrow> \<not> triggered a
         | Some (k, n) \<Rightarrow> triggered a \<and> (al_type a \<in> K \<longrightarrow> k = resolve_key a)))"

definition alerts_synced ::
    "string set \<Rightarrow> ('st \<Rightarrow> string \<Rightarrow> string \<Rightarrow> (string \<times> int) option) \<Rightarrow> (string \<Rightarrow> string) \<Rightarrow> 'st \<Rightarrow> endpoint \<Rightarrow> bool" where
  "alerts_synced K rows sha s ep \<longleftrightarrow>
     distinct (map (Checksum sha) (ep_alerts ep)) \<and>
     list_all (row_matches K rows sha (ep_Key ep) s) (ep_alerts ep)"

text \<open>What a restart makes of an alert: a triggered one is triggered again, with its resolve key when its type is of \<open>K\<close>.\<close>

definition restored_as :: "string set \<Rightarrow> alert \<Rightarrow> alert \<Rightarrow> bool" where
  "restored_as K a b \<longleftrightarrow>
     (if alert_IsEnabled a \<and> triggered a
      then triggered b \<and> alert_config b = alert_config a \<and> (al_type a \<in> K \<longrightarrow> b = a)
      else b = alert_config a)"

text \<open>What the restoration makes of an alert, given the rows of its endpoint.\<close>

definition restored_alert :: "(string \<Rightarrow> (string \<times> int) option) \<Rightarrow> (string \<Rightarrow> string) \<Rightarrow> alert \<Rightarrow> alert" where
  "restored_alert row sha a =
     (case row (Checksum sha a) of
        None \<Rightarrow> a
      | Some (k, n) \<Rightarrow> a\<lparr>triggered := True, resolve_key := k\<rparr>)"

text \<open>What a step does to the alert and to the store.\<close>

lemma trigger_step_outcome:
  assumes "keeping K cfg" and "trigger_step env cfg r t i ep s a = (a', ep', s', l)"
  shows "alert_config a' = alert_config a \<and>
     (s' = s \<and> triggered a' = triggered a \<and> (triggered a \<and> al_type a \<in> K \<longrightarrow> resolve_key a' = resolve_key a) \<or>
      triggered a' \<and>
        s' = snd (UpsertTriggeredEndpointAlert (wd_store env) s (ep\<lparr>LastReminderSent := wd_now env\<rparr>) a'))"
  using assms(2) keepingD [OF assms(1)]
  by (auto simp: trigger_step_def Let_def split: if_splits option.splits prod.splits)

lemma resolve_step_outcome:
  assumes "resolve_step env cfg r i ep s a = (a', ep', s', l)"
  shows "alert_config a' = alert_config a \<and> 
     (s' = s \<and> a' = a \<or>
      a' = a \<and> triggered a \<and> s' = snd (UpsertTriggeredEndpointAlert (wd_store env) s ep a) \<or>
      \<not> triggered a' \<and>
        s' = snd (DeleteTriggeredEndpointAlert (wd_store env) s ep (a\<lparr>triggered := False\<rparr>)))"
  using assms by (auto simp: resolve_step_def Let_def split: if_splits option.splits prod.splits)

context persistent_alert_store
begin

lemma row_matches_upsert:
  assumes "inv s" and "healthy s" and "ep_Key ep = key" and "triggered a"
  shows "row_matches K rows sha key (snd (UpsertTriggeredEndpointAlert ops s ep a)) a"
    and "Checksum sha b \<noteq> Checksum sha a \<Longrightarrow>
      row_matches K rows sha key (snd (UpsertTriggeredEndpointAlert ops s ep a)) b = row_matches K rows sha key s b"
  using upsert_row [OF assms(1,2), of ep a] assms(3,4) by (auto simp: row_matches_def)

lemma row_matches_delete:
  assumes "inv s" and "healthy s" and "ep_Key ep = key" and "\<not> triggered a"
  shows "row_matches K rows sha key (snd (DeleteTriggeredEndpointAlert ops s ep a)) a"
    and "Checksum sha b \<noteq> Checksum sha a \<Longrightarrow>
      row_matches K rows sha key (snd (DeleteTriggeredEndpointAlert ops s ep a)) b = row_matches K rows sha key s b"
  using delete_row [OF assms(1,2), of ep a] assms(3,4) by (auto simp: row_matches_def)

lemma row_matches_cong:
  assumes "alert_config a' = alert_config a" and "triggered a' = triggered a"
    and "triggered a \<and> al_type a \<in> K \<longrightarrow> resolve_key a' = resolve_key a"
  shows "row_matches K rows sha key s a' = row_matches K rows sha key s a"
  using assms alert_config_selectors(1,2,7) [OF assms(1)]
  by (auto simp: row_matches_def split: option.splits)

lemma trigger_step_synced:
  assumes env: "wd_store env = ops" and keeps: "keeping K cfg" and key: "ep_Key ep = key"
    and s: "inv s \<and> healthy s" and a: "row_matches K rows sha key s a"
    and step: "trigger_step env cfg r t i ep s a = (a', ep', s', l)"
  shows "ep_Key ep' = key \<and> (inv s' \<and> healthy s') \<and> row_matches K rows sha key s' a' \<and>
    Checksum sha a' = Checksum sha a \<and>
    (\<forall>b. Checksum sha b \<noteq> Checksum sha a \<longrightarrow> row_matches K rows sha key s' b = row_matches K rows sha key s b)"
proof -
  note out = trigger_step_outcome [OF keeps step, unfolded env]
  have K: "Checksum sha a' = Checksum sha a" using alert_config_selectors(7) out by blast
  from out consider (same) "s' = s" "triggered a' = triggered a" "triggered a \<and> al_type a \<in> K \<longrightarrow> resolve_key a' = resolve_key a"
    | (sent) "triggered a'"
      "s' = snd (UpsertTriggeredEndpointAlert ops s (ep\<lparr>LastReminderSent := wd_now env\<rparr>) a')"
    by blast
  then show ?thesis
  proof cases
    case same
    then have "row_matches K rows sha key s' a'" using row_matches_cong out a by blast
    with same(1) s K step_Key(1) [OF step] key show ?thesis by simp
  next
    case sent
    have k: "ep_Key (ep\<lparr>LastReminderSent := wd_now env\<rparr>) = key" using key by simp
    show ?thesis
      using sent(2) row_matches_upsert [OF conjunct1 [OF s] conjunct2 [OF s] k sent(1)]
        upsert_inv upsert_healthy s K step_Key(1) [OF step] key by simp
  qed
qed

lemma resolve_step_synced:
  assumes env: "wd_store env = ops" and key: "ep_Key ep = key"
    and s: "inv s \<and> healthy s" and a: "row_matches K rows sha key s a"
    and step: "resolve_step env cfg r i ep s a = (a', ep', s', l)"
  shows "ep_Key ep' = key \<and> (inv s' \<and> healthy s') \<and> row_matches K rows sha key s' a' \<and>
    Checksum sha a' = Checksum sha a \<and>
    (\<forall>b. Checksum sha b \<noteq> Checksum sha a \<longrightarrow> row_matches K rows sha key s' b = row_matches K rows sha key s b)"
proof -
  note out = resolve_step_outcome [OF step, unfolded env]
  have K: "Checksum sha a' = Checksum sha a" using alert_config_selectors(7) out by blast
  from out consider (same) "s' = s" "a' = a"
    | (below) "a' = a" "triggered a" "s' = snd (UpsertTriggeredEndpointAlert ops s ep a)"
    | (resolved) "\<not> triggered a'" "s' = snd (DeleteTriggeredEndpointAlert ops s ep (a\<lparr>triggered := False\<rparr>))"
    by blast
  then show ?thesis
  proof cases
    case same
    with s a step_Key(2) [OF step] key show ?thesis by simp
  next
    case below
    then show ?thesis
      using row_matches_upsert [OF conjunct1 [OF s] conjunct2 [OF s] key below(2)]
        upsert_inv upsert_healthy s step_Key(2) [OF step] key by simp
  next
    case resolved
    have del: "row_matches K rows sha key s' (a\<lparr>triggered := False\<rparr>)"
      "\<And>b. Checksum sha b \<noteq> Checksum sha a \<Longrightarrow> row_matches K rows sha key s' b = row_matches K rows sha key s b"
      using row_matches_delete [OF conjunct1 [OF s] conjunct2 [OF s] key, of "a\<lparr>triggered := False\<rparr>"]
      by (simp_all add: resolved(2))
    moreover have "row_matches K rows sha key s' a' = row_matches K rows sha key s' (a\<lparr>triggered := False\<rparr>)"
      using out resolved(1) by (intro row_matches_cong) simp_all
    ultimately show ?thesis
      using resolved(2) delete_inv delete_healthy s K step_Key(2) [OF step] key by simp
  qed
qed

lemma HandleAlerting_synced:
  assumes "wd_store env = ops" and "keeping K cfg" and "inv s" and "healthy s" and "alerts_synced K rows sha s ep"
    and h: "HandleAlerting env (Some cfg) ep r s = (ep', s', log)"
  shows "inv s' \<and> healthy s' \<and> alerts_synced K rows sha s' ep'"
proof (cases "Success r")
  case True
  let ?ep = "ep\<lparr>NumberOfSuccessesInARow := NumberOfSuccessesInARow ep + 1\<rparr>"
  obtain as ep1 where loop: "alert_loop (resolve_step env cfg r) 0 ?ep s (ep_alerts ?ep) = (as, ep1, s', log)"
    and ep': "ep' = ep1\<lparr>ep_alerts := as, NumberOfFailuresInARow := 0\<rparr>"
    using h True by (auto simp: HandleAlerting_def handleAlertsToResolve_def Let_def split: prod.splits)
  have "ep_Key ep1 = ep_Key ep \<and> (inv s' \<and> healthy s') \<and> list_all (row_matches K rows sha (ep_Key ep) s') as \<and>
      map (Checksum sha) as = map (Checksum sha) (ep_alerts ?ep) \<and>
      (\<forall>b. Checksum sha b \<notin> Checksum sha ` set (ep_alerts ?ep) \<longrightarrow>
        row_matches K rows sha (ep_Key ep) s' b = row_matches K rows sha (ep_Key ep) s b)"
    by (rule alert_loop_store [OF _ _ _ _ _ loop], erule (3) resolve_step_synced [OF assms(1)])
      (use assms(3-5) in \<open>simp_all add: alerts_synced_def\<close>)
  then show ?thesis using assms(5) by (simp add: ep' alerts_synced_def)
next
  case False
  let ?ep = "ep\<lparr>NumberOfSuccessesInARow := 0, NumberOfFailuresInARow := NumberOfFailuresInARow ep + 1\<rparr>"
  obtain as ep1 where
      loop: "alert_loop (trigger_step env cfg r (LastReminderSent ?ep)) 0 ?ep s (ep_alerts ?ep) = (as, ep1, s', log)"
    and ep': "ep' = ep1\<lparr>ep_alerts := as\<rparr>"
    using h False by (auto simp: HandleAlerting_def handleAlertsToTrigger_def Let_def split: prod.splits)
  have "ep_Key ep1 = ep_Key ep \<and> (inv s' \<and> healthy s') \<and> list_all (row_matches K rows sha (ep_Key ep) s') as \<and>
      map (Checksum sha) as = map (Checksum sha) (ep_alerts ?ep) \<and>
      (\<forall>b. Checksum sha b \<notin> Checksum sha ` set (ep_alerts ?ep) \<longrightarrow>
        row_matches K rows sha (ep_Key ep) s' b = row_matches K rows sha (ep_Key ep) s b)"
    by (rule alert_loop_store [OF _ _ _ _ _ loop], erule (3) trigger_step_synced [OF assms(1,2)])
      (use assms(3-5) in \<open>simp_all add: alerts_synced_def\<close>)
  then show ?thesis using assms(5) by (simp add: ep' alerts_synced_def)
qed

lemma handle_results_synced:
  assumes "\<forall>(env, r) \<in> set rs. wd_store env = ops" and "keeping K cfg" and "inv s" and "healthy s" and "alerts_synced K rows sha s ep"
    and "handle_results (Some cfg) rs ep s = (ep', s', log)"
  shows "inv s' \<and> healthy s' \<and> alerts_synced K rows sha s' ep'"
  using assms
proof (induction rs arbitrary: ep s log)
  case (Cons p rs)
  obtain env r where p: "p = (env, r)" by (cases p)
  obtain ep1 s1 l l' where h: "HandleAlerting env (Some cfg) ep r s = (ep1, s1, l)"
    and rest: "handle_results (Some cfg) rs ep1 s1 = (ep', s', l')"
    using Cons.prems(6) [unfolded p] by (rule handle_results_step)
  have "inv s1 \<and> healthy s1 \<and> alerts_synced K rows sha s1 ep1"
    using HandleAlerting_synced [OF _ Cons.prems(2,3,4,5) h] Cons.prems(1) p by auto
  with Cons.IH [OF _ Cons.prems(2) _ _ _ rest] Cons.prems(1) show ?case by auto
qed simp

subsection \<open>Restart\<close>

lemma restore_loop_rows:
  assumes "inv s" and "healthy s" and "restore_loop ops s ep n as = (as', ep', n')"
  shows "as' = map (restored_alert (rows s (ep_Key ep)) sha) as \<and>
     n' = n + length (filter (\<lambda>a. rows s (ep_Key ep) (Checksum sha a) \<noteq> None) as) \<and>
     ep_Key ep' = ep_Key ep"
  using assms(3)
proof (induction as arbitrary: ep n as' n')
  case (Cons a as)
  show ?case
  proof (cases "rows s (ep_Key ep) (Checksum sha a)")
    case None
    with Cons show ?thesis
      by (auto simp: get_row [OF assms(1,2)] restored_alert_def split: prod.splits)
  next
    case (Some row)
    obtain k m where row: "row = (k, m)" by (cases row)
    let ?ep = "ep\<lparr>NumberOfSuccessesInARow := m, NumberOfFailuresInARow := failure_threshold a\<rparr>"
    obtain as2 where "restore_loop ops s ?ep (Suc n) as = (as2, ep', n')"
      and "as' = a\<lparr>triggered := True, resolve_key := k\<rparr> # as2"
      using Cons.prems Some row by (auto simp: get_row [OF assms(1,2)] split: prod.splits)
    with Cons.IH [OF this(1)] Some row show ?thesis by (simp add: restored_alert_def)
  qed
qed simp

lemma restore_single:
  assumes "inv s" and "healthy s" and "alert_IsEnabled a" and "ep_alerts ep = [a]"
    and "rows s (ep_Key ep) (Checksum sha a) = Some (k, m)"
    and "RestorePersistedTriggeredAlerts ops sha ep s = (n, ep', s')"
  shows "NumberOfSuccessesInARow ep' = m \<and> NumberOfFailuresInARow ep' = failure_threshold a \<and>
     ep_alerts ep' = [a\<lparr>triggered := True, resolve_key := k\<rparr>]"
proof -
  let ?s = "snd (DeleteAllTriggeredAlertsNotInChecksumsByEndpoint ops s ep [Checksum sha a])"
  have "rows ?s (ep_Key ep) (Checksum sha a) = Some (k, m)"
    using delete_not_in_row [OF assms(1,2), of ep "[Checksum sha a]"] assms(5) by simp
  moreover have "inv ?s" "healthy ?s"
    using delete_not_in_inv assms(1) delete_not_in_healthy assms(2) by blast+
  ultimately show ?thesis
    using assms(3,4,6) get_row [of ?s ep a]
    by (auto simp: RestorePersistedTriggeredAlerts_def Let_def)
qed

lemma restart_restores:
  assumes "inv s" and "healthy s" and sync: "alerts_synced K rows sha s ep"
    and fresh: "ep_Key fresh = ep_Key ep" "ep_alerts fresh = map alert_config (ep_alerts ep)"
    and restore: "RestorePersistedTriggeredAlerts ops sha fresh s = (n, ep', s')"
  shows "list_all2 (restored_as K) (ep_alerts ep) (ep_alerts ep')"
proof -
  let ?cs = "map (Checksum sha) (filter alert_IsEnabled (ep_alerts fresh))"
  let ?s = "snd (DeleteAllTriggeredAlertsNotInChecksumsByEndpoint ops s fresh ?cs)"
  obtain as ep1 where loop: "restore_loop ops ?s fresh 0 (ep_alerts fresh) = (as, ep1, n)"
    and ep': "ep' = ep1\<lparr>ep_alerts := as\<rparr>"
    using restore by (auto simp: RestorePersistedTriggeredAlerts_def Let_def split: prod.splits)
  have s: "inv ?s" "healthy ?s"
    using delete_not_in_inv assms(1) delete_not_in_healthy assms(2) by blast+
  have sel: "alert_IsEnabled (alert_config a) = alert_IsEnabled a"
    "Checksum sha (alert_config a) = Checksum sha a" for a
    by (simp_all add: alert_config_def)
  have row: "rows ?s (ep_Key fresh) = rows s (ep_Key ep) |` set ?cs"
    using delete_not_in_row [OF assms(1,2), of fresh ?cs] fresh(1) by simp
  have cs: "set ?cs = Checksum sha ` {a \<in> set (ep_alerts ep). alert_IsEnabled a}"
    by (auto simp: fresh(2) sel filter_map comp_def)
  have "restored_as K a (restored_alert (rows ?s (ep_Key fresh)) sha (alert_config a))" if a: "a \<in> set (ep_alerts ep)" for a
  proof (cases "alert_IsEnabled a")
    case True
    with a have "Checksum sha a \<in> set ?cs" unfolding cs by blast
    moreover have "row_matches K rows sha (ep_Key ep) s a"
      using sync a by (auto simp: alerts_synced_def list_all_iff)
    moreover have "triggered a \<Longrightarrow> (alert_config a)\<lparr>triggered := True, resolve_key := resolve_key a\<rparr> = a"
      by (cases a) (simp add: alert_config_def)
    moreover have "alert_config ((alert_config a)\<lparr>triggered := True, resolve_key := k\<rparr>) = alert_config a" for k
      by (simp add: alert_config_def)
    ultimately show ?thesis using True
      by (auto simp: restored_alert_def restored_as_def sel row row_matches_def split: option.splits)
  next
    case False
    have "Checksum sha a \<notin> set ?cs"
      using False a sync unfolding cs by (auto simp: alerts_synced_def distinct_map dest: inj_onD)
    with False show ?thesis by (simp add: restored_alert_def restored_as_def sel row)
  qed
  then show ?thesis
    using restore_loop_rows [OF s loop] by (simp add: ep' fresh(2) list_all2_conv_all_nth)
qed

subsection \<open>Migration\<close>

lemma migrate_loop_rows:
  assumes "inv s" and "healthy s" and "ep_Key prev = key" and "ep_Key nxt = key"
    and "distinct (map (Checksum sha) as)"
    and "\<And>i j. i < length ps \<Longrightarrow> j < length as \<Longrightarrow> Checksum sha (ps ! i) = Checksum sha (as ! j) \<Longrightarrow> i = j"
    and "migrate_loop ops sha prev nxt s n ps as = (s', n')"
  shows "inv s' \<and> healthy s' \<and> (\<forall>c. c \<notin> Checksum sha ` set as \<longrightarrow> rows s' key c = rows s key c) \<and>
    (\<forall>i < length as. i < length ps \<longrightarrow>
       rows s' key (Checksum sha (as ! i)) =
         (if al_type (as ! i) = al_type (ps ! i) \<and> alert_IsEnabled (as ! i) \<and>
             rows s key (Checksum sha (ps ! i)) \<noteq> None
          then rows s key (Checksum sha (ps ! i)) else rows s key (Checksum sha (as ! i))))"
  using assms
proof (induction ps arbitrary: s n as)
  case (Cons p ps)
  show ?case
  proof (cases as)
    case Nil
    with Cons.prems show ?thesis by simp
  next
    case as: (Cons a as1)
    let ?K = "Checksum sha"
    define moved where "moved \<longleftrightarrow> al_type a = al_type p \<and> ?K p \<noteq> ?K a \<and> alert_IsEnabled a \<and> rows s key (?K p) \<noteq> None"
    obtain s1 n1 where rest: "migrate_loop ops sha prev nxt s1 n1 ps as1 = (s', n')"
      and s1: "inv s1" "healthy s1"
      and row1: "rows s1 key = (if moved then (rows s key)(?K a := rows s key (?K p)) else rows s key)"
    proof (cases moved)
      case False
      then show ?thesis using Cons.prems(1-4,7) as that
        by (auto simp: moved_def get_row Let_def split: if_splits option.splits)
    next
      case True
      then obtain k m where row: "rows s key (?K p) = Some (k, m)" by (auto simp: moved_def)
      let ?b = "a\<lparr>triggered := True, resolve_key := k\<rparr>" and ?e = "nxt\<lparr>NumberOfSuccessesInARow := m\<rparr>"
      have b: "?K ?b = ?K a" "ep_Key ?e = key" using Cons.prems(4) by simp_all
      obtain s1 where up: "UpsertTriggeredEndpointAlert ops s ?e ?b = (None, s1)"
        and r1: "rows s1 key = (rows s key)(?K a := rows s key (?K p))"
        using upsert_row [OF Cons.prems(1,2), of ?e ?b] b row
        by (cases "UpsertTriggeredEndpointAlert ops s ?e ?b") auto
      have "inv s1" "healthy s1"
        using upsert_inv [OF Cons.prems(1), of ?e ?b] upsert_healthy [OF Cons.prems(2), of ?e ?b] up
        by simp_all
      moreover have "migrate_loop ops sha prev nxt s1 (Suc n) ps as1 = (s', n')"
        using Cons.prems(1-4,7) as True row up by (simp add: moved_def get_row Let_def)
      ultimately show ?thesis using r1 True by (intro that) simp_all
    qed
    have dist: "distinct (map ?K as1)" and a: "?K a \<notin> ?K ` set as1" using Cons.prems(5) as by auto
    have shift: "i = j" if "i < length ps" "j < length as1" "?K (ps ! i) = ?K (as1 ! j)" for i j
      using Cons.prems(6) [of "Suc i" "Suc j"] that as by simp
    have pa: "?K (ps ! i) \<noteq> ?K a" if "i < length ps" for i
      using Cons.prems(6) [of "Suc i" 0] that as by auto
    have aa: "?K (as1 ! i) \<noteq> ?K a" if "i < length as1" for i
      using a that by (metis image_eqI nth_mem)
    note IH = Cons.IH [OF s1 Cons.prems(3,4) dist shift rest]
    have nth: "rows s' key (?K (as ! i)) =
         (if al_type (as ! i) = al_type ((p # ps) ! i) \<and> alert_IsEnabled (as ! i) \<and>
             rows s key (?K ((p # ps) ! i)) \<noteq> None
          then rows s key (?K ((p # ps) ! i)) else rows s key (?K (as ! i)))"
      if "i < length as" "i < length (p # ps)" for i
    proof (cases i)
      case 0
      have "rows s' key (?K a) = rows s1 key (?K a)" using IH a by blast
      then show ?thesis using 0 by (auto simp: as row1 moved_def)
    next
      case (Suc j)
      with that as have j: "j < length as1" "j < length ps" by simp_all
      have "rows s1 key (?K (as1 ! j)) = rows s key (?K (as1 ! j))"
        and "rows s1 key (?K (ps ! j)) = rows s key (?K (ps ! j))"
        using pa [OF j(2)] aa [OF j(1)] by (simp_all add: row1)
      moreover have "rows s' key (?K (as1 ! j)) =
         (if al_type (as1 ! j) = al_type (ps ! j) \<and> alert_IsEnabled (as1 ! j) \<and>
             rows s1 key (?K (ps ! j)) \<noteq> None
          then rows s1 key (?K (ps ! j)) else rows s1 key (?K (as1 ! j)))"
        using IH j by blast
      ultimately show ?thesis by (simp only: as Suc nth_Cons_Suc)
    qed
    have "rows s' key c = rows s key c" if "c \<notin> ?K ` set as" for c
    proof -
      have "c \<notin> ?K ` set as1" "c \<noteq> ?K a" using that as by auto
      from IH this(1) have "rows s' key c = rows s1 key c" by blast
      then show ?thesis using \<open>c \<noteq> ?K a\<close> by (simp add: row1)
    qed
    with IH nth show ?thesis by blast
  qed
qed simp

end

end
