(* ===== verification/Examples.thy ===== *)
theory Examples
  imports TriggeredStore Alerting
begin

text \<open>Concrete objects: a provider that delivers, an alert, an endpoint, an environment. The examples of the properties use them.\<close>

definition sample_alert :: alert where
  "sample_alert =
     \<lparr>al_type = ''slack'', al_enabled = None, failure_threshold = 3, success_threshold = 2,
      minimum_reminder_interval = 5 * minute, al_description = None, send_on_resolved = Some True,
      resolve_key = [], triggered = False, provider_override = []\<rparr>"

definition sample_endpoint :: endpoint where
  "sample_endpoint = empty_endpoint\<lparr>ep_name := ''web'', ep_group := ''core'', ep_url := ''https://example.org'',
     ep_conditions := [''[STATUS] == 200''], ep_alerts := [sample_alert]\<rparr>"

definition sample_provider :: alert_provider where
  "sample_provider ep a r resolved = (None, ''key'')"

definition sample_alerting :: alerting_config where
  "sample_alerting ty = (if ty = ''slack'' then Some sample_provider else None)"

definition sample_env :: "'st alert_store_ops \<Rightarrow> time \<Rightarrow> 'st watchdog_env" where
  "sample_env ops now = \<lparr>wd_store = ops, wd_mock = False, wd_mock_error = False, wd_now = now\<rparr>"

definition sample_failure :: result where
  "sample_failure = empty_result\<lparr>Errors := [''timeout'']\<rparr>"

definition sample_success :: result where
  "sample_success = empty_result\<lparr>Success := True, HTTPStatus := 200\<rparr>"

lemma sample_alert_sel [simp]:
  "al_type sample_alert = ''slack''" "alert_IsEnabled sample_alert" "IsSendingOnResolved sample_alert"
  "failure_threshold sample_alert = 3" "success_threshold sample_alert = 2" "\<not> triggered sample_alert"
  "minimum_reminder_interval sample_alert = 5 * minute" "resolve_key sample_alert = []" "valid_alert sample_alert"
  by (simp_all add: sample_alert_def alert_IsEnabled_def IsSendingOnResolved_def valid_alert_def GetDescription_def go_time)

lemma sample_endpoint_sel [simp]:
  "ep_alerts sample_endpoint = [sample_alert]" "NumberOfFailuresInARow sample_endpoint = 0"
  "NumberOfSuccessesInARow sample_endpoint = 0" "ep_group sample_endpoint = ''core''" "ep_name sample_endpoint = ''web''"
  by (simp_all add: sample_endpoint_def empty_endpoint_def)

lemma sample_result_sel [simp]: "\<not> Success sample_failure" "Success sample_success" "\<not> Pending sample_failure" "\<not> Pending sample_success"
  by (simp_all add: sample_failure_def sample_success_def empty_result_def)

lemma sample_env_sel [simp]: "wd_store (sample_env ops now) = ops" "wd_now (sample_env ops now) = now" "\<not> wd_mock (sample_env ops now)"
  by (simp_all add: sample_env_def)

lemma sample_key [simp]: "ep_Key sample_endpoint = ''core_web''"
  by (simp add: ep_Key_def ConvertGroupAndNameToKey_def sanitize_map to_lower_def char_lower_def trim_space_def
      is_space_def sanitize_char_def Let_def)

lemma sample_alerting_sel [simp]: "sample_alerting ''slack'' = Some sample_provider"
  by (simp add: sample_alerting_def)

end
