(* ===== verification/AlertProperties.thy ===== *)
theory AlertProperties
  imports AlertPersistence Examples
begin

text \<open>
  The properties of the alerts of an endpoint: thresholds, notifications, reminders, persistence and migration. The
  properties of the SQL store rest on the interpretations \<open>sql_store\<close> and \<open>sql_persistent\<close>.
\<close>

lemma sample_delivers [simp]: "delivers (sample_env ops now) sample_alerting ''slack''"
  by (simp add: delivers_def sample_provider_def)

lemma sample_keeping [simp]: "keeping K sample_alerting"
  by (auto simp: keeping_def sample_alerting_def sample_provider_def)

section \<open>Notifications\<close>

text \<open>C1. The handling of any sequence of results refines, for every alert, the automaton \<open>spec_step\<close>: it is triggered
  at the failure threshold by a delivered notification, stays so until the success threshold is reached, and the
  counters are those of the results in a row.\<close>

theorem alert_handling_refines_spec:
  assumes "k < length (ep_alerts ep)"
    and "\<forall>(env, r) \<in> set rs. delivers env cfg (al_type (ep_alerts ep ! k)) \<or> refuses env cfg (al_type (ep_alerts ep ! k))"
  shows "view_of k (fst (handle_results (Some cfg) rs ep s)) =
     foldl (spec_step (ep_alerts ep ! k)) (view_of k ep)
       (map (\<lambda>(env, r). (Success r, delivers env cfg (al_type (ep_alerts ep ! k)))) rs)"
  using assms
proof (induction rs arbitrary: ep s)
  case (Cons p rs)
  obtain env r where p: "p = (env, r)" by (cases p)
  obtain ep1 s1 l where h: "HandleAlerting env (Some cfg) ep r s = (ep1, s1, l)" by (metis prod_cases3)
  have k1: "k < length (ep_alerts ep1)" using HandleAlerting_pointwise(1) [OF h] Cons.prems(1) by simp
  note cfg_eq = HandleAlerting_config_nth [OF h Cons.prems(1)]
  note sel = alert_config_selectors(1) [OF cfg_eq] and step = spec_step_config [OF cfg_eq]
  have "view_of k ep1 = spec_step (ep_alerts ep ! k) (view_of k ep) (Success r, delivers env cfg (al_type (ep_alerts ep ! k)))"
    using HandleAlerting_refines [OF h Cons.prems(1)] Cons.prems(2) by (simp add: p)
  moreover have "view_of k (fst (handle_results (Some cfg) rs ep1 s1)) =
     foldl (spec_step (ep_alerts ep1 ! k)) (view_of k ep1)
       (map (\<lambda>(env, r). (Success r, delivers env cfg (al_type (ep_alerts ep1 ! k)))) rs)"
    using Cons.prems(2) by (intro Cons.IH [OF k1]) (auto simp: sel)
  moreover have "fst (handle_results (Some cfg) (p # rs) ep s) = fst (handle_results (Some cfg) rs ep1 s1)"
    by (simp add: p h Let_def case_prod_unfold)
  ultimately show ?case by (simp add: p sel step)
qed simp

lemma alert_handling_refines_spec_witness:
  "view_of 0 (fst (handle_results (Some sample_alerting)
       [(sample_env (memory_ops :: unit alert_store_ops) 0, sample_failure), (sample_env memory_ops 1, sample_failure),
        (sample_env memory_ops 2, sample_failure)] sample_endpoint ())) =
     \<lparr>av_failures = 3, av_successes = 0, av_triggered = True\<rparr>"
proof -
  let ?rs = "[(sample_env (memory_ops :: unit alert_store_ops) 0, sample_failure), (sample_env memory_ops 1, sample_failure),
        (sample_env memory_ops 2, sample_failure)]"
  have "view_of 0 (fst (handle_results (Some sample_alerting) ?rs sample_endpoint ())) =
     foldl (spec_step (ep_alerts sample_endpoint ! 0)) (view_of 0 sample_endpoint)
       (map (\<lambda>(env, r). (Success r, delivers env sample_alerting (al_type (ep_alerts sample_endpoint ! 0)))) ?rs)"
    by (rule alert_handling_refines_spec) simp_all
  then show ?thesis by (simp add: view_of_def spec_step_def)
qed

text \<open>C8. For an alert that is not triggered at first, in any run of results: the resolution notifications, and one more while
  it is triggered, are at most as many as the initial notifications that were delivered. They are exactly as many when the
  alert sends on resolution and its provider is configured.\<close>

theorem alert_notices_balanced:
  assumes "k < length (ep_alerts ep)" and "\<not> triggered (ep_alerts ep ! k)"
  shows "case handle_results (Some cfg) rs ep s of (ep', s', log) \<Rightarrow>
     resolutions (notices_of k log) + of_bool (triggered (ep_alerts ep' ! k)) \<le> delivered_initials (notices_of k log) \<and>
     (IsSendingOnResolved (ep_alerts ep ! k) \<and> cfg (al_type (ep_alerts ep ! k)) \<noteq> None \<longrightarrow>
      resolutions (notices_of k log) + of_bool (triggered (ep_alerts ep' ! k)) = delivered_initials (notices_of k log))"
proof -
  obtain ep' s' log where h: "handle_results (Some cfg) rs ep s = (ep', s', log)" by (metis prod_cases3)
  then show ?thesis using handle_results_balance [OF h assms(1)] assms(2) by auto
qed

text \<open>Three failures, two successes, three failures: two initial notifications, one resolution, and the alert is triggered.\<close>

definition sample_outage :: "(unit watchdog_env \<times> result) list" where
  "sample_outage =
     map (\<lambda>(t, r). (sample_env memory_ops t, r))
       [(0, sample_failure), (1, sample_failure), (2, sample_failure), (3, sample_success), (4, sample_success),
        (5, sample_failure), (6, sample_failure), (7, sample_failure)]"

lemma alert_notices_balanced_witness:
  "case handle_results (Some sample_alerting) sample_outage sample_endpoint () of (ep', s', log) \<Rightarrow>
     map nt_kind log = [Initial, Resolution, Initial] \<and> triggered (ep_alerts ep' ! 0) \<and>
     resolutions (notices_of 0 log) + 1 = delivered_initials (notices_of 0 log)"
proof -
  obtain ep' s' log where h: "handle_results (Some sample_alerting) sample_outage sample_endpoint () = (ep', s', log)"
    by (metis prod_cases3)
  have "map nt_kind (snd (snd (handle_results (Some sample_alerting) sample_outage sample_endpoint ()))) = [Initial, Resolution, Initial]"
    "triggered (ep_alerts (fst (handle_results (Some sample_alerting) sample_outage sample_endpoint ())) ! 0)"
    by code_simp+
  moreover have "case handle_results (Some sample_alerting) sample_outage sample_endpoint () of (ep', s', log) \<Rightarrow>
     resolutions (notices_of 0 log) + of_bool (triggered (ep_alerts ep' ! 0)) \<le> delivered_initials (notices_of 0 log) \<and>
     (IsSendingOnResolved (ep_alerts sample_endpoint ! 0) \<and> sample_alerting (al_type (ep_alerts sample_endpoint ! 0)) \<noteq> None \<longrightarrow>
      resolutions (notices_of 0 log) + of_bool (triggered (ep_alerts ep' ! 0)) = delivered_initials (notices_of 0 log))"
    by (rule alert_notices_balanced) simp_all
  moreover have "IsSendingOnResolved (ep_alerts sample_endpoint ! 0) \<and> sample_alerting (al_type (ep_alerts sample_endpoint ! 0)) \<noteq> None"
    by code_simp
  ultimately show ?thesis by (simp add: h)
qed

text \<open>Deliverable failures in a row trigger an alert that was not triggered exactly from its failure threshold on.\<close>

theorem alert_triggers_at_threshold:
  assumes "k < length (ep_alerts ep)" and "alert_IsEnabled (ep_alerts ep ! k)" and "\<not> triggered (ep_alerts ep ! k)"
    and "NumberOfFailuresInARow ep = 0" and "0 < failure_threshold (ep_alerts ep ! k)"
    and "\<forall>(env, r) \<in> set rs. \<not> Success r \<and> delivers env cfg (al_type (ep_alerts ep ! k))"
  shows "triggered (ep_alerts (fst (handle_results (Some cfg) rs ep s)) ! k) \<longleftrightarrow>
     failure_threshold (ep_alerts ep ! k) \<le> int (length rs)"
proof -
  obtain ep' s' log where h: "handle_results (Some cfg) rs ep s = (ep', s', log)" by (metis prod_cases3)
  show ?thesis using handle_results_failures [OF h assms(1,6,2)] assms(3-5) by (auto simp: h)
qed

lemma alert_triggers_at_threshold_witness:
  "\<not> triggered (ep_alerts (fst (handle_results (Some sample_alerting)
       (replicate 2 (sample_env (memory_ops :: unit alert_store_ops) 0, sample_failure)) sample_endpoint ())) ! 0)"
  using alert_triggers_at_threshold [of 0 sample_endpoint
      "replicate 2 (sample_env (memory_ops :: unit alert_store_ops) 0, sample_failure)" sample_alerting "()"]
  by simp

text \<open>Successes in a row resolve a triggered alert exactly at its success threshold, whatever the provider does.\<close>

theorem alert_resolves_at_threshold:
  assumes "k < length (ep_alerts ep)" and "alert_IsEnabled (ep_alerts ep ! k)" and "triggered (ep_alerts ep ! k)"
    and "NumberOfSuccessesInARow ep = 0" and "0 < success_threshold (ep_alerts ep ! k)"
    and "\<forall>(env, r) \<in> set rs. Success r"
  shows "triggered (ep_alerts (fst (handle_results (Some cfg) rs ep s)) ! k) \<longleftrightarrow>
     int (length rs) < success_threshold (ep_alerts ep ! k)"
proof -
  obtain ep' s' log where h: "handle_results (Some cfg) rs ep s = (ep', s', log)" by (metis prod_cases3)
  show ?thesis using handle_results_successes [OF h assms(1,6,2)] assms(3-5) by (auto simp: h)
qed

lemma alert_resolves_at_threshold_witness:
  "\<not> triggered (ep_alerts (fst (handle_results (Some sample_alerting)
       (replicate 2 (sample_env (memory_ops :: unit alert_store_ops) 0, sample_success))
       (sample_endpoint\<lparr>ep_alerts := [sample_alert\<lparr>triggered := True\<rparr>]\<rparr>) ())) ! 0)"
proof -
  have sel: "success_threshold (sample_alert\<lparr>triggered := True\<rparr>) = 2" by (simp add: sample_alert_def)
  show ?thesis
    using alert_resolves_at_threshold [of 0 "sample_endpoint\<lparr>ep_alerts := [sample_alert\<lparr>triggered := True\<rparr>]\<rparr>"
        "replicate 2 (sample_env (memory_ops :: unit alert_store_ops) 0, sample_success)" sample_alerting "()"]
    by (simp add: sel)
qed

text \<open>C34. With a clock that does not go back, a reminder of an alert comes at least its minimum reminder interval after
  every earlier delivered notification of a failure of the endpoint.\<close>

theorem reminders_are_spaced:
  assumes "sorted (map (wd_now \<circ> fst) (rs @ [(env, r)]))"
  shows "case handle_results (Some cfg) rs ep s of (ep', s', log) \<Rightarrow>
     (case HandleAlerting env (Some cfg) ep' r s' of (ep'', s'', log') \<Rightarrow>
        \<forall>n \<in> set log. \<forall>m \<in> set log'. delivered_failure n \<and> nt_kind m = Reminder \<longrightarrow>
          nt_time n + minimum_reminder_interval (nt_alert m) \<le> nt_time m)"
proof -
  obtain ep' s' log where h: "handle_results (Some cfg) rs ep s = (ep', s', log)" by (metis prod_cases3)
  obtain ep'' s'' log' where h2: "HandleAlerting env (Some cfg) ep' r s' = (ep'', s'', log')" by (metis prod_cases3)
  have "nt_time n + minimum_reminder_interval (nt_alert m) \<le> nt_time m"
    if n: "n \<in> set log" "delivered_failure n" and m: "m \<in> set log'" "nt_kind m = Reminder" for n m
  proof -
    have "nt_time n \<le> LastReminderSent ep'"
      using handle_results_last_reminder [OF h _ n] assms by (simp add: sorted_append)
    moreover have "reminder_due (LastReminderSent ep') m"
      using HandleAlerting_reminder [OF h2] m(1) by (simp add: list_all_iff)
    ultimately show ?thesis using reminder_due_gap m(2) by fastforce
  qed
  then show ?thesis by (simp add: h h2)
qed

lemma reminders_are_spaced_witness:
  "case handle_results (Some sample_alerting) [(sample_env (memory_ops :: unit alert_store_ops) 0, sample_failure)]
       sample_endpoint () of (ep', s', log) \<Rightarrow>
     (case HandleAlerting (sample_env memory_ops 1) (Some sample_alerting) ep' sample_failure s' of (ep'', s'', log') \<Rightarrow>
        \<forall>n \<in> set log. \<forall>m \<in> set log'. delivered_failure n \<and> nt_kind m = Reminder \<longrightarrow>
          nt_time n + minimum_reminder_interval (nt_alert m) \<le> nt_time m)"
  by (rule reminders_are_spaced) simp

section \<open>Persistence\<close>

lemma handle_results_Key: "handle_results cfg rs ep s = (ep', s', log) \<Longrightarrow> ep_Key ep' = ep_Key ep"
proof (induction rs arbitrary: ep s log)
  case (Cons p rs)
  obtain env r where p: "p = (env, r)" by (cases p)
  obtain ep1 s1 l l' where h: "HandleAlerting env cfg ep r s = (ep1, s1, l)"
    and rest: "handle_results cfg rs ep1 s1 = (ep', s', l')"
    using Cons.prems [unfolded p] by (rule handle_results_step)
  have "ep_Key ep1 = ep_Key ep \<and> True"
    by (rule HandleAlerting_store [OF _ _ _ _ h]) simp_all
  with Cons.IH [OF rest] show ?case by simp
qed simp

lemma sample_synced: "alerts_synced K sql_rows sha empty_sql sample_endpoint"
  by (simp add: alerts_synced_def row_matches_def sql_rows_def endpoint_id_def empty_sql_def)

lemma sql_healthy_empty [simp]: "sql_healthy empty_sql"
  by (simp add: sql_healthy_def empty_sql_def)

text \<open>C21. A restart after any run of results, with a SQL store whose statements succeed, from alerts with distinct checksums
  that the store agrees with: from the configuration and the persisted rows, every enabled triggered alert is triggered
  again, and it has its resolve key when its provider is one of \<open>K\<close>, which leave the key alone when a reminder fails; the
  others are not triggered.\<close>

theorem restart_restores_alerts:
  assumes "sql_inv s" and "sql_healthy s" and "alerts_synced K sql_rows sha s ep" and "keeping K cfg"
    and "\<forall>(env, r) \<in> set rs. wd_store env = sql_ops sha"
    and "ep_Key fresh = ep_Key ep" and "ep_alerts fresh = map alert_config (ep_alerts ep)"
  shows "case handle_results (Some cfg) rs ep s of (ep', s', log) \<Rightarrow>
     list_all2 (\<lambda>a b. if alert_IsEnabled a \<and> triggered a
         then triggered b \<and> alert_config b = alert_config a \<and> (al_type a \<in> K \<longrightarrow> b = a)
         else b = alert_config a)
       (ep_alerts ep') (ep_alerts (fst (snd (RestorePersistedTriggeredAlerts (sql_ops sha) sha fresh s'))))"
proof -
  obtain ep' s' log where h: "handle_results (Some cfg) rs ep s = (ep', s', log)" by (metis prod_cases3)
  note synced = sql_persistent.handle_results_synced [OF assms(5,4,1,2,3) h]
  obtain n ep'' s'' where r: "RestorePersistedTriggeredAlerts (sql_ops sha) sha fresh s' = (n, ep'', s'')"
    by (metis prod_cases3)
  have key: "ep_Key fresh = ep_Key ep'" "ep_alerts fresh = map alert_config (ep_alerts ep')"
    using assms(6,7) handle_results_Key [OF h] handle_results_config [OF h] by simp_all
  have "list_all2 (restored_as K) (ep_alerts ep') (ep_alerts ep'')"
    by (rule sql_persistent.restart_restores [OF _ _ _ key r]) (use synced in auto)
  then show ?thesis by (simp add: h r restored_as_def [abs_def])
qed

text \<open>The alert is triggered after three failures, and it is so after the restart, with its resolve key.\<close>

lemma restart_restores_alerts_witness:
  "case handle_results (Some sample_alerting) (replicate 3 (sample_env (sql_ops id) 0, sample_failure))
       sample_endpoint empty_sql of (ep', s', log) \<Rightarrow>
     map triggered (ep_alerts ep') = [True] \<and>
     ep_alerts (fst (snd (RestorePersistedTriggeredAlerts (sql_ops id) id sample_endpoint s'))) = ep_alerts ep'"
proof -
  obtain ep' s' log where h: "handle_results (Some sample_alerting) (replicate 3 (sample_env (sql_ops id) 0, sample_failure))
       sample_endpoint empty_sql = (ep', s', log)" by (metis prod_cases3)
  have t: "map triggered (ep_alerts (fst (handle_results (Some sample_alerting)
       (replicate 3 (sample_env (sql_ops id) 0, sample_failure)) sample_endpoint empty_sql))) = [True]"
    "map alert_IsEnabled (ep_alerts (fst (handle_results (Some sample_alerting)
       (replicate 3 (sample_env (sql_ops id) 0, sample_failure)) sample_endpoint empty_sql))) = [True]"
    by code_simp+
  have "case handle_results (Some sample_alerting) (replicate 3 (sample_env (sql_ops id) 0, sample_failure))
       sample_endpoint empty_sql of (ep', s', log) \<Rightarrow>
     list_all2 (\<lambda>a b. if alert_IsEnabled a \<and> triggered a
         then triggered b \<and> alert_config b = alert_config a \<and> (al_type a \<in> UNIV \<longrightarrow> b = a) else b = alert_config a)
       (ep_alerts ep') (ep_alerts (fst (snd (RestorePersistedTriggeredAlerts (sql_ops id) id sample_endpoint s'))))"
    by (rule restart_restores_alerts)
      (simp_all add: sample_synced, simp_all add: alert_config_def sample_alert_def)
  then show ?thesis using t by (auto simp: h list_all2_Cons1 map_eq_Cons_conv)
qed

text \<open>C35. Whatever faults the database has, handling the results of an endpoint leaves the persisted alerts of every
  endpoint with another key as they are.\<close>

theorem alerts_of_other_endpoints_kept:
  assumes "sql_inv s" and "k \<noteq> ep_Key ep" and "\<forall>(env, r) \<in> set rs. wd_store env = sql_ops sha"
  shows "sql_rows (fst (snd (handle_results cfg rs ep s))) k = sql_rows s k"
proof -
  obtain ep' s' log where h: "handle_results cfg rs ep s = (ep', s', log)" by (metis prod_cases3)
  show ?thesis using sql_store.handle_results_isolated [OF assms(3,1,2) h] by (simp add: h)
qed

lemma alerts_of_other_endpoints_kept_witness:
  "sql_rows (fst (snd (handle_results (Some sample_alerting)
      (replicate 3 (sample_env (sql_ops id) 0, sample_failure)) sample_endpoint empty_sql))) ''core_db'' =
   sql_rows empty_sql ''core_db''"
  by (rule alerts_of_other_endpoints_kept) simp_all

text \<open>When an edited endpoint keeps its key, the migration gives each enabled alert the row of the alert at the same
  position before, if that one has the same provider and a row, and leaves the row it had otherwise; no other
  row of the endpoint changes.\<close>

theorem migration_moves_incidents:
  assumes "sql_inv s" and "sql_healthy s" and "ep_Key prev = ep_Key nxt"
    and "distinct (map (Checksum sha) (ep_alerts nxt))"
    and "\<forall>i < length (ep_alerts prev). \<forall>j < length (ep_alerts nxt).
           Checksum sha (ep_alerts prev ! i) = Checksum sha (ep_alerts nxt ! j) \<longrightarrow> i = j"
  shows "let s' = fst (MigrateTriggeredAlerts (sql_ops sha) sha (Some prev) (Some nxt) s);
             row = sql_rows s (ep_Key nxt); row' = sql_rows s' (ep_Key nxt)
         in (\<forall>c. c \<notin> Checksum sha ` set (ep_alerts nxt) \<longrightarrow> row' c = row c) \<and>
            (\<forall>i < length (ep_alerts nxt). i < length (ep_alerts prev) \<longrightarrow>
               (let a = ep_alerts nxt ! i; p = ep_alerts prev ! i
                in row' (Checksum sha a) =
                     (if al_type a = al_type p \<and> alert_IsEnabled a \<and> row (Checksum sha p) \<noteq> None
                      then row (Checksum sha p) else row (Checksum sha a))))"
proof -
  obtain s' n where m: "migrate_loop (sql_ops sha) sha prev nxt s 0 (ep_alerts prev) (ep_alerts nxt) = (s', n)"
    by (cases "migrate_loop (sql_ops sha) sha prev nxt s 0 (ep_alerts prev) (ep_alerts nxt)")
  have "MigrateTriggeredAlerts (sql_ops sha) sha (Some prev) (Some nxt) s = (s', n)"
    using assms(3) m by (simp add: MigrateTriggeredAlerts_def)
  then show ?thesis
    using sql_persistent.migrate_loop_rows [OF assms(1,2,3) refl assms(4) _ m] assms(5) unfolding Let_def fst_conv by simp
qed

definition edited_endpoint :: endpoint where
  "edited_endpoint = sample_endpoint\<lparr>ep_alerts := [sample_alert\<lparr>failure_threshold := 4\<rparr>]\<rparr>"

lemma migration_moves_incidents_witness:
  "let s' = fst (MigrateTriggeredAlerts (sql_ops id) id (Some sample_endpoint) (Some edited_endpoint) empty_sql);
       row = sql_rows empty_sql (ep_Key edited_endpoint); row' = sql_rows s' (ep_Key edited_endpoint)
   in (\<forall>c. c \<notin> Checksum id ` set (ep_alerts edited_endpoint) \<longrightarrow> row' c = row c) \<and>
      (\<forall>i < length (ep_alerts edited_endpoint). i < length (ep_alerts sample_endpoint) \<longrightarrow>
         (let a = ep_alerts edited_endpoint ! i; p = ep_alerts sample_endpoint ! i
          in row' (Checksum id a) =
               (if al_type a = al_type p \<and> alert_IsEnabled a \<and> row (Checksum id p) \<noteq> None
                then row (Checksum id p) else row (Checksum id a))))"
  by (rule migration_moves_incidents) (simp_all add: edited_endpoint_def)

text \<open>A failure after some successes does not reset the persisted number of successes: after a restart it is the
  stale one, so that the alert is resolved earlier than without the restart. The endpoint fails three times, which
  triggers the alert, succeeds once and fails again.\<close>

theorem restart_revives_stale_successes:
  "case handle_results (Some sample_alerting)
       (replicate 3 (sample_env (sql_ops sha) 0, sample_failure) @
        [(sample_env (sql_ops sha) 0, sample_success), (sample_env (sql_ops sha) 0, sample_failure)])
       sample_endpoint empty_sql of (ep', s', log) \<Rightarrow>
     NumberOfSuccessesInARow ep' = 0 \<and>
     NumberOfSuccessesInARow (fst (snd (RestorePersistedTriggeredAlerts (sql_ops sha) sha sample_endpoint s'))) = 1"
  by (simp add: handle_results.simps numeral_eq_Suc HandleAlerting_def handleAlertsToTrigger_def handleAlertsToResolve_def trigger_step_def resolve_step_def Let_def sample_provider_def sql_ops_def
      RestorePersistedTriggeredAlerts_def sql_UpsertTriggered_def getEndpointID_def insertEndpoint_def endpoint_id_def
      empty_sql_def sql_GetTriggered_def sql_DeleteNotInChecksums_def)

end
