(* ===== verification/Registry.thy ===== *)
theory Registry
  imports Alerting
begin

text \<open>
  The registry of the endpoints being monitored (\<^verbatim>\<open>internal/watchdog/registry.go\<close>, and \<open>startExternal\<close>
  of \<^verbatim>\<open>push.go\<close>): one goroutine per endpoint, started, stopped and replaced by key. The code keeps a
  map from keys to pointers to entries; the entries live in \<open>reg_heap\<close> by identifier, so that an entry
  that has left the map can still be held by a goroutine or a submission. \<open>reg_cancelled\<close> says which
  entry contexts are cancelled. The operations that hold the mutex are functions that return the error
  or the new state; the waiting parts of \<open>stop\<close> and the processing of results, which other goroutines
  interleave with, are steps of \<open>reg_step\<close>.
\<close>

datatype source = SourceConfig | SourceAdmin

datatype registry_error = ErrMonitoringStopped | ErrEndpointAlreadyMonitored | ErrEndpointNotMonitored

text \<open>\<open>monitoredEndpoint\<close>: exactly one of \<open>endpoint\<close> and \<open>external\<close> is set.\<close>

datatype monitored = MonitoredEndpoint endpoint | MonitoredExternal external_endpoint

record monitored_entry =
  me_object :: monitored
  me_source :: source

definition me_key :: "monitored_entry \<Rightarrow> string" where
  "me_key m = (case me_object m of MonitoredEndpoint ep \<Rightarrow> ep_Key ep | MonitoredExternal ee \<Rightarrow> ee_Key ee)"

record registry =
  reg_entries :: "string \<Rightarrow> nat option"
  reg_heap :: "nat \<Rightarrow> monitored_entry option"
  reg_next :: nat
  reg_cancelled :: "nat \<Rightarrow> bool"
  reg_closed :: bool

definition newEndpointRegistry :: registry where
  "newEndpointRegistry =
     \<lparr>reg_entries = (\<lambda>_. None), reg_heap = (\<lambda>_. None), reg_next = 0, reg_cancelled = (\<lambda>_. False),
      reg_closed = False\<rparr>"

definition reg_add :: "monitored_entry \<Rightarrow> registry \<Rightarrow> registry" where
  "reg_add m r =
     r\<lparr>reg_entries := (reg_entries r)(me_key m \<mapsto> reg_next r),
       reg_heap := (reg_heap r)(reg_next r \<mapsto> m), reg_next := Suc (reg_next r)\<rparr>"

definition reg_start :: "endpoint \<Rightarrow> source \<Rightarrow> registry \<Rightarrow> registry_error + registry" where
  "reg_start ep src r =
     (if reg_closed r then Inl ErrMonitoringStopped
      else if reg_entries r (ep_Key ep) \<noteq> None then Inl ErrEndpointAlreadyMonitored
      else Inr (reg_add \<lparr>me_object = MonitoredEndpoint ep, me_source = src\<rparr> r))"

definition reg_startExternal :: "external_endpoint \<Rightarrow> source \<Rightarrow> registry \<Rightarrow> registry_error + registry" where
  "reg_startExternal ee src r =
     (if reg_closed r then Inl ErrMonitoringStopped
      else if reg_entries r (ee_Key ee) \<noteq> None then Inl ErrEndpointAlreadyMonitored
      else Inr (reg_add \<lparr>me_object = MonitoredExternal ee, me_source = src\<rparr> r))"

text \<open>
  The part of \<open>stop\<close> that holds the mutex: the entry leaves the map. Its context is cancelled after the mutex was released,
  by \<open>reg_cancel\<close>. Both give the identifier of the entry, whose execution the caller waits for.
\<close>

definition reg_remove :: "string \<Rightarrow> source \<Rightarrow> registry \<Rightarrow> registry_error + nat \<times> registry" where
  "reg_remove key src r =
     (case reg_entries r key of
        None \<Rightarrow> Inl ErrEndpointNotMonitored
      | Some i \<Rightarrow>
          (if map_option me_source (reg_heap r i) \<noteq> Some src then Inl ErrEndpointNotMonitored
           else Inr (i, r\<lparr>reg_entries := (reg_entries r)(key := None)\<rparr>)))"

definition reg_cancel :: "nat \<Rightarrow> registry \<Rightarrow> registry" where
  "reg_cancel i r = r\<lparr>reg_cancelled := (reg_cancelled r)(i := True)\<rparr>"

text \<open>Both, when nothing else runs in between; what does is in \<open>reg_step\<close>.\<close>

definition reg_stop :: "string \<Rightarrow> source \<Rightarrow> registry \<Rightarrow> registry_error + nat \<times> registry" where
  "reg_stop key src r =
     (case reg_remove key src r of Inl e \<Rightarrow> Inl e | Inr (i, r') \<Rightarrow> Inr (i, reg_cancel i r'))"

text \<open>\<open>close\<close> cancels every entry of the map, which keeps them, and refuses new ones.\<close>

definition reg_close :: "registry \<Rightarrow> registry" where
  "reg_close r =
     r\<lparr>reg_closed := True,
       reg_cancelled := (\<lambda>i. reg_cancelled r i \<or>
         (case reg_heap r i of None \<Rightarrow> False | Some m \<Rightarrow> reg_entries r (me_key m) = Some i))\<rparr>"

definition reg_isMonitored :: "string \<Rightarrow> registry \<Rightarrow> bool" where
  "reg_isMonitored key r \<longleftrightarrow> reg_entries r key \<noteq> None"

definition reg_sourceOf :: "string \<Rightarrow> registry \<Rightarrow> source option" where
  "reg_sourceOf key r =
     (case reg_entries r key of None \<Rightarrow> None | Some i \<Rightarrow> map_option me_source (reg_heap r i))"

text \<open>The package functions: the registry is nil until monitoring starts.\<close>

definition StartEndpoint :: "endpoint \<Rightarrow> source \<Rightarrow> registry option \<Rightarrow> registry_error + registry" where
  "StartEndpoint ep src endpoints =
     (case endpoints of None \<Rightarrow> Inl ErrMonitoringStopped | Some r \<Rightarrow> reg_start ep src r)"

definition StartExternalEndpoint ::
    "external_endpoint \<Rightarrow> source \<Rightarrow> registry option \<Rightarrow> registry_error + registry" where
  "StartExternalEndpoint ee src endpoints =
     (case endpoints of None \<Rightarrow> Inl ErrMonitoringStopped | Some r \<Rightarrow> reg_startExternal ee src r)"

definition StopEndpoint :: "string \<Rightarrow> source \<Rightarrow> registry option \<Rightarrow> registry_error + nat \<times> registry" where
  "StopEndpoint key src endpoints =
     (case endpoints of None \<Rightarrow> Inl ErrMonitoringStopped | Some r \<Rightarrow> reg_stop key src r)"

text \<open>\<open>RestartEndpoint\<close> when nothing else runs between the two calls: the error, if any, and the registry.\<close>

definition RestartEndpoint :: "endpoint \<Rightarrow> source \<Rightarrow> registry option \<Rightarrow> registry_error option \<times> registry option" where
  "RestartEndpoint ep src endpoints =
     (case StopEndpoint (ep_Key ep) src endpoints of
        Inl e \<Rightarrow> (Some e, endpoints)
      | Inr (i, r) \<Rightarrow>
          (case StartEndpoint ep src (Some r) of
             Inl e \<Rightarrow> (Some e, Some r)
           | Inr r' \<Rightarrow> (None, Some r')))"

definition IsEndpointMonitored :: "string \<Rightarrow> registry option \<Rightarrow> bool" where
  "IsEndpointMonitored key endpoints =
     (case endpoints of None \<Rightarrow> False | Some r \<Rightarrow> reg_isMonitored key r)"

text \<open>
  \<open>alertingConfigFor\<close> (\<^verbatim>\<open>alerting_source.go\<close>): the providers of an endpoint managed through the
  administration, when set, and those of the configuration file otherwise.
\<close>

definition alertingConfigFor ::
    "string \<Rightarrow> registry option \<Rightarrow> alerting_config option \<Rightarrow> alerting_config option \<Rightarrow> alerting_config option" where
  "alertingConfigFor key endpoints managedAlerting cfgAlerting =
     (case endpoints of
        None \<Rightarrow> cfgAlerting
      | Some r \<Rightarrow>
          (if reg_sourceOf key r = Some SourceAdmin
           then (case managedAlerting of None \<Rightarrow> cfgAlerting | Some m \<Rightarrow> Some m)
           else cfgAlerting))"

subsection \<open>Interleaving\<close>

text \<open>
  The steps of the concurrent system. \<open>sys_lock\<close> is the lock of the results of a key
  (\<open>lockEndpointResults\<close>), held by the goroutine or the submission that processes a result of the entry
  it names. \<open>sys_stopping\<close> are the entries that a \<open>stop\<close> has taken from the map and not cancelled yet. \<open>sys_waiting\<close> are the heartbeats that found their context alive, before the lock is
  taken, as \<open>executeExternalEndpointHeartbeat\<close> does. \<open>sys_stopped\<close> are the entries whose \<open>stop\<close> has
  cancelled their context, \<open>sys_timed_out\<close> those for which \<open>waitForExecution\<close> gave up, and \<open>sys_returned\<close> those whose
  \<open>stop\<close> has returned; \<open>sys_recorded\<close> lists the entries for which a result was recorded, in order.
\<close>

record system =
  sys_reg :: registry
  sys_lock :: "string \<Rightarrow> nat option"
  sys_stopping :: "nat list"
  sys_waiting :: "nat list"
  sys_stopped :: "nat list"
  sys_timed_out :: "nat list"
  sys_returned :: "nat list"
  sys_recorded :: "nat list"

definition init_system :: system where
  "init_system =
     \<lparr>sys_reg = newEndpointRegistry, sys_lock = (\<lambda>_. None), sys_stopping = [], sys_waiting = [], sys_stopped = [],
      sys_timed_out = [], sys_returned = [], sys_recorded = []\<rparr>"

definition entry_key :: "system \<Rightarrow> nat \<Rightarrow> string option" where
  "entry_key s i = map_option me_key (reg_heap (sys_reg s) i)"

definition is_external :: "system \<Rightarrow> nat \<Rightarrow> bool" where
  "is_external s i =
     (case reg_heap (sys_reg s) i of
        None \<Rightarrow> False
      | Some m \<Rightarrow> (case me_object m of MonitoredEndpoint _ \<Rightarrow> False | MonitoredExternal _ \<Rightarrow> True))"

text \<open>
  \<open>acquire\<close>: a check (\<open>executeEndpoint\<close>) or a submission (\<open>SubmitEndpointResult\<close>) for the entry \<open>i\<close>,
  looked up earlier, takes the lock of the key and then finds the context of the entry alive; with a
  cancelled context it gives up and nothing changes. \<open>beat_check\<close> and \<open>beat_acquire\<close> are the two
  halves of a heartbeat. \<open>record_result\<close>: the result is processed and the lock released.
  \<open>stop_begin\<close> and \<open>stop_cancel\<close> are the two halves of \<open>stop\<close> before the waiting. \<open>stop_return\<close>: \<open>stop\<close> returns after the goroutine has returned, and so waits for no lock, or
  after the timeout, and after having taken and released the lock.
\<close>

inductive reg_step :: "system \<Rightarrow> system \<Rightarrow> bool" where
  start: "reg_start ep src (sys_reg s) = Inr r \<Longrightarrow> reg_step s (s\<lparr>sys_reg := r\<rparr>)"
| start_external: "reg_startExternal ee src (sys_reg s) = Inr r \<Longrightarrow> reg_step s (s\<lparr>sys_reg := r\<rparr>)"
| stop_begin: "reg_remove key src (sys_reg s) = Inr (i, r) \<Longrightarrow>
     reg_step s (s\<lparr>sys_reg := r, sys_stopping := i # sys_stopping s\<rparr>)"
| stop_cancel: "i \<in> set (sys_stopping s) \<Longrightarrow>
     reg_step s (s\<lparr>sys_reg := reg_cancel i (sys_reg s), sys_stopping := removeAll i (sys_stopping s),
                   sys_stopped := i # sys_stopped s\<rparr>)"
| stop_timeout: "i \<in> set (sys_stopped s) \<Longrightarrow> reg_step s (s\<lparr>sys_timed_out := i # sys_timed_out s\<rparr>)"
| stop_return: "i \<in> set (sys_stopped s) \<Longrightarrow> i \<notin> set (sys_waiting s) \<or> i \<in> set (sys_timed_out s) \<Longrightarrow>
     entry_key s i = Some key \<Longrightarrow> sys_lock s key = None \<Longrightarrow>
     reg_step s (s\<lparr>sys_returned := i # sys_returned s\<rparr>)"
| acquire: "entry_key s i = Some key \<Longrightarrow> sys_lock s key = None \<Longrightarrow> \<not> reg_cancelled (sys_reg s) i \<Longrightarrow>
     reg_step s (s\<lparr>sys_lock := (sys_lock s)(key \<mapsto> i)\<rparr>)"
| beat_check: "is_external s i \<Longrightarrow> i \<notin> set (sys_waiting s) \<Longrightarrow> \<not> reg_cancelled (sys_reg s) i \<Longrightarrow>
     reg_step s (s\<lparr>sys_waiting := i # sys_waiting s\<rparr>)"
| beat_acquire: "i \<in> set (sys_waiting s) \<Longrightarrow> entry_key s i = Some key \<Longrightarrow> sys_lock s key = None \<Longrightarrow>
     reg_step s (s\<lparr>sys_lock := (sys_lock s)(key \<mapsto> i), sys_waiting := removeAll i (sys_waiting s)\<rparr>)"
| record_result: "sys_lock s key = Some i \<Longrightarrow>
     reg_step s (s\<lparr>sys_lock := (sys_lock s)(key := None), sys_recorded := sys_recorded s @ [i]\<rparr>)"
| close: "reg_step s (s\<lparr>sys_reg := reg_close (sys_reg s)\<rparr>)"

inductive reg_steps :: "system \<Rightarrow> system \<Rightarrow> bool" where
  refl: "reg_steps s s"
| step: "reg_steps s t \<Longrightarrow> reg_step t u \<Longrightarrow> reg_steps s u"

inductive_cases reg_stepE: "reg_step s t"

text \<open>
  The invariant, but for the entries \<open>L\<close> that a \<open>stop\<close> has taken from the map and not cancelled yet: the map points to the
  entry of its key and to none of \<open>L\<close>; any other entry of the heap that is not cancelled is the one its key points to.
  In the system, the holder of a lock is an entry of that key; a stopped entry is cancelled and, once its \<open>stop\<close> has
  returned, holds no lock.
\<close>

definition reg_inv_but :: "nat set \<Rightarrow> registry \<Rightarrow> bool" where
  "reg_inv_but L r \<longleftrightarrow>
     (\<forall>key i. reg_entries r key = Some i \<longrightarrow> (\<exists>m. reg_heap r i = Some m \<and> me_key m = key) \<and> i \<notin> L) \<and>
     (\<forall>i m. reg_heap r i = Some m \<longrightarrow> i < reg_next r \<and>
        (\<not> reg_cancelled r i \<longrightarrow> i \<notin> L \<longrightarrow> reg_entries r (me_key m) = Some i)) \<and>
     (\<forall>i. reg_cancelled r i \<or> i \<in> L \<longrightarrow> i < reg_next r) \<and>
     (reg_closed r \<longrightarrow> (\<forall>i m. reg_heap r i = Some m \<longrightarrow> reg_cancelled r i \<or> i \<in> L))"

abbreviation reg_inv :: "registry \<Rightarrow> bool" where
  "reg_inv \<equiv> reg_inv_but {}"

text \<open>An entry that is cancelled, holds no lock and is not in the middle of a heartbeat.\<close>

definition silent :: "system \<Rightarrow> nat \<Rightarrow> bool" where
  "silent s i \<longleftrightarrow>
     reg_cancelled (sys_reg s) i \<and> i \<notin> set (sys_waiting s) \<and> (\<forall>key. sys_lock s key \<noteq> Some i)"

definition sys_inv :: "system \<Rightarrow> bool" where
  "sys_inv s \<longleftrightarrow>
     reg_inv_but (set (sys_stopping s)) (sys_reg s) \<and> distinct (sys_waiting s) \<and>
     (\<forall>key i. sys_lock s key = Some i \<longrightarrow> entry_key s i = Some key) \<and>
     (\<forall>i \<in> set (sys_waiting s). is_external s i) \<and>
     (\<forall>i \<in> set (sys_stopped s). reg_cancelled (sys_reg s) i) \<and>
     (\<forall>i \<in> set (sys_returned s). is_external s i \<and> i \<in> set (sys_timed_out s) \<or> silent s i)"

lemma reg_inv_new: "reg_inv newEndpointRegistry"
  by (simp add: reg_inv_but_def newEndpointRegistry_def)

lemma reg_inv_entry: "reg_inv_but L r \<Longrightarrow> reg_entries r key = Some i \<Longrightarrow> \<exists>m. reg_heap r i = Some m \<and> me_key m = key"
  unfolding reg_inv_but_def by blast

lemma reg_inv_entry_out: "reg_inv_but L r \<Longrightarrow> reg_entries r key = Some i \<Longrightarrow> i \<notin> L"
  unfolding reg_inv_but_def by blast

lemma reg_inv_live:
  "reg_inv_but L r \<Longrightarrow> reg_heap r i = Some m \<Longrightarrow> \<not> reg_cancelled r i \<Longrightarrow> i \<notin> L \<Longrightarrow> reg_entries r (me_key m) = Some i"
  unfolding reg_inv_but_def by blast

lemma reg_inv_fresh: "reg_inv_but L r \<Longrightarrow> reg_heap r i = Some m \<Longrightarrow> i < reg_next r"
  "reg_inv_but L r \<Longrightarrow> reg_cancelled r i \<Longrightarrow> i < reg_next r"
  "reg_inv_but L r \<Longrightarrow> i \<in> L \<Longrightarrow> i < reg_next r"
  unfolding reg_inv_but_def by blast+

lemma reg_inv_closed: "reg_inv_but L r \<Longrightarrow> reg_closed r \<Longrightarrow> reg_heap r i = Some m \<Longrightarrow> reg_cancelled r i \<or> i \<in> L"
  unfolding reg_inv_but_def by blast

lemma reg_invI:
  assumes "\<And>key i. reg_entries r key = Some i \<Longrightarrow> (\<exists>m. reg_heap r i = Some m \<and> me_key m = key) \<and> i \<notin> L"
    and "\<And>i m. reg_heap r i = Some m \<Longrightarrow> \<not> reg_cancelled r i \<Longrightarrow> i \<notin> L \<Longrightarrow> reg_entries r (me_key m) = Some i"
    and "\<And>i m. reg_heap r i = Some m \<Longrightarrow> i < reg_next r"
    and "\<And>i. reg_cancelled r i \<or> i \<in> L \<Longrightarrow> i < reg_next r"
    and "\<And>i m. reg_closed r \<Longrightarrow> reg_heap r i = Some m \<Longrightarrow> reg_cancelled r i \<or> i \<in> L"
  shows "reg_inv_but L r"
  unfolding reg_inv_but_def using assms by blast

lemma reg_next_unused:
  assumes "reg_inv_but L r"
  shows "reg_heap r (reg_next r) = None" and "\<not> reg_cancelled r (reg_next r)"
    and "reg_entries r key \<noteq> Some (reg_next r)" and "reg_next r \<notin> L"
proof -
  show none: "reg_heap r (reg_next r) = None"
    using reg_inv_fresh(1) [OF assms, of "reg_next r"] by (cases "reg_heap r (reg_next r)") auto
  show "\<not> reg_cancelled r (reg_next r)" "reg_next r \<notin> L"
    using reg_inv_fresh(2,3) [OF assms, of "reg_next r"] by auto
  show "reg_entries r key \<noteq> Some (reg_next r)"
    using reg_inv_entry [OF assms, of key "reg_next r"] none by auto
qed

lemma reg_add_inv:
  assumes inv: "reg_inv_but L r" and closed: "\<not> reg_closed r" and free: "reg_entries r (me_key m) = None"
  shows "reg_inv_but L (reg_add m r)"
proof (rule reg_invI)
  note fresh = reg_next_unused [OF inv]
  show "(\<exists>m'. reg_heap (reg_add m r) i = Some m' \<and> me_key m' = key) \<and> i \<notin> L"
    if "reg_entries (reg_add m r) key = Some i" for key i
    using that fresh reg_inv_entry [OF inv, of key i] reg_inv_entry_out [OF inv, of key i] by (auto simp: reg_add_def split: if_splits)
  show "reg_entries (reg_add m r) (me_key m') = Some i"
    if "reg_heap (reg_add m r) i = Some m'" and "\<not> reg_cancelled (reg_add m r) i" and "i \<notin> L" for i m'
    using that free reg_inv_live [OF inv, of i m'] by (auto simp: reg_add_def split: if_splits)
  show "i < reg_next (reg_add m r)" if "reg_heap (reg_add m r) i = Some m'" for i m'
    using that reg_inv_fresh(1) [OF inv, of i m'] by (auto simp: reg_add_def split: if_splits)
  show "i < reg_next (reg_add m r)" if "reg_cancelled (reg_add m r) i \<or> i \<in> L" for i
    using that reg_inv_fresh(2,3) [OF inv, of i] by (auto simp: reg_add_def)
  show "reg_cancelled (reg_add m r) i \<or> i \<in> L" if "reg_closed (reg_add m r)" for i
    using that closed by (simp add: reg_add_def)
qed

lemma reg_start_inv: "reg_inv_but L r \<Longrightarrow> reg_start ep src r = Inr r' \<Longrightarrow> reg_inv_but L r'"
  using reg_add_inv [of L r "\<lparr>me_object = MonitoredEndpoint ep, me_source = src\<rparr>"]
  by (auto simp: reg_start_def me_key_def split: if_splits)

lemma reg_startExternal_inv: "reg_inv_but L r \<Longrightarrow> reg_startExternal ee src r = Inr r' \<Longrightarrow> reg_inv_but L r'"
  using reg_add_inv [of L r "\<lparr>me_object = MonitoredExternal ee, me_source = src\<rparr>"]
  by (auto simp: reg_startExternal_def me_key_def split: if_splits)

lemma reg_remove_cases:
  assumes "reg_remove key src r = Inr (i, r')"
  shows "reg_entries r key = Some i" and "r' = r\<lparr>reg_entries := (reg_entries r)(key := None)\<rparr>"
  using assms by (auto simp: reg_remove_def split: option.splits if_splits)

text \<open>\<open>reg_stop\<close> without its halves.\<close>

lemma reg_stop_alt:
  "reg_stop key src r =
     (case reg_entries r key of
        None \<Rightarrow> Inl ErrEndpointNotMonitored
      | Some i \<Rightarrow>
          (if map_option me_source (reg_heap r i) \<noteq> Some src then Inl ErrEndpointNotMonitored
           else Inr (i, r\<lparr>reg_entries := (reg_entries r)(key := None),
                          reg_cancelled := (reg_cancelled r)(i := True)\<rparr>)))"
  by (auto simp: reg_stop_def reg_remove_def reg_cancel_def split: option.split)

lemma reg_stop_cases:
  assumes "reg_stop key src r = Inr (i, r')"
  shows "reg_entries r key = Some i"
    and "r' = r\<lparr>reg_entries := (reg_entries r)(key := None), reg_cancelled := (reg_cancelled r)(i := True)\<rparr>"
  using assms by (auto simp: reg_stop_alt split: option.splits if_splits)

lemma reg_remove_inv:
  assumes inv: "reg_inv_but L r" and remove: "reg_remove key src r = Inr (i, r')"
  shows "reg_inv_but (insert i L) r'"
proof (rule reg_invI)
  note r' = reg_remove_cases [OF remove]
  obtain m where m: "reg_heap r i = Some m" "me_key m = key"
    using reg_inv_entry [OF inv r'(1)] by blast
  show "(\<exists>m. reg_heap r' j = Some m \<and> me_key m = k) \<and> j \<notin> insert i L" if "reg_entries r' k = Some j" for k j
    using that m reg_inv_entry [OF inv, of k j] reg_inv_entry_out [OF inv, of k j] by (auto simp: r'(2) split: if_splits)
  show "reg_entries r' (me_key m') = Some j"
    if "reg_heap r' j = Some m'" and "\<not> reg_cancelled r' j" and "j \<notin> insert i L" for j m'
    using that reg_inv_live [OF inv, of j m'] r'(1) by (auto simp: r'(2) split: if_splits)
  show "j < reg_next r'" if "reg_heap r' j = Some m'" for j m'
    using that reg_inv_fresh(1) [OF inv, of j m'] by (simp add: r'(2))
  show "j < reg_next r'" if "reg_cancelled r' j \<or> j \<in> insert i L" for j
    using that reg_inv_fresh(2,3) [OF inv, of j] reg_inv_fresh(1) [OF inv m(1)]
    by (auto simp: r'(2) split: if_splits)
  show "reg_cancelled r' j \<or> j \<in> insert i L" if "reg_closed r'" and "reg_heap r' j = Some m'" for j m'
    using that reg_inv_closed [OF inv, of j m'] by (auto simp: r'(2))
qed

lemma reg_cancel_inv:
  assumes inv: "reg_inv_but L r" and i: "i \<in> L"
  shows "reg_inv_but (L - {i}) (reg_cancel i r)"
proof (rule reg_invI)
  show "(\<exists>m. reg_heap (reg_cancel i r) j = Some m \<and> me_key m = k) \<and> j \<notin> L - {i}"
    if "reg_entries (reg_cancel i r) k = Some j" for k j
    using that reg_inv_entry [OF inv, of k j] reg_inv_entry_out [OF inv, of k j] by (simp add: reg_cancel_def)
  show "reg_entries (reg_cancel i r) (me_key m) = Some j"
    if "reg_heap (reg_cancel i r) j = Some m" and "\<not> reg_cancelled (reg_cancel i r) j" and "j \<notin> L - {i}" for j m
    using that reg_inv_live [OF inv, of j m] by (auto simp: reg_cancel_def split: if_splits)
  show "j < reg_next (reg_cancel i r)" if "reg_heap (reg_cancel i r) j = Some m" for j m
    using that reg_inv_fresh(1) [OF inv, of j m] by (simp add: reg_cancel_def)
  show "j < reg_next (reg_cancel i r)" if "reg_cancelled (reg_cancel i r) j \<or> j \<in> L - {i}" for j
    using that reg_inv_fresh(2,3) [OF inv, of j] i by (auto simp: reg_cancel_def split: if_splits)
  show "reg_cancelled (reg_cancel i r) j \<or> j \<in> L - {i}"
    if "reg_closed (reg_cancel i r)" and "reg_heap (reg_cancel i r) j = Some m" for j m
    using that reg_inv_closed [OF inv, of j m] by (auto simp: reg_cancel_def)
qed

lemma reg_stop_inv:
  assumes inv: "reg_inv_but L r" and stop: "reg_stop key src r = Inr (i, r')"
  shows "reg_inv_but L r'"
proof -
  obtain r1 where r1: "reg_remove key src r = Inr (i, r1)" "r' = reg_cancel i r1"
    using stop by (auto simp: reg_stop_def split: sum.splits)
  have "i \<notin> L" using reg_inv_entry_out [OF inv reg_remove_cases(1) [OF r1(1)]] .
  then show ?thesis using reg_cancel_inv [OF reg_remove_inv [OF inv r1(1)], of i] r1(2) by simp
qed

lemma reg_close_inv:
  assumes inv: "reg_inv_but L r"
  shows "reg_inv_but L (reg_close r)"
proof (rule reg_invI)
  show "(\<exists>m. reg_heap (reg_close r) i = Some m \<and> me_key m = key) \<and> i \<notin> L"
    if "reg_entries (reg_close r) key = Some i" for key i
    using that reg_inv_entry [OF inv, of key i] reg_inv_entry_out [OF inv, of key i] by (simp add: reg_close_def)
  show "reg_entries (reg_close r) (me_key m) = Some i"
    if "reg_heap (reg_close r) i = Some m" and "\<not> reg_cancelled (reg_close r) i" and "i \<notin> L" for i m
    using that reg_inv_live [OF inv, of i m] by (simp add: reg_close_def)
  show "i < reg_next (reg_close r)" if "reg_heap (reg_close r) i = Some m" for i m
    using that reg_inv_fresh(1) [OF inv, of i m] by (simp add: reg_close_def)
  show "i < reg_next (reg_close r)" if "reg_cancelled (reg_close r) i \<or> i \<in> L" for i
    using that reg_inv_fresh [OF inv, of i] by (auto simp: reg_close_def split: option.splits)
  show "reg_cancelled (reg_close r) i \<or> i \<in> L" if "reg_heap (reg_close r) i = Some m" for i m
    using that reg_inv_live [OF inv, of i m] by (auto simp: reg_close_def)
qed

lemma reg_steps_trans: "reg_steps t u \<Longrightarrow> reg_steps s t \<Longrightarrow> reg_steps s u"
  by (induction rule: reg_steps.induct) (blast intro: reg_steps.intros)+

subsection \<open>What the steps keep\<close>

text \<open>The heap of entries only grows and a cancelled context stays cancelled.\<close>

definition reg_extends :: "registry \<Rightarrow> registry \<Rightarrow> bool" where
  "reg_extends r r' \<longleftrightarrow>
     (\<forall>i m. reg_heap r i = Some m \<longrightarrow> reg_heap r' i = Some m) \<and>
     (\<forall>i. reg_cancelled r i \<longrightarrow> reg_cancelled r' i)"

lemma reg_extends_refl [simp]: "reg_extends r r"
  by (simp add: reg_extends_def)

lemma reg_extends_add: "reg_inv_but L r \<Longrightarrow> reg_extends r (reg_add m r)"
  using reg_next_unused(1) [of L r] by (auto simp: reg_extends_def reg_add_def)

lemma reg_extends_start: "reg_inv_but L r \<Longrightarrow> reg_start ep src r = Inr r' \<Longrightarrow> reg_extends r r'"
  by (auto simp: reg_start_def reg_extends_add split: if_splits)

lemma reg_extends_startExternal: "reg_inv_but L r \<Longrightarrow> reg_startExternal ee src r = Inr r' \<Longrightarrow> reg_extends r r'"
  by (auto simp: reg_startExternal_def reg_extends_add split: if_splits)

lemma reg_extends_remove: "reg_remove key src r = Inr (i, r') \<Longrightarrow> reg_extends r r'"
  by (drule reg_remove_cases(2)) (simp add: reg_extends_def)

lemma reg_extends_cancel: "reg_extends r (reg_cancel i r)"
  by (simp add: reg_extends_def reg_cancel_def)

lemma reg_extends_close: "reg_extends r (reg_close r)"
  by (simp add: reg_extends_def reg_close_def)

lemma reg_step_reg:
  assumes "reg_step s t" and "reg_inv_but (set (sys_stopping s)) (sys_reg s)"
  shows "reg_inv_but (set (sys_stopping t)) (sys_reg t) \<and> reg_extends (sys_reg s) (sys_reg t)"
  using assms
proof (cases rule: reg_step.cases)
  case (stop_begin key src i r)
  then show ?thesis using reg_remove_inv [OF assms(2)] reg_extends_remove by simp
next
  case (stop_cancel i)
  then show ?thesis using reg_cancel_inv [OF assms(2)] reg_extends_cancel by simp
qed (auto intro: reg_start_inv reg_startExternal_inv reg_close_inv reg_extends_start reg_extends_startExternal reg_extends_close)

lemma reg_extendsD:
  assumes "reg_extends (sys_reg s) (sys_reg t)"
  shows "entry_key s i = Some key \<Longrightarrow> entry_key t i = Some key"
    and "is_external s i \<Longrightarrow> is_external t i"
    and "reg_cancelled (sys_reg s) i \<Longrightarrow> reg_cancelled (sys_reg t) i"
    and "entry_key s i = Some key \<Longrightarrow> is_external t i \<Longrightarrow> is_external s i"
proof -
  have heap: "reg_heap (sys_reg t) i = Some m" if "reg_heap (sys_reg s) i = Some m" for m
    using assms that unfolding reg_extends_def by blast
  show "entry_key s i = Some key \<Longrightarrow> entry_key t i = Some key"
    using heap by (auto simp: entry_key_def)
  show "is_external s i \<Longrightarrow> is_external t i"
    using heap by (cases "reg_heap (sys_reg s) i") (auto simp: is_external_def)
  show "reg_cancelled (sys_reg s) i \<Longrightarrow> reg_cancelled (sys_reg t) i"
    using assms unfolding reg_extends_def by blast
  show "entry_key s i = Some key \<Longrightarrow> is_external t i \<Longrightarrow> is_external s i"
    using heap by (cases "reg_heap (sys_reg s) i") (auto simp: is_external_def entry_key_def)
qed

text \<open>A silent entry stays silent, and no step records a result of it.\<close>

lemma silent_step:
  assumes "reg_step s t" and "reg_inv_but (set (sys_stopping s)) (sys_reg s)" and "silent s i"
  shows "silent t i \<and> filter ((=) i) (sys_recorded t) = filter ((=) i) (sys_recorded s)"
proof -
  have cancelled: "reg_cancelled (sys_reg t) i"
    using reg_extendsD(3) [of s t i] reg_step_reg [OF assms(1,2)] assms(3) by (simp add: silent_def)
  show ?thesis
    using assms(1) assms(3) cancelled by (cases rule: reg_step.cases) (auto simp: silent_def)
qed

lemma sys_inv_init: "sys_inv init_system"
  by (simp add: sys_inv_def init_system_def reg_inv_new)

lemma sys_inv_reg: "sys_inv s \<Longrightarrow> reg_inv_but (set (sys_stopping s)) (sys_reg s)"
  by (simp add: sys_inv_def)

lemma sys_inv_step:
  assumes st: "reg_step s t" and inv: "sys_inv s"
  shows "sys_inv t"
proof -
  have reg: "reg_inv_but (set (sys_stopping t)) (sys_reg t)" and ext: "reg_extends (sys_reg s) (sys_reg t)"
    using reg_step_reg [OF st sys_inv_reg [OF inv]] by auto
  note keep = reg_extendsD [OF ext]
  have lock: "entry_key t i = Some key" if "sys_lock t key = Some i" for key i
  proof (rule keep(1))
    show "entry_key s i = Some key"
      using st that inv by (cases rule: reg_step.cases) (auto simp: sys_inv_def split: if_splits)
  qed
  have waiting: "is_external t i" if "i \<in> set (sys_waiting t)" for i
  proof (rule keep(2))
    show "is_external s i"
      using st that inv by (cases rule: reg_step.cases) (auto simp: sys_inv_def)
  qed
  have "reg_cancelled (sys_reg t) i" if "i \<in> set (sys_stopped t)" "i \<notin> set (sys_stopped s)" for i
    using st that by (cases rule: reg_step.cases) (auto simp: reg_cancel_def)
  then have stopped: "reg_cancelled (sys_reg t) i" if "i \<in> set (sys_stopped t)" for i
    using that inv keep(3) [of i] by (cases "i \<in> set (sys_stopped s)") (auto simp: sys_inv_def)
  have returned: "is_external t i \<and> i \<in> set (sys_timed_out t) \<or> silent t i"
    if "i \<in> set (sys_returned t)" for i
  proof (cases "i \<in> set (sys_returned s)")
    case True
    then have "is_external s i \<and> i \<in> set (sys_timed_out s) \<or> silent s i"
      using inv by (simp add: sys_inv_def)
    moreover have "set (sys_timed_out s) \<subseteq> set (sys_timed_out t)"
      using st by (cases rule: reg_step.cases) auto
    ultimately show ?thesis
      using silent_step [OF st sys_inv_reg [OF inv], of i] keep(2) by blast
  next
    case False
    with st that obtain key where new: "i \<in> set (sys_stopped s)"
      "i \<notin> set (sys_waiting s) \<or> i \<in> set (sys_timed_out s)"
      "entry_key s i = Some key" "sys_lock s key = None" "t = s\<lparr>sys_returned := i # sys_returned s\<rparr>"
      by (cases rule: reg_step.cases) auto
    have free: "sys_lock s k \<noteq> Some i" for k
      using inv new(3,4) by (auto simp: sys_inv_def)
    have "reg_cancelled (sys_reg s) i" and "i \<in> set (sys_waiting s) \<Longrightarrow> is_external s i"
      using inv new(1) by (auto simp: sys_inv_def)
    with free new(2,5) show ?thesis by (auto simp: silent_def is_external_def)
  qed
  have once: "distinct (sys_waiting t)"
    using st inv by (cases rule: reg_step.cases) (auto simp: sys_inv_def distinct_removeAll)
  show ?thesis
    unfolding sys_inv_def using reg lock waiting stopped returned once by blast
qed

lemma sys_inv_steps: "reg_steps s t \<Longrightarrow> sys_inv s \<Longrightarrow> sys_inv t"
  by (induction rule: reg_steps.induct) (auto intro: sys_inv_step)

lemma silent_steps:
  assumes "reg_steps s t" and "sys_inv s" and "silent s i"
  shows "silent t i \<and> filter ((=) i) (sys_recorded t) = filter ((=) i) (sys_recorded s)"
  using assms
proof (induction rule: reg_steps.induct)
  case (step s t u)
  then show ?case
    using silent_step [OF step.hyps(2), of i] sys_inv_reg [OF sys_inv_steps [OF step.hyps(1)]] by auto
qed simp

lemma returned_silent:
  assumes "sys_inv s" and "i \<in> set (sys_returned s)" and "\<not> is_external s i \<or> i \<notin> set (sys_timed_out s)"
  shows "silent s i"
  using assms by (auto simp: sys_inv_def)

text \<open>What an entry may still record: the result in progress under the lock of its key and the heartbeat that waits for it.\<close>

definition in_flight :: "string \<Rightarrow> nat \<Rightarrow> system \<Rightarrow> nat" where
  "in_flight key i s = (if sys_lock s key = Some i then 1 else 0) + (if i \<in> set (sys_waiting s) then 1 else 0)"

definition in_progress :: "string \<Rightarrow> nat \<Rightarrow> system \<Rightarrow> nat" where
  "in_progress key i s = in_flight key i s + count_list (sys_recorded s) i"

text \<open>A cancelled entry finishes what is in progress and begins nothing.\<close>

lemma cancelled_step:
  assumes st: "reg_step s t" and inv: "sys_inv s" and i: "reg_cancelled (sys_reg s) i" "entry_key s i = Some key"
  shows "in_flight key i t \<le> in_flight key i s \<and> in_progress key i t \<le> in_progress key i s"
proof -
  have only: "k = key" if "sys_lock s k = Some i" for k using inv that i(2) by (simp add: sys_inv_def)
  from st show ?thesis
  proof (cases rule: reg_step.cases)
    case (record_result k j)
    have lock: "sys_lock t = (sys_lock s)(k := None)" and rest: "sys_waiting t = sys_waiting s" "sys_recorded t = sys_recorded s @ [j]"
      using record_result(1) by simp_all
    show ?thesis
    proof (cases "j = i")
      case True
      then have "k = key" using only [of k] record_result(2) by simp
      then show ?thesis using True record_result(2) by (simp add: in_progress_def in_flight_def lock rest)
    next
      case False
      then show ?thesis by (simp add: in_progress_def in_flight_def lock rest)
    qed
  next
    case (beat_acquire j k)
    have lock: "sys_lock t = (sys_lock s)(k \<mapsto> j)" and wait: "set (sys_waiting t) = set (sys_waiting s) - {j}"
      and rec: "sys_recorded t = sys_recorded s"
      using beat_acquire(1) by simp_all
    show ?thesis
    proof (cases "j = i")
      case True
      then have "k = key" using beat_acquire(3) i(2) by simp
      then show ?thesis using True beat_acquire(2,4) by (simp add: in_progress_def in_flight_def lock wait rec)
    next
      case False
      then show ?thesis by (simp add: in_progress_def in_flight_def lock wait rec)
    qed
  next
    case (acquire j k)
    then have "j \<noteq> i" using i(1) by auto
    then show ?thesis using acquire(1) by (simp add: in_progress_def in_flight_def)
  next
    case (beat_check j)
    then have "j \<noteq> i" using i(1) by auto
    then show ?thesis using beat_check(1) by (simp add: in_progress_def in_flight_def)
  qed (simp_all add: in_progress_def in_flight_def)
qed

lemma cancelled_steps:
  assumes "reg_steps s t" and "sys_inv s" and "reg_cancelled (sys_reg s) i" "entry_key s i = Some key"
  shows "in_progress key i t \<le> in_progress key i s \<and> reg_cancelled (sys_reg t) i \<and> entry_key t i = Some key"
  using assms
proof (induction rule: reg_steps.induct)
  case (step s t u)
  note inv = sys_inv_steps [OF step.hyps(1) step.prems(1)]
  have "reg_extends (sys_reg t) (sys_reg u)" using reg_step_reg [OF step.hyps(2) sys_inv_reg [OF inv]] by blast
  then show ?case
    using cancelled_step [OF step.hyps(2) inv] step.IH [OF step.prems] reg_extendsD(1,3) [of t u i] by fastforce
qed simp

text \<open>An entry whose \<open>stop\<close> has returned has at most one result in flight, and only if the wait timed out.\<close>

lemma returned_in_flight:
  assumes "reg_steps init_system s" and "i \<in> set (sys_returned s)"
  shows "\<exists>key. entry_key s i = Some key \<and> reg_cancelled (sys_reg s) i \<and> in_flight key i s \<le> 1"
  using assms
proof (induction init_system s rule: reg_steps.induct)
  case (step s t)
  note inv = sys_inv_steps [OF step.hyps(1) sys_inv_init]
  have ext: "reg_extends (sys_reg s) (sys_reg t)" using reg_step_reg [OF step.hyps(3) sys_inv_reg [OF inv]] by blast
  show ?case
  proof (cases "i \<in> set (sys_returned s)")
    case True
    with step.hyps(2) obtain key where "entry_key s i = Some key" "reg_cancelled (sys_reg s) i" "in_flight key i s \<le> 1" by blast
    then show ?thesis
      using cancelled_step [OF step.hyps(3) inv] reg_extendsD(1,3) [OF ext] by (meson order_trans)
  next
    case False
    with step.hyps(3) step.prems obtain key where new: "i \<in> set (sys_stopped s)" "entry_key s i = Some key"
      "sys_lock s key = None" "t = s\<lparr>sys_returned := i # sys_returned s\<rparr>"
      by (cases rule: reg_step.cases) auto
    have "reg_cancelled (sys_reg s) i" using inv new(1) by (simp add: sys_inv_def)
    then show ?thesis using new(2-4) by (intro exI [of _ key]) (simp add: in_flight_def entry_key_def)
  qed
qed (simp add: init_system_def)

lemma returned_quiet:
  assumes "sys_inv s" and "i \<in> set (sys_returned s)" and "\<not> (is_external s i \<and> i \<in> set (sys_timed_out s))"
  shows "in_flight key i s = 0"
  using returned_silent [OF assms(1,2)] assms(3) by (auto simp: silent_def in_flight_def)

text \<open>Of two live entries with the same key, at least one is being stopped.\<close>

lemma live_entries_distinct:
  assumes "sys_inv s"
    and "entry_key s i = Some key" and "\<not> reg_cancelled (sys_reg s) i" and "i \<notin> set (sys_stopping s)"
    and "entry_key s j = Some key" and "\<not> reg_cancelled (sys_reg s) j" and "j \<notin> set (sys_stopping s)"
  shows "i = j"
proof -
  have "reg_entries (sys_reg s) key = Some k"
    if "entry_key s k = Some key" "\<not> reg_cancelled (sys_reg s) k" "k \<notin> set (sys_stopping s)" for k
    using that reg_inv_live [OF sys_inv_reg [OF assms(1)], of k] by (auto simp: entry_key_def)
  with assms(2-) show ?thesis by (metis option.inject)
qed

lemma closed_start: "reg_closed r \<Longrightarrow> reg_start ep src r = Inl ErrMonitoringStopped"
  "reg_closed r \<Longrightarrow> reg_startExternal ee src r = Inl ErrMonitoringStopped"
  by (simp_all add: reg_start_def reg_startExternal_def)

lemma closed_stays: "reg_step s t \<Longrightarrow> reg_closed (sys_reg s) \<Longrightarrow> reg_closed (sys_reg t)"
  by (cases rule: reg_step.cases) (auto simp: closed_start reg_close_def reg_cancel_def dest!: reg_remove_cases(2))

lemma closed_stays_steps: "reg_steps s t \<Longrightarrow> reg_closed (sys_reg s) \<Longrightarrow> reg_closed (sys_reg t)"
  by (induction rule: reg_steps.induct) (auto dest: closed_stays)

text \<open>What \<open>RestartEndpoint\<close> leaves: the new object is monitored, under a new context, for the same source.\<close>

lemma RestartEndpoint_replaces:
  assumes inv: "reg_inv_but L r"
    and restart: "RestartEndpoint ep src (Some r) = (None, Some r')"
  obtains i j where "reg_entries r (ep_Key ep) = Some i" and "reg_entries r' (ep_Key ep) = Some j"
    and "i \<noteq> j" and "reg_cancelled r' i" and "\<not> reg_cancelled r' j"
    and "reg_heap r' j = Some \<lparr>me_object = MonitoredEndpoint ep, me_source = src\<rparr>"
    and "\<And>k. k \<noteq> ep_Key ep \<Longrightarrow> reg_entries r' k = reg_entries r k"
proof -
  obtain i r1 where stop: "reg_stop (ep_Key ep) src r = Inr (i, r1)" and start: "reg_start ep src r1 = Inr r'"
    using restart by (auto simp: RestartEndpoint_def StopEndpoint_def StartEndpoint_def split: sum.splits)
  note r1 = reg_stop_cases [OF stop]
  have r': "r' = reg_add \<lparr>me_object = MonitoredEndpoint ep, me_source = src\<rparr> r1"
    using start by (simp add: reg_start_def split: if_splits)
  note fresh = reg_next_unused [OF inv] and fresh1 = reg_next_unused [OF reg_stop_inv [OF inv stop]]
  have "i \<noteq> reg_next r" using r1(1) fresh(3) [of "ep_Key ep"] by auto
  then show ?thesis
    by (intro that [of i "reg_next r1"])
      (use r1(1) fresh fresh1 in \<open>auto simp: r' r1(2) reg_add_def me_key_def\<close>)
qed

text \<open>\<open>AlertingConfigFor\<close> never takes the managed providers for an endpoint of the configuration file.\<close>

lemma alertingConfigFor_config:
  "reg_sourceOf key r = Some SourceConfig \<Longrightarrow> alertingConfigFor key (Some r) managed c = c"
  by (simp add: alertingConfigFor_def)

end
