(* ===== verification/PushMonitor.thy ===== *)
theory PushMonitor
  imports Registry
begin

text \<open>
  The processing of one result (\<^verbatim>\<open>internal/watchdog/push.go\<close>, \<^verbatim>\<open>external_endpoint.go\<close>,
  \<^verbatim>\<open>endpoint.go\<close>): checks, pushes and heartbeats. A result is stored, published to the live updates
  and the metrics, and handled by the alerting, unless a maintenance window is open or the result is
  pending. The heartbeat of an external endpoint turns a silent interval into a failure, and the
  retries of an external endpoint turn failures into pending results.

  Every function runs with the lock of the key held, so that its execution is one step on the
  \<open>monitor_state\<close>: the store, the sync.Maps \<open>lastPushes\<close> and \<open>retriesUsed\<close>, the registry with its
  objects, and logs of what was published, sent to Prometheus and sent by the providers.
\<close>

record 'st monitor_state =
  mo_store :: 'st
  mo_last_pushes :: "string \<Rightarrow> time option"
  mo_retries_used :: "string \<Rightarrow> int option"
  mo_registry :: "registry option"
  mo_published :: "string list"
  mo_metrics :: "(string \<times> result) list"
  mo_notices :: "(string \<times> notification) list"

text \<open>
  The settings: the operation \<open>InsertEndpointResult\<close> of the store, the flag \<open>Metrics\<close>, the global
  maintenance window, the alerting of the file and the managed one, and the local time zone.
\<close>

record 'st monitor_config =
  mc_insert :: "'st \<Rightarrow> endpoint \<Rightarrow> result \<Rightarrow> store_error option \<times> 'st"
  mc_metrics :: bool
  mc_maintenance :: maintenance
  mc_alerting :: "alerting_config option"
  mc_managed_alerting :: "alerting_config option"
  mc_local :: location

subsection \<open>Push state\<close>

definition lastPush :: "time \<Rightarrow> string \<Rightarrow> 'st monitor_state \<Rightarrow> time \<times> 'st monitor_state" where
  "lastPush now key st =
     (case mo_last_pushes st key of
        Some t \<Rightarrow> (t, st)
      | None \<Rightarrow> (now, st\<lparr>mo_last_pushes := (mo_last_pushes st)(key \<mapsto> now)\<rparr>))"

definition ForgetExternalEndpoint :: "string \<Rightarrow> 'st monitor_state \<Rightarrow> 'st monitor_state" where
  "ForgetExternalEndpoint key st =
     st\<lparr>mo_last_pushes := (mo_last_pushes st)(key := None), mo_retries_used := (mo_retries_used st)(key := None)\<rparr>"

definition ForgetExternalEndpointsNotIn :: "string list \<Rightarrow> 'st monitor_state \<Rightarrow> 'st monitor_state" where
  "ForgetExternalEndpointsNotIn keys st =
     st\<lparr>mo_last_pushes := (\<lambda>k. if k \<in> set keys then mo_last_pushes st k else None),
        mo_retries_used := (\<lambda>k. if k \<in> set keys then mo_retries_used st k else None)\<rparr>"

definition applyRetries ::
    "external_endpoint \<Rightarrow> result \<Rightarrow> bool \<Rightarrow> 'st monitor_state \<Rightarrow> result \<times> 'st monitor_state" where
  "applyRetries ee r underMaintenance st =
     (if Pending r then (r, st)
      else
        (let key = ee_Key ee
         in if Success r then (r, st\<lparr>mo_retries_used := (mo_retries_used st)(key := None)\<rparr>)
            else if hb_retries (ee_heartbeat ee) \<le> 0 \<or> underMaintenance then (r, st)
            else
              (let used = (case mo_retries_used st key of Some n \<Rightarrow> n | None \<Rightarrow> 0)
               in if used \<ge> hb_retries (ee_heartbeat ee)
                  then (r, st\<lparr>mo_retries_used := (mo_retries_used st)(key \<mapsto> used)\<rparr>)
                  else
                    (let message = (if Message r = [] \<and> Errors r \<noteq> []
                                    then TruncateResultMessage (str_join (Errors r) ''; '') else Message r)
                     in (r\<lparr>Pending := True, Message := message, Errors := []\<rparr>,
                         st\<lparr>mo_retries_used := (mo_retries_used st)(key \<mapsto> used + 1)\<rparr>)))))"

definition isUnderMaintenanceWindow :: "location \<Rightarrow> time \<Rightarrow> maintenance list \<Rightarrow> bool" where
  "isUnderMaintenanceWindow local now ws = list_ex (IsUnderMaintenance local now) ws"

definition under_maintenance :: "'st monitor_config \<Rightarrow> time \<Rightarrow> maintenance list \<Rightarrow> bool" where
  "under_maintenance mc now ws \<longleftrightarrow>
     IsUnderMaintenance (mc_local mc) now (mc_maintenance mc) \<or> isUnderMaintenanceWindow (mc_local mc) now ws"

definition publish :: "string \<Rightarrow> 'st monitor_state \<Rightarrow> 'st monitor_state" where
  "publish key st = st\<lparr>mo_published := mo_published st @ [key]\<rparr>"

definition publish_metrics :: "'st monitor_config \<Rightarrow> string \<Rightarrow> result \<Rightarrow> 'st monitor_state \<Rightarrow> 'st monitor_state" where
  "publish_metrics mc key r st =
     (if mc_metrics mc then st\<lparr>mo_metrics := mo_metrics st @ [(key, r)]\<rparr> else st)"

text \<open>The call \<open>HandleAlerting(ep, result, alertingConfigFor(ep.Key(), cfg))\<close>.\<close>

definition handle_alerting ::
    "'st watchdog_env \<Rightarrow> 'st monitor_config \<Rightarrow> endpoint \<Rightarrow> result \<Rightarrow> 'st monitor_state \<Rightarrow>
     endpoint \<times> 'st monitor_state" where
  "handle_alerting env mc ep r st =
     (let alerting = alertingConfigFor (ep_Key ep) (mo_registry st) (mc_managed_alerting mc) (mc_alerting mc);
          (ep', s', log) = HandleAlerting env alerting ep r (mo_store st)
      in (ep', st\<lparr>mo_store := s', mo_notices := mo_notices st @ map (Pair (ep_Key ep)) log\<rparr>))"

subsection \<open>Pushes\<close>

text \<open>
  The alerts of the converted endpoint are the alert objects of the external endpoint, so that what the
  handling does to them is kept; its other fields are not, except for the two counters.
\<close>

definition processExternalEndpointResult ::
    "'st watchdog_env \<Rightarrow> 'st monitor_config \<Rightarrow> external_endpoint \<Rightarrow> result \<Rightarrow> bool \<Rightarrow> 'st monitor_state \<Rightarrow>
     store_error option \<times> external_endpoint \<times> 'st monitor_state" where
  "processExternalEndpointResult env mc ee r0 pushed st0 =
     (let key = ee_Key ee;
          underMaintenance = under_maintenance mc (wd_now env) (ee_maintenance_windows ee);
          (r, st) = applyRetries ee r0 underMaintenance st0;
          convertedEndpoint = ToEndpoint ee;
          (err, s) = mc_insert mc (mo_store st) convertedEndpoint r;
          st = st\<lparr>mo_store := s\<rparr>
      in (case err of
            Some e \<Rightarrow> (Some e, ee, st)
          | None \<Rightarrow>
              (let st = publish key st;
                   st = (if pushed then st\<lparr>mo_last_pushes := (mo_last_pushes st)(key \<mapsto> wd_now env)\<rparr> else st);
                   st = publish_metrics mc key r st
               in if underMaintenance \<or> Pending r then (None, ee, st)
                  else
                    (let (ep, st) = handle_alerting env mc convertedEndpoint r st
                     in (None, ee\<lparr>ee_alerts := ep_alerts ep, ee_successes := NumberOfSuccessesInARow ep,
                                 ee_failures := NumberOfFailuresInARow ep\<rparr>, st)))))"

datatype submit_error = RegistryError registry_error | StorageError store_error

definition set_object :: "nat \<Rightarrow> monitored \<Rightarrow> 'st monitor_state \<Rightarrow> 'st monitor_state" where
  "set_object i obj st =
     st\<lparr>mo_registry := map_option (\<lambda>r. r\<lparr>reg_heap := (reg_heap r)(i := map_option (me_object_update (\<lambda>_. obj)) (reg_heap r i))\<rparr>)
          (mo_registry st)\<rparr>"

text \<open>\<open>SubmitEndpointResult\<close> after the lookup of the entry \<open>i\<close>, with the lock of the key held.\<close>

definition submit_locked ::
    "'st watchdog_env \<Rightarrow> 'st monitor_config \<Rightarrow> nat \<Rightarrow> result \<Rightarrow> 'st monitor_state \<Rightarrow>
     submit_error option \<times> 'st monitor_state" where
  "submit_locked env mc i r st =
     (case Option.bind (mo_registry st) (\<lambda>reg. map_option (Pair (reg_cancelled reg i)) (reg_heap reg i)) of
        None \<Rightarrow> (Some (RegistryError ErrEndpointNotMonitored), st)
      | Some (cancelled, m) \<Rightarrow>
          (if cancelled then (Some (RegistryError ErrEndpointNotMonitored), st)
           else
             (case me_object m of
                MonitoredExternal ee \<Rightarrow>
                  (let (err, ee', st') = processExternalEndpointResult env mc ee r True st
                   in (map_option StorageError err, set_object i (MonitoredExternal ee') st'))
              | MonitoredEndpoint ep \<Rightarrow>
                  (let (err, s) = mc_insert mc (mo_store st) ep r; st = st\<lparr>mo_store := s\<rparr>
                   in (case err of
                         Some e \<Rightarrow> (Some (StorageError e), st)
                       | None \<Rightarrow>
                           (let st = publish_metrics mc (ep_Key ep) r (publish (ep_Key ep) st)
                            in if under_maintenance mc (wd_now env) (ep_maintenance_windows ep) \<or> Pending r
                               then (None, st)
                               else
                                 (let (ep', st) = handle_alerting env mc ep r st
                                  in (None, set_object i (MonitoredEndpoint ep') st))))))))"

definition SubmitEndpointResult ::
    "'st watchdog_env \<Rightarrow> 'st monitor_config \<Rightarrow> string \<Rightarrow> result \<Rightarrow> 'st monitor_state \<Rightarrow>
     submit_error option \<times> 'st monitor_state" where
  "SubmitEndpointResult env mc key r st =
     (case mo_registry st of
        None \<Rightarrow> (Some (RegistryError ErrMonitoringStopped), st)
      | Some reg \<Rightarrow>
          (case reg_entries reg key of
             None \<Rightarrow> (Some (RegistryError ErrEndpointNotMonitored), st)
           | Some i \<Rightarrow> submit_locked env mc i r st))"

subsection \<open>Heartbeats and checks\<close>

definition HeartbeatMessagePrefix :: string where
  "HeartbeatMessagePrefix = ''heartbeat: no update received within ''"

text \<open>
  \<open>executeExternalEndpointHeartbeat\<close> for a live context: \<open>connected\<close> is the answer of the connectivity
  checker, \<open>True\<close> without one. It gives the external endpoint, as the processing leaves it.
\<close>

definition heartbeat_result :: "time \<Rightarrow> external_endpoint \<Rightarrow> result" where
  "heartbeat_result now ee =
     (let heartbeatMessage = HeartbeatMessagePrefix @ duration_string (hb_interval (ee_heartbeat ee))
      in empty_result\<lparr>Timestamp := now, Success := False, Errors := [heartbeatMessage], Message := heartbeatMessage\<rparr>)"

definition executeExternalEndpointHeartbeat ::
    "'st watchdog_env \<Rightarrow> 'st monitor_config \<Rightarrow> bool \<Rightarrow> external_endpoint \<Rightarrow> 'st monitor_state \<Rightarrow>
     external_endpoint \<times> 'st monitor_state" where
  "executeExternalEndpointHeartbeat env mc connected ee st0 =
     (if \<not> connected then (ee, st0)
      else
        (let (last, st) = lastPush (wd_now env) (ee_Key ee) st0
         in if time_sub (wd_now env) last < hb_interval (ee_heartbeat ee) then (ee, st)
            else
              (let (err, ee', st') =
                 processExternalEndpointResult env mc ee (heartbeat_result (wd_now env) ee) False st
               in (ee', st'))))"

definition UpdateEndpointStatus ::
    "'st monitor_config \<Rightarrow> endpoint \<Rightarrow> result \<Rightarrow> 'st monitor_state \<Rightarrow> 'st monitor_state" where
  "UpdateEndpointStatus mc ep r st =
     (let (err, s) = mc_insert mc (mo_store st) ep r; st = st\<lparr>mo_store := s\<rparr>
      in (case err of Some _ \<Rightarrow> st | None \<Rightarrow> publish (ep_Key ep) st))"

text \<open>\<open>executeEndpoint\<close> from the moment the lock is held; \<open>r\<close> is what \<open>EvaluateHealth\<close> returned.\<close>

definition executeEndpoint ::
    "'st watchdog_env \<Rightarrow> 'st monitor_config \<Rightarrow> bool \<Rightarrow> bool \<Rightarrow> endpoint \<Rightarrow> result \<Rightarrow> 'st monitor_state \<Rightarrow>
     endpoint \<times> 'st monitor_state" where
  "executeEndpoint env mc connected cancelled ep r st0 =
     (if \<not> connected \<or> cancelled then (ep, st0)
      else
        (let st = UpdateEndpointStatus mc ep r (publish_metrics mc (ep_Key ep) r st0)
         in if under_maintenance mc (wd_now env) (ep_maintenance_windows ep) then (ep, st)
            else handle_alerting env mc ep r st))"

section \<open>Facts\<close>

subsection \<open>Retries\<close>

text \<open>The failures that reach the alerting: neither successful nor pending.\<close>

definition is_failure :: "result \<Rightarrow> bool" where
  "is_failure r \<longleftrightarrow> \<not> Success r \<and> \<not> Pending r"

definition retries_left :: "external_endpoint \<Rightarrow> 'st monitor_state \<Rightarrow> int" where
  "retries_left ee st = hb_retries (ee_heartbeat ee) - (case mo_retries_used st (ee_Key ee) of Some n \<Rightarrow> n | None \<Rightarrow> 0)"

lemma applyRetries_failure:
  assumes "is_failure r" and "applyRetries ee r False st = (r', st')"
  shows "if 0 < hb_retries (ee_heartbeat ee) \<and> 0 < retries_left ee st
     then Pending r' \<and> \<not> Success r' \<and> Errors r' = [] \<and> retries_left ee st' = retries_left ee st - 1
     else r' = r \<and> retries_left ee st' = retries_left ee st"
  using assms
  by (auto simp: applyRetries_def is_failure_def retries_left_def Let_def split: if_splits option.splits)

lemma applyRetries_success:
  "Success r \<Longrightarrow> \<not> Pending r \<Longrightarrow> applyRetries ee r m st = (r', st') \<Longrightarrow>
   r' = r \<and> retries_left ee st' = hb_retries (ee_heartbeat ee)"
  by (auto simp: applyRetries_def retries_left_def)

lemma applyRetries_keeps: "applyRetries ee r m st = (r', st') \<Longrightarrow>
   Success r' = Success r \<and> Timestamp r' = Timestamp r \<and> mo_store st' = mo_store st \<and>
   mo_registry st' = mo_registry st \<and> mo_last_pushes st' = mo_last_pushes st \<and> mo_published st' = mo_published st \<and>
   mo_metrics st' = mo_metrics st \<and> mo_notices st' = mo_notices st \<and>
   (\<forall>k. k \<noteq> ee_Key ee \<longrightarrow> mo_retries_used st' k = mo_retries_used st k)"
  by (auto simp: applyRetries_def Let_def split: if_splits option.splits)

text \<open>A run of results through the retries, with the results that come out.\<close>

fun apply_retries_run :: "external_endpoint \<Rightarrow> result list \<Rightarrow> 'st monitor_state \<Rightarrow> result list \<times> 'st monitor_state" where
  "apply_retries_run ee [] st = ([], st)"
| "apply_retries_run ee (r # rs) st =
     (let (r', st1) = applyRetries ee r False st; (rs', st2) = apply_retries_run ee rs st1
      in (r' # rs', st2))"

text \<open>Of a run of failures, as many as there are retries left come out pending and the others as they went in.\<close>

lemma apply_retries_run_failures:
  assumes "list_all is_failure rs" and "0 \<le> retries_left ee st" and "0 \<le> hb_retries (ee_heartbeat ee)"
    and "retries_left ee st \<le> hb_retries (ee_heartbeat ee)" and "apply_retries_run ee rs st = (rs', st')"
  shows "length rs' = length rs \<and>
     list_all Pending (take (nat (retries_left ee st)) rs') \<and>
     drop (nat (retries_left ee st)) rs' = drop (nat (retries_left ee st)) rs \<and>
     retries_left ee st' = max 0 (retries_left ee st - int (length rs))"
  using assms
proof (induction rs arbitrary: st rs')
  case (Cons r rs)
  obtain r1 st1 where r1: "applyRetries ee r False st = (r1, st1)" by (cases "applyRetries ee r False st")
  obtain rs1 where rs1: "apply_retries_run ee rs st1 = (rs1, st')" and rs': "rs' = r1 # rs1"
    using Cons.prems(5) r1 by (auto split: prod.splits)
  show ?case
  proof (cases "0 < retries_left ee st")
    case True
    then have step: "Pending r1" "retries_left ee st1 = retries_left ee st - 1"
      using applyRetries_failure [OF _ r1] Cons.prems by (auto split: if_splits)
    have "nat (retries_left ee st) = Suc (nat (retries_left ee st1))" using True step by simp
    with Cons.IH [OF _ _ _ _ rs1] Cons.prems True step show ?thesis by (simp add: rs')
  next
    case False
    then have step: "r1 = r" "retries_left ee st1 = retries_left ee st" and zero: "retries_left ee st = 0"
      using applyRetries_failure [OF _ r1] Cons.prems by (auto split: if_splits)
    with Cons.IH [OF _ _ _ _ rs1] Cons.prems show ?thesis by (simp add: rs')
  qed
qed simp

subsection \<open>What a result changes\<close>

lemma ee_Key_keeps [simp]: "ee_Key (ee\<lparr>ee_alerts := a, ee_successes := n, ee_failures := f\<rparr>) = ee_Key ee"
  by (simp add: ee_Key_def)

lemma publish_sel [simp]:
  "mo_notices (publish k st) = mo_notices st" "mo_store (publish k st) = mo_store st"
  "mo_retries_used (publish k st) = mo_retries_used st" "mo_last_pushes (publish k st) = mo_last_pushes st"
  "mo_published (publish k st) = mo_published st @ [k]" "mo_registry (publish k st) = mo_registry st"
  "mo_metrics (publish k st) = mo_metrics st"
  by (simp_all add: publish_def)

lemma publish_metrics_sel [simp]:
  "mo_notices (publish_metrics mc k r st) = mo_notices st" "mo_store (publish_metrics mc k r st) = mo_store st"
  "mo_retries_used (publish_metrics mc k r st) = mo_retries_used st"
  "mo_last_pushes (publish_metrics mc k r st) = mo_last_pushes st"
  "mo_published (publish_metrics mc k r st) = mo_published st"
  "mo_registry (publish_metrics mc k r st) = mo_registry st"
  by (simp_all add: publish_metrics_def)

lemma handle_alerting_sel:
  assumes "handle_alerting env mc ep r st = (ep', st')"
  shows "mo_retries_used st' = mo_retries_used st" and "mo_last_pushes st' = mo_last_pushes st"
    and "mo_published st' = mo_published st" and "mo_registry st' = mo_registry st" and "mo_metrics st' = mo_metrics st"
    and "\<exists>log. mo_notices st' = mo_notices st @ map (Pair (ep_Key ep)) log"
  using assms by (auto simp: handle_alerting_def Let_def split: prod.splits)

text \<open>
  The outcome of the processing, by case: the storage fails; the result is stored but not handed to the
  alerting; or it is.
\<close>

lemma processExternal_cases:
  assumes "processExternalEndpointResult env mc ee r0 pushed st0 = (err, ee', st')"
  obtains (failed) r st e s where "applyRetries ee r0 (under_maintenance mc (wd_now env) (ee_maintenance_windows ee)) st0 = (r, st)"
      and "mc_insert mc (mo_store st0) (ToEndpoint ee) r = (Some e, s)"
      and "err = Some e" and "ee' = ee" and "st' = st\<lparr>mo_store := s\<rparr>"
  | (silent) r st s where "applyRetries ee r0 (under_maintenance mc (wd_now env) (ee_maintenance_windows ee)) st0 = (r, st)"
      and "mc_insert mc (mo_store st0) (ToEndpoint ee) r = (None, s)"
      and "under_maintenance mc (wd_now env) (ee_maintenance_windows ee) \<or> Pending r"
      and "err = None" and "ee' = ee" and "mo_store st' = s" and "mo_notices st' = mo_notices st0"
      and "mo_published st' = mo_published st0 @ [ee_Key ee]"
  | (alerted) r st s ep st1 where "applyRetries ee r0 (under_maintenance mc (wd_now env) (ee_maintenance_windows ee)) st0 = (r, st)"
      and "mc_insert mc (mo_store st0) (ToEndpoint ee) r = (None, s)"
      and "\<not> under_maintenance mc (wd_now env) (ee_maintenance_windows ee)" and "\<not> Pending r"
      and "mo_store st1 = s" and "mo_notices st1 = mo_notices st0" and "mo_registry st1 = mo_registry st0"
      and "mo_published st1 = mo_published st0 @ [ee_Key ee]"
      and "handle_alerting env mc (ToEndpoint ee) r st1 = (ep, st')"
      and "err = None"
      and "ee' = ee\<lparr>ee_alerts := ep_alerts ep, ee_successes := NumberOfSuccessesInARow ep, ee_failures := NumberOfFailuresInARow ep\<rparr>"
proof -
  obtain r st where r: "applyRetries ee r0 (under_maintenance mc (wd_now env) (ee_maintenance_windows ee)) st0 = (r, st)"
    by (cases "applyRetries ee r0 (under_maintenance mc (wd_now env) (ee_maintenance_windows ee)) st0")
  note keeps = applyRetries_keeps [OF r]
  obtain e s where ins: "mc_insert mc (mo_store st) (ToEndpoint ee) r = (e, s)"
    by (cases "mc_insert mc (mo_store st) (ToEndpoint ee) r")
  let ?st1 = "publish_metrics mc (ee_Key ee) r
    (if pushed then (publish (ee_Key ee) (st\<lparr>mo_store := s\<rparr>))\<lparr>mo_last_pushes :=
        (mo_last_pushes (publish (ee_Key ee) (st\<lparr>mo_store := s\<rparr>)))(ee_Key ee \<mapsto> wd_now env)\<rparr>
     else publish (ee_Key ee) (st\<lparr>mo_store := s\<rparr>))"
  have st1: "mo_store ?st1 = s" "mo_notices ?st1 = mo_notices st0" "mo_registry ?st1 = mo_registry st0"
    "mo_published ?st1 = mo_published st0 @ [ee_Key ee]"
    using keeps by auto
  show thesis
  proof (cases e)
    case (Some x)
    with assms r ins keeps show thesis by (intro failed) (auto simp: processExternalEndpointResult_def Let_def)
  next
    case None
    show thesis
    proof (cases "under_maintenance mc (wd_now env) (ee_maintenance_windows ee) \<or> Pending r")
      case True
      with assms r ins None have "err = None \<and> ee' = ee \<and> st' = ?st1"
        by (auto simp: processExternalEndpointResult_def Let_def)
      with True r ins None keeps st1 show thesis by (intro silent) auto
    next
      case False
      obtain ep st2 where h: "handle_alerting env mc (ToEndpoint ee) r ?st1 = (ep, st2)"
        by (cases "handle_alerting env mc (ToEndpoint ee) r ?st1")
      with assms r ins None False have "err = None \<and> st' = st2 \<and> ee' = ee\<lparr>ee_alerts := ep_alerts ep,
          ee_successes := NumberOfSuccessesInARow ep, ee_failures := NumberOfFailuresInARow ep\<rparr>"
        by (auto simp: processExternalEndpointResult_def Let_def simp del: publish_sel)
      with False r ins None keeps st1 h show thesis by (intro alerted) auto
    qed
  qed
qed

lemma ToEndpoint_sel [simp]:
  "ep_alerts (ToEndpoint ee) = ee_alerts ee" "NumberOfFailuresInARow (ToEndpoint ee) = ee_failures ee"
  "NumberOfSuccessesInARow (ToEndpoint ee) = ee_successes ee" "LastReminderSent (ToEndpoint ee) = zero_time"
  by (simp_all add: ToEndpoint_def empty_endpoint_def)

text \<open>A result that is pending, or comes during a maintenance window, is stored and published, and that is all.\<close>

lemma processExternal_silent:
  assumes "processExternalEndpointResult env mc ee r0 pushed st0 = (err, ee', st')"
    and "Pending r0 \<or> under_maintenance mc (wd_now env) (ee_maintenance_windows ee)"
  shows "ee' = ee \<and> mo_notices st' = mo_notices st0 \<and>
     (err = None \<longrightarrow> mo_published st' = mo_published st0 @ [ee_Key ee])"
  using assms(1)
proof (cases rule: processExternal_cases)
  case (failed r st e s)
  then show ?thesis using applyRetries_keeps [OF failed(1)] by auto
next
  case (alerted r st s ep st1)
  have "Pending r0 \<Longrightarrow> Pending r" using alerted(1) by (auto simp: applyRetries_def)
  with alerted(3,4) assms(2) show ?thesis by blast
qed auto

text \<open>What is sent for a result is sent for the endpoint of the result.\<close>

lemma processExternal_notices:
  assumes "processExternalEndpointResult env mc ee r0 pushed st0 = (err, ee', st')"
  shows "\<exists>log. mo_notices st' = mo_notices st0 @ map (Pair (ee_Key ee)) log"
  using assms
proof (cases rule: processExternal_cases)
  case (failed r st e s)
  then show ?thesis using applyRetries_keeps [OF failed(1)] by auto
next
  case (alerted r st s ep st1)
  then show ?thesis using handle_alerting_sel(6) [OF alerted(9)] by simp
qed auto

text \<open>
  The failures of an external endpoint do not remember \<open>LastReminderSent\<close>: while an alert with reminders
  is triggered, each of them sends a reminder, whatever the minimum interval.
\<close>

lemma zero_time_long_ago:
  assumes "0 \<le> now" and "d \<le> max_duration"
  shows "d \<le> time_sub now zero_time"
  using assms by (simp add: time_sub_def go_time)

lemma trigger_step_overdue:
  assumes "triggered a" and "alert_IsEnabled a" and "failure_threshold a \<le> NumberOfFailuresInARow ep"
    and "0 < minimum_reminder_interval a" and "minimum_reminder_interval a \<le> time_sub (wd_now env) t"
    and "cfg (al_type a) = Some provider"
    and "trigger_step env cfg r t i ep s a = (a', ep', s', l)"
  shows "\<exists>n. l = [n] \<and> nt_kind n = Reminder \<and> nt_index n = i \<and> nt_time n = wd_now env"
  using assms
  by (auto simp: trigger_step_def Let_def split: if_splits option.splits prod.splits)

subsection \<open>The heartbeat\<close>

text \<open>A push within the interval keeps the heartbeat silent; it does nothing without connectivity.\<close>

lemma heartbeat_silent:
  assumes "mo_last_pushes st (ee_Key ee) = Some t" and "time_sub (wd_now env) t < hb_interval (ee_heartbeat ee)"
  shows "executeExternalEndpointHeartbeat env mc connected ee st = (ee, st)"
  using assms by (simp add: executeExternalEndpointHeartbeat_def lastPush_def)

lemma heartbeat_fails:
  assumes "mo_last_pushes st (ee_Key ee) = Some t" and "hb_interval (ee_heartbeat ee) \<le> time_sub (wd_now env) t"
  shows "executeExternalEndpointHeartbeat env mc True ee st =
     snd (processExternalEndpointResult env mc ee (heartbeat_result (wd_now env) ee) False st)"
  using assms
  by (simp add: executeExternalEndpointHeartbeat_def lastPush_def split: prod.splits)

lemma is_failure_heartbeat: "is_failure (heartbeat_result now ee)"
  by (simp add: is_failure_def heartbeat_result_def empty_result_def Let_def)

text \<open>An accepted push starts the interval again, and only a push does.\<close>

lemma processExternal_last_push:
  assumes "processExternalEndpointResult env mc ee r0 pushed st0 = (err, ee', st')"
  shows "mo_last_pushes st' =
     (if pushed \<and> err = None then (mo_last_pushes st0)(ee_Key ee \<mapsto> wd_now env) else mo_last_pushes st0)"
proof -
  obtain r st where r: "applyRetries ee r0 (under_maintenance mc (wd_now env) (ee_maintenance_windows ee)) st0 = (r, st)"
    by (cases "applyRetries ee r0 (under_maintenance mc (wd_now env) (ee_maintenance_windows ee)) st0")
  show ?thesis
    using assms r applyRetries_keeps [OF r]
    by (auto simp: processExternalEndpointResult_def Let_def split: prod.splits option.splits if_splits
        dest: handle_alerting_sel(2))
qed

subsection \<open>Submissions\<close>

lemma submit_stopped:
  assumes "mo_registry st = Some reg" and "reg_heap reg i = Some m" and "reg_cancelled reg i"
  shows "submit_locked env mc i r st = (Some (RegistryError ErrEndpointNotMonitored), st)"
  using assms by (simp add: submit_locked_def)

lemma submit_unknown:
  assumes "mo_registry st = Some reg" and "\<not> reg_isMonitored key reg"
  shows "SubmitEndpointResult env mc key r st = (Some (RegistryError ErrEndpointNotMonitored), st)"
  using assms by (simp add: SubmitEndpointResult_def reg_isMonitored_def)

text \<open>A check whose context was cancelled while it ran leaves everything as it was.\<close>

lemma executeEndpoint_cancelled: "executeEndpoint env mc connected True ep r st = (ep, st)"
  by (simp add: executeEndpoint_def)

lemma UpdateEndpointStatus_sel [simp]:
  "mo_notices (UpdateEndpointStatus mc ep r st) = mo_notices st"
  by (simp add: UpdateEndpointStatus_def Let_def split: prod.splits option.splits)

lemma executeEndpoint_maintenance:
  assumes "under_maintenance mc (wd_now env) (ep_maintenance_windows ep)"
    and "executeEndpoint env mc connected cancelled ep r st = (ep', st')"
  shows "ep' = ep \<and> mo_notices st' = mo_notices st"
  using assms by (auto simp: executeEndpoint_def split: if_splits)

end
