(* ===== verification/MonitorProperties.thy ===== *)
theory MonitorProperties
  imports PushMonitor AlertingFacts Examples
begin

text \<open>
  The properties of the registry of monitored endpoints, over every interleaving of \<open>reg_step\<close>, and of the pushes,
  retries and heartbeats of external endpoints.
\<close>

section \<open>The registry\<close>

lemma reg_steps_inv: "reg_steps init_system s \<Longrightarrow> sys_inv s"
  using sys_inv_steps sys_inv_init by blast

text \<open>A run that starts an endpoint, stops it and waits, for the examples.\<close>

definition sample_entry :: monitored_entry where
  "sample_entry = \<lparr>me_object = MonitoredEndpoint sample_endpoint, me_source = SourceAdmin\<rparr>"

definition started_system :: system where
  "started_system = init_system\<lparr>sys_reg := reg_add sample_entry newEndpointRegistry\<rparr>"

definition stopped_registry :: registry where
  "stopped_registry = (reg_add sample_entry newEndpointRegistry)\<lparr>reg_entries := Map.empty, reg_cancelled := (\<lambda>_. False)(0 := True)\<rparr>"

text \<open>One result is recorded before the endpoint is stopped.\<close>

definition stopped_system :: system where
  "stopped_system = init_system\<lparr>sys_reg := stopped_registry, sys_stopped := [0], sys_returned := [0], sys_recorded := [0]\<rparr>"

lemma sample_entry_key [simp]: "me_key sample_entry = ''core_web''"
  by (simp add: me_key_def sample_entry_def)

lemma started_reachable: "reg_steps init_system started_system"
  using reg_step.start [of sample_endpoint SourceAdmin init_system "reg_add sample_entry newEndpointRegistry"]
  by (auto simp: reg_start_def sample_entry_def newEndpointRegistry_def init_system_def started_system_def
      intro: reg_steps.intros)

lemmas sample_run_simps = started_system_def init_system_def entry_key_def reg_add_def newEndpointRegistry_def

lemma stopped_reachable: "reg_steps init_system stopped_system"
proof -
  let ?key = "''core_web''"
  let ?a = "started_system\<lparr>sys_lock := (sys_lock started_system)(?key \<mapsto> 0)\<rparr>"
  let ?b = "?a\<lparr>sys_lock := (sys_lock ?a)(?key := None), sys_recorded := sys_recorded ?a @ [0]\<rparr>"
  let ?r = "(sys_reg ?b)\<lparr>reg_entries := (reg_entries (sys_reg ?b))(?key := None)\<rparr>"
  let ?c = "?b\<lparr>sys_reg := ?r, sys_stopping := 0 # sys_stopping ?b\<rparr>"
  let ?d = "?c\<lparr>sys_reg := reg_cancel 0 (sys_reg ?c), sys_stopping := removeAll 0 (sys_stopping ?c), sys_stopped := 0 # sys_stopped ?c\<rparr>"
  let ?e = "?d\<lparr>sys_returned := 0 # sys_returned ?d\<rparr>"
  have "reg_step started_system ?a"
    by (rule reg_step.acquire) (simp_all add: sample_run_simps)
  moreover have "reg_step ?a ?b" by (rule reg_step.record_result) simp
  moreover have "reg_step ?b ?c"
    by (rule reg_step.stop_begin [of ?key SourceAdmin]) (simp add: reg_remove_def sample_run_simps, simp add: sample_entry_def)
  moreover have "reg_step ?c ?d" by (rule reg_step.stop_cancel) simp
  moreover have "reg_step ?d ?e"
    by (rule reg_step.stop_return [of _ _ ?key]) (simp_all add: reg_cancel_def sample_run_simps)
  ultimately have "reg_steps init_system ?e" using started_reachable by (meson reg_steps.step)
  moreover have "?e = stopped_system"
    by (simp add: stopped_system_def stopped_registry_def reg_cancel_def sample_run_simps)
  ultimately show ?thesis by simp
qed

text \<open>C4. Once \<open>stop\<close> has returned for an entry, no result is recorded for it any more, whatever runs beside it, with one
  exception: for an external endpoint whose \<open>stop\<close> gave up waiting, the heartbeat that was in flight may still record its
  result, and it is the only one.\<close>

theorem no_result_after_stop:
  assumes "reg_steps init_system s" and "i \<in> set (sys_returned s)" and "reg_steps s t"
  shows "count_list (sys_recorded t) i \<le>
    count_list (sys_recorded s) i + (if is_external s i \<and> i \<in> set (sys_timed_out s) then 1 else 0)"
proof -
  note inv = reg_steps_inv [OF assms(1)]
  obtain key where key: "entry_key s i = Some key" "reg_cancelled (sys_reg s) i" "in_flight key i s \<le> 1"
    using returned_in_flight [OF assms(1,2)] by blast
  have "count_list (sys_recorded t) i \<le> in_progress key i t" by (simp add: in_progress_def)
  also have "\<dots> \<le> in_progress key i s" using cancelled_steps [OF assms(3) inv key(2,1)] by blast
  also have "\<dots> \<le> count_list (sys_recorded s) i + (if is_external s i \<and> i \<in> set (sys_timed_out s) then 1 else 0)"
    using key(3) returned_quiet [OF inv assms(2), of key] by (auto simp: in_progress_def)
  finally show ?thesis .
qed

lemma no_result_after_stop_witness:
  "count_list (sys_recorded stopped_system) 0 = 1 \<and>
   count_list (sys_recorded (stopped_system\<lparr>sys_reg := reg_close (sys_reg stopped_system)\<rparr>)) 0 \<le> 1"
proof -
  have s: "0 \<in> set (sys_returned stopped_system)" "count_list (sys_recorded stopped_system) 0 = 1"
    "\<not> (is_external stopped_system 0 \<and> 0 \<in> set (sys_timed_out stopped_system))"
    by (simp_all add: stopped_system_def init_system_def)
  show ?thesis
    using no_result_after_stop [OF stopped_reachable s(1) reg_steps.step [OF reg_steps.refl reg_step.close]] s(2,3) by simp
qed

definition sample_external :: external_endpoint where
  "sample_external = \<lparr>ee_enabled = None, ee_name = ''job'', ee_group = [], ee_token = ''secret'', ee_alerts = [sample_alert],
     ee_maintenance_windows = [], ee_heartbeat = \<lparr>hb_interval = minute, hb_retries = 2\<rparr>, ee_failures = 0, ee_successes = 0\<rparr>"

text \<open>The exception happens: a heartbeat checks its context before it takes the lock of its key, so that after a
  wait that timed out \<open>stop\<close> returns and the heartbeat still records its result.\<close>

theorem heartbeat_after_timed_out_stop:
  "\<exists>s t. reg_steps init_system s \<and> reg_steps s t \<and> 0 \<in> set (sys_returned s) \<and> is_external s 0 \<and>
     0 \<notin> set (sys_recorded s) \<and> 0 \<in> set (sys_recorded t)"
proof -
  let ?key = "ee_Key sample_external"
  let ?m = "\<lparr>me_object = MonitoredExternal sample_external, me_source = SourceConfig\<rparr>"
  let ?r0 = "reg_add ?m newEndpointRegistry"
  let ?r1 = "?r0\<lparr>reg_entries := (reg_entries ?r0)(?key := None), reg_cancelled := (reg_cancelled ?r0)(0 := True)\<rparr>"
  let ?s0 = "init_system\<lparr>sys_reg := ?r0\<rparr>"
  let ?s1 = "?s0\<lparr>sys_waiting := [0]\<rparr>"
  let ?r = "?r0\<lparr>reg_entries := (reg_entries ?r0)(?key := None)\<rparr>"
  let ?q = "?s1\<lparr>sys_reg := ?r, sys_stopping := [0]\<rparr>"
  let ?s2 = "?s1\<lparr>sys_reg := ?r1, sys_stopped := [0]\<rparr>"
  let ?s3 = "?s2\<lparr>sys_timed_out := [0]\<rparr>"
  let ?s4 = "?s3\<lparr>sys_returned := [0]\<rparr>"
  let ?s5 = "?s4\<lparr>sys_lock := (sys_lock ?s4)(?key \<mapsto> 0), sys_waiting := removeAll 0 (sys_waiting ?s4)\<rparr>"
  let ?s6 = "?s5\<lparr>sys_lock := (sys_lock ?s5)(?key := None), sys_recorded := sys_recorded ?s5 @ [0]\<rparr>"
  have key: "me_key ?m = ?key" by (simp add: me_key_def)
  have 0: "reg_step init_system ?s0"
    by (rule reg_step.start_external [of sample_external SourceConfig])
      (simp add: reg_startExternal_def init_system_def newEndpointRegistry_def)
  have 1: "reg_step ?s0 ?s1"
    using reg_step.beat_check [of ?s0 0]
    by (simp add: is_external_def reg_add_def newEndpointRegistry_def init_system_def)
  have q: "reg_step ?s1 ?q"
    using reg_step.stop_begin [of ?key SourceConfig ?s1 0 ?r]
    by (simp add: reg_remove_def reg_add_def newEndpointRegistry_def init_system_def key)
  have 2: "reg_step ?q ?s2"
    using reg_step.stop_cancel [of 0 ?q] by (simp add: reg_cancel_def init_system_def)
  have 3: "reg_step ?s2 ?s3"
    using reg_step.stop_timeout [of 0 ?s2] by (simp add: init_system_def)
  have 4: "reg_step ?s3 ?s4"
    using reg_step.stop_return [of 0 ?s3 ?key]
    by (simp add: entry_key_def reg_add_def newEndpointRegistry_def init_system_def key)
  have 5: "reg_step ?s4 ?s5"
    by (rule reg_step.beat_acquire)
      (simp_all add: entry_key_def reg_add_def newEndpointRegistry_def init_system_def key)
  have 6: "reg_step ?s5 ?s6" by (rule reg_step.record_result) simp
  note reg_steps.step [OF reg_steps.step [OF reg_steps.step [OF reg_steps.step [OF reg_steps.step [OF reg_steps.step
    [OF reg_steps.refl 0] 1] q] 2] 3] 4]
  moreover note reg_steps.step [OF reg_steps.step [OF reg_steps.refl 5] 6]
  moreover have "is_external ?s4 0" by (simp add: is_external_def reg_add_def newEndpointRegistry_def init_system_def)
  ultimately show ?thesis by (intro exI [of _ ?s4] exI [of _ ?s6]) (simp add: init_system_def)
qed

text \<open>C33. In every reachable state, a live entry, one whose context is not cancelled, is that of the map for its key and the
  only one of that key, but for the entries that a \<open>stop\<close> has just taken out of the map and is about to cancel; those are
  never in the map, and every entry whose \<open>stop\<close> went on to wait is cancelled.\<close>

theorem one_live_entry_per_key:
  assumes "reg_steps init_system s" and "entry_key s i = Some key" and "\<not> reg_cancelled (sys_reg s) i"
  shows "(if i \<in> set (sys_stopping s) then \<forall>k. reg_entries (sys_reg s) k \<noteq> Some i
     else reg_entries (sys_reg s) key = Some i \<and>
       (\<forall>j. entry_key s j = Some key \<and> \<not> reg_cancelled (sys_reg s) j \<and> j \<notin> set (sys_stopping s) \<longrightarrow> j = i)) \<and>
     (\<forall>j \<in> set (sys_stopped s). reg_cancelled (sys_reg s) j)"
proof -
  note inv = reg_steps_inv [OF assms(1)]
  note reg = sys_inv_reg [OF inv]
  have stopped: "\<forall>j \<in> set (sys_stopped s). reg_cancelled (sys_reg s) j" using inv by (simp add: sys_inv_def)
  show ?thesis
  proof (cases "i \<in> set (sys_stopping s)")
    case True
    then show ?thesis using reg_inv_entry_out [OF reg] stopped by auto
  next
    case False
    then have "reg_entries (sys_reg s) key = Some i"
      using reg_inv_live [OF reg, of i] assms(2,3) by (auto simp: entry_key_def)
    then show ?thesis using live_entries_distinct [OF inv assms(2,3) False] False stopped by auto
  qed
qed

lemma one_live_entry_per_key_witness:
  "reg_entries (sys_reg started_system) ''core_web'' = Some 0 \<and> sys_stopping started_system = []"
  using one_live_entry_per_key [OF started_reachable, of 0 "''core_web''"]
  by (simp add: sample_run_simps)

text \<open>Once monitoring was closed it stays so: nothing starts any more and every entry is cancelled or about to be.\<close>

theorem closed_registry_refuses:
  assumes "reg_steps init_system s" and "reg_closed (sys_reg s)" and "reg_steps s t"
  shows "reg_start ep src (sys_reg t) = Inl ErrMonitoringStopped \<and>
     reg_startExternal ee src (sys_reg t) = Inl ErrMonitoringStopped \<and>
     (\<forall>i. entry_key t i \<noteq> None \<longrightarrow> reg_cancelled (sys_reg t) i \<or> i \<in> set (sys_stopping t))"
proof -
  have closed: "reg_closed (sys_reg t)" by (rule closed_stays_steps [OF assms(3,2)])
  have "reg_inv_but (set (sys_stopping t)) (sys_reg t)" using sys_inv_steps [OF assms(3) reg_steps_inv [OF assms(1)]] by (rule sys_inv_reg)
  from reg_inv_closed [OF this closed] show ?thesis using closed_start [OF closed] by (auto simp: entry_key_def)
qed

lemma closed_registry_refuses_witness:
  "reg_start sample_endpoint SourceAdmin (reg_close (sys_reg started_system)) = Inl ErrMonitoringStopped"
proof -
  let ?s = "started_system\<lparr>sys_reg := reg_close (sys_reg started_system)\<rparr>"
  have "reg_steps init_system ?s" by (rule reg_steps.step [OF started_reachable reg_step.close])
  from closed_registry_refuses [OF this _ reg_steps.refl, of sample_endpoint SourceAdmin sample_external]
  show ?thesis by (simp add: reg_close_def)
qed

text \<open>A restart that succeeds cancels the entry of the key and monitors the new endpoint under a new entry of the same
  source; the other keys keep theirs.\<close>

theorem restart_replaces_entry:
  assumes "reg_steps init_system s" and "RestartEndpoint ep src (Some (sys_reg s)) = (None, Some r')"
  shows "\<exists>i j. reg_entries (sys_reg s) (ep_Key ep) = Some i \<and> reg_entries r' (ep_Key ep) = Some j \<and> i \<noteq> j \<and>
     reg_cancelled r' i \<and> \<not> reg_cancelled r' j \<and>
     reg_heap r' j = Some \<lparr>me_object = MonitoredEndpoint ep, me_source = src\<rparr> \<and>
     (\<forall>k. k \<noteq> ep_Key ep \<longrightarrow> reg_entries r' k = reg_entries (sys_reg s) k)"
proof (rule RestartEndpoint_replaces [OF sys_inv_reg [OF reg_steps_inv [OF assms(1)]] assms(2)])
  fix i j
  assume "reg_entries (sys_reg s) (ep_Key ep) = Some i" "reg_entries r' (ep_Key ep) = Some j" "i \<noteq> j"
    "reg_cancelled r' i" "\<not> reg_cancelled r' j" "reg_heap r' j = Some \<lparr>me_object = MonitoredEndpoint ep, me_source = src\<rparr>"
    "\<And>k. k \<noteq> ep_Key ep \<Longrightarrow> reg_entries r' k = reg_entries (sys_reg s) k"
  then show ?thesis by blast
qed

lemma restart_replaces_entry_witness:
  "\<exists>i j. reg_entries (sys_reg started_system) (ep_Key sample_endpoint) = Some i \<and>
     reg_entries (reg_add sample_entry stopped_registry) (ep_Key sample_endpoint) = Some j \<and> i \<noteq> j \<and>
     reg_cancelled (reg_add sample_entry stopped_registry) i \<and> \<not> reg_cancelled (reg_add sample_entry stopped_registry) j \<and>
     reg_heap (reg_add sample_entry stopped_registry) j = Some \<lparr>me_object = MonitoredEndpoint sample_endpoint, me_source = SourceAdmin\<rparr> \<and>
     (\<forall>k. k \<noteq> ep_Key sample_endpoint \<longrightarrow>
        reg_entries (reg_add sample_entry stopped_registry) k = reg_entries (sys_reg started_system) k)"
proof (rule restart_replaces_entry [OF started_reachable])
  have stop: "reg_stop ''core_web'' SourceAdmin (sys_reg started_system) = Inr (0, stopped_registry)"
    by (simp add: reg_stop_alt started_system_def reg_add_def newEndpointRegistry_def stopped_registry_def)
      (simp add: sample_entry_def)
  have "\<not> reg_closed stopped_registry" "reg_entries stopped_registry ''core_web'' = None"
    by (simp_all add: stopped_registry_def reg_add_def newEndpointRegistry_def)
  then have "reg_start sample_endpoint SourceAdmin stopped_registry = Inr (reg_add sample_entry stopped_registry)"
    by (simp add: reg_start_def sample_entry_def)
  with stop show "RestartEndpoint sample_endpoint SourceAdmin (Some (sys_reg started_system)) =
      (None, Some (reg_add sample_entry stopped_registry))"
    by (simp add: RestartEndpoint_def StopEndpoint_def StartEndpoint_def)
qed

section \<open>Pushes and heartbeats\<close>

text \<open>C22. Of a run of failures of an external endpoint outside of maintenance, the first ones, as many as its heartbeat has
  retries and it has not used yet, are recorded as pending; the others are recorded as they are.\<close>

theorem retries_delay_failures:
  assumes "list_all is_failure rs" and "0 \<le> hb_retries (ee_heartbeat ee)" and "mo_retries_used st (ee_Key ee) = None"
  shows "let rs' = fst (apply_retries_run ee rs st); n = nat (hb_retries (ee_heartbeat ee))
         in length rs' = length rs \<and> list_all Pending (take n rs') \<and> drop n rs' = drop n rs"
proof -
  obtain rs' st' where run: "apply_retries_run ee rs st = (rs', st')" by fastforce
  have left: "retries_left ee st = hb_retries (ee_heartbeat ee)" using assms(3) by (simp add: retries_left_def)
  show ?thesis using apply_retries_run_failures [OF assms(1) _ assms(2) _ run] assms(2) by (simp add: left run Let_def)
qed

definition empty_monitor :: "'st \<Rightarrow> 'st monitor_state" where
  "empty_monitor s = \<lparr>mo_store = s, mo_last_pushes = Map.empty, mo_retries_used = Map.empty,
     mo_registry = Some (reg_add \<lparr>me_object = MonitoredExternal sample_external, me_source = SourceConfig\<rparr> newEndpointRegistry),
     mo_published = [], mo_metrics = [], mo_notices = []\<rparr>"

lemma sample_is_failure [simp]: "is_failure sample_failure"
  by (simp add: is_failure_def)

lemma retries_delay_failures_witness:
  "let rs' = fst (apply_retries_run sample_external (replicate 3 sample_failure) (empty_monitor ())); n = nat 2
   in length rs' = length (replicate 3 sample_failure) \<and> list_all Pending (take n rs') \<and>
      drop n rs' = drop n (replicate 3 sample_failure)"
  using retries_delay_failures [of "replicate 3 sample_failure" sample_external "empty_monitor ()"]
  by (simp add: sample_external_def empty_monitor_def numeral_eq_Suc)

text \<open>The result of a push that is pending, or comes during maintenance, is stored and announced, but no notification
  is sent and neither the alerts nor the counters change.\<close>

theorem pending_results_never_alert:
  assumes "Pending r \<or> under_maintenance mc (wd_now env) (ee_maintenance_windows ee)"
  shows "case processExternalEndpointResult env mc ee r pushed st of (err, ee', st') \<Rightarrow>
     ee' = ee \<and> mo_notices st' = mo_notices st \<and> (err = None \<longrightarrow> mo_published st' = mo_published st @ [ee_Key ee])"
proof -
  obtain err ee' st' where p: "processExternalEndpointResult env mc ee r pushed st = (err, ee', st')" by (metis prod_cases3)
  from processExternal_silent [OF p assms] show ?thesis by (simp add: p)
qed

definition sample_monitor_config :: "('st \<Rightarrow> endpoint \<Rightarrow> result \<Rightarrow> store_error option \<times> 'st) \<Rightarrow> 'st monitor_config" where
  "sample_monitor_config ins =
     \<lparr>mc_insert = ins, mc_metrics = False, mc_maintenance = mw_GetDefaultConfig, mc_alerting = Some sample_alerting,
      mc_managed_alerting = None, mc_local = UTC\<rparr>"

lemma pending_results_never_alert_witness:
  "case processExternalEndpointResult (sample_env memory_ops 0) (sample_monitor_config (\<lambda>s ep r. (None, s))) sample_external
       (sample_failure\<lparr>Pending := True\<rparr>) True (empty_monitor ()) of (err, ee', st') \<Rightarrow>
     ee' = sample_external \<and> mo_notices st' = mo_notices (empty_monitor ()) \<and>
     (err = None \<longrightarrow> mo_published st' = mo_published (empty_monitor ()) @ [ee_Key sample_external])"
  by (rule pending_results_never_alert) simp

text \<open>A heartbeat with a push since less than the interval does nothing; from the interval on it processes a failure that
  was not pushed, which leaves the time of the last push as it is, so that it fails again at the next tick.\<close>

theorem heartbeat_watches_interval:
  assumes "mo_last_pushes st (ee_Key ee) = Some t"
  shows "if time_sub (wd_now env) t < hb_interval (ee_heartbeat ee)
     then executeExternalEndpointHeartbeat env mc True ee st = (ee, st)
     else executeExternalEndpointHeartbeat env mc True ee st =
            snd (processExternalEndpointResult env mc ee (heartbeat_result (wd_now env) ee) False st) \<and>
          is_failure (heartbeat_result (wd_now env) ee) \<and>
          mo_last_pushes (snd (executeExternalEndpointHeartbeat env mc True ee st)) = mo_last_pushes st"
proof (cases "time_sub (wd_now env) t < hb_interval (ee_heartbeat ee)")
  case True
  then show ?thesis using heartbeat_silent [OF assms] by simp
next
  case False
  obtain err ee' st' where p: "processExternalEndpointResult env mc ee (heartbeat_result (wd_now env) ee) False st = (err, ee', st')"
    by (metis prod_cases3)
  have run: "executeExternalEndpointHeartbeat env mc True ee st = (ee', st')"
    using heartbeat_fails [OF assms] False p by simp
  have "mo_last_pushes st' = mo_last_pushes st" using processExternal_last_push [OF p] by simp
  then show ?thesis using False p run is_failure_heartbeat by simp
qed

lemma heartbeat_watches_interval_witness:
  "executeExternalEndpointHeartbeat (sample_env memory_ops 5) (sample_monitor_config (\<lambda>s ep r. (None, s))) True
     sample_external ((empty_monitor ())\<lparr>mo_last_pushes := [ee_Key sample_external \<mapsto> 0]\<rparr>) =
   (sample_external, (empty_monitor ())\<lparr>mo_last_pushes := [ee_Key sample_external \<mapsto> 0]\<rparr>)"
  using heartbeat_watches_interval [of "(empty_monitor ())\<lparr>mo_last_pushes := [ee_Key sample_external \<mapsto> 0]\<rparr>" sample_external 0
      "sample_env memory_ops 5" "sample_monitor_config (\<lambda>s ep r. (None, s))"]
  by (simp add: sample_external_def go_time time_sub_def)

text \<open>An alert of an external endpoint that is due for a reminder whatever the time since the last one.\<close>

definition reminding :: "alerting_config \<Rightarrow> int \<Rightarrow> alert \<Rightarrow> bool" where
  "reminding cfg failures a \<longleftrightarrow>
     triggered a \<and> alert_IsEnabled a \<and> failure_threshold a \<le> failures \<and> 0 < minimum_reminder_interval a \<and>
     minimum_reminder_interval a \<le> max_duration \<and> cfg (al_type a) \<noteq> None"

lemma external_failure_reminds:
  assumes now: "0 \<le> wd_now env" and r: "\<not> Success r" and k: "k < length (ee_alerts ee)"
    and due: "reminding cfg (ee_failures ee + 1) (ee_alerts ee ! k)"
    and h: "HandleAlerting env (Some cfg) (ToEndpoint ee) r s = (ep', s', log)"
  shows "\<exists>n \<in> set log. nt_kind n = Reminder \<and> nt_index n = k \<and> nt_time n = wd_now env"
proof -
  let ?ep = "(ToEndpoint ee)\<lparr>NumberOfSuccessesInARow := 0, NumberOfFailuresInARow := ee_failures ee + 1\<rparr>"
  let ?R = "\<lambda>a a' l. reminding cfg (ee_failures ee + 1) a \<longrightarrow> (\<exists>n \<in> set l. nt_kind n = Reminder \<and> nt_time n = wd_now env)"
  obtain as ep1 where loop: "alert_loop (trigger_step env cfg r zero_time) 0 ?ep s (ee_alerts ee) = (as, ep1, s', log)"
    using h r by (auto simp: HandleAlerting_def handleAlertsToTrigger_def Let_def split: prod.splits)
  have step: "NumberOfFailuresInARow ep2 = ee_failures ee + 1 \<and> ?R a a' l \<and> list_all (\<lambda>n. nt_index n = i) l"
    if "NumberOfFailuresInARow ep1 = ee_failures ee + 1"
      and f: "trigger_step env cfg r zero_time i ep1 s1 a = (a', ep2, s2, l)" for i ep1 s1 a a' ep2 s2 l
  proof -
    have "?R a a' l"
      using trigger_step_overdue [OF _ _ _ _ _ _ f] zero_time_long_ago [OF now, of "minimum_reminder_interval a"] that(1)
      by (fastforce simp: reminding_def)
    then show ?thesis using trigger_step_rel [OF _ f] that(1) by blast
  qed
  have "?R (ee_alerts ee ! k) (as ! k) (notices_of (0 + k) log)"
    using alert_loop_pointwise [where I = "\<lambda>e. NumberOfFailuresInARow e = ee_failures ee + 1" and R = ?R,
        OF step _ loop] k by simp
  with due show ?thesis by (auto simp: notices_of_def)
qed

text \<open>The time of the last reminder of an external endpoint is not kept: each failure that is handed to the alerting sends
  a reminder for every triggered alert with a reminder interval, however short the time since the last one.\<close>

theorem external_reminders_ignore_interval:
  assumes "0 \<le> wd_now env" and "is_failure r" and "k < length (ee_alerts ee)" and "hb_retries (ee_heartbeat ee) \<le> 0"
    and "alertingConfigFor (ee_Key ee) (mo_registry st) (mc_managed_alerting mc) (mc_alerting mc) = Some cfg"
    and "reminding cfg (ee_failures ee + 1) (ee_alerts ee ! k)"
    and "\<not> under_maintenance mc (wd_now env) (ee_maintenance_windows ee)"
    and "fst (mc_insert mc (mo_store st) (ToEndpoint ee) r) = None"
  shows "\<exists>n. nt_kind n = Reminder \<and> nt_index n = k \<and> nt_time n = wd_now env \<and>
     (ee_Key ee, n) \<in> set (drop (length (mo_notices st))
       (mo_notices (snd (snd (processExternalEndpointResult env mc ee r pushed st)))))"
proof -
  obtain err ee' st' where p: "processExternalEndpointResult env mc ee r pushed st = (err, ee', st')" by (metis prod_cases3)
  have same: "r' = r" if "applyRetries ee r False st = (r', st1)" for r' st1
    using applyRetries_failure [OF assms(2) that] assms(4) by auto
  from p show ?thesis
  proof (cases rule: processExternal_cases)
    case (failed r' st1 e s)
    with same assms(7,8) show ?thesis by auto
  next
    case (silent r' st1 s)
    with same assms(2,7) show ?thesis by (auto simp: is_failure_def)
  next
    case (alerted r' st1 s ep st2)
    then have r': "r' = r" using same assms(7) by simp
    obtain s' log where h: "HandleAlerting env (Some cfg) (ToEndpoint ee) r (mo_store st2) = (ep, s', log)"
      and log: "mo_notices st' = mo_notices st2 @ map (Pair (ee_Key ee)) log"
      using alerted(7,9) assms(5) by (auto simp: handle_alerting_def Let_def r' split: prod.splits)
    from external_failure_reminds [OF assms(1) _ assms(3,6) h] assms(2)
    obtain n where "n \<in> set log" "nt_kind n = Reminder" "nt_index n = k" "nt_time n = wd_now env"
      by (auto simp: is_failure_def)
    then show ?thesis using log alerted(6) by (intro exI [of _ n]) (simp add: p)
  qed
qed

definition failing_external :: external_endpoint where
  "failing_external = sample_external\<lparr>ee_alerts := [sample_alert\<lparr>triggered := True\<rparr>], ee_failures := 3,
     ee_heartbeat := \<lparr>hb_interval = minute, hb_retries = 0\<rparr>\<rparr>"

lemma external_reminders_ignore_interval_witness:
  "\<exists>n. nt_kind n = Reminder \<and> nt_index n = 0 \<and> nt_time n = wd_now (sample_env (memory_ops :: unit alert_store_ops) 7) \<and>
     (ee_Key failing_external, n) \<in> set (drop (length (mo_notices (empty_monitor ())))
       (mo_notices (snd (snd (processExternalEndpointResult (sample_env memory_ops 7)
          (sample_monitor_config (\<lambda>s ep r. (None, s))) failing_external sample_failure True (empty_monitor ()))))))"
proof (rule external_reminders_ignore_interval [where cfg = sample_alerting])
  show "alertingConfigFor (ee_Key failing_external) (mo_registry (empty_monitor ()))
      (mc_managed_alerting (sample_monitor_config (\<lambda>s ep r. (None, s))))
      (mc_alerting (sample_monitor_config (\<lambda>s ep r. (None, s)))) = Some sample_alerting"
    by (simp add: sample_monitor_config_def alertingConfigFor_def empty_monitor_def)
  show "reminding sample_alerting (ee_failures failing_external + 1) (ee_alerts failing_external ! 0)"
    by (simp add: reminding_def failing_external_def sample_alert_def alert_IsEnabled_def sample_alerting_def go_time)
  show "\<not> under_maintenance (sample_monitor_config (\<lambda>s ep r. (None, s)))
      (wd_now (sample_env memory_ops 7)) (ee_maintenance_windows failing_external)"
    by (simp add: under_maintenance_def isUnderMaintenanceWindow_def sample_monitor_config_def failing_external_def
        sample_external_def IsUnderMaintenance_def mw_GetDefaultConfig_def mw_IsEnabled_def)
qed (simp_all add: failing_external_def sample_monitor_config_def)

end
