(* ===== verification/MemoryStore.thy ===== *)
theory MemoryStore
  imports Endpoints "HOL-Library.Word" "HOL-Library.List_Lexorder"
begin

text \<open>
  The memory store (\<^verbatim>\<open>internal/storage/store/memory\<close>): the statuses of the endpoints and suites with
  their bounded results and events, the hourly uptime statistics, the buckets of the response time chart
  and the login sessions, with the types of \<^verbatim>\<open>config/endpoint/status.go\<close> and \<^verbatim>\<open>uptime.go\<close> and of
  \<^verbatim>\<open>store/common\<close>. A Go map that is counted, iterated or cleaned up is an association list with
  distinct keys; the caches (a third-party package) are such maps. The statistics are \<^verbatim>\<open>uint64\<close> and wrap
  around. A quotient \<^verbatim>\<open>float64(a)/float64(b)\<close> that is returned as it is stays the pair of \<open>a\<close> and
  \<open>b\<close>; rounded down to an integer, it is the integer quotient, which it equals for operands below
  \<open>2 ^ 53\<close>.
\<close>

section \<open>Model\<close>

subsection \<open>Statuses\<close>

record hourly_stats =
  TotalExecutions :: "64 word"
  SuccessfulExecutions :: "64 word"
  TotalExecutionsResponseTime :: "64 word"

type_synonym uptime = "(int \<times> hourly_stats) list"

record status =
  st_name :: string
  st_group :: string
  st_key :: string
  st_results :: "result list"
  st_events :: "event list"
  st_uptime :: uptime

definition NewStatus :: "string \<Rightarrow> string \<Rightarrow> status" where
  "NewStatus grp name =
     \<lparr>st_name = name, st_group = grp, st_key = ConvertGroupAndNameToKey grp name, st_results = [],
      st_events = [], st_uptime = []\<rparr>"

record 'sr suite_status =
  ss_name :: string
  ss_group :: string
  ss_key :: string
  ss_results :: "'sr list"

subsection \<open>Uptime\<close>

definition zero_stats :: hourly_stats where
  "zero_stats = \<lparr>TotalExecutions = 0, SuccessfulExecutions = 0, TotalExecutionsResponseTime = 0\<rparr>"

definition add_execution :: "result \<Rightarrow> hourly_stats \<Rightarrow> hourly_stats" where
  "add_execution r h =
     \<lparr>TotalExecutions = TotalExecutions h + 1,
      SuccessfulExecutions = (if Success r then SuccessfulExecutions h + 1 else SuccessfulExecutions h),
      TotalExecutionsResponseTime = TotalExecutionsResponseTime h + word_of_int (milliseconds (r_Duration r))\<rparr>"

definition uptimeCleanUpThreshold :: nat where
  "uptimeCleanUpThreshold = 32 * 24"

definition uptimeRetention :: duration where
  "uptimeRetention = 30 * 24 * hour"

definition processUptimeAfterResult :: "time \<Rightarrow> uptime \<Rightarrow> result \<Rightarrow> uptime" where
  "processUptimeAfterResult now up r =
     (let unixTimestampFlooredAtHour = unix_hour (Timestamp r);
          hourlyStats = (case map_of up unixTimestampFlooredAtHour of None \<Rightarrow> zero_stats | Some h \<Rightarrow> h);
          up = alist_put unixTimestampFlooredAtHour (add_execution r hourlyStats) up
      in if length up > uptimeCleanUpThreshold
         then (let sevenDaysAgo = unix (now - (uptimeRetention + hour))
               in filter (\<lambda>(hourlyUnixTimestamp, _). \<not> sevenDaysAgo > hourlyUnixTimestamp) up)
         else up)"

subsection \<open>Results and events\<close>

text \<open>\<open>lastHealthEventType\<close>: the loop from the last event backwards.\<close>

definition lastHealthEventType :: "event list \<Rightarrow> event_type option" where
  "lastHealthEventType events =
     map_option ev_type (find (\<lambda>e. ev_type e = EventHealthy \<or> ev_type e = EventUnhealthy) (rev events))"

definition AddResult :: "time \<Rightarrow> nat \<Rightarrow> nat \<Rightarrow> result \<Rightarrow> status \<Rightarrow> status" where
  "AddResult now maximumNumberOfResults maximumNumberOfEvents r ss =
     (let event = NewEventFromResult r;
          events = (if \<not> Pending r \<and> lastHealthEventType (st_events ss) \<noteq> Some (ev_type event)
                    then keep_last maximumNumberOfEvents (st_events ss @ [event]) else st_events ss)
      in ss\<lparr>st_events := events,
            st_results := keep_last maximumNumberOfResults (st_results ss @ [r]),
            st_uptime := processUptimeAfterResult now (st_uptime ss) r\<rparr>)"

subsection \<open>Paging\<close>

record endpoint_status_params =
  EventsPage :: int
  EventsPageSize :: int
  ResultsPage :: int
  ResultsPageSize :: int

record suite_status_params =
  suite_Page :: int
  suite_PageSize :: int

definition NewEndpointStatusParams :: endpoint_status_params where
  "NewEndpointStatusParams = \<lparr>EventsPage = 0, EventsPageSize = 0, ResultsPage = 0, ResultsPageSize = 0\<rparr>"

definition WithEvents :: "int \<Rightarrow> int \<Rightarrow> endpoint_status_params \<Rightarrow> endpoint_status_params" where
  "WithEvents page pageSize params = params\<lparr>EventsPage := page, EventsPageSize := pageSize\<rparr>"

definition WithResults :: "int \<Rightarrow> int \<Rightarrow> endpoint_status_params \<Rightarrow> endpoint_status_params" where
  "WithResults page pageSize params = params\<lparr>ResultsPage := page, ResultsPageSize := pageSize\<rparr>"

definition NewSuiteStatusParams :: suite_status_params where
  "NewSuiteStatusParams = \<lparr>suite_Page = 1, suite_PageSize = 20\<rparr>"

definition WithPagination :: "int \<Rightarrow> int \<Rightarrow> suite_status_params \<Rightarrow> suite_status_params" where
  "WithPagination page pageSize params = params\<lparr>suite_Page := page, suite_PageSize := pageSize\<rparr>"

definition getStartAndEndIndex :: "int \<Rightarrow> int \<Rightarrow> int \<Rightarrow> int \<times> int" where
  "getStartAndEndIndex numberOfResults page pageSize =
     (if page < 1 \<or> pageSize < 0 then (-1, -1)
      else
        (let start = wrap64 (numberOfResults - wrap64 (page * pageSize));
             end' = wrap64 (numberOfResults - wrap64 ((page - 1) * pageSize))
         in (if start > numberOfResults then -1 else if start < 0 then 0 else start,
             if end' > numberOfResults then numberOfResults else end')))"

text \<open>A slice expression \<^verbatim>\<open>s[i:j]\<close>, with the panic of bad bounds as \<open>None\<close>.\<close>

definition go_slice :: "'a list \<Rightarrow> int \<Rightarrow> int \<Rightarrow> 'a list option" where
  "go_slice xs i j =
     (if 0 \<le> i \<and> i \<le> j \<and> j \<le> int (length xs) then Some (take (nat (j - i)) (drop (nat i) xs)) else None)"

definition page_of :: "'a list \<Rightarrow> int \<Rightarrow> int \<Rightarrow> 'a list option" where
  "page_of xs page pageSize =
     (let (start, end') = getStartAndEndIndex (int (length xs)) page pageSize
      in if start < 0 \<or> end' < 0 then Some [] else go_slice xs start end')"

text \<open>The copies: \<open>None\<close> would be a panic. The parameters are the pointer \<open>params\<close>.\<close>

definition ShallowCopyEndpointStatus :: "status \<Rightarrow> endpoint_status_params option \<Rightarrow> status option" where
  "ShallowCopyEndpointStatus ss params =
     (let copy = ss\<lparr>st_uptime := []\<rparr>
      in case params of
           None \<Rightarrow> Some copy
         | Some p \<Rightarrow>
             (if ResultsPage p = 0 \<and> ResultsPageSize p = 0 \<and> EventsPage p = 0 \<and> EventsPageSize p = 0
              then Some copy
              else Option.bind (page_of (st_results ss) (ResultsPage p) (ResultsPageSize p)) (\<lambda>results.
                   Option.bind (page_of (st_events ss) (EventsPage p) (EventsPageSize p)) (\<lambda>events.
                     Some (copy\<lparr>st_results := results, st_events := events\<rparr>)))))"

definition ShallowCopySuiteStatus :: "'sr suite_status \<Rightarrow> suite_status_params option \<Rightarrow> 'sr suite_status option" where
  "ShallowCopySuiteStatus ss params =
     (case params of
        None \<Rightarrow> Some ss
      | Some p \<Rightarrow>
          (if suite_Page p = 0 \<and> suite_PageSize p = 0 then Some ss
           else map_option (\<lambda>results. ss\<lparr>ss_results := results\<rparr>)
                  (page_of (ss_results ss) (suite_Page p) (suite_PageSize p))))"

subsection \<open>Buckets of the response time chart\<close>

record response_time_bucket =
  rb_timestamp :: int
  rb_up :: int
  rb_down :: int
  rb_pending :: int
  rb_timed_up :: int
  rb_total_ms :: int
  rb_min_ms :: "int option"
  rb_max_ms :: "int option"

definition empty_bucket :: "int \<Rightarrow> response_time_bucket" where
  "empty_bucket t =
     \<lparr>rb_timestamp = t, rb_up = 0, rb_down = 0, rb_pending = 0, rb_timed_up = 0, rb_total_ms = 0,
      rb_min_ms = None, rb_max_ms = None\<rparr>"

definition MinuteBucketSeconds :: int where "MinuteBucketSeconds = 60"
definition HourBucketSeconds :: int where "HourBucketSeconds = 3600"
definition MinuteBucketRetention :: duration where "MinuteBucketRetention = 24 * hour"
definition HourBucketRetention :: duration where "HourBucketRetention = 7 * 24 * hour"
definition ResponseTimeBucketCleanUpInterval :: duration where "ResponseTimeBucketCleanUpInterval = hour"

definition ResponseTimeBucketTimestamp :: "time \<Rightarrow> int \<Rightarrow> int" where
  "ResponseTimeBucketTimestamp t bucketSeconds =
     unix (t div (bucketSeconds * second) * (bucketSeconds * second))"

definition NewResponseTimeBucket :: "result \<Rightarrow> int \<Rightarrow> response_time_bucket" where
  "NewResponseTimeBucket r bucketSeconds =
     (let bucket = empty_bucket (ResponseTimeBucketTimestamp (Timestamp r) bucketSeconds);
          ms = milliseconds (r_Duration r)
      in if Pending r then bucket\<lparr>rb_pending := 1\<rparr>
         else if Success r
         then (if ms > 0
               then bucket\<lparr>rb_up := 1, rb_timed_up := 1, rb_total_ms := ms, rb_min_ms := Some ms, rb_max_ms := Some ms\<rparr>
               else bucket\<lparr>rb_up := 1\<rparr>)
         else bucket\<lparr>rb_down := 1\<rparr>)"

definition bucket_Add :: "response_time_bucket \<Rightarrow> response_time_bucket \<Rightarrow> response_time_bucket" where
  "bucket_Add other b =
     \<lparr>rb_timestamp = rb_timestamp b, rb_up = rb_up b + rb_up other, rb_down = rb_down b + rb_down other,
      rb_pending = rb_pending b + rb_pending other, rb_timed_up = rb_timed_up b + rb_timed_up other,
      rb_total_ms = rb_total_ms b + rb_total_ms other,
      rb_min_ms = (case rb_min_ms other of
          None \<Rightarrow> rb_min_ms b
        | Some m \<Rightarrow> (case rb_min_ms b of None \<Rightarrow> Some m | Some n \<Rightarrow> if m < n then Some m else Some n)),
      rb_max_ms = (case rb_max_ms other of
          None \<Rightarrow> rb_max_ms b
        | Some m \<Rightarrow> (case rb_max_ms b of None \<Rightarrow> Some m | Some n \<Rightarrow> if m > n then Some m else Some n))\<rparr>"

type_synonym buckets = "((int \<times> int) \<times> response_time_bucket) list"

definition add_to_bucket :: "result \<Rightarrow> int \<Rightarrow> buckets \<Rightarrow> buckets" where
  "add_to_bucket r bucketSeconds bs =
     (let added = NewResponseTimeBucket r bucketSeconds; bucketKey = (bucketSeconds, rb_timestamp added)
      in alist_put bucketKey
           (case map_of bs bucketKey of Some b \<Rightarrow> bucket_Add added b | None \<Rightarrow> added) bs)"

definition clean_up_buckets :: "time \<Rightarrow> buckets \<Rightarrow> buckets" where
  "clean_up_buckets now bs =
     (let minuteThreshold = unix (now - (MinuteBucketRetention + hour));
          hourThreshold = unix (now - (HourBucketRetention + hour))
      in filter (\<lambda>((seconds, timestamp), _).
           \<not> (seconds = MinuteBucketSeconds \<and> timestamp < minuteThreshold \<or>
              seconds = HourBucketSeconds \<and> timestamp < hourThreshold)) bs)"

subsection \<open>The store\<close>

record login_session =
  ls_token_hash :: string
  ls_username :: string
  ls_fingerprint :: string
  ls_created_at :: time
  ls_expires_at :: time

record 'sr memory_store =
  ms_endpoints :: "(string \<times> status) list"
  ms_suites :: "(string \<times> 'sr suite_status) list"
  maximumNumberOfResults :: nat
  maximumNumberOfEvents :: nat
  ms_login_sessions :: "(string \<times> login_session) list"
  ms_buckets :: "(string \<times> buckets) list"
  ms_clean_ups :: "(string \<times> time) list"

definition NewStore :: "nat \<Rightarrow> nat \<Rightarrow> 'sr memory_store" where
  "NewStore results events =
     \<lparr>ms_endpoints = [], ms_suites = [], maximumNumberOfResults = results, maximumNumberOfEvents = events,
      ms_login_sessions = [], ms_buckets = [], ms_clean_ups = []\<rparr>"

datatype read_error = ErrEndpointNotFound | ErrSuiteNotFound | ErrInvalidTimeRange | SlicePanic

definition addResponseTimeBuckets :: "time \<Rightarrow> string \<Rightarrow> result \<Rightarrow> 'sr memory_store \<Rightarrow> 'sr memory_store" where
  "addResponseTimeBuckets now key r s =
     (let bs = (case map_of (ms_buckets s) key of None \<Rightarrow> [] | Some bs \<Rightarrow> bs);
          bs = add_to_bucket r HourBucketSeconds (add_to_bucket r MinuteBucketSeconds bs);
          recent = (case map_of (ms_clean_ups s) key of
              None \<Rightarrow> False
            | Some lastCleanUp \<Rightarrow>
                time_sub now lastCleanUp < ResponseTimeBucketCleanUpInterval \<and> \<not> now < lastCleanUp)
      in if recent then s\<lparr>ms_buckets := alist_put key bs (ms_buckets s)\<rparr>
         else s\<lparr>ms_buckets := alist_put key (clean_up_buckets now bs) (ms_buckets s),
                ms_clean_ups := alist_put key now (ms_clean_ups s)\<rparr>)"

definition memory_InsertEndpointResult :: "time \<Rightarrow> endpoint \<Rightarrow> result \<Rightarrow> 'sr memory_store \<Rightarrow> 'sr memory_store" where
  "memory_InsertEndpointResult now ep r s =
     (let endpointKey = ep_Key ep;
          status = (case map_of (ms_endpoints s) endpointKey of
              Some status \<Rightarrow> status
            | None \<Rightarrow> (NewStatus (ep_group ep) (ep_name ep))
                \<lparr>st_events := [\<lparr>ev_type = EventStart, ev_timestamp = now\<rparr>]\<rparr>);
          status = AddResult now (maximumNumberOfResults s) (maximumNumberOfEvents s) r status
      in addResponseTimeBuckets now endpointKey r (s\<lparr>ms_endpoints := alist_put endpointKey status (ms_endpoints s)\<rparr>))"

definition memory_InsertSuiteResult :: "string \<Rightarrow> string \<Rightarrow> 'sr \<Rightarrow> 'sr memory_store \<Rightarrow> 'sr memory_store" where
  "memory_InsertSuiteResult name grp r s =
     (let suiteKey = ConvertGroupAndNameToKey grp name;
          status = (case map_of (ms_suites s) suiteKey of
              Some status \<Rightarrow> status
            | None \<Rightarrow> \<lparr>ss_name = name, ss_group = grp, ss_key = suiteKey, ss_results = []\<rparr>)
      in s\<lparr>ms_suites := alist_put suiteKey
             (status\<lparr>ss_results := keep_last (maximumNumberOfResults s) (ss_results status @ [r])\<rparr>) (ms_suites s)\<rparr>)"

text \<open>The reads that copy statuses: \<open>SlicePanic\<close> stands for a slice with bad bounds.\<close>

definition GetEndpointStatusByKey ::
    "string \<Rightarrow> endpoint_status_params option \<Rightarrow> 'sr memory_store \<Rightarrow> read_error + status" where
  "GetEndpointStatusByKey key params s =
     (case map_of (ms_endpoints s) key of
        None \<Rightarrow> Inl ErrEndpointNotFound
      | Some status \<Rightarrow>
          (case ShallowCopyEndpointStatus status params of None \<Rightarrow> Inl SlicePanic | Some c \<Rightarrow> Inr c))"

definition GetEndpointStatus ::
    "string \<Rightarrow> string \<Rightarrow> endpoint_status_params option \<Rightarrow> 'sr memory_store \<Rightarrow> read_error + status" where
  "GetEndpointStatus groupName endpointName params s =
     GetEndpointStatusByKey (ConvertGroupAndNameToKey groupName endpointName) params s"

definition GetSuiteStatusByKey ::
    "string \<Rightarrow> suite_status_params option \<Rightarrow> 'sr memory_store \<Rightarrow> read_error + 'sr suite_status" where
  "GetSuiteStatusByKey key params s =
     (case map_of (ms_suites s) key of
        None \<Rightarrow> Inl ErrSuiteNotFound
      | Some status \<Rightarrow>
          (case ShallowCopySuiteStatus status params of None \<Rightarrow> Inl SlicePanic | Some c \<Rightarrow> Inr c))"

definition GetAllEndpointStatuses :: "endpoint_status_params option \<Rightarrow> 'sr memory_store \<Rightarrow> read_error + status list" where
  "GetAllEndpointStatuses params s =
     (let copies = map (\<lambda>(_, status). ShallowCopyEndpointStatus status params) (ms_endpoints s)
      in if None \<in> set copies then Inl SlicePanic else Inr (sort_key st_key (map the copies)))"

definition GetAllSuiteStatuses ::
    "suite_status_params option \<Rightarrow> 'sr memory_store \<Rightarrow> read_error + 'sr suite_status list" where
  "GetAllSuiteStatuses params s =
     (let copies = map (\<lambda>(_, status). ShallowCopySuiteStatus status params) (ms_suites s)
      in if None \<in> set copies then Inl SlicePanic else Inr (sort_key ss_key (map the copies)))"

definition HasEndpointStatusNewerThan :: "string \<Rightarrow> time \<Rightarrow> 'sr memory_store \<Rightarrow> bool" where
  "HasEndpointStatusNewerThan key timestamp s =
     (case map_of (ms_endpoints s) key of
        None \<Rightarrow> False
      | Some status \<Rightarrow> list_ex (\<lambda>r. Timestamp r > timestamp) (st_results status))"

definition forgetResponseTimeBuckets :: "string list \<Rightarrow> 'sr memory_store \<Rightarrow> 'sr memory_store" where
  "forgetResponseTimeBuckets keys s =
     s\<lparr>ms_clean_ups := filter (\<lambda>(k, _). k \<in> set keys \<or> k \<notin> fst ` set (ms_buckets s)) (ms_clean_ups s),
       ms_buckets := filter (\<lambda>(k, _). k \<in> set keys) (ms_buckets s)\<rparr>"

definition DeleteAllEndpointStatusesNotInKeys :: "string list \<Rightarrow> 'sr memory_store \<Rightarrow> nat \<times> 'sr memory_store" where
  "DeleteAllEndpointStatusesNotInKeys keys s =
     (let kept = filter (\<lambda>(k, _). k \<in> set keys) (ms_endpoints s)
      in (length (ms_endpoints s) - length kept, (forgetResponseTimeBuckets keys s)\<lparr>ms_endpoints := kept\<rparr>))"

definition DeleteAllSuiteStatusesNotInKeys :: "string list \<Rightarrow> 'sr memory_store \<Rightarrow> nat \<times> 'sr memory_store" where
  "DeleteAllSuiteStatusesNotInKeys keys s =
     (let kept = filter (\<lambda>(k, _). k \<in> set keys) (ms_suites s)
      in (length (ms_suites s) - length kept, s\<lparr>ms_suites := kept\<rparr>))"

definition memory_Clear :: "'sr memory_store \<Rightarrow> 'sr memory_store" where
  "memory_Clear s = s\<lparr>ms_endpoints := [], ms_suites := [], ms_buckets := [], ms_clean_ups := []\<rparr>"

subsection \<open>Uptimes and response times\<close>

text \<open>The loop \<^verbatim>\<open>for to.Sub(current) >= 0\<close>: the totals of successes, executions and response times.\<close>

function sum_hours :: "uptime \<Rightarrow> time \<Rightarrow> time \<Rightarrow> 64 word \<times> 64 word \<times> 64 word \<Rightarrow> 64 word \<times> 64 word \<times> 64 word" where
  "sum_hours up current to' (successful, executions, responseTime) =
     (if time_sub to' current < 0 then (successful, executions, responseTime)
      else sum_hours up (current + hour) to'
        (case map_of up (unix_hour current) of
           None \<Rightarrow> (successful, executions, responseTime)
         | Some h \<Rightarrow>
             (if TotalExecutions h = 0 then (successful, executions, responseTime)
              else (successful + SuccessfulExecutions h, executions + TotalExecutions h,
                    responseTime + TotalExecutionsResponseTime h))))"
  by pat_completeness auto
termination
  by (relation "measure (\<lambda>(_, current, to', _). nat (to' - current + hour))")
    (auto simp: time_sub_def go_time)

declare sum_hours.simps [simp del]

text \<open>The uptime is the pair of the successful and of all executions, or 0 without executions (\<open>None\<close>).\<close>

definition GetUptimeByKey ::
    "string \<Rightarrow> time \<Rightarrow> time \<Rightarrow> 'sr memory_store \<Rightarrow> read_error + (64 word \<times> 64 word) option" where
  "GetUptimeByKey key from to' s =
     (if from > to' then Inl ErrInvalidTimeRange
      else (case map_of (ms_endpoints s) key of
              None \<Rightarrow> Inl ErrEndpointNotFound
            | Some status \<Rightarrow>
                (let (successful, executions, _) = sum_hours (st_uptime status) from to' (0, 0, 0)
                 in if executions = 0 then Inr None else Inr (Some (successful, executions)))))"

definition GetAverageResponseTimeByKey ::
    "string \<Rightarrow> time \<Rightarrow> time \<Rightarrow> 'sr memory_store \<Rightarrow> read_error + int" where
  "GetAverageResponseTimeByKey key from to' s =
     (if from > to' then Inl ErrInvalidTimeRange
      else (case map_of (ms_endpoints s) key of
              None \<Rightarrow> Inl ErrEndpointNotFound
            | Some status \<Rightarrow>
                (let (_, executions, responseTime) = sum_hours (st_uptime status) from to' (0, 0, 0)
                 in if executions = 0 then Inr 0 else Inr (uint responseTime div uint executions))))"

function hourly_averages :: "uptime \<Rightarrow> time \<Rightarrow> time \<Rightarrow> (int \<times> int) list" where
  "hourly_averages up current to' =
     (if time_sub to' current < 0 then []
      else
        (case map_of up (unix_hour current) of
           None \<Rightarrow> []
         | Some h \<Rightarrow>
             (if TotalExecutions h = 0 then []
              else [(unix_hour current, uint (TotalExecutionsResponseTime h) div uint (TotalExecutions h))])) @
        hourly_averages up (current + hour) to')"
  by pat_completeness auto
termination
  by (relation "measure (\<lambda>(_, current, to'). nat (to' - current + hour))") (auto simp: time_sub_def go_time)

declare hourly_averages.simps [simp del]

definition GetHourlyAverageResponseTimeByKey ::
    "string \<Rightarrow> time \<Rightarrow> time \<Rightarrow> 'sr memory_store \<Rightarrow> read_error + (int \<times> int) list" where
  "GetHourlyAverageResponseTimeByKey key from to' s =
     (if from > to' then Inl ErrInvalidTimeRange
      else (case map_of (ms_endpoints s) key of
              None \<Rightarrow> Inl ErrEndpointNotFound
            | Some status \<Rightarrow> Inr (hourly_averages (st_uptime status) from to')))"

text \<open>
  The batch reads of \<^verbatim>\<open>endpoint_uptime_batch.go\<close>: one pass over the hourly statistics for the three
  periods. \<open>period_totals\<close> are the totals of one period.
\<close>

definition period_totals :: "uptime \<Rightarrow> int \<Rightarrow> int \<Rightarrow> 64 word \<times> 64 word \<times> 64 word" where
  "period_totals up periodStart end' =
     fold (\<lambda>(h, stats) (successful, executions, responseTime).
         if h > end' \<or> h < periodStart then (successful, executions, responseTime)
         else (successful + SuccessfulExecutions stats, executions + TotalExecutions stats,
               responseTime + TotalExecutionsResponseTime stats))
       up (0, 0, 0)"

record endpoint_uptimes =
  Last24Hours :: "(64 word \<times> 64 word) option"
  Last7Days :: "(64 word \<times> 64 word) option"
  Last30Days :: "(64 word \<times> 64 word) option"
  AverageResponseTime24Hours :: "int option"
  AverageResponseTime7Days :: "int option"
  AverageResponseTime30Days :: "int option"

definition no_uptimes :: endpoint_uptimes where
  "no_uptimes =
     \<lparr>Last24Hours = None, Last7Days = None, Last30Days = None, AverageResponseTime24Hours = None,
      AverageResponseTime7Days = None, AverageResponseTime30Days = None\<rparr>"

definition uptimeRatio :: "64 word \<Rightarrow> 64 word \<Rightarrow> (64 word \<times> 64 word) option" where
  "uptimeRatio successful executions = (if executions = 0 then None else Some (successful, executions))"

definition averageResponseTime :: "64 word \<Rightarrow> 64 word \<Rightarrow> int option" where
  "averageResponseTime totalResponseTime executions =
     (if executions = 0 then None else Some (sint (totalResponseTime div executions)))"

definition uptimesOf :: "uptime \<Rightarrow> time \<Rightarrow> endpoint_uptimes option" where
  "uptimesOf up now =
     (let totals = (\<lambda>hours. period_totals up (unix_hour (now - hours * hour)) (unix now));
          (successful24, total24, response24) = totals 24;
          (successful7, total7, response7) = totals (7 * 24);
          (successful30, total30, response30) = totals (30 * 24)
      in if total30 = 0 then None
         else Some \<lparr>Last24Hours = uptimeRatio successful24 total24, Last7Days = uptimeRatio successful7 total7,
                    Last30Days = uptimeRatio successful30 total30,
                    AverageResponseTime24Hours = averageResponseTime response24 total24,
                    AverageResponseTime7Days = averageResponseTime response7 total7,
                    AverageResponseTime30Days = averageResponseTime response30 total30\<rparr>)"

definition GetUptimesByKeys :: "string list \<Rightarrow> time \<Rightarrow> 'sr memory_store \<Rightarrow> string \<Rightarrow> endpoint_uptimes option" where
  "GetUptimesByKeys keys now s key =
     (if key \<in> set keys
      then Option.bind (map_of (ms_endpoints s) key) (\<lambda>status. uptimesOf (st_uptime status) now)
      else None)"

record result_summary =
  rs_timestamp :: time
  rs_success :: bool
  rs_duration :: duration
  rs_certificate_expiration :: duration
  rs_pending :: bool
  rs_connected :: bool
  rs_message :: string
  rs_origin :: string
  rs_http_status :: int
  rs_errors :: "string list"

definition summary_of :: "result \<Rightarrow> result_summary" where
  "summary_of r =
     \<lparr>rs_timestamp = Timestamp r, rs_success = Success r, rs_duration = r_Duration r,
      rs_certificate_expiration = CertificateExpiration r, rs_pending = Pending r, rs_connected = Connected r,
      rs_message = Message r, rs_origin = Origin r, rs_http_status = HTTPStatus r, rs_errors = Errors r\<rparr>"

definition GetEndpointSummaries ::
    "string list \<Rightarrow> int \<Rightarrow> time \<Rightarrow> 'sr memory_store \<Rightarrow> string \<Rightarrow> (result_summary list \<times> endpoint_uptimes) option" where
  "GetEndpointSummaries keys maximumResults now s key =
     (if key \<in> set keys
      then map_option (\<lambda>status.
             (map summary_of (if maximumResults \<le> 0 then [] else keep_last (nat maximumResults) (st_results status)),
              (case uptimesOf (st_uptime status) now of None \<Rightarrow> no_uptimes | Some u \<Rightarrow> u)))
           (map_of (ms_endpoints s) key)
      else None)"

text \<open>The reads of the buckets; the copy of a bucket is added to an empty one, as the code does.\<close>

definition GetResponseTimeBuckets :: "string \<Rightarrow> int \<Rightarrow> time \<Rightarrow> time \<Rightarrow> 'sr memory_store \<Rightarrow> response_time_bucket list" where
  "GetResponseTimeBuckets key bucketSeconds from to' s =
     sort_key rb_timestamp
       (map (\<lambda>(_, b). (bucket_Add b (empty_bucket 0))\<lparr>rb_timestamp := rb_timestamp b\<rparr>)
         (filter (\<lambda>((seconds, timestamp), _).
             \<not> (seconds \<noteq> bucketSeconds \<or> timestamp < unix from \<or> timestamp > unix to'))
           (case map_of (ms_buckets s) key of None \<Rightarrow> [] | Some bs \<Rightarrow> bs)))"

record recent_result =
  rr_timestamp :: time
  rr_success :: bool
  rr_pending :: bool
  rr_duration :: duration

definition GetRecentResponseTimeResults :: "string \<Rightarrow> int \<Rightarrow> 'sr memory_store \<Rightarrow> recent_result list" where
  "GetRecentResponseTimeResults key limit s =
     (case map_of (ms_endpoints s) key of
        None \<Rightarrow> []
      | Some status \<Rightarrow>
          (if limit \<le> 0 then []
           else sort_key rr_timestamp
             (map (\<lambda>r. \<lparr>rr_timestamp = Timestamp r, rr_success = Success r, rr_pending = Pending r, rr_duration = r_Duration r\<rparr>)
               (keep_last (nat limit) (st_results status)))))"

subsection \<open>Login sessions\<close>

datatype session_error = ErrLoginSessionNotFound

definition CreateLoginSession :: "login_session \<Rightarrow> 'sr memory_store \<Rightarrow> 'sr memory_store" where
  "CreateLoginSession session s =
     s\<lparr>ms_login_sessions := alist_put (ls_token_hash session) session (ms_login_sessions s)\<rparr>"

definition GetLoginSession :: "string \<Rightarrow> 'sr memory_store \<Rightarrow> session_error + login_session" where
  "GetLoginSession tokenHash s =
     (case map_of (ms_login_sessions s) tokenHash of None \<Rightarrow> Inl ErrLoginSessionNotFound | Some x \<Rightarrow> Inr x)"

definition DeleteLoginSession :: "string \<Rightarrow> 'sr memory_store \<Rightarrow> 'sr memory_store" where
  "DeleteLoginSession tokenHash s = s\<lparr>ms_login_sessions := alist_del tokenHash (ms_login_sessions s)\<rparr>"

definition DeleteExpiredLoginSessions :: "time \<Rightarrow> 'sr memory_store \<Rightarrow> nat \<times> 'sr memory_store" where
  "DeleteExpiredLoginSessions now s =
     (let kept = filter (\<lambda>(_, session). now < ls_expires_at session) (ms_login_sessions s)
      in (length (ms_login_sessions s) - length kept, s\<lparr>ms_login_sessions := kept\<rparr>))"

end
