(* ===== verification/MemoryFacts.thy ===== *)
theory MemoryFacts
  imports MemoryStore
begin

text \<open>
  Facts about the memory store: the bounds of the results and events and the alternation of the health
  events, the hourly statistics and the equivalence of the two ways of summing them up, the paging, the
  buckets of the response time chart, and the invariant of the whole store.
\<close>

section \<open>Events\<close>

definition health_types :: "event list \<Rightarrow> event_type list" where
  "health_types events = filter (\<lambda>t. t \<noteq> EventStart) (map ev_type events)"

lemma health_types_append [simp]: "health_types (a @ b) = health_types a @ health_types b"
  by (simp add: health_types_def)

lemma find_rev: "find P (rev xs) = (if filter P xs = [] then None else Some (last (filter P xs)))"
proof (induction xs rule: rev_induct)
  case (snoc x xs)
  show ?case
  proof (cases "P x")
    case True
    then show ?thesis by simp
  next
    case False
    then show ?thesis using snoc by simp
  qed
qed simp

lemma lastHealthEventType_alt:
  "lastHealthEventType events = (if health_types events = [] then None else Some (last (health_types events)))"
proof -
  have types: "(\<lambda>t. t \<noteq> EventStart) \<circ> ev_type = (\<lambda>e. ev_type e = EventHealthy \<or> ev_type e = EventUnhealthy)"
    by (auto simp: fun_eq_iff) (metis event_type.exhaust)
  have "health_types events = map ev_type (filter (\<lambda>e. ev_type e = EventHealthy \<or> ev_type e = EventUnhealthy) events)"
    unfolding health_types_def filter_map types by (rule refl)
  then show ?thesis by (simp add: lastHealthEventType_def find_rev last_map)
qed

lemma successively_drop: "successively P xs \<Longrightarrow> successively P (drop n xs)"
  by (metis append_take_drop_id successively_append_iff)

lemma keep_last_split: obtains ys where "xs = ys @ keep_last n xs"
proof (cases "length xs > n")
  case True
  then show ?thesis using that [of "take (length xs - n) xs"] by (simp add: keep_last_def)
next
  case False
  then show ?thesis using that [of "[]"] by (simp add: keep_last_def)
qed

lemma health_types_keep_last:
  assumes "successively (\<noteq>) (health_types es)"
  shows "successively (\<noteq>) (health_types (keep_last n es))"
proof -
  obtain ys where "es = ys @ keep_last n es" by (rule keep_last_split)
  then have "health_types es = health_types ys @ health_types (keep_last n es)"
    by (metis health_types_append)
  with assms show ?thesis by (simp add: successively_append_iff)
qed

lemma last_health_keep_last:
  assumes "0 < n"
  shows "lastHealthEventType (keep_last n (es @ [e])) = (if ev_type e = EventStart
     then lastHealthEventType (keep_last n (es @ [e])) else Some (ev_type e))"
proof (cases "ev_type e = EventStart")
  case False
  obtain ys where ys: "es @ [e] = ys @ keep_last n (es @ [e])" by (rule keep_last_split)
  have "keep_last n (es @ [e]) \<noteq> []" using assms by (simp add: keep_last_ne)
  then obtain zs z where zs: "keep_last n (es @ [e]) = zs @ [z]" by (cases "keep_last n (es @ [e])" rule: rev_cases) auto
  with ys have "z = e" by (metis append_assoc last_snoc)
  with zs False show ?thesis by (simp add: lastHealthEventType_alt health_types_def)
qed simp

section \<open>The status of an endpoint\<close>

text \<open>
  The invariant of a status: bounded results and events, health events that alternate and end with the
  health of the latest result that is not pending; distinct hours, on the hour, with at most as many
  entries as the clean up threshold plus one.
\<close>

definition health_of :: "result \<Rightarrow> event_type" where
  "health_of r = (if Success r then EventHealthy else EventUnhealthy)"

definition uptime_inv :: "uptime \<Rightarrow> bool" where
  "uptime_inv up \<longleftrightarrow> distinct (map fst up) \<and> (\<forall>h \<in> fst ` set up. h mod 3600 = 0)"

definition status_inv :: "nat \<Rightarrow> nat \<Rightarrow> status \<Rightarrow> bool" where
  "status_inv maxResults maxEvents ss \<longleftrightarrow>
     length (st_results ss) \<le> maxResults \<and> length (st_events ss) \<le> maxEvents \<and>
     successively (\<noteq>) (health_types (st_events ss)) \<and>
     (let settled = filter (\<lambda>r. \<not> Pending r) (st_results ss)
      in settled \<noteq> [] \<longrightarrow> lastHealthEventType (st_events ss) = Some (health_of (last settled))) \<and>
     uptime_inv (st_uptime ss)"

lemma unix_hour_mod [simp]: "unix_hour t mod 3600 = 0"
  by (simp add: unix_hour_alt)

lemma uptime_inv_process: "uptime_inv up \<Longrightarrow> uptime_inv (processUptimeAfterResult now up r)"
proof -
  assume inv: "uptime_inv up"
  have put: "uptime_inv (alist_put (unix_hour t) h up)" for t h
    using inv by (simp add: uptime_inv_def)
  have filt: "uptime_inv us \<Longrightarrow> uptime_inv (filter P us)" for us P
    by (auto simp: uptime_inv_def)
  show ?thesis
    unfolding processUptimeAfterResult_def Let_def by (auto intro!: filt put)
qed

lemma settled_keep_last:
  assumes "filter P (keep_last n xs) \<noteq> []"
  shows "filter P xs \<noteq> [] \<and> last (filter P (keep_last n xs)) = last (filter P xs)"
proof -
  obtain ys where "xs = ys @ keep_last n xs" by (rule keep_last_split)
  then have "filter P xs = filter P ys @ filter P (keep_last n xs)"
    by (metis filter_append)
  with assms show ?thesis by simp
qed

lemma AddResult_inv:
  assumes inv: "status_inv maxResults maxEvents ss" and "0 < maxEvents"
  shows "status_inv maxResults maxEvents (AddResult now maxResults maxEvents r ss)"
proof -
  define events where "events = st_events (AddResult now maxResults maxEvents r ss)"
  have events: "events = (if \<not> Pending r \<and> lastHealthEventType (st_events ss) \<noteq> Some (health_of r)
      then keep_last maxEvents (st_events ss @ [NewEventFromResult r]) else st_events ss)"
    by (auto simp: events_def AddResult_def NewEventFromResult_def health_of_def)
  have type: "ev_type (NewEventFromResult r) = health_of r" "health_of r \<noteq> EventStart"
    by (simp_all add: NewEventFromResult_def health_of_def)
  have len: "length events \<le> maxEvents"
    using inv by (simp add: events status_inv_def length_keep_last)
  have alt: "successively (\<noteq>) (health_types events)"
  proof (cases "\<not> Pending r \<and> lastHealthEventType (st_events ss) \<noteq> Some (health_of r)")
    case True
    have "successively (\<noteq>) (health_types (st_events ss @ [NewEventFromResult r]))"
      using inv True type
      by (auto simp: status_inv_def successively_append_iff lastHealthEventType_alt health_types_def)
    then show ?thesis using True by (simp add: events health_types_keep_last)
  qed (use inv in \<open>auto simp: events status_inv_def\<close>)
  have own: "\<not> Pending r \<Longrightarrow> lastHealthEventType events = Some (health_of r)"
    using last_health_keep_last [OF assms(2), of "st_events ss" "NewEventFromResult r"] type
    by (simp add: events)
  have "lastHealthEventType events = Some (health_of (last settled))"
    if "settled = filter (\<lambda>r. \<not> Pending r) (keep_last maxResults (st_results ss @ [r]))" and "settled \<noteq> []" for settled
  proof -
    have l: "filter (\<lambda>r. \<not> Pending r) (st_results ss @ [r]) \<noteq> []"
      "last settled = last (filter (\<lambda>r. \<not> Pending r) (st_results ss @ [r]))"
      using settled_keep_last [of "\<lambda>r. \<not> Pending r" maxResults "st_results ss @ [r]"] that by auto
    show ?thesis
    proof (cases "Pending r")
      case True
      with l inv show ?thesis by (auto simp: events status_inv_def Let_def)
    next
      case False
      with l own show ?thesis by simp
    qed
  qed
  with inv len alt show ?thesis
    by (simp add: status_inv_def events_def [symmetric] Let_def)
      (simp add: AddResult_def Let_def length_keep_last uptime_inv_process)
qed

section \<open>Uptimes\<close>

text \<open>The value of a statistic at an hour, 0 for an hour without entry.\<close>

definition stat_at :: "(hourly_stats \<Rightarrow> 64 word) \<Rightarrow> uptime \<Rightarrow> int \<Rightarrow> 64 word" where
  "stat_at f up h = (case map_of up h of None \<Rightarrow> 0 | Some st \<Rightarrow> f st)"

definition stat_sum :: "(hourly_stats \<Rightarrow> 64 word) \<Rightarrow> uptime \<Rightarrow> int set \<Rightarrow> 64 word" where
  "stat_sum f up hs = (\<Sum>h \<in> hs. stat_at f up h)"

definition totals :: "uptime \<Rightarrow> int set \<Rightarrow> 64 word \<times> 64 word \<times> 64 word" where
  "totals up hs = (stat_sum SuccessfulExecutions up hs, stat_sum TotalExecutions up hs,
     stat_sum TotalExecutionsResponseTime up hs)"

text \<open>No entry has a count of 0, which a count of \<open>uint64\<close> only reaches again after \<open>2 ^ 64\<close> results.\<close>

definition counted :: "uptime \<Rightarrow> bool" where
  "counted up \<longleftrightarrow> (\<forall>h st. map_of up h = Some st \<longrightarrow> TotalExecutions st \<noteq> 0)"

text \<open>The hours of a period of \<open>n\<close> hours that starts with the hour \<open>h\<close>.\<close>

definition hours_from :: "int \<Rightarrow> nat \<Rightarrow> int set" where
  "hours_from h n = (\<lambda>k. h + 3600 * int k) ` {..n}"

lemma hours_from_Suc: "hours_from h (Suc n) = insert h (hours_from (h + 3600) n)"
  by (simp add: hours_from_def atMost_Suc_eq_insert_0 image_image algebra_simps)

lemma hours_from_new: "h \<notin> hours_from (h + 3600) n"
  by (auto simp: hours_from_def)

lemma finite_hours_from [simp]: "finite (hours_from h n)"
  by (simp add: hours_from_def)

lemma unix_hour_add: "unix_hour (t + hour) = unix_hour t + 3600"
proof -
  have "(t + hour) div hour = t div hour + 1" by (simp add: go_time)
  then show ?thesis by (simp add: unix_hour_alt)
qed

lemma sum_hours_totals:
  assumes "counted up"
  shows "sum_hours up (to' - int n * hour) to' (a, b, c) =
     (a + stat_sum SuccessfulExecutions up (hours_from (unix_hour (to' - int n * hour)) n),
      b + stat_sum TotalExecutions up (hours_from (unix_hour (to' - int n * hour)) n),
      c + stat_sum TotalExecutionsResponseTime up (hours_from (unix_hour (to' - int n * hour)) n))"
proof (induction n arbitrary: a b c)
  case 0
  have stop: "sum_hours up (to' + hour) to' acc = acc" for acc
    by (cases acc) (simp add: sum_hours.simps time_sub_def go_time)
  show ?case
    using assms stop
    by (auto simp: sum_hours.simps [of up to' to'] time_sub_def go_time hours_from_def stat_sum_def stat_at_def
        counted_def split: option.splits)
next
  case (Suc n)
  define cur where "cur = to' - int (Suc n) * hour"
  have next_hour: "cur + hour = to' - int n * hour" by (simp add: cur_def algebra_simps)
  have h: "unix_hour (to' - int n * hour) = unix_hour cur + 3600"
    using unix_hour_add [of cur] by (simp only: next_hour)
  have go: "\<not> time_sub to' cur < 0" by (simp add: cur_def time_sub_def go_time)
  have new: "stat_sum f up (hours_from (unix_hour cur) (Suc n)) =
      stat_at f up (unix_hour cur) + stat_sum f up (hours_from (unix_hour cur + 3600) n)" for f
    by (simp add: stat_sum_def hours_from_Suc hours_from_new)
  show ?case
    unfolding cur_def [symmetric] new
    by (subst sum_hours.simps, simp only: go if_False next_hour)
      (use assms in \<open>auto simp: Suc.IH h stat_at_def counted_def split: option.splits\<close>)
qed

lemma period_totals_acc:
  "fold (\<lambda>(h, stats) (successful, executions, responseTime).
         if h > e \<or> h < ps then (successful, executions, responseTime)
         else (successful + SuccessfulExecutions stats, executions + TotalExecutions stats,
               responseTime + TotalExecutionsResponseTime stats)) up (a, b, c) =
   (a + sum_list (map (SuccessfulExecutions \<circ> snd) (filter (\<lambda>(h, _). \<not> (h > e \<or> h < ps)) up)),
    b + sum_list (map (TotalExecutions \<circ> snd) (filter (\<lambda>(h, _). \<not> (h > e \<or> h < ps)) up)),
    c + sum_list (map (TotalExecutionsResponseTime \<circ> snd) (filter (\<lambda>(h, _). \<not> (h > e \<or> h < ps)) up)))"
  by (induction up arbitrary: a b c) (auto simp: algebra_simps)

lemma stat_sum_list:
  assumes "distinct (map fst up)"
  shows "sum_list (map (f \<circ> snd) up) = stat_sum f up (fst ` set up)"
proof -
  have eq: "map (stat_at f up \<circ> fst) up = map (f \<circ> snd) up"
  proof (rule map_cong [OF refl])
    fix p assume "p \<in> set up"
    with assms have "map_of up (fst p) = Some (snd p)" by (cases p) simp
    then show "(stat_at f up \<circ> fst) p = (f \<circ> snd) p" by (simp add: stat_at_def)
  qed
  have "stat_sum f up (fst ` set up) = sum_list (map (stat_at f up) (map fst up))"
    using sum.distinct_set_conv_list [OF assms, of "stat_at f up"] by (simp only: stat_sum_def set_map)
  with eq show ?thesis by (simp only: map_map)
qed

lemma stat_sum_filter:
  assumes "distinct (map fst up)"
  shows "sum_list (map (f \<circ> snd) (filter (\<lambda>(h, _). P h) up)) = stat_sum f up {h \<in> fst ` set up. P h}"
proof -
  have d: "distinct (map fst (filter (\<lambda>(h, _). P h) up))" using assms by simp
  have s: "fst ` set (filter (\<lambda>(h, _). P h) up) = {h \<in> fst ` set up. P h}" by force
  have "stat_at f (filter (\<lambda>(h, _). P h) up) h = stat_at f up h" if "P h" for h
    using that by (simp add: stat_at_def map_of_filter_key)
  then show ?thesis
    unfolding stat_sum_list [OF d] s by (simp add: stat_sum_def)
qed

lemma unix_div_hour: "unix now div 3600 * 3600 = unix_hour now"
  by (simp add: unix_def unix_hour_alt go_time zdiv_zmult2_eq [symmetric])

lemma hours_in_period:
  assumes "h mod 3600 = 0"
  shows "unix_hour (now - int n * hour) \<le> h \<and> h \<le> unix now \<longleftrightarrow> h \<in> hours_from (unix_hour (now - int n * hour)) n"
proof -
  have start: "unix_hour (now - int n * hour) = unix_hour now - 3600 * int n"
  proof -
    have "(now + (- int n) * hour) div hour = - int n + now div hour"
      by (rule div_mult_self1) (simp add: go_time)
    then show ?thesis by (simp add: unix_hour_alt)
  qed
  obtain q where q: "h = 3600 * q" using assms by (auto simp: mod_eq_0_iff_dvd elim: dvdE)
  obtain u where u: "unix_hour now = 3600 * u" "u = unix now div 3600"
    using unix_div_hour [of now] by simp
  have "unix now = 3600 * u + unix now mod 3600" "0 \<le> unix now mod 3600" "unix now mod 3600 < 3600"
    by (simp_all add: u(2))
  then have le: "h \<le> unix now \<longleftrightarrow> q \<le> u" unfolding q by linarith
  show ?thesis
  proof
    assume "unix_hour (now - int n * hour) \<le> h \<and> h \<le> unix now"
    then have "u - int n \<le> q" and "q \<le> u" using start q u le by auto
    then have "h = unix_hour (now - int n * hour) + 3600 * int (nat (q - (u - int n)))" and "nat (q - (u - int n)) \<le> n"
      using start q u by auto
    then show "h \<in> hours_from (unix_hour (now - int n * hour)) n"
      unfolding hours_from_def by (intro image_eqI [of _ _ "nat (q - (u - int n))"]) simp_all
  next
    assume "h \<in> hours_from (unix_hour (now - int n * hour)) n"
    then obtain k where "k \<le> n" "h = unix_hour now - 3600 * int n + 3600 * int k"
      by (auto simp: hours_from_def start)
    then show "unix_hour (now - int n * hour) \<le> h \<and> h \<le> unix now"
      using q u le start by auto
  qed
qed

text \<open>The one pass over the statistics and the walk over the hours give the same totals.\<close>

lemma period_totals_sum_hours:
  assumes "uptime_inv up" and "counted up"
  shows "period_totals up (unix_hour (now - int n * hour)) (unix now) = sum_hours up (now - int n * hour) now (0, 0, 0)"
proof -
  let ?H = "hours_from (unix_hour (now - int n * hour)) n"
  let ?P = "\<lambda>h. \<not> (h > unix now \<or> h < unix_hour (now - int n * hour))"
  have d: "distinct (map fst up)" and al: "h \<in> fst ` set up \<Longrightarrow> h mod 3600 = 0" for h
    using assms(1) by (auto simp: uptime_inv_def)
  have eq: "{h \<in> fst ` set up. ?P h} = fst ` set up \<inter> ?H"
    using al hours_in_period [of _ now n] by (auto simp: not_less)
  have out: "stat_at f up h = 0" if "h \<notin> fst ` set up" for f h
    using that by (simp add: stat_at_def map_of_eq_None_iff [symmetric] option.case_eq_if)
  have "stat_sum f up {h \<in> fst ` set up. ?P h} = stat_sum f up ?H" for f
    unfolding eq stat_sum_def using out by (intro sum.mono_neutral_left) auto
  then show ?thesis
    by (simp add: period_totals_def period_totals_acc stat_sum_filter [OF d] sum_hours_totals [OF assms(2)])
qed

section \<open>Paging\<close>

text \<open>The bounds of a page are bounds of the list, even when the products overflow.\<close>

lemma page_bounds:
  assumes "0 \<le> n" and "in_int64 n" and "in_int64 page" and "in_int64 sz"
    and "getStartAndEndIndex n page sz = (i, j)" and "0 \<le> i" and "0 \<le> j"
  shows "i \<le> j \<and> j \<le> n"
proof -
  have page: "1 \<le> page" "0 \<le> sz" using assms(5,6) by (auto simp: getStartAndEndIndex_def split: if_splits)
  define a where "a = wrap64 (page * sz)"
  define b where "b = wrap64 ((page - 1) * sz)"
  have b: "b = wrap64 (a - sz)"
    using wrap64_diff [of "page * sz" sz] by (simp add: a_def b_def algebra_simps)
  have a64: "in_int64 a" by (simp add: a_def wrap64_in_int64)
  have j: "j = (if wrap64 (n - b) > n then n else wrap64 (n - b))"
    and i: "i = (if wrap64 (n - a) > n then -1 else if wrap64 (n - a) < 0 then 0 else wrap64 (n - a))"
    using assms(5) page by (auto simp: getStartAndEndIndex_def a_def b_def Let_def)
  have "i \<le> j"
  proof (cases "0 \<le> a")
    case False
    then have "a < 0" by simp
    have "wrap64 (n - a) > n \<or> wrap64 (n - a) < 0"
    proof (cases "in_int64 (n - a)")
      case True
      then show ?thesis using \<open>a < 0\<close> by simp
    next
      case False
      then have "wrap64 (n - a) = n - a - 18446744073709551616"
        using assms(1,2) a64 \<open>a < 0\<close> by (intro wrap64_over) (auto simp: in_int64_def)
      then show ?thesis using assms(2) a64 by (simp add: in_int64_def)
    qed
    then have "i = 0" using i assms(6) by auto
    with assms(7) show ?thesis by simp
  next
    case True
    have ab: "b = a - sz" using b True page assms(4) a64 by (simp add: in_int64_def)
    have na: "wrap64 (n - a) = n - a" using True assms(1,2) a64 by (simp add: in_int64_def)
    show ?thesis
    proof (cases "in_int64 (n - b)")
      case True
      then show ?thesis using i j na ab page assms(6,7) \<open>0 \<le> a\<close> by (auto split: if_splits)
    next
      case False
      then have "wrap64 (n - b) = n - b - 18446744073709551616"
        using ab page \<open>0 \<le> a\<close> assms(1,2,4) a64 by (intro wrap64_over) (auto simp: in_int64_def)
      then have "wrap64 (n - b) < 0" using ab page \<open>0 \<le> a\<close> assms(2,4) by (simp add: in_int64_def)
      then show ?thesis using j assms(7) assms(1) by (auto split: if_splits)
    qed
  qed
  moreover have "j \<le> n" using j by auto
  ultimately show ?thesis by simp
qed

lemma page_of_total:
  assumes "in_int64 (int (length xs))" and "in_int64 page" and "in_int64 sz"
  shows "page_of xs page sz \<noteq> None"
proof -
  obtain i j where ij: "getStartAndEndIndex (int (length xs)) page sz = (i, j)" by fastforce
  show ?thesis
    using page_bounds [OF _ assms ij] by (auto simp: page_of_def ij go_slice_def)
qed

text \<open>Without overflow, the page \<open>p\<close> is the \<open>p\<close>-th chunk of the list counted from its end.\<close>

lemma page_of_eq:
  assumes "1 \<le> p" and "in_int64 (int (length xs))" and "in_int64 (int p * int sz)"
  shows "page_of xs (int p) (int sz) =
     Some (drop (length xs - p * sz) (take (length xs - (p - 1) * sz) xs))"
proof -
  define n where "n = length xs"
  define a where "a = p * sz"
  define b where "b = (p - 1) * sz"
  have ab: "b \<le> a" "int a = int p * int sz" "int b = (int p - 1) * int sz"
    using assms(1) by (simp_all add: a_def b_def of_nat_diff)
  have r: "in_int64 (int a)" "in_int64 (int b)" "in_int64 (int n - int a)" "in_int64 (int n - int b)"
    using assms ab by (auto simp: in_int64_def n_def)
  have idx: "getStartAndEndIndex (int n) (int p) (int sz) =
      (if int n - int a < 0 then 0 else int n - int a, int n - int b)"
    unfolding getStartAndEndIndex_def using assms(1) r by (simp add: ab(2,3) [symmetric])
  show ?thesis
  proof (cases "n < b")
    case True
    then show ?thesis
      unfolding page_of_def n_def [symmetric] idx a_def [symmetric] b_def [symmetric] by simp
  next
    case False
    then show ?thesis using ab(1)
      unfolding page_of_def n_def [symmetric] idx a_def [symmetric] b_def [symmetric]
      by (auto simp: go_slice_def n_def [symmetric] drop_take nat_diff_distrib)
  qed
qed

section \<open>Buckets\<close>

text \<open>What the bucket of a list of results is to hold.\<close>

definition timed_up :: "result list \<Rightarrow> int list" where
  "timed_up rs = filter (\<lambda>m. 0 < m) (map (\<lambda>r. milliseconds (r_Duration r)) (filter (\<lambda>r. \<not> Pending r \<and> Success r) rs))"

definition bucket_of :: "int \<Rightarrow> result list \<Rightarrow> response_time_bucket" where
  "bucket_of t rs =
     \<lparr>rb_timestamp = t, rb_up = int (length (filter (\<lambda>r. \<not> Pending r \<and> Success r) rs)),
      rb_down = int (length (filter (\<lambda>r. \<not> Pending r \<and> \<not> Success r) rs)),
      rb_pending = int (length (filter Pending rs)), rb_timed_up = int (length (timed_up rs)),
      rb_total_ms = sum_list (timed_up rs),
      rb_min_ms = (if timed_up rs = [] then None else Some (Min (set (timed_up rs)))),
      rb_max_ms = (if timed_up rs = [] then None else Some (Max (set (timed_up rs))))\<rparr>"

lemma timed_up_snoc:
  "timed_up (rs @ [r]) = timed_up rs @
     (if \<not> Pending r \<and> Success r \<and> 0 < milliseconds (r_Duration r) then [milliseconds (r_Duration r)] else [])"
  by (simp add: timed_up_def)

lemma Min_Max_snoc:
  fixes m :: int
  assumes "ts \<noteq> []"
  shows "Min (set (ts @ [m])) = (if m < Min (set ts) then m else Min (set ts))"
    and "Max (set (ts @ [m])) = (if m > Max (set ts) then m else Max (set ts))"
proof -
  have eq: "min x y = (if x < y then x else y)" "max x y = (if x > y then x else y)" for x y :: int
    by auto
  have "set (ts @ [m]) = insert m (set ts)" by simp
  then show "Min (set (ts @ [m])) = (if m < Min (set ts) then m else Min (set ts))"
    and "Max (set (ts @ [m])) = (if m > Max (set ts) then m else Max (set ts))"
    using assms by (simp_all only: Min_insert Max_insert finite_set set_empty eq simp_thms)
qed

lemma bucket_Add_new:
  "bucket_Add (NewResponseTimeBucket r sec) (bucket_of t rs) = bucket_of t (rs @ [r])"
proof (cases "\<not> Pending r \<and> Success r \<and> 0 < milliseconds (r_Duration r)")
  case True
  define m where "m = milliseconds (r_Duration r)"
  have new: "NewResponseTimeBucket r sec = (empty_bucket (ResponseTimeBucketTimestamp (Timestamp r) sec))
      \<lparr>rb_up := 1, rb_timed_up := 1, rb_total_ms := m, rb_min_ms := Some m, rb_max_ms := Some m\<rparr>"
    using True by (simp add: NewResponseTimeBucket_def m_def Let_def)
  have ts: "timed_up (rs @ [r]) = timed_up rs @ [m]" using True by (simp add: timed_up_snoc m_def)
  show ?thesis
  proof (cases "timed_up rs = []")
    case True
    with \<open>\<not> Pending r \<and> _\<close> show ?thesis by (simp add: bucket_Add_def new bucket_of_def ts empty_bucket_def)
  next
    case False
    with True Min_Max_snoc [OF False, of m] show ?thesis
      by (simp add: bucket_Add_def new bucket_of_def ts empty_bucket_def del: set_append Min_less_iff Max_less_iff Min_gr_iff Max_gr_iff)
  qed
next
  case False
  then have "timed_up (rs @ [r]) = timed_up rs" by (auto simp: timed_up_snoc)
  with False show ?thesis
    by (auto simp: bucket_Add_def NewResponseTimeBucket_def bucket_of_def empty_bucket_def Let_def)
qed

lemma bucket_of_single:
  "NewResponseTimeBucket r sec = bucket_of (ResponseTimeBucketTimestamp (Timestamp r) sec) [r]"
  by (simp add: NewResponseTimeBucket_def bucket_of_def empty_bucket_def Let_def timed_up_def)

definition in_bucket :: "int \<Rightarrow> int \<Rightarrow> result \<Rightarrow> bool" where
  "in_bucket sec t r \<longleftrightarrow> ResponseTimeBucketTimestamp (Timestamp r) sec = t"

text \<open>After adding a list of results, the bucket of each key is the aggregate of the results that fall into it.\<close>

lemma rb_timestamp_new [simp]: "rb_timestamp (NewResponseTimeBucket r sec) = ResponseTimeBucketTimestamp (Timestamp r) sec"
  by (simp add: NewResponseTimeBucket_def empty_bucket_def Let_def)

lemma map_of_add_to_bucket:
  "map_of (add_to_bucket r sec' bs) (sec, t) =
     (if sec = sec' \<and> in_bucket sec t r
      then Some (case map_of bs (sec, t) of
         Some b \<Rightarrow> bucket_Add (NewResponseTimeBucket r sec) b | None \<Rightarrow> NewResponseTimeBucket r sec)
      else map_of bs (sec, t))"
  by (auto simp: add_to_bucket_def in_bucket_def Let_def)

definition aggregate :: "int \<Rightarrow> int \<Rightarrow> result list \<Rightarrow> response_time_bucket option" where
  "aggregate sec t rs =
     (if (sec = MinuteBucketSeconds \<or> sec = HourBucketSeconds) \<and> filter (in_bucket sec t) rs \<noteq> []
      then Some (bucket_of t (filter (in_bucket sec t) rs)) else None)"

lemma aggregate_add:
  assumes "map_of bs (sec, t) = aggregate sec t rs"
  shows "map_of (add_to_bucket r HourBucketSeconds (add_to_bucket r MinuteBucketSeconds bs)) (sec, t) = aggregate sec t (rs @ [r])"
    (is "map_of ?bs _ = _")
proof -
  have ne: "MinuteBucketSeconds \<noteq> HourBucketSeconds" by (simp add: MinuteBucketSeconds_def HourBucketSeconds_def)
  have one: "map_of ?bs (sec, t) =
      (if (sec = MinuteBucketSeconds \<or> sec = HourBucketSeconds) \<and> in_bucket sec t r
       then Some (case map_of bs (sec, t) of
          Some b \<Rightarrow> bucket_Add (NewResponseTimeBucket r sec) b | None \<Rightarrow> NewResponseTimeBucket r sec)
       else map_of bs (sec, t))"
    using ne by (auto simp: map_of_add_to_bucket)
  have single: "in_bucket sec t r \<Longrightarrow> NewResponseTimeBucket r sec = bucket_of t [r]"
    by (simp add: bucket_of_single in_bucket_def)
  define P where "P = (sec = MinuteBucketSeconds \<or> sec = HourBucketSeconds)"
  note eqs = assms [unfolded aggregate_def, folded P_def] one [folded P_def]
  show ?thesis
    unfolding aggregate_def P_def [symmetric]
  proof (cases "filter (in_bucket sec t) rs = []")
    case True
    then show "map_of ?bs (sec, t) = (if P \<and> filter (in_bucket sec t) (rs @ [r]) \<noteq> []
        then Some (bucket_of t (filter (in_bucket sec t) (rs @ [r]))) else None)"
      using eqs single by simp
  next
    case False
    then show "map_of ?bs (sec, t) = (if P \<and> filter (in_bucket sec t) (rs @ [r]) \<noteq> []
        then Some (bucket_of t (filter (in_bucket sec t) (rs @ [r]))) else None)"
      using eqs by (simp add: bucket_Add_new)
  qed
qed

text \<open>The buckets that a clean-up at \<open>now\<close> leaves.\<close>

definition retained :: "time \<Rightarrow> int \<Rightarrow> int \<Rightarrow> bool" where
  "retained now sec t \<longleftrightarrow>
     (sec = MinuteBucketSeconds \<longrightarrow> unix (now - (MinuteBucketRetention + hour)) \<le> t) \<and>
     (sec = HourBucketSeconds \<longrightarrow> unix (now - (HourBucketRetention + hour)) \<le> t)"

lemma map_of_filter_fst: "map_of (filter (\<lambda>(k, _). P k) xs) k = (if P k then map_of xs k else None)"
  by (induction xs) auto

lemma clean_up_retained: "retained now sec t \<Longrightarrow> map_of (clean_up_buckets now bs) (sec, t) = map_of bs (sec, t)"
  using map_of_filter_fst [of "\<lambda>(seconds, timestamp).
      \<not> (seconds = MinuteBucketSeconds \<and> timestamp < unix (now - (MinuteBucketRetention + hour)) \<or>
         seconds = HourBucketSeconds \<and> timestamp < unix (now - (HourBucketRetention + hour)))" bs "(sec, t)"]
  by (auto simp: clean_up_buckets_def Let_def retained_def case_prod_unfold)

lemma retained_mono:
  assumes "retained now' sec t" and "now \<le> now'"
  shows "retained now sec t"
proof -
  have "unix (now - d) \<le> unix (now' - d)" for d
    using assms(2) by (simp add: unix_def zdiv_mono1 go_time)
  from this [of "MinuteBucketRetention + hour"] this [of "HourBucketRetention + hour"] show ?thesis
    using assms(1) by (auto simp: retained_def)
qed

definition buckets_at :: "string \<Rightarrow> 'sr memory_store \<Rightarrow> buckets" where
  "buckets_at key s = (case map_of (ms_buckets s) key of None \<Rightarrow> [] | Some bs \<Rightarrow> bs)"

lemma buckets_at_add:
  "buckets_at key (addResponseTimeBuckets now key r s) =
     (let bs = add_to_bucket r HourBucketSeconds (add_to_bucket r MinuteBucketSeconds (buckets_at key s))
      in if (case map_of (ms_clean_ups s) key of None \<Rightarrow> False
             | Some l \<Rightarrow> time_sub now l < ResponseTimeBucketCleanUpInterval \<and> \<not> now < l)
         then bs else clean_up_buckets now bs)"
  by (auto simp: addResponseTimeBuckets_def buckets_at_def Let_def)

section \<open>The store\<close>

definition store_inv :: "'sr memory_store \<Rightarrow> bool" where
  "store_inv s \<longleftrightarrow>
     distinct (map fst (ms_endpoints s)) \<and>
     list_all (\<lambda>(k, ss). st_key ss = k \<and> status_inv (maximumNumberOfResults s) (maximumNumberOfEvents s) ss) (ms_endpoints s) \<and>
     distinct (map fst (ms_suites s)) \<and>
     list_all (\<lambda>(k, ss). ss_key ss = k \<and> length (ss_results ss) \<le> maximumNumberOfResults s) (ms_suites s) \<and>
     distinct (map fst (ms_login_sessions s)) \<and>
     list_all (\<lambda>(k, session). ls_token_hash session = k) (ms_login_sessions s)"

lemma list_all_alist_put:
  assumes "list_all P xs" and "P (k, v)"
  shows "list_all P (alist_put k v xs)"
  using assms by (induction xs) auto

lemma list_all_filter: "list_all P xs \<Longrightarrow> list_all P (filter Q xs)"
  by (auto simp: list_all_iff)

lemma store_inv_new: "store_inv (NewStore r e)"
  by (simp add: store_inv_def NewStore_def)

lemma addResponseTimeBuckets_sel [simp]:
  "ms_endpoints (addResponseTimeBuckets now k r s) = ms_endpoints s"
  "ms_suites (addResponseTimeBuckets now k r s) = ms_suites s"
  "ms_login_sessions (addResponseTimeBuckets now k r s) = ms_login_sessions s"
  "maximumNumberOfResults (addResponseTimeBuckets now k r s) = maximumNumberOfResults s"
  "maximumNumberOfEvents (addResponseTimeBuckets now k r s) = maximumNumberOfEvents s"
  by (simp_all add: addResponseTimeBuckets_def Let_def)

lemma status_inv_start:
  "0 < maxEvents \<Longrightarrow> status_inv maxResults maxEvents ((NewStatus g n)\<lparr>st_events := [\<lparr>ev_type = EventStart, ev_timestamp = now\<rparr>]\<rparr>)"
  by (simp add: status_inv_def NewStatus_def health_types_def uptime_inv_def)

lemma st_key_AddResult [simp]: "st_key (AddResult now m e r ss) = st_key ss"
  by (simp add: AddResult_def Let_def)

lemma store_inv_insert:
  assumes inv: "store_inv s" and "0 < maximumNumberOfEvents s"
  shows "store_inv (memory_InsertEndpointResult now ep r s)"
proof -
  have old: "st_key ss = ep_Key ep \<and> status_inv (maximumNumberOfResults s) (maximumNumberOfEvents s) ss"
    if "map_of (ms_endpoints s) (ep_Key ep) = Some ss" for ss
    using inv map_of_SomeD [OF that] by (auto simp: store_inv_def list_all_iff)
  have "st_key ss = ep_Key ep \<and> status_inv (maximumNumberOfResults s) (maximumNumberOfEvents s) ss"
    if "ss = (case map_of (ms_endpoints s) (ep_Key ep) of Some status \<Rightarrow> status
        | None \<Rightarrow> (NewStatus (ep_group ep) (ep_name ep))\<lparr>st_events := [\<lparr>ev_type = EventStart, ev_timestamp = now\<rparr>]\<rparr>)" for ss
    using that old status_inv_start [OF assms(2)]
    by (auto simp: NewStatus_def ep_Key_def split: option.splits)
  then show ?thesis
    using inv assms(2)
    by (auto simp: memory_InsertEndpointResult_def store_inv_def Let_def intro!: list_all_alist_put AddResult_inv)
qed

lemma store_inv_insert_suite:
  assumes inv: "store_inv s"
  shows "store_inv (memory_InsertSuiteResult name grp r s)"
proof -
  have old: "ss_key ss = ConvertGroupAndNameToKey grp name" if "map_of (ms_suites s) (ConvertGroupAndNameToKey grp name) = Some ss" for ss
    using inv map_of_SomeD [OF that] by (auto simp: store_inv_def list_all_iff)
  show ?thesis
    using inv old
    by (auto simp: memory_InsertSuiteResult_def store_inv_def Let_def length_keep_last intro!: list_all_alist_put
        split: option.splits)
qed

lemma store_inv_deletes:
  assumes "store_inv s"
  shows "store_inv (snd (DeleteAllEndpointStatusesNotInKeys keys s))"
    and "store_inv (snd (DeleteAllSuiteStatusesNotInKeys keys s))"
    and "store_inv (memory_Clear s)"
    and "store_inv (CreateLoginSession session s)"
    and "store_inv (DeleteLoginSession h s)"
    and "store_inv (snd (DeleteExpiredLoginSessions now s))"
  using assms
  by (auto simp: store_inv_def DeleteAllEndpointStatusesNotInKeys_def DeleteAllSuiteStatusesNotInKeys_def
      memory_Clear_def CreateLoginSession_def DeleteLoginSession_def DeleteExpiredLoginSessions_def
      forgetResponseTimeBuckets_def Let_def alist_del_def intro!: list_all_alist_put list_all_filter)

subsection \<open>Frames\<close>

lemma memory_insert_frame:
  "k \<noteq> ep_Key ep \<Longrightarrow> map_of (ms_endpoints (memory_InsertEndpointResult now ep r s)) k = map_of (ms_endpoints s) k"
  by (simp add: memory_InsertEndpointResult_def Let_def)

lemma memory_insert_maxima [simp]:
  "maximumNumberOfResults (memory_InsertEndpointResult now ep r s) = maximumNumberOfResults s"
  "maximumNumberOfEvents (memory_InsertEndpointResult now ep r s) = maximumNumberOfEvents s"
  "ms_suites (memory_InsertEndpointResult now ep r s) = ms_suites s"
  by (simp_all add: memory_InsertEndpointResult_def Let_def)

lemma buckets_at_insert:
  "buckets_at (ep_Key ep) (memory_InsertEndpointResult now ep r s) =
     buckets_at (ep_Key ep) (addResponseTimeBuckets now (ep_Key ep) r s)"
  by (simp add: memory_InsertEndpointResult_def addResponseTimeBuckets_def buckets_at_def Let_def)

end
