(* ===== verification/StoreProperties.thy ===== *)
theory StoreProperties
  imports MemoryFacts Examples
begin

text \<open>The properties of the memory store: its invariant, the pages of its reads, the uptimes and the buckets of the charts.\<close>

section \<open>Operations\<close>

text \<open>The operations that change the store, for runs of any of them.\<close>

datatype 'sr memory_op =
    OpInsertEndpoint time endpoint result
  | OpInsertSuite string string 'sr
  | OpDeleteEndpoints "string list"
  | OpDeleteSuites "string list"
  | OpClear
  | OpCreateSession login_session
  | OpDeleteSession string
  | OpDeleteExpired time

fun run_op :: "'sr memory_op \<Rightarrow> 'sr memory_store \<Rightarrow> 'sr memory_store" where
  "run_op (OpInsertEndpoint now ep r) s = memory_InsertEndpointResult now ep r s"
| "run_op (OpInsertSuite name grp r) s = memory_InsertSuiteResult name grp r s"
| "run_op (OpDeleteEndpoints keys) s = snd (DeleteAllEndpointStatusesNotInKeys keys s)"
| "run_op (OpDeleteSuites keys) s = snd (DeleteAllSuiteStatusesNotInKeys keys s)"
| "run_op OpClear s = memory_Clear s"
| "run_op (OpCreateSession x) s = CreateLoginSession x s"
| "run_op (OpDeleteSession h) s = DeleteLoginSession h s"
| "run_op (OpDeleteExpired now) s = snd (DeleteExpiredLoginSessions now s)"

lemma run_op_maxima [simp]:
  "maximumNumberOfResults (run_op op s) = maximumNumberOfResults s"
  "maximumNumberOfEvents (run_op op s) = maximumNumberOfEvents s"
  by (cases op; simp add: memory_InsertSuiteResult_def DeleteAllEndpointStatusesNotInKeys_def memory_Clear_def
      DeleteAllSuiteStatusesNotInKeys_def CreateLoginSession_def DeleteLoginSession_def DeleteExpiredLoginSessions_def
      forgetResponseTimeBuckets_def Let_def)+

text \<open>C19. Every run of operations on a new store that keeps at least one event keeps its invariant: keys are unique and
  those of the statuses, results and events stay within their maxima, the health events alternate and the last one is
  the health of the last settled result, and each hour has one entry of statistics.\<close>

theorem store_runs_keep_invariant:
  assumes "0 < maxEvents"
  shows "store_inv (fold run_op ops (NewStore maxResults maxEvents))"
proof -
  have "store_inv (fold run_op ops s)" if "store_inv s" and "0 < maximumNumberOfEvents s" for s :: "'a memory_store"
    using that
  proof (induction ops arbitrary: s)
    case (Cons op ops)
    have "store_inv (run_op op s)"
      using Cons.prems store_inv_insert store_inv_insert_suite store_inv_deletes by (cases op) simp_all
    with Cons show ?case by simp
  qed simp
  from this [OF store_inv_new] show ?thesis using assms by (simp add: NewStore_def)
qed

lemma store_runs_keep_invariant_witness:
  "store_inv (fold run_op [OpInsertEndpoint 0 sample_endpoint sample_success, OpInsertEndpoint 1 sample_endpoint sample_failure]
     (NewStore 100 50 :: unit memory_store))"
  by (rule store_runs_keep_invariant) simp

section \<open>Reads\<close>

text \<open>C30. No page parameters make a read panic, not even when the products of page and size overflow: the slice bounds
  are valid for every 64-bit page and page size.\<close>

theorem reads_never_panic:
  assumes "store_inv s" and "int (maximumNumberOfResults s) < 2 ^ 63" and "int (maximumNumberOfEvents s) < 2 ^ 63"
    and "in_int64 rp \<and> in_int64 rsz \<and> in_int64 epg \<and> in_int64 esz"
  shows "GetEndpointStatusByKey key (Some (WithResults rp rsz (WithEvents epg esz NewEndpointStatusParams))) s \<noteq> Inl SlicePanic \<and>
     GetAllEndpointStatuses (Some (WithResults rp rsz (WithEvents epg esz NewEndpointStatusParams))) s \<noteq> Inl SlicePanic \<and>
     GetSuiteStatusByKey key (Some (WithPagination rp rsz NewSuiteStatusParams)) s \<noteq> Inl SlicePanic \<and>
     GetAllSuiteStatuses (Some (WithPagination rp rsz NewSuiteStatusParams)) s \<noteq> Inl SlicePanic"
proof -
  let ?p = "Some (WithResults rp rsz (WithEvents epg esz NewEndpointStatusParams))"
  let ?q = "Some (WithPagination rp rsz NewSuiteStatusParams)"
  have small: "in_int64 (int n)" if "n \<le> maximumNumberOfResults s \<or> n \<le> maximumNumberOfEvents s" for n
    using that assms(2,3) by (auto simp: in_int64_def)
  have ep: "ShallowCopyEndpointStatus ss ?p \<noteq> None" if "(k, ss) \<in> set (ms_endpoints s)" for k ss
  proof -
    have "length (st_results ss) \<le> maximumNumberOfResults s" "length (st_events ss) \<le> maximumNumberOfEvents s"
      using assms(1) that by (auto simp: store_inv_def status_inv_def list_all_iff)
    then show ?thesis
      using page_of_total [of "st_results ss" rp rsz] page_of_total [of "st_events ss" epg esz] small assms(4)
      by (auto simp: ShallowCopyEndpointStatus_def Let_def bind_eq_None_conv WithResults_def WithEvents_def NewEndpointStatusParams_def)
  qed
  have su: "ShallowCopySuiteStatus ss ?q \<noteq> None" if "(k, ss) \<in> set (ms_suites s)" for k ss
  proof -
    have "length (ss_results ss) \<le> maximumNumberOfResults s"
      using assms(1) that by (auto simp: store_inv_def list_all_iff)
    then show ?thesis
      using page_of_total [of "ss_results ss" rp rsz] small assms(4)
      by (auto simp: ShallowCopySuiteStatus_def WithPagination_def)
  qed
  have "GetEndpointStatusByKey key ?p s \<noteq> Inl SlicePanic"
  proof (cases "map_of (ms_endpoints s) key")
    case (Some ss)
    then show ?thesis using ep [OF map_of_SomeD [OF Some]] by (auto simp: GetEndpointStatusByKey_def)
  qed (simp add: GetEndpointStatusByKey_def)
  moreover have "None \<notin> (\<lambda>(_, status). ShallowCopyEndpointStatus status ?p) ` set (ms_endpoints s)"
    using ep by (metis (mono_tags, lifting) case_prod_conv imageE surj_pair)
  then have "GetAllEndpointStatuses ?p s \<noteq> Inl SlicePanic"
    by (simp add: GetAllEndpointStatuses_def Let_def)
  moreover have "GetSuiteStatusByKey key ?q s \<noteq> Inl SlicePanic"
  proof (cases "map_of (ms_suites s) key")
    case (Some ss)
    then show ?thesis using su [OF map_of_SomeD [OF Some]] by (auto simp: GetSuiteStatusByKey_def)
  qed (simp add: GetSuiteStatusByKey_def)
  moreover have "None \<notin> (\<lambda>(_, status). ShallowCopySuiteStatus status ?q) ` set (ms_suites s)"
    using su by (metis (mono_tags, lifting) case_prod_conv imageE surj_pair)
  then have "GetAllSuiteStatuses ?q s \<noteq> Inl SlicePanic"
    by (simp add: GetAllSuiteStatuses_def Let_def)
  ultimately show ?thesis by blast
qed

definition sample_store :: "unit memory_store" where
  "sample_store = fold run_op [OpInsertEndpoint 0 sample_endpoint sample_success, OpInsertEndpoint 1 sample_endpoint sample_failure]
     (NewStore 100 50)"

lemma sample_store_inv [simp]: "store_inv sample_store"
  unfolding sample_store_def by (auto intro!: store_inv_insert store_inv_new) (simp_all add: NewStore_def)

lemma sample_store_maxima [simp]: "maximumNumberOfResults sample_store = 100" "maximumNumberOfEvents sample_store = 50"
  by (simp_all add: sample_store_def NewStore_def)

lemma reads_never_panic_witness:
  "GetEndpointStatusByKey ''core_web''
     (Some (WithResults 9223372036854775807 9223372036854775807 (WithEvents 3 2 NewEndpointStatusParams))) sample_store \<noteq> Inl SlicePanic"
  using reads_never_panic [of sample_store 9223372036854775807 9223372036854775807 3 2 "''core_web''"]
  by (simp add: in_int64_def)

text \<open>Without overflow, the page \<open>p\<close> of the results has the \<open>p\<close>-th chunk counted from the newest result, and the
  pages from 1 on, put together backwards, are the latest results.\<close>

theorem pages_cover_results:
  assumes "in_int64 (int (length xs))" and "in_int64 (int n * int sz)"
  shows "concat (rev (map (\<lambda>p. the (page_of xs (int p) (int sz))) [1..<Suc n])) = keep_last (n * sz) xs \<and>
     (\<forall>p \<in> {1..n}. page_of xs (int p) (int sz) =
        Some (drop (length xs - p * sz) (take (length xs - (p - 1) * sz) xs)))"
proof -
  have page: "page_of xs (int p) (int sz) = Some (drop (length xs - p * sz) (take (length xs - (p - 1) * sz) xs))"
    if "1 \<le> p" "p \<le> n" for p
  proof (rule page_of_eq [OF that(1) assms(1)])
    have "int p * int sz \<le> int n * int sz" using that(2) by (simp add: mult_right_mono)
    then show "in_int64 (int p * int sz)"
      using assms(2) by (auto simp: in_int64_def intro: order_trans [OF _ mult_nonneg_nonneg] le_less_trans)
  qed
  have "concat (rev (map (\<lambda>p. the (page_of xs (int p) (int sz))) [1..<Suc m])) = keep_last (m * sz) xs" if "m \<le> n" for m
    using that
  proof (induction m)
    case 0
    then show ?case by (simp add: keep_last_def)
  next
    case (Suc m)
    let ?l = "length xs"
    have le: "?l - Suc m * sz \<le> ?l - m * sz" by (simp add: diff_le_mono2)
    have "concat (rev (map (\<lambda>p. the (page_of xs (int p) (int sz))) [1..<Suc (Suc m)])) =
        the (page_of xs (int (Suc m)) (int sz)) @ keep_last (m * sz) xs"
      using Suc by simp
    also have "the (page_of xs (int (Suc m)) (int sz)) = drop (?l - Suc m * sz) (take (?l - m * sz) xs)"
      using page [of "Suc m"] Suc.prems by simp
    also have "drop (?l - Suc m * sz) (take (?l - m * sz) xs) @ keep_last (m * sz) xs = keep_last (Suc m * sz) xs"
    proof -
      have "drop (?l - Suc m * sz) (take (?l - m * sz) xs @ drop (?l - m * sz) xs) =
          drop (?l - Suc m * sz) (take (?l - m * sz) xs) @ drop (?l - Suc m * sz - min ?l (?l - m * sz)) (drop (?l - m * sz) xs)"
        by (simp only: drop_append length_take)
      then show ?thesis using le by (simp add: keep_last_def)
    qed
    finally show ?case .
  qed
  then show ?thesis using page by auto
qed

lemma pages_cover_results_witness:
  "concat (rev (map (\<lambda>p. the (page_of [1 :: int, 2, 3, 4, 5] (int p) (int 2))) [1..<Suc 2])) = [2, 3, 4, 5]"
  using pages_cover_results [of "[1 :: int, 2, 3, 4, 5]" 2 2] by (simp add: in_int64_def keep_last_def)

section \<open>Uptimes and charts\<close>

lemma endpoint_status_inv:
  assumes "store_inv s" and "map_of (ms_endpoints s) key = Some ss"
  shows "status_inv (maximumNumberOfResults s) (maximumNumberOfEvents s) ss"
  using assms(1) map_of_SomeD [OF assms(2)] by (auto simp: store_inv_def list_all_iff)

text \<open>C31. The batch read of the uptimes, one pass over the hourly statistics, gives for each of its three periods what the
  single read, a walk over the hours of the period, gives.\<close>

theorem batch_uptimes_equal_single:
  assumes "store_inv s" and "map_of (ms_endpoints s) key = Some ss" and "counted (st_uptime ss)"
    and "key \<in> set keys" and "GetUptimesByKeys keys now s key = Some u"
  shows "GetUptimeByKey key (now - 24 * hour) now s = Inr (Last24Hours u) \<and>
     GetUptimeByKey key (now - 7 * 24 * hour) now s = Inr (Last7Days u) \<and>
     GetUptimeByKey key (now - 30 * 24 * hour) now s = Inr (Last30Days u)"
proof -
  have up: "uptime_inv (st_uptime ss)" using endpoint_status_inv [OF assms(1,2)] by (simp add: status_inv_def)
  have eq: "period_totals (st_uptime ss) (unix_hour (now - int n * hour)) (unix now) =
      sum_hours (st_uptime ss) (now - int n * hour) now (0, 0, 0)" for n
    by (rule period_totals_sum_hours [OF up assms(3)])
  have single: "GetUptimeByKey key (now - int n * hour) now s =
      Inr (case period_totals (st_uptime ss) (unix_hour (now - int n * hour)) (unix now) of (a, b, c) \<Rightarrow> uptimeRatio a b)" for n
  proof -
    have "\<not> now - int n * hour > now" by (simp add: go_time)
    then show ?thesis using assms(2) unfolding eq by (simp add: GetUptimeByKey_def uptimeRatio_def case_prod_unfold Let_def)
  qed
  have "uptimesOf (st_uptime ss) now = Some u" using assms(2,4,5) by (simp add: GetUptimesByKeys_def)
  then show ?thesis
    using single [of 24] single [of "7 * 24"] single [of "30 * 24"]
    by (auto simp: uptimesOf_def Let_def split: prod.splits if_splits)
qed

definition uptime_store :: "unit memory_store" where
  "uptime_store = memory_InsertEndpointResult 0 sample_endpoint (sample_success\<lparr>Timestamp := 0\<rparr>) (NewStore 100 50)"

lemma batch_uptimes_equal_single_witness:
  "\<exists>u. GetUptimesByKeys [''core_web''] hour uptime_store ''core_web'' = Some u \<and>
     GetUptimeByKey ''core_web'' (hour - 24 * hour) hour uptime_store = Inr (Last24Hours u)"
proof -
  have inv: "store_inv uptime_store"
    unfolding uptime_store_def by (rule store_inv_insert [OF store_inv_new]) (simp add: NewStore_def)
  obtain ss where ss: "map_of (ms_endpoints uptime_store) ''core_web'' = Some ss" "st_uptime ss = [(0, \<lparr>TotalExecutions = 1,
      SuccessfulExecutions = 1, TotalExecutionsResponseTime = 0\<rparr>)]"
    by (simp add: uptime_store_def memory_InsertEndpointResult_def NewStore_def Let_def AddResult_def NewStatus_def
        processUptimeAfterResult_def add_execution_def zero_stats_def unix_hour_def unix_def uptimeCleanUpThreshold_def
        sample_success_def empty_result_def go_time milliseconds_def quot_def)
  have counted: "counted (st_uptime ss)" by (simp add: counted_def ss(2))
  obtain u where u: "GetUptimesByKeys [''core_web''] hour uptime_store ''core_web'' = Some u"
    by (simp add: GetUptimesByKeys_def ss uptimesOf_def period_totals_def unix_hour_def unix_def go_time Let_def)
  from batch_uptimes_equal_single [OF inv ss(1) counted _ u] show ?thesis using u by simp
qed

text \<open>The inserts of one endpoint, in the order of time.\<close>

definition insert_run :: "endpoint \<Rightarrow> (time \<times> result) list \<Rightarrow> 'sr memory_store \<Rightarrow> 'sr memory_store" where
  "insert_run ep rs s = fold (\<lambda>(now, r). memory_InsertEndpointResult now ep r) rs s"

text \<open>C32. After inserts in the order of time, every bucket that the last clean-up would keep is the aggregate of the results
  of its minute or hour: their numbers by outcome and the sum, minimum and maximum of the response times.\<close>

theorem buckets_aggregate_results:
  assumes "buckets_at (ep_Key ep) s = []" and "sorted (map fst rs)" and "rs \<noteq> []" and "retained (fst (last rs)) sec t"
  shows "map_of (buckets_at (ep_Key ep) (insert_run ep rs s)) (sec, t) = aggregate sec t (map snd rs)"
  using assms(2-4)
proof (induction rs rule: rev_induct)
  case (snoc p rs)
  obtain now r where p: "p = (now, r)" by (cases p)
  let ?s = "insert_run ep rs s"
  have old: "map_of (buckets_at (ep_Key ep) ?s) (sec, t) = aggregate sec t (map snd rs)"
  proof (cases "rs = []")
    case True
    then show ?thesis using assms(1) by (simp add: insert_run_def aggregate_def)
  next
    case False
    have "fst (last rs) \<le> now" using snoc.prems(1) False by (simp add: p sorted_append)
    with snoc.prems(3) have "retained (fst (last rs)) sec t" using retained_mono by (simp add: p)
    with snoc False show ?thesis by (simp add: sorted_append)
  qed
  have step: "insert_run ep (rs @ [p]) s = memory_InsertEndpointResult now ep r ?s" by (simp add: insert_run_def p)
  show ?case
    unfolding step buckets_at_insert buckets_at_add Let_def
    using aggregate_add [OF old, of r] snoc.prems(3) by (auto simp: clean_up_retained p)
qed simp

lemma buckets_aggregate_results_witness:
  "map_of (buckets_at (ep_Key sample_endpoint) (insert_run sample_endpoint
      [(0, sample_success), (60 * second, sample_failure)] (NewStore 100 50 :: unit memory_store))) (3600, 0) =
   aggregate 3600 0 (map snd [(0, sample_success), (60 * second, sample_failure)])"
  by (rule buckets_aggregate_results)
    (simp_all add: NewStore_def buckets_at_def retained_def MinuteBucketSeconds_def HourBucketSeconds_def
      HourBucketRetention_def unix_def go_time)

text \<open>The clean-up of the sessions removes exactly the expired ones, and what remains is found as before.\<close>

theorem expired_sessions_removed:
  assumes "store_inv s"
  shows "GetLoginSession h (snd (DeleteExpiredLoginSessions now s)) =
     (case GetLoginSession h s of
        Inl e \<Rightarrow> Inl e
      | Inr x \<Rightarrow> if now < ls_expires_at x then Inr x else Inl ErrLoginSessionNotFound) \<and>
     GetLoginSession (ls_token_hash x) (CreateLoginSession x s) = Inr x \<and>
     GetLoginSession h (DeleteLoginSession h s) = Inl ErrLoginSessionNotFound"
proof -
  have d: "distinct (map fst (ms_login_sessions s))" using assms by (simp add: store_inv_def)
  have "map_of (filter (\<lambda>(_, x). now < ls_expires_at x) ys) h =
     (case map_of ys h of None \<Rightarrow> None | Some x \<Rightarrow> if now < ls_expires_at x then Some x else None)"
    if "distinct (map fst ys)" for ys
    using that
  proof (induction ys)
    case (Cons y ys)
    then show ?case by (cases y) (auto split: option.splits dest: map_of_SomeD intro: rev_image_eqI)
  qed simp
  from this [OF d] show ?thesis
    by (auto simp: GetLoginSession_def DeleteExpiredLoginSessions_def CreateLoginSession_def DeleteLoginSession_def
        Let_def split: option.splits)
qed

end
