(* ===== verification/Glob.thy ===== *)
theory Glob
  imports Prelude
begin

text \<open>
  The glob patterns of the conditions (\<^verbatim>\<open>internal/pattern/pattern.go\<close>), on top of the patterns of
  \<^verbatim>\<open>filepath.Match\<close> on Unix: a pattern is read into tokens, or refused, and the tokens are matched against
  the string. \<open>*\<close> matches any bytes but the separator, a question mark one code point, and a class one code point.
\<close>

datatype glob_token = Star | AnyRune | Lit char | Class bool "(nat \<times> nat) list"

text \<open>One bound of a class, possibly escaped; a class goes on after it.\<close>

definition get_esc :: "string \<Rightarrow> (nat \<times> string) option" where
  "get_esc s =
     (if s = [] \<or> hd s = CHR ''-'' \<or> hd s = CHR '']'' then None
      else
        (let s' = (if hd s = CHR 0x5C then tl s else s)
         in if s' = [] then None
            else
              (let (r, n) = decode_rune s'
               in if r = 65533 \<and> n = 1 \<or> drop n s' = [] then None else Some (r, drop n s'))))"

lemma get_esc_shorter: "get_esc s = Some (r, s') \<Longrightarrow> length s' < length s"
proof -
  assume a: "get_esc s = Some (r, s')"
  define t where "t = (if hd s = CHR 0x5C then tl s else s)"
  from a have ne: "s \<noteq> []" "t \<noteq> []" and s': "s' = drop (snd (decode_rune t)) t"
    by (auto simp: get_esc_def t_def Let_def split: if_splits prod.splits)
  have "length t \<le> length s" by (simp add: t_def)
  moreover have "length s' < length t" using ne decode_rune_size [of t] by (simp add: s')
  ultimately show ?thesis by simp
qed

function class_items :: "string \<Rightarrow> bool \<Rightarrow> ((nat \<times> nat) list \<times> string) option" where
  "class_items s first =
     (if s \<noteq> [] \<and> hd s = CHR '']'' \<and> \<not> first then Some ([], tl s)
      else
        (case get_esc s of
           None \<Rightarrow> None
         | Some (lo, s1) \<Rightarrow>
             (case (if hd s1 = CHR ''-'' then get_esc (tl s1) else Some (lo, s1)) of
                None \<Rightarrow> None
              | Some (hi, s2) \<Rightarrow>
                  (case class_items s2 False of
                     None \<Rightarrow> None
                   | Some (items, s3) \<Rightarrow> Some ((lo, hi) # items, s3)))))"
  by pat_completeness auto
termination
proof (relation "measure (\<lambda>(s, _). length s)", goal_cases)
  case (2 s first p lo s1 q hi s2)
  then have "length s1 < length s" and "length s2 \<le> length s1"
    by (auto dest!: get_esc_shorter split: if_splits)
  then show ?case by simp
qed simp

declare class_items.simps [simp del]

lemma class_items_shorter: "class_items s first = Some (items, r) \<Longrightarrow> length r < length s"
proof (induction s first arbitrary: items rule: class_items.induct)
  case (1 s first)
  show ?case
  proof (cases "s \<noteq> [] \<and> hd s = CHR '']'' \<and> \<not> first")
    case True
    with "1.prems" have "r = tl s" by (simp add: class_items.simps [of s])
    with True show ?thesis by (cases s) auto
  next
    case False
    with "1.prems" obtain lo s1 hi s2 items' where
      g: "get_esc s = Some (lo, s1)" "(if hd s1 = CHR ''-'' then get_esc (tl s1) else Some (lo, s1)) = Some (hi, s2)"
      "class_items s2 False = Some (items', r)"
      by (subst (asm) class_items.simps) (auto split: option.splits)
    from g(2) have "length s2 \<le> length s1"
      by (auto dest!: get_esc_shorter split: if_splits)
    with get_esc_shorter [OF g(1)] "1.IH" [OF False g(1) refl g(2) refl g(3)] show ?thesis by simp
  qed
qed

function glob_tokens :: "string \<Rightarrow> glob_token list option" where
  "glob_tokens [] = Some []"
| "glob_tokens (c # s) =
     (if c = CHR ''*'' then map_option (Cons Star) (glob_tokens s)
      else if c = CHR ''?'' then map_option (Cons AnyRune) (glob_tokens s)
      else if c = CHR ''['' then
        (let negated = (s \<noteq> [] \<and> hd s = CHR ''^'')
         in case class_items (if negated then tl s else s) True of
              None \<Rightarrow> None
            | Some (items, r) \<Rightarrow> map_option (Cons (Class negated items)) (glob_tokens r))
      else if c = CHR 0x5C then (case s of [] \<Rightarrow> None | d # r \<Rightarrow> map_option (Cons (Lit d)) (glob_tokens r))
      else map_option (Cons (Lit c)) (glob_tokens s))"
  by pat_completeness auto
termination
  by (relation "measure length") (auto dest!: class_items_shorter split: if_splits)

function glob_match :: "glob_token list \<Rightarrow> string \<Rightarrow> bool" where
  "glob_match [] s = (s = [])"
| "glob_match (Star # ts) s =
     (glob_match ts s \<or> (case s of [] \<Rightarrow> False | c # s' \<Rightarrow> c \<noteq> CHR ''/'' \<and> glob_match (Star # ts) s'))"
| "glob_match (Lit c # ts) s = (case s of [] \<Rightarrow> False | d # s' \<Rightarrow> c = d \<and> glob_match ts s')"
| "glob_match (AnyRune # ts) s =
     (s \<noteq> [] \<and> hd s \<noteq> CHR ''/'' \<and> glob_match ts (drop (snd (decode_rune s)) s))"
| "glob_match (Class negated items # ts) s =
     (s \<noteq> [] \<and>
      (list_ex (\<lambda>(lo, hi). lo \<le> fst (decode_rune s) \<and> fst (decode_rune s) \<le> hi) items \<noteq> negated) \<and>
      glob_match ts (drop (snd (decode_rune s)) s))"
  by pat_completeness auto
termination
  by (relation "measures [\<lambda>(ts, s). length ts, \<lambda>(ts, s). length s]") auto

definition filepath_Match :: "string \<Rightarrow> string \<Rightarrow> bool" where
  "filepath_Match pat s = (case glob_tokens pat of None \<Rightarrow> False | Some ts \<Rightarrow> glob_match ts s)"

definition pattern_Match :: "string \<Rightarrow> string \<Rightarrow> bool" where
  "pattern_Match pat s =
     (if pat = ''*'' then True
      else filepath_Match (remove_char (CHR ''/'') pat) (remove_char (CHR ''/'') s))"

section \<open>Facts\<close>

text \<open>Text without special characters stands for itself.\<close>

definition plain :: "string \<Rightarrow> bool" where
  "plain s \<longleftrightarrow> list_all (\<lambda>c. c \<notin> set ''*?['' \<and> c \<noteq> CHR 0x5C) s"

lemma glob_tokens_plain: "plain s \<Longrightarrow> glob_tokens (s @ t) = map_option ((@) (map Lit s)) (glob_tokens t)"
proof (induction s)
  case Nil
  then show ?case by (simp add: option.map_ident)
next
  case (Cons c s)
  then have "plain s" and c: "c \<noteq> CHR ''*''" "c \<noteq> CHR ''?''" "c \<noteq> CHR ''[''" "c \<noteq> CHR 0x5C"
    by (auto simp: plain_def)
  then show ?case using Cons.IH by (cases "glob_tokens t") (simp_all add: c)
qed

lemma glob_match_lits: "glob_match (map Lit x @ ts) s \<longleftrightarrow> (\<exists>r. s = x @ r \<and> glob_match ts r)"
proof (induction x arbitrary: s)
  case (Cons c x)
  then show ?case by (cases s) auto
qed simp

lemma glob_match_star:
  "glob_match (Star # ts) s \<longleftrightarrow> (\<exists>a r. s = a @ r \<and> CHR ''/'' \<notin> set a \<and> glob_match ts r)"
proof (induction s)
  case Nil
  then show ?case by simp
next
  case (Cons c s)
  note IH = Cons
  have "glob_match (Star # ts) (c # s) \<longleftrightarrow> glob_match ts (c # s) \<or> c \<noteq> CHR ''/'' \<and> glob_match (Star # ts) s"
    by simp
  also have "\<dots> \<longleftrightarrow> (\<exists>a r. c # s = a @ r \<and> CHR ''/'' \<notin> set a \<and> glob_match ts r)" (is "?l \<longleftrightarrow> ?r")
  proof
    assume ?l
    then show ?r
    proof
      assume "glob_match ts (c # s)"
      then show ?r by (intro exI [of _ "[]"] exI [of _ "c # s"]) simp
    next
      assume "c \<noteq> CHR ''/'' \<and> glob_match (Star # ts) s"
      then obtain a r where "c \<noteq> CHR ''/''" "s = a @ r" "CHR ''/'' \<notin> set a" "glob_match ts r"
        unfolding IH by blast
      then show ?r by (intro exI [of _ "c # a"] exI [of _ r]) auto
    qed
  next
    assume ?r
    then obtain a r where ar: "c # s = a @ r" "CHR ''/'' \<notin> set a" "glob_match ts r" by blast
    show ?l
    proof (cases a)
      case Nil
      with ar show ?l by simp
    next
      case (Cons d a')
      with ar have "c \<noteq> CHR ''/''" "\<exists>a r. s = a @ r \<and> CHR ''/'' \<notin> set a \<and> glob_match ts r" by auto
      then show ?l unfolding IH by simp
    qed
  qed
  finally show ?case .
qed

lemma remove_char_notin [simp]: "c \<notin> set (remove_char c s)"
  by (simp add: remove_char_def)

lemma remove_char_id: "c \<notin> set s \<Longrightarrow> remove_char c s = s"
  by (simp add: remove_char_def) (metis (mono_tags, lifting) filter_True)

lemma remove_char_append [simp]: "remove_char c (a @ b) = remove_char c a @ remove_char c b"
  by (simp add: remove_char_def)

lemma remove_char_Cons: "remove_char c (d # s) = (if d = c then remove_char c s else d # remove_char c s)"
  by (simp add: remove_char_def)

lemma plain_remove: "plain x \<Longrightarrow> plain (remove_char c x)"
  by (auto simp: plain_def remove_char_def list_all_iff)

text \<open>A pattern of plain text is an equality, up to the separators.\<close>

lemma pattern_Match_plain:
  assumes "plain x"
  shows "pattern_Match x s \<longleftrightarrow> remove_char (CHR ''/'') s = remove_char (CHR ''/'') x"
proof -
  have "x \<noteq> ''*''" using assms by (auto simp: plain_def)
  then show ?thesis
    using glob_tokens_plain [OF plain_remove [OF assms, of "CHR ''/''"], of "[]"]
      glob_match_lits [of "remove_char (CHR ''/'') x" "[]" "remove_char (CHR ''/'') s"]
    by (simp add: pattern_Match_def filepath_Match_def)
qed

text \<open>Text between two stars: the string contains it.\<close>

lemma pattern_Match_contains:
  assumes "plain x"
  shows "pattern_Match (''*'' @ x @ ''*'') s \<longleftrightarrow>
     str_contains (remove_char (CHR ''/'') s) (remove_char (CHR ''/'') x)"
proof -
  let ?x = "remove_char (CHR ''/'') x" and ?s = "remove_char (CHR ''/'') s"
  have tokens: "glob_tokens (''*'' @ ?x @ ''*'') = Some (Star # map Lit ?x @ [Star])"
    using glob_tokens_plain [OF plain_remove [OF assms, of "CHR ''/''"], of "''*''"] by simp
  have tail: "glob_match [Star] r" if "CHR ''/'' \<notin> set r" for r
    using that glob_match_star [of "[]" r] by simp
  have "glob_match (Star # map Lit ?x @ [Star]) ?s \<longleftrightarrow> (\<exists>a b. ?s = a @ ?x @ b)"
  proof
    assume "glob_match (Star # map Lit ?x @ [Star]) ?s"
    then show "\<exists>a b. ?s = a @ ?x @ b" unfolding glob_match_star glob_match_lits by auto
  next
    assume "\<exists>a b. ?s = a @ ?x @ b"
    then obtain a b where ab: "?s = a @ ?x @ b" by blast
    have "CHR ''/'' \<notin> set (a @ ?x @ b)" unfolding ab [symmetric] by simp
    then show "glob_match (Star # map Lit ?x @ [Star]) ?s"
      unfolding glob_match_star glob_match_lits using ab tail by auto
  qed
  moreover have "remove_char (CHR ''/'') (''*'' @ x @ ''*'') = ''*'' @ ?x @ ''*''"
    by (simp add: remove_char_Cons) (simp add: remove_char_def)
  ultimately show ?thesis
    using tokens by (simp add: pattern_Match_def filepath_Match_def str_contains_iff)
qed

end
