(* ===== verification/JsonPath.thy ===== *)
theory JsonPath
  imports Values
begin

text \<open>
  The JSON paths of the conditions (\<^verbatim>\<open>internal/jsonpath/jsonpath.go\<close>). \<open>encoding/json\<close> is a parameter:
  \<open>unmarshal\<close> reads a document (\<open>None\<close> is an error) and \<open>marshal\<close> prints an object. The outer \<open>option\<close> of
  a result is the run-time panic of the failed type assertion \<^verbatim>\<open>value.(map[string]interface{})\<close>.
\<close>

record json_lib =
  unmarshal :: "string \<Rightarrow> val option"
  marshal :: "val \<Rightarrow> string"

datatype json_error = JsonUnmarshalError | JsonStringInsteadOfObject | JsonUnexpectedType

subsection \<open>One key\<close>

text \<open>
  The scan for the first index of a key: from position \<open>i\<close>, with the bracket depth and the position of
  the last opening bracket, to the positions of the opening and closing brackets.
\<close>

fun scan_bracket :: "string \<Rightarrow> nat \<Rightarrow> nat \<Rightarrow> nat \<Rightarrow> (nat \<times> nat) option" where
  "scan_bracket [] i depth start = None"
| "scan_bracket (c # s) i depth start =
     (if c = CHR ''['' then scan_bracket s (Suc i) (Suc depth) i
      else if c = CHR '']'' \<and> depth = 1 then Some (start, i)
      else scan_bracket s (Suc i) depth start)"

lemma scan_bracket_bounds:
  "scan_bracket s i depth start = Some (a, b) \<Longrightarrow> (depth = 0 \<or> start < i) \<Longrightarrow> a < b \<and> i \<le> b \<and> b < i + length s"
proof (induction s i depth start rule: scan_bracket.induct)
  case (2 c s i depth start)
  show ?case
  proof (cases "c = CHR ''[''")
    case True
    with "2.IH"(1) "2.prems"(1) show ?thesis by simp
  next
    case False
    show ?thesis
    proof (cases "c = CHR '']'' \<and> depth = 1")
      case True
      with False "2.prems" show ?thesis by simp
    next
      case no: False
      have "depth = 0 \<or> start < Suc i" using "2.prems"(2) by auto
      moreover have "scan_bracket (c # s) i depth start = scan_bracket s (Suc i) depth start"
        using False no by (simp only: scan_bracket.simps if_False)
      ultimately show ?thesis using "2.IH"(2) [OF False no] "2.prems"(1) by simp
    qed
  qed
qed simp

definition as_list :: "val \<Rightarrow> val list" where
  "as_list v = (case v of VList vs \<Rightarrow> vs | _ \<Rightarrow> [])"

function extractValue :: "string \<Rightarrow> val \<Rightarrow> val option" where
  "extractValue currentKey v =
     (if suffix '']'' currentKey \<and> str_contains currentKey ''['' then
        (case scan_bracket currentKey 0 0 0 of
           None \<Rightarrow> Some VNil
         | Some (startOfBracket, endOfBracket) \<Rightarrow>
             (let index = drop (Suc startOfBracket) (take endOfBracket currentKey);
                  isNestedArray = (Suc endOfBracket < length currentKey \<and> currentKey ! Suc endOfBracket = CHR ''['');
                  element = (\<lambda>array arrayIndex.
                    (if arrayIndex < length array
                     then (if isNestedArray then extractValue (drop (Suc endOfBracket) currentKey) (array ! arrayIndex)
                           else Some (array ! arrayIndex))
                     else Some VNil))
              in (case atoi index of
                    None \<Rightarrow> Some VNil
                  | Some n \<Rightarrow>
                      (if n < 0 then Some VNil
                       else
                         (let currentKeyWithoutIndex = take startOfBracket currentKey
                          in if currentKeyWithoutIndex = [] then element (as_list v) (nat n)
                             else (case v of
                                     VNil \<Rightarrow> Some VNil
                                   | VMap m \<Rightarrow>
                                       (case map_of m currentKeyWithoutIndex of
                                          None \<Rightarrow> Some VNil
                                        | Some w \<Rightarrow> element (as_list w) (nat n))
                                   | _ \<Rightarrow> None))))))
      else (case v of
              VList vs \<Rightarrow> Some (VList vs)
            | VMap m \<Rightarrow> Some (case map_of m currentKey of None \<Rightarrow> VNil | Some w \<Rightarrow> w)
            | _ \<Rightarrow> Some v))"
  by pat_completeness auto
termination
  by (relation "measure (\<lambda>(k, _). length k)") (auto dest!: scan_bracket_bounds)

declare extractValue.simps [simp del]

subsection \<open>The walk\<close>

text \<open>The keys of a path: it is cut at the dots outside brackets. \<open>acc\<close> is the key being read.\<close>

fun split_keys :: "string \<Rightarrow> int \<Rightarrow> string \<Rightarrow> string list" where
  "split_keys [] depth acc = [acc]"
| "split_keys (c # s) depth acc =
     (let depth = (if c = CHR ''['' then depth + 1 else if c = CHR '']'' then depth - 1 else depth)
      in if c = CHR ''.'' \<and> depth = 0 then acc # split_keys s depth []
         else split_keys s depth (acc @ [c]))"

definition path_keys :: "string \<Rightarrow> string list" where
  "path_keys path = split_keys path 0 []"

lemma replace_first_shorter:
  assumes "old \<noteq> []" and "replace_first s old [] \<noteq> s"
  shows "length (replace_first s old []) < length s"
proof (cases "str_index s old")
  case None
  with assms show ?thesis by (simp add: replace_first_def)
next
  case (Some i)
  with str_index_Some [OF Some] assms(1) show ?thesis
    by (cases old) (auto simp: replace_first_def)
qed

function walk :: "json_lib \<Rightarrow> string \<Rightarrow> val \<Rightarrow> (json_error + string \<times> int) option" where
  "walk lib path obj =
     (let keys = path_keys path; currentKey = hd keys
      in case extractValue currentKey obj of
           None \<Rightarrow> None
         | Some v \<Rightarrow>
             (case v of
                VMap m \<Rightarrow>
                  (let newPath = replace_first path (currentKey @ ''.'') []
                   in if path = newPath then Some (Inr (marshal lib v, int (length (marshal lib v))))
                      else walk lib newPath v)
              | VStr s \<Rightarrow>
                  (if length keys > 1 then Some (Inl JsonStringInsteadOfObject) else Some (Inr (s, int (length s))))
              | VList vs \<Rightarrow> Some (Inr (fmt_v v, int (length vs)))
              | VNil \<Rightarrow> Some (Inl JsonUnexpectedType)
              | _ \<Rightarrow> Some (Inr (fmt_v v, int (length (fmt_v v))))))"
  by pat_completeness auto
termination
proof (relation "measure (\<lambda>(lib, path, _). length path)", goal_cases)
  case (2 lib path obj keys currentKey v m newPath)
  then show ?case using replace_first_shorter [of "currentKey @ ''.''" path] by auto
qed simp

declare walk.simps [simp del]

definition json_Eval :: "json_lib \<Rightarrow> string \<Rightarrow> string \<Rightarrow> (json_error + string \<times> int) option" where
  "json_Eval lib path b =
     (if path = [] \<and> \<not> (b \<noteq> [] \<and> hd b = CHR ''['' \<and> last b = CHR '']'') then Some (Inr (b, int (length b)))
      else (case unmarshal lib b of
              None \<Rightarrow> Some (Inl JsonUnmarshalError)
            | Some object \<Rightarrow> walk lib path object))"

section \<open>Facts\<close>

text \<open>Keys without dots and brackets, and the path that joins them.\<close>

definition simple_key :: "string \<Rightarrow> bool" where
  "simple_key k \<longleftrightarrow> k \<noteq> [] \<and> list_all (\<lambda>c. c \<notin> set ''.[]'') k"

lemma split_keys_simple:
  "list_all (\<lambda>c. c \<notin> set ''.[]'') k \<Longrightarrow>
   split_keys k 0 acc = [acc @ k] \<and> split_keys (k @ CHR ''.'' # s) 0 acc = (acc @ k) # split_keys s 0 []"
  by (induction k arbitrary: acc) (auto simp: Let_def)

lemma path_keys_simple:
  assumes "list_all simple_key ks" and "ks \<noteq> []"
  shows "path_keys (str_join ks ''.'') = ks"
  using assms
proof (induction ks)
  case (Cons k ks)
  have k: "list_all (\<lambda>c. c \<notin> set ''.[]'') k" using Cons.prems by (simp add: simple_key_def)
  show ?case
  proof (cases ks)
    case Nil
    then show ?thesis using split_keys_simple [OF k, of "[]"] by (simp add: path_keys_def)
  next
    case (Cons k' ks')
    with Cons.IH Cons.prems have "path_keys (str_join ks ''.'') = ks" by simp
    then show ?thesis using split_keys_simple [OF k, of "[]" "str_join ks ''.''"] Cons
      by (simp add: path_keys_def)
  qed
qed simp

text \<open>The value at a path of plain keys in nested objects.\<close>

fun lookup_keys :: "val \<Rightarrow> string list \<Rightarrow> val option" where
  "lookup_keys v [] = Some v"
| "lookup_keys v (k # ks) =
     (case v of VMap m \<Rightarrow> (case map_of m k of None \<Rightarrow> None | Some w \<Rightarrow> lookup_keys w ks) | _ \<Rightarrow> None)"

lemma simple_key_plain:
  assumes "simple_key k"
  shows "\<not> suffix '']'' k"
proof
  assume "suffix '']'' k"
  then have "CHR '']'' \<in> set k" by (auto simp: suffix_def)
  with assms show False by (simp add: simple_key_def list_all_iff) blast
qed

lemma extractValue_key:
  "simple_key k \<Longrightarrow> extractValue k (VMap m) = Some (case map_of m k of None \<Rightarrow> VNil | Some w \<Rightarrow> w)"
  by (simp add: extractValue.simps [of k "VMap m"] simple_key_plain)

lemma str_index_prefix: "str_index (p @ s) p = Some 0"
  by (simp add: str_index.simps [of "p @ s" p])

lemma str_index_longer: "length s < length p \<Longrightarrow> str_index s p = None"
  by (cases "str_index s p") (auto dest: str_index_Some)

text \<open>What the walk makes of the value it ends on.\<close>

definition rendered :: "json_lib \<Rightarrow> val \<Rightarrow> (json_error + string \<times> int) option" where
  "rendered lib v =
     (case v of
        VMap m \<Rightarrow> Some (Inr (marshal lib v, int (length (marshal lib v))))
      | VStr s \<Rightarrow> Some (Inr (s, int (length s)))
      | VList vs \<Rightarrow> Some (Inr (fmt_v v, int (length vs)))
      | VNil \<Rightarrow> Some (Inl JsonUnexpectedType)
      | _ \<Rightarrow> Some (Inr (fmt_v v, int (length (fmt_v v)))))"

lemma walk_keys:
  assumes "list_all simple_key ks" and "ks \<noteq> []" and "lookup_keys v ks = Some w"
  shows "walk lib (str_join ks ''.'') v = rendered lib w"
  using assms
proof (induction ks arbitrary: v)
  case (Cons k ks)
  then obtain m u where m: "v = VMap m" "map_of m k = Some u" "lookup_keys u ks = Some w"
    by (auto split: val.splits option.splits)
  have k: "simple_key k" using Cons.prems by simp
  have keys: "path_keys (str_join (k # ks) ''.'') = k # ks" by (rule path_keys_simple [OF Cons.prems(1)]) simp
  show ?case
  proof (cases ks)
    case Nil
    have "replace_first k (k @ ''.'') [] = k" by (simp add: replace_first_def str_index_longer)
    with Nil m k keys show ?thesis
      by (subst walk.simps) (simp add: extractValue_key rendered_def Let_def split: val.split)
  next
    case (Cons k' ks')
    then obtain m' where u: "u = VMap m'" using m(3) by (auto split: val.splits)
    have new: "replace_first (k @ ''.'' @ str_join ks ''.'') (k @ ''.'') [] = str_join ks ''.''"
      using str_index_prefix [of "k @ ''.''" "str_join ks ''.''"] by (simp add: replace_first_def)
    have path: "str_join (k # ks) ''.'' = k @ ''.'' @ str_join ks ''.''" using Cons by simp
    have "walk lib (str_join (k # ks) ''.'') v = walk lib (str_join ks ''.'') u"
      using keys k m(1,2) u new unfolding path by (subst walk.simps) (simp add: extractValue_key Let_def)
    with Cons.IH [OF _ _ m(3)] Cons.prems Cons show ?thesis by simp
  qed
qed simp

text \<open>A key with an index, in a value that is neither an object nor null, panics.\<close>

lemma extractValue_panics:
  assumes "\<And>m. v \<noteq> VMap m" and "v \<noteq> VNil"
  shows "extractValue ''a[0]'' v = None"
proof -
  have bracket: "suffix '']'' ''a[0]''" "str_contains ''a[0]'' ''[''" "scan_bracket ''a[0]'' 0 0 0 = Some (1, 3)"
    by (simp_all add: suffix_def str_contains.simps)
  have index: "drop (Suc 1) (take 3 ''a[0]'') = itoa 0" "take 1 ''a[0]'' = ''a''"
    by (simp_all add: itoa_def nat_digits.simps)
  have "atoi (itoa 0) = Some 0" by (rule atoi_itoa) (simp add: in_int64_def)
  with bracket index assms show ?thesis
    unfolding extractValue.simps [of "''a[0]''" v]
    by (cases v) (simp_all only: if_True option.case prod.case Let_def index val.case simp_thms list.distinct
        less_irrefl if_False val.inject, metis)
qed

lemma walk_panics:
  assumes "\<And>m. v \<noteq> VMap m" and "v \<noteq> VNil"
  shows "walk lib ''a[0]'' v = None"
proof -
  have "hd (path_keys ''a[0]'') = ''a[0]''" by (simp add: path_keys_def)
  then show ?thesis using extractValue_panics [OF assms] by (subst walk.simps) (simp add: Let_def)
qed

end
