(* ===== verification/Conditions.thy ===== *)
theory Conditions
  imports Endpoints Glob JsonPath
begin

text \<open>
  The conditions of an endpoint (\<^verbatim>\<open>config/endpoint/condition.go\<close>) and the placeholders in them
  (\<^verbatim>\<open>placeholder.go\<close>): resolution against a result and the context of a suite, comparison, and the text
  shown for an evaluated condition. The outer \<open>option\<close> of a result is a run-time panic. The parsers of
  durations and of floating point numbers are parameters, beside \<^verbatim>\<open>encoding/json\<close>: \<open>parse_duration\<close> is
  \<^verbatim>\<open>time.ParseDuration\<close> and \<open>parse_float\<close> the truncation \<^verbatim>\<open>int64(f)\<close> of \<^verbatim>\<open>strconv.ParseFloat\<close>; \<open>float_text\<close>
  is the number that it parses, as \<^verbatim>\<open>%v\<close> prints it.
\<close>

record go_lib = json_lib +
  parse_duration :: "string \<Rightarrow> duration option"
  parse_float :: "string \<Rightarrow> int option"
  float_text :: "string \<Rightarrow> string option"

section \<open>Placeholders\<close>

datatype function_type = noFunction | functionLen | functionHas

definition extractFunctionWrapper :: "string \<Rightarrow> function_type \<times> string" where
  "extractFunctionWrapper placeholder =
     (if prefix ''len('' placeholder \<and> suffix '')'' placeholder
      then (functionLen, trim_suffix (trim_prefix placeholder ''len('') '')'')
      else if prefix ''has('' placeholder \<and> suffix '')'' placeholder
      then (functionHas, trim_suffix (trim_prefix placeholder ''has('') '')'')
      else (noFunction, placeholder))"

definition formatWithFunction :: "string \<Rightarrow> function_type \<Rightarrow> string" where
  "formatWithFunction value fn =
     (case fn of functionHas \<Rightarrow> format_bool (value \<noteq> []) | functionLen \<Rightarrow> itoa (int (length value)) | noFunction \<Rightarrow> value)"

definition invalid :: "string \<Rightarrow> string" where
  "invalid s = s @ '' '' @ ''(INVALID)''"

definition resolveJSONPathPlaceholder ::
    "go_lib \<Rightarrow> string \<Rightarrow> function_type \<Rightarrow> string \<Rightarrow> result \<Rightarrow> string option" where
  "resolveJSONPathPlaceholder lib placeholder fn originalPlaceholder r =
     (let path = (if prefix ''[BODY]'' (to_upper placeholder) then drop (length ''[BODY]'') placeholder
                  else trim_prefix placeholder ''[BODY]'');
          path = trim_prefix path ''.''
      in case json_Eval (json_lib.truncate lib) path (r_Body r) of
           None \<Rightarrow> None
         | Some res \<Rightarrow> Some
             (case res of
                Inl err \<Rightarrow> (if fn = functionHas then ''false'' else invalid originalPlaceholder)
              | Inr (resolvedValue, resolvedLength) \<Rightarrow>
                  (case fn of functionHas \<Rightarrow> ''true'' | functionLen \<Rightarrow> itoa resolvedLength | noFunction \<Rightarrow> resolvedValue)))"

definition val_length :: "val \<Rightarrow> nat" where
  "val_length v = (case v of VStr s \<Rightarrow> length s | VList vs \<Rightarrow> length vs | VMap m \<Rightarrow> length m | _ \<Rightarrow> length (fmt_v v))"

definition resolveContextPlaceholder :: "string \<Rightarrow> function_type \<Rightarrow> string \<Rightarrow> gontext \<Rightarrow> string" where
  "resolveContextPlaceholder placeholder fn originalPlaceholder ctx =
     (let contextPath = trim_prefix (trim_prefix placeholder ''[CONTEXT]'') ''.''
      in if contextPath = [] then (if fn = functionHas then ''false'' else invalid originalPlaceholder)
         else (case gontext_Get ctx contextPath of
                 None \<Rightarrow> (if fn = functionHas then ''false'' else invalid originalPlaceholder)
               | Some v \<Rightarrow>
                   (case fn of functionHas \<Rightarrow> ''true'' | functionLen \<Rightarrow> itoa (int (val_length v)) | noFunction \<Rightarrow> fmt_v v)))"

definition resolve_body :: "go_lib \<Rightarrow> function_type \<Rightarrow> result \<Rightarrow> string option" where
  "resolve_body lib fn r =
     (let body = trim_space (r_Body r)
      in case fn of
           functionHas \<Rightarrow> Some (format_bool (length body > 0))
         | functionLen \<Rightarrow>
             (case json_Eval (json_lib.truncate lib) [] (r_Body r) of
                None \<Rightarrow> None
              | Some (Inr (_, resolvedLength)) \<Rightarrow> Some (itoa resolvedLength)
              | Some (Inl _) \<Rightarrow> Some (itoa (int (length body))))
         | noFunction \<Rightarrow> Some body)"

definition ResolvePlaceholder :: "go_lib \<Rightarrow> string \<Rightarrow> result \<Rightarrow> gontext option \<Rightarrow> string option" where
  "ResolvePlaceholder lib placeholder0 r ctx =
     (let originalPlaceholder = trim_space placeholder0;
          (fn, placeholder) = extractFunctionWrapper originalPlaceholder;
          uppercase = to_upper placeholder
      in if prefix ''[CONTEXT]'' uppercase \<and> ctx \<noteq> None
         then Some (resolveContextPlaceholder placeholder fn originalPlaceholder (the ctx))
         else if uppercase = ''[STATUS]'' then Some (formatWithFunction (itoa (HTTPStatus r)) fn)
         else if uppercase = ''[IP]'' then Some (formatWithFunction (r_IP r) fn)
         else if uppercase = ''[RESPONSE_TIME]'' then Some (formatWithFunction (itoa (milliseconds (r_Duration r))) fn)
         else if uppercase = ''[DNS_RCODE]'' then Some (formatWithFunction (DNSRCode r) fn)
         else if uppercase = ''[CONNECTED]'' then Some (formatWithFunction (format_bool (Connected r)) fn)
         else if uppercase = ''[CERTIFICATE_EXPIRATION]''
         then Some (formatWithFunction (itoa (milliseconds (CertificateExpiration r))) fn)
         else if uppercase = ''[DOMAIN_EXPIRATION]''
         then Some (formatWithFunction (itoa (milliseconds (DomainExpiration r))) fn)
         else if uppercase = ''[BODY]'' then resolve_body lib fn r
         else if prefix ''[BODY].'' uppercase \<or> prefix ''[BODY]['' uppercase
         then resolveJSONPathPlaceholder lib placeholder fn originalPlaceholder r
         else (case fn of
                 functionHas \<Rightarrow> Some ''false''
               | functionLen \<Rightarrow> Some (invalid originalPlaceholder)
               | noFunction \<Rightarrow> Some originalPlaceholder))"

section \<open>Comparison\<close>

subsection \<open>Integers with a base prefix\<close>

text \<open>
  \<^verbatim>\<open>strconv.ParseInt(s, 0, 64)\<close>: a sign, the prefixes \<^verbatim>\<open>0b\<close>, \<^verbatim>\<open>0o\<close>, \<^verbatim>\<open>0x\<close> and \<^verbatim>\<open>0\<close>, and underscores between
  digits. \<open>underscore_ok\<close> is the check of the underscores, with the kind of the character before: 0 for the
  beginning, 1 for a digit or a prefix, 2 for an underscore and 3 for another character.
\<close>

definition digit_value :: "char \<Rightarrow> nat option" where
  "digit_value c =
     (let n = of_char c :: nat
      in if 48 \<le> n \<and> n \<le> 57 then Some (n - 48)
         else if 97 \<le> n \<and> n \<le> 122 then Some (n - 87)
         else if 65 \<le> n \<and> n \<le> 90 then Some (n - 55) else None)"

fun underscore_scan :: "bool \<Rightarrow> nat \<Rightarrow> string \<Rightarrow> bool" where
  "underscore_scan hex saw [] \<longleftrightarrow> saw \<noteq> 2"
| "underscore_scan hex saw (c # s) \<longleftrightarrow>
     (if (case digit_value c of Some d \<Rightarrow> d < 10 \<or> hex \<and> d < 16 | None \<Rightarrow> False) then underscore_scan hex 1 s
      else if c = CHR ''_'' then saw = 1 \<and> underscore_scan hex 2 s
      else saw \<noteq> 2 \<and> underscore_scan hex 3 s)"

definition base_prefix :: "string \<Rightarrow> nat option" where
  "base_prefix s =
     (case s of
        z # p # _ \<Rightarrow>
          (if z = CHR ''0'' \<and> char_lower p = CHR ''b'' then Some 2
           else if z = CHR ''0'' \<and> char_lower p = CHR ''o'' then Some 8
           else if z = CHR ''0'' \<and> char_lower p = CHR ''x'' then Some 16 else None)
      | _ \<Rightarrow> None)"

definition drop_sign :: "string \<Rightarrow> string" where
  "drop_sign s = (if s \<noteq> [] \<and> (hd s = CHR ''-'' \<or> hd s = CHR ''+'') then tl s else s)"

definition underscore_ok :: "string \<Rightarrow> bool" where
  "underscore_ok s =
     (let s = drop_sign s
      in case base_prefix s of
           Some b \<Rightarrow> underscore_scan (b = 16) 1 (drop 2 s)
         | None \<Rightarrow> underscore_scan False 0 s)"

fun digits_in_base :: "nat \<Rightarrow> string \<Rightarrow> nat \<Rightarrow> nat option" where
  "digits_in_base base [] acc = Some acc"
| "digits_in_base base (c # s) acc =
     (if c = CHR ''_'' then digits_in_base base s acc
      else (case digit_value c of
              None \<Rightarrow> None
            | Some d \<Rightarrow> if d < base then digits_in_base base s (base * acc + d) else None))"

definition parse_uint0 :: "string \<Rightarrow> nat option" where
  "parse_uint0 s =
     (if s = [] then None
      else
        (let (base, digits) =
               (if hd s = CHR ''0''
                then (case (if length s \<ge> 3 then base_prefix s else None) of
                        Some b \<Rightarrow> (b, drop 2 s) | None \<Rightarrow> (8, drop 1 s))
                else (10, s))
         in if CHR ''_'' \<in> set digits \<and> \<not> underscore_ok s then None else digits_in_base base digits 0))"

definition parse_int0 :: "string \<Rightarrow> int option" where
  "parse_int0 s =
     (if s = [] then None
      else (case parse_uint0 (drop_sign s) of
              None \<Rightarrow> None
            | Some n \<Rightarrow>
                (let i = (if hd s = CHR ''-'' then - int n else int n) in if in_int64 i then Some i else None)))"

subsection \<open>Equality\<close>

text \<open>
  The suffix is tested on the parameters as they were given: \<open>strip\<close> keeps that test (\<open>hasSuffix\<close>)
  when the prefix is tested again after a pattern was stripped.
\<close>

definition strip_with :: "string \<Rightarrow> bool \<Rightarrow> string \<Rightarrow> (bool \<times> string)" where
  "strip_with fnPrefix hasSuffix s =
     (if prefix fnPrefix s \<and> hasSuffix then (True, trim_suffix (trim_prefix s fnPrefix) '')'') else (False, s))"

definition any_option :: "string \<Rightarrow> string \<Rightarrow> bool" where
  "any_option options v = list_ex (\<lambda>option. trim_space option = v) (str_split options '','')"

definition equal_values :: "string \<Rightarrow> string \<Rightarrow> bool" where
  "equal_values left right =
     (case (parse_int0 left, parse_int0 right) of
        (Some i, Some j) \<Rightarrow> i = j
      | _ \<Rightarrow> left = right)"

definition isEqual :: "string \<Rightarrow> string \<Rightarrow> bool" where
  "isEqual left0 right0 =
     (let firstHasFunctionSuffix = suffix '')'' left0; secondHasFunctionSuffix = suffix '')'' right0
      in if \<not> (firstHasFunctionSuffix \<or> secondHasFunctionSuffix) then equal_values left0 right0
         else
           (let (isFirstPattern, left) = strip_with ''pat('' firstHasFunctionSuffix left0;
                (isSecondPattern, right) = strip_with ''pat('' secondHasFunctionSuffix right0
            in if isFirstPattern \<and> \<not> isSecondPattern then pattern_Match left right
               else if \<not> isFirstPattern \<and> isSecondPattern then pattern_Match right left
               else
                 (let (isFirstAny, left) = strip_with ''any('' firstHasFunctionSuffix left;
                      (isSecondAny, right) = strip_with ''any('' secondHasFunctionSuffix right
                  in if isFirstAny \<and> \<not> isSecondAny then any_option left right
                     else if \<not> isFirstAny \<and> isSecondAny then any_option right left
                     else equal_values left right)))"

subsection \<open>Numbers\<close>

definition numerical_value :: "go_lib \<Rightarrow> string \<Rightarrow> int" where
  "numerical_value lib element =
     (case parse_duration lib element of
        Some d \<Rightarrow>
          (if d \<noteq> 0 then milliseconds d
           else (case parse_int0 element of
                   Some n \<Rightarrow> n
                 | None \<Rightarrow> (case parse_float lib element of Some f \<Rightarrow> f | None \<Rightarrow> 0)))
      | None \<Rightarrow>
          (case parse_int0 element of
             Some n \<Rightarrow> n
           | None \<Rightarrow> (case parse_float lib element of Some f \<Rightarrow> f | None \<Rightarrow> 0)))"

section \<open>Display\<close>

definition maximumLength :: nat where
  "maximumLength = 25"

definition prettify :: "string list \<Rightarrow> string list \<Rightarrow> string \<Rightarrow> string" where
  "prettify parameters resolved operator =
     (let is_pattern = (\<lambda>p. prefix ''pat('' p \<and> suffix '')'' p);
          cut_long = (\<lambda>s. if length s > maximumLength then take_runes 25 s @ ''...(truncated)'' else s);
          p0 = parameters ! 0; p1 = parameters ! 1;
          r1 = (if is_pattern p0 then cut_long (resolved ! 1) else resolved ! 1);
          r0 = (if is_pattern p1 then cut_long (resolved ! 0) else resolved ! 0);
          side = (\<lambda>p r. if p \<noteq> r \<and> r \<noteq> invalid p then p @ '' ('' @ r @ '')''
                        else if r = invalid p then r else p)
      in side p0 r0 @ '' '' @ operator @ '' '' @ side p1 r1)"

definition formatDuration :: "duration \<Rightarrow> string" where
  "formatDuration d0 =
     (let d = quot d0 second * second; s = duration_string d
      in if s = ''0s'' then ''0s''
         else if suffix ''0s'' s then trim_suffix (trim_suffix s ''0s'') ''0m''
         else s)"

definition prettifyNumericalParameters :: "go_lib \<Rightarrow> string list \<Rightarrow> int list \<Rightarrow> string \<Rightarrow> string" where
  "prettifyNumericalParameters lib parameters resolved operator =
     (let shown = (\<lambda>i.
            (if parameters ! i = ''[CERTIFICATE_EXPIRATION]'' \<or> parameters ! i = ''[DOMAIN_EXPIRATION]''
             then formatDuration (wrap64 (resolved ! i * millisecond))
             else if parse_duration lib (parameters ! i) \<noteq> None
             then formatDuration (wrap64 (resolved ! i * millisecond))
             else itoa (resolved ! i)))
      in prettify parameters [shown 0, shown 1] operator)"

section \<open>Evaluation\<close>

fun resolve_all :: "go_lib \<Rightarrow> string list \<Rightarrow> result \<Rightarrow> gontext option \<Rightarrow> string list option" where
  "resolve_all lib [] r ctx = Some []"
| "resolve_all lib (e # es) r ctx =
     (case ResolvePlaceholder lib e r ctx of
        None \<Rightarrow> None
      | Some v \<Rightarrow> map_option (Cons v) (resolve_all lib es r ctx))"

definition sanitizeAndResolveWithContext ::
    "go_lib \<Rightarrow> string list \<Rightarrow> result \<Rightarrow> gontext option \<Rightarrow> (string list \<times> string list) option" where
  "sanitizeAndResolveWithContext lib elements r ctx =
     (let parameters = map trim_space elements
      in map_option (Pair parameters) (resolve_all lib parameters r ctx))"

definition sanitizeAndResolveNumericalWithContext ::
    "go_lib \<Rightarrow> string list \<Rightarrow> result \<Rightarrow> gontext option \<Rightarrow> (string list \<times> int list) option" where
  "sanitizeAndResolveNumericalWithContext lib elements r ctx =
     map_option (map_prod id (map (numerical_value lib))) (sanitizeAndResolveWithContext lib elements r ctx)"

datatype operator = OpEq | OpNe | OpLe | OpGe | OpGt | OpLt

definition op_text :: "operator \<Rightarrow> string" where
  "op_text op = (case op of OpEq \<Rightarrow> ''=='' | OpNe \<Rightarrow> ''!='' | OpLe \<Rightarrow> ''<='' | OpGe \<Rightarrow> ''>='' | OpGt \<Rightarrow> ''>'' | OpLt \<Rightarrow> ''<'')"

definition op_separator :: "operator \<Rightarrow> string" where
  "op_separator op = '' '' @ op_text op @ '' ''"

text \<open>The chain of tests of \<open>evaluate\<close>: the first operator found, in this order.\<close>

definition find_operator :: "string \<Rightarrow> operator option" where
  "find_operator condition =
     find (\<lambda>op. str_contains condition (op_separator op)) [OpEq, OpNe, OpLe, OpGe, OpGt, OpLt]"

definition compare_numbers :: "operator \<Rightarrow> int \<Rightarrow> int \<Rightarrow> bool" where
  "compare_numbers op a b = (case op of OpLe \<Rightarrow> a \<le> b | OpGe \<Rightarrow> a \<ge> b | OpGt \<Rightarrow> a > b | _ \<Rightarrow> a < b)"

text \<open>The outcome of a condition and the result with what the evaluation adds to it.\<close>

definition evaluate ::
    "go_lib \<Rightarrow> string \<Rightarrow> result \<Rightarrow> bool \<Rightarrow> bool \<Rightarrow> gontext option \<Rightarrow> (bool \<times> result) option" where
  "evaluate lib condition r dontResolveFailedConditions resolveSuccessfulConditions ctx =
     (case find_operator condition of
        None \<Rightarrow> Some (False, AddError (''invalid condition: '' @ condition) r)
      | Some op \<Rightarrow>
          (let elements = str_split condition (op_separator op);
               shouldResolveCondition =
                 (\<lambda>success. if success then resolveSuccessfulConditions else \<not> dontResolveFailedConditions);
               finish = (\<lambda>success shown.
                 (success, r\<lparr>ConditionResults := ConditionResults r @
                   [\<lparr>cr_condition = (if shouldResolveCondition success then shown else condition),
                     cr_success = success\<rparr>]\<rparr>))
           in if op = OpEq \<or> op = OpNe
              then map_option (\<lambda>(parameters, resolved).
                     (let equal = isEqual (resolved ! 0) (resolved ! 1)
                      in finish (if op = OpEq then equal else \<not> equal) (prettify parameters resolved (op_text op))))
                   (sanitizeAndResolveWithContext lib elements r ctx)
              else map_option (\<lambda>(parameters, resolved).
                     finish (compare_numbers op (resolved ! 0) (resolved ! 1))
                       (prettifyNumericalParameters lib parameters resolved (op_text op)))
                   (sanitizeAndResolveNumericalWithContext lib elements r ctx)))"

text \<open>\<open>Condition.Validate\<close>: the error of an evaluation against an empty result.\<close>

definition condition_Validate :: "go_lib \<Rightarrow> string \<Rightarrow> string option option" where
  "condition_Validate lib condition =
     map_option (\<lambda>(_, r). case Errors r of [] \<Rightarrow> None | e # _ \<Rightarrow> Some e)
       (evaluate lib condition empty_result False False None)"

definition hasBodyPlaceholder :: "string \<Rightarrow> bool" where
  "hasBodyPlaceholder c = str_contains c ''[BODY]''"

definition hasDomainExpirationPlaceholder :: "string \<Rightarrow> bool" where
  "hasDomainExpirationPlaceholder c = str_contains c ''[DOMAIN_EXPIRATION]''"

definition hasIPPlaceholder :: "string \<Rightarrow> bool" where
  "hasIPPlaceholder c = str_contains c ''[IP]''"

section \<open>Facts\<close>

subsection \<open>Integers\<close>

lemma digit_value_digit: "is_digit c \<Longrightarrow> digit_value c = Some (char_digit c) \<and> char_digit c < 10"
  by (auto simp: digit_value_def is_digit_def char_digit_def Let_def)

lemma underscore_not_digit [simp]: "\<not> is_digit (CHR ''_'')"
  by (simp add: is_digit_def)

lemma digits_in_base_ten:
  "list_all is_digit s \<Longrightarrow> digits_in_base 10 s acc = Some (foldl (\<lambda>a c. 10 * a + char_digit c) acc s)"
proof (induction s arbitrary: acc)
  case (Cons c s)
  then have "is_digit c" "c \<noteq> CHR ''_''" by auto
  with Cons show ?case by (simp add: digit_value_digit)
qed simp

lemma hd_nat_digits_0: "hd (nat_digits n) = CHR ''0'' \<longleftrightarrow> n = 0"
proof (induction n rule: nat_digits.induct)
  case (1 n)
  show ?case
  proof (cases "n < 10")
    case True
    then show ?thesis by (simp add: nat_digits_eval digit_char_eq_0)
  next
    case False
    with 1 show ?thesis by (simp add: nat_digits_eval(2))
  qed
qed

lemma parse_uint0_digits: "parse_uint0 (nat_digits n) = Some n"
proof (cases "n = 0")
  case True
  have "nat_digits 0 = ''0''" by (simp add: nat_digits_eval)
  with True show ?thesis by (simp add: parse_uint0_def)
next
  case False
  have "CHR ''_'' \<notin> set (nat_digits n)"
    using nat_digits_all [of n] by (auto simp: list_all_iff)
  with False show ?thesis
    by (simp add: parse_uint0_def hd_nat_digits_0 digits_in_base_ten nat_digits_all digits_nat_def [symmetric])
qed

lemma drop_sign_digits [simp]: "drop_sign (nat_digits n) = nat_digits n"
  using hd_nat_digits [of n] not_digit_signs [of "hd (nat_digits n)"] by (simp add: drop_sign_def)

lemma parse_int0_itoa: "in_int64 i \<Longrightarrow> parse_int0 (itoa i) = Some i"
proof (cases "i < 0")
  case True
  moreover assume "in_int64 i"
  ultimately show ?thesis by (simp add: parse_int0_def itoa_def parse_uint0_digits drop_sign_def)
next
  case False
  moreover assume "in_int64 i"
  moreover have "hd (nat_digits (nat i)) \<noteq> CHR ''-''"
    using hd_nat_digits [of "nat i"] not_digit_signs by blast
  ultimately show ?thesis by (simp add: parse_int0_def itoa_def parse_uint0_digits)
qed

subsection \<open>Equality\<close>

lemma equal_values_sym: "equal_values a b = equal_values b a"
  by (auto simp: equal_values_def split: option.splits)

lemma equal_values_refl [simp]: "equal_values a a"
  by (simp add: equal_values_def split: option.splits)

lemma isEqual_sym: "isEqual a b = isEqual b a"
proof -
  obtain p1 x1 where 1: "strip_with ''pat('' (suffix '')'' a) a = (p1, x1)" by fastforce
  obtain p2 x2 where 2: "strip_with ''pat('' (suffix '')'' b) b = (p2, x2)" by fastforce
  obtain q1 y1 where 3: "strip_with ''any('' (suffix '')'' a) x1 = (q1, y1)" by fastforce
  obtain q2 y2 where 4: "strip_with ''any('' (suffix '')'' b) x2 = (q2, y2)" by fastforce
  show ?thesis
    unfolding isEqual_def Let_def 1 2 prod.case 3 4
    by (simp add: equal_values_sym [of a b] equal_values_sym [of y1 y2])
qed

lemma isEqual_refl: "isEqual a a"
proof -
  obtain p x where 1: "strip_with ''pat('' (suffix '')'' a) a = (p, x)" by fastforce
  obtain q y where 2: "strip_with ''any('' (suffix '')'' a) x = (q, y)" by fastforce
  show ?thesis unfolding isEqual_def Let_def 1 prod.case 2 by simp
qed

lemma isEqual_plain:
  "\<not> suffix '')'' a \<Longrightarrow> \<not> suffix '')'' b \<Longrightarrow> isEqual a b = equal_values a b"
  by (simp add: isEqual_def)

text \<open>Two numbers are compared as numbers.\<close>

lemma suffix_last: "suffix [c] s \<longleftrightarrow> s \<noteq> [] \<and> last s = c"
  by (cases s rule: rev_cases) (auto simp: suffix_def)

lemma itoa_no_paren [simp]: "\<not> suffix '')'' (itoa i)"
proof
  assume "suffix '')'' (itoa i)"
  then have "CHR '')'' \<in> set (itoa i)" by (auto simp: suffix_def)
  with itoa_chars [of _ i] show False by (force simp: is_digit_def)
qed

lemma isEqual_itoa: "in_int64 i \<Longrightarrow> in_int64 j \<Longrightarrow> isEqual (itoa i) (itoa j) \<longleftrightarrow> i = j"
  by (simp add: isEqual_plain equal_values_def parse_int0_itoa)

text \<open>A pattern against a value that is not a function.\<close>

lemma isEqual_pattern:
  assumes "\<not> suffix '')'' v"
  shows "isEqual v (''pat('' @ p @ '')'') \<longleftrightarrow> pattern_Match p v"
    and "isEqual (''pat('' @ p @ '')'') v \<longleftrightarrow> pattern_Match p v"
proof -
  have s: "suffix '')'' (''pat('' @ p @ '')'')" by (simp add: suffix_last)
  have st: "strip_with ''pat('' True (''pat('' @ p @ '')'') = (True, p)"
    using trim_prefix_append [of "''pat(''" "p @ '')''"] by (simp add: strip_with_def)
  show "isEqual (''pat('' @ p @ '')'') v \<longleftrightarrow> pattern_Match p v"
    using assms s st by (simp add: isEqual_def Let_def strip_with_def [of _ False])
  then show "isEqual v (''pat('' @ p @ '')'') \<longleftrightarrow> pattern_Match p v"
    by (simp add: isEqual_sym)
qed

text \<open>Alternatives against a value that is not a function.\<close>

lemma isEqual_any:
  assumes "\<not> suffix '')'' v"
  shows "isEqual v (''any('' @ opts @ '')'') \<longleftrightarrow> any_option opts v"
proof -
  have s: "suffix '')'' (''any('' @ opts @ '')'')" by (simp add: suffix_last)
  have st: "strip_with ''any('' True (''any('' @ opts @ '')'') = (True, opts)"
    using trim_prefix_append [of "''any(''" "opts @ '')''"] by (simp add: strip_with_def)
  have no: "strip_with ''pat('' True (''any('' @ opts @ '')'') = (False, ''any('' @ opts @ '')'')"
    by (simp add: strip_with_def)
  show ?thesis
    using assms s st no by (simp add: isEqual_def Let_def strip_with_def [of _ False])
qed

subsection \<open>The operator and its operands\<close>

lemma op_text_chars: "CHR '' '' \<notin> set (op_text op)" "op_text op \<noteq> []"
  by (cases op; simp add: op_text_def)+

lemma op_text_inj: "op_text op @ CHR '' '' # u = op_text op' @ CHR '' '' # v \<longleftrightarrow> op = op' \<and> u = v"
  using split_at_eq [OF op_text_chars(1) [of op] op_text_chars(1) [of op'], of u v]
  by (cases op; cases op'; simp add: op_text_def)

lemma op_separator_alt: "op_separator op = CHR '' '' # op_text op @ '' ''"
  by (simp add: op_separator_def)

text \<open>Between operands without spaces there is one operator.\<close>

lemma contains_operator:
  assumes a: "CHR '' '' \<notin> set a" and b: "CHR '' '' \<notin> set b"
  shows "str_contains (a @ op_separator op @ b) (op_separator op') \<longleftrightarrow> op = op'"
proof
  assume "str_contains (a @ op_separator op @ b) (op_separator op')"
  then obtain u v where uv: "a @ CHR '' '' # op_text op @ CHR '' '' # b = u @ CHR '' '' # op_text op' @ CHR '' '' # v"
    by (auto simp: str_contains_iff op_separator_alt)
  show "op = op'"
  proof (cases "CHR '' '' \<in> set u")
    case False
    from uv have "op_text op @ CHR '' '' # b = op_text op' @ CHR '' '' # v"
      unfolding split_at_eq [OF a False] by blast
    then show ?thesis by (simp add: op_text_inj)
  next
    case True
    then obtain u1 u2 where u: "u = u1 @ CHR '' '' # u2" "CHR '' '' \<notin> set u1" by (meson split_list_first)
    from uv have rest: "op_text op @ CHR '' '' # b = u2 @ CHR '' '' # op_text op' @ CHR '' '' # v"
      unfolding u(1) append_assoc append_Cons split_at_eq [OF a u(2)] by blast
    have "CHR '' '' \<in> set b"
    proof (cases "CHR '' '' \<in> set u2")
      case False
      from rest have "b = op_text op' @ CHR '' '' # v"
        unfolding split_at_eq [OF op_text_chars(1) False] by blast
      then show ?thesis by simp
    next
      case True
      then obtain w1 w2 where w: "u2 = w1 @ CHR '' '' # w2" "CHR '' '' \<notin> set w1" by (meson split_list_first)
      from rest have "b = w2 @ CHR '' '' # op_text op' @ CHR '' '' # v"
        unfolding w(1) append_assoc append_Cons split_at_eq [OF op_text_chars(1) w(2)] by blast
      then show ?thesis by simp
    qed
    with b show ?thesis by simp
  qed
next
  assume "op = op'"
  then show "str_contains (a @ op_separator op @ b) (op_separator op')" by (auto simp: str_contains_iff)
qed

lemma find_operator_eq:
  assumes "CHR '' '' \<notin> set a" and "CHR '' '' \<notin> set b"
  shows "find_operator (a @ op_separator op @ b) = Some op"
  by (cases op) (simp_all add: find_operator_def contains_operator [OF assms])

lemma str_index_first:
  assumes "c \<notin> set a"
  shows "str_index (a @ (c # p) @ b) (c # p) = Some (length a)"
  using assms
proof (induction a)
  case Nil
  then show ?case by (simp add: str_index.simps)
next
  case (Cons d a)
  then show ?case by (simp add: str_index.simps [of "d # a @ c # p @ b"])
qed

lemma str_split_operator:
  assumes "CHR '' '' \<notin> set a" and "CHR '' '' \<notin> set b"
  shows "str_split (a @ op_separator op @ b) (op_separator op) = [a, b]"
proof -
  have "\<not> str_contains b (op_separator op)"
    using assms(2) by (auto simp: str_contains_iff op_separator_alt)
  then have "str_split b (op_separator op) = [b]" by (rule str_split_single)
  moreover have "str_index (a @ op_separator op @ b) (op_separator op) = Some (length a)"
    using str_index_first [OF assms(1), of "op_text op @ '' ''" b] by (simp add: op_separator_alt)
  ultimately show ?thesis
    by (subst str_split.simps) (simp add: op_separator_alt)
qed

subsection \<open>Operands\<close>

definition no_space :: "string \<Rightarrow> bool" where
  "no_space s \<longleftrightarrow> list_all (\<lambda>c. \<not> is_space c) s"

lemma no_space_trim [simp]: "no_space s \<Longrightarrow> trim_space s = s"
proof -
  assume "no_space s"
  then have "\<And>c. c \<in> set s \<Longrightarrow> \<not> is_space c" by (simp add: no_space_def list_all_iff)
  then have "t \<noteq> [] \<Longrightarrow> set t = set s \<Longrightarrow> \<not> is_space (hd t)" for t
    using hd_in_set [of t] by blast
  then have "dropWhile is_space s = s" "dropWhile is_space (rev s) = rev s"
    unfolding dropWhile_eq_self_iff by auto
  then show ?thesis by (simp add: trim_space_def)
qed

lemma no_space_blank: "no_space s \<Longrightarrow> CHR '' '' \<notin> set s"
  by (auto simp: no_space_def list_all_iff is_space_def)

lemma no_space_itoa [simp]: "no_space (itoa i)"
  using itoa_chars [of _ i] by (fastforce simp: no_space_def list_all_iff is_space_def is_digit_def)

text \<open>A text that is neither a placeholder nor a function resolves to itself.\<close>

lemma char_upper_bracket: "char_upper c = CHR ''['' \<longleftrightarrow> c = CHR ''[''"
proof
  assume u: "char_upper c = CHR ''[''"
  show "c = CHR ''[''"
  proof (cases "97 \<le> (of_char c :: nat) \<and> (of_char c :: nat) \<le> 122")
    case True
    then have "char_of (of_char c - 32 :: nat) = CHR ''[''" using u by (simp add: char_upper_def Let_def)
    then have "of_char (char_of (of_char c - 32 :: nat)) = (of_char (CHR ''['') :: nat)" by simp
    then have "(of_char c - 32 :: nat) mod 256 = 91" by (simp add: of_char_of)
    moreover have "(of_char c - 32 :: nat) mod 256 = of_char c - 32" using True by (intro mod_less) linarith
    ultimately have "(of_char c :: nat) = 123" using True by linarith
    with True show ?thesis by simp
  next
    case False
    then show ?thesis using u by (auto simp: char_upper_def Let_def)
  qed
qed (simp add: char_upper_def Let_def)

lemma char_upper_bracket': "CHR ''['' = char_upper c \<longleftrightarrow> c = CHR ''[''"
  using char_upper_bracket [of c] by metis

definition literal :: "string \<Rightarrow> bool" where
  "literal s \<longleftrightarrow> no_space s \<and> s \<noteq> [] \<and> hd s \<noteq> CHR ''['' \<and> \<not> prefix ''len('' s \<and> \<not> prefix ''has('' s"

lemma upper_no_bracket: "s = [] \<or> hd s \<noteq> CHR ''['' \<Longrightarrow> to_upper s \<noteq> CHR ''['' # t \<and> \<not> prefix (CHR ''['' # t) (to_upper s)"
  by (cases s) (auto simp: to_upper_def char_upper_bracket char_upper_bracket')

lemma ResolvePlaceholder_literal: "literal s \<Longrightarrow> ResolvePlaceholder lib s r ctx = Some s"
  by (simp add: ResolvePlaceholder_def literal_def extractFunctionWrapper_def upper_no_bracket)

lemma literal_itoa [simp]: "literal (itoa i)"
proof -
  have "hd (itoa i) \<in> set (itoa i)" by simp
  then have d: "is_digit (hd (itoa i)) \<or> hd (itoa i) = CHR ''-''" by (rule itoa_chars)
  then have "hd (itoa i) \<noteq> CHR ''[''" by (auto simp: is_digit_def)
  moreover have "\<not> prefix (CHR ''l'' # t) (itoa i)" "\<not> prefix (CHR ''h'' # t) (itoa i)" for t
    using d by (auto simp: is_digit_def prefix_def)
  ultimately show ?thesis by (simp add: literal_def)
qed

lemma ResolvePlaceholder_basic:
  "ResolvePlaceholder lib ''[STATUS]'' r ctx = Some (itoa (HTTPStatus r))"
  "ResolvePlaceholder lib ''[RESPONSE_TIME]'' r ctx = Some (itoa (milliseconds (r_Duration r)))"
  "ResolvePlaceholder lib ''[CONNECTED]'' r ctx = Some (format_bool (Connected r))"
  "ResolvePlaceholder lib ''[IP]'' r ctx = Some (r_IP r)"
  by (simp_all add: ResolvePlaceholder_def extractFunctionWrapper_def no_space_def is_space_def to_upper_def
      char_upper_def Let_def formatWithFunction_def)

lemma evaluate_equality:
  assumes "no_space a" and "no_space b" and "op = OpEq \<or> op = OpNe"
    and "ResolvePlaceholder lib a r ctx = Some x" and "ResolvePlaceholder lib b r ctx = Some y"
  shows "\<exists>r'. evaluate lib (a @ op_separator op @ b) r dont res ctx = Some (isEqual x y \<longleftrightarrow> op = OpEq, r')"
  using assms no_space_blank [OF assms(1)] no_space_blank [OF assms(2)]
  by (auto simp: evaluate_def find_operator_eq str_split_operator sanitizeAndResolveWithContext_def Let_def)

lemma evaluate_order:
  assumes "no_space a" and "no_space b" and "op \<noteq> OpEq" and "op \<noteq> OpNe"
    and "ResolvePlaceholder lib a r ctx = Some x" and "ResolvePlaceholder lib b r ctx = Some y"
  shows "\<exists>r'. evaluate lib (a @ op_separator op @ b) r dont res ctx =
     Some (compare_numbers op (numerical_value lib x) (numerical_value lib y), r')"
  using assms no_space_blank [OF assms(1)] no_space_blank [OF assms(2)]
  by (auto simp: evaluate_def find_operator_eq str_split_operator sanitizeAndResolveWithContext_def
      sanitizeAndResolveNumericalWithContext_def Let_def)

text \<open>\<open>time.ParseDuration\<close> wants a unit, except after 0.\<close>

definition durations_have_units :: "go_lib \<Rightarrow> bool" where
  "durations_have_units lib \<longleftrightarrow> (\<forall>i. parse_duration lib (itoa i) = None \<or> parse_duration lib (itoa i) = Some 0)"

lemma numerical_value_itoa:
  assumes "durations_have_units lib" and "in_int64 i"
  shows "numerical_value lib (itoa i) = i"
proof -
  have "parse_duration lib (itoa i) = None \<or> parse_duration lib (itoa i) = Some 0"
    using assms(1) unfolding durations_have_units_def by blast
  then show ?thesis using parse_int0_itoa [OF assms(2)] by (auto simp: numerical_value_def)
qed

end
