(* ===== verification/Health.thy ===== *)
theory Health
  imports Conditions
begin

text \<open>
  The evaluation of the health of an endpoint and the validation of its configuration
  (\<^verbatim>\<open>config/endpoint/endpoint.go\<close>). The network is a parameter: \<open>client_ops\<close> holds the functions of
  \<^verbatim>\<open>internal/client\<close> that the checks call, \<^verbatim>\<open>url.Parse\<close>, \<^verbatim>\<open>net.LookupIP\<close>, the HTTP client, the clock and the
  random bytes, each as a function of what the code passes to it; a certificate is the time that is left
  until it expires. The outer \<open>option\<close> is a run-time panic, of a condition or of a nil \<open>UIConfig\<close>.
\<close>

record client_ops =
  net_parse_url :: "string \<Rightarrow> string + string \<times> string"
  net_lookup_ip :: "string \<Rightarrow> string + string"
  net_domain_expiration :: "string \<Rightarrow> duration \<times> string option"
  net_dns :: "string \<Rightarrow> string \<Rightarrow> string \<Rightarrow> bool \<times> string \<times> string \<times> string option"
  net_starttls :: "string \<Rightarrow> bool \<times> duration \<times> string option"
  net_tls :: "string \<Rightarrow> string \<Rightarrow> bool \<times> string \<times> duration \<times> string option"
  net_connect :: "string \<Rightarrow> string \<Rightarrow> string \<Rightarrow> bool \<times> string"
  net_sctp :: "string \<Rightarrow> bool"
  net_ping :: "string \<Rightarrow> bool \<times> duration"
  net_websocket :: "string \<Rightarrow> string \<Rightarrow> (string \<times> string) list \<Rightarrow> bool \<times> string \<times> string option"
  net_ssh_banner :: "string \<Rightarrow> bool \<times> int \<times> string option"
  net_ssh_connect :: "string \<Rightarrow> ssh_config \<Rightarrow> bool \<times> string option"
  net_ssh_command :: "string \<Rightarrow> bool \<times> int \<times> string \<times> string option"
  net_grpc :: "string \<Rightarrow> bool \<Rightarrow> bool \<times> string \<times> string option \<times> duration"
  net_http :: "string \<Rightarrow> string \<Rightarrow> (string \<times> string) list \<Rightarrow> string \<Rightarrow>
    string + int \<times> duration option \<times> string \<times> string option"
  net_elapsed :: duration
  net_now :: time
  net_random :: "nat \<Rightarrow> string"

section \<open>Suite context in requests\<close>

definition path_char :: "char \<Rightarrow> bool" where
  "path_char c \<longleftrightarrow>
     (let n = of_char c :: nat
      in 48 \<le> n \<and> n \<le> 57 \<or> 65 \<le> n \<and> n \<le> 90 \<or> 97 \<le> n \<and> n \<le> 122 \<or> c = CHR ''_'' \<or> c = CHR ''.'' \<or> c = CHR ''-'')"

text \<open>
  The replacement of the matches of the regular expression, \<^verbatim>\<open>[CONTEXT].\<close> and then a run of word
  characters, dots and hyphens, from left to right, with the errors of the paths that are not found.
\<close>

function replace_matches :: "gontext \<Rightarrow> string \<Rightarrow> string \<times> string list" where
  "replace_matches ctx s =
     (if s = [] then ([], [])
      else if prefix ''[CONTEXT].'' s \<and> takeWhile path_char (drop 10 s) \<noteq> [] then
        (let path = takeWhile path_char (drop 10 s); rest = drop (10 + length path) s;
             (text, errs) = replace_matches ctx rest
         in case gontext_Get ctx path of
              None \<Rightarrow> (''[CONTEXT].'' @ path @ text, (''path '' @ [CHR 0x27] @ path @ [CHR 0x27] @ '' not found'') # errs)
            | Some v \<Rightarrow> (fmt_v v @ text, errs))
      else (let (text, errs) = replace_matches ctx (tl s) in (hd s # text, errs)))"
  by pat_completeness auto
termination
  by (relation "measure (\<lambda>(_, s). length s)") auto

declare replace_matches.simps [simp del]

definition replaceContextPlaceholders :: "string \<Rightarrow> gontext \<Rightarrow> string \<times> string option" where
  "replaceContextPlaceholders input ctx =
     (let (text, errs) = replace_matches ctx input
      in (text, if errs = [] then None
                else Some (''context placeholder resolution failed: '' @ str_join errs '', '')))"

definition add_error_option :: "string option \<Rightarrow> result \<Rightarrow> result" where
  "add_error_option e r = (case e of None \<Rightarrow> r | Some msg \<Rightarrow> AddError msg r)"

fun replace_headers :: "gontext \<Rightarrow> (string \<times> string) list \<Rightarrow> result \<Rightarrow> (string \<times> string) list \<times> result" where
  "replace_headers ctx [] r = ([], r)"
| "replace_headers ctx ((k, v) # hs) r =
     (let (v', e) = replaceContextPlaceholders v ctx; (hs', r') = replace_headers ctx hs (add_error_option e r)
      in ((k, v') # hs', r'))"

definition preprocessWithContext :: "endpoint \<Rightarrow> result \<Rightarrow> gontext \<Rightarrow> endpoint \<times> result" where
  "preprocessWithContext ep r ctx =
     (let (url, e1) = replaceContextPlaceholders (ep_url ep) ctx; r = add_error_option e1 r;
          (body, e2) = replaceContextPlaceholders (ep_body ep) ctx; r = add_error_option e2 r;
          (headers, r) = replace_headers ctx (ep_headers ep) r
      in (ep\<lparr>ep_url := url, ep_body := body, ep_headers := headers\<rparr>, r))"

section \<open>The request\<close>

text \<open>The replacement of \<^verbatim>\<open>[RANDOM_STRING_n]\<close> for a decimal \<open>n\<close>; a number above 8192 counts as 8192.\<close>

function replace_random :: "(nat \<Rightarrow> string) \<Rightarrow> string \<Rightarrow> string" where
  "replace_random random s =
     (if s = [] then []
      else
        (let digits = takeWhile is_digit (drop 15 s)
         in if prefix ''[RANDOM_STRING_'' s \<and> digits \<noteq> [] \<and> prefix '']'' (drop (15 + length digits) s)
            then random (min 8192 (digits_nat digits)) @ replace_random random (drop (16 + length digits) s)
            else hd s # replace_random random (tl s)))"
  by pat_completeness auto
termination
  by (relation "measure (\<lambda>(_, s). length s)") auto

declare replace_random.simps [simp del]

definition getParsedBody :: "client_ops \<Rightarrow> endpoint \<Rightarrow> string" where
  "getParsedBody net ep =
     (let body = replace_all (ep_body ep) ''[ENDPOINT_NAME]'' (ep_name ep);
          body = replace_all body ''[ENDPOINT_GROUP]'' (ep_group ep);
          body = replace_all body ''[ENDPOINT_URL]'' (ep_url ep)
      in replace_random (net_random net) body)"

definition needsToReadBody :: "endpoint \<Rightarrow> bool" where
  "needsToReadBody ep \<longleftrightarrow>
     list_ex hasBodyPlaceholder (ep_conditions ep) \<or> list_ex (\<lambda>(_, v). str_contains v ''[BODY]'') (ep_store ep)"

definition needsToRetrieveDomainExpiration :: "endpoint \<Rightarrow> bool" where
  "needsToRetrieveDomainExpiration ep = list_ex hasDomainExpirationPlaceholder (ep_conditions ep)"

definition needsToRetrieveIP :: "endpoint \<Rightarrow> bool" where
  "needsToRetrieveIP ep = list_ex hasIPPlaceholder (ep_conditions ep)"

definition getIP :: "client_ops \<Rightarrow> result \<Rightarrow> result" where
  "getIP net r = (case net_lookup_ip net (Hostname r) of Inl e \<Rightarrow> AddError e r | Inr ip \<Rightarrow> r\<lparr>r_IP := ip\<rparr>)"

definition DefaultUserAgent :: string where
  "DefaultUserAgent = ''go-uptime/1.0''"

definition request_body :: "go_lib \<Rightarrow> client_ops \<Rightarrow> endpoint \<Rightarrow> string" where
  "request_body lib net ep =
     (if ep_graphql ep then marshal lib (VMap [(''query'', VStr (getParsedBody net ep))]) else getParsedBody net ep)"

definition call_tls :: "client_ops \<Rightarrow> endpoint \<Rightarrow> result \<Rightarrow> result" where
  "call_tls net ep r =
     (let (r, left, err) =
            (if ep_Type ep = TypeSTARTTLS
             then (let (c, left, err) = net_starttls net (trim_prefix (ep_url ep) ''starttls://'')
                   in (r\<lparr>Connected := c\<rparr>, left, err))
             else (let (c, body, left, err) = net_tls net (trim_prefix (ep_url ep) ''tls://'') (getParsedBody net ep)
                   in (r\<lparr>Connected := c, r_Body := body\<rparr>, left, err)))
      in case err of
           Some e \<Rightarrow> AddError e r
         | None \<Rightarrow> r\<lparr>r_Duration := net_elapsed net, CertificateExpiration := left\<rparr>)"

definition call_ssh :: "client_ops \<Rightarrow> endpoint \<Rightarrow> result \<Rightarrow> result" where
  "call_ssh net ep r =
     (let address = trim_prefix (ep_url ep) ''ssh://'';
          banner = (case ep_ssh ep of
              None \<Rightarrow> True
            | Some cfg \<Rightarrow> ssh_username cfg = [] \<and> ssh_password cfg = [] \<and> ssh_private_key cfg = [])
      in if banner
         then (let (c, status, err) = net_ssh_banner net address; r = r\<lparr>Connected := c, HTTPStatus := status\<rparr>
               in case err of
                    Some e \<Rightarrow> AddError e r
                  | None \<Rightarrow> r\<lparr>Success := Connected r, r_Duration := net_elapsed net\<rparr>)
         else
           (let (c, err) = net_ssh_connect net address (the (ep_ssh ep)); r = r\<lparr>Connected := c\<rparr>
            in case err of
                 Some e \<Rightarrow> AddError e r
               | None \<Rightarrow>
                   (let (success, status, output, err) = net_ssh_command net (getParsedBody net ep);
                        r = r\<lparr>Success := success, HTTPStatus := status\<rparr>
                    in case err of
                         Some e \<Rightarrow> AddError e r
                       | None \<Rightarrow>
                           (let r = (if needsToReadBody ep then r\<lparr>r_Body := output\<rparr> else r)
                            in r\<lparr>r_Duration := net_elapsed net\<rparr>))))"

definition call_http :: "go_lib \<Rightarrow> client_ops \<Rightarrow> endpoint \<Rightarrow> result \<Rightarrow> result" where
  "call_http lib net ep r =
     (let response = net_http net (ep_method ep) (ep_url ep) (ep_headers ep) (request_body lib net ep);
          r = r\<lparr>r_Duration := net_elapsed net\<rparr>
      in case response of
           Inl e \<Rightarrow> AddError e r
         | Inr (status, certificate, body, err) \<Rightarrow>
             (let r = (case certificate of None \<Rightarrow> r | Some left \<Rightarrow> r\<lparr>CertificateExpiration := left\<rparr>);
                  r = r\<lparr>HTTPStatus := status, Connected := status > 0\<rparr>
              in if needsToReadBody ep
                 then (let r = r\<lparr>r_Body := body\<rparr>
                       in case err of None \<Rightarrow> r | Some e \<Rightarrow> AddError (''error reading response body:'' @ e) r)
                 else r))"

definition call :: "go_lib \<Rightarrow> client_ops \<Rightarrow> endpoint \<Rightarrow> result \<Rightarrow> result" where
  "call lib net ep r =
     (case ep_Type ep of
        TypeDNS \<Rightarrow>
          (let q = the (ep_dns ep); (c, rcode, body, err) = net_dns net (dns_query_type q) (dns_query_name q) (ep_url ep);
               r = r\<lparr>Connected := c, DNSRCode := rcode, r_Body := body\<rparr>
           in case err of Some e \<Rightarrow> AddError e r | None \<Rightarrow> r\<lparr>r_Duration := net_elapsed net\<rparr>)
      | TypeSTARTTLS \<Rightarrow> call_tls net ep r
      | TypeTLS \<Rightarrow> call_tls net ep r
      | TypeTCP \<Rightarrow>
          (let (c, body) = net_connect net ''tcp'' (trim_prefix (ep_url ep) ''tcp://'') (getParsedBody net ep)
           in r\<lparr>Connected := c, r_Body := body, r_Duration := net_elapsed net\<rparr>)
      | TypeUDP \<Rightarrow>
          (let (c, body) = net_connect net ''udp'' (trim_prefix (ep_url ep) ''udp://'') (getParsedBody net ep)
           in r\<lparr>Connected := c, r_Body := body, r_Duration := net_elapsed net\<rparr>)
      | TypeSCTP \<Rightarrow>
          r\<lparr>Connected := net_sctp net (trim_prefix (ep_url ep) ''sctp://''), r_Duration := net_elapsed net\<rparr>
      | TypeICMP \<Rightarrow>
          (let (c, d) = net_ping net (trim_prefix (ep_url ep) ''icmp://'') in r\<lparr>Connected := c, r_Duration := d\<rparr>)
      | TypeWS \<Rightarrow>
          (let headers = (if hasHeader (ep_headers ep) ''User-Agent'' then ep_headers ep
                          else alist_put ''User-Agent'' DefaultUserAgent (ep_headers ep));
               (c, body, err) = net_websocket net (ep_url ep) (getParsedBody net ep) headers;
               r = r\<lparr>Connected := c, r_Body := body\<rparr>
           in case err of Some e \<Rightarrow> AddError e r | None \<Rightarrow> r\<lparr>r_Duration := net_elapsed net\<rparr>)
      | TypeSSH \<Rightarrow> call_ssh net ep r
      | TypeGRPC \<Rightarrow>
          (let useTLS = prefix ''grpcs://'' (ep_url ep);
               address = trim_prefix (trim_prefix (ep_url ep) ''grpcs://'') ''grpc://'';
               (connected, status, err, d) = net_grpc net address useTLS
           in case err of
                Some e \<Rightarrow> AddError e r
              | None \<Rightarrow>
                  (let r = r\<lparr>Connected := connected, r_Duration := d\<rparr>
                   in if needsToReadBody ep
                      then r\<lparr>r_Body := ''{'' @ [CHR 0x22] @ ''status'' @ [CHR 0x22] @ '':'' @ [CHR 0x22] @ status @ [CHR 0x22] @ ''}''\<rparr>
                      else r))
      | _ \<Rightarrow> call_http lib net ep r)"

section \<open>Evaluation\<close>

fun evaluate_all ::
    "go_lib \<Rightarrow> ui_config \<Rightarrow> gontext option \<Rightarrow> string list \<Rightarrow> result \<Rightarrow> result option" where
  "evaluate_all lib ui ctx [] r = Some r"
| "evaluate_all lib ui ctx (c # cs) r =
     (case evaluate lib c r (DontResolveFailedConditions ui) (ResolveSuccessfulConditions ui) ctx of
        None \<Rightarrow> None
      | Some (success, r') \<Rightarrow> evaluate_all lib ui ctx cs (if success then r' else r'\<lparr>Success := False\<rparr>))"

definition find_hostname :: "client_ops \<Rightarrow> endpoint \<Rightarrow> result \<Rightarrow> result" where
  "find_hostname net ep r =
     (if ep_dns ep \<noteq> None then r\<lparr>Hostname := trim_suffix (ep_url ep) '':53''\<rparr>
      else if ep_Type ep = TypeICMP then r\<lparr>Hostname := trim_prefix (ep_url ep) ''icmp://''\<rparr>
      else (case net_parse_url net (ep_url ep) of
              Inl e \<Rightarrow> AddError e r
            | Inr (host, port) \<Rightarrow> r\<lparr>Hostname := host, r_port := port\<rparr>))"

definition redact :: "string \<Rightarrow> result \<Rightarrow> result" where
  "redact s r = r\<lparr>Errors := map (\<lambda>e. replace_all e s ''<redacted>'') (Errors r)\<rparr>"

definition clean_up :: "ui_config \<Rightarrow> endpoint \<Rightarrow> result \<Rightarrow> result" where
  "clean_up ui ep r =
     (let r = (if HideURL ui then redact (ep_url ep) r else r);
          r = (if HideHostname ui then (redact (Hostname r) r)\<lparr>Hostname := []\<rparr> else r);
          r = (if HidePort ui \<and> length (r_port r) > 0 then (redact (r_port r) r)\<lparr>r_port := []\<rparr> else r);
          r = (if HideErrors ui then r\<lparr>Errors := []\<rparr> else r)
      in if HideConditions ui then r\<lparr>ConditionResults := []\<rparr> else r)"

text \<open>The result before the call: the endpoint with its context, the hostname, the address and the domain.\<close>

definition prepare :: "client_ops \<Rightarrow> endpoint \<Rightarrow> gontext option \<Rightarrow> endpoint \<times> result" where
  "prepare net ep ctx =
     (let (ep, r) = (case ctx of
            None \<Rightarrow> (ep, empty_result\<lparr>Success := True\<rparr>)
          | Some c \<Rightarrow> preprocessWithContext ep (empty_result\<lparr>Success := True\<rparr>) c);
          r = find_hostname net ep r;
          r = (if needsToRetrieveIP ep then getIP net r else r);
          r = (if needsToRetrieveDomainExpiration ep \<and> length (Hostname r) > 0
               then (let (d, e) = net_domain_expiration net (Hostname r)
                     in add_error_option e (r\<lparr>DomainExpiration := d\<rparr>))
               else r)
      in (ep, r))"

definition EvaluateHealthWithContext :: "go_lib \<Rightarrow> client_ops \<Rightarrow> endpoint \<Rightarrow> gontext option \<Rightarrow> result option" where
  "EvaluateHealthWithContext lib net ep0 ctx =
     (let (ep, r) = prepare net ep0 ctx;
          r = (if Errors r = [] then call lib net ep r else r\<lparr>Success := False\<rparr>)
      in case ep_ui ep of
           None \<Rightarrow> None
         | Some ui \<Rightarrow>
             map_option (\<lambda>r. clean_up ui ep (r\<lparr>Timestamp := net_now net\<rparr>)) (evaluate_all lib ui ctx (ep_conditions ep) r))"

definition EvaluateHealth :: "go_lib \<Rightarrow> client_ops \<Rightarrow> endpoint \<Rightarrow> result option" where
  "EvaluateHealth lib net ep = EvaluateHealthWithContext lib net ep None"

section \<open>Validation\<close>

datatype endpoint_error =
    InvalidEndpointNameGroupOrAlerts name_error
  | ErrEndpointWithNoURL
  | InvalidClientConfig client_error
  | InvalidUIConfig ui_error
  | ErrEndpointWithNoCondition
  | ErrInvalidEndpointIntervalForDomainExpirationPlaceholder
  | ErrInvalidConditionFormat string
  | InvalidDNS dns_error
  | InvalidSSH ssh_error
  | ErrUnknownEndpointType
  | InvalidMaintenanceWindow maintenance_error
  | InvalidRequest
  | EndpointValidationPanic

fun validate_conditions :: "go_lib \<Rightarrow> duration \<Rightarrow> string list \<Rightarrow> endpoint_error option" where
  "validate_conditions lib interval [] = None"
| "validate_conditions lib interval (c # cs) =
     (if interval < 5 * minute \<and> hasDomainExpirationPlaceholder c
      then Some ErrInvalidEndpointIntervalForDomainExpirationPlaceholder
      else (case condition_Validate lib c of
              None \<Rightarrow> Some EndpointValidationPanic
            | Some (Some e) \<Rightarrow> Some (ErrInvalidConditionFormat e)
            | Some None \<Rightarrow> validate_conditions lib interval cs))"

fun validate_windows ::
    "(string \<Rightarrow> location option) \<Rightarrow> maintenance list \<Rightarrow> maintenance_error option \<times> maintenance list" where
  "validate_windows load [] = (None, [])"
| "validate_windows load (w # ws) =
     (case mw_ValidateAndSetDefaults load w of
        (Some e, w') \<Rightarrow> (Some e, w' # ws)
      | (None, w') \<Rightarrow> (let (e, ws') = validate_windows load ws in (e, w' # ws')))"

text \<open>
  The parameters: \<open>load\<close> are the time zones, \<open>known_dns\<close> the types of DNS records, \<open>load_key_pair\<close> the
  files of certificates and \<open>request_ok\<close> whether \<^verbatim>\<open>http.NewRequest\<close> accepts the request.
\<close>

record validation_env =
  ve_lib :: go_lib
  ve_load :: "string \<Rightarrow> location option"
  ve_known_dns :: "string \<Rightarrow> bool"
  ve_load_key_pair :: "string \<Rightarrow> string \<Rightarrow> string option"
  ve_request_ok :: "endpoint \<Rightarrow> bool"

definition set_default_headers :: "endpoint \<Rightarrow> endpoint" where
  "set_default_headers ep =
     (let hs = ep_headers ep;
          hs = (if hasHeader hs ''User-Agent'' then hs else alist_put ''User-Agent'' DefaultUserAgent hs);
          hs = (if \<not> hasHeader hs ''Content-Type'' \<and> ep_graphql ep
                then alist_put ''Content-Type'' ''application/json'' hs else hs)
      in ep\<lparr>ep_headers := hs\<rparr>)"

definition set_endpoint_defaults :: "endpoint \<Rightarrow> endpoint" where
  "set_endpoint_defaults ep =
     (let ep = (if ep_interval ep = 0 then ep\<lparr>ep_interval := 1 * minute\<rparr> else ep);
          ep = (if ep_method ep = [] then ep\<lparr>ep_method := ''GET''\<rparr> else ep)
      in set_default_headers ep)"

definition validate_ui :: "ui_config option \<Rightarrow> ui_error + ui_config" where
  "validate_ui ui = (case ui of None \<Rightarrow> Inr ui_GetDefaultConfig | Some c \<Rightarrow> ui_ValidateAndSetDefaults c)"

definition validate_client ::
    "(string \<Rightarrow> string \<Rightarrow> string option) \<Rightarrow> client_config option \<Rightarrow> client_error option \<times> client_config" where
  "validate_client load client =
     (case client of
        None \<Rightarrow> (None, client_GetDefaultConfig)
      | Some c \<Rightarrow> client_ValidateAndSetDefaults load c)"

definition validate_target :: "validation_env \<Rightarrow> endpoint \<Rightarrow> endpoint_error option \<times> endpoint" where
  "validate_target env ep =
     (case ep_dns ep of
        Some d \<Rightarrow>
          (let (e, d') = dns_ValidateAndSetDefault (ve_known_dns env) d
           in (map_option InvalidDNS e, ep\<lparr>ep_dns := Some d'\<rparr>))
      | None \<Rightarrow>
          (case ep_ssh ep of
             Some cfg \<Rightarrow> (map_option InvalidSSH (ssh_Validate cfg), ep)
           | None \<Rightarrow>
               (if ep_Type ep = TypeUNKNOWN then (Some ErrUnknownEndpointType, ep)
                else
                  (let (e, ws) = validate_windows (ve_load env) (ep_maintenance_windows ep);
                       ep = ep\<lparr>ep_maintenance_windows := ws\<rparr>
                   in case e of
                        Some e \<Rightarrow> (Some (InvalidMaintenanceWindow e), ep)
                      | None \<Rightarrow> (if ve_request_ok env ep then None else Some InvalidRequest, ep)))))"

definition ep_ValidateAndSetDefaults :: "validation_env \<Rightarrow> endpoint \<Rightarrow> endpoint_error option \<times> endpoint" where
  "ep_ValidateAndSetDefaults env ep0 =
     (let (e, as) = validateEndpointNameGroupAndAlerts (ep_name ep0) (ep_group ep0) (ep_alerts ep0);
          ep = ep0\<lparr>ep_alerts := as\<rparr>
      in case e of
           Some e \<Rightarrow> (Some (InvalidEndpointNameGroupOrAlerts e), ep)
         | None \<Rightarrow>
             (if ep_url ep = [] then (Some ErrEndpointWithNoURL, ep)
              else
                (let (ce, cl) = validate_client (ve_load_key_pair env) (ep_client ep);
                     ep = ep\<lparr>ep_client := Some cl\<rparr>
                 in case ce of
                      Some e \<Rightarrow> (Some (InvalidClientConfig e), ep)
                    | None \<Rightarrow>
                        (case validate_ui (ep_ui ep) of
                           Inl UiNilPointerPanic \<Rightarrow> (Some EndpointValidationPanic, ep)
                         | Inl e \<Rightarrow> (Some (InvalidUIConfig e), ep)
                         | Inr ui \<Rightarrow>
                             (let ep = set_endpoint_defaults (ep\<lparr>ep_ui := Some ui\<rparr>)
                              in if ep_conditions ep = [] then (Some ErrEndpointWithNoCondition, ep)
                                 else (case validate_conditions (ve_lib env) (ep_interval ep) (ep_conditions ep) of
                                         Some e \<Rightarrow> (Some e, ep)
                                       | None \<Rightarrow> validate_target env ep))))))"

end
