(* ===== verification/Redaction.thy ===== *)
theory Redaction
  imports Prelude
begin

text \<open>
  What the replacement of a text by a mark leaves of a secret: nothing of the secret that is replaced, and nothing of
  one that was not there before, as long as the mark gives no secret back.
\<close>

text \<open>A text without the byte \<open>c\<close> is in a text around \<open>c\<close> only if it is in one of the two sides.\<close>

lemma contains_around:
  assumes "c \<notin> set u"
  shows "str_contains (a @ c # b) u \<longleftrightarrow> str_contains a u \<or> str_contains b u"
proof
  assume "str_contains (a @ c # b) u"
  then obtain p q where pq: "a @ c # b = p @ u @ q" by (auto simp: str_contains_iff)
  then consider (left) us where "a = p @ u @ us" | (right) us where "p = a @ c # us" "b = us @ u @ q"
  proof -
    from pq obtain us where "a = p @ us \<and> us @ c # b = u @ q \<or> a @ us = p \<and> c # b = us @ u @ q"
      by (auto simp: append_eq_append_conv2)
    then show thesis
    proof (elim disjE conjE)
      assume 1: "a = p @ us" and 2: "us @ c # b = u @ q"
      then obtain vs where "us = u @ vs \<and> vs @ c # b = q \<or> us @ vs = u \<and> c # b = vs @ q"
        by (auto simp: append_eq_append_conv2)
      with assms 1 show thesis by (cases vs) (auto intro: left)
    next
      assume 1: "a @ us = p" and 2: "c # b = us @ u @ q"
      show thesis
      proof (cases us)
        case Nil
        with 2 assms have "u = []" by (cases u) auto
        with 1 Nil show thesis by (intro left [of "[]"]) auto
      next
        case (Cons d vs)
        with 1 2 show thesis by (intro right [of vs]) auto
      qed
    qed
  qed
  then show "str_contains a u \<or> str_contains b u" by cases (auto simp: str_contains_iff)
next
  assume "str_contains a u \<or> str_contains b u"
  then show "str_contains (a @ c # b) u"
  proof
    assume "str_contains a u"
    then obtain p q where "a = p @ u @ q" by (auto simp: str_contains_iff)
    then have "a @ c # b = p @ u @ (q @ c # b)" by simp
    then show ?thesis by (metis str_contains_iff)
  next
    assume "str_contains b u"
    then obtain p q where "b = p @ u @ q" by (auto simp: str_contains_iff)
    then have "a @ c # b = (a @ c # p) @ u @ q" by simp
    then show ?thesis by (metis str_contains_iff)
  qed
qed

text \<open>A mark that gives no secret back: around it, a secret is in a text only if it is in one of the two sides.\<close>

definition inert :: "string \<Rightarrow> string \<Rightarrow> bool" where
  "inert mark u \<longleftrightarrow> u \<noteq> [] \<and> (\<forall>a b. str_contains (a @ mark @ b) u \<longleftrightarrow> str_contains a u \<or> str_contains b u)"

lemma contains_Nil [simp]: "str_contains [] u \<longleftrightarrow> u = []"
  by (auto simp: str_contains_iff)

lemma join_marked:
  assumes "inert mark u" and "\<forall>p \<in> set ps. \<not> str_contains p u"
  shows "\<not> str_contains (str_join ps mark) u"
  using assms(2)
proof (induction ps)
  case Nil
  show ?case using assms(1) by (simp add: inert_def)
next
  case (Cons p ps)
  show ?case
  proof (cases "ps = []")
    case True
    then show ?thesis using Cons.prems by simp
  next
    case False
    then show ?thesis using Cons using assms(1) by (simp add: str_join_Cons inert_def)
  qed
qed

lemma contains_part:
  assumes "str_contains p u" and "s = a @ p @ b"
  shows "str_contains s u"
proof -
  obtain x y where "p = x @ u @ y" using assms(1) by (auto simp: str_contains_iff)
  with assms(2) have "s = (a @ x) @ u @ (y @ b)" by simp
  then show ?thesis by (metis str_contains_iff)
qed

lemma contains_take: "\<not> str_contains s u \<Longrightarrow> \<not> str_contains (take n s) u"
  using contains_part [of "take n s" u s "[]" "drop n s"] by (auto simp: append_take_drop_id)

lemma contains_drop: "\<not> str_contains s u \<Longrightarrow> \<not> str_contains (drop n s) u"
  using contains_part [of "drop n s" u s "take n s" "[]"] by (auto simp: append_take_drop_id)

lemma split_parts:
  "\<not> str_contains s u \<Longrightarrow> p \<in> set (str_split s sep) \<Longrightarrow> \<not> str_contains p u"
proof (induction s sep rule: str_split.induct)
  case (1 s sep)
  show ?case
  proof (cases "sep = [] \<or> str_index s sep = None")
    case True
    then have "str_split s sep = [s]" by (subst str_split.simps) auto
    with 1 show ?thesis by simp
  next
    case False
    then obtain i where i: "str_index s sep = Some i" and ne: "sep \<noteq> []" by auto
    then have "str_split s sep = take i s # str_split (drop (i + length sep) s) sep"
      by (subst str_split.simps) simp
    with 1 ne i show ?thesis by (auto simp: contains_take contains_drop)
  qed
qed

lemma runes_parts: "\<not> str_contains s u \<Longrightarrow> p \<in> set (runes s) \<Longrightarrow> \<not> str_contains p u"
proof (induction s rule: runes.induct)
  case (1 s)
  show ?case
  proof (cases "s = []")
    case True
    with 1 show ?thesis by (simp add: runes.simps [of "[]"])
  next
    case False
    then have "runes s = take (snd (decode_rune s)) s # runes (drop (snd (decode_rune s)) s)"
      by (subst runes.simps) (simp add: Let_def)
    with 1 False show ?thesis by (auto simp: contains_take contains_drop)
  qed
qed

text \<open>No replacement by the mark brings a secret back.\<close>

lemma replace_all_keeps:
  assumes "inert mark u" and "\<not> str_contains s u"
  shows "\<not> str_contains (replace_all s x mark) u"
proof (cases "x = []")
  case False
  then show ?thesis using join_marked [OF assms(1)] split_parts [OF assms(2)] by (simp add: replace_all_def)
next
  case True
  have "str_join ([] # rs @ [[]]) m = m @ concat (map (\<lambda>r. r @ m) rs)" for rs m
    by (induction rs) (simp_all add: str_join_Cons)
  from this [of "runes s" "mark"] True
  have "replace_all s x mark = str_join ([] # runes s @ [[]]) mark"
    by (simp add: replace_all_def)
  moreover have "\<forall>p \<in> set ([] # runes s @ [[]]). \<not> str_contains p u"
    using assms runes_parts [OF assms(2)] by (auto simp: inert_def)
  ultimately show ?thesis using join_marked [OF assms(1)] by simp
qed

text \<open>The replacement of the secret itself leaves none of it.\<close>

lemma str_index_before: "str_index s u = Some i \<Longrightarrow> u \<noteq> [] \<Longrightarrow> \<not> str_contains (take i s) u"
proof (induction s arbitrary: i)
  case Nil
  then show ?case by (simp add: str_index.simps split: if_splits)
next
  case (Cons c s)
  show ?case
  proof (cases "prefix u (c # s)")
    case True
    with Cons.prems show ?thesis by (simp add: str_index.simps [of "c # s"])
  next
    case False
    then obtain j where j: "str_index s u = Some j" "i = Suc j"
      using Cons.prems(1) by (auto simp: str_index.simps [of "c # s"])
    have "\<not> prefix u (c # take j s)"
    proof
      assume "prefix u (c # take j s)"
      then obtain zs where "c # take j s = u @ zs" by (auto simp: prefix_def)
      then have "c # s = u @ zs @ drop j s" by (metis append.assoc append_Cons append_take_drop_id)
      with False show False by (metis prefixI)
    qed
    then show ?thesis using Cons.IH [OF j(1) Cons.prems(2)] j(2) by (simp add: str_contains.simps [of "c # take j s"])
  qed
qed

lemma split_by_secret: "u \<noteq> [] \<Longrightarrow> p \<in> set (str_split s u) \<Longrightarrow> \<not> str_contains p u"
proof (induction s u rule: str_split.induct)
  case (1 s u)
  show ?case
  proof (cases "str_index s u")
    case None
    with 1 have "str_split s u = [s]" by (subst str_split.simps) auto
    with 1 None show ?thesis by (simp add: str_index_None)
  next
    case (Some i)
    with 1 have "str_split s u = take i s # str_split (drop (i + length u) s) u"
      by (subst str_split.simps) simp
    with 1 Some show ?thesis by (auto simp: str_index_before)
  qed
qed

lemma replace_all_removes: "inert mark u \<Longrightarrow> \<not> str_contains (replace_all s u mark) u"
  using join_marked [of mark u "str_split s u"] split_by_secret [of u _ s] by (auto simp: replace_all_def inert_def)

text \<open>A mark of one character that the secret does not have.\<close>

lemma inert_replicate: "u \<noteq> [] \<Longrightarrow> c \<notin> set u \<Longrightarrow> 0 < n \<Longrightarrow> inert (replicate n c) u"
proof (induction n)
  case (Suc n)
  have step: "str_contains (a @ c # b) u \<longleftrightarrow> str_contains a u \<or> str_contains b u" for a b
    by (rule contains_around) (use Suc.prems in simp)
  show ?case
  proof (cases "n = 0")
    case False
    then have "inert (replicate n c) u" using Suc by simp
    then have "str_contains (a @ replicate (Suc n) c @ b) u \<longleftrightarrow> str_contains a u \<or> str_contains b u" for a b
      using step [of a "replicate n c @ b"] by (simp add: inert_def) (metis append_Nil contains_Nil)
    then show ?thesis using Suc.prems by (simp add: inert_def)
  qed (use step Suc.prems in \<open>simp add: inert_def\<close>)
qed simp

end
