(* ===== verification/HealthFacts.thy ===== *)
theory HealthFacts
  imports Health Redaction
begin

text \<open>
  Facts on the evaluation of the health of an endpoint: what the evaluation of the conditions adds to a result,
  what the clean-up removes from it, and what a validated endpoint satisfies.
\<close>

section \<open>Redaction\<close>

text \<open>The secrets that the mark \<^verbatim>\<open><redacted>\<close> cannot give back.\<close>

definition redactable :: "string \<Rightarrow> bool" where
  "redactable u \<longleftrightarrow> u \<noteq> [] \<and> CHR ''<'' \<notin> set u \<and> CHR ''>'' \<notin> set u \<and> \<not> str_contains ''redacted'' u"

lemma redactable_inert: "redactable u \<Longrightarrow> inert ''<redacted>'' u"
proof -
  assume "redactable u"
  then have ne: "u \<noteq> []" and lt: "CHR ''<'' \<notin> set u" and gt: "CHR ''>'' \<notin> set u" and no: "\<not> str_contains ''redacted'' u"
    by (simp_all add: redactable_def)
  have "str_contains (a @ ''<redacted>'' @ b) u \<longleftrightarrow> str_contains a u \<or> str_contains b u" for a b
  proof -
    have "str_contains (a @ ''<redacted>'' @ b) u \<longleftrightarrow> str_contains a u \<or> str_contains (''redacted'' @ CHR ''>'' # b) u"
      using contains_around [OF lt, of a "''redacted>'' @ b"] by simp
    also have "\<dots> \<longleftrightarrow> str_contains a u \<or> str_contains b u"
      unfolding contains_around [OF gt] using no by simp
    finally show ?thesis .
  qed
  with ne show ?thesis by (simp add: inert_def)
qed

definition secret_free :: "string \<Rightarrow> result \<Rightarrow> bool" where
  "secret_free u r \<longleftrightarrow> list_all (\<lambda>e. \<not> str_contains e u) (Errors r)"

lemma secret_free_redact: "redactable u \<Longrightarrow> secret_free u r \<Longrightarrow> secret_free u (redact x r)"
  by (auto simp: secret_free_def redact_def list_all_iff replace_all_keeps redactable_inert)

lemma secret_free_redact_self: "redactable u \<Longrightarrow> secret_free u (redact u r)"
  by (auto simp: secret_free_def redact_def list_all_iff replace_all_removes redactable_inert)

lemma secret_free_update [simp]:
  "secret_free u (r\<lparr>Hostname := h\<rparr>) = secret_free u r"
  "secret_free u (r\<lparr>r_port := p\<rparr>) = secret_free u r"
  "secret_free u (r\<lparr>ConditionResults := crs\<rparr>) = secret_free u r"
  "secret_free u (r\<lparr>Errors := []\<rparr>)"
  by (simp_all add: secret_free_def)

lemma redact_sel [simp]:
  "Hostname (redact s r) = Hostname r" "r_port (redact s r) = r_port r"
  "ConditionResults (redact s r) = ConditionResults r" "Success (redact s r) = Success r"
  by (simp_all add: redact_def)

lemma clean_up_hides_url:
  "HideURL ui \<Longrightarrow> redactable (ep_url ep) \<Longrightarrow> secret_free (ep_url ep) (clean_up ui ep r)"
  by (simp add: clean_up_def Let_def secret_free_redact secret_free_redact_self)

lemma clean_up_hides_hostname:
  "HideHostname ui \<Longrightarrow> redactable (Hostname r) \<Longrightarrow>
   secret_free (Hostname r) (clean_up ui ep r) \<and> Hostname (clean_up ui ep r) = []"
  by (simp add: clean_up_def Let_def secret_free_redact secret_free_redact_self)

lemma clean_up_sel:
  "Success (clean_up ui ep r) = Success r"
  "HideErrors ui \<Longrightarrow> Errors (clean_up ui ep r) = []"
  "ConditionResults (clean_up ui ep r) = (if HideConditions ui then [] else ConditionResults r)"
  by (simp_all add: clean_up_def Let_def)

section \<open>Conditions of an endpoint\<close>

definition has_operator :: "string \<Rightarrow> bool" where
  "has_operator c \<longleftrightarrow> find_operator c \<noteq> None"

lemma evaluate_records:
  assumes "evaluate lib c r dont res ctx = Some (success, r')" and "has_operator c"
  shows "\<exists>shown. r' = r\<lparr>ConditionResults := ConditionResults r @ [\<lparr>cr_condition = shown, cr_success = success\<rparr>]\<rparr>"
proof -
  obtain op where op: "find_operator c = Some op" using assms(2) by (auto simp: has_operator_def)
  show ?thesis
  proof (cases "op = OpEq \<or> op = OpNe")
    case True
    from assms(1) show ?thesis
      unfolding evaluate_def op option.case Let_def if_P [OF True] map_option_eq_Some case_prod_unfold prod.inject by blast
  next
    case False
    from assms(1) show ?thesis
      unfolding evaluate_def op option.case Let_def if_not_P [OF False] map_option_eq_Some case_prod_unfold prod.inject by blast
  qed
qed

lemma evaluate_without_operator:
  "\<not> has_operator c \<Longrightarrow> evaluate lib c r dont res ctx = Some (False, AddError (''invalid condition: '' @ c) r)"
  by (simp add: evaluate_def has_operator_def)

text \<open>Every condition adds its outcome, in the order of the configuration, and the result succeeds when all do.\<close>

lemma evaluate_all_records:
  assumes "evaluate_all lib ui ctx cs r = Some r'" and "list_all has_operator cs"
  shows "\<exists>outcomes. length outcomes = length cs \<and> ConditionResults r' = ConditionResults r @ outcomes \<and>
     (Success r' \<longleftrightarrow> Success r \<and> list_all cr_success outcomes) \<and> Errors r' = Errors r"
  using assms
proof (induction cs arbitrary: r)
  case Nil
  then show ?case by simp
next
  case (Cons c cs)
  obtain success r1 where e: "evaluate lib c r (DontResolveFailedConditions ui) (ResolveSuccessfulConditions ui) ctx =
      Some (success, r1)"
    using Cons.prems(1) by (auto split: option.splits)
  obtain shown where r1: "r1 = r\<lparr>ConditionResults := ConditionResults r @ [\<lparr>cr_condition = shown, cr_success = success\<rparr>]\<rparr>"
    using evaluate_records [OF e] Cons.prems(2) by auto
  have "evaluate_all lib ui ctx cs (if success then r1 else r1\<lparr>Success := False\<rparr>) = Some r'"
    using Cons.prems(1) e by simp
  from Cons.IH [OF this] Cons.prems(2) obtain outcomes where
    o: "length outcomes = length cs"
      "ConditionResults r' = ConditionResults (if success then r1 else r1\<lparr>Success := False\<rparr>) @ outcomes"
      "Success r' \<longleftrightarrow> Success (if success then r1 else r1\<lparr>Success := False\<rparr>) \<and> list_all cr_success outcomes"
      "Errors r' = Errors (if success then r1 else r1\<lparr>Success := False\<rparr>)" by auto
  show ?case
    by (rule exI [of _ "\<lparr>cr_condition = shown, cr_success = success\<rparr> # outcomes"]) (use o r1 in auto)
qed

section \<open>Validated endpoints\<close>

lemma condition_Validate_operator:
  "condition_Validate lib c = Some None \<Longrightarrow> has_operator c"
proof (rule ccontr)
  assume v: "condition_Validate lib c = Some None" and no: "\<not> has_operator c"
  have "condition_Validate lib c = Some (Some (''invalid condition: '' @ c))"
    unfolding condition_Validate_def evaluate_without_operator [OF no] by (simp add: AddError_def empty_result_def)
  with v show False by simp
qed

lemma validate_conditions_operators: "validate_conditions lib interval cs = None \<Longrightarrow> list_all has_operator cs"
  by (induction lib interval cs rule: validate_conditions.induct)
    (auto split: if_splits option.splits dest: condition_Validate_operator)

lemma set_endpoint_defaults_sel [simp]:
  "ep_conditions (set_endpoint_defaults ep) = ep_conditions ep"
  "ep_ui (set_endpoint_defaults ep) = ep_ui ep"
  "ep_alerts (set_endpoint_defaults ep) = ep_alerts ep"
  "ep_name (set_endpoint_defaults ep) = ep_name ep"
  "ep_url (set_endpoint_defaults ep) = ep_url ep"
  "ep_client (set_endpoint_defaults ep) = ep_client ep"
  "ep_interval (set_endpoint_defaults ep) \<noteq> 0"
  "ep_method (set_endpoint_defaults ep) \<noteq> []"
  by (simp_all add: set_endpoint_defaults_def set_default_headers_def Let_def go_time)

lemma equal_fold_refl [simp]: "equal_fold s s"
  by (simp add: equal_fold_def)

lemma hasHeader_put: "hasHeader (alist_put k v hs) k"
proof -
  have "k \<in> fst ` set (alist_put k v hs)" by simp
  then show ?thesis by (force simp: hasHeader_def list_ex_iff)
qed

lemma hasHeader_put_other: "hasHeader hs name \<Longrightarrow> hasHeader (alist_put k v hs) name"
proof -
  assume "hasHeader hs name"
  then obtain k' where "k' \<in> fst ` set hs" "equal_fold k' name" by (force simp: hasHeader_def list_ex_iff)
  then have "k' \<in> fst ` set (alist_put k v hs)" by simp
  then obtain v' where "(k', v') \<in> set (alist_put k v hs)" by force
  with \<open>equal_fold k' name\<close> show ?thesis by (force simp: hasHeader_def list_ex_iff)
qed

lemma default_headers: "hasHeader (ep_headers (set_endpoint_defaults ep)) ''User-Agent''"
  by (auto simp: set_endpoint_defaults_def set_default_headers_def Let_def hasHeader_put hasHeader_put_other)

lemma default_headers_graphql:
  "ep_graphql ep \<Longrightarrow> hasHeader (ep_headers (set_endpoint_defaults ep)) ''Content-Type''"
  by (auto simp: set_endpoint_defaults_def set_default_headers_def Let_def hasHeader_put hasHeader_put_other)

lemma validate_target_sel:
  assumes "validate_target env ep = (e, ep')"
  shows "ep_conditions ep' = ep_conditions ep" "ep_ui ep' = ep_ui ep" "ep_alerts ep' = ep_alerts ep"
    "ep_name ep' = ep_name ep" "ep_url ep' = ep_url ep" "ep_interval ep' = ep_interval ep"
    "ep_method ep' = ep_method ep" "ep_headers ep' = ep_headers ep" "ep_client ep' = ep_client ep"
  using assms by (auto simp: validate_target_def Let_def split: option.splits prod.splits if_splits)

definition valid_ui :: "ui_config \<Rightarrow> bool" where
  "valid_ui ui \<longleftrightarrow> (\<exists>ts. badge_thresholds ui = Some (Some ts) \<and> length ts = 5 \<and> sorted ts)"

lemma sorted_five: "length ts = 5 \<Longrightarrow> \<not> list_ex (\<lambda>i. ts ! i < ts ! (i - 1)) [4, 3, 2, 1] \<Longrightarrow> sorted (ts :: int list)"
  unfolding sorted_iff_nth_Suc by (auto simp: less_Suc_eq numeral_eq_Suc)

lemma validate_ui_valid: "validate_ui ui = Inr ui' \<Longrightarrow> valid_ui ui'"
  by (auto simp: validate_ui_def ui_ValidateAndSetDefaults_def valid_ui_def ui_GetDefaultConfig_def sorted_five
      split: option.splits if_splits)

definition valid_client :: "client_config \<Rightarrow> bool" where
  "valid_client c \<longleftrightarrow>
     millisecond \<le> cl_timeout c \<and>
     (cl_dns_resolver c \<noteq> [] \<longrightarrow> (\<exists>d. parseDNSResolver (cl_dns_resolver c) = Inr d)) \<and>
     (case cl_oauth2 c of None \<Rightarrow> True | Some o2 \<Rightarrow> oauth2_isValid o2) \<and>
     (case cl_iap c of None \<Rightarrow> True | Some iap \<Rightarrow> iap_isValid iap)"

lemma client_check_valid:
  "client_check load c = None \<Longrightarrow> millisecond \<le> cl_timeout c \<Longrightarrow> valid_client c"
  by (auto simp: client_check_def valid_client_def dns_resolver_error_def HasCustomDNSResolver_def
      split: option.splits if_splits sum.splits)

lemma client_check_timeout [simp]: "client_check load (c\<lparr>cl_timeout := t\<rparr>) = client_check load c"
  by (cases "cl_tls c")
    (simp_all add: client_check_def dns_resolver_error_def HasCustomDNSResolver_def HasTLSConfig_def split: option.split)

lemma validate_client_valid:
  assumes "validate_client load cl = (None, c)"
  shows "valid_client c"
proof (cases cl)
  case None
  with assms show ?thesis
    by (auto simp: validate_client_def client_GetDefaultConfig_def valid_client_def go_time)
next
  case (Some c0)
  with assms have "client_check load c = None" and "millisecond \<le> cl_timeout c"
    by (auto simp: validate_client_def client_ValidateAndSetDefaults_def Let_def go_time split: if_splits)
  then show ?thesis by (rule client_check_valid)
qed

text \<open>What an accepted endpoint satisfies.\<close>

definition valid_endpoint :: "endpoint \<Rightarrow> bool" where
  "valid_endpoint ep \<longleftrightarrow>
     ep_name ep \<noteq> [] \<and> ep_url ep \<noteq> [] \<and> ep_method ep \<noteq> [] \<and> ep_interval ep \<noteq> 0 \<and>
     ep_conditions ep \<noteq> [] \<and> list_all has_operator (ep_conditions ep) \<and>
     list_all valid_alert (ep_alerts ep) \<and> hasHeader (ep_headers ep) ''User-Agent'' \<and>
     (case ep_ui ep of None \<Rightarrow> False | Some ui \<Rightarrow> valid_ui ui) \<and>
     (case ep_client ep of None \<Rightarrow> False | Some c \<Rightarrow> valid_client c)"

lemma validate_name_group_alerts:
  "validateEndpointNameGroupAndAlerts name grp as = (None, bs) \<Longrightarrow> name \<noteq> [] \<and> list_all valid_alert bs"
  by (auto simp: validateEndpointNameGroupAndAlerts_def split: if_splits prod.splits option.splits
      dest: validate_alerts_valid)

lemma validate_endpoint_cases:
  assumes "ep_ValidateAndSetDefaults env ep0 = (None, ep)"
  obtains as cl ui ep1 where "validateEndpointNameGroupAndAlerts (ep_name ep0) (ep_group ep0) (ep_alerts ep0) = (None, as)"
    and "ep_url ep0 \<noteq> []" and "validate_client (ve_load_key_pair env) (ep_client ep0) = (None, cl)"
    and "validate_ui (ep_ui ep0) = Inr ui"
    and "ep1 = set_endpoint_defaults (ep0\<lparr>ep_alerts := as, ep_client := Some cl, ep_ui := Some ui\<rparr>)"
    and "ep_conditions ep1 \<noteq> []" and "validate_conditions (ve_lib env) (ep_interval ep1) (ep_conditions ep1) = None"
    and "validate_target env ep1 = (None, ep)"
  using assms
  by (auto simp: ep_ValidateAndSetDefaults_def Let_def split: prod.splits option.splits if_splits sum.splits ui_error.splits)

lemma validated_endpoint:
  assumes "ep_ValidateAndSetDefaults env ep0 = (None, ep)"
  shows "valid_endpoint ep \<and> ep_conditions ep = ep_conditions ep0 \<and> ep_url ep = ep_url ep0 \<and> ep_name ep = ep_name ep0"
  using assms
proof (rule validate_endpoint_cases)
  fix as cl ui ep1
  assume as: "validateEndpointNameGroupAndAlerts (ep_name ep0) (ep_group ep0) (ep_alerts ep0) = (None, as)"
    and url: "ep_url ep0 \<noteq> []" and cl: "validate_client (ve_load_key_pair env) (ep_client ep0) = (None, cl)"
    and ui: "validate_ui (ep_ui ep0) = Inr ui"
    and ep1: "ep1 = set_endpoint_defaults (ep0\<lparr>ep_alerts := as, ep_client := Some cl, ep_ui := Some ui\<rparr>)"
    and conds: "ep_conditions ep1 \<noteq> []" "validate_conditions (ve_lib env) (ep_interval ep1) (ep_conditions ep1) = None"
    and target: "validate_target env ep1 = (None, ep)"
  note sel = validate_target_sel [OF target]
  have "hasHeader (ep_headers ep1) ''User-Agent''" by (simp add: ep1 default_headers)
  moreover have "list_all has_operator (ep_conditions ep1)" by (rule validate_conditions_operators [OF conds(2)])
  ultimately show ?thesis
    using validate_name_group_alerts [OF as] validate_ui_valid [OF ui] validate_client_valid [OF cl] url conds(1)
    by (simp add: valid_endpoint_def sel) (simp add: ep1)
qed

section \<open>The health of a validated endpoint\<close>

lemma EvaluateHealthWithContext_cases:
  assumes "EvaluateHealthWithContext lib net ep0 ctx = Some r"
  obtains ep r0 ui r1 where "prepare net ep0 ctx = (ep, r0)" and "ep_ui ep = Some ui"
    and "evaluate_all lib ui ctx (ep_conditions ep) (if Errors r0 = [] then call lib net ep r0 else r0\<lparr>Success := False\<rparr>) = Some r1"
    and "r = clean_up ui ep (r1\<lparr>Timestamp := net_now net\<rparr>)"
proof -
  obtain ep r0 where p: "prepare net ep0 ctx = (ep, r0)" by fastforce
  with assms that show thesis by (auto simp: EvaluateHealthWithContext_def Let_def split: option.splits)
qed

lemma prepare_endpoint:
  assumes "prepare net ep0 ctx = (ep, r)"
  shows "ep_ui ep = ep_ui ep0" "ep_conditions ep = ep_conditions ep0" "ctx = None \<Longrightarrow> ep = ep0"
  using assms by (auto simp: prepare_def preprocessWithContext_def Let_def split: option.splits prod.splits)

lemma find_hostname_crs [simp]: "ConditionResults (find_hostname net ep r) = ConditionResults r"
  by (simp add: find_hostname_def AddError_def split: sum.split)

lemma add_error_option_crs [simp]: "ConditionResults (add_error_option e r) = ConditionResults r"
  by (simp add: add_error_option_def AddError_def split: option.split)

lemma replace_headers_crs: "replace_headers ctx hs r = (hs', r') \<Longrightarrow> ConditionResults r' = ConditionResults r"
  by (induction ctx hs r arbitrary: hs' r' rule: replace_headers.induct) (auto simp: Let_def split: prod.splits)

lemma prepare_crs: "prepare net ep0 ctx = (ep, r) \<Longrightarrow> ConditionResults r = []"
  by (auto simp: prepare_def preprocessWithContext_def getIP_def AddError_def Let_def empty_result_def
      split: option.splits prod.splits if_splits sum.splits dest!: replace_headers_crs)

lemma AddError_crs [simp]: "ConditionResults (AddError e r) = ConditionResults r"
  by (simp add: AddError_def)

lemma call_parts_crs [simp]:
  "ConditionResults (call_tls net ep r) = ConditionResults r"
  "ConditionResults (call_ssh net ep r) = ConditionResults r"
  "ConditionResults (call_http lib net ep r) = ConditionResults r"
  by (simp_all add: call_tls_def call_ssh_def call_http_def Let_def case_prod_unfold split: option.split sum.split)

lemma call_crs: "ConditionResults (call lib net ep r) = ConditionResults r"
  by (cases "ep_Type ep") (simp_all add: call_def Let_def case_prod_unfold split: option.split)

text \<open>
  The outcome of a check of a validated endpoint: one outcome for every condition, and the result is a success
  only if all of them are, and nothing failed before the call.
\<close>

lemma health_outcomes:
  assumes "EvaluateHealthWithContext lib net ep0 ctx = Some r" and "list_all has_operator (ep_conditions ep0)"
    and "ep_ui ep0 = Some ui" and "\<not> HideConditions ui"
  shows "length (ConditionResults r) = length (ep_conditions ep0) \<and>
     (Success r \<longrightarrow> list_all cr_success (ConditionResults r) \<and> Errors (snd (prepare net ep0 ctx)) = [])"
  using assms(1)
proof (rule EvaluateHealthWithContext_cases)
  fix ep r0 ui' r1
  assume p: "prepare net ep0 ctx = (ep, r0)" and ui': "ep_ui ep = Some ui'"
    and e: "evaluate_all lib ui' ctx (ep_conditions ep) (if Errors r0 = [] then call lib net ep r0 else r0\<lparr>Success := False\<rparr>) = Some r1"
    and r: "r = clean_up ui' ep (r1\<lparr>Timestamp := net_now net\<rparr>)"
  let ?r = "if Errors r0 = [] then call lib net ep r0 else r0\<lparr>Success := False\<rparr>"
  have eq: "ui' = ui" using ui' assms(3) prepare_endpoint(1) [OF p] by simp
  have crs: "ConditionResults ?r = []" using prepare_crs [OF p] by (simp add: call_crs)
  have ops: "list_all has_operator (ep_conditions ep)" using assms(2) prepare_endpoint(2) [OF p] by simp
  obtain outcomes where o: "length outcomes = length (ep_conditions ep)" "ConditionResults r1 = outcomes"
      "Success r1 \<longleftrightarrow> Success ?r \<and> list_all cr_success outcomes"
    using evaluate_all_records [OF e ops] unfolding crs append_Nil by blast
  have "Success ?r \<Longrightarrow> Errors r0 = []" by (auto split: if_splits)
  moreover have "ConditionResults r = outcomes" "Success r = Success r1"
    using o(2) assms(4) by (simp_all add: r eq clean_up_sel)
  moreover have "length outcomes = length (ep_conditions ep0)" using o(1) prepare_endpoint(2) [OF p] by simp
  ultimately show ?thesis using o(3) by (simp only: p snd_conv) blast
qed

end
