(* ===== verification/Suites.thy ===== *)
theory Suites
  imports Health
begin

text \<open>
  Suites (\<^verbatim>\<open>internal/config/suite\<close>): endpoints executed one after the other with a shared context. The
  clock and the network are given for every endpoint by its position (\<open>step_env\<close>): when its check
  started, how long it took, and whether the timeout of the suite had expired before. The timer delivers
  its expiration once. A Go map that is ranged over is the list of its entries in the order of the range.
\<close>

record suite =
  su_name :: string
  su_group :: string
  su_enabled :: "bool option"
  su_interval :: duration
  su_timeout :: duration
  su_context :: "gontext option"
  su_endpoints :: "endpoint list"

record suite_result =
  sr_name :: string
  sr_group :: string
  sr_success :: bool
  sr_timestamp :: time
  sr_duration :: duration
  sr_endpoint_results :: "result list"
  sr_context :: gontext
  sr_errors :: "string list"

definition su_IsEnabled :: "suite \<Rightarrow> bool" where
  "su_IsEnabled s = (case su_enabled s of None \<Rightarrow> True | Some b \<Rightarrow> b)"

definition su_Key :: "suite \<Rightarrow> string" where
  "su_Key s = ConvertGroupAndNameToKey (su_group s) (su_name s)"

subsection \<open>Validation\<close>

datatype suite_error =
    ErrSuiteWithNoName
  | ErrSuiteWithNoEndpoints
  | ErrSuiteWithDuplicateEndpointNames string
  | InvalidSuiteEndpoint string endpoint_error
  | ErrSuiteWithInvalidTimeout

text \<open>The loop over the endpoints, with the names seen so far; the endpoints after an error are left as they were.\<close>

fun validate_suite_endpoints ::
    "validation_env \<Rightarrow> string \<Rightarrow> string list \<Rightarrow> endpoint list \<Rightarrow> suite_error option \<times> endpoint list" where
  "validate_suite_endpoints env grp names [] = (None, [])"
| "validate_suite_endpoints env grp names (ep # eps) =
     (if ep_name ep \<in> set names then (Some (ErrSuiteWithDuplicateEndpointNames (ep_name ep)), ep # eps)
      else
        (case ep_ValidateAndSetDefaults env (ep\<lparr>ep_group := grp\<rparr>) of
           (Some e, ep') \<Rightarrow> (Some (InvalidSuiteEndpoint (ep_name ep) e), ep' # eps)
         | (None, ep') \<Rightarrow>
             (let (e, eps') = validate_suite_endpoints env grp (ep_name ep # names) eps in (e, ep' # eps'))))"

definition suite_ValidateAndSetDefaults :: "validation_env \<Rightarrow> suite \<Rightarrow> suite_error option \<times> suite" where
  "suite_ValidateAndSetDefaults env s =
     (if su_name s = [] then (Some ErrSuiteWithNoName, s)
      else if su_endpoints s = [] then (Some ErrSuiteWithNoEndpoints, s)
      else
        (let (e, eps) = validate_suite_endpoints env (su_group s) [] (su_endpoints s);
             s = s\<lparr>su_endpoints := eps\<rparr>
         in case e of
              Some e \<Rightarrow> (Some e, s)
            | None \<Rightarrow>
                (let s = (if su_interval s = 0 then s\<lparr>su_interval := 10 * minute\<rparr> else s);
                     s = (if su_timeout s = 0 then s\<lparr>su_timeout := 5 * minute\<rparr> else s)
                 in if su_timeout s < 0 then (Some ErrSuiteWithInvalidTimeout, s)
                    else (None, (if su_context s = None then s\<lparr>su_context := Some []\<rparr> else s)))))"

subsection \<open>Stored values\<close>

definition parse_bool :: "string \<Rightarrow> bool option" where
  "parse_bool s =
     (if s \<in> set [''1'', ''t'', ''T'', ''TRUE'', ''true'', ''True''] then Some True
      else if s \<in> set [''0'', ''f'', ''F'', ''FALSE'', ''false'', ''False''] then Some False else None)"

text \<open>\<open>extractValueForStorage\<close>: the text of the error, or the value.\<close>

definition typed_value :: "go_lib \<Rightarrow> string \<Rightarrow> val" where
  "typed_value lib s =
     (case atoi s of
        Some n \<Rightarrow> VNum (itoa n)
      | None \<Rightarrow>
          (case float_text lib s of
             Some f \<Rightarrow> VNum f
           | None \<Rightarrow> (case parse_bool s of Some b \<Rightarrow> VBool b | None \<Rightarrow> VStr s)))"

definition extractValueForStorage :: "go_lib \<Rightarrow> string \<Rightarrow> result \<Rightarrow> (string + val) option" where
  "extractValueForStorage lib placeholder r =
     map_option (\<lambda>resolved.
         if suffix '' (INVALID)'' resolved then Inl (''invalid path: '' @ trim_suffix resolved '' (INVALID)'')
         else Inr (typed_value lib resolved))
       (ResolvePlaceholder lib placeholder r None)"

fun store_values ::
    "go_lib \<Rightarrow> gontext \<Rightarrow> (string \<times> string) list \<Rightarrow> result \<Rightarrow> (gontext \<times> string list) option" where
  "store_values lib ctx [] r = Some (ctx, [])"
| "store_values lib ctx ((contextKey, placeholder) # ms) r =
     (case extractValueForStorage lib placeholder r of
        None \<Rightarrow> None
      | Some (Inl e) \<Rightarrow>
          map_option (\<lambda>(ctx, errs). (ctx, (contextKey @ '': '' @ e) # errs)) (store_values lib ctx ms r)
      | Some (Inr v) \<Rightarrow> store_values lib (gontext_Set ctx contextKey v) ms r)"

definition StoreResultValues ::
    "go_lib \<Rightarrow> gontext \<Rightarrow> (string \<times> string) list \<Rightarrow> result \<Rightarrow> (gontext \<times> string option) option" where
  "StoreResultValues lib ctx mappings r =
     map_option (\<lambda>(ctx, errs).
         (ctx, if errs = [] then None else Some (''failed to extract values: '' @ str_join errs ''; '')))
       (store_values lib ctx mappings r)"

subsection \<open>Execution\<close>

record step_env =
  se_net :: client_ops
  se_start :: time
  se_elapsed :: duration
  se_expired :: bool

definition execute_endpoint ::
    "go_lib \<Rightarrow> step_env \<Rightarrow> endpoint \<Rightarrow> gontext \<Rightarrow> (result \<times> gontext) option" where
  "execute_endpoint lib env ep ctx =
     (case EvaluateHealthWithContext lib (se_net env) ep (Some ctx) of
        None \<Rightarrow> None
      | Some r \<Rightarrow>
          (let r = r\<lparr>r_Name := ep_name ep, Timestamp := se_start env, r_Duration := se_elapsed env\<rparr>
           in map_option (\<lambda>(ctx, e).
                  (case e of None \<Rightarrow> r | Some msg \<Rightarrow> AddError (''failed to store values: '' @ msg) r, ctx))
                (StoreResultValues lib ctx (ep_store ep) r)))"

text \<open>
  The loop of \<open>Execute\<close> from the position \<open>i\<close> on: \<open>failed\<close> is \<open>suiteHasFailed\<close> and \<open>fired\<close> whether the
  timer has delivered its expiration. It gives the errors of the suite, the results and the context.
  The \<^verbatim>\<open>break\<close> of the code leaves the \<^verbatim>\<open>select\<close> only, so that the endpoint is executed all the same.
\<close>

fun suite_loop ::
    "go_lib \<Rightarrow> (nat \<Rightarrow> step_env) \<Rightarrow> duration \<Rightarrow> nat \<Rightarrow> bool \<Rightarrow> bool \<Rightarrow> gontext \<Rightarrow> endpoint list \<Rightarrow>
     (string list \<times> result list \<times> gontext) option" where
  "suite_loop lib env timeout i failed fired ctx [] = Some ([], [], ctx)"
| "suite_loop lib env timeout i failed fired ctx (ep # eps) =
     (if failed \<and> \<not> ep_always_run ep then suite_loop lib env timeout (Suc i) failed fired ctx eps
      else
        (let expires = (\<not> fired \<and> se_expired (env i));
             errs = (if expires then [''suite execution timed out after '' @ duration_string timeout] else [])
         in case execute_endpoint lib (env i) ep ctx of
              None \<Rightarrow> None
            | Some (r, ctx') \<Rightarrow>
                map_option (\<lambda>(errs', rs, ctx''). (errs @ errs', r # rs, ctx''))
                  (suite_loop lib env timeout (Suc i) (failed \<or> \<not> Success r) (fired \<or> expires) ctx' eps)))"

definition CalculateSuccess :: "suite_result \<Rightarrow> suite_result" where
  "CalculateSuccess r = r\<lparr>sr_success := list_all Success (sr_endpoint_results r) \<and> sr_errors r = []\<rparr>"

definition suite_Execute ::
    "go_lib \<Rightarrow> (nat \<Rightarrow> step_env) \<Rightarrow> time \<Rightarrow> duration \<Rightarrow> suite \<Rightarrow> suite_result option" where
  "suite_Execute lib env start elapsed s =
     map_option (\<lambda>(errs, rs, ctx).
         CalculateSuccess \<lparr>sr_name = su_name s, sr_group = su_group s, sr_success = True, sr_timestamp = start,
           sr_duration = elapsed, sr_endpoint_results = rs, sr_context = gontext_GetAll ctx, sr_errors = errs\<rparr>)
       (suite_loop lib env (su_timeout s) 0 False False (gontext_New (su_context s)) (su_endpoints s))"

section \<open>Facts\<close>

text \<open>
  The endpoints that a run executes: all of them up to the first failure, and those marked always-run
  after it. \<open>executed\<close> gives their positions, from the outcomes of the executed ones in order.
\<close>

fun executed :: "nat \<Rightarrow> bool \<Rightarrow> endpoint list \<Rightarrow> bool list \<Rightarrow> nat list" where
  "executed i failed [] oks = []"
| "executed i failed (ep # eps) oks =
     (if failed \<and> \<not> ep_always_run ep then executed (Suc i) failed eps oks
      else (case oks of
              [] \<Rightarrow> []
            | ok # oks' \<Rightarrow> i # executed (Suc i) (failed \<or> \<not> ok) eps oks'))"

lemma execute_endpoint_name: "execute_endpoint lib env ep ctx = Some (r, ctx') \<Longrightarrow> r_Name r = ep_name ep"
  by (auto simp: execute_endpoint_def Let_def AddError_def split: option.splits)

lemma suite_loop_executed:
  assumes "suite_loop lib env timeout i failed fired ctx eps = Some (errs, rs, ctx')"
  shows "map r_Name rs = map (\<lambda>k. ep_name (eps ! (k - i))) (executed i failed eps (map Success rs)) \<and>
     length (executed i failed eps (map Success rs)) = length rs \<and>
     list_all (\<lambda>k. i \<le> k) (executed i failed eps (map Success rs))"
  using assms
proof (induction eps arbitrary: i failed fired ctx errs rs)
  case (Cons ep eps)
  have shift: "map (\<lambda>k. ep_name (eps ! (k - Suc i))) ks = map (\<lambda>k. ep_name ((ep # eps) ! (k - i))) ks"
    if "list_all (\<lambda>k. Suc i \<le> k) ks" for ks
    using that by (auto simp: list_all_iff nth_Cons' Suc_le_eq)
  have weaken: "list_all (\<lambda>k. Suc i \<le> k) ks \<Longrightarrow> list_all (\<lambda>k. i \<le> k) ks" for ks
    by (auto simp: list_all_iff)
  show ?case
  proof (cases "failed \<and> \<not> ep_always_run ep")
    case True
    with Cons.prems have "suite_loop lib env timeout (Suc i) failed fired ctx eps = Some (errs, rs, ctx')" by simp
    note ih = Cons.IH [OF this]
    with True show ?thesis using shift [of "executed (Suc i) failed eps (map Success rs)"]
        weaken [of "executed (Suc i) failed eps (map Success rs)"] by simp
  next
    case False
    let ?expires = "\<not> fired \<and> se_expired (env i)"
    obtain r ctx1 where r: "execute_endpoint lib (env i) ep ctx = Some (r, ctx1)"
      using Cons.prems False by (auto simp: Let_def split: option.splits)
    obtain errs' rs' where rest: "suite_loop lib env timeout (Suc i) (failed \<or> \<not> Success r) (fired \<or> ?expires) ctx1 eps =
        Some (errs', rs', ctx')" and rs: "rs = r # rs'"
      using Cons.prems False r by (auto simp: Let_def)
    note ih = Cons.IH [OF rest]
    let ?ks = "executed (Suc i) (failed \<or> \<not> Success r) eps (map Success rs')"
    have "executed i failed (ep # eps) (map Success rs) = i # ?ks"
      using False by (auto simp: rs)
    then show ?thesis
      using ih shift [of ?ks] weaken [of ?ks] execute_endpoint_name [OF r] by (simp add: rs)
  qed
qed simp

text \<open>While no executed endpoint fails, all are executed.\<close>

lemma executed_all: "length oks = length eps \<Longrightarrow> set oks \<subseteq> {True} \<Longrightarrow> executed i False eps oks = [i..<i + length eps]"
proof (induction eps arbitrary: i oks)
  case (Cons ep eps)
  obtain ok oks' where oks: "oks = ok # oks'" using Cons.prems(1) by (cases oks) auto
  with Cons.prems have "ok" "length oks' = length eps" "set oks' \<subseteq> {True}" by auto
  moreover have "[i..<i + length (ep # eps)] = i # [Suc i..<Suc i + length eps]"
    by (simp add: upt_conv_Cons del: upt_Suc)
  ultimately show ?case using Cons.IH [of oks' "Suc i"] oks by (simp del: upt_Suc)
qed simp

text \<open>The timer is reported at most once, and its expiration stops nothing.\<close>

lemma suite_loop_timeout:
  assumes "suite_loop lib env timeout i failed fired ctx eps = Some (errs, rs, ctx')"
  shows "errs = [] \<or> \<not> fired \<and> errs = [''suite execution timed out after '' @ duration_string timeout]"
  using assms
proof (induction eps arbitrary: i failed fired ctx errs rs)
  case (Cons ep eps)
  show ?case
  proof (cases "failed \<and> \<not> ep_always_run ep")
    case True
    with Cons.prems show ?thesis by (auto dest: Cons.IH)
  next
    case False
    with Cons.prems show ?thesis
      by (auto simp: Let_def split: option.splits if_splits dest!: Cons.IH)
  qed
qed simp

lemma suite_Execute_success:
  "suite_Execute lib env start elapsed s = Some r \<Longrightarrow>
   sr_success r \<longleftrightarrow> list_all Success (sr_endpoint_results r) \<and> sr_errors r = []"
  by (auto simp: suite_Execute_def CalculateSuccess_def)

end
