(* ===== verification/SuiteMonitor.thy ===== *)
theory SuiteMonitor
  imports Suites PushMonitor
begin

text \<open>
  The monitoring of a suite (\<^verbatim>\<open>internal/watchdog/suite.go\<close>): its execution, the insertion of its result and
  the alerts of its endpoints, for which the code takes the result at the same position.
\<close>

record 'st suite_ops =
  so_insert :: "'st \<Rightarrow> suite \<Rightarrow> suite_result \<Rightarrow> store_error option \<times> 'st"

definition UpdateSuiteStatus :: "'st suite_ops \<Rightarrow> suite \<Rightarrow> suite_result \<Rightarrow> 'st monitor_state \<Rightarrow> 'st monitor_state" where
  "UpdateSuiteStatus ops s r st = st\<lparr>mo_store := snd (so_insert ops (mo_store st) s r)\<rparr>"

text \<open>The loop over the endpoints of the suite, beside the results that are left.\<close>

fun suite_alerting ::
    "'st watchdog_env \<Rightarrow> 'st monitor_config \<Rightarrow> endpoint list \<Rightarrow> result list \<Rightarrow> 'st monitor_state \<Rightarrow>
     endpoint list \<times> 'st monitor_state" where
  "suite_alerting env mc (ep # eps) (r # rs) st =
     (let (ep', st') =
            (if mc_alerting mc \<noteq> None \<and> \<not> IsUnderMaintenance (mc_local mc) (wd_now env) (mc_maintenance mc) \<and>
                \<not> isUnderMaintenanceWindow (mc_local mc) (wd_now env) (ep_maintenance_windows ep)
             then (let (ep', s', log) = HandleAlerting env (mc_alerting mc) ep r (mo_store st)
                   in (ep', st\<lparr>mo_store := s', mo_notices := mo_notices st @ map (Pair (ep_Key ep)) log\<rparr>))
             else (ep, st));
          (eps', st'') = suite_alerting env mc eps rs st'
      in (ep' # eps', st''))"
| "suite_alerting env mc eps rs st = (eps, st)"

definition executeSuite ::
    "'st watchdog_env \<Rightarrow> 'st monitor_config \<Rightarrow> 'st suite_ops \<Rightarrow> bool \<Rightarrow> go_lib \<Rightarrow> (nat \<Rightarrow> step_env) \<Rightarrow> time \<Rightarrow>
     duration \<Rightarrow> suite \<Rightarrow> 'st monitor_state \<Rightarrow> (suite \<times> 'st monitor_state) option" where
  "executeSuite env mc ops connected lib steps start elapsed s st0 =
     (if \<not> connected then Some (s, st0)
      else (case suite_Execute lib steps start elapsed s of
              None \<Rightarrow> None
            | Some r \<Rightarrow>
                (let (eps, st) = suite_alerting env mc (su_endpoints s) (sr_endpoint_results r) (UpdateSuiteStatus ops s r st0)
                 in Some (s\<lparr>su_endpoints := eps\<rparr>, st))))"

section \<open>Facts\<close>

text \<open>The alerting of a suite handles the results in pairs with the endpoints at the same position.\<close>

lemma suite_alerting_length: "length (fst (suite_alerting env mc eps rs st)) = length eps"
proof (induction eps arbitrary: rs st)
  case (Cons ep eps)
  show ?case
  proof (cases rs)
    case (Cons r rs')
    then show ?thesis using Cons.IH by (simp add: Let_def case_prod_unfold)
  qed simp
qed simp

text \<open>When no endpoint fails, the results belong to the endpoints they are handled for.\<close>

lemma suite_success_aligned:
  assumes "suite_loop lib env timeout 0 False fired ctx eps = Some (errs, rs, ctx')"
    and "list_all Success rs" and "length rs = length eps"
  shows "map r_Name rs = map ep_name eps"
proof -
  have "set (map Success rs) \<subseteq> {True}" using assms(2) by (auto simp: list_all_iff)
  then have "executed 0 False eps (map Success rs) = [0..<length eps]"
    using executed_all [of "map Success rs" eps 0] assms(3) by simp
  then have "map r_Name rs = map (\<lambda>k. ep_name (eps ! k)) [0..<length eps]"
    using suite_loop_executed [OF assms(1)] by simp
  then show ?thesis by (metis map_nth nth_map_upt map_map comp_def map_cong)
qed

text \<open>
  After a failure they need not: the result at position 1 is the one of the third endpoint, which is marked
  always-run, and is handled for the second one, which was not executed.
\<close>

lemma suite_failure_misaligned:
  assumes "suite_loop lib env timeout 0 False False ctx [a, b, c] = Some (errs, rs, ctx')"
    and "\<not> ep_always_run b" and "ep_always_run c" and "\<not> Success (hd rs)"
  shows "length rs = 2 \<and> r_Name (rs ! 1) = ep_name c"
proof -
  obtain r ctx1 where r: "execute_endpoint lib (env 0) a ctx = Some (r, ctx1)"
    using assms(1) by (auto simp: Let_def split: option.splits)
  obtain errs' rs' fired where rest: "suite_loop lib env timeout 1 (\<not> Success r) fired ctx1 [b, c] = Some (errs', rs', ctx')"
      and rs: "rs = r # rs'"
    using assms(1) r by (auto simp: Let_def simp del: suite_loop.simps(2) simp: suite_loop.simps(2) [of lib env timeout 0])
  have failed: "\<not> Success r" using assms(4) rs by simp
  obtain r2 ctx2 where r2: "execute_endpoint lib (env 2) c ctx1 = Some (r2, ctx2)" and rs': "rs' = [r2]"
    using rest failed assms(2,3) by (auto simp: Let_def numeral_2_eq_2 split: option.splits)
  show ?thesis using execute_endpoint_name [OF r2] by (simp add: rs rs')
qed

end
