(* ===== verification/HealthProperties.thy ===== *)
theory HealthProperties
  imports HealthFacts SuiteMonitor Examples
begin

text \<open>The properties of conditions, of the health of an endpoint and of suites.\<close>

section \<open>Conditions\<close>

definition compare_values :: "operator \<Rightarrow> int \<Rightarrow> int \<Rightarrow> bool" where
  "compare_values op a b =
     (case op of OpEq \<Rightarrow> a = b | OpNe \<Rightarrow> a \<noteq> b | OpLe \<Rightarrow> a \<le> b | OpGe \<Rightarrow> a \<ge> b | OpGt \<Rightarrow> a > b | OpLt \<Rightarrow> a < b)"

text \<open>A library for the examples: no durations, no fractions.\<close>

definition sample_lib :: go_lib where
  "sample_lib = \<lparr>unmarshal = (\<lambda>_. Some (VMap [(''user'', VMap [(''name'', VStr ''ann'')])])), marshal = fmt_v, parse_duration = (\<lambda>_. None),
     parse_float = (\<lambda>_. None), float_text = (\<lambda>_. None)\<rparr>"

lemma sample_lib_units [simp]: "durations_have_units sample_lib"
  by (simp add: durations_have_units_def sample_lib_def)

text \<open>A condition that compares the status or the response time in milliseconds with a 64-bit integer is decided by the
  comparison of the two numbers, for each of the six operators.\<close>

theorem numeric_conditions:
  assumes "durations_have_units lib" and "in_int64 n" and "in_int64 v"
    and "p = ''[STATUS]'' \<and> v = HTTPStatus r \<or> p = ''[RESPONSE_TIME]'' \<and> v = milliseconds (r_Duration r)"
  shows "map_option fst (evaluate lib (p @ op_separator op @ itoa n) r dont res ctx) = Some (compare_values op v n)"
proof -
  have p: "no_space p" using assms(4) by (auto simp: no_space_def is_space_def)
  have v: "ResolvePlaceholder lib p r ctx = Some (itoa v)" using assms(4) ResolvePlaceholder_basic by auto
  have n: "ResolvePlaceholder lib (itoa n) r ctx = Some (itoa n)" by (rule ResolvePlaceholder_literal) simp
  show ?thesis
  proof (cases "op = OpEq \<or> op = OpNe")
    case True
    obtain r' where "evaluate lib (p @ op_separator op @ itoa n) r dont res ctx = Some (isEqual (itoa v) (itoa n) \<longleftrightarrow> op = OpEq, r')"
      using evaluate_equality [OF p no_space_itoa True v n] by blast
    then show ?thesis using True assms(2,3) by (auto simp: isEqual_itoa compare_values_def)
  next
    case False
    then have "op \<noteq> OpEq" "op \<noteq> OpNe" by auto
    from evaluate_order [OF p no_space_itoa this v n] obtain r' where
      "evaluate lib (p @ op_separator op @ itoa n) r dont res ctx =
        Some (compare_numbers op (numerical_value lib (itoa v)) (numerical_value lib (itoa n)), r')" by blast
    then show ?thesis using False numerical_value_itoa [OF assms(1)] assms(2,3)
      by (cases op) (simp_all add: compare_numbers_def compare_values_def)
  qed
qed

lemma numeric_conditions_witness:
  "map_option fst (evaluate sample_lib (''[STATUS]'' @ op_separator OpLt @ itoa 300) sample_success False False None) = Some True"
  using numeric_conditions [of sample_lib 300 200 "''[STATUS]''" sample_success OpLt False False None]
  by (simp add: in_int64_def sample_success_def empty_result_def compare_values_def)

text \<open>The equality of conditions is symmetric and reflexive; against a value that is no function, \<open>pat\<close> matches the
  pattern and \<open>any\<close> one of the options, on either side.\<close>

theorem equality_of_conditions:
  assumes "\<not> suffix '')'' v"
  shows "isEqual a b = isEqual b a \<and> isEqual a a \<and>
     (isEqual v (''pat('' @ p @ '')'') \<longleftrightarrow> pattern_Match p v) \<and> (isEqual v (''any('' @ opts @ '')'') \<longleftrightarrow> any_option opts v)"
  using isEqual_sym [of a b] isEqual_refl [of a] isEqual_pattern(1) [OF assms, of p] isEqual_any [OF assms, of opts] by blast

lemma equality_of_conditions_witness:
  "isEqual ''200'' (''any('' @ ''200,204'' @ '')'') \<longleftrightarrow> any_option ''200,204'' ''200''"
  using equality_of_conditions [of "''200''" "[]" "[]" "[]" "''200,204''"] by (simp add: suffix_last)

text \<open>A text between two stars matches the values that contain it, where slashes count neither in the text nor in the
  value; a pattern without special characters matches its own text only, up to slashes.\<close>

theorem star_pattern_contains:
  assumes "plain x"
  shows "(pattern_Match (''*'' @ x @ ''*'') s \<longleftrightarrow>
       str_contains (remove_char (CHR ''/'') s) (remove_char (CHR ''/'') x)) \<and>
     (pattern_Match x s \<longleftrightarrow> remove_char (CHR ''/'') s = remove_char (CHR ''/'') x)"
  using pattern_Match_contains [OF assms] pattern_Match_plain [OF assms] by simp

lemma star_pattern_contains_witness:
  "pattern_Match ''*b/c*'' ''a/bcd'' \<longleftrightarrow> str_contains ''abcd'' ''bc''"
  using star_pattern_contains [of "''b/c''" "''a/bcd''"] by (simp add: plain_def remove_char_def)

text \<open>A path of plain keys leads to the value that the nested maps have under these keys, rendered as the code does.\<close>

theorem json_path_looks_up:
  assumes "unmarshal lib body = Some v" and "list_all simple_key ks" and "ks \<noteq> []" and "lookup_keys v ks = Some w"
  shows "json_Eval lib (str_join ks ''.'') body = rendered lib w"
proof -
  obtain k ks' where ks: "ks = k # ks'" using assms(3) by (cases ks) auto
  then have "k \<noteq> []" using assms(2) by (simp add: simple_key_def)
  then have "str_join ks ''.'' \<noteq> []" by (cases ks') (simp_all add: ks)
  then show ?thesis using walk_keys [OF assms(2-4)] assms(1) by (simp add: json_Eval_def)
qed

lemma json_path_looks_up_witness:
  "json_Eval (json_lib.truncate sample_lib) ''user.name'' ''{}'' = Some (Inr (''ann'', 3))"
  using json_path_looks_up [of "json_lib.truncate sample_lib" "''{}''" "VMap [(''user'', VMap [(''name'', VStr ''ann'')])]"
      "[''user'', ''name'']" "VStr ''ann''"]
  by (simp add: simple_key_def sample_lib_def json_lib.truncate_def rendered_def)

text \<open>An index into a value that is no map panics: the code asserts the type without a check, whatever the body holds.\<close>

theorem json_index_panics:
  assumes "v = VStr s \<or> v = VNum s \<or> v = VBool b \<or> v = VList vs"
  shows "walk lib ''a[0]'' v = None"
  using assms by (intro walk_panics) auto

lemma json_index_panics_witness: "walk (json_lib.truncate sample_lib) ''a[0]'' (VStr ''text'') = None"
  by (rule json_index_panics [of _ "''text''" False "[]"]) simp

text \<open>The value stored under a path of the suite context is read back, and every other path keeps its value unless one of
  the two paths begins with the other.\<close>

theorem context_get_after_set:
  "gontext_Get (gontext_Set g path v) path = Some v \<and>
   (gontext_Get g other = Some w \<and> \<not> prefix (str_split path ''.'') (str_split other ''.'') \<and>
      \<not> prefix (str_split other ''.'') (str_split path ''.'') \<longrightarrow>
    gontext_Get (gontext_Set g path v) other = Some w)"
  using gontext_get_set gontext_get_set_other by blast

lemma context_get_after_set_witness:
  "gontext_Get (gontext_Set [(''b'', VBool True)] ''a'' (VStr ''x'')) ''b'' = Some (VBool True)"
proof -
  have one: "str_split ''a'' ''.'' = [''a'']" "str_split ''b'' ''.'' = [''b'']"
    by (rule str_split_single; simp add: str_contains.simps)+
  have "gontext_Get [(''b'', VBool True)] ''b'' = Some (VBool True)" by (simp add: gontext_Get_def one)
  then show ?thesis
    using context_get_after_set [of "[(''b'', VBool True)]" "''a''" "VStr ''x''" "''b''" "VBool True"] by (simp add: one)
qed

section \<open>The health of an endpoint\<close>

text \<open>A network for the examples, where every call answers.\<close>

definition sample_net :: client_ops where
  "sample_net =
     \<lparr>net_parse_url = (\<lambda>u. Inr (''example.org'', [])), net_lookup_ip = (\<lambda>h. Inr ''192.0.2.1''),
      net_domain_expiration = (\<lambda>h. (0, None)), net_dns = (\<lambda>t n u. (True, ''NOERROR'', [], None)),
      net_starttls = (\<lambda>a. (True, hour, None)), net_tls = (\<lambda>a b. (True, [], hour, None)),
      net_connect = (\<lambda>n a b. (True, [])), net_sctp = (\<lambda>a. True), net_ping = (\<lambda>a. (True, millisecond)),
      net_websocket = (\<lambda>u b h. (True, [], None)), net_ssh_banner = (\<lambda>a. (True, 0, None)),
      net_ssh_connect = (\<lambda>a c. (True, None)), net_ssh_command = (\<lambda>c. (True, 0, [], None)),
      net_grpc = (\<lambda>a t. (True, ''SERVING'', None, millisecond)), net_http = (\<lambda>m u h b. Inr (200, None, [], None)),
      net_elapsed = millisecond, net_now = 0, net_random = (\<lambda>n. replicate n (CHR ''a''))\<rparr>"

definition ping_endpoint :: endpoint where
  "ping_endpoint = empty_endpoint\<lparr>ep_name := ''gateway'', ep_url := ''icmp://gateway'', ep_interval := minute,
     ep_ui := Some (ui_GetDefaultConfig\<lparr>HideURL := True\<rparr>)\<rparr>"

text \<open>C28. The result of a check has one outcome for each condition, in their order, when they are not hidden, and succeeds
  only if every condition does and nothing failed before the call.\<close>

theorem health_has_all_outcomes:
  assumes "EvaluateHealthWithContext lib net ep ctx = Some r" and "valid_endpoint ep"
    and "ep_ui ep = Some ui" and "\<not> HideConditions ui"
  shows "length (ConditionResults r) = length (ep_conditions ep) \<and>
     (Success r \<longrightarrow> list_all cr_success (ConditionResults r) \<and> Errors (snd (prepare net ep ctx)) = [])"
  using health_outcomes [OF assms(1) _ assms(3,4)] assms(2) by (simp add: valid_endpoint_def)

definition web_endpoint :: endpoint where
  "web_endpoint = sample_endpoint\<lparr>ep_interval := minute, ep_method := ''GET'', ep_headers := [(''User-Agent'', DefaultUserAgent)],
     ep_client := Some client_GetDefaultConfig, ep_ui := Some ui_GetDefaultConfig, ep_conditions := [''[STATUS]'' @ op_separator OpEq @ itoa 200]\<rparr>"

lemma web_condition_operator: "has_operator (''[STATUS]'' @ op_separator OpEq @ itoa 200)"
  using find_operator_eq [of "''[STATUS]''" "itoa 200" OpEq] no_space_blank [OF no_space_itoa]
  by (simp add: has_operator_def)

lemma web_endpoint_valid: "valid_endpoint web_endpoint"
  using web_condition_operator
  by (simp add: valid_endpoint_def web_endpoint_def sample_endpoint_def empty_endpoint_def go_time hasHeader_def
      valid_ui_def ui_GetDefaultConfig_def valid_client_def client_GetDefaultConfig_def)

lemma web_condition_evaluates:
  "\<exists>success r'. evaluate sample_lib (''[STATUS]'' @ op_separator OpEq @ itoa 200) r dont res None = Some (success, r')"
proof -
  have "no_space ''[STATUS]''" by (simp add: no_space_def is_space_def)
  moreover have "ResolvePlaceholder sample_lib (itoa 200) r None = Some (itoa 200)" by (rule ResolvePlaceholder_literal) simp
  ultimately show ?thesis
    using evaluate_equality [OF _ no_space_itoa _ ResolvePlaceholder_basic(1), of OpEq] by blast
qed

lemma health_has_all_outcomes_witness:
  "\<exists>r. EvaluateHealthWithContext sample_lib sample_net web_endpoint None = Some r \<and> length (ConditionResults r) = 1"
proof -
  have ui: "ep_ui web_endpoint = Some ui_GetDefaultConfig" "\<not> HideConditions ui_GetDefaultConfig"
    by (simp_all add: web_endpoint_def ui_GetDefaultConfig_def)
  have conds: "ep_conditions web_endpoint = [''[STATUS]'' @ op_separator OpEq @ itoa 200]" by (simp add: web_endpoint_def)
  obtain ep r0 where p: "prepare sample_net web_endpoint None = (ep, r0)" by fastforce
  have ep: "ep = web_endpoint" using prepare_endpoint(3) [OF p] by simp
  obtain success r1 where e: "evaluate sample_lib (''[STATUS]'' @ op_separator OpEq @ itoa 200)
      (if Errors r0 = [] then call sample_lib sample_net ep r0 else r0\<lparr>Success := False\<rparr>)
      (DontResolveFailedConditions ui_GetDefaultConfig) (ResolveSuccessfulConditions ui_GetDefaultConfig) None = Some (success, r1)"
    using web_condition_evaluates by blast
  have "\<exists>r. EvaluateHealthWithContext sample_lib sample_net web_endpoint None = Some r"
    using p e [unfolded ep]
    by (cases "Errors r0 = []") (simp_all add: EvaluateHealthWithContext_def ep ui conds Let_def)
  then obtain r where r: "EvaluateHealthWithContext sample_lib sample_net web_endpoint None = Some r" by blast
  from health_has_all_outcomes [OF r web_endpoint_valid ui] r show ?thesis by (simp add: conds)
qed

text \<open>C37. With the URL hidden, no error of a result contains it, whatever the errors of the network are and whatever else is
  redacted, unless it is part of the mark itself; with the hostname hidden the result has none.\<close>

theorem hidden_url_is_redacted:
  assumes "EvaluateHealth lib net ep = Some r" and "ep_ui ep = Some ui" and "HideURL ui" and "redactable (ep_url ep)"
  shows "list_all (\<lambda>e. \<not> str_contains e (ep_url ep)) (Errors r) \<and> (HideHostname ui \<longrightarrow> Hostname r = [])"
  using assms(1) unfolding EvaluateHealth_def
proof (rule EvaluateHealthWithContext_cases)
  fix ep' r0 ui' r1
  assume p: "prepare net ep None = (ep', r0)" and ui': "ep_ui ep' = Some ui'"
    and r: "r = clean_up ui' ep' (r1\<lparr>Timestamp := net_now net\<rparr>)"
  have "ep' = ep" "ui' = ui" using prepare_endpoint [OF p] ui' assms(2) by auto
  then show ?thesis using clean_up_hides_url [OF assms(3,4)]
    by (simp add: r secret_free_def) (simp add: clean_up_def Let_def)
qed

lemma ping_health: "\<exists>r. EvaluateHealthWithContext lib sample_net ping_endpoint None = Some r"
proof -
  obtain ep r where p: "prepare sample_net ping_endpoint None = (ep, r)" by fastforce
  have "ep_conditions ping_endpoint = []" "ep_ui ping_endpoint \<noteq> None" by (simp_all add: ping_endpoint_def empty_endpoint_def)
  then show ?thesis using prepare_endpoint(3) [OF p] by (auto simp: EvaluateHealthWithContext_def p Let_def)
qed

lemma hidden_url_is_redacted_witness:
  "\<exists>r. EvaluateHealth sample_lib sample_net ping_endpoint = Some r \<and>
     list_all (\<lambda>e. \<not> str_contains e ''icmp://gateway'') (Errors r)"
proof -
  have ui: "ep_ui ping_endpoint = Some (ui_GetDefaultConfig\<lparr>HideURL := True\<rparr>)" by (simp add: ping_endpoint_def)
  have url: "ep_url ping_endpoint = ''icmp://gateway''" by (simp add: ping_endpoint_def)
  have "redactable (ep_url ping_endpoint)" by (simp add: url redactable_def str_contains.simps)
  moreover obtain r where "EvaluateHealth sample_lib sample_net ping_endpoint = Some r"
    using ping_health [of sample_lib] by (auto simp: EvaluateHealth_def)
  ultimately show ?thesis using hidden_url_is_redacted [OF _ ui, of sample_lib sample_net r] by (auto simp: url)
qed

text \<open>C29. An endpoint that validation accepts has a name, a URL, a method, an interval, at least one condition, only
  conditions with an operator, valid alerts, a user agent and valid settings of its page; the name, the URL and the
  conditions are the configured ones.\<close>

theorem accepted_endpoint_is_valid:
  assumes "ep_ValidateAndSetDefaults env ep0 = (None, ep)"
  shows "valid_endpoint ep \<and> ep_conditions ep = ep_conditions ep0 \<and> ep_url ep = ep_url ep0 \<and> ep_name ep = ep_name ep0"
  by (rule validated_endpoint [OF assms])

text \<open>The sample endpoint as it is configured: the conditions, and the defaults left to validation.\<close>

definition configured_endpoint :: endpoint where
  "configured_endpoint = sample_endpoint\<lparr>ep_conditions := [''[STATUS]'' @ op_separator OpEq @ itoa 200]\<rparr>"

definition sample_validation :: validation_env where
  "sample_validation = \<lparr>ve_lib = sample_lib, ve_load = (\<lambda>_. Some UTC), ve_known_dns = (\<lambda>_. True), ve_load_key_pair = (\<lambda>_ _. None),
     ve_request_ok = (\<lambda>_. True)\<rparr>"

lemma web_condition_valid: "condition_Validate sample_lib (''[STATUS]'' @ op_separator OpEq @ itoa 200) = Some None"
proof -
  obtain success r' where e: "evaluate sample_lib (''[STATUS]'' @ op_separator OpEq @ itoa 200) empty_result False False None =
      Some (success, r')" using web_condition_evaluates by blast
  have "Errors r' = []" using evaluate_records [OF e web_condition_operator] by (auto simp: empty_result_def)
  with e show ?thesis unfolding condition_Validate_def by simp
qed

lemma accepted_endpoint_is_valid_witness:
  "\<exists>ep. ep_ValidateAndSetDefaults sample_validation configured_endpoint = (None, ep) \<and> valid_endpoint ep"
proof -
  let ?c = "''[STATUS]'' @ op_separator OpEq @ itoa 200"
  let ?ep = "set_endpoint_defaults (configured_endpoint\<lparr>ep_alerts := [sample_alert],
    ep_client := Some client_GetDefaultConfig, ep_ui := Some ui_GetDefaultConfig\<rparr>)"
  have sel: "ep_conditions configured_endpoint = [?c]" "ep_name configured_endpoint = ''web''" "ep_group configured_endpoint = ''core''"
    "ep_url configured_endpoint = ''https://example.org''" "ep_alerts configured_endpoint = [sample_alert]"
    "ep_ui configured_endpoint = None" "ep_interval configured_endpoint = 0" "ep_dns configured_endpoint = None"
    "ep_ssh configured_endpoint = None" "ep_client configured_endpoint = None" "ep_maintenance_windows configured_endpoint = []"
    by (simp_all add: configured_endpoint_def sample_endpoint_def empty_endpoint_def)
  have as: "validateEndpointNameGroupAndAlerts ''web'' ''core'' [sample_alert] = (None, [sample_alert])"
    by (simp add: validateEndpointNameGroupAndAlerts_def contains_any_def alert_validate_id)
  have interval: "ep_interval ?ep = minute" using sel(7) by (simp add: set_endpoint_defaults_def set_default_headers_def Let_def go_time)
  have keep: "ep_dns ?ep = None" "ep_ssh ?ep = None" "ep_maintenance_windows ?ep = []" "ep_url ?ep = ''https://example.org''"
    using sel by (simp_all add: set_endpoint_defaults_def set_default_headers_def Let_def)
  have "\<not> hasDomainExpirationPlaceholder ?c"
    by (simp add: hasDomainExpirationPlaceholder_def op_separator_def op_text_def itoa_def nat_digits_eval str_contains.simps)
  then have conds: "validate_conditions sample_lib minute [?c] = None" using web_condition_valid by simp
  have "ep_Type ?ep = TypeHTTP" using keep by (simp add: ep_Type_def)
  then have target: "validate_target sample_validation ?ep = (None, ?ep)"
    using keep by (simp add: validate_target_def sample_validation_def)
  have "ep_ValidateAndSetDefaults sample_validation configured_endpoint = (None, ?ep)"
    using target conds by (simp add: ep_ValidateAndSetDefaults_def sel as interval Let_def validate_ui_def validate_client_def sample_validation_def
        del: validate_conditions.simps)
  then show ?thesis using accepted_endpoint_is_valid by blast
qed

section \<open>Suites\<close>

text \<open>A run of a suite executes the endpoints in their order: all up to the first failure, and only the ones marked
  always-run after it; there is one result for each, with the name of its endpoint.\<close>

theorem suite_runs_expected_endpoints:
  assumes "suite_Execute lib env start elapsed s = Some r"
  shows "let ks = executed 0 False (su_endpoints s) (map Success (sr_endpoint_results r))
     in map r_Name (sr_endpoint_results r) = map (\<lambda>k. ep_name (su_endpoints s ! k)) ks \<and>
        (sr_success r \<longleftrightarrow> list_all Success (sr_endpoint_results r) \<and> sr_errors r = [])"
proof -
  obtain errs rs ctx where loop: "suite_loop lib env (su_timeout s) 0 False False (gontext_New (su_context s)) (su_endpoints s) =
      Some (errs, rs, ctx)" and rs: "sr_endpoint_results r = rs"
    using assms by (auto simp: suite_Execute_def CalculateSuccess_def)
  show ?thesis using suite_loop_executed [OF loop] suite_Execute_success [OF assms] by (simp add: Let_def rs)
qed

definition sample_suite :: suite where
  "sample_suite = \<lparr>su_name = ''checkout'', su_group = [], su_enabled = None, su_interval = 10 * minute, su_timeout = minute,
     su_context = None, su_endpoints = [ping_endpoint]\<rparr>"

definition sample_steps :: "nat \<Rightarrow> step_env" where
  "sample_steps i = \<lparr>se_net = sample_net, se_start = 0, se_elapsed = second, se_expired = True\<rparr>"

lemma sample_suite_runs: "\<exists>r. suite_Execute sample_lib sample_steps 0 second sample_suite = Some r"
proof -
  obtain ep r where p: "prepare sample_net ping_endpoint (Some []) = (ep, r)" by fastforce
  have sel: "ep_conditions ping_endpoint = []" "ep_ui ping_endpoint \<noteq> None" "ep_store ping_endpoint = []"
    by (simp_all add: ping_endpoint_def empty_endpoint_def)
  then obtain r' where "EvaluateHealthWithContext sample_lib sample_net ping_endpoint (Some []) = Some r'"
    using prepare_endpoint(1,2) [OF p] by (auto simp: EvaluateHealthWithContext_def p Let_def)
  then show ?thesis
    using sel(3) by (simp add: suite_Execute_def sample_suite_def sample_steps_def execute_endpoint_def Let_def StoreResultValues_def)
qed

lemma suite_runs_expected_endpoints_witness:
  "\<exists>r. suite_Execute sample_lib sample_steps 0 second sample_suite = Some r \<and>
     (let ks = executed 0 False [ping_endpoint] (map Success (sr_endpoint_results r))
      in map r_Name (sr_endpoint_results r) = map (\<lambda>k. ep_name ([ping_endpoint] ! k)) ks)"
proof -
  obtain r where r: "suite_Execute sample_lib sample_steps 0 second sample_suite = Some r" using sample_suite_runs by blast
  have eps: "su_endpoints sample_suite = [ping_endpoint]" by (simp add: sample_suite_def)
  from suite_runs_expected_endpoints [OF r] show ?thesis using r unfolding eps Let_def by blast
qed

text \<open>The timeout of a suite is reported at most once and ends nothing: the errors of the run are none or that one, so
  that a suite whose endpoints all succeed in time is a success whatever the stored values were.\<close>

theorem suite_timeout_reported_once:
  assumes "suite_Execute lib env start elapsed s = Some r"
  shows "sr_errors r = [] \<or> sr_errors r = [''suite execution timed out after '' @ duration_string (su_timeout s)]"
proof -
  obtain errs rs ctx where loop: "suite_loop lib env (su_timeout s) 0 False False (gontext_New (su_context s)) (su_endpoints s) =
      Some (errs, rs, ctx)" and "sr_errors r = errs"
    using assms by (auto simp: suite_Execute_def CalculateSuccess_def)
  then show ?thesis using suite_loop_timeout [OF loop] by auto
qed

lemma suite_timeout_reported_once_witness:
  "\<exists>r. suite_Execute sample_lib sample_steps 0 second sample_suite = Some r \<and>
     (sr_errors r = [] \<or> sr_errors r = [''suite execution timed out after '' @ duration_string (su_timeout sample_suite)])"
proof -
  obtain r where r: "suite_Execute sample_lib sample_steps 0 second sample_suite = Some r" using sample_suite_runs by blast
  from suite_timeout_reported_once [OF r] show ?thesis using r by blast
qed

end
