(* ===== verification/ConfigProperties.thy ===== *)
theory ConfigProperties
  imports Endpoints Examples
begin

text \<open>The properties of keys, alert configurations, messages and maintenance windows.\<close>

text \<open>The key of a group and a name has one underscore, none of the other reserved characters and no upper case letter, and
  determines the sanitized group and the sanitized name.\<close>

theorem key_determines_parts:
  "(ConvertGroupAndNameToKey g n = ConvertGroupAndNameToKey g' n' \<longleftrightarrow> sanitize g = sanitize g' \<and> sanitize n = sanitize n') \<and>
   set (sanitize n) \<inter> set reserved_chars = {} \<and> to_lower (sanitize n) = sanitize n"
  using key_eq_iff sanitize_reserved to_lower_sanitize by simp

text \<open>For alert types without underscore the text that is hashed tells alerts apart: two alerts with the same text agree in
  type, in the flags as they take effect, in the thresholds and in the description; what a run changes in an alert is not
  part of it.\<close>

theorem checksum_identifies_alert:
  assumes "CHR ''_'' \<notin> set (al_type a)" and "CHR ''_'' \<notin> set (al_type b)"
  shows "(checksum_input a = checksum_input b \<longleftrightarrow>
       al_type a = al_type b \<and> alert_IsEnabled a = alert_IsEnabled b \<and> IsSendingOnResolved a = IsSendingOnResolved b \<and>
       success_threshold a = success_threshold b \<and> failure_threshold a = failure_threshold b \<and>
       GetDescription a = GetDescription b) \<and>
     Checksum sha (a\<lparr>triggered := t, resolve_key := k\<rparr>) = Checksum sha a"
  using checksum_input_eq_iff [OF assms] Checksum_runtime by simp

lemma checksum_identifies_alert_witness:
  "checksum_input sample_alert \<noteq> checksum_input (sample_alert\<lparr>failure_threshold := 4\<rparr>)"
  using checksum_identifies_alert [of sample_alert "sample_alert\<lparr>failure_threshold := 4\<rparr>"]
  by (simp add: sample_alert_def)

text \<open>C38. Validation of an alert that succeeds gives a valid alert and, on a valid alert, changes nothing.\<close>

theorem alert_validation_establishes_validity:
  "case alert_ValidateAndSetDefaults a of
     (None, b) \<Rightarrow> valid_alert b \<and> alert_ValidateAndSetDefaults b = (None, b)
   | (Some ErrAlertWithInvalidMinimumReminderInterval, b) \<Rightarrow>
       minimum_reminder_interval a \<noteq> 0 \<and> minimum_reminder_interval a < 5 * minute
   | (Some ErrAlertWithInvalidDescription, b) \<Rightarrow> set (GetDescription a) \<inter> set quote_and_backslash \<noteq> {}"
proof -
  obtain e b where v: "alert_ValidateAndSetDefaults a = (e, b)" by fastforce
  show ?thesis
  proof (cases e)
    case None
    then show ?thesis using v alert_validate_valid [of a b] alert_validate_id [of b] by simp
  next
    case (Some err)
    then show ?thesis using v
      by (cases err) (auto simp: alert_ValidateAndSetDefaults_def Let_def contains_any_iff split: if_splits)
  qed
qed

text \<open>A truncated message is a prefix of the message of at most 1024 bytes that ends before the start of a UTF-8
  character, the latest such one; shorter messages stay as they are.\<close>

theorem truncation_at_rune_boundary:
  "let t = TruncateResultMessage msg
   in prefix t msg \<and> length t \<le> MaximumResultMessageLength \<and>
      (length msg \<le> MaximumResultMessageLength \<longleftrightarrow> t = msg) \<and>
      (t = msg \<or> t = [] \<or> rune_start (msg ! length t)) \<and>
      (t = msg \<or> (\<forall>i. length t < i \<and> i \<le> MaximumResultMessageLength \<longrightarrow> \<not> rune_start (msg ! i)))"
proof -
  have long: "length msg > MaximumResultMessageLength \<Longrightarrow>
      length (TruncateResultMessage msg) = cut_at_rune msg MaximumResultMessageLength"
    using cut_at_rune_le [of msg MaximumResultMessageLength] by (simp add: TruncateResultMessage_def)
  have same: "length msg \<le> MaximumResultMessageLength \<longleftrightarrow> TruncateResultMessage msg = msg"
    using TruncateResultMessage_length [of msg] by (auto simp: TruncateResultMessage_def)
  moreover have "TruncateResultMessage msg = msg \<or> TruncateResultMessage msg = [] \<or>
      rune_start (msg ! length (TruncateResultMessage msg))"
    using TruncateResultMessage_boundary [of msg] by blast
  moreover have "TruncateResultMessage msg = msg \<or> (\<forall>i. length (TruncateResultMessage msg) < i \<and>
      i \<le> MaximumResultMessageLength \<longrightarrow> \<not> rune_start (msg ! i))"
    using long same cut_at_rune_greatest [of msg MaximumResultMessageLength] by (metis not_le)
  ultimately show ?thesis
    using TruncateResultMessage_prefix [of msg] TruncateResultMessage_length [of msg] by (simp only: Let_def)
qed

lemma truncation_at_rune_boundary_witness:
  "length (TruncateResultMessage (replicate 2000 (CHR ''x''))) \<le> 1024 \<and>
   TruncateResultMessage (replicate 2000 (CHR ''x'')) \<noteq> replicate 2000 (CHR ''x'')"
  using truncation_at_rune_boundary [of "replicate 2000 (CHR ''x'')"]
  unfolding Let_def MaximumResultMessageLength_def length_replicate by linarith

section \<open>Maintenance windows\<close>

text \<open>The start \<^verbatim>\<open>hh:mm\<close> of a window is read as the time since midnight for every time of the day, and what is
  read at all is within a day.\<close>

theorem start_time_roundtrip:
  assumes "h < 24" and "m < 60"
  shows "hhmmToDuration (two_digits h @ '':'' @ two_digits m) = Inr (int h * hour + int m * minute) \<and>
     (\<forall>s d. hhmmToDuration s = Inr d \<longrightarrow> 0 \<le> d \<and> d < 24 * hour)"
  using hhmm_roundtrip [OF assms] hhmmToDuration_bounds by blast

lemma start_time_roundtrip_witness: "hhmmToDuration (two_digits 23 @ '':'' @ two_digits 5) = Inr (23 * hour + 5 * minute)"
  using start_time_roundtrip [of 23 5] by simp

text \<open>C36. In UTC, for windows of at most a day less the minutes of their start, the code's choice of one day, by the hours
  only, finds exactly the moments at which the window of some scheduled day is open.\<close>

theorem maintenance_matches_schedule:
  assumes "utc_window c" and "mw_duration c \<le> 24 * hour - durationToStartFromMidnight c mod hour"
  shows "IsUnderMaintenance local now c \<longleftrightarrow> (\<exists>d. window_open c d now)"
  using IsUnderMaintenance_utc [OF assms(1)] window_open_day [OF assms(1) _ assms(2)] by metis

definition nightly :: maintenance where
  "nightly = mw_GetDefaultConfig\<lparr>mw_enabled := Some True, durationToStartFromMidnight := 23 * hour + 30 * minute,
     mw_duration := 2 * hour, timezoneLocation := Some UTC\<rparr>"

lemma maintenance_matches_schedule_witness:
  "IsUnderMaintenance UTC (25 * hour) nightly \<longleftrightarrow> (\<exists>d. window_open nightly d (25 * hour))"
  by (rule maintenance_matches_schedule)
    (simp_all add: utc_window_def nightly_def mw_IsEnabled_def mw_GetDefaultConfig_def go_time)

text \<open>Longer windows are missed: with a window of 24 hours from 23:30 on, scheduled every day, maintenance never ends, but
  at 23:10 the code sees none, because it compares hours only and looks at the window of the same day.\<close>

theorem long_window_missed:
  "\<exists>c now. utc_window c \<and> (\<exists>d. window_open c d now) \<and> \<not> IsUnderMaintenance UTC now c"
proof -
  let ?c = "nightly\<lparr>mw_duration := 24 * hour, mw_every := []\<rparr>" and ?now = "47 * hour + 10 * minute"
  have c: "utc_window ?c" by (simp add: utc_window_def nightly_def mw_IsEnabled_def go_time)
  have "window_open ?c 0 ?now" by (simp add: window_open_def nightly_def go_time)
  moreover have "\<not> IsUnderMaintenance UTC ?now ?c"
    by (simp add: IsUnderMaintenance_utc [OF c]) (simp add: window_open_def nightly_def go_time)
  ultimately show ?thesis using c by blast
qed

end
