(* ===== verification/SecretMask.thy ===== *)
theory SecretMask
  imports Values
begin

text \<open>
  The secrets of the definitions of managed endpoints: masked in what the administration shows and restored
  in what it gets back (\<^verbatim>\<open>internal/managedendpoint/mask.go\<close>), and the test for a masked secret of a backup
  (\<^verbatim>\<open>restore.go\<close>). A document is a tree, as the YAML decoder builds it: a change in place of a nested map is
  the update of the tree along the path. A map with a key that is no string, which the decoder represents by
  another type, is outside the values.

  The parser and the printer of URLs of the standard library are parameters; a parsed URL has its user, its
  query and the rest, which the code does not touch.
\<close>

type_synonym document = "(string \<times> val) list"

definition Mask :: string where
  "Mask = replicate 8 (CHR ''*'')"

definition sensitiveNameParts :: "string list" where
  "sensitiveNameParts = [''authorization'', ''cookie'', ''token'', ''secret'', ''password'', ''key'']"

definition isSensitiveName :: "string \<Rightarrow> bool" where
  "isSensitiveName name \<longleftrightarrow> list_ex (str_contains (to_lower name)) sensitiveNameParts"

subsection \<open>URLs\<close>

record url =
  u_user :: "(string \<times> string option) option"
  u_raw_query :: string
  u_rest :: string

record url_lib =
  url_Parse :: "string \<Rightarrow> url option"
  url_String :: "url \<Rightarrow> string"

definition hex_value :: "char \<Rightarrow> nat option" where
  "hex_value c =
     (let n = of_char c :: nat
      in if 48 \<le> n \<and> n \<le> 57 then Some (n - 48)
         else if 97 \<le> n \<and> n \<le> 102 then Some (n - 87)
         else if 65 \<le> n \<and> n \<le> 70 then Some (n - 55)
         else None)"

text \<open>\<^verbatim>\<open>url.QueryUnescape\<close>: \<open>None\<close> for a percent sign that two hexadecimal digits do not follow.\<close>

fun QueryUnescape :: "string \<Rightarrow> string option" where
  "QueryUnescape [] = Some []"
| "QueryUnescape (c # s) =
     (if c = CHR ''%'' then
        (case s of
           a # b # r \<Rightarrow>
             (case (hex_value a, hex_value b) of
                (Some x, Some y) \<Rightarrow> map_option (Cons (char_of (16 * x + y))) (QueryUnescape r)
              | _ \<Rightarrow> None)
         | _ \<Rightarrow> None)
      else map_option (Cons (if c = CHR ''+'' then CHR '' '' else c)) (QueryUnescape s))"

text \<open>\<^verbatim>\<open>url.QueryEscape(Mask)\<close>.\<close>

definition escaped_mask :: string where
  "escaped_mask = concat (replicate 8 ''%2A'')"

text \<open>\<^verbatim>\<open>strings.Cut(param, "=")\<close>: without the separator the value is empty.\<close>

definition cut_param :: "string \<Rightarrow> string \<times> string" where
  "cut_param param =
     (case str_index param ''='' of None \<Rightarrow> (param, []) | Some i \<Rightarrow> (take i param, drop (i + 1) param))"

definition sensitive_param :: "string \<Rightarrow> bool" where
  "sensitive_param param =
     (case QueryUnescape (fst (cut_param param)) of None \<Rightarrow> False | Some name \<Rightarrow> isSensitiveName name)"

definition mask_user :: "(string \<times> string option) option \<Rightarrow> (string \<times> string option) option" where
  "mask_user user =
     (case user of Some (name, Some _) \<Rightarrow> Some (name, Some Mask) | _ \<Rightarrow> user)"

definition mask_query :: "string \<Rightarrow> string" where
  "mask_query q =
     (if q = [] then q
      else str_join (map (\<lambda>param. if sensitive_param param then fst (cut_param param) @ ''='' @ Mask else param)
             (str_split q ''&'')) ''&'')"

definition has_url_secret :: "url \<Rightarrow> bool" where
  "has_url_secret u \<longleftrightarrow>
     (case u_user u of Some (_, Some _) \<Rightarrow> True | _ \<Rightarrow> False) \<or>
     u_raw_query u \<noteq> [] \<and> list_ex sensitive_param (str_split (u_raw_query u) ''&'')"

definition maskURL :: "url_lib \<Rightarrow> string \<Rightarrow> string" where
  "maskURL lib rawURL =
     (case url_Parse lib rawURL of
        None \<Rightarrow> rawURL
      | Some u \<Rightarrow>
          (if \<not> has_url_secret u then rawURL
           else replace_all
                  (url_String lib (u\<lparr>u_user := mask_user (u_user u), u_raw_query := mask_query (u_raw_query u)\<rparr>))
                  escaped_mask Mask))"

text \<open>The first value of a name counts.\<close>

definition stored_params :: "string \<Rightarrow> (string \<times> string) list" where
  "stored_params q = map cut_param (str_split q ''&'')"

definition restore_user ::
    "(string \<times> string option) option \<Rightarrow> (string \<times> string option) option \<Rightarrow> (string \<times> string option) option" where
  "restore_user submitted stored =
     (case (submitted, stored) of
        (Some (name, Some password), Some (_, Some stored_password)) \<Rightarrow>
          (if password = Mask then Some (name, Some stored_password) else submitted)
      | _ \<Rightarrow> submitted)"

definition restore_query :: "string \<Rightarrow> string \<Rightarrow> string" where
  "restore_query submitted stored =
     (if submitted = [] then submitted
      else str_join (map (\<lambda>param.
             (let (name, v) = cut_param param
              in if v = Mask
                 then (case map_of (stored_params stored) name of None \<Rightarrow> param | Some w \<Rightarrow> name @ ''='' @ w)
                 else param)) (str_split submitted ''&'')) ''&'')"

definition restoreURL :: "url_lib \<Rightarrow> string \<Rightarrow> string \<Rightarrow> string" where
  "restoreURL lib submittedURL storedURL =
     (if \<not> str_contains submittedURL Mask then submittedURL
      else (case url_Parse lib submittedURL of
              None \<Rightarrow> submittedURL
            | Some u \<Rightarrow>
                (case url_Parse lib storedURL of
                   None \<Rightarrow> submittedURL
                 | Some w \<Rightarrow>
                     url_String lib (u\<lparr>u_user := restore_user (u_user u) (u_user w),
                       u_raw_query := restore_query (u_raw_query u) (u_raw_query w)\<rparr>))))"

subsection \<open>Nested maps and leaves\<close>

fun nestedMap :: "document \<Rightarrow> string list \<Rightarrow> document option" where
  "nestedMap d [] = Some d"
| "nestedMap d (p # ps) = (case map_of d p of Some (VMap m) \<Rightarrow> nestedMap m ps | _ \<Rightarrow> None)"

text \<open>A change in place of the nested map of a path, if there is one.\<close>

fun map_at :: "string list \<Rightarrow> (document \<Rightarrow> document) \<Rightarrow> document \<Rightarrow> document" where
  "map_at [] f d = f d"
| "map_at (p # ps) f d = (case map_of d p of Some (VMap m) \<Rightarrow> alist_put p (VMap (map_at ps f m)) d | _ \<Rightarrow> d)"

definition maskValue :: "string \<Rightarrow> document \<Rightarrow> document" where
  "maskValue key m =
     (case map_of m key of
        None \<Rightarrow> m
      | Some v \<Rightarrow> (if v \<noteq> VNil \<and> v \<noteq> VStr [] then alist_put key (VStr Mask) m else m))"

definition restoreValue :: "string \<Rightarrow> document option \<Rightarrow> document \<Rightarrow> document" where
  "restoreValue key stored m =
     (if map_of m key \<noteq> Some (VStr Mask) then m
      else (case stored of
              None \<Rightarrow> m
            | Some s \<Rightarrow> (case map_of s key of None \<Rightarrow> m | Some v \<Rightarrow> alist_put key v m)))"

fun maskLeaves :: "val \<Rightarrow> val" where
  "maskLeaves (VMap m) = VMap (map (\<lambda>(k, v). (k, maskLeaves v)) m)"
| "maskLeaves (VList vs) = VList (map maskLeaves vs)"
| "maskLeaves VNil = VNil"
| "maskLeaves _ = VStr Mask"

definition val_lookup :: "val \<Rightarrow> string \<Rightarrow> val" where
  "val_lookup v k = (case v of VMap m \<Rightarrow> (case map_of m k of None \<Rightarrow> VNil | Some w \<Rightarrow> w) | _ \<Rightarrow> VNil)"

definition val_index :: "val \<Rightarrow> nat \<Rightarrow> val" where
  "val_index v i = (case v of VList vs \<Rightarrow> (if i < length vs then vs ! i else VNil) | _ \<Rightarrow> VNil)"

definition restore_leaf :: "val \<Rightarrow> val \<Rightarrow> val" where
  "restore_leaf submitted stored = (if submitted = VStr Mask \<and> stored \<noteq> VNil then stored else submitted)"

function (sequential) restoreLeaves :: "val \<Rightarrow> val \<Rightarrow> val" where
  "restoreLeaves (VMap m) stored = VMap (map (\<lambda>(k, v). (k, restoreLeaves v (val_lookup stored k))) m)"
| "restoreLeaves (VList vs) stored =
     VList (map (\<lambda>(i, v). restoreLeaves v (val_index stored i)) (List.enumerate 0 vs))"
| "restoreLeaves v stored = restore_leaf v stored"
  by pat_completeness auto

lemma size_enumerate: "(i, v) \<in> set (List.enumerate n vs) \<Longrightarrow> size v < Suc (size_list size vs)"
  by (metis enumerate_eq_zip set_zip_rightD less_Suc_eq_le size_list_estimation' order_refl)

lemma size_entry: "(k, v :: val) \<in> set m \<Longrightarrow> size v < Suc (size_list (size_prod (\<lambda>_. 0) size) m)"
  by (induction m) auto

termination restoreLeaves
  by (relation "measure (\<lambda>(v, _). size v)") (auto dest: size_enumerate size_entry)

subsection \<open>Documents\<close>

definition mask_header :: "string \<times> val \<Rightarrow> string \<times> val" where
  "mask_header h = (case h of (n, v) \<Rightarrow> (n, if isSensitiveName n \<and> v \<noteq> VNil then VStr Mask else v))"

definition mask_headers :: "document \<Rightarrow> document" where
  "mask_headers d =
     (case map_of d ''headers'' of
        Some (VMap hs) \<Rightarrow>
          alist_put ''headers'' (VMap (map mask_header hs)) d
      | _ \<Rightarrow> d)"

definition mask_url_field :: "url_lib \<Rightarrow> document \<Rightarrow> document" where
  "mask_url_field lib d =
     (case map_of d ''url'' of Some (VStr u) \<Rightarrow> alist_put ''url'' (VStr (maskURL lib u)) d | _ \<Rightarrow> d)"

definition mask_alert :: "val \<Rightarrow> val" where
  "mask_alert item =
     (case item of
        VMap a \<Rightarrow>
          (case map_of a ''provider-override'' of
             None \<Rightarrow> item
           | Some ov \<Rightarrow> VMap (alist_put ''provider-override'' (maskLeaves ov) a))
      | _ \<Rightarrow> item)"

definition mask_alerts :: "document \<Rightarrow> document" where
  "mask_alerts d =
     (case map_of d ''alerts'' of
        Some (VList items) \<Rightarrow> alist_put ''alerts'' (VList (map mask_alert items)) d
      | _ \<Rightarrow> d)"

text \<open>The paths of the single secrets.\<close>

definition secret_paths :: "(string list \<times> string) list" where
  "secret_paths =
     [([''client'', ''oauth2''], ''client-secret''), ([''ssh''], ''password''), ([''ssh''], ''private-key''),
      ([], ''token''), ([''push''], ''token'')]"

definition mask_path :: "string list \<times> string \<Rightarrow> document \<Rightarrow> document" where
  "mask_path pk d = map_at (fst pk) (maskValue (snd pk)) d"

definition MaskSecrets :: "url_lib \<Rightarrow> document \<Rightarrow> document" where
  "MaskSecrets lib d = mask_alerts (fold mask_path secret_paths (mask_url_field lib (mask_headers d)))"

text \<open>The map that a type assertion gives, which is nil for any other value.\<close>

definition as_map :: "val option \<Rightarrow> document" where
  "as_map v = (case v of Some (VMap m) \<Rightarrow> m | _ \<Rightarrow> [])"

definition list_value :: "val option \<Rightarrow> val list" where
  "list_value v = (case v of Some (VList l) \<Rightarrow> l | _ \<Rightarrow> [])"

definition restore_header :: "document \<Rightarrow> string \<times> val \<Rightarrow> string \<times> val" where
  "restore_header storedHeaders h =
     (case h of (n, v) \<Rightarrow>
        (n, if v = VStr Mask then (case map_of storedHeaders n of None \<Rightarrow> v | Some w \<Rightarrow> w) else v))"

definition restore_headers :: "document \<Rightarrow> document \<Rightarrow> document" where
  "restore_headers stored d =
     (case map_of d ''headers'' of
        Some (VMap hs) \<Rightarrow>
          alist_put ''headers'' (VMap (map (restore_header (as_map (map_of stored ''headers''))) hs)) d
      | _ \<Rightarrow> d)"

definition restore_url_field :: "url_lib \<Rightarrow> document \<Rightarrow> document \<Rightarrow> document" where
  "restore_url_field lib stored d =
     (case (map_of d ''url'', map_of stored ''url'') of
        (Some (VStr u), Some (VStr w)) \<Rightarrow> alist_put ''url'' (VStr (restoreURL lib u w)) d
      | _ \<Rightarrow> d)"

definition restore_path :: "document \<Rightarrow> string list \<times> string \<Rightarrow> document \<Rightarrow> document" where
  "restore_path stored pk d = map_at (fst pk) (restoreValue (snd pk) (nestedMap stored (fst pk))) d"

text \<open>An alert is restored from the stored alert of the same position, when the type is the same.\<close>

definition restore_alert :: "val \<Rightarrow> val \<Rightarrow> val" where
  "restore_alert item stored_item =
     (case (item, stored_item) of
        (VMap a, VMap s) \<Rightarrow>
          (if val_lookup item ''type'' \<noteq> val_lookup stored_item ''type'' then item
           else (case map_of a ''provider-override'' of
                   None \<Rightarrow> item
                 | Some ov \<Rightarrow>
                     VMap (alist_put ''provider-override'' (restoreLeaves ov (val_lookup stored_item ''provider-override'')) a)))
      | _ \<Rightarrow> item)"

fun restore_alert_list :: "val list \<Rightarrow> val list \<Rightarrow> val list" where
  "restore_alert_list (item # items) (s # ss) = restore_alert item s # restore_alert_list items ss"
| "restore_alert_list items ss = items"

definition restore_alerts :: "document \<Rightarrow> document \<Rightarrow> document" where
  "restore_alerts stored d =
     (case map_of d ''alerts'' of
        Some (VList items) \<Rightarrow>
          alist_put ''alerts'' (VList (restore_alert_list items (list_value (map_of stored ''alerts'')))) d
      | _ \<Rightarrow> d)"

definition RestoreMaskedSecrets :: "url_lib \<Rightarrow> document \<Rightarrow> document \<Rightarrow> document" where
  "RestoreMaskedSecrets lib submitted stored =
     restore_alerts stored
       (fold (restore_path stored) secret_paths (restore_url_field lib stored (restore_headers stored submitted)))"

text \<open>\<open>HasMaskedSecret\<close> of \<^verbatim>\<open>restore.go\<close>.\<close>

fun hasMaskedLeaf :: "val \<Rightarrow> bool" where
  "hasMaskedLeaf (VMap m) = list_ex (\<lambda>(k, v). hasMaskedLeaf v) m"
| "hasMaskedLeaf (VList vs) = list_ex hasMaskedLeaf vs"
| "hasMaskedLeaf v = (v = VStr Mask)"

definition HasMaskedSecret :: "document \<Rightarrow> bool" where
  "HasMaskedSecret d \<longleftrightarrow>
     (case map_of d ''headers'' of
        Some (VMap hs) \<Rightarrow> list_ex (\<lambda>(n, v). isSensitiveName n \<and> v = VStr Mask) hs | _ \<Rightarrow> False) \<or>
     (case map_of d ''url'' of Some (VStr u) \<Rightarrow> str_contains u Mask | _ \<Rightarrow> False) \<or>
     list_ex (\<lambda>(path, key). case nestedMap d path of None \<Rightarrow> False | Some m \<Rightarrow> map_of m key = Some (VStr Mask))
       secret_paths \<or>
     (case map_of d ''alerts'' of
        Some (VList items) \<Rightarrow>
          list_ex (\<lambda>item. case item of VMap a \<Rightarrow> hasMaskedLeaf (val_lookup item ''provider-override'') | _ \<Rightarrow> False) items
      | _ \<Rightarrow> False)"

section \<open>Facts\<close>

text \<open>A decoded value has maps with distinct keys.\<close>

fun wf_val :: "val \<Rightarrow> bool" where
  "wf_val (VMap m) \<longleftrightarrow> distinct (map fst m) \<and> list_all (\<lambda>(k, v). wf_val v) m"
| "wf_val (VList vs) \<longleftrightarrow> list_all wf_val vs"
| "wf_val _ \<longleftrightarrow> True"

lemma wf_entry: "wf_val (VMap m) \<Longrightarrow> map_of m k = Some v \<Longrightarrow> wf_val v"
  by (auto simp: list_all_iff dest: map_of_SomeD)

text \<open>The update of the value of one key, to which the operations on documents come down.\<close>

definition on_key :: "string \<Rightarrow> (val \<Rightarrow> val) \<Rightarrow> document \<Rightarrow> document" where
  "on_key k f d = map (\<lambda>(k', v). (k', if k' = k then f v else v)) d"

lemma on_key_absent: "k \<notin> fst ` set d \<Longrightarrow> on_key k f d = d"
  by (induction d) (auto simp: on_key_def)

lemma alist_put_on_key:
  "distinct (map fst d) \<Longrightarrow> map_of d k = Some v \<Longrightarrow> alist_put k (f v) d = on_key k f d"
proof (induction d)
  case (Cons x d)
  obtain k' v' where x: "x = (k', v')" by (cases x)
  show ?case
  proof (cases "k' = k")
    case True
    with Cons.prems show ?thesis using on_key_absent [of k d f] by (simp add: x) (simp add: on_key_def)
  next
    case False
    with Cons show ?thesis by (simp add: x) (simp add: on_key_def)
  qed
qed simp

lemma on_key_same: "(\<And>v. map_of d k = Some v \<Longrightarrow> f v = v) \<Longrightarrow> distinct (map fst d) \<Longrightarrow> on_key k f d = d"
  by (auto simp: on_key_def intro!: map_idI)

text \<open>An operation that replaces the value of the key, or leaves the document when this makes no difference.\<close>

lemma on_keyI:
  assumes "distinct (map fst d)" and "map_of d k = None \<Longrightarrow> d' = d"
    and "\<And>v. map_of d k = Some v \<Longrightarrow> d' = alist_put k (f v) d \<or> d' = d \<and> f v = v"
  shows "d' = on_key k f d"
proof (cases "map_of d k")
  case None
  then have "on_key k f d = d" by (intro on_key_absent) (simp add: map_of_eq_None_iff)
  with None assms(2) show ?thesis by simp
next
  case (Some v)
  have "on_key k f d = d" if "f v = v"
    using that Some assms(1) by (intro on_key_same) (auto simp del: map_of_eq_Some_iff)
  with assms(3) [OF Some] alist_put_on_key [OF assms(1) Some, of f] show ?thesis by auto
qed

lemma map_of_on_key [simp]: "map_of (on_key k f d) k' = (if k' = k then map_option f (map_of d k) else map_of d k')"
  by (induction d) (auto simp: on_key_def)

lemma fst_on_key [simp]: "map fst (on_key k f d) = map fst d"
  by (auto simp: on_key_def)

lemma on_key_compose: "on_key k f (on_key k g d) = on_key k (\<lambda>v. f (g v)) d"
  by (auto simp: on_key_def)

lemma on_key_commute: "k \<noteq> k' \<Longrightarrow> on_key k f (on_key k' g d) = on_key k' g (on_key k f d)"
  by (auto simp: on_key_def)

definition lift_map :: "(document \<Rightarrow> document) \<Rightarrow> val \<Rightarrow> val" where
  "lift_map f v = (case v of VMap m \<Rightarrow> VMap (f m) | _ \<Rightarrow> v)"

definition mask_single :: "val \<Rightarrow> val" where
  "mask_single v = (if v \<noteq> VNil \<and> v \<noteq> VStr [] then VStr Mask else v)"

definition restore_single :: "val option \<Rightarrow> val \<Rightarrow> val" where
  "restore_single stored v = (if v = VStr Mask then (case stored of None \<Rightarrow> v | Some w \<Rightarrow> w) else v)"

lemma maskValue_on_key: "distinct (map fst m) \<Longrightarrow> maskValue k m = on_key k mask_single m"
  by (rule on_keyI) (auto simp: maskValue_def mask_single_def simp del: map_of_eq_Some_iff)

lemma restoreValue_on_key:
  "distinct (map fst m) \<Longrightarrow>
   restoreValue k stored m = on_key k (restore_single (case stored of None \<Rightarrow> None | Some s \<Rightarrow> map_of s k)) m"
  by (rule on_keyI) (auto simp: restoreValue_def restore_single_def simp del: map_of_eq_Some_iff split: option.split)

lemma single_roundtrip: "restore_single (Some v) (mask_single v) = v"
  by (simp add: restore_single_def mask_single_def)

lemma map_at_on_key:
  "distinct (map fst d) \<Longrightarrow> map_at (p # ps) f d = on_key p (lift_map (map_at ps f)) d"
  by (rule on_keyI) (auto simp: lift_map_def simp del: map_of_eq_Some_iff split: val.split)

lemma leaves_roundtrip: "wf_val v \<Longrightarrow> restoreLeaves (maskLeaves v) v = v"
proof (induction v rule: maskLeaves.induct)
  case (1 m)
  have "(k, restoreLeaves (maskLeaves w) (val_lookup (VMap m) k)) = (k, w)" if "(k, w) \<in> set m" for k w
  proof -
    have "val_lookup (VMap m) k = w" using 1(2) that by (simp add: val_lookup_def)
    moreover have "wf_val w" using 1(2) that by (auto simp: list_all_iff)
    ultimately show ?thesis using 1(1) [OF that refl] by simp
  qed
  then show ?case by (auto simp: comp_def intro!: map_idI)
next
  case (2 vs)
  have "restoreLeaves (maskLeaves (vs ! i)) (val_index (VList vs) i) = vs ! i" if "i < length vs" for i
    using 2 that by (simp add: val_index_def list_all_length)
  then show ?case by (auto intro!: nth_equalityI simp: nth_enumerate_eq)
qed (simp_all add: restore_leaf_def Mask_def)

text \<open>The operations on documents as updates of single keys.\<close>

definition lift_str :: "(string \<Rightarrow> string) \<Rightarrow> val \<Rightarrow> val" where
  "lift_str f v = (case v of VStr s \<Rightarrow> VStr (f s) | _ \<Rightarrow> v)"

definition lift_list :: "(val list \<Rightarrow> val list) \<Rightarrow> val \<Rightarrow> val" where
  "lift_list f v = (case v of VList l \<Rightarrow> VList (f l) | _ \<Rightarrow> v)"

definition restore_url_value :: "url_lib \<Rightarrow> val option \<Rightarrow> val \<Rightarrow> val" where
  "restore_url_value lib stored v =
     (case stored of Some (VStr w) \<Rightarrow> lift_str (\<lambda>u. restoreURL lib u w) v | _ \<Rightarrow> v)"

lemmas lifts = lift_map_def lift_str_def lift_list_def

lemma mask_headers_on_key:
  "distinct (map fst d) \<Longrightarrow>
    mask_headers d = on_key ''headers'' (lift_map (map mask_header)) d"
  by (erule on_keyI)
    (auto simp: mask_headers_def lifts mask_header_def simp del: map_of_eq_Some_iff split: val.split)

lemma mask_url_on_key:
  "distinct (map fst d) \<Longrightarrow>
    mask_url_field lib d = on_key ''url'' (lift_str (maskURL lib)) d"
  by (erule on_keyI)
    (auto simp: mask_url_field_def lifts simp del: map_of_eq_Some_iff split: val.split)

lemma mask_alerts_on_key:
  "distinct (map fst d) \<Longrightarrow>
    mask_alerts d = on_key ''alerts'' (lift_list (map mask_alert)) d"
  by (erule on_keyI)
    (auto simp: mask_alerts_def lifts simp del: map_of_eq_Some_iff split: val.split)

lemma restore_headers_on_key:
  "distinct (map fst d) \<Longrightarrow>
    restore_headers s d = on_key ''headers'' (lift_map (map (restore_header (as_map (map_of s ''headers''))))) d"
  by (erule on_keyI)
    (auto simp: restore_headers_def lifts restore_header_def restore_single_def as_map_def Let_def
      simp del: map_of_eq_Some_iff split: val.split)

lemma restore_url_on_key:
  "distinct (map fst d) \<Longrightarrow>
    restore_url_field lib s d = on_key ''url'' (restore_url_value lib (map_of s ''url'')) d"
  by (erule on_keyI)
    (auto simp: restore_url_field_def lifts restore_url_value_def simp del: map_of_eq_Some_iff
      split: val.split option.split)

lemma restore_alerts_on_key:
  "distinct (map fst d) \<Longrightarrow>
    restore_alerts s d = on_key ''alerts'' (lift_list (\<lambda>l. restore_alert_list l (list_value (map_of s ''alerts'')))) d"
  by (erule on_keyI)
    (auto simp: restore_alerts_def lifts list_value_def Let_def simp del: map_of_eq_Some_iff split: val.split)

lemma map_at_Nil [simp]: "map_at [] f = f"
  by (simp add: fun_eq_iff)

lemma MaskSecrets_on_keys:
  assumes "distinct (map fst d)"
  shows "MaskSecrets lib d =
    on_key ''alerts'' (lift_list (map mask_alert))
      (on_key ''push'' (lift_map (maskValue ''token''))
        (on_key ''token'' mask_single
          (on_key ''ssh'' (lift_map (maskValue ''private-key''))
            (on_key ''ssh'' (lift_map (maskValue ''password''))
              (on_key ''client'' (lift_map (map_at [''oauth2''] (maskValue ''client-secret'')))
                (on_key ''url'' (lift_str (maskURL lib))
                  (on_key ''headers'' (lift_map (map mask_header)) d)))))))"
  using assms
  by (simp add: MaskSecrets_def secret_paths_def mask_path_def mask_headers_on_key mask_url_on_key
      mask_alerts_on_key map_at_on_key maskValue_on_key del: map_at.simps(2))

lemma RestoreMaskedSecrets_on_keys:
  assumes "distinct (map fst d)"
  shows "RestoreMaskedSecrets lib d s =
    on_key ''alerts'' (lift_list (\<lambda>l. restore_alert_list l (list_value (map_of s ''alerts''))))
      (on_key ''push'' (lift_map (restoreValue ''token'' (nestedMap s [''push''])))
        (on_key ''token'' (restore_single (map_of s ''token''))
          (on_key ''ssh'' (lift_map (restoreValue ''private-key'' (nestedMap s [''ssh''])))
            (on_key ''ssh'' (lift_map (restoreValue ''password'' (nestedMap s [''ssh''])))
              (on_key ''client'' (lift_map (map_at [''oauth2'']
                  (restoreValue ''client-secret'' (nestedMap s [''client'', ''oauth2'']))))
                (on_key ''url'' (restore_url_value lib (map_of s ''url''))
                  (on_key ''headers'' (lift_map (map (restore_header (as_map (map_of s ''headers''))))) d)))))))"
  using assms
  by (simp add: RestoreMaskedSecrets_def secret_paths_def restore_path_def restore_headers_on_key
      restore_url_on_key restore_alerts_on_key map_at_on_key restoreValue_on_key
      del: map_at.simps(2) nestedMap.simps(2))

text \<open>The round trip of each of the keys.\<close>

lemma headers_roundtrip:
  assumes "wf_val v"
  shows "lift_map (map (restore_header (as_map (Some v)))) (lift_map (map mask_header) v) = v"
proof (cases v)
  case (VMap hs)
  have "restore_header hs (mask_header h) = h" if "h \<in> set hs" for h
  proof -
    obtain n w where h: "h = (n, w)" by (cases h)
    have "map_of hs n = Some w" using that assms by (simp add: VMap h)
    then show ?thesis by (simp add: h restore_header_def mask_header_def)
  qed
  then show ?thesis by (simp add: VMap lift_map_def as_map_def comp_def map_idI)
qed (simp_all add: lift_map_def)

lemma value_roundtrip:
  assumes "distinct (map fst m)"
  shows "restoreValue k (Some m) (maskValue k m) = m"
proof -
  have "on_key k (\<lambda>v. restore_single (map_of m k) (mask_single v)) m = m"
    by (rule on_key_same) (use assms in \<open>auto simp: single_roundtrip simp del: map_of_eq_Some_iff\<close>)
  then show ?thesis
    using assms by (simp add: maskValue_on_key restoreValue_on_key on_key_compose)
qed

lemma path_roundtrip:
  assumes "wf_val (VMap m)"
  shows "map_at ps (restoreValue k (nestedMap m ps)) (map_at ps (maskValue k) m) = m"
  using assms
proof (induction ps arbitrary: m)
  case Nil
  then show ?case by (simp add: value_roundtrip)
next
  case (Cons p ps)
  have dist: "distinct (map fst m)" using Cons.prems by simp
  have "lift_map (map_at ps (restoreValue k (nestedMap m (p # ps)))) (lift_map (map_at ps (maskValue k)) v) = v"
    if "map_of m p = Some v" for v
    using that Cons.IH wf_entry [OF Cons.prems that] by (cases v) (simp_all add: lift_map_def)
  then have "on_key p (\<lambda>v. lift_map (map_at ps (restoreValue k (nestedMap m (p # ps)))) (lift_map (map_at ps (maskValue k)) v)) m = m"
    using dist by (rule on_key_same)
  then show ?case
    using dist by (simp add: map_at_on_key on_key_compose del: map_at.simps nestedMap.simps)
qed

lemma two_values_roundtrip:
  assumes "distinct (map fst m)" and "k \<noteq> k'"
  shows "restoreValue k' (Some m) (restoreValue k (Some m) (maskValue k' (maskValue k m))) = m"
proof -
  have "restoreValue k (Some m) (maskValue k' (maskValue k m)) = maskValue k' (restoreValue k (Some m) (maskValue k m))"
    using assms by (simp add: maskValue_on_key restoreValue_on_key on_key_commute [of k k'])
  then show ?thesis using assms by (simp add: value_roundtrip)
qed

lemma alert_roundtrip: "wf_val item \<Longrightarrow> restore_alert (mask_alert item) item = item"
proof (cases item)
  case (VMap a)
  assume wf: "wf_val item"
  show ?thesis
  proof (cases "map_of a ''provider-override''")
    case None
    then show ?thesis by (simp add: VMap mask_alert_def restore_alert_def)
  next
    case (Some ov)
    have dist: "distinct (map fst a)" using wf by (simp add: VMap)
    have "wf_val ov" using wf_entry [of a] wf Some by (simp add: VMap)
    then have same: "restoreLeaves (maskLeaves ov) ov = ov" by (rule leaves_roundtrip)
    have m: "alist_put ''provider-override'' (maskLeaves ov) a = on_key ''provider-override'' maskLeaves a"
      by (rule alist_put_on_key [OF dist Some])
    have "on_key ''provider-override'' (\<lambda>_. ov) a = a"
      using Some dist by (intro on_key_same) auto
    then have "alist_put ''provider-override'' ov (on_key ''provider-override'' maskLeaves a) = a"
      using alist_put_on_key [of "on_key ''provider-override'' maskLeaves a" "''provider-override''" "maskLeaves ov" "\<lambda>_. ov"]
        Some dist by (simp add: on_key_compose)
    then show ?thesis
      using Some same by (simp add: VMap mask_alert_def restore_alert_def m val_lookup_def)
  qed
qed (simp_all add: mask_alert_def restore_alert_def)

lemma alerts_roundtrip:
  assumes "wf_val v"
  shows "lift_list (\<lambda>l. restore_alert_list l (list_value (Some v))) (lift_list (map mask_alert) v) = v"
proof (cases v)
  case (VList items)
  have "restore_alert_list (map mask_alert items) items = items" if "list_all wf_val items" for items
    using that by (induction items) (simp_all add: alert_roundtrip)
  with VList assms show ?thesis by (simp add: lift_list_def list_value_def)
qed (simp_all add: lift_list_def)

lemma ssh_roundtrip:
  assumes "wf_val v"
  shows "lift_map (restoreValue ''private-key'' (case v of VMap m \<Rightarrow> Some m | _ \<Rightarrow> None))
     (lift_map (restoreValue ''password'' (case v of VMap m \<Rightarrow> Some m | _ \<Rightarrow> None))
       (lift_map (maskValue ''private-key'') (lift_map (maskValue ''password'') v))) = v"
  using assms by (cases v) (simp_all add: lift_map_def two_values_roundtrip)

text \<open>A sequence of updates, and what it does to the value of a key.\<close>

definition on_keys :: "(string \<times> (val \<Rightarrow> val)) list \<Rightarrow> document \<Rightarrow> document" where
  "on_keys fs d = fold (\<lambda>(k, f). on_key k f) fs d"

definition at_key :: "(string \<times> (val \<Rightarrow> val)) list \<Rightarrow> string \<Rightarrow> val \<Rightarrow> val" where
  "at_key fs k v = fold (\<lambda>(k', f) w. if k' = k then f w else w) fs v"

lemma on_keys_elements: "on_keys fs d = map (\<lambda>(k, v). (k, at_key fs k v)) d"
proof (induction fs arbitrary: d)
  case Nil
  then show ?case by (simp add: on_keys_def at_key_def case_prod_eta)
next
  case (Cons kf fs)
  obtain k f where kf: "kf = (k, f)" by (cases kf)
  have "on_keys (kf # fs) d = on_keys fs (on_key k f d)" by (simp add: on_keys_def kf)
  also have "\<dots> = map (\<lambda>(k, v). (k, at_key (kf # fs) k v)) d"
    by (auto simp: Cons.IH on_key_def at_key_def kf)
  finally show ?case .
qed

lemma at_key_other: "k \<notin> fst ` set fs \<Longrightarrow> at_key fs k v = v"
  by (induction fs arbitrary: v) (auto simp: at_key_def)

lemma on_keys_same:
  assumes "distinct (map fst d)" and "\<And>k v. map_of d k = Some v \<Longrightarrow> at_key fs k v = v"
  shows "on_keys fs d = d"
  unfolding on_keys_elements by (rule map_idI) (use assms in auto)

text \<open>The round trip of each of the keys in a document.\<close>

lemma field_roundtrips:
  assumes wf: "wf_val (VMap d)"
    and url: "\<forall>u. map_of d ''url'' = Some (VStr u) \<longrightarrow> restoreURL lib (maskURL lib u) u = u"
  shows
    "map_of d ''headers'' = Some v \<Longrightarrow>
       lift_map (map (restore_header (as_map (map_of d ''headers'')))) (lift_map (map mask_header) v) = v"
    "map_of d ''url'' = Some v \<Longrightarrow> restore_url_value lib (map_of d ''url'') (lift_str (maskURL lib) v) = v"
    "map_of d ''client'' = Some v \<Longrightarrow>
       lift_map (map_at [''oauth2''] (restoreValue ''client-secret'' (nestedMap d [''client'', ''oauth2''])))
         (lift_map (map_at [''oauth2''] (maskValue ''client-secret'')) v) = v"
    "map_of d ''ssh'' = Some v \<Longrightarrow>
       lift_map (restoreValue ''private-key'' (nestedMap d [''ssh'']))
         (lift_map (restoreValue ''password'' (nestedMap d [''ssh'']))
           (lift_map (maskValue ''private-key'') (lift_map (maskValue ''password'') v))) = v"
    "map_of d ''token'' = Some v \<Longrightarrow> restore_single (map_of d ''token'') (mask_single v) = v"
    "map_of d ''push'' = Some v \<Longrightarrow>
       lift_map (restoreValue ''token'' (nestedMap d [''push''])) (lift_map (maskValue ''token'') v) = v"
    "map_of d ''alerts'' = Some v \<Longrightarrow>
       lift_list (\<lambda>l. restore_alert_list l (list_value (map_of d ''alerts''))) (lift_list (map mask_alert) v) = v"
proof -
  note wfv = wf_entry [OF wf]
  show "map_of d ''headers'' = Some v \<Longrightarrow>
     lift_map (map (restore_header (as_map (map_of d ''headers'')))) (lift_map (map mask_header) v) = v"
    using headers_roundtrip [OF wfv] by simp
  show "map_of d ''url'' = Some v \<Longrightarrow> restore_url_value lib (map_of d ''url'') (lift_str (maskURL lib) v) = v"
    using url by (cases v) (simp_all add: restore_url_value_def lift_str_def)
  show "map_of d ''client'' = Some v \<Longrightarrow>
     lift_map (map_at [''oauth2''] (restoreValue ''client-secret'' (nestedMap d [''client'', ''oauth2''])))
       (lift_map (map_at [''oauth2''] (maskValue ''client-secret'')) v) = v"
    using path_roundtrip [of _ "[''oauth2'']" "''client-secret''"] wfv [of "''client''" v]
    by (cases v) (simp_all add: lift_map_def del: map_at.simps wf_val.simps)
  show "map_of d ''ssh'' = Some v \<Longrightarrow>
     lift_map (restoreValue ''private-key'' (nestedMap d [''ssh'']))
       (lift_map (restoreValue ''password'' (nestedMap d [''ssh'']))
         (lift_map (maskValue ''private-key'') (lift_map (maskValue ''password'') v))) = v"
    using ssh_roundtrip [OF wfv [of "''ssh''" v]] by (cases v) simp_all
  show "map_of d ''token'' = Some v \<Longrightarrow> restore_single (map_of d ''token'') (mask_single v) = v"
    by (simp add: single_roundtrip)
  show "map_of d ''push'' = Some v \<Longrightarrow>
     lift_map (restoreValue ''token'' (nestedMap d [''push''])) (lift_map (maskValue ''token'') v) = v"
    using wfv [of "''push''" v] by (cases v) (simp_all add: lift_map_def value_roundtrip)
  show "map_of d ''alerts'' = Some v \<Longrightarrow>
     lift_list (\<lambda>l. restore_alert_list l (list_value (map_of d ''alerts''))) (lift_list (map mask_alert) v) = v"
    using alerts_roundtrip [OF wfv [of "''alerts''" v]] by simp
qed

text \<open>What masking and then restoring do to the entries of a document, in their order.\<close>

definition mask_restore_steps :: "url_lib \<Rightarrow> document \<Rightarrow> (string \<times> (val \<Rightarrow> val)) list" where
  "mask_restore_steps lib d =
    [(''headers'', lift_map (map mask_header)), (''url'', lift_str (maskURL lib)),
     (''client'', lift_map (map_at [''oauth2''] (maskValue ''client-secret''))),
     (''ssh'', lift_map (maskValue ''password'')), (''ssh'', lift_map (maskValue ''private-key'')),
     (''token'', mask_single), (''push'', lift_map (maskValue ''token'')), (''alerts'', lift_list (map mask_alert)),
     (''headers'', lift_map (map (restore_header (as_map (map_of d ''headers''))))),
     (''url'', restore_url_value lib (map_of d ''url'')),
     (''client'', lift_map (map_at [''oauth2''] (restoreValue ''client-secret'' (nestedMap d [''client'', ''oauth2''])))),
     (''ssh'', lift_map (restoreValue ''password'' (nestedMap d [''ssh'']))),
     (''ssh'', lift_map (restoreValue ''private-key'' (nestedMap d [''ssh'']))),
     (''token'', restore_single (map_of d ''token'')),
     (''push'', lift_map (restoreValue ''token'' (nestedMap d [''push'']))),
     (''alerts'', lift_list (\<lambda>l. restore_alert_list l (list_value (map_of d ''alerts''))))]"

lemma mask_restore_at:
  assumes wf: "wf_val (VMap d)"
    and url: "\<And>u. map_of d ''url'' = Some (VStr u) \<Longrightarrow> restoreURL lib (maskURL lib u) u = u"
    and at: "map_of d k = Some v"
  shows "at_key (mask_restore_steps lib d) k v = v"
proof -
  have "\<forall>u. map_of d ''url'' = Some (VStr u) \<longrightarrow> restoreURL lib (maskURL lib u) u = u" using url by blast
  note here = field_roundtrips [OF wf this, of v]
  consider "k = ''headers''" | "k = ''url''" | "k = ''client''" | "k = ''ssh''"
    | "k = ''token''" | "k = ''push''" | "k = ''alerts''"
    | "k \<notin> {''headers'', ''url'', ''client'', ''ssh'', ''token'', ''push'', ''alerts''}"
    by auto
  then show "at_key (mask_restore_steps lib d) k v = v"
  proof cases
    case 1
    have "at_key (mask_restore_steps lib d) k v = lift_map (map (restore_header (as_map (map_of d ''headers'')))) (lift_map (map mask_header) v)"
      unfolding 1 by (simp add: mask_restore_steps_def at_key_def)
    also have "\<dots> = v" by (rule here(1) [OF at [unfolded 1]])
    finally show ?thesis .
  next
    case 2
    have "at_key (mask_restore_steps lib d) k v = restore_url_value lib (map_of d ''url'') (lift_str (maskURL lib) v)"
      unfolding 2 by (simp add: mask_restore_steps_def at_key_def)
    also have "\<dots> = v" by (rule here(2) [OF at [unfolded 2]])
    finally show ?thesis .
  next
    case 3
    have "at_key (mask_restore_steps lib d) k v = lift_map (map_at [''oauth2''] (restoreValue ''client-secret'' (nestedMap d [''client'', ''oauth2''])))
      (lift_map (map_at [''oauth2''] (maskValue ''client-secret'')) v)"
      unfolding 3 by (simp add: mask_restore_steps_def at_key_def del: map_at.simps nestedMap.simps)
    also have "\<dots> = v" by (rule here(3) [OF at [unfolded 3]])
    finally show ?thesis .
  next
    case 4
    have "at_key (mask_restore_steps lib d) k v = lift_map (restoreValue ''private-key'' (nestedMap d [''ssh'']))
      (lift_map (restoreValue ''password'' (nestedMap d [''ssh'']))
        (lift_map (maskValue ''private-key'') (lift_map (maskValue ''password'') v)))"
      unfolding 4 by (simp add: mask_restore_steps_def at_key_def del: nestedMap.simps)
    also have "\<dots> = v" by (rule here(4) [OF at [unfolded 4]])
    finally show ?thesis .
  next
    case 5
    have "at_key (mask_restore_steps lib d) k v = restore_single (map_of d ''token'') (mask_single v)"
      unfolding 5 by (simp add: mask_restore_steps_def at_key_def)
    also have "\<dots> = v" by (rule here(5) [OF at [unfolded 5]])
    finally show ?thesis .
  next
    case 6
    have "at_key (mask_restore_steps lib d) k v = lift_map (restoreValue ''token'' (nestedMap d [''push''])) (lift_map (maskValue ''token'') v)"
      unfolding 6 by (simp add: mask_restore_steps_def at_key_def del: nestedMap.simps)
    also have "\<dots> = v" by (rule here(6) [OF at [unfolded 6]])
    finally show ?thesis .
  next
    case 7
    have "at_key (mask_restore_steps lib d) k v = lift_list (\<lambda>l. restore_alert_list l (list_value (map_of d ''alerts''))) (lift_list (map mask_alert) v)"
      unfolding 7 by (simp add: mask_restore_steps_def at_key_def)
    also have "\<dots> = v" by (rule here(7) [OF at [unfolded 7]])
    finally show ?thesis .
  next
    case 8
    then have "k \<notin> fst ` set (mask_restore_steps lib d)" by (auto simp: mask_restore_steps_def)
    then show ?thesis by (rule at_key_other)
  qed
qed

text \<open>
  A definition that is masked and sent back is restored as it was, provided that the library prints the URL so
  that it reads the same again.
\<close>

lemma mask_restore:
  assumes wf: "wf_val (VMap d)"
    and url: "\<And>u. map_of d ''url'' = Some (VStr u) \<Longrightarrow> restoreURL lib (maskURL lib u) u = u"
  shows "RestoreMaskedSecrets lib (MaskSecrets lib d) d = d"
proof -
  have dist: "distinct (map fst d)" using wf by simp
  have masked: "distinct (map fst (MaskSecrets lib d))" by (simp add: MaskSecrets_on_keys [OF dist] dist)
  have "RestoreMaskedSecrets lib (MaskSecrets lib d) d = on_keys (mask_restore_steps lib d) d"
    unfolding RestoreMaskedSecrets_on_keys [OF masked] unfolding MaskSecrets_on_keys [OF dist]
    by (simp add: on_keys_def mask_restore_steps_def del: map_at.simps nestedMap.simps)
  also have "\<dots> = d" by (rule on_keys_same [OF dist mask_restore_at [OF wf url]])
  finally show ?thesis .
qed

text \<open>What a masked document can still show at the places of the secrets.\<close>

definition hidden :: "val \<Rightarrow> bool" where
  "hidden v \<longleftrightarrow> v = VNil \<or> v = VStr [] \<or> v = VStr Mask"

fun leaves_hidden :: "val \<Rightarrow> bool" where
  "leaves_hidden (VMap m) \<longleftrightarrow> list_all (\<lambda>(k, v). leaves_hidden v) m"
| "leaves_hidden (VList vs) \<longleftrightarrow> list_all leaves_hidden vs"
| "leaves_hidden v \<longleftrightarrow> v = VNil \<or> v = VStr Mask"

definition override_hidden :: "val \<Rightarrow> bool" where
  "override_hidden item =
     (case item of
        VMap a \<Rightarrow> (case map_of a ''provider-override'' of None \<Rightarrow> True | Some ov \<Rightarrow> leaves_hidden ov)
      | _ \<Rightarrow> True)"

definition secret_hidden :: "document \<Rightarrow> string list \<times> string \<Rightarrow> bool" where
  "secret_hidden d pk =
     (case nestedMap d (fst pk) of
        None \<Rightarrow> True
      | Some m \<Rightarrow> (case map_of m (snd pk) of None \<Rightarrow> True | Some v \<Rightarrow> hidden v))"

definition secrets_hidden :: "document \<Rightarrow> bool" where
  "secrets_hidden d \<longleftrightarrow>
     list_all (\<lambda>(n, v). \<not> isSensitiveName n \<or> hidden v) (as_map (map_of d ''headers'')) \<and>
     list_all (secret_hidden d) secret_paths \<and>
     list_all override_hidden (list_value (map_of d ''alerts''))"

lemma leaves_hidden_mask: "leaves_hidden (maskLeaves v)"
  by (induction v rule: maskLeaves.induct) (auto simp: list_all_iff)

lemma hidden_mask_single: "hidden (mask_single v)"
  by (simp add: hidden_def mask_single_def)

lemma maskValue_lookup:
  "map_of (maskValue k m) k' = (if k' = k then map_option mask_single (map_of m k) else map_of m k')"
  by (auto simp: maskValue_def mask_single_def split: option.split)

lemma override_hidden_mask: "override_hidden (mask_alert item)"
  by (cases item) (auto simp: override_hidden_def mask_alert_def leaves_hidden_mask split: option.split)

lemma headers_hidden:
  "list_all (\<lambda>(n, v). \<not> isSensitiveName n \<or> hidden v) (as_map (map_option (lift_map (map mask_header)) h))"
proof (cases h)
  case (Some v)
  then show ?thesis
    by (cases v) (auto simp: as_map_def lift_map_def mask_header_def hidden_def list_all_iff)
qed (simp add: as_map_def)

lemma overrides_hidden: "list_all override_hidden (list_value (map_option (lift_list (map mask_alert)) h))"
proof (cases h)
  case (Some v)
  then show ?thesis
    by (cases v) (auto simp: list_value_def lift_list_def list_all_iff override_hidden_mask)
qed (simp add: list_value_def)

text \<open>Masking hides every secret outside the URL.\<close>

lemma mask_hides:
  assumes "distinct (map fst d)"
  shows "secrets_hidden (MaskSecrets lib d)"
proof -
  let ?m = "MaskSecrets lib d"
  have lookup:
    "map_of ?m ''headers'' = map_option (lift_map (map mask_header)) (map_of d ''headers'')"
    "map_of ?m ''client'' = map_option (lift_map (map_at [''oauth2''] (maskValue ''client-secret''))) (map_of d ''client'')"
    "map_of ?m ''ssh'' = map_option (\<lambda>v. lift_map (maskValue ''private-key'') (lift_map (maskValue ''password'') v)) (map_of d ''ssh'')"
    "map_of ?m ''token'' = map_option mask_single (map_of d ''token'')"
    "map_of ?m ''push'' = map_option (lift_map (maskValue ''token'')) (map_of d ''push'')"
    "map_of ?m ''alerts'' = map_option (lift_list (map mask_alert)) (map_of d ''alerts'')"
    by (simp_all add: MaskSecrets_on_keys [OF assms] option.map_comp comp_def del: map_at.simps)
  have "list_all (\<lambda>(n, v). \<not> isSensitiveName n \<or> hidden v) (as_map (map_of ?m ''headers''))"
    by (simp only: lookup headers_hidden)
  moreover have "list_all override_hidden (list_value (map_of ?m ''alerts''))"
    by (simp only: lookup overrides_hidden)
  moreover have "secret_hidden ?m ([''client'', ''oauth2''], ''client-secret'')"
    by (auto simp: secret_hidden_def lookup lift_map_def maskValue_lookup hidden_mask_single split: option.split val.split)
  moreover have "secret_hidden ?m ([''ssh''], ''password'')" "secret_hidden ?m ([''ssh''], ''private-key'')"
    by (auto simp: secret_hidden_def lookup lift_map_def maskValue_lookup hidden_mask_single split: option.split val.split)
  moreover have "secret_hidden ?m ([], ''token'')"
    by (auto simp: secret_hidden_def lookup hidden_mask_single split: option.split)
  moreover have "secret_hidden ?m ([''push''], ''token'')"
    by (auto simp: secret_hidden_def lookup lift_map_def maskValue_lookup hidden_mask_single split: option.split val.split)
  ultimately show ?thesis by (simp add: secrets_hidden_def secret_paths_def)
qed

end
