(* ===== verification/PushTokens.thy ===== *)
theory PushTokens
  imports Prelude
begin

text \<open>
  The \<^verbatim>\<open>push\<close> section of the configuration and its tokens (\<^verbatim>\<open>internal/config/push\<close>: \<^verbatim>\<open>push.go\<close>, \<^verbatim>\<open>token.go\<close>). The hash
  of the tokens (SHA-256 in the code) and the random numbers of the generated tokens are parameters.
\<close>

definition MinimumKeyTokenLength :: nat where "MinimumKeyTokenLength = 16"
definition MinimumEndpointTokenLength :: nat where "MinimumEndpointTokenLength = 8"
definition MaximumTokenLength :: nat where "MaximumTokenLength = 128"
definition MaximumKeyNameLength :: nat where "MaximumKeyNameLength = 64"

record push_key =
  pk_name :: string
  pk_token :: string
  pk_hash :: string

record push_endpoint =
  pe_key :: string
  pe_token :: string

record push_config =
  pc_keys :: "push_key list"
  pc_endpoints :: "push_endpoint list"

datatype push_error =
    ErrInvalidKeyName
  | ErrDuplicateKeyName string
  | ErrInvalidKeyToken string
  | ErrInvalidEndpointToken string
  | ErrDuplicateToken string
  | ErrEndpointKeyRequired
  | ErrDuplicateEndpoint string
  | ErrPushEndpointNotFound string

text \<open>The characters of \<open>tokenPattern\<close>, \<^verbatim>\<open>^[A-Za-z0-9_-]+$\<close>.\<close>

definition is_token_char :: "char \<Rightarrow> bool" where
  "is_token_char c \<longleftrightarrow>
     (let n = of_char c :: nat
      in 65 \<le> n \<and> n \<le> 90 \<or> 97 \<le> n \<and> n \<le> 122 \<or> 48 \<le> n \<and> n \<le> 57 \<or> c = CHR ''_'' \<or> c = CHR ''-'')"

definition ValidToken :: "string \<Rightarrow> nat \<Rightarrow> bool" where
  "ValidToken token minimumLength \<longleftrightarrow>
     minimumLength \<le> length token \<and> length token \<le> MaximumTokenLength \<and>
     token \<noteq> [] \<and> list_all is_token_char token"

definition TokenHint :: "string \<Rightarrow> string" where
  "TokenHint token = (if length token \<le> 4 then [] else drop (length token - 4) token)"

definition push_Tokens :: "push_config \<Rightarrow> string list" where
  "push_Tokens c = map pk_token (pc_keys c) @ filter (\<lambda>t. t \<noteq> []) (map pe_token (pc_endpoints c))"

definition valid_key_name :: "string \<Rightarrow> bool" where
  "valid_key_name name \<longleftrightarrow> rune_count name \<noteq> 0 \<and> rune_count name \<le> MaximumKeyNameLength"

text \<open>The bodies of the two loops; they carry the names or keys and the tokens seen so far.\<close>

definition validate_push_key ::
    "(string \<Rightarrow> string) \<Rightarrow> string list \<times> string list \<Rightarrow> push_key \<Rightarrow>
     push_error option \<times> (string list \<times> string list) \<times> push_key" where
  "validate_push_key hash s k0 =
     (let (names, tokens) = s; k = k0\<lparr>pk_name := trim_space (pk_name k0)\<rparr>
      in if \<not> valid_key_name (pk_name k) then (Some ErrInvalidKeyName, s, k)
         else if pk_name k \<in> set names then (Some (ErrDuplicateKeyName (pk_name k)), s, k)
         else if \<not> ValidToken (pk_token k) MinimumKeyTokenLength
         then (Some (ErrInvalidKeyToken (pk_name k)), (pk_name k # names, tokens), k)
         else if pk_token k \<in> set tokens
         then (Some (ErrDuplicateToken (pk_name k)), (pk_name k # names, tokens), k)
         else (None, (pk_name k # names, pk_token k # tokens), k\<lparr>pk_hash := hash (pk_token k)\<rparr>))"

definition validate_push_endpoint ::
    "string list \<times> string list \<Rightarrow> push_endpoint \<Rightarrow>
     push_error option \<times> (string list \<times> string list) \<times> push_endpoint" where
  "validate_push_endpoint s e0 =
     (let (keys, tokens) = s; e = e0\<lparr>pe_key := to_lower (trim_space (pe_key e0))\<rparr>
      in if pe_key e = [] then (Some ErrEndpointKeyRequired, s, e)
         else if pe_key e \<in> set keys then (Some (ErrDuplicateEndpoint (pe_key e)), s, e)
         else if pe_token e = [] then (None, (pe_key e # keys, tokens), e)
         else if \<not> ValidToken (pe_token e) MinimumEndpointTokenLength
         then (Some (ErrInvalidEndpointToken (pe_key e)), (pe_key e # keys, tokens), e)
         else if pe_token e \<in> set tokens
         then (Some (ErrDuplicateToken (pe_key e)), (pe_key e # keys, tokens), e)
         else (None, (pe_key e # keys, pe_token e # tokens), e))"

definition push_ValidateAndSetDefaults ::
    "(string \<Rightarrow> string) \<Rightarrow> push_config \<Rightarrow> push_error option \<times> push_config" where
  "push_ValidateAndSetDefaults hash c =
     (let (e1, s1, keys) = validate_seq (validate_push_key hash) ([], []) (pc_keys c)
      in case e1 of
           Some e \<Rightarrow> (Some e, c\<lparr>pc_keys := keys\<rparr>)
         | None \<Rightarrow>
             (let (e2, s2, endpoints) = validate_seq validate_push_endpoint ([], snd s1) (pc_endpoints c)
              in (e2, c\<lparr>pc_keys := keys, pc_endpoints := endpoints\<rparr>)))"

subsection \<open>Generated tokens\<close>

definition GeneratedTokenLength :: nat where "GeneratedTokenLength = 32"

definition tokenAlphabet :: string where
  "tokenAlphabet = ''ABCDEFGHIJKLMNOPQRSTUVWXYZabcdefghijklmnopqrstuvwxyz0123456789''"

text \<open>
  \<open>rand i\<close> is the \<open>i\<close>th number of \<^verbatim>\<open>crypto/rand\<close> below the length of the alphabet, or \<open>None\<close> when the
  generator fails.
\<close>

fun generate_token :: "(nat \<Rightarrow> nat option) \<Rightarrow> nat \<Rightarrow> nat \<Rightarrow> string option" where
  "generate_token rand i 0 = Some []"
| "generate_token rand i (Suc n) =
     (case rand i of
        None \<Rightarrow> None
      | Some k \<Rightarrow> map_option (Cons (tokenAlphabet ! k)) (generate_token rand (Suc i) n))"

definition GenerateToken :: "(nat \<Rightarrow> nat option) \<Rightarrow> string option" where
  "GenerateToken rand = generate_token rand 0 GeneratedTokenLength"

section \<open>Facts\<close>

lemma push_Tokens_simps [simp]:
  "push_Tokens \<lparr>pc_keys = [], pc_endpoints = []\<rparr> = []"
  by (simp add: push_Tokens_def)

lemma tokenAlphabet_chars: "list_all is_token_char tokenAlphabet"
  by (simp add: tokenAlphabet_def is_token_char_def)

lemma generate_token_chars:
  assumes "generate_token rand i n = Some token" and "\<And>i k. rand i = Some k \<Longrightarrow> k < length tokenAlphabet"
  shows "length token = n \<and> list_all is_token_char token"
  using assms(1)
proof (induction n arbitrary: i token)
  case (Suc n)
  then obtain k t where k: "rand i = Some k" and t: "generate_token rand (Suc i) n = Some t"
    and token: "token = tokenAlphabet ! k # t"
    by (auto split: option.splits)
  have "is_token_char (tokenAlphabet ! k)"
    using tokenAlphabet_chars assms(2) [OF k] by (simp add: list_all_length)
  with Suc.IH [OF t] show ?case by (simp add: token)
qed simp

text \<open>A generated token is accepted wherever a token is.\<close>

lemma generated_token_valid:
  assumes "GenerateToken rand = Some token" and "\<And>i k. rand i = Some k \<Longrightarrow> k < length tokenAlphabet"
    and "n \<le> GeneratedTokenLength"
  shows "ValidToken token n"
  using generate_token_chars [OF assms(1) [unfolded GenerateToken_def] assms(2)] assms(3)
  by (auto simp: ValidToken_def GeneratedTokenLength_def MaximumTokenLength_def)

text \<open>
  What validation establishes: names, keys and tokens are unique and well-formed, and the hash of every global
  key is the hash of its token.
\<close>

definition valid_push_config :: "(string \<Rightarrow> string) \<Rightarrow> push_config \<Rightarrow> bool" where
  "valid_push_config hash c \<longleftrightarrow>
     list_all (\<lambda>k. valid_key_name (pk_name k) \<and> ValidToken (pk_token k) MinimumKeyTokenLength \<and>
       pk_hash k = hash (pk_token k)) (pc_keys c) \<and>
     list_all (\<lambda>e. pe_key e \<noteq> [] \<and> (pe_token e \<noteq> [] \<longrightarrow> ValidToken (pe_token e) MinimumEndpointTokenLength))
       (pc_endpoints c) \<and>
     distinct (map pk_name (pc_keys c)) \<and> distinct (map pe_key (pc_endpoints c)) \<and> distinct (push_Tokens c)"

lemma validate_push_key_ok:
  "validate_push_key hash s k0 = (None, s', k) \<Longrightarrow>
     s' = (pk_name k # fst s, pk_token k # snd s) \<and> pk_name k \<notin> set (fst s) \<and> pk_token k \<notin> set (snd s) \<and>
     valid_key_name (pk_name k) \<and> ValidToken (pk_token k) MinimumKeyTokenLength \<and> pk_hash k = hash (pk_token k)"
  by (auto simp: validate_push_key_def Let_def split: prod.splits if_splits)

lemma validate_push_endpoint_ok:
  "validate_push_endpoint s e0 = (None, s', e) \<Longrightarrow>
     s' = (pe_key e # fst s, (if pe_token e = [] then snd s else pe_token e # snd s)) \<and> pe_key e \<notin> set (fst s) \<and>
     pe_key e \<noteq> [] \<and> (pe_token e \<noteq> [] \<longrightarrow> ValidToken (pe_token e) MinimumEndpointTokenLength \<and> pe_token e \<notin> set (snd s))"
  by (auto simp: validate_push_endpoint_def Let_def split: prod.splits if_splits)

lemma push_validated:
  assumes "push_ValidateAndSetDefaults hash c0 = (None, c)"
  shows "valid_push_config hash c"
proof -
  obtain s1 keys s2 eps where k: "validate_seq (validate_push_key hash) ([], []) (pc_keys c0) = (None, s1, keys)"
    and e: "validate_seq validate_push_endpoint ([], snd s1) (pc_endpoints c0) = (None, s2, eps)"
    and c: "c = c0\<lparr>pc_keys := keys, pc_endpoints := eps\<rparr>"
    using assms by (auto simp: push_ValidateAndSetDefaults_def Let_def split: prod.splits option.splits)
  let ?I = "\<lambda>s ks. set (fst s) = set (map pk_name ks) \<and> set (snd s) = set (map pk_token ks) \<and>
    distinct (map pk_name ks) \<and> distinct (map pk_token ks) \<and>
    list_all (\<lambda>k. valid_key_name (pk_name k) \<and> ValidToken (pk_token k) MinimumKeyTokenLength \<and> pk_hash k = hash (pk_token k)) ks"
  have K: "?I s1 ([] @ keys)"
    by (rule validate_seq_inv [where I = ?I, OF k]) (simp, drule validate_push_key_ok, auto)
  let ?T = "\<lambda>es. filter (\<lambda>t. t \<noteq> []) (map pe_token es)"
  let ?J = "\<lambda>s es. set (fst s) = set (map pe_key es) \<and> set (snd s) = set (snd s1) \<union> set (?T es) \<and>
    distinct (map pe_key es) \<and> distinct (?T es) \<and> set (?T es) \<inter> set (snd s1) = {} \<and>
    list_all (\<lambda>e. pe_key e \<noteq> [] \<and> (pe_token e \<noteq> [] \<longrightarrow> ValidToken (pe_token e) MinimumEndpointTokenLength)) es"
  have E: "?J s2 ([] @ eps)"
    by (rule validate_seq_inv [where I = ?J, OF e]) (simp, drule validate_push_endpoint_ok, auto)
  from K E show ?thesis by (auto simp: c valid_push_config_def push_Tokens_def)
qed

end
