(* ===== verification/Configuration.thy ===== *)
theory Configuration
  imports Suites PushTokens
begin

text \<open>
  The loaded configuration (\<^verbatim>\<open>internal/config\<close>: \<^verbatim>\<open>config.go\<close>, \<^verbatim>\<open>config_push.go\<close>, \<^verbatim>\<open>config_mysql.go\<close>;
  \<^verbatim>\<open>internal/storage/config.go\<close>; \<^verbatim>\<open>internal/config/tunneling\<close>; the merge of default alerts of
  \<^verbatim>\<open>internal/alerting/provider/provider.go\<close>) and the validation of its sections. A validation returns the
  error, if any, and the configuration as it leaves it. The record has the sections that the modelled code
  reads. A Go map that is ranged over is the list of its entries in the order of the range.
\<close>

subsection \<open>Storage section\<close>

definition TypeMemory :: string where "TypeMemory = ''memory''"
definition TypeSQLite :: string where "TypeSQLite = ''sqlite''"
definition TypePostgres :: string where "TypePostgres = ''postgres''"
definition TypeMySQL :: string where "TypeMySQL = ''mysql''"

definition MySQLMaximumKeyLength :: nat where "MySQLMaximumKeyLength = 768"

record storage_config =
  st_path :: string
  st_type :: string
  st_caching :: bool
  st_maximum_results :: int
  st_maximum_events :: int

datatype storage_error =
    ErrSQLStorageRequiresPath | ErrMemoryStorageDoesNotSupportPath | ErrMySQLStorageInvalidPath

definition storage_default :: storage_config where
  "storage_default =
     \<lparr>st_path = [], st_type = TypeMemory, st_caching = False, st_maximum_results = 100, st_maximum_events = 50\<rparr>"

text \<open>\<open>dsn_ok\<close> is whether \<^verbatim>\<open>mysql.ParseDSN\<close> (a third-party package) accepts the path.\<close>

definition storage_ValidateAndSetDefaults ::
    "(string \<Rightarrow> bool) \<Rightarrow> storage_config \<Rightarrow> storage_error option \<times> storage_config" where
  "storage_ValidateAndSetDefaults dsn_ok c0 =
     (let c = (if st_type c0 = [] then c0\<lparr>st_type := TypeMemory\<rparr> else c0)
      in if st_type c \<in> {TypePostgres, TypeSQLite, TypeMySQL} \<and> st_path c = []
         then (Some ErrSQLStorageRequiresPath, c)
         else if st_type c = TypeMySQL \<and> \<not> dsn_ok (st_path c) then (Some ErrMySQLStorageInvalidPath, c)
         else if st_type c = TypeMemory \<and> st_path c \<noteq> [] then (Some ErrMemoryStorageDoesNotSupportPath, c)
         else
           (let c = (if st_maximum_results c \<le> 0 then c\<lparr>st_maximum_results := 100\<rparr> else c);
                c = (if st_maximum_events c \<le> 0 then c\<lparr>st_maximum_events := 50\<rparr> else c)
            in (None, c)))"

subsection \<open>Tunnels\<close>

record tunnel_config =
  tn_type :: string
  tn_host :: string
  tn_port :: int
  tn_username :: string
  tn_private_key :: string
  tn_password :: string

datatype tunnel_error = UnsupportedTunnelType string | HostRequired | UsernameRequired | KeyOrPasswordRequired

definition tunnel_ValidateAndSetDefaults :: "tunnel_config \<Rightarrow> tunnel_error option \<times> tunnel_config" where
  "tunnel_ValidateAndSetDefaults c =
     (if tn_type c \<noteq> ''SSH'' then (Some (UnsupportedTunnelType (tn_type c)), c)
      else if tn_host c = [] then (Some HostRequired, c)
      else if tn_username c = [] then (Some UsernameRequired, c)
      else if tn_private_key c = [] \<and> tn_password c = [] then (Some KeyOrPasswordRequired, c)
      else (None, if tn_port c = 0 then c\<lparr>tn_port := 22\<rparr> else c))"

subsection \<open>Alerting section\<close>

text \<open>
  What the validation uses of a provider: its own validation, its default alert and its validation of the
  overrides of an alert for a group. A section is \<open>GetAlertingProviderByAlertType\<close>. The configuration file
  validates the overrides for the log only.
\<close>

record provider_config =
  pv_error :: "string option"
  pv_default_alert :: "alert option"
  pv_override_error :: "string \<Rightarrow> alert \<Rightarrow> string option"

type_synonym alerting_section = "string \<Rightarrow> provider_config option"

definition MergeProviderDefaultAlertIntoEndpointAlert :: "alert \<Rightarrow> alert \<Rightarrow> alert" where
  "MergeProviderDefaultAlertIntoEndpointAlert d a0 =
     (let a = (if al_enabled a0 = None then a0\<lparr>al_enabled := al_enabled d\<rparr> else a0);
          a = (if send_on_resolved a = None then a\<lparr>send_on_resolved := send_on_resolved d\<rparr> else a);
          a = (if al_description a = None then a\<lparr>al_description := al_description d\<rparr> else a);
          a = (if failure_threshold a = 0 then a\<lparr>failure_threshold := failure_threshold d\<rparr> else a);
          a = (if success_threshold a = 0 then a\<lparr>success_threshold := success_threshold d\<rparr> else a)
      in if minimum_reminder_interval a = 0
         then a\<lparr>minimum_reminder_interval := minimum_reminder_interval d\<rparr> else a)"

definition alert_types :: "string list" where
  "alert_types =
     [''aws-ses'', ''clickup'', ''custom'', ''datadog'', ''discord'', ''email'', ''github'', ''gitlab'', ''gitea'',
      ''googlechat'', ''gotify'', ''homeassistant'', ''ifttt'', ''ilert'', ''incident-io'', ''line'', ''matrix'',
      ''mattermost'', ''messagebird'', ''n8n'', ''newrelic'', ''ntfy'', ''opsgenie'', ''pagerduty'', ''plivo'',
      ''pushover'', ''resend'', ''rocketchat'', ''sendgrid'', ''signal'', ''signl4'', ''slack'', ''splunk'',
      ''squadcast'', ''teams'', ''teams-workflows'', ''telegram'', ''twilio'', ''vonage'', ''webex'', ''zapier'',
      ''zulip'']"

subsection \<open>The configuration\<close>

record config =
  cfg_disable_monitoring_lock :: bool
  cfg_concurrency :: int
  cfg_metrics_namespace :: string
  cfg_push :: "push_config option"
  cfg_alerting :: "alerting_section option"
  cfg_endpoints :: "endpoint list"
  cfg_external_endpoints :: "external_endpoint list"
  cfg_suites :: "suite list"
  cfg_storage :: "storage_config option"
  cfg_maintenance :: "maintenance option"
  cfg_tunnels :: "(string \<times> tunnel_config) list option"

datatype config_error =
    DuplicateEndpointKey string
  | InvalidEndpoint string endpoint_error
  | DuplicateExternalEndpointKey string
  | InvalidExternalEndpoint string external_error
  | DuplicateSuiteName string
  | InvalidSuite string suite_error
  | EmptyContextKey string string
  | EmptyPlaceholder string string string
  | InvalidStorage storage_error
  | InvalidMaintenance maintenance_error
  | ErrInvalidMetricsNamespace string
  | DuplicateKey string
  | KeyTooLong string string
  | InvalidPush push_error
  | InvalidTunnel string tunnel_error
  | TunnelNameEmpty
  | NoTunneling string
  | TunnelNotFound string

definition GetEndpointByKey :: "config \<Rightarrow> string \<Rightarrow> endpoint option" where
  "GetEndpointByKey c key = find (\<lambda>ep. ep_Key ep = to_lower key) (cfg_endpoints c)"

definition GetExternalEndpointByKey :: "config \<Rightarrow> string \<Rightarrow> external_endpoint option" where
  "GetExternalEndpointByKey c key = find (\<lambda>ee. ee_Key ee = to_lower key) (cfg_external_endpoints c)"

text \<open>The labels are collected in the order of the ranges and sorted at the end.\<close>

definition GetUniqueExtraMetricLabels :: "config \<Rightarrow> string list" where
  "GetUniqueExtraMetricLabels c =
     (let labels = fold (\<lambda>label ls. if label \<in> set ls then ls else ls @ [label])
            (concat (map (\<lambda>ep. map fst (ep_extra_labels ep)) (filter ep_IsEnabled (cfg_endpoints c)))) []
      in if length labels > 1 then sort labels else labels)"

subsection \<open>Endpoints and suites\<close>

definition validate_config_endpoint ::
    "validation_env \<Rightarrow> string list \<Rightarrow> endpoint \<Rightarrow> config_error option \<times> string list \<times> endpoint" where
  "validate_config_endpoint env seen ep =
     (if ep_Key ep \<in> set seen then (Some (DuplicateEndpointKey (ep_Key ep)), seen, ep)
      else (let (e, ep') = ep_ValidateAndSetDefaults env ep
            in (map_option (InvalidEndpoint (ep_Key ep')) e, ep_Key ep # seen, ep')))"

definition validate_config_external ::
    "string list \<Rightarrow> external_endpoint \<Rightarrow> config_error option \<times> string list \<times> external_endpoint" where
  "validate_config_external seen ee =
     (if ee_Key ee \<in> set seen then (Some (DuplicateExternalEndpointKey (ee_Key ee)), seen, ee)
      else (let (e, ee') = ee_ValidateAndSetDefaults ee
            in (map_option (InvalidExternalEndpoint (ee_Key ee')) e, ee_Key ee # seen, ee')))"

definition ValidateEndpointsConfig :: "validation_env \<Rightarrow> config \<Rightarrow> config_error option \<times> config" where
  "ValidateEndpointsConfig env c =
     (let (e1, seen, eps) = validate_seq (validate_config_endpoint env) [] (cfg_endpoints c);
          c = c\<lparr>cfg_endpoints := eps\<rparr>
      in case e1 of
           Some e \<Rightarrow> (Some e, c)
         | None \<Rightarrow>
             (let (e2, _, ees) = validate_seq validate_config_external seen (cfg_external_endpoints c)
              in (e2, c\<lparr>cfg_external_endpoints := ees\<rparr>)))"

fun check_store_mappings :: "suite \<Rightarrow> endpoint \<Rightarrow> (string \<times> string) list \<Rightarrow> config_error option" where
  "check_store_mappings s ep [] = None"
| "check_store_mappings s ep ((contextKey, placeholder) # m) =
     (if contextKey = [] then Some (EmptyContextKey (su_Key s) (ep_Key ep))
      else if placeholder = [] then Some (EmptyPlaceholder (su_Key s) (ep_Key ep) contextKey)
      else check_store_mappings s ep m)"

text \<open>The first error of a list of checks.\<close>

fun first_error :: "'e option list \<Rightarrow> 'e option" where
  "first_error [] = None"
| "first_error (None # es) = first_error es"
| "first_error (Some e # es) = Some e"

definition validate_config_suite ::
    "validation_env \<Rightarrow> string list \<Rightarrow> suite \<Rightarrow> config_error option \<times> string list \<times> suite" where
  "validate_config_suite env names s =
     (if su_name s \<in> set names then (Some (DuplicateSuiteName (su_Key s)), names, s)
      else (let (e, s') = suite_ValidateAndSetDefaults env s
            in case e of
                 Some e \<Rightarrow> (Some (InvalidSuite (su_Key s') e), su_name s # names, s')
               | None \<Rightarrow>
                   (first_error (map (\<lambda>ep. check_store_mappings s' ep (ep_store ep)) (su_endpoints s')),
                    su_name s # names, s')))"

definition ValidateSuitesConfig :: "validation_env \<Rightarrow> config \<Rightarrow> config_error option \<times> config" where
  "ValidateSuitesConfig env c =
     (let (e, _, suites) = validate_seq (validate_config_suite env) [] (cfg_suites c)
      in (e, c\<lparr>cfg_suites := suites\<rparr>))"

subsection \<open>Alerting\<close>

text \<open>One turn of the loop over the alert types.\<close>

definition merge_default :: "string \<Rightarrow> alert option \<Rightarrow> alert \<Rightarrow> alert" where
  "merge_default alertType defaultAlert a =
     (case defaultAlert of
        None \<Rightarrow> a
      | Some d \<Rightarrow> (if alertType = al_type a then MergeProviderDefaultAlertIntoEndpointAlert d a else a))"

definition validate_provider ::
    "string \<Rightarrow> alerting_section \<times> endpoint list \<times> external_endpoint list \<Rightarrow>
     alerting_section \<times> endpoint list \<times> external_endpoint list" where
  "validate_provider t st =
     (let (section, eps, ees) = st
      in case section t of
           None \<Rightarrow> st
         | Some p \<Rightarrow>
             (case pv_error p of
                None \<Rightarrow>
                  (section,
                   map (\<lambda>ep. ep\<lparr>ep_alerts := map (merge_default t (pv_default_alert p)) (ep_alerts ep)\<rparr>) eps,
                   map (\<lambda>ee. ee\<lparr>ee_alerts := map (merge_default t (pv_default_alert p)) (ee_alerts ee)\<rparr>) ees)
              | Some _ \<Rightarrow> (section(t := None), eps, ees)))"

definition ValidateAlertingConfig :: "config \<Rightarrow> config" where
  "ValidateAlertingConfig c =
     (case cfg_alerting c of
        None \<Rightarrow> c
      | Some section \<Rightarrow>
          (let (section', eps, ees) =
                 fold validate_provider alert_types (section, cfg_endpoints c, cfg_external_endpoints c)
           in c\<lparr>cfg_alerting := Some section', cfg_endpoints := eps, cfg_external_endpoints := ees\<rparr>))"

subsection \<open>Other sections\<close>

definition ValidateStorageConfig :: "(string \<Rightarrow> bool) \<Rightarrow> config \<Rightarrow> config_error option \<times> config" where
  "ValidateStorageConfig dsn_ok c =
     (case cfg_storage c of
        None \<Rightarrow> (None, c\<lparr>cfg_storage := Some storage_default\<rparr>)
      | Some s \<Rightarrow>
          (let (e, s') = storage_ValidateAndSetDefaults dsn_ok s
           in (map_option InvalidStorage e, c\<lparr>cfg_storage := Some s'\<rparr>)))"

definition ValidateMaintenanceConfig ::
    "(string \<Rightarrow> location option) \<Rightarrow> config \<Rightarrow> config_error option \<times> config" where
  "ValidateMaintenanceConfig load c =
     (case cfg_maintenance c of
        None \<Rightarrow> (None, c\<lparr>cfg_maintenance := Some mw_GetDefaultConfig\<rparr>)
      | Some m \<Rightarrow>
          (let (e, m') = mw_ValidateAndSetDefaults load m
           in (map_option InvalidMaintenance e, c\<lparr>cfg_maintenance := Some m'\<rparr>)))"

definition is_name_char :: "char \<Rightarrow> bool" where
  "is_name_char c \<longleftrightarrow>
     (let n = of_char c :: nat in 65 \<le> n \<and> n \<le> 90 \<or> 97 \<le> n \<and> n \<le> 122 \<or> c = CHR ''_'')"

definition ValidateMetricsConfig :: "config \<Rightarrow> config_error option \<times> config" where
  "ValidateMetricsConfig c =
     (case cfg_metrics_namespace c of
        [] \<Rightarrow> (None, c\<lparr>cfg_metrics_namespace := ''go_uptime''\<rparr>)
      | a # s \<Rightarrow>
          (if is_name_char a \<and> list_all (\<lambda>x. is_name_char x \<or> is_digit x) s then (None, c)
           else (Some (ErrInvalidMetricsNamespace (a # s)), c)))"

text \<open>\<open>GetTunnel\<close> creates the tunnel of a name when it is not there; a tunnel is represented by its name.\<close>

definition resolveTunnelForClientConfig ::
    "config \<Rightarrow> client_config option \<Rightarrow> config_error + client_config option" where
  "resolveTunnelForClientConfig c client =
     (case client of
        None \<Rightarrow> Inr None
      | Some cl \<Rightarrow>
          (if cl_tunnel cl = [] then Inr (Some cl)
           else
             (let tunnelName = trim_space (cl_tunnel cl)
              in if tunnelName = [] then Inl TunnelNameEmpty
                 else (case cfg_tunnels c of
                         None \<Rightarrow> Inl (NoTunneling tunnelName)
                       | Some tunnels \<Rightarrow>
                           (case map_of tunnels tunnelName of
                              None \<Rightarrow> Inl (TunnelNotFound tunnelName)
                            | Some _ \<Rightarrow> Inr (Some (cl\<lparr>cl_resolved_tunnel := Some tunnelName\<rparr>)))))))"

definition resolve_endpoint_tunnel ::
    "config \<Rightarrow> unit \<Rightarrow> endpoint \<Rightarrow> config_error option \<times> unit \<times> endpoint" where
  "resolve_endpoint_tunnel c u ep =
     (case resolveTunnelForClientConfig c (ep_client ep) of
        Inl e \<Rightarrow> (Some e, u, ep)
      | Inr cl \<Rightarrow> (None, u, ep\<lparr>ep_client := cl\<rparr>))"

definition resolve_suite_tunnels ::
    "config \<Rightarrow> unit \<Rightarrow> suite \<Rightarrow> config_error option \<times> unit \<times> suite" where
  "resolve_suite_tunnels c u s =
     (let (e, _, eps) = validate_seq (resolve_endpoint_tunnel c) u (su_endpoints s)
      in (e, u, s\<lparr>su_endpoints := eps\<rparr>))"

definition validate_tunnel ::
    "unit \<Rightarrow> string \<times> tunnel_config \<Rightarrow> config_error option \<times> unit \<times> (string \<times> tunnel_config)" where
  "validate_tunnel u nt =
     (let (name, t) = nt; (e, t') = tunnel_ValidateAndSetDefaults t
      in (map_option (InvalidTunnel name) e, u, (name, t')))"

definition ValidateTunnelingConfig :: "config \<Rightarrow> config_error option \<times> config" where
  "ValidateTunnelingConfig c =
     (case cfg_tunnels c of
        None \<Rightarrow> (None, c)
      | Some tunnels \<Rightarrow>
          (let (e1, _, tunnels') = validate_seq validate_tunnel () tunnels;
               c = c\<lparr>cfg_tunnels := Some tunnels'\<rparr>
           in case e1 of
                Some e \<Rightarrow> (Some e, c)
              | None \<Rightarrow>
                  (let (e2, _, eps) = validate_seq (resolve_endpoint_tunnel c) () (cfg_endpoints c);
                       c = c\<lparr>cfg_endpoints := eps\<rparr>
                   in case e2 of
                        Some e \<Rightarrow> (Some e, c)
                      | None \<Rightarrow>
                          (let (e3, _, suites) = validate_seq (resolve_suite_tunnels c) () (cfg_suites c)
                           in (e3, c\<lparr>cfg_suites := suites\<rparr>)))))"

definition DefaultConcurrency :: int where "DefaultConcurrency = 3"

definition ValidateAndSetConcurrencyDefaults :: "config \<Rightarrow> config" where
  "ValidateAndSetConcurrencyDefaults c =
     (if cfg_disable_monitoring_lock c then c\<lparr>cfg_concurrency := 0\<rparr>
      else if cfg_concurrency c \<le> 0 then c\<lparr>cfg_concurrency := DefaultConcurrency\<rparr>
      else c)"

subsection \<open>Keys\<close>

text \<open>The keys of the configuration, in the order in which \<open>ValidateUniqueKeys\<close> visits them.\<close>

definition suite_endpoint_key :: "suite \<Rightarrow> endpoint \<Rightarrow> string" where
  "suite_endpoint_key s ep = ConvertGroupAndNameToKey (su_group s) (ep_name ep)"

definition suite_keys :: "suite \<Rightarrow> string list" where
  "suite_keys s = su_Key s # map (suite_endpoint_key s) (su_endpoints s)"

definition config_keys :: "config \<Rightarrow> string list" where
  "config_keys c =
     map ep_Key (cfg_endpoints c) @ map ee_Key (cfg_external_endpoints c) @ concat (map suite_keys (cfg_suites c))"

fun first_duplicate :: "string list \<Rightarrow> string list \<Rightarrow> string option" where
  "first_duplicate seen [] = None"
| "first_duplicate seen (k # ks) = (if k \<in> set seen then Some k else first_duplicate (k # seen) ks)"

definition ValidateUniqueKeys :: "config \<Rightarrow> config_error option" where
  "ValidateUniqueKeys c = map_option DuplicateKey (first_duplicate [] (config_keys c))"

definition CheckStorageKeyLength :: "storage_config option \<Rightarrow> string \<Rightarrow> string \<Rightarrow> config_error option" where
  "CheckStorageKeyLength storage kind key =
     (case storage of
        None \<Rightarrow> None
      | Some s \<Rightarrow>
          (if st_type s \<noteq> TypeMySQL then None
           else if rune_count key \<le> MySQLMaximumKeyLength then None
           else Some (KeyTooLong kind key)))"

definition ValidateStorageKeysConfig :: "config \<Rightarrow> config_error option" where
  "ValidateStorageKeysConfig c =
     first_error
       (map (\<lambda>ep. CheckStorageKeyLength (cfg_storage c) ''endpoint'' (ep_Key ep)) (cfg_endpoints c) @
        map (\<lambda>ee. CheckStorageKeyLength (cfg_storage c) ''external endpoint'' (ee_Key ee)) (cfg_external_endpoints c) @
        concat (map (\<lambda>s. CheckStorageKeyLength (cfg_storage c) ''suite'' (su_Key s) #
          map (\<lambda>ep. CheckStorageKeyLength (cfg_storage c) (''endpoint of suite '' @ su_name s) (suite_endpoint_key s ep))
            (su_endpoints s)) (cfg_suites c)))"

definition ValidatePushConfig :: "(string \<Rightarrow> string) \<Rightarrow> config \<Rightarrow> config_error option \<times> config" where
  "ValidatePushConfig hash c =
     (case cfg_push c of
        None \<Rightarrow> (None, c)
      | Some p0 \<Rightarrow>
          (let (e, p) = push_ValidateAndSetDefaults hash p0; c = c\<lparr>cfg_push := Some p\<rparr>
           in case e of
                Some e \<Rightarrow> (Some (InvalidPush e), c)
              | None \<Rightarrow>
                  (case find (\<lambda>pe. GetEndpointByKey c (pe_key pe) = None) (pc_endpoints p) of
                     Some pe \<Rightarrow> (Some (InvalidPush (ErrPushEndpointNotFound (pe_key pe))), c)
                   | None \<Rightarrow>
                       (if list_ex (\<lambda>t. t \<in> set (map ee_token (cfg_external_endpoints c))) (push_Tokens p)
                        then (Some (InvalidPush (ErrDuplicateToken [])), c) else (None, c)))))"

section \<open>Facts\<close>

lemma first_error_None: "first_error es = None \<longleftrightarrow> list_all (\<lambda>e. e = None) es"
  by (induction es rule: first_error.induct) auto

lemma first_duplicate_None: "first_duplicate seen ks = None \<longleftrightarrow> distinct ks \<and> set ks \<inter> set seen = {}"
  by (induction ks arbitrary: seen) auto

text \<open>Unique keys are exactly what \<open>ValidateUniqueKeys\<close> accepts.\<close>

lemma ValidateUniqueKeys_iff: "ValidateUniqueKeys c = None \<longleftrightarrow> distinct (config_keys c)"
  by (simp add: ValidateUniqueKeys_def first_duplicate_None)

text \<open>The merge keeps what the alert sets and takes the rest from the default alert.\<close>

lemma merge_type [simp]:
  "al_type (MergeProviderDefaultAlertIntoEndpointAlert d a) = al_type a"
  "al_type (merge_default t default_alert a) = al_type a"
  by (simp_all add: MergeProviderDefaultAlertIntoEndpointAlert_def merge_default_def Let_def split: option.split)

lemma merge_fields:
  defines "m \<equiv> MergeProviderDefaultAlertIntoEndpointAlert"
  shows "al_enabled (m d a) = (case al_enabled a of None \<Rightarrow> al_enabled d | Some b \<Rightarrow> Some b)"
    and "send_on_resolved (m d a) = (case send_on_resolved a of None \<Rightarrow> send_on_resolved d | Some b \<Rightarrow> Some b)"
    and "al_description (m d a) = (case al_description a of None \<Rightarrow> al_description d | Some b \<Rightarrow> Some b)"
    and "failure_threshold (m d a) = (if failure_threshold a = 0 then failure_threshold d else failure_threshold a)"
    and "success_threshold (m d a) = (if success_threshold a = 0 then success_threshold d else success_threshold a)"
    and "minimum_reminder_interval (m d a) =
      (if minimum_reminder_interval a = 0 then minimum_reminder_interval d else minimum_reminder_interval a)"
    and "triggered (m d a) = triggered a" and "resolve_key (m d a) = resolve_key a"
    and "provider_override (m d a) = provider_override a"
  by (simp_all add: m_def MergeProviderDefaultAlertIntoEndpointAlert_def Let_def split: option.split)

lemma merge_default_id: "al_type a \<noteq> t \<Longrightarrow> merge_default t d a = a"
  by (auto simp: merge_default_def split: option.split)

text \<open>What the loop over the types does to one alert and to the providers, whatever the order of the types.\<close>

definition usable_default :: "alerting_section \<Rightarrow> alert \<Rightarrow> alert option" where
  "usable_default section a =
     (case section (al_type a) of
        None \<Rightarrow> None
      | Some p \<Rightarrow> (if pv_error p = None then pv_default_alert p else None))"

definition merged_alert :: "alerting_section \<Rightarrow> alert \<Rightarrow> alert" where
  "merged_alert section a =
     (case usable_default section a of
        None \<Rightarrow> a | Some d \<Rightarrow> MergeProviderDefaultAlertIntoEndpointAlert d a)"

definition valid_section :: "string set \<Rightarrow> alerting_section \<Rightarrow> alerting_section" where
  "valid_section ts section =
     (\<lambda>t. case section t of None \<Rightarrow> None | Some p \<Rightarrow> (if t \<in> ts \<and> pv_error p \<noteq> None then None else Some p))"

definition merge_among :: "string set \<Rightarrow> alerting_section \<Rightarrow> alert \<Rightarrow> alert" where
  "merge_among ts section a = (if al_type a \<in> ts then merged_alert section a else a)"

lemma merge_among_type [simp]: "al_type (merge_among ts section a) = al_type a"
  by (simp add: merge_among_def merged_alert_def split: option.split)

lemma merge_among_step:
  assumes "t \<notin> ts" and "section t = Some p" and "pv_error p = None"
  shows "merge_default t (pv_default_alert p) (merge_among ts section a) = merge_among (insert t ts) section a"
proof (cases "al_type a = t")
  case True
  with assms have "merge_among ts section a = a"
    and "merge_among (insert t ts) section a =
      (case pv_default_alert p of None \<Rightarrow> a | Some d \<Rightarrow> MergeProviderDefaultAlertIntoEndpointAlert d a)"
    by (simp_all add: merge_among_def merged_alert_def usable_default_def)
  with True show ?thesis by (simp add: merge_default_def split: option.split)
next
  case False
  then show ?thesis by (simp add: merge_default_id) (simp add: merge_among_def)
qed

lemma validate_provider_cases:
  "section t = None \<Longrightarrow> validate_provider t (section, eps, ees) = (section, eps, ees)"
  "section t = Some p \<Longrightarrow> pv_error p = None \<Longrightarrow> validate_provider t (section, eps, ees) =
     (section, map (\<lambda>ep. ep\<lparr>ep_alerts := map (merge_default t (pv_default_alert p)) (ep_alerts ep)\<rparr>) eps,
      map (\<lambda>ee. ee\<lparr>ee_alerts := map (merge_default t (pv_default_alert p)) (ee_alerts ee)\<rparr>) ees)"
  "section t = Some p \<Longrightarrow> pv_error p = Some e \<Longrightarrow> validate_provider t (section, eps, ees) = (section(t := None), eps, ees)"
  by (simp_all add: validate_provider_def)

lemma validate_providers_fold:
  assumes "distinct ts"
  shows "fold validate_provider ts (section, eps, ees) =
    (valid_section (set ts) section,
     map (\<lambda>ep. ep\<lparr>ep_alerts := map (merge_among (set ts) section) (ep_alerts ep)\<rparr>) eps,
     map (\<lambda>ee. ee\<lparr>ee_alerts := map (merge_among (set ts) section) (ee_alerts ee)\<rparr>) ees)"
  using assms
proof (induction ts rule: rev_induct)
  case Nil
  have "valid_section {} section = section"
    by (auto simp: valid_section_def fun_eq_iff split: option.split)
  then show ?case by (simp add: merge_among_def)
next
  case (snoc t ts)
  then have t: "t \<notin> set ts" and IH: "fold validate_provider ts (section, eps, ees) =
    (valid_section (set ts) section,
     map (\<lambda>ep. ep\<lparr>ep_alerts := map (merge_among (set ts) section) (ep_alerts ep)\<rparr>) eps,
     map (\<lambda>ee. ee\<lparr>ee_alerts := map (merge_among (set ts) section) (ee_alerts ee)\<rparr>) ees)"
    by auto
  have at: "valid_section (set ts) section t = section t"
    using t by (simp add: valid_section_def split: option.split)
  show ?case
  proof (cases "section t")
    case None
    then have same: "merge_among (insert t (set ts)) section = merge_among (set ts) section"
      by (auto simp: fun_eq_iff merge_among_def merged_alert_def usable_default_def)
    have "valid_section (insert t (set ts)) section = valid_section (set ts) section"
      using None by (auto simp: fun_eq_iff valid_section_def split: option.split)
    then show ?thesis using same by (simp add: IH validate_provider_cases at None)
  next
    case (Some p)
    show ?thesis
    proof (cases "pv_error p")
      case None
      note step = merge_among_step [of t "set ts" "section" p, OF t Some None]
      have "valid_section (insert t (set ts)) section = valid_section (set ts) section"
        using Some None by (auto simp: fun_eq_iff valid_section_def split: option.split)
      then show ?thesis by (simp add: IH validate_provider_cases(2) [where p = p] at Some None step comp_def)
    next
      case (Some e)
      then have same: "merge_among (insert t (set ts)) section = merge_among (set ts) section"
        using \<open>section t = Some p\<close>
        by (auto simp: fun_eq_iff merge_among_def merged_alert_def usable_default_def split: option.split)
      have "valid_section (insert t (set ts)) section = (valid_section (set ts) section)(t := None)"
        using Some \<open>section t = Some p\<close> by (auto simp: fun_eq_iff valid_section_def split: option.split)
      then show ?thesis using same by (simp add: IH validate_provider_cases(3) [where p = p] at Some fun_upd_def \<open>section t = Some p\<close>)
    qed
  qed
qed

lemma distinct_alert_types: "distinct alert_types"
  unfolding alert_types_def by code_simp

end
