(* ===== verification/ManagedEndpoints.thy ===== *)
theory ManagedEndpoints
  imports SecretMask Configuration Registry
begin

text \<open>
  The endpoints managed through the administration (\<^verbatim>\<open>internal/managedendpoint\<close>): the parsing and validation
  of a definition (\<^verbatim>\<open>definition.go\<close>, \<^verbatim>\<open>managedendpoint.go\<close>), the fields it may not use
  (\<open>ForbiddenFieldPath\<close> of \<^verbatim>\<open>internal/alertprovider/definition.go\<close>), and the snapshot of the states with
  the index of the push tokens (\<^verbatim>\<open>registry.go\<close>).

  The YAML package is a parameter (\<open>yaml_lib\<close>): the decoder of a stream, of a generic document, of the
  structs with unknown fields refused, and the encoder. The pointers of \<open>Alerts\<close> are taken to be non-nil,
  so that the error of an empty alert does not occur.
\<close>

subsection \<open>The YAML package\<close>

datatype 'a decoded = DecodeEOF | DecodeError | Decoded 'a

record push_option =
  po_enabled :: bool
  po_token :: string

record yaml_lib =
  y_first_document :: "string \<Rightarrow> unit decoded"
  y_second_document :: "string \<Rightarrow> unit decoded"
  y_unmarshal :: "string \<Rightarrow> document option decoded"
  y_marshal :: "document \<Rightarrow> string option"
  y_marshal_value :: "val \<Rightarrow> string option"
  y_decode_endpoint :: "string \<Rightarrow> endpoint decoded"
  y_decode_external :: "string \<Rightarrow> external_endpoint decoded"
  y_decode_push_option :: "string \<Rightarrow> push_option decoded"
  y_marshal_endpoint :: "endpoint \<Rightarrow> string option"
  y_marshal_external :: "external_endpoint \<Rightarrow> string option"

subsection \<open>Errors\<close>

datatype invalid_reason =
    YamlError
  | UnknownType
  | SingleDocumentExpected
  | RefusedEndpoint endpoint_error
  | RefusedPush external_error
  | RefusedTunnel config_error
  | RefusedKeyLength config_error
  | RefusedPushToken
  | KeyMismatch string
  | PushIsNotActive

datatype managed_error =
    ErrEmptyDefinition
  | ErrInvalidDefinition invalid_reason
  | ErrFieldNotAllowed string
  | ErrAlertProviderNotConfigured string
  | ErrInvalidAlertOverride string
  | ErrKeyConflict string
  | ErrExtraLabelNotAllowed string
  | ErrPushTokenInUse string
  | MarshalError

subsection \<open>Definitions\<close>

text \<open>\<open>Parsed\<close>: exactly one of the endpoint and the push endpoint is set, or none.\<close>

record parsed =
  pa_endpoint :: "endpoint option"
  pa_option :: "push_option option"
  pa_push :: "external_endpoint option"

definition parsed_IsValid :: "parsed \<Rightarrow> bool" where
  "parsed_IsValid p \<longleftrightarrow> pa_endpoint p \<noteq> None \<or> pa_push p \<noteq> None"

definition parsed_IsPush :: "parsed \<Rightarrow> bool" where
  "parsed_IsPush p \<longleftrightarrow> pa_push p \<noteq> None"

definition parsed_select :: "(external_endpoint \<Rightarrow> 'a) \<Rightarrow> (endpoint \<Rightarrow> 'a) \<Rightarrow> 'a \<Rightarrow> parsed \<Rightarrow> 'a" where
  "parsed_select f g z p =
     (case pa_push p of Some ee \<Rightarrow> f ee | None \<Rightarrow> (case pa_endpoint p of Some ep \<Rightarrow> g ep | None \<Rightarrow> z))"

definition parsed_Name :: "parsed \<Rightarrow> string" where
  "parsed_Name = parsed_select ee_name ep_name []"

definition parsed_Group :: "parsed \<Rightarrow> string" where
  "parsed_Group = parsed_select ee_group ep_group []"

definition parsed_Key :: "parsed \<Rightarrow> string" where
  "parsed_Key = parsed_select ee_Key ep_Key []"

definition parsed_IsEnabled :: "parsed \<Rightarrow> bool" where
  "parsed_IsEnabled = parsed_select ee_IsEnabled ep_IsEnabled False"

definition parsed_alerts :: "parsed \<Rightarrow> alert list" where
  "parsed_alerts = parsed_select ee_alerts ep_alerts []"

definition parsed_ReceivesPush :: "parsed \<Rightarrow> bool" where
  "parsed_ReceivesPush p \<longleftrightarrow>
     pa_push p \<noteq> None \<or>
     pa_endpoint p \<noteq> None \<and> (case pa_option p of None \<Rightarrow> False | Some opt \<Rightarrow> po_enabled opt)"

definition parsed_PushToken :: "parsed \<Rightarrow> string" where
  "parsed_PushToken p =
     (case pa_push p of
        Some ee \<Rightarrow> ee_token ee
      | None \<Rightarrow> (case pa_option p of Some opt \<Rightarrow> po_token opt | None \<Rightarrow> []))"

definition ToDocument :: "yaml_lib \<Rightarrow> string \<Rightarrow> managed_error + document" where
  "ToDocument y definition =
     (case y_unmarshal y definition of
        Decoded (Some d) \<Rightarrow> Inr d
      | DecodeError \<Rightarrow> Inl (ErrInvalidDefinition YamlError)
      | _ \<Rightarrow> Inr [])"

definition checkSingleDocument :: "yaml_lib \<Rightarrow> string \<Rightarrow> managed_error option" where
  "checkSingleDocument y definition =
     (case y_first_document y definition of
        DecodeEOF \<Rightarrow> Some ErrEmptyDefinition
      | DecodeError \<Rightarrow> Some (ErrInvalidDefinition YamlError)
      | Decoded _ \<Rightarrow>
          (if y_second_document y definition = DecodeEOF then None
           else Some (ErrInvalidDefinition SingleDocumentExpected)))"

definition decodeStrict :: "'a decoded \<Rightarrow> managed_error + 'a" where
  "decodeStrict d =
     (case d of
        DecodeEOF \<Rightarrow> Inl ErrEmptyDefinition
      | DecodeError \<Rightarrow> Inl (ErrInvalidDefinition YamlError)
      | Decoded x \<Rightarrow> Inr x)"

definition parse_push :: "yaml_lib \<Rightarrow> bool \<Rightarrow> string \<Rightarrow> managed_error + parsed" where
  "parse_push y hasPushOption remaining =
     (if hasPushOption then Inl (ErrFieldNotAllowed ''push'')
      else (case decodeStrict (y_decode_external y remaining) of
              Inl e \<Rightarrow> Inl e
            | Inr ee \<Rightarrow> Inr \<lparr>pa_endpoint = None, pa_option = None, pa_push = Some ee\<rparr>))"

definition parse_active :: "yaml_lib \<Rightarrow> val option \<Rightarrow> string \<Rightarrow> managed_error + parsed" where
  "parse_active y rawPushOption remaining =
     (case decodeStrict (y_decode_endpoint y remaining) of
        Inl e \<Rightarrow> Inl e
      | Inr ep \<Rightarrow>
          (let p = \<lparr>pa_endpoint = Some ep, pa_option = None, pa_push = None\<rparr>
           in case rawPushOption of
                None \<Rightarrow> Inr p
              | Some VNil \<Rightarrow> Inr p
              | Some v \<Rightarrow>
                  (case y_marshal_value y v of
                     None \<Rightarrow> Inl (ErrInvalidDefinition YamlError)
                   | Some encoded \<Rightarrow>
                       (case decodeStrict (y_decode_push_option y encoded) of
                          Inl e \<Rightarrow> Inl e
                        | Inr opt \<Rightarrow> Inr (p\<lparr>pa_option := Some opt\<rparr>)))))"

definition ParseDefinition :: "yaml_lib \<Rightarrow> string \<Rightarrow> managed_error + parsed" where
  "ParseDefinition y definition =
     (if trim_space definition = [] then Inl ErrEmptyDefinition
      else (case checkSingleDocument y definition of
        Some e \<Rightarrow> Inl e
      | None \<Rightarrow>
          (case ToDocument y definition of
             Inl e \<Rightarrow> Inl e
           | Inr d \<Rightarrow>
               (let endpointType = (case map_of d ''type'' of Some (VStr t) \<Rightarrow> t | _ \<Rightarrow> [])
                in if endpointType \<noteq> [] \<and> endpointType \<noteq> ''push'' then Inl (ErrInvalidDefinition UnknownType)
                   else (case y_marshal y (alist_del ''push'' (alist_del ''type'' d)) of
                           None \<Rightarrow> Inl (ErrInvalidDefinition YamlError)
                         | Some remaining \<Rightarrow>
                             (if endpointType = ''push'' then parse_push y (map_of d ''push'' \<noteq> None) remaining
                              else parse_active y (map_of d ''push'') remaining))))))"

subsection \<open>Forbidden fields\<close>

definition joinPath :: "string \<Rightarrow> string \<Rightarrow> string" where
  "joinPath pre name = (if pre = [] then name else pre @ ''.'' @ name)"

fun hasPath :: "document \<Rightarrow> string list \<Rightarrow> bool" where
  "hasPath d [] = True"
| "hasPath d [p] = (map_of d p \<noteq> None)"
| "hasPath d (p # ps) = (case map_of d p of Some (VMap m) \<Rightarrow> hasPath m ps | _ \<Rightarrow> False)"

definition forbiddenClientPaths :: "string list list" where
  "forbiddenClientPaths =
     [[''identity-aware-proxy''], [''tls'', ''certificate-file''], [''tls'', ''private-key-file''], [''tunnel'']]"

definition forbidden_client :: "string \<Rightarrow> string \<Rightarrow> val \<Rightarrow> string option" where
  "forbidden_client key childPath child =
     (if key \<noteq> ''client'' then None
      else (case child of
              VMap client \<Rightarrow>
                map_option (\<lambda>path. childPath @ ''.'' @ str_join path ''.'') (find (hasPath client) forbiddenClientPaths)
            | _ \<Rightarrow> None))"

text \<open>The path of the first forbidden field, or \<open>None\<close>.\<close>

fun checkForbiddenFields :: "val \<Rightarrow> string \<Rightarrow> string option" where
  "checkForbiddenFields (VMap m) path =
     first_error (map (\<lambda>(k, v).
       (case forbidden_client k (joinPath path k) v of
          Some p \<Rightarrow> Some p
        | None \<Rightarrow> checkForbiddenFields v (joinPath path k))) m)"
| "checkForbiddenFields (VList vs) path = first_error (map (\<lambda>v. checkForbiddenFields v (path @ ''[]'')) vs)"
| "checkForbiddenFields _ path = None"

definition ForbiddenFieldPath :: "document \<Rightarrow> string option" where
  "ForbiddenFieldPath d = checkForbiddenFields (VMap d) []"

subsection \<open>Validation\<close>

text \<open>\<open>Context\<close>. \<open>px_alerting\<close> is \<open>alertingConfig()\<close>: the given configuration or the effective one.\<close>

record prepare_context =
  px_config :: config
  px_env :: validation_env
  px_managed_keys :: "string list"
  px_allowed_labels :: "string list"
  px_push_tokens :: "string \<Rightarrow> string option"
  px_is_push_key_token :: "string \<Rightarrow> bool"
  px_alerting :: "alerting_section option"

text \<open>\<open>Prepared\<close>: the validated endpoint and the definition to persist.\<close>

record prepared =
  pr_parsed :: parsed
  pr_definition :: string

definition ConfigKeyOrigin :: "config \<Rightarrow> string \<Rightarrow> string option" where
  "ConfigKeyOrigin c key =
     (if list_ex (\<lambda>ep. ep_Key ep = key) (cfg_endpoints c) then Some ''an endpoint of the configuration file''
      else if list_ex (\<lambda>ee. ee_Key ee = key) (cfg_external_endpoints c)
      then Some ''an external endpoint of the configuration file''
      else first_error (map (\<lambda>s.
             (if su_Key s = key then Some ''a suite of the configuration file''
              else if list_ex (\<lambda>ep. suite_endpoint_key s ep = key) (su_endpoints s)
              then Some ''an endpoint of a suite of the configuration file'' else None)) (cfg_suites c)))"

definition validateKey :: "string \<Rightarrow> prepare_context \<Rightarrow> managed_error option" where
  "validateKey key ctx =
     (case CheckStorageKeyLength (cfg_storage (px_config ctx)) ''endpoint'' key of
        Some e \<Rightarrow> Some (ErrInvalidDefinition (RefusedKeyLength e))
      | None \<Rightarrow>
          (if ConfigKeyOrigin (px_config ctx) key \<noteq> None then Some (ErrKeyConflict key)
           else if key \<in> set (px_managed_keys ctx) then Some (ErrKeyConflict key)
           else None))"

definition checkAllowedFields :: "endpoint \<Rightarrow> managed_error option" where
  "checkAllowedFields ep =
     (case (case ep_client ep of
              None \<Rightarrow> None
            | Some c \<Rightarrow>
                (if cl_iap c \<noteq> None then Some (ErrFieldNotAllowed ''client.identity-aware-proxy'')
                 else (case cl_tls c of
                         None \<Rightarrow> None
                       | Some t \<Rightarrow>
                           (if CertificateFile t \<noteq> [] then Some (ErrFieldNotAllowed ''client.tls.certificate-file'')
                            else if PrivateKeyFile t \<noteq> [] then Some (ErrFieldNotAllowed ''client.tls.private-key-file'')
                            else None)))) of
        Some e \<Rightarrow> Some e
      | None \<Rightarrow>
          (if ep_store ep \<noteq> [] then Some (ErrFieldNotAllowed ''store'')
           else if ep_always_run ep then Some (ErrFieldNotAllowed ''always-run'')
           else None))"

definition validate_managed_alert ::
    "string \<Rightarrow> alerting_section option \<Rightarrow> unit \<Rightarrow> alert \<Rightarrow> managed_error option \<times> unit \<times> alert" where
  "validate_managed_alert grp alerting u a =
     (case ForbiddenFieldPath (provider_override a) of
        Some path \<Rightarrow> (Some (ErrFieldNotAllowed (''alerts[].provider-override.'' @ path)), u, a)
      | None \<Rightarrow>
          (case Option.bind alerting (\<lambda>al. al (al_type a)) of
             None \<Rightarrow> (Some (ErrAlertProviderNotConfigured (al_type a)), u, a)
           | Some p \<Rightarrow>
               (let a' = (case pv_default_alert p of
                            None \<Rightarrow> a | Some d \<Rightarrow> MergeProviderDefaultAlertIntoEndpointAlert d a)
                in (if provider_override a' \<noteq> [] \<and> pv_override_error p grp a' \<noteq> None
                    then Some (ErrInvalidAlertOverride (al_type a')) else None, u, a'))))"

definition validateAlerts ::
    "string \<Rightarrow> alerting_section option \<Rightarrow> alert list \<Rightarrow> managed_error option \<times> alert list" where
  "validateAlerts grp alerting alerts =
     (let (e, _, alerts') = validate_seq (validate_managed_alert grp alerting) () alerts in (e, alerts'))"

definition checkExtraLabels :: "endpoint \<Rightarrow> string list \<Rightarrow> managed_error option" where
  "checkExtraLabels ep allowed =
     map_option ErrExtraLabelNotAllowed (find (\<lambda>l. l \<notin> set allowed) (sort (map fst (ep_extra_labels ep))))"

definition validate_active :: "endpoint \<Rightarrow> prepare_context \<Rightarrow> managed_error + endpoint" where
  "validate_active ep0 ctx =
     (case checkAllowedFields ep0 of
        Some e \<Rightarrow> Inl e
      | None \<Rightarrow>
          (case validateAlerts (ep_group ep0) (px_alerting ctx) (ep_alerts ep0) of
             (Some e, _) \<Rightarrow> Inl e
           | (None, alerts) \<Rightarrow>
               (case ep_ValidateAndSetDefaults (px_env ctx) (ep0\<lparr>ep_alerts := alerts\<rparr>) of
                  (Some e, _) \<Rightarrow> Inl (ErrInvalidDefinition (RefusedEndpoint e))
                | (None, ep) \<Rightarrow>
                    (case resolveTunnelForClientConfig (px_config ctx) (ep_client ep) of
                       Inl e \<Rightarrow> Inl (ErrInvalidDefinition (RefusedTunnel e))
                     | Inr client \<Rightarrow>
                         (let ep = ep\<lparr>ep_client := client\<rparr>
                          in case validateKey (ep_Key ep) ctx of
                               Some e \<Rightarrow> Inl e
                             | None \<Rightarrow>
                                 (case checkExtraLabels ep (px_allowed_labels ctx) of
                                    Some e \<Rightarrow> Inl e | None \<Rightarrow> Inr ep))))))"

definition DefaultPushHeartbeatInterval :: duration where
  "DefaultPushHeartbeatInterval = minute"

definition validatePush :: "external_endpoint \<Rightarrow> prepare_context \<Rightarrow> managed_error + external_endpoint" where
  "validatePush ee0 ctx =
     (case validateAlerts (ee_group ee0) (px_alerting ctx) (ee_alerts ee0) of
        (Some e, _) \<Rightarrow> Inl e
      | (None, alerts) \<Rightarrow>
          (let ee = ee0\<lparr>ee_alerts := alerts\<rparr>;
               ee = (if hb_interval (ee_heartbeat ee) = 0
                     then ee\<lparr>ee_heartbeat := (ee_heartbeat ee)\<lparr>hb_interval := DefaultPushHeartbeatInterval\<rparr>\<rparr> else ee)
           in case ee_ValidateAndSetDefaults ee of
                (Some e, _) \<Rightarrow> Inl (ErrInvalidDefinition (RefusedPush e))
              | (None, ee) \<Rightarrow> (case validateKey (ee_Key ee) ctx of Some e \<Rightarrow> Inl e | None \<Rightarrow> Inr ee)))"

definition validatePushToken :: "parsed \<Rightarrow> prepare_context \<Rightarrow> managed_error option" where
  "validatePushToken p ctx =
     (let token = parsed_PushToken p
      in if token = [] then None
         else if \<not> ValidToken token MinimumEndpointTokenLength then Some (ErrInvalidDefinition RefusedPushToken)
         else if \<not> parsed_ReceivesPush p then None
         else (case px_push_tokens ctx token of
                 Some owner \<Rightarrow> Some (ErrPushTokenInUse owner)
               | None \<Rightarrow>
                   (if px_is_push_key_token ctx token then Some (ErrPushTokenInUse ''a global push key'') else None)))"

definition validate_parsed :: "parsed \<Rightarrow> prepare_context \<Rightarrow> managed_error + parsed" where
  "validate_parsed p ctx =
     (case pa_push p of
        Some ee \<Rightarrow>
          (case validatePush ee ctx of Inl e \<Rightarrow> Inl e | Inr ee' \<Rightarrow> Inr (p\<lparr>pa_push := Some ee'\<rparr>))
      | None \<Rightarrow>
          (case pa_endpoint p of
             Some ep \<Rightarrow>
               (case validate_active ep ctx of Inl e \<Rightarrow> Inl e | Inr ep' \<Rightarrow> Inr (p\<lparr>pa_endpoint := Some ep'\<rparr>))
           | None \<Rightarrow> Inr p))"

definition Prepare :: "yaml_lib \<Rightarrow> string \<Rightarrow> prepare_context \<Rightarrow> managed_error + prepared" where
  "Prepare y definition ctx =
     (case ParseDefinition y definition of
        Inl e \<Rightarrow> Inl e
      | Inr p0 \<Rightarrow>
          (case ToDocument y definition of
             Inl e \<Rightarrow> Inl e
           | Inr d \<Rightarrow>
               (case y_marshal y d of
                  None \<Rightarrow> Inl (ErrInvalidDefinition YamlError)
                | Some normalized \<Rightarrow>
                    (case validate_parsed p0 ctx of
                       Inl e \<Rightarrow> Inl e
                     | Inr p \<Rightarrow>
                         (case validatePushToken p ctx of
                            Some e \<Rightarrow> Inl e
                          | None \<Rightarrow> Inr \<lparr>pr_parsed = p, pr_definition = normalized\<rparr>)))))"

definition effectiveDefinition :: "yaml_lib \<Rightarrow> parsed \<Rightarrow> managed_error + string" where
  "effectiveDefinition y p =
     (case parsed_select (y_marshal_external y) (y_marshal_endpoint y) None p of
        None \<Rightarrow> Inl MarshalError | Some s \<Rightarrow> Inr s)"

end
