(* ===== verification/ManagedStore.thy ===== *)
theory ManagedStore
  imports TriggeredStore
begin

text \<open>
  The tables of what is managed through the administration (\<^verbatim>\<open>internal/storage/store/sql\<close>): the endpoints
  (\<^verbatim>\<open>managed_endpoints.go\<close>), the status pages (\<^verbatim>\<open>managed_status_pages.go\<close>), the alerting providers
  (\<^verbatim>\<open>managed_alert_providers.go\<close>) and the push keys (\<^verbatim>\<open>push_keys.go\<close>). A table is the list of its rows by
  their unique key. Every write runs in a transaction (\<open>inTransaction\<close>) that first changes the rows, then
  calls the function that applies the change to the running program, and only then commits.

  \<open>tx_fault\<close> names what fails, if anything: the begin, the n-th statement, the commit, or the update because
  another transaction changed the row after it was read. The first three tables have the same columns and the
  same operations; their contract is the locale \<open>versioned_table\<close>.
\<close>

record managed_row =
  mgd_key :: string
  mgd_definition :: string
  mgd_version :: int
  mgd_created_at :: time
  mgd_updated_at :: time
  mgd_updated_by :: string

type_synonym managed_endpoint = managed_row
type_synonym managed_table_rows = "(string \<times> managed_row) list"

datatype managed_table = ManagedEndpointsTable | ManagedStatusPagesTable | ManagedAlertProvidersTable

datatype managed_store_error =
    DatabaseError
  | ErrManagedNotFound managed_table
  | ErrManagedAlreadyExists managed_table
  | ErrManagedVersionMismatch managed_table
  | ErrEndpointKeyInUse
  | ErrPushKeyNotFound
  | ErrPushKeyAlreadyExists

datatype 'a tx_error = StoreFailure managed_store_error | ApplyFailure 'a

datatype tx_fault = TxNoFault | TxBegin | TxStatement nat | TxLost | TxCommit

record push_key_row =
  pkr_id :: int
  pkr_name :: string
  pkr_token_hash :: string
  pkr_hint :: string
  pkr_created_at :: time
  pkr_created_by :: string

record managed_db =
  db_table :: "managed_table \<Rightarrow> managed_table_rows"
  db_push_keys :: "push_key_row list"
  db_next_push_key :: int
  db_sql :: sql_state
  db_tx :: tx_fault

subsection \<open>Transactions\<close>

definition inTransaction ::
    "(managed_db \<Rightarrow> managed_store_error + managed_db) \<Rightarrow> ('m \<Rightarrow> 'a option \<times> 'm) \<Rightarrow> managed_db \<Rightarrow> 'm \<Rightarrow>
     'a tx_error option \<times> managed_db \<times> 'm" where
  "inTransaction write apply db m =
     (if db_tx db = TxBegin then (Some (StoreFailure DatabaseError), db, m)
      else case write db of
             Inl e \<Rightarrow> (Some (StoreFailure e), db, m)
           | Inr tx \<Rightarrow>
               (case apply m of
                  (Some e, m') \<Rightarrow> (Some (ApplyFailure e), db, m')
                | (None, m') \<Rightarrow>
                    (if db_tx db = TxCommit then (Some (StoreFailure DatabaseError), db, m')
                     else (None, tx, m'))))"

text \<open>The call without a function to apply.\<close>

definition no_apply :: "'m \<Rightarrow> 'a option \<times> 'm" where
  "no_apply m = (None, m)"

text \<open>A transaction that fails leaves the database as it was; one that succeeds has applied its change.\<close>

lemma inTransaction_failure: "inTransaction write apply db m = (Some e, db', m') \<Longrightarrow> db' = db"
  by (auto simp: inTransaction_def split: if_splits sum.splits prod.splits option.splits)

lemma inTransaction_success:
  "inTransaction write apply db m = (None, db', m') \<longleftrightarrow>
   db_tx db \<noteq> TxBegin \<and> db_tx db \<noteq> TxCommit \<and> write db = Inr db' \<and> apply m = (None, m')"
  by (auto simp: inTransaction_def split: sum.split prod.split option.split)

subsection \<open>Rows with versions\<close>

definition insert_row ::
    "managed_table \<Rightarrow> tx_fault \<Rightarrow> time \<Rightarrow> managed_row \<Rightarrow> managed_table_rows \<Rightarrow>
     managed_store_error + managed_table_rows" where
  "insert_row tb fault now row rows =
     (if fault = TxStatement 0 then Inl DatabaseError
      else if map_of rows (mgd_key row) \<noteq> None then Inl (ErrManagedAlreadyExists tb)
      else Inr (rows @ [(mgd_key row,
                  row\<lparr>mgd_version := 1, mgd_created_at := now, mgd_updated_at := now\<rparr>)]))"

text \<open>The row after an update: the creation time is kept.\<close>

definition updated_row :: "time \<Rightarrow> managed_row \<Rightarrow> int \<Rightarrow> managed_row \<Rightarrow> managed_row" where
  "updated_row now row expectedVersion old =
     row\<lparr>mgd_version := expectedVersion + 1, mgd_created_at := mgd_created_at old, mgd_updated_at := now\<rparr>"

definition update_row ::
    "managed_table \<Rightarrow> tx_fault \<Rightarrow> time \<Rightarrow> managed_row \<Rightarrow> int \<Rightarrow> managed_table_rows \<Rightarrow>
     managed_store_error + managed_table_rows" where
  "update_row tb fault now row expectedVersion rows =
     (if fault = TxStatement 0 then Inl DatabaseError
      else case map_of rows (mgd_key row) of
             None \<Rightarrow> Inl (ErrManagedNotFound tb)
           | Some old \<Rightarrow>
               (if mgd_version old \<noteq> expectedVersion then Inl (ErrManagedVersionMismatch tb)
                else if fault = TxStatement 1 then Inl DatabaseError
                else if fault = TxLost then Inl (ErrManagedVersionMismatch tb)
                else Inr (alist_put (mgd_key row) (updated_row now row expectedVersion old) rows)))"

definition delete_row ::
    "managed_table \<Rightarrow> tx_fault \<Rightarrow> string \<Rightarrow> int \<Rightarrow> managed_table_rows \<Rightarrow>
     managed_store_error + managed_table_rows" where
  "delete_row tb fault key expectedVersion rows =
     (if fault = TxStatement 0 then Inl DatabaseError
      else case map_of rows key of
             Some old \<Rightarrow>
               (if mgd_version old = expectedVersion then Inr (alist_del key rows)
                else if fault = TxStatement 1 then Inl DatabaseError
                else Inl (ErrManagedVersionMismatch tb))
           | None \<Rightarrow>
               (if fault = TxStatement 1 then Inl DatabaseError else Inl (ErrManagedNotFound tb)))"

text \<open>A change of one table in the write of a transaction.\<close>

definition on_table ::
    "managed_table \<Rightarrow> (managed_table_rows \<Rightarrow> managed_store_error + managed_table_rows) \<Rightarrow>
     managed_db \<Rightarrow> managed_store_error + managed_db" where
  "on_table tb f db =
     (case f (db_table db tb) of Inl e \<Rightarrow> Inl e | Inr rows \<Rightarrow> Inr (db\<lparr>db_table := (db_table db)(tb := rows)\<rparr>))"

text \<open>
  The operations of a table, as the three files have them. A success also sets the version and the times of the
  given object, which is then the row that was written: the model gives that row.
\<close>

definition table_list :: "managed_table \<Rightarrow> managed_db \<Rightarrow> managed_row list option" where
  "table_list tb db =
     (if db_tx db = TxStatement 0 then None else Some (map snd (sort_key fst (db_table db tb))))"

definition table_get :: "managed_table \<Rightarrow> string \<Rightarrow> managed_db \<Rightarrow> managed_store_error + managed_row" where
  "table_get tb key db =
     (if db_tx db = TxStatement 0 then Inl DatabaseError
      else case map_of (db_table db tb) key of None \<Rightarrow> Inl (ErrManagedNotFound tb) | Some row \<Rightarrow> Inr row)"

type_synonym ('a, 'm) write_result = "('a tx_error + managed_row) \<times> managed_db \<times> 'm"

text \<open>The row of a key after a successful write.\<close>

definition written :: "managed_table \<Rightarrow> string \<Rightarrow> 'a tx_error option \<times> managed_db \<times> 'm \<Rightarrow> ('a, 'm) write_result" where
  "written tb key r =
     (case r of
        (Some e, db, m) \<Rightarrow> (Inl e, db, m)
      | (None, db, m) \<Rightarrow> (Inr (the (map_of (db_table db tb) key)), db, m))"

definition table_create ::
    "managed_table \<Rightarrow> time \<Rightarrow> managed_row \<Rightarrow> ('m \<Rightarrow> 'a option \<times> 'm) \<Rightarrow> managed_db \<Rightarrow> 'm \<Rightarrow> ('a, 'm) write_result" where
  "table_create tb now row apply db m =
     written tb (mgd_key row) (inTransaction (on_table tb (insert_row tb (db_tx db) now row)) apply db m)"

definition table_update ::
    "managed_table \<Rightarrow> time \<Rightarrow> managed_row \<Rightarrow> int \<Rightarrow> ('m \<Rightarrow> 'a option \<times> 'm) \<Rightarrow> managed_db \<Rightarrow> 'm \<Rightarrow>
     ('a, 'm) write_result" where
  "table_update tb now row expectedVersion apply db m =
     written tb (mgd_key row)
       (inTransaction (on_table tb (update_row tb (db_tx db) now row expectedVersion)) apply db m)"

definition table_delete ::
    "managed_table \<Rightarrow> string \<Rightarrow> int \<Rightarrow> ('m \<Rightarrow> 'a option \<times> 'm) \<Rightarrow> managed_db \<Rightarrow> 'm \<Rightarrow>
     'a tx_error option \<times> managed_db \<times> 'm" where
  "table_delete tb key expectedVersion apply db m =
     inTransaction (on_table tb (delete_row tb (db_tx db) key expectedVersion)) apply db m"

subsection \<open>Managed endpoints\<close>

definition ListManagedEndpoints :: "managed_db \<Rightarrow> managed_row list option" where
  "ListManagedEndpoints = table_list ManagedEndpointsTable"

definition GetManagedEndpoint :: "string \<Rightarrow> managed_db \<Rightarrow> managed_store_error + managed_row" where
  "GetManagedEndpoint = table_get ManagedEndpointsTable"

definition CreateManagedEndpoint ::
    "time \<Rightarrow> managed_row \<Rightarrow> ('m \<Rightarrow> 'a option \<times> 'm) \<Rightarrow> managed_db \<Rightarrow> 'm \<Rightarrow> ('a, 'm) write_result" where
  "CreateManagedEndpoint = table_create ManagedEndpointsTable"

definition UpdateManagedEndpoint ::
    "time \<Rightarrow> managed_row \<Rightarrow> int \<Rightarrow> ('m \<Rightarrow> 'a option \<times> 'm) \<Rightarrow> managed_db \<Rightarrow> 'm \<Rightarrow> ('a, 'm) write_result" where
  "UpdateManagedEndpoint = table_update ManagedEndpointsTable"

text \<open>
  \<open>ManagedEndpointRename\<close>: the old key, the new name and group, whether the data moves, and the status pages
  that change with it, each with its expected version.
\<close>

record endpoint_rename =
  rn_old_key :: string
  rn_name :: string
  rn_group :: string
  rn_move_history :: bool
  rn_status_pages :: "(managed_row \<times> int) list"

text \<open>
  The update of the table \<open>endpoints\<close>: the row of the old key gets the new key, name and group, which both have
  to be unique. What refers to its identifier follows it.
\<close>

definition move_endpoint :: "string \<Rightarrow> string \<Rightarrow> string \<Rightarrow> string \<Rightarrow> sql_state \<Rightarrow> managed_store_error + sql_state" where
  "move_endpoint oldKey newKey name grp s =
     (case map_of (endpoint_rows s) oldKey of
        None \<Rightarrow> Inr s
      | Some (i, _) \<Rightarrow>
          (if list_ex (\<lambda>(k, _, n, g). k \<noteq> oldKey \<and> (k = newKey \<or> n = name \<and> g = grp)) (endpoint_rows s)
           then Inl ErrEndpointKeyInUse
           else Inr (s\<lparr>endpoint_rows :=
                  map (\<lambda>(k, v). if k = oldKey then (newKey, i, name, grp) else (k, v)) (endpoint_rows s)\<rparr>)))"

text \<open>The updates of the status pages; \<open>n\<close> is the number of the statement.\<close>

fun update_pages ::
    "tx_fault \<Rightarrow> time \<Rightarrow> nat \<Rightarrow> (managed_row \<times> int) list \<Rightarrow> managed_table_rows \<Rightarrow>
     managed_store_error + managed_table_rows" where
  "update_pages fault now n [] rows = Inr rows"
| "update_pages fault now n ((page, expectedVersion) # updates) rows =
     (if fault = TxStatement n then Inl DatabaseError
      else case map_of rows (mgd_key page) of
             None \<Rightarrow> Inl (ErrManagedVersionMismatch ManagedStatusPagesTable)
           | Some old \<Rightarrow>
               (if mgd_version old \<noteq> expectedVersion then Inl (ErrManagedVersionMismatch ManagedStatusPagesTable)
                else update_pages fault now (Suc n) updates
                       (alist_put (mgd_key page) (updated_row now page expectedVersion old) rows)))"

text \<open>
  The write of \<open>RenameManagedEndpoint\<close>: the version, then the new key in both tables, then the row, the data
  and the pages. The creation time is that of the old row.
\<close>

definition rename_write ::
    "time \<Rightarrow> managed_row \<Rightarrow> int \<Rightarrow> endpoint_rename \<Rightarrow> managed_db \<Rightarrow> managed_store_error + managed_db" where
  "rename_write now row expectedVersion rn db =
     (let rows = db_table db ManagedEndpointsTable; fault = db_tx db; newKey = mgd_key row; oldKey = rn_old_key rn
      in if fault = TxStatement 0 then Inl DatabaseError
         else case map_of rows oldKey of
           None \<Rightarrow> Inl (ErrManagedNotFound ManagedEndpointsTable)
         | Some old \<Rightarrow>
             (if mgd_version old \<noteq> expectedVersion then Inl (ErrManagedVersionMismatch ManagedEndpointsTable)
              else if newKey \<noteq> oldKey \<and> fault \<in> {TxStatement 1, TxStatement 2} then Inl DatabaseError
              else if newKey \<noteq> oldKey \<and>
                (map_of rows newKey \<noteq> None \<or> map_of (endpoint_rows (db_sql db)) newKey \<noteq> None)
              then Inl ErrEndpointKeyInUse
              else if fault = TxStatement 3 then Inl DatabaseError
              else if fault = TxLost then Inl (ErrManagedVersionMismatch ManagedEndpointsTable)
              else
                (let rows' = alist_put newKey (updated_row now row expectedVersion old) (alist_del oldKey rows);
                     moved = (if \<not> rn_move_history rn then Inr (db_sql db)
                              else if fault = TxStatement 4 then Inl DatabaseError
                              else move_endpoint oldKey newKey (rn_name rn) (rn_group rn) (db_sql db))
                 in case moved of
                      Inl e \<Rightarrow> Inl e
                    | Inr s \<Rightarrow>
                        (case update_pages fault now 5 (rn_status_pages rn) (db_table db ManagedStatusPagesTable) of
                           Inl e \<Rightarrow> Inl e
                         | Inr pages \<Rightarrow>
                             Inr (db\<lparr>db_table := (db_table db)
                                      (ManagedEndpointsTable := rows', ManagedStatusPagesTable := pages),
                                    db_sql := s\<rparr>)))))"

definition RenameManagedEndpoint ::
    "time \<Rightarrow> managed_row \<Rightarrow> int \<Rightarrow> endpoint_rename \<Rightarrow> ('m \<Rightarrow> 'a option \<times> 'm) \<Rightarrow> managed_db \<Rightarrow> 'm \<Rightarrow>
     ('a, 'm) write_result" where
  "RenameManagedEndpoint now row expectedVersion rn apply db m =
     written ManagedEndpointsTable (mgd_key row)
       (inTransaction (rename_write now row expectedVersion rn) apply db m)"

text \<open>The deletion of the row of \<open>endpoints\<close>; what refers to it goes with it.\<close>

definition delete_endpoint_data :: "string \<Rightarrow> sql_state \<Rightarrow> sql_state" where
  "delete_endpoint_data key s =
     (case map_of (endpoint_rows s) key of
        None \<Rightarrow> s
      | Some (i, _) \<Rightarrow>
          s\<lparr>endpoint_rows := alist_del key (endpoint_rows s),
            triggered_rows := filter (\<lambda>((j, _), _). j \<noteq> i) (triggered_rows s)\<rparr>)"

definition delete_write :: "string \<Rightarrow> int \<Rightarrow> bool \<Rightarrow> managed_db \<Rightarrow> managed_store_error + managed_db" where
  "delete_write key expectedVersion deleteEndpointData db =
     (case on_table ManagedEndpointsTable (delete_row ManagedEndpointsTable (db_tx db) key expectedVersion) db of
        Inl e \<Rightarrow> Inl e
      | Inr tx \<Rightarrow>
          (if \<not> deleteEndpointData then Inr tx
           else if db_tx db = TxStatement 2 then Inl DatabaseError
           else Inr (tx\<lparr>db_sql := delete_endpoint_data key (db_sql tx)\<rparr>)))"

definition DeleteManagedEndpoint ::
    "string \<Rightarrow> int \<Rightarrow> bool \<Rightarrow> ('m \<Rightarrow> 'a option \<times> 'm) \<Rightarrow> managed_db \<Rightarrow> 'm \<Rightarrow> 'a tx_error option \<times> managed_db \<times> 'm" where
  "DeleteManagedEndpoint key expectedVersion deleteEndpointData apply db m =
     inTransaction (delete_write key expectedVersion deleteEndpointData) apply db m"

subsection \<open>Status pages and alerting providers\<close>

definition ListManagedStatusPages :: "managed_db \<Rightarrow> managed_row list option" where
  "ListManagedStatusPages = table_list ManagedStatusPagesTable"

definition GetManagedStatusPage :: "string \<Rightarrow> managed_db \<Rightarrow> managed_store_error + managed_row" where
  "GetManagedStatusPage = table_get ManagedStatusPagesTable"

definition CreateManagedStatusPage ::
    "time \<Rightarrow> managed_row \<Rightarrow> ('m \<Rightarrow> 'a option \<times> 'm) \<Rightarrow> managed_db \<Rightarrow> 'm \<Rightarrow> ('a, 'm) write_result" where
  "CreateManagedStatusPage = table_create ManagedStatusPagesTable"

definition UpdateManagedStatusPage ::
    "time \<Rightarrow> managed_row \<Rightarrow> int \<Rightarrow> ('m \<Rightarrow> 'a option \<times> 'm) \<Rightarrow> managed_db \<Rightarrow> 'm \<Rightarrow> ('a, 'm) write_result" where
  "UpdateManagedStatusPage = table_update ManagedStatusPagesTable"

definition DeleteManagedStatusPage ::
    "string \<Rightarrow> int \<Rightarrow> ('m \<Rightarrow> 'a option \<times> 'm) \<Rightarrow> managed_db \<Rightarrow> 'm \<Rightarrow> 'a tx_error option \<times> managed_db \<times> 'm" where
  "DeleteManagedStatusPage = table_delete ManagedStatusPagesTable"

definition ListManagedAlertProviders :: "managed_db \<Rightarrow> managed_row list option" where
  "ListManagedAlertProviders = table_list ManagedAlertProvidersTable"

definition GetManagedAlertProvider :: "string \<Rightarrow> managed_db \<Rightarrow> managed_store_error + managed_row" where
  "GetManagedAlertProvider = table_get ManagedAlertProvidersTable"

definition CreateManagedAlertProvider ::
    "time \<Rightarrow> managed_row \<Rightarrow> ('m \<Rightarrow> 'a option \<times> 'm) \<Rightarrow> managed_db \<Rightarrow> 'm \<Rightarrow> ('a, 'm) write_result" where
  "CreateManagedAlertProvider = table_create ManagedAlertProvidersTable"

definition UpdateManagedAlertProvider ::
    "time \<Rightarrow> managed_row \<Rightarrow> int \<Rightarrow> ('m \<Rightarrow> 'a option \<times> 'm) \<Rightarrow> managed_db \<Rightarrow> 'm \<Rightarrow> ('a, 'm) write_result" where
  "UpdateManagedAlertProvider = table_update ManagedAlertProvidersTable"

definition DeleteManagedAlertProvider ::
    "string \<Rightarrow> int \<Rightarrow> ('m \<Rightarrow> 'a option \<times> 'm) \<Rightarrow> managed_db \<Rightarrow> 'm \<Rightarrow> 'a tx_error option \<times> managed_db \<times> 'm" where
  "DeleteManagedAlertProvider = table_delete ManagedAlertProvidersTable"

subsection \<open>Push keys\<close>

definition ListPushKeys :: "managed_db \<Rightarrow> push_key_row list option" where
  "ListPushKeys db = (if db_tx db = TxStatement 0 then None else Some (sort_key pkr_name (db_push_keys db)))"

definition insert_push_key :: "time \<Rightarrow> push_key_row \<Rightarrow> managed_db \<Rightarrow> managed_store_error + managed_db" where
  "insert_push_key now key db =
     (if db_tx db = TxStatement 0 then Inl DatabaseError
      else if list_ex (\<lambda>k. pkr_name k = pkr_name key \<or> pkr_token_hash k = pkr_token_hash key) (db_push_keys db)
      then Inl ErrPushKeyAlreadyExists
      else Inr (db\<lparr>db_push_keys := db_push_keys db @ [key\<lparr>pkr_id := db_next_push_key db, pkr_created_at := now\<rparr>],
                  db_next_push_key := db_next_push_key db + 1\<rparr>))"

text \<open>A success sets the identifier and the creation time of the object: the model gives the row.\<close>

definition CreatePushKey ::
    "time \<Rightarrow> push_key_row \<Rightarrow> ('m \<Rightarrow> 'a option \<times> 'm) \<Rightarrow> managed_db \<Rightarrow> 'm \<Rightarrow>
     ('a tx_error + push_key_row) \<times> managed_db \<times> 'm" where
  "CreatePushKey now key apply db m =
     (case inTransaction (insert_push_key now key) apply db m of
        (Some e, db', m') \<Rightarrow> (Inl e, db', m')
      | (None, db', m') \<Rightarrow> (Inr (key\<lparr>pkr_id := db_next_push_key db, pkr_created_at := now\<rparr>), db', m'))"

definition remove_push_key :: "int \<Rightarrow> managed_db \<Rightarrow> managed_store_error + managed_db" where
  "remove_push_key i db =
     (if db_tx db = TxStatement 0 then Inl DatabaseError
      else if \<not> list_ex (\<lambda>k. pkr_id k = i) (db_push_keys db) then Inl ErrPushKeyNotFound
      else Inr (db\<lparr>db_push_keys := filter (\<lambda>k. pkr_id k \<noteq> i) (db_push_keys db)\<rparr>))"

definition DeletePushKey ::
    "int \<Rightarrow> ('m \<Rightarrow> 'a option \<times> 'm) \<Rightarrow> managed_db \<Rightarrow> 'm \<Rightarrow> 'a tx_error option \<times> managed_db \<times> 'm" where
  "DeletePushKey i apply db m = inTransaction (remove_push_key i) apply db m"

section \<open>The contract of a table with versions\<close>

text \<open>
  \<open>update env row v s\<close>: an update of the row that was read with version \<open>v\<close>, with what it depends on besides;
  it gives whether it succeeded. The laws: a success needs the version of the row and increments it, a failure
  changes no row.
\<close>

locale versioned_table =
  fixes update :: "'env \<Rightarrow> managed_row \<Rightarrow> int \<Rightarrow> 's \<Rightarrow> bool \<times> 's"
    and row :: "'s \<Rightarrow> string \<Rightarrow> managed_row option"
  assumes update_success: "update env r v s = (True, s') \<Longrightarrow>
      \<exists>old new. row s (mgd_key r) = Some old \<and> mgd_version old = v \<and> mgd_version new = v + 1 \<and>
        mgd_definition new = mgd_definition r \<and> mgd_created_at new = mgd_created_at old \<and>
        row s' = (row s)(mgd_key r \<mapsto> new)"
    and update_failure: "update env r v s = (False, s') \<Longrightarrow> row s' = row s"
begin

text \<open>A run of updates: the expected versions of those of the key \<open>k\<close> that succeeded, and the final state.\<close>

fun run :: "string \<Rightarrow> ('env \<times> managed_row \<times> int) list \<Rightarrow> 's \<Rightarrow> int list \<times> 's" where
  "run k [] s = ([], s)"
| "run k ((env, r, v) # us) s =
     (let (ok, s') = update env r v s; (vs, s'') = run k us s'
      in (if ok \<and> mgd_key r = k then v # vs else vs, s''))"

lemma run_step:
  assumes "row s k = Some old"
  obtains new where "row (snd (update env r v s)) k = Some new"
    and "mgd_created_at new = mgd_created_at old"
    and "if fst (update env r v s) \<and> mgd_key r = k then mgd_version old = v \<and> mgd_version new = v + 1 else new = old"
proof (cases "update env r v s")
  case (Pair ok s')
  show ?thesis
  proof (cases ok)
    case True
    then obtain old' new where u: "row s (mgd_key r) = Some old'" "mgd_version old' = v" "mgd_version new = v + 1"
      "mgd_created_at new = mgd_created_at old'" "row s' = (row s)(mgd_key r \<mapsto> new)"
      using update_success [of env r v s s'] Pair True by auto
    show ?thesis
    proof (cases "mgd_key r = k")
      case True
      then show ?thesis using that [of new] u assms Pair \<open>ok\<close> by auto
    next
      case False
      then show ?thesis using that [of old] u assms Pair \<open>ok\<close> by auto
    qed
  next
    case False
    then show ?thesis using that [of old] update_failure [of env r v s s'] Pair assms by simp
  qed
qed

text \<open>
  No update is lost: the updates of a key that succeed have consecutive versions, from that of the row on,
  whatever else runs between them.
\<close>

lemma run_consecutive:
  assumes "row s k = Some old"
  shows "\<exists>new. row (snd (run k us s)) k = Some new \<and> mgd_created_at new = mgd_created_at old \<and>
     mgd_version old \<le> mgd_version new \<and> fst (run k us s) = [mgd_version old .. mgd_version new - 1]"
  using assms
proof (induction us arbitrary: s old)
  case (Cons u us)
  obtain env r v where u: "u = (env, r, v)" by (cases u)
  let ?r = "update env r v s"
  obtain mid where mid: "row (snd ?r) k = Some mid" "mgd_created_at mid = mgd_created_at old"
      "if fst ?r \<and> mgd_key r = k then mgd_version old = v \<and> mgd_version mid = v + 1 else mid = old"
    using run_step [OF Cons.prems] by metis
  obtain new where new: "row (snd (run k us (snd ?r))) k = Some new" "mgd_created_at new = mgd_created_at mid"
      "mgd_version mid \<le> mgd_version new" "fst (run k us (snd ?r)) = [mgd_version mid .. mgd_version new - 1]"
    using Cons.IH [OF mid(1)] by blast
  have "run k (u # us) s = ((if fst ?r \<and> mgd_key r = k then v # fst (run k us (snd ?r)) else fst (run k us (snd ?r))),
      snd (run k us (snd ?r)))"
    by (simp add: u split_beta)
  then show ?case using mid new by (auto simp: upto_rec1 split: if_splits)
qed simp

end

subsection \<open>The three tables\<close>

text \<open>
  The update of a table as the locale has it: the environment is the time, the fault and what is applied; the
  state is the database and the state of what is applied.
\<close>

definition table_step ::
    "managed_table \<Rightarrow> time \<times> tx_fault \<times> ('m \<Rightarrow> 'a option \<times> 'm) \<Rightarrow> managed_row \<Rightarrow> int \<Rightarrow> managed_db \<times> 'm \<Rightarrow>
     bool \<times> managed_db \<times> 'm" where
  "table_step tb env r v s =
     (let (now, fault, apply) = env; (db, m) = s;
          (res, db', m') = table_update tb now r v apply (db\<lparr>db_tx := fault\<rparr>) m
      in (isl res = False, db', m'))"

definition table_row :: "managed_table \<Rightarrow> managed_db \<times> 'm \<Rightarrow> string \<Rightarrow> managed_row option" where
  "table_row tb s = map_of (db_table (fst s) tb)"

lemma table_update_success:
  assumes "table_update tb now r v apply db m = (Inr new, db', m')"
  shows "\<exists>old. map_of (db_table db tb) (mgd_key r) = Some old \<and> mgd_version old = v \<and> new = updated_row now r v old \<and>
    apply m = (None, m') \<and> db' = db\<lparr>db_table := (db_table db)(tb := alist_put (mgd_key r) new (db_table db tb))\<rparr>"
  using assms
  by (auto simp: table_update_def written_def inTransaction_success on_table_def update_row_def
      split: prod.splits option.splits sum.splits if_splits)

lemma table_update_failure: "table_update tb now r v apply db m = (Inl e, db', m') \<Longrightarrow> db' = db"
  by (auto simp: table_update_def written_def dest: inTransaction_failure split: prod.splits option.splits)

lemma table_create_success:
  assumes "table_create tb now r apply db m = (Inr new, db', m')"
  shows "map_of (db_table db tb) (mgd_key r) = None \<and>
    new = r\<lparr>mgd_version := 1, mgd_created_at := now, mgd_updated_at := now\<rparr> \<and> apply m = (None, m') \<and>
    db' = db\<lparr>db_table := (db_table db)(tb := db_table db tb @ [(mgd_key r, new)])\<rparr>"
  using assms
  by (auto simp: table_create_def written_def inTransaction_success on_table_def insert_row_def map_add_def
      split: prod.splits option.splits sum.splits if_splits)

lemma table_create_failure: "table_create tb now r apply db m = (Inl e, db', m') \<Longrightarrow> db' = db"
  by (auto simp: table_create_def written_def dest: inTransaction_failure split: prod.splits option.splits)

interpretation tables: versioned_table
  "table_step tb :: time \<times> tx_fault \<times> ('m \<Rightarrow> 'a option \<times> 'm) \<Rightarrow> managed_row \<Rightarrow> int \<Rightarrow> managed_db \<times> 'm \<Rightarrow> _"
  "table_row tb" for tb
proof
  fix env :: "time \<times> tx_fault \<times> ('m \<Rightarrow> 'a option \<times> 'm)" and r v and s s' :: "managed_db \<times> 'm"
  obtain now fault f where env: "env = (now, fault, f)" by (cases env)
  obtain db m where s: "s = (db, m)" by (cases s)
  obtain db' m' where s': "s' = (db', m')" by (cases s')
  let ?r = "table_update tb now r v f (db\<lparr>db_tx := fault\<rparr>) m"
  {
    assume "table_step tb env r v s = (True, s')"
    then obtain new where "?r = (Inr new, s')"
      by (cases ?r; cases "fst ?r") (auto simp: table_step_def env s)
    from table_update_success [OF this [unfolded s']] obtain old where
      "map_of (db_table db tb) (mgd_key r) = Some old" "mgd_version old = v" "new = updated_row now r v old"
      "db' = db\<lparr>db_tx := fault, db_table := (db_table db)(tb := alist_put (mgd_key r) new (db_table db tb))\<rparr>"
      by auto
    then have "table_row tb s (mgd_key r) = Some old \<and> mgd_version old = v \<and> mgd_version new = v + 1 \<and>
        mgd_definition new = mgd_definition r \<and> mgd_created_at new = mgd_created_at old \<and>
        table_row tb s' = (table_row tb s)(mgd_key r \<mapsto> new)"
      by (simp add: table_row_def s s' updated_row_def)
    then show "\<exists>old new. table_row tb s (mgd_key r) = Some old \<and> mgd_version old = v \<and> mgd_version new = v + 1 \<and>
        mgd_definition new = mgd_definition r \<and> mgd_created_at new = mgd_created_at old \<and>
        table_row tb s' = (table_row tb s)(mgd_key r \<mapsto> new)"
      by blast
  next
    assume "table_step tb env r v s = (False, s')"
    then obtain e where "?r = (Inl e, s')"
      by (cases ?r; cases "fst ?r") (auto simp: table_step_def env s)
    then show "table_row tb s' = table_row tb s"
      by (cases s') (auto simp: table_row_def s dest!: table_update_failure)
  }
qed

end
