(* ===== verification/ManagedRegistry.thy ===== *)
theory ManagedRegistry
  imports ManagedEndpoints ManagedStore
begin

text \<open>
  The runtime states of the managed endpoints (\<^verbatim>\<open>internal/managedendpoint/registry.go\<close>): an immutable snapshot
  by key that every change replaces, and the index of the endpoints that receive pushes, rebuilt with it.
  A snapshot is the list of the entries of the map in the order in which it is ranged over; the facts about
  the index hold for every order.
\<close>

record managed_state =
  ms_stored :: managed_endpoint
  ms_parsed :: parsed
  ms_conflict_origin :: string
  ms_error :: "managed_error option"
  ms_effective :: "string option"

type_synonym snapshot = "(string \<times> managed_state) list"

definition no_parsed :: parsed where
  "no_parsed = \<lparr>pa_endpoint = None, pa_option = None, pa_push = None\<rparr>"

definition state_InConflict :: "managed_state \<Rightarrow> bool" where
  "state_InConflict s \<longleftrightarrow> ms_conflict_origin s \<noteq> []"

definition newStateFromPrepared :: "managed_endpoint \<Rightarrow> prepared \<Rightarrow> string \<Rightarrow> managed_state" where
  "newStateFromPrepared stored pr effective =
     \<lparr>ms_stored = stored, ms_parsed = pr_parsed pr, ms_conflict_origin = [], ms_error = None,
      ms_effective = Some effective\<rparr>"

subsection \<open>The push index\<close>

record push_target =
  pt_key :: string
  pt_push :: "external_endpoint option"

record push_index =
  ix_by_key :: "string \<Rightarrow> push_target option"
  ix_by_token :: "string \<Rightarrow> string option"
  ix_tokens :: "string \<Rightarrow> string option"

definition empty_index :: push_index where
  "empty_index = \<lparr>ix_by_key = (\<lambda>_. None), ix_by_token = (\<lambda>_. None), ix_tokens = (\<lambda>_. None)\<rparr>"

text \<open>The body of the loop; it carries the ambiguous tokens.\<close>

definition index_step :: "string \<times> managed_state \<Rightarrow> push_index \<times> string list \<Rightarrow> push_index \<times> string list" where
  "index_step entry acc =
     (let (key, state) = entry; (ix, ambiguous) = acc; p = ms_parsed state
      in if \<not> parsed_IsEnabled p \<or> \<not> parsed_ReceivesPush p then acc
         else
           (let ix = ix\<lparr>ix_by_key := (ix_by_key ix)(key \<mapsto> \<lparr>pt_key = key, pt_push = pa_push p\<rparr>)\<rparr>;
                token = parsed_PushToken p
            in if token = [] then (ix, ambiguous)
               else
                 (let ix = ix\<lparr>ix_tokens := (ix_tokens ix)(key \<mapsto> token)\<rparr>
                  in if token \<in> set ambiguous then (ix, ambiguous)
                     else if ix_by_token ix token \<noteq> None
                     then (ix\<lparr>ix_by_token := (ix_by_token ix)(token := None)\<rparr>, token # ambiguous)
                     else (ix\<lparr>ix_by_token := (ix_by_token ix)(token \<mapsto> key)\<rparr>, ambiguous))))"

definition newPushIndex :: "snapshot \<Rightarrow> push_index" where
  "newPushIndex snapshot = fst (fold index_step snapshot (empty_index, []))"

subsection \<open>The registry\<close>

text \<open>\<open>states\<close>, \<open>pushTargets\<close>, \<open>configDefinitions\<close> and \<open>managedUnavailable\<close>; the pointers are nil at first.\<close>

record managed_registry =
  mg_states :: "snapshot option"
  mg_index :: "push_index option"
  mg_config_definitions :: "(string \<times> string) list"
  mg_unavailable :: bool

definition publish_states :: "snapshot \<Rightarrow> managed_registry \<Rightarrow> managed_registry" where
  "publish_states snapshot g = g\<lparr>mg_states := Some snapshot, mg_index := Some (newPushIndex snapshot)\<rparr>"

definition current_states :: "managed_registry \<Rightarrow> snapshot" where
  "current_states g = (case mg_states g of None \<Rightarrow> [] | Some s \<Rightarrow> s)"

definition managed_List :: "managed_registry \<Rightarrow> managed_state list" where
  "managed_List g = sort_key (mgd_key \<circ> ms_stored) (map snd (current_states g))"

definition managed_Get :: "string \<Rightarrow> managed_registry \<Rightarrow> managed_state option" where
  "managed_Get key g = map_of (current_states g) key"

definition EndpointByKey :: "string \<Rightarrow> managed_registry \<Rightarrow> endpoint option" where
  "EndpointByKey key g =
     (case managed_Get (to_lower key) g of None \<Rightarrow> None | Some s \<Rightarrow> pa_endpoint (ms_parsed s))"

definition managed_Keys :: "managed_registry \<Rightarrow> string list" where
  "managed_Keys g = map (mgd_key \<circ> ms_stored) (managed_List g)"

definition keysExcept :: "string list \<Rightarrow> string \<Rightarrow> string list" where
  "keysExcept keys excluded = filter (\<lambda>k. k \<noteq> excluded) keys"

definition PushTargetByKey :: "string \<Rightarrow> managed_registry \<Rightarrow> push_target option" where
  "PushTargetByKey key g = (case mg_index g of None \<Rightarrow> None | Some ix \<Rightarrow> ix_by_key ix key)"

text \<open>The code gives the target of the key even when there is none; every indexed token has its target.\<close>

definition PushTargetByToken :: "string \<Rightarrow> managed_registry \<Rightarrow> push_target option" where
  "PushTargetByToken token g =
     (case mg_index g of
        None \<Rightarrow> None
      | Some ix \<Rightarrow>
          (case ix_by_token ix token of
             None \<Rightarrow> None
           | Some key \<Rightarrow>
               Some (case ix_by_key ix key of None \<Rightarrow> \<lparr>pt_key = [], pt_push = None\<rparr> | Some t \<Rightarrow> t)))"

definition PushTokenOf :: "string \<Rightarrow> managed_registry \<Rightarrow> string" where
  "PushTokenOf key g =
     (case mg_index g of
        None \<Rightarrow> [] | Some ix \<Rightarrow> (case ix_tokens ix key of None \<Rightarrow> [] | Some t \<Rightarrow> t))"

definition replaceState :: "string \<Rightarrow> managed_state \<Rightarrow> managed_registry \<Rightarrow> managed_registry" where
  "replaceState oldKey state g =
     publish_states (alist_put (mgd_key (ms_stored state)) state (alist_del oldKey (current_states g))) g"

definition putState :: "managed_state \<Rightarrow> managed_registry \<Rightarrow> managed_registry" where
  "putState state = replaceState (mgd_key (ms_stored state)) state"

definition removeState :: "string \<Rightarrow> managed_registry \<Rightarrow> managed_registry" where
  "removeState key g = publish_states (alist_del key (current_states g)) g"

subsection \<open>Load\<close>

text \<open>
  \<open>prepareState\<close>: the state of a stored endpoint, without its triggered alerts. The context gives the
  configuration, the keys of the other managed endpoints and the allowed labels.
\<close>

definition prepareState :: "yaml_lib \<Rightarrow> prepare_context \<Rightarrow> managed_endpoint \<Rightarrow> managed_state" where
  "prepareState y ctx stored =
     (let failed = (\<lambda>e. \<lparr>ms_stored = stored, ms_parsed = no_parsed, ms_conflict_origin = [], ms_error = Some e,
                         ms_effective = None\<rparr>)
      in case ConfigKeyOrigin (px_config ctx) (mgd_key stored) of
           Some origin \<Rightarrow>
             \<lparr>ms_stored = stored, ms_parsed = no_parsed, ms_conflict_origin = origin, ms_error = None,
              ms_effective = None\<rparr>
         | None \<Rightarrow>
             (case Prepare y (mgd_definition stored) ctx of
                Inl e \<Rightarrow> failed e
              | Inr pr \<Rightarrow>
                  (if parsed_Key (pr_parsed pr) \<noteq> mgd_key stored
                   then failed (ErrInvalidDefinition (KeyMismatch (parsed_Key (pr_parsed pr))))
                   else (case effectiveDefinition y (pr_parsed pr) of
                           Inl e \<Rightarrow> failed e
                         | Inr effective \<Rightarrow> newStateFromPrepared stored pr effective))))"

text \<open>
  \<open>restoreTriggeredAlerts\<close>: the alerts of a push endpoint are shared with its conversion, its counters
  are copied when an alert was restored.
\<close>

definition restoreTriggeredAlerts ::
    "'st alert_store_ops \<Rightarrow> (string \<Rightarrow> string) \<Rightarrow> parsed \<Rightarrow> 'st \<Rightarrow> parsed \<times> 'st" where
  "restoreTriggeredAlerts ops sha p st =
     (case pa_push p of
        Some ee \<Rightarrow>
          (let (n, converted, st') = RestorePersistedTriggeredAlerts ops sha (ToEndpoint ee) st;
               ee = ee\<lparr>ee_alerts := ep_alerts converted\<rparr>;
               ee = (if n > 0 then ee\<lparr>ee_successes := NumberOfSuccessesInARow converted,
                                      ee_failures := NumberOfFailuresInARow converted\<rparr> else ee)
           in (p\<lparr>pa_push := Some ee\<rparr>, st'))
      | None \<Rightarrow>
          (case pa_endpoint p of
             None \<Rightarrow> (p, st)
           | Some ep \<Rightarrow>
               (let (_, ep', st') = RestorePersistedTriggeredAlerts ops sha ep st
                in (p\<lparr>pa_endpoint := Some ep'\<rparr>, st'))))"

definition newState ::
    "'st alert_store_ops \<Rightarrow> (string \<Rightarrow> string) \<Rightarrow> yaml_lib \<Rightarrow> prepare_context \<Rightarrow> managed_endpoint \<Rightarrow> 'st \<Rightarrow>
     managed_state \<times> 'st" where
  "newState ops sha y ctx stored st =
     (let s = prepareState y ctx stored
      in if ms_error s \<noteq> None \<or> state_InConflict s then (s, st)
         else (let (p, st') = restoreTriggeredAlerts ops sha (ms_parsed s) st in (s\<lparr>ms_parsed := p\<rparr>, st')))"

text \<open>
  The loop over the stored endpoints. The effective definitions of the endpoints of the file are those that
  can be encoded. \<open>listed\<close> is the answer of the storage: \<open>None\<close> without support for managed endpoints,
  \<open>Some None\<close> for an error.
\<close>

fun load_states ::
    "'st alert_store_ops \<Rightarrow> (string \<Rightarrow> string) \<Rightarrow> yaml_lib \<Rightarrow> prepare_context \<Rightarrow> string list \<Rightarrow>
     managed_endpoint list \<Rightarrow> snapshot \<Rightarrow> 'st \<Rightarrow> snapshot \<times> 'st" where
  "load_states ops sha y ctx keys [] loaded st = (loaded, st)"
| "load_states ops sha y ctx keys (m # ms) loaded st =
     (let (s, st') = newState ops sha y (ctx\<lparr>px_managed_keys := keysExcept keys (mgd_key m)\<rparr>) m st
      in load_states ops sha y ctx keys ms (alist_put (mgd_key m) s loaded) st')"

definition effective_definitions :: "yaml_lib \<Rightarrow> config \<Rightarrow> (string \<times> string) list" where
  "effective_definitions y c =
     fold (\<lambda>ep ds. case y_marshal_endpoint y ep of None \<Rightarrow> ds | Some s \<Rightarrow> alist_put (ep_Key ep) s ds)
       (cfg_endpoints c) []"

definition managed_Load ::
    "'st alert_store_ops \<Rightarrow> (string \<Rightarrow> string) \<Rightarrow> yaml_lib \<Rightarrow> prepare_context \<Rightarrow>
     managed_endpoint list option option \<Rightarrow> managed_registry \<Rightarrow> 'st \<Rightarrow>
     string list option \<times> managed_registry \<times> 'st" where
  "managed_Load ops sha y ctx listed g0 st =
     (let g = g0\<lparr>mg_config_definitions := effective_definitions y (px_config ctx)\<rparr>
      in case listed of
           None \<Rightarrow> (Some [], publish_states [] (g\<lparr>mg_unavailable := False\<rparr>), st)
         | Some None \<Rightarrow> (None, publish_states [] (g\<lparr>mg_unavailable := True\<rparr>), st)
         | Some (Some ms) \<Rightarrow>
             (let keys = map mgd_key ms;
                  ctx = ctx\<lparr>px_allowed_labels := GetUniqueExtraMetricLabels (px_config ctx),
                           px_push_tokens := (\<lambda>_. None), px_is_push_key_token := (\<lambda>_. False)\<rparr>;
                  (loaded, st') = load_states ops sha y ctx keys ms [] st
              in (Some keys, publish_states loaded (g\<lparr>mg_unavailable := False\<rparr>), st')))"

subsection \<open>Monitoring\<close>

definition startMonitoring :: "parsed \<Rightarrow> registry option \<Rightarrow> registry_error option \<times> registry option" where
  "startMonitoring p r =
     (if \<not> parsed_IsEnabled p then (None, r)
      else (case (case pa_push p of
                    Some ee \<Rightarrow> StartExternalEndpoint ee SourceAdmin r
                  | None \<Rightarrow> (case pa_endpoint p of
                       Some ep \<Rightarrow> StartEndpoint ep SourceAdmin r | None \<Rightarrow> Inl ErrMonitoringStopped)) of
              Inl e \<Rightarrow> (Some e, r)
            | Inr r' \<Rightarrow> (None, Some r')))"

definition StartMonitoring :: "managed_registry \<Rightarrow> registry option \<Rightarrow> registry option" where
  "StartMonitoring g r = fold (\<lambda>s r. snd (startMonitoring (ms_parsed s) r)) (managed_List g) r"

section \<open>Facts about the index\<close>

text \<open>The managed endpoints that receive pushes with a token, in the order of the snapshot.\<close>

definition receives :: "managed_state \<Rightarrow> bool" where
  "receives s \<longleftrightarrow> parsed_IsEnabled (ms_parsed s) \<and> parsed_ReceivesPush (ms_parsed s)"

definition token_users :: "snapshot \<Rightarrow> string \<Rightarrow> string list" where
  "token_users snap token =
     map fst (filter (\<lambda>(k, s). receives s \<and> parsed_PushToken (ms_parsed s) = token) snap)"

definition index_inv :: "snapshot \<Rightarrow> push_index \<times> string list \<Rightarrow> bool" where
  "index_inv snap acc \<longleftrightarrow>
     (\<forall>k. ix_by_key (fst acc) k =
        (case map_of snap k of
           Some s \<Rightarrow> (if receives s then Some \<lparr>pt_key = k, pt_push = pa_push (ms_parsed s)\<rparr> else None)
         | None \<Rightarrow> None)) \<and>
     (\<forall>k. ix_tokens (fst acc) k =
        (case map_of snap k of
           Some s \<Rightarrow> (if receives s \<and> parsed_PushToken (ms_parsed s) \<noteq> [] then Some (parsed_PushToken (ms_parsed s)) else None)
         | None \<Rightarrow> None)) \<and>
     (\<forall>t. t \<noteq> [] \<longrightarrow>
        ix_by_token (fst acc) t = (case token_users snap t of [k] \<Rightarrow> Some k | _ \<Rightarrow> None) \<and>
        (t \<in> set (snd acc) \<longleftrightarrow> length (token_users snap t) \<ge> 2)) \<and>
     ix_by_token (fst acc) [] = None"

lemma token_users_snoc:
  "token_users (snap @ [(k, s)]) t =
     token_users snap t @ (if receives s \<and> parsed_PushToken (ms_parsed s) = t then [k] else [])"
  by (simp add: token_users_def)

lemma single_case: "(case xs of [k] \<Rightarrow> Some k | _ \<Rightarrow> None) = (if length xs = 1 then Some (hd xs) else None)"
  by (cases xs; cases "tl xs") auto

lemma map_of_snoc: "k \<notin> fst ` set r \<Longrightarrow> map_of (r @ [(k, v)]) = (map_of r)(k \<mapsto> v)"
  by (induction r) (auto simp: fun_upd_twist simp del: map_of_append)

declare map_of_append [simp del]

lemma index_inv_skip:
  assumes inv: "index_inv snap acc" and fresh: "k \<notin> fst ` set snap" and "\<not> receives s"
  shows "index_inv (snap @ [(k, s)]) acc"
proof -
  have lookup: "map_of (snap @ [(k, s)]) = (map_of snap)(k \<mapsto> s)"
    using fresh by (rule map_of_snoc)
  have "map_of snap k = None" using fresh by (simp add: map_of_eq_None_iff)
  then show ?thesis
    using inv assms(3) by (auto simp: index_inv_def token_users_snoc lookup)
qed

lemma index_step_inv:
  assumes inv: "index_inv snap acc" and fresh: "k \<notin> fst ` set snap"
  shows "index_inv (snap @ [(k, s)]) (index_step (k, s) acc)"
proof (cases "receives s")
  case False
  then have "index_step (k, s) acc = acc"
    by (cases acc) (auto simp: index_step_def receives_def Let_def)
  then show ?thesis using index_inv_skip [OF inv fresh False] by simp
next
  case True
  obtain ix amb where acc: "acc = (ix, amb)" by (cases acc)
  define token where "token = parsed_PushToken (ms_parsed s)"
  define ix1 where "ix1 = ix\<lparr>ix_by_key := (ix_by_key ix)(k \<mapsto> \<lparr>pt_key = k, pt_push = pa_push (ms_parsed s)\<rparr>)\<rparr>"
  have step: "index_step (k, s) acc =
    (if token = [] then (ix1, amb)
     else (let ix = ix1\<lparr>ix_tokens := (ix_tokens ix1)(k \<mapsto> token)\<rparr>
           in if token \<in> set amb then (ix, amb)
              else if ix_by_token ix token \<noteq> None
              then (ix\<lparr>ix_by_token := (ix_by_token ix)(token := None)\<rparr>, token # amb)
              else (ix\<lparr>ix_by_token := (ix_by_token ix)(token \<mapsto> k)\<rparr>, amb)))"
    using True by (simp add: index_step_def acc receives_def Let_def token_def ix1_def)
  have none: "map_of snap k = None" using fresh by (simp add: map_of_eq_None_iff)
  have users: "token_users (snap @ [(k, s)]) t = token_users snap t @ (if t = token then [k] else [])" for t
    using True by (auto simp: token_users_snoc token_def)
  have old: "\<And>k. ix_by_key ix k = (case map_of snap k of
           Some s \<Rightarrow> (if receives s then Some \<lparr>pt_key = k, pt_push = pa_push (ms_parsed s)\<rparr> else None) | None \<Rightarrow> None)"
    "\<And>k. ix_tokens ix k = (case map_of snap k of
           Some s \<Rightarrow> (if receives s \<and> parsed_PushToken (ms_parsed s) \<noteq> [] then Some (parsed_PushToken (ms_parsed s)) else None)
         | None \<Rightarrow> None)"
    "\<And>t. t \<noteq> [] \<Longrightarrow> ix_by_token ix t = (if length (token_users snap t) = 1 then Some (hd (token_users snap t)) else None)"
    "\<And>t. t \<noteq> [] \<Longrightarrow> t \<in> set amb \<longleftrightarrow> length (token_users snap t) \<ge> 2"
    "ix_by_token ix [] = None"
    using inv by (auto simp: index_inv_def acc single_case)
  have by_key: "ix_by_key (fst (index_step (k, s) acc)) = (ix_by_key ix)(k \<mapsto> \<lparr>pt_key = k, pt_push = pa_push (ms_parsed s)\<rparr>)"
    by (simp add: step ix1_def Let_def)
  have tokens: "ix_tokens (fst (index_step (k, s) acc)) = (if token = [] then ix_tokens ix else (ix_tokens ix)(k \<mapsto> token))"
    by (simp add: step ix1_def Let_def)
  have length_cases: "length (token_users snap token) \<ge> 2 \<or> length (token_users snap token) = 1 \<or> token_users snap token = []"
    by (cases "token_users snap token"; cases "tl (token_users snap token)") auto
  have by_token: "ix_by_token (fst (index_step (k, s) acc)) t =
      (if length (token_users (snap @ [(k, s)]) t) = 1 then Some (hd (token_users (snap @ [(k, s)]) t)) else None) \<and>
      (t \<in> set (snd (index_step (k, s) acc)) \<longleftrightarrow> length (token_users (snap @ [(k, s)]) t) \<ge> 2)" if t: "t \<noteq> []" for t
  proof (cases "t = token")
    case False
    then show ?thesis using old(3,4) [OF t] by (auto simp: step ix1_def Let_def users)
  next
    case True
    then have ne: "token \<noteq> []" using t by simp
    note o = old(3,4) [OF ne]
    show ?thesis
      using length_cases
    proof (elim disjE)
      assume l: "length (token_users snap token) \<ge> 2"
      then have "token \<in> set amb" "ix_by_token ix token = None" "token_users snap token \<noteq> []" using o by auto
      with l show ?thesis by (simp add: step ne ix1_def Let_def users True)
    next
      assume l: "length (token_users snap token) = 1"
      then have "token \<notin> set amb" "ix_by_token ix token \<noteq> None" using o by auto
      with l show ?thesis by (simp add: step ne ix1_def Let_def users True)
    next
      assume l: "token_users snap token = []"
      then have "token \<notin> set amb" "ix_by_token ix token = None" using o by auto
      with l show ?thesis by (simp add: step ne ix1_def Let_def users True)
    qed
  qed
  have empty: "ix_by_token (fst (index_step (k, s) acc)) [] = None"
    using old(5) by (simp add: step ix1_def Let_def)
  have lookup: "map_of (snap @ [(k, s)]) = (map_of snap)(k \<mapsto> s)"
    using fresh by (rule map_of_snoc)
  show ?thesis
    unfolding index_inv_def single_case
    using by_token empty True old(1,2) none by (auto simp: by_key tokens lookup token_def [symmetric])
qed

lemma newPushIndex_inv: "distinct (map fst snap) \<Longrightarrow> index_inv snap (fold index_step snap (empty_index, []))"
proof (induction snap rule: rev_induct)
  case Nil
  show ?case by (simp add: index_inv_def empty_index_def token_users_def)
next
  case (snoc e snap)
  obtain k s where e: "e = (k, s)" by (cases e)
  show ?case using index_step_inv [OF snoc.IH, of k s] snoc.prems by (auto simp: e)
qed

text \<open>
  What the index answers, whatever the order in which the snapshot was ranged over: a token leads to an
  endpoint exactly when that endpoint is its only user.
\<close>

lemma index_by_token:
  assumes "distinct (map fst snap)"
  shows "ix_by_token (newPushIndex snap) t = Some k \<longleftrightarrow> t \<noteq> [] \<and> token_users snap t = [k]"
proof (cases "t = []")
  case True
  then show ?thesis using newPushIndex_inv [OF assms] by (simp add: newPushIndex_def index_inv_def)
next
  case False
  then have "ix_by_token (newPushIndex snap) t = (case token_users snap t of [k] \<Rightarrow> Some k | _ \<Rightarrow> None)"
    using newPushIndex_inv [OF assms] by (simp add: newPushIndex_def index_inv_def)
  with False show ?thesis by (auto split: list.splits)
qed

lemma index_by_key:
  assumes "distinct (map fst snap)"
  shows "ix_by_key (newPushIndex snap) k =
    (case map_of snap k of
       Some s \<Rightarrow> (if receives s then Some \<lparr>pt_key = k, pt_push = pa_push (ms_parsed s)\<rparr> else None) | None \<Rightarrow> None)"
  using newPushIndex_inv [OF assms] by (simp add: newPushIndex_def index_inv_def)

lemma index_tokens:
  assumes "distinct (map fst snap)"
  shows "ix_tokens (newPushIndex snap) k =
    (case map_of snap k of
       Some s \<Rightarrow> (if receives s \<and> parsed_PushToken (ms_parsed s) \<noteq> [] then Some (parsed_PushToken (ms_parsed s)) else None)
     | None \<Rightarrow> None)"
  using newPushIndex_inv [OF assms] by (simp add: newPushIndex_def index_inv_def)

lemma token_users_member:
  "distinct (map fst snap) \<Longrightarrow> k \<in> set (token_users snap t) \<longleftrightarrow>
     (\<exists>s. map_of snap k = Some s \<and> receives s \<and> parsed_PushToken (ms_parsed s) = t)"
  by (force simp: token_users_def)

lemma distinct_token_users: "distinct (map fst snap) \<Longrightarrow> distinct (token_users snap t)"
  by (simp add: token_users_def distinct_map_filter)

lemma index_order_irrelevant:
  assumes "distinct (map fst snap)" and "distinct (map fst snap')" and "map_of snap = map_of snap'"
  shows "newPushIndex snap = newPushIndex snap'"
proof -
  have users: "set (token_users snap t) = set (token_users snap' t)" for t
    using assms by (auto simp: token_users_member)
  have single: "token_users snap t = [k] \<longleftrightarrow> token_users snap' t = [k]" for t k
  proof -
    have len: "length (token_users snap t) = length (token_users snap' t)"
      using users [of t] distinct_token_users [OF assms(1), of t] distinct_token_users [OF assms(2), of t]
      by (metis distinct_card)
    show ?thesis
      using users [of t] len
      by (cases "token_users snap t"; cases "token_users snap' t") auto
  qed
  have "ix_by_token (newPushIndex snap) t = ix_by_token (newPushIndex snap') t" for t
    using index_by_token [OF assms(1), of t] index_by_token [OF assms(2), of t] single [of t]
    by (metis not_None_eq)
  moreover have "ix_by_key (newPushIndex snap) = ix_by_key (newPushIndex snap')"
    "ix_tokens (newPushIndex snap) = ix_tokens (newPushIndex snap')"
    by (simp_all add: fun_eq_iff index_by_key index_tokens assms)
  ultimately show ?thesis by (simp add: fun_eq_iff)
qed

end
