(* ===== verification/ManagedViews.thy ===== *)
theory ManagedViews
  imports ManagedRegistry Conditions
begin

text \<open>
  What the administration shows of the endpoints (\<^verbatim>\<open>internal/managedendpoint/service.go\<close>): the items of the list,
  the details with the masked definitions, and the errors of the service.
\<close>

datatype service_error =
    ErrNotFound
  | ErrReadOnly
  | ErrCycleInProgress
  | ErrTooManyTests
  | ErrStorageNotSupported
  | ErrApplyFailed registry_error
  | ErrPushNotTestable
  | ErrTypeChanged
  | ErrMaskedSecret
  | ErrPushWithoutToken
  | RandomnessFailed
  | RefusedDefinition managed_error
  | StorageRefused managed_store_error
  | RenameRefused

text \<open>\<open>FromDocument\<close>: the encoder of the YAML package.\<close>

definition FromDocument :: "yaml_lib \<Rightarrow> document \<Rightarrow> service_error + string" where
  "FromDocument y d = (case y_marshal y d of None \<Rightarrow> Inl (RefusedDefinition MarshalError) | Some s \<Rightarrow> Inr s)"

definition to_document :: "yaml_lib \<Rightarrow> string \<Rightarrow> service_error + document" where
  "to_document y s = (case ToDocument y s of Inl e \<Rightarrow> Inl (RefusedDefinition e) | Inr d \<Rightarrow> Inr d)"

record definition_view =
  dv_yaml :: string
  dv_json :: document

definition maskedDefinition :: "yaml_lib \<Rightarrow> url_lib \<Rightarrow> string \<Rightarrow> service_error + definition_view" where
  "maskedDefinition y lib definition =
     (case to_document y definition of
        Inl e \<Rightarrow> Inl e
      | Inr d \<Rightarrow>
          (let masked = MaskSecrets lib d
           in case FromDocument y masked of
                Inl e \<Rightarrow> Inl e
              | Inr s \<Rightarrow> Inr \<lparr>dv_yaml = s, dv_json = masked\<rparr>))"

subsection \<open>Items\<close>

record item =
  it_key :: string
  it_name :: string
  it_group :: string
  it_type :: string
  it_url :: string
  it_interval :: string
  it_enabled :: bool
  it_source :: source
  it_conflict :: bool
  it_conflict_origin :: string
  it_error :: "managed_error option"
  it_accepts_push :: bool
  it_version :: int
  it_times :: "(time \<times> time) option"
  it_updated_by :: string

definition empty_item :: item where
  "empty_item =
     \<lparr>it_key = [], it_name = [], it_group = [], it_type = [], it_url = [], it_interval = [], it_enabled = False,
      it_source = SourceConfig, it_conflict = False, it_conflict_origin = [], it_error = None,
      it_accepts_push = False, it_version = 0, it_times = None, it_updated_by = []\<rparr>"

definition ItemTypePush :: string where "ItemTypePush = ''PUSH''"

definition type_text :: "endpoint_type \<Rightarrow> string" where
  "type_text t =
     (case t of
        TypeDNS \<Rightarrow> ''DNS'' | TypeTCP \<Rightarrow> ''TCP'' | TypeSCTP \<Rightarrow> ''SCTP'' | TypeUDP \<Rightarrow> ''UDP'' | TypeICMP \<Rightarrow> ''ICMP''
      | TypeSTARTTLS \<Rightarrow> ''STARTTLS'' | TypeTLS \<Rightarrow> ''TLS'' | TypeHTTP \<Rightarrow> ''HTTP'' | TypeGRPC \<Rightarrow> ''GRPC''
      | TypeWS \<Rightarrow> ''WEBSOCKET'' | TypeSSH \<Rightarrow> ''SSH'' | TypeUNKNOWN \<Rightarrow> ''UNKNOWN'')"

definition interval_text :: "duration \<Rightarrow> string" where
  "interval_text d = (if d > 0 then duration_string d else [])"

definition configItem :: "url_lib \<Rightarrow> config \<Rightarrow> endpoint \<Rightarrow> item" where
  "configItem lib c ep =
     empty_item\<lparr>it_key := ep_Key ep, it_name := ep_name ep, it_group := ep_group ep, it_type := type_text (ep_Type ep),
       it_url := maskURL lib (ep_url ep), it_enabled := ep_IsEnabled ep, it_interval := interval_text (ep_interval ep),
       it_accepts_push :=
         (case cfg_push c of None \<Rightarrow> False | Some p \<Rightarrow> list_ex (\<lambda>e. pe_key e = ep_Key ep) (pc_endpoints p))\<rparr>"

definition configExternalItem :: "external_endpoint \<Rightarrow> item" where
  "configExternalItem ee =
     empty_item\<lparr>it_key := ee_Key ee, it_name := ee_name ee, it_group := ee_group ee, it_type := ItemTypePush,
       it_enabled := ee_IsEnabled ee, it_accepts_push := True,
       it_interval := interval_text (hb_interval (ee_heartbeat ee))\<rparr>"

text \<open>What a state is described from: its endpoint or, in conflict or invalid, its definition as far as it parses.\<close>

definition described :: "yaml_lib \<Rightarrow> managed_state \<Rightarrow> parsed" where
  "described y s =
     (if parsed_IsValid (ms_parsed s) then ms_parsed s
      else case ParseDefinition y (mgd_definition (ms_stored s)) of Inl _ \<Rightarrow> ms_parsed s | Inr p \<Rightarrow> p)"

definition describe_item :: "url_lib \<Rightarrow> parsed \<Rightarrow> item \<Rightarrow> item" where
  "describe_item lib p it =
     parsed_select
       (\<lambda>ee. it\<lparr>it_name := ee_name ee, it_group := ee_group ee, it_type := ItemTypePush,
               it_enabled := ee_IsEnabled ee, it_accepts_push := True,
               it_interval := interval_text (hb_interval (ee_heartbeat ee))\<rparr>)
       (\<lambda>ep. it\<lparr>it_name := ep_name ep, it_group := ep_group ep, it_url := maskURL lib (ep_url ep),
               it_enabled := ep_IsEnabled ep, it_accepts_push := parsed_ReceivesPush p,
               it_type := (if ep_url ep \<noteq> [] then type_text (ep_Type ep) else []),
               it_interval := interval_text (ep_interval ep)\<rparr>)
       it p"

definition adminItem :: "yaml_lib \<Rightarrow> url_lib \<Rightarrow> managed_state \<Rightarrow> item" where
  "adminItem y lib s =
     (let row = ms_stored s;
          it = describe_item lib (described y s)
            (empty_item\<lparr>it_key := mgd_key row, it_source := SourceAdmin, it_version := mgd_version row,
               it_updated_by := mgd_updated_by row, it_times := Some (mgd_created_at row, mgd_updated_at row)\<rparr>)
      in if state_InConflict s
         then it\<lparr>it_conflict := True, it_conflict_origin := ms_conflict_origin s, it_enabled := False\<rparr>
         else if ms_error s \<noteq> None then it\<lparr>it_error := ms_error s, it_enabled := False\<rparr>
         else it)"

subsection \<open>Details\<close>

record detail =
  dt_item :: item
  dt_definition :: definition_view
  dt_effective :: "definition_view option"
  dt_affected_pages :: "(string \<times> string) list"
  dt_push_token :: string

definition adminDetail :: "yaml_lib \<Rightarrow> url_lib \<Rightarrow> managed_state \<Rightarrow> service_error + detail" where
  "adminDetail y lib s =
     (case maskedDefinition y lib (mgd_definition (ms_stored s)) of
        Inl e \<Rightarrow> Inl e
      | Inr view \<Rightarrow>
          (let done = (\<lambda>effective. Inr \<lparr>dt_item = adminItem y lib s, dt_definition = view, dt_effective = effective,
                                       dt_affected_pages = [], dt_push_token = parsed_PushToken (described y s)\<rparr>)
           in case ms_effective s of
                None \<Rightarrow> done None
              | Some effective \<Rightarrow>
                  (case maskedDefinition y lib effective of Inl e \<Rightarrow> Inl e | Inr v \<Rightarrow> done (Some v))))"

definition service_List :: "yaml_lib \<Rightarrow> url_lib \<Rightarrow> config \<Rightarrow> managed_registry \<Rightarrow> item list" where
  "service_List y lib c g =
     sort_key it_key
       (map (configItem lib c) (cfg_endpoints c) @ map configExternalItem (cfg_external_endpoints c) @
        map (adminItem y lib) (managed_List g))"

text \<open>\<open>configDefinition\<close>: the effective definition of an endpoint of the configuration file.\<close>

definition configDefinition :: "string \<Rightarrow> managed_registry \<Rightarrow> string option" where
  "configDefinition key g = map_of (mg_config_definitions g) key"

definition config_detail :: "yaml_lib \<Rightarrow> url_lib \<Rightarrow> item \<Rightarrow> string \<Rightarrow> service_error + detail" where
  "config_detail y lib it definition =
     (case maskedDefinition y lib definition of
        Inl e \<Rightarrow> Inl e
      | Inr v \<Rightarrow> Inr \<lparr>dt_item = it, dt_definition = v, dt_effective = Some v, dt_affected_pages = [],
                      dt_push_token = []\<rparr>)"

definition service_Get :: "yaml_lib \<Rightarrow> url_lib \<Rightarrow> config \<Rightarrow> string \<Rightarrow> managed_registry \<Rightarrow> service_error + detail" where
  "service_Get y lib c key g =
     (case managed_Get key g of
        Some s \<Rightarrow> adminDetail y lib s
      | None \<Rightarrow>
          (case GetEndpointByKey c key of
             Some ep \<Rightarrow>
               config_detail y lib (configItem lib c ep)
                 (case configDefinition (ep_Key ep) g of None \<Rightarrow> ''{}'' | Some s \<Rightarrow> s)
           | None \<Rightarrow>
               (case GetExternalEndpointByKey c key of
                  Some ee \<Rightarrow>
                    (case y_marshal_external y ee of
                       None \<Rightarrow> Inl (RefusedDefinition MarshalError)
                     | Some s \<Rightarrow> config_detail y lib (configExternalItem ee) s)
                | None \<Rightarrow> Inl ErrNotFound)))"

end
