(* ===== verification/ManagedService.thy ===== *)
theory ManagedService
  imports ManagedViews PushMonitor
begin

text \<open>
  The changes of the managed endpoints (\<^verbatim>\<open>internal/managedendpoint/service.go\<close>, \<^verbatim>\<open>restore.go\<close>, \<^verbatim>\<open>rename.go\<close>):
  create, update, enable, disable and delete, with the monitoring that is stopped and started, the rows that are
  written in a transaction, the snapshot that is published and the participant of renames.

  A change holds the lock of the states and a lifecycle change, so that it is one step on the \<open>service_state\<close>.
  The endpoint of a state and the monitored one are the same object in the code: \<open>live_parsed\<close> reads it from the
  entry of the monitoring. The storage is the SQL store, whose state is the store of the \<open>monitor_state\<close>.
\<close>

subsection \<open>Environment and state\<close>

text \<open>
  \<open>KeyRenamePlan\<close> and \<open>KeyRenameParticipant\<close>, with the state of the participant: \<open>kp_commit\<close> gets the pages with
  the versions and times that the transaction gave them.
\<close>

record rename_plan =
  kn_pages :: "(managed_row \<times> int) list"
  kn_affected :: "(string \<times> string) list"

record 'p rename_participant =
  kp_prepare :: "string \<Rightarrow> string \<Rightarrow> string \<Rightarrow> 'p \<Rightarrow> service_error + rename_plan \<times> 'p"
  kp_commit :: "managed_row list \<Rightarrow> 'p \<Rightarrow> 'p"
  kp_discard :: "'p \<Rightarrow> 'p"

text \<open>
  \<open>se_context\<close> has the configuration, the alerting and the registered labels; its keys and tokens are set by
  \<open>service_prepare\<close>. \<open>se_cycle\<close>: a start or reload is in progress; \<open>se_supported\<close>: the storage has managed
  endpoints; \<open>se_now\<close> is the time of the transaction, in milliseconds; \<open>se_random\<close> is the source of tokens.
\<close>

record 'p service_env =
  se_yaml :: yaml_lib
  se_url :: url_lib
  se_context :: prepare_context
  se_sha :: "string \<Rightarrow> string"
  se_cycle :: bool
  se_supported :: bool
  se_now :: time
  se_random :: "nat \<Rightarrow> nat option"
  se_participant :: "'p rename_participant option"

record 'p service_state =
  sv_states :: managed_registry
  sv_monitor :: "managed_db monitor_state"
  sv_pages :: 'p
  sv_deleted_metrics :: "string list"
  sv_forgotten :: "string list"

text \<open>The alert operations of the SQL store on the whole database.\<close>

definition db_ops :: "(string \<Rightarrow> string) \<Rightarrow> managed_db alert_store_ops" where
  "db_ops sha =
     \<lparr>GetTriggeredEndpointAlert = (\<lambda>db. sql_GetTriggered sha (db_sql db)),
      UpsertTriggeredEndpointAlert = (\<lambda>db ep a.
        (let (e, s) = sql_UpsertTriggered sha (db_sql db) ep a in (e, db\<lparr>db_sql := s\<rparr>))),
      DeleteTriggeredEndpointAlert = (\<lambda>db ep a.
        (let (e, s) = sql_DeleteTriggered sha (db_sql db) ep a in (e, db\<lparr>db_sql := s\<rparr>))),
      DeleteAllTriggeredAlertsNotInChecksumsByEndpoint = (\<lambda>db ep cs.
        (let (n, s) = sql_DeleteNotInChecksums (db_sql db) ep cs in (n, db\<lparr>db_sql := s\<rparr>)))\<rparr>"

subsection \<open>Preparation of a definition\<close>

definition managedState :: "'p service_env \<Rightarrow> string \<Rightarrow> managed_registry \<Rightarrow> service_error + managed_state" where
  "managedState se key g =
     (case managed_Get key g of
        Some s \<Rightarrow> Inr s
      | None \<Rightarrow>
          (if ConfigKeyOrigin (px_config (se_context se)) key \<noteq> None then Inl ErrReadOnly else Inl ErrNotFound))"

text \<open>\<open>pushTokens\<close>: the later entries of the code's map replace the earlier ones.\<close>

definition external_token :: "config \<Rightarrow> string \<Rightarrow> bool" where
  "external_token c t \<longleftrightarrow> t \<noteq> [] \<and> list_ex (\<lambda>ee. ee_token ee = t) (cfg_external_endpoints c)"

definition managed_token :: "managed_registry \<Rightarrow> string \<Rightarrow> string \<Rightarrow> bool" where
  "managed_token g excludedKey t \<longleftrightarrow>
     t \<noteq> [] \<and>
     list_ex (\<lambda>s. mgd_key (ms_stored s) \<noteq> excludedKey \<and> parsed_PushToken (ms_parsed s) = t) (managed_List g)"

definition service_pushTokens :: "config \<Rightarrow> managed_registry \<Rightarrow> string \<Rightarrow> string \<Rightarrow> string option" where
  "service_pushTokens c g excludedKey t =
     (if managed_token g excludedKey t then Some ''another managed endpoint''
      else if (case cfg_push c of None \<Rightarrow> False | Some p \<Rightarrow> t \<in> set (push_Tokens p))
      then Some ''the push configuration of the configuration file''
      else if external_token c t then Some ''an external endpoint of the configuration file''
      else None)"

text \<open>The masked secrets are restored from the stored definition of the key, if it has one.\<close>

definition restore_submission ::
    "yaml_lib \<Rightarrow> url_lib \<Rightarrow> managed_registry \<Rightarrow> string \<Rightarrow> string \<Rightarrow> service_error + string" where
  "restore_submission y lib g raw key =
     (if key = [] then Inr raw
      else case managed_Get key g of
             None \<Rightarrow> Inr raw
           | Some s \<Rightarrow>
               (case ParseDefinition y raw of
                  Inl e \<Rightarrow> Inl (RefusedDefinition e)
                | Inr _ \<Rightarrow>
                    (case to_document y raw of
                       Inl e \<Rightarrow> Inl e
                     | Inr submitted \<Rightarrow>
                         (case to_document y (mgd_definition (ms_stored s)) of
                            Inl e \<Rightarrow> Inl e
                          | Inr stored \<Rightarrow> FromDocument y (RestoreMaskedSecrets lib submitted stored)))))"

definition service_prepare :: "'p service_env \<Rightarrow> managed_registry \<Rightarrow> string \<Rightarrow> string \<Rightarrow> service_error + prepared" where
  "service_prepare se g raw key =
     (let ctx = se_context se;
          managedKeys = (if key = [] then managed_Keys g else keysExcept (managed_Keys g) key)
      in case restore_submission (se_yaml se) (se_url se) g raw key of
           Inl e \<Rightarrow> Inl e
         | Inr restored \<Rightarrow>
             (case Prepare (se_yaml se) restored
                     (ctx\<lparr>px_managed_keys := managedKeys,
                          px_push_tokens := service_pushTokens (px_config ctx) g key\<rparr>) of
                Inl e \<Rightarrow> Inl (RefusedDefinition e)
              | Inr pr \<Rightarrow> Inr pr))"

text \<open>\<open>Validate\<close>: the masked definition and the masked effective one.\<close>

definition service_Validate ::
    "'p service_env \<Rightarrow> managed_registry \<Rightarrow> string \<Rightarrow> string \<Rightarrow> service_error + definition_view \<times> definition_view" where
  "service_Validate se g raw key =
     (case service_prepare se g raw key of
        Inl e \<Rightarrow> Inl e
      | Inr pr \<Rightarrow>
          (case maskedDefinition (se_yaml se) (se_url se) (pr_definition pr) of
             Inl e \<Rightarrow> Inl e
           | Inr view \<Rightarrow>
               (case effectiveDefinition (se_yaml se) (pr_parsed pr) of
                  Inl e \<Rightarrow> Inl (RefusedDefinition e)
                | Inr effective \<Rightarrow>
                    (case maskedDefinition (se_yaml se) (se_url se) effective of
                       Inl e \<Rightarrow> Inl e
                     | Inr v \<Rightarrow> Inr (view, v)))))"

definition service_ParseDefinition :: "yaml_lib \<Rightarrow> string \<Rightarrow> service_error + document" where
  "service_ParseDefinition y raw =
     (case ParseDefinition y raw of Inl e \<Rightarrow> Inl (RefusedDefinition e) | Inr _ \<Rightarrow> to_document y raw)"

definition withGeneratedPushToken ::
    "yaml_lib \<Rightarrow> (nat \<Rightarrow> nat option) \<Rightarrow> string \<Rightarrow> service_error + string" where
  "withGeneratedPushToken y rand definition =
     (case ParseDefinition y definition of
        Inl e \<Rightarrow> Inl (RefusedDefinition e)
      | Inr p \<Rightarrow>
          (case pa_push p of
             None \<Rightarrow> Inr definition
           | Some ee \<Rightarrow>
               (if ee_token ee \<noteq> [] then Inr definition
                else case to_document y definition of
                  Inl e \<Rightarrow> Inl e
                | Inr d \<Rightarrow>
                    (case GenerateToken rand of
                       None \<Rightarrow> Inl RandomnessFailed
                     | Some token \<Rightarrow> FromDocument y (alist_put ''token'' (VStr token) d)))))"

subsection \<open>Monitoring\<close>

text \<open>The object of a state as the monitoring has it, when the monitoring was started for the administration.\<close>

definition live_parsed :: "string \<Rightarrow> parsed \<Rightarrow> registry option \<Rightarrow> parsed" where
  "live_parsed key p reg =
     (case Option.bind reg (\<lambda>r. Option.bind (reg_entries r key) (reg_heap r)) of
        Some m \<Rightarrow>
          (if me_source m \<noteq> SourceAdmin then p else case me_object m of
             MonitoredEndpoint ep \<Rightarrow> (if pa_push p = None \<and> pa_endpoint p \<noteq> None then p\<lparr>pa_endpoint := Some ep\<rparr> else p)
           | MonitoredExternal ee \<Rightarrow> (if pa_push p \<noteq> None then p\<lparr>pa_push := Some ee\<rparr> else p))
      | None \<Rightarrow> p)"

text \<open>The stop before a change; an endpoint that is no longer monitored is no error.\<close>

definition stop_previous :: "bool \<Rightarrow> string \<Rightarrow> registry option \<Rightarrow> service_error + registry option" where
  "stop_previous wasMonitored key reg =
     (if \<not> wasMonitored then Inr reg
      else case StopEndpoint key SourceAdmin reg of
             Inl e \<Rightarrow> (if e = ErrEndpointNotMonitored then Inr reg else Inl (ErrApplyFailed e))
           | Inr (_, r) \<Rightarrow> Inr (Some r))"

text \<open>The stop whose error is ignored, and the restart of the previous object.\<close>

definition try_stop :: "string \<Rightarrow> registry option \<Rightarrow> registry option" where
  "try_stop key reg = (case StopEndpoint key SourceAdmin reg of Inl _ \<Rightarrow> reg | Inr (_, r) \<Rightarrow> Some r)"

definition restart_previous :: "bool \<Rightarrow> parsed \<Rightarrow> registry option \<Rightarrow> registry option" where
  "restart_previous wasMonitored previous reg =
     (if wasMonitored then snd (startMonitoring previous reg) else reg)"

text \<open>The function applied in the transaction: it also notes whether the endpoint was started.\<close>

definition apply_start ::
    "parsed \<Rightarrow> registry option \<times> bool \<Rightarrow> registry_error option \<times> registry option \<times> bool" where
  "apply_start p m =
     (case startMonitoring p (fst m) of
        (Some e, reg) \<Rightarrow> (Some e, reg, snd m)
      | (None, reg) \<Rightarrow> (None, reg, parsed_IsEnabled p))"

definition change_error :: "registry_error tx_error \<Rightarrow> service_error" where
  "change_error e = (case e of StoreFailure s \<Rightarrow> StorageRefused s | ApplyFailure r \<Rightarrow> ErrApplyFailed r)"

text \<open>\<open>restorePersistedTriggeredAlertsOfKey\<close>: the alerts are shared with the endpoint that is looked up.\<close>

definition set_alerts :: "alert list \<Rightarrow> parsed \<Rightarrow> parsed" where
  "set_alerts as p =
     (case pa_push p of
        Some ee \<Rightarrow> p\<lparr>pa_push := Some (ee\<lparr>ee_alerts := as\<rparr>)\<rparr>
      | None \<Rightarrow> p\<lparr>pa_endpoint := map_option (ep_alerts_update (\<lambda>_. as)) (pa_endpoint p)\<rparr>)"

definition setCounters :: "int \<Rightarrow> int \<Rightarrow> parsed \<Rightarrow> parsed" where
  "setCounters successes failures p =
     (case pa_push p of
        Some ee \<Rightarrow> p\<lparr>pa_push := Some (ee\<lparr>ee_successes := successes, ee_failures := failures\<rparr>)\<rparr>
      | None \<Rightarrow>
          p\<lparr>pa_endpoint := map_option (\<lambda>ep. ep\<lparr>NumberOfSuccessesInARow := successes, NumberOfFailuresInARow := failures\<rparr>)
              (pa_endpoint p)\<rparr>)"

definition restorePersistedTriggeredAlertsOfKey ::
    "'st alert_store_ops \<Rightarrow> (string \<Rightarrow> string) \<Rightarrow> parsed \<Rightarrow> string \<Rightarrow> string \<Rightarrow> 'st \<Rightarrow> parsed \<times> 'st" where
  "restorePersistedTriggeredAlertsOfKey ops sha p name grp st =
     (let lookup = empty_endpoint\<lparr>ep_name := name, ep_group := grp, ep_alerts := parsed_alerts p\<rparr>;
          (n, found, st') = RestorePersistedTriggeredAlerts ops sha lookup st;
          p = set_alerts (ep_alerts found) p
      in (if n > 0 then setCounters (NumberOfSuccessesInARow found) (NumberOfFailuresInARow found) p else p, st'))"

subsection \<open>Create\<close>

definition service_create ::
    "'p service_env \<Rightarrow> string \<Rightarrow> string \<Rightarrow> bool \<Rightarrow> 'p service_state \<Rightarrow> (service_error + detail) \<times> 'p service_state" where
  "service_create se raw0 author generateToken sv =
     (let y = se_yaml se; g = sv_states sv; mon = sv_monitor sv
      in if se_cycle se then (Inl ErrCycleInProgress, sv)
         else if \<not> se_supported se then (Inl ErrStorageNotSupported, sv)
         else case (if generateToken then withGeneratedPushToken y (se_random se) raw0 else Inr raw0) of
           Inl e \<Rightarrow> (Inl e, sv)
         | Inr raw \<Rightarrow>
             (case service_prepare se g raw [] of
                Inl e \<Rightarrow> (Inl e, sv)
              | Inr pr \<Rightarrow>
                  (case effectiveDefinition y (pr_parsed pr) of
                     Inl e \<Rightarrow> (Inl (RefusedDefinition e), sv)
                   | Inr effective \<Rightarrow>
                       (let key = parsed_Key (pr_parsed pr);
                            (p, db) = restoreTriggeredAlerts (db_ops (se_sha se)) (se_sha se) (pr_parsed pr) (mo_store mon);
                            row = \<lparr>mgd_key = key, mgd_definition = pr_definition pr, mgd_version = 0,
                                   mgd_created_at = zero_time, mgd_updated_at = zero_time, mgd_updated_by = author\<rparr>;
                            (res, db', reg, started) =
                              CreateManagedEndpoint (se_now se) row (apply_start p) db (mo_registry mon, False)
                        in case res of
                             Inl e \<Rightarrow>
                               (Inl (change_error e),
                                sv\<lparr>sv_monitor := mon\<lparr>mo_store := db', mo_registry := (if started then try_stop key reg else reg)\<rparr>\<rparr>)
                           | Inr stored \<Rightarrow>
                               (let s = newStateFromPrepared stored (pr\<lparr>pr_parsed := p\<rparr>) effective
                                in (adminDetail y (se_url se) s,
                                    sv\<lparr>sv_states := putState s g,
                                       sv_monitor := mon\<lparr>mo_store := db', mo_registry := reg\<rparr>\<rparr>))))))"

definition service_Create ::
    "'p service_env \<Rightarrow> string \<Rightarrow> string \<Rightarrow> 'p service_state \<Rightarrow> (service_error + detail) \<times> 'p service_state" where
  "service_Create se raw author sv = service_create se raw author True sv"

definition service_RestoreCreate ::
    "'p service_env \<Rightarrow> string \<Rightarrow> string \<Rightarrow> 'p service_state \<Rightarrow> (service_error + detail) \<times> 'p service_state" where
  "service_RestoreCreate se raw author sv = service_create se raw author False sv"

subsection \<open>Update\<close>

text \<open>
  The part of \<open>update\<close> without effects: the version, the type, the definition. It gives the state, the prepared
  definition, its effective one, the old definition if it parses, and whether the endpoint is renamed.
\<close>

record update_plan =
  up_state :: managed_state
  up_prepared :: prepared
  up_effective :: string
  up_stored :: "parsed option"
  up_renaming :: bool

definition check_update ::
    "'p service_env \<Rightarrow> managed_registry \<Rightarrow> string \<Rightarrow> string \<Rightarrow> int \<Rightarrow> service_error + update_plan" where
  "check_update se g key raw expectedVersion =
     (case managedState se key g of
        Inl e \<Rightarrow> Inl e
      | Inr s \<Rightarrow>
          (if mgd_version (ms_stored s) \<noteq> expectedVersion
           then Inl (StorageRefused (ErrManagedVersionMismatch ManagedEndpointsTable))
           else if \<not> se_supported se then Inl ErrStorageNotSupported
           else case ParseDefinition (se_yaml se) raw of
             Inl e \<Rightarrow> Inl (RefusedDefinition e)
           | Inr submitted \<Rightarrow>
               (let stored = (case ParseDefinition (se_yaml se) (mgd_definition (ms_stored s)) of
                                Inl _ \<Rightarrow> None | Inr p \<Rightarrow> Some p)
                in if (case stored of None \<Rightarrow> False | Some p \<Rightarrow> parsed_IsPush p \<noteq> parsed_IsPush submitted)
                   then Inl ErrTypeChanged
                   else case service_prepare se g raw key of
                     Inl e \<Rightarrow> Inl e
                   | Inr pr \<Rightarrow>
                       (let renaming = parsed_Key (pr_parsed pr) \<noteq> key \<or>
                              (case stored of
                                 None \<Rightarrow> False
                               | Some p \<Rightarrow> parsed_Name p \<noteq> parsed_Name submitted \<or> parsed_Group p \<noteq> parsed_Group submitted)
                        in case effectiveDefinition (se_yaml se) (pr_parsed pr) of
                             Inl e \<Rightarrow> Inl (RefusedDefinition e)
                           | Inr effective \<Rightarrow>
                               Inr \<lparr>up_state = s, up_prepared = pr, up_effective = effective, up_stored = stored,
                                    up_renaming = renaming\<rparr>))))"

text \<open>The triggered alerts of the prepared endpoint, before the transaction.\<close>

definition update_alerts ::
    "'p service_env \<Rightarrow> update_plan \<Rightarrow> parsed \<Rightarrow> managed_db \<Rightarrow> parsed \<times> managed_db" where
  "update_alerts se u previous db =
     (let ops = db_ops (se_sha se); p = pr_parsed (up_prepared u)
      in if \<not> up_renaming u then restoreTriggeredAlerts ops (se_sha se) p db
         else if state_InConflict (up_state u) then (p, db)
         else (case up_stored u of
                 Some stored \<Rightarrow>
                   restorePersistedTriggeredAlertsOfKey ops (se_sha se) p (parsed_Name stored) (parsed_Group stored) db
               | None \<Rightarrow>
                   (if parsed_IsValid previous
                    then restorePersistedTriggeredAlertsOfKey ops (se_sha se) p (parsed_Name previous) (parsed_Group previous) db
                    else (p, db))))"

definition plan_rename ::
    "'p service_env \<Rightarrow> bool \<Rightarrow> string \<Rightarrow> string \<Rightarrow> string \<Rightarrow> 'p \<Rightarrow> service_error + rename_plan option \<times> 'p" where
  "plan_rename se needed key newKey author pages =
     (if \<not> needed then Inr (None, pages)
      else case se_participant se of
             None \<Rightarrow> Inr (None, pages)
           | Some kp \<Rightarrow>
               (case kp_prepare kp key newKey author pages of
                  Inl e \<Rightarrow> Inl e
                | Inr (plan, pages') \<Rightarrow> Inr (Some plan, pages')))"

definition write_update ::
    "'p service_env \<Rightarrow> update_plan \<Rightarrow> string \<Rightarrow> int \<Rightarrow> managed_row \<Rightarrow> rename_plan option \<Rightarrow> parsed \<Rightarrow> managed_db \<Rightarrow>
     registry option \<Rightarrow> (registry_error, registry option \<times> bool) write_result" where
  "write_update se u key expectedVersion row plan p db reg =
     (if up_renaming u then
        RenameManagedEndpoint (se_now se) row expectedVersion
          \<lparr>rn_old_key = key, rn_name = parsed_Name p, rn_group = parsed_Group p,
           rn_move_history = (\<not> state_InConflict (up_state u)),
           rn_status_pages = (case plan of None \<Rightarrow> [] | Some k \<Rightarrow> kn_pages k)\<rparr>
          (apply_start p) db (reg, False)
      else UpdateManagedEndpoint (se_now se) row expectedVersion (apply_start p) db (reg, False))"

text \<open>The pages of a plan as the transaction leaves them.\<close>

definition written_pages :: "time \<Rightarrow> rename_plan \<Rightarrow> managed_row list" where
  "written_pages now plan = map (\<lambda>(page, v). page\<lparr>mgd_version := v + 1, mgd_updated_at := now\<rparr>) (kn_pages plan)"

definition commit_plan :: "'p service_env \<Rightarrow> rename_plan option \<Rightarrow> 'p \<Rightarrow> 'p" where
  "commit_plan se plan pages =
     (case (plan, se_participant se) of
        (Some k, Some kp) \<Rightarrow> kp_commit kp (written_pages (se_now se) k) pages
      | _ \<Rightarrow> pages)"

definition discard_plan :: "'p service_env \<Rightarrow> rename_plan option \<Rightarrow> 'p \<Rightarrow> 'p" where
  "discard_plan se plan pages =
     (case (plan, se_participant se) of (Some k, Some kp) \<Rightarrow> kp_discard kp pages | _ \<Rightarrow> pages)"

text \<open>What follows a successful transaction.\<close>

definition finish_update ::
    "'p service_env \<Rightarrow> update_plan \<Rightarrow> string \<Rightarrow> managed_row \<Rightarrow> rename_plan option \<Rightarrow> parsed \<Rightarrow> 'p service_state \<Rightarrow>
     (service_error + detail) \<times> 'p service_state" where
  "finish_update se u key stored plan p sv =
     (let conflict = state_InConflict (up_state u);
          s = newStateFromPrepared stored ((up_prepared u)\<lparr>pr_parsed := p\<rparr>) (up_effective u);
          moved = (up_renaming u \<and> mgd_key stored \<noteq> key);
          sv = sv\<lparr>sv_pages := commit_plan se plan (sv_pages sv),
                 sv_deleted_metrics := (if conflict then sv_deleted_metrics sv else sv_deleted_metrics sv @ [key]),
                 sv_states := replaceState key s (sv_states sv),
                 sv_monitor := (if moved then ForgetExternalEndpoint key (sv_monitor sv) else sv_monitor sv),
                 sv_forgotten := (if moved then sv_forgotten sv @ [key] else sv_forgotten sv)\<rparr>
      in (case adminDetail (se_yaml se) (se_url se) s of
            Inl e \<Rightarrow> Inl e
          | Inr d \<Rightarrow> Inr (case plan of None \<Rightarrow> d | Some k \<Rightarrow> d\<lparr>dt_affected_pages := kn_affected k\<rparr>), sv))"

definition apply_update ::
    "'p service_env \<Rightarrow> update_plan \<Rightarrow> string \<Rightarrow> int \<Rightarrow> string \<Rightarrow> 'p service_state \<Rightarrow>
     (service_error + detail) \<times> 'p service_state" where
  "apply_update se u key expectedVersion author sv =
     (let mon = sv_monitor sv;
          newKey = parsed_Key (pr_parsed (up_prepared u));
          previous = live_parsed key (ms_parsed (up_state u)) (mo_registry mon);
          wasMonitored = (parsed_IsValid previous \<and> IsEndpointMonitored key (mo_registry mon))
      in case stop_previous wasMonitored key (mo_registry mon) of
           Inl e \<Rightarrow> (Inl e, sv)
         | Inr reg \<Rightarrow>
             (let (p, db) = update_alerts se u previous (mo_store mon);
                  with = (\<lambda>db reg. mon\<lparr>mo_store := db, mo_registry := reg\<rparr>)
              in case plan_rename se (up_renaming u \<and> \<not> state_InConflict (up_state u) \<and> newKey \<noteq> key) key newKey author
                        (sv_pages sv) of
                   Inl e \<Rightarrow> (Inl e, sv\<lparr>sv_monitor := with db (restart_previous wasMonitored previous reg)\<rparr>)
                 | Inr (plan, pages) \<Rightarrow>
                     (let row = \<lparr>mgd_key = newKey, mgd_definition = pr_definition (up_prepared u), mgd_version = 0,
                                 mgd_created_at = zero_time, mgd_updated_at = zero_time, mgd_updated_by = author\<rparr>;
                          (res, db', reg', started) = write_update se u key expectedVersion row plan p db reg
                      in case res of
                           Inl e \<Rightarrow>
                             (let reg'' = (if started then try_stop newKey reg' else reg')
                              in (Inl (change_error e),
                                  sv\<lparr>sv_monitor := with db' (restart_previous wasMonitored previous reg''),
                                     sv_pages := discard_plan se plan pages\<rparr>))
                         | Inr stored \<Rightarrow>
                             finish_update se u key stored plan p
                               (sv\<lparr>sv_monitor := with db' reg', sv_pages := pages\<rparr>))))"

definition service_update ::
    "'p service_env \<Rightarrow> string \<Rightarrow> string \<Rightarrow> int \<Rightarrow> string \<Rightarrow> 'p service_state \<Rightarrow>
     (service_error + detail) \<times> 'p service_state" where
  "service_update se key raw expectedVersion author sv =
     (case check_update se (sv_states sv) key raw expectedVersion of
        Inl e \<Rightarrow> (Inl e, sv)
      | Inr u \<Rightarrow> apply_update se u key expectedVersion author sv)"

definition service_Update ::
    "'p service_env \<Rightarrow> string \<Rightarrow> string \<Rightarrow> int \<Rightarrow> string \<Rightarrow> 'p service_state \<Rightarrow>
     (service_error + detail) \<times> 'p service_state" where
  "service_Update se key raw expectedVersion author sv =
     (if se_cycle se then (Inl ErrCycleInProgress, sv) else service_update se key raw expectedVersion author sv)"

definition service_SetEnabled ::
    "'p service_env \<Rightarrow> string \<Rightarrow> bool \<Rightarrow> int \<Rightarrow> string \<Rightarrow> 'p service_state \<Rightarrow>
     (service_error + detail) \<times> 'p service_state" where
  "service_SetEnabled se key enabled expectedVersion author sv =
     (if se_cycle se then (Inl ErrCycleInProgress, sv)
      else case managedState se key (sv_states sv) of
        Inl e \<Rightarrow> (Inl e, sv)
      | Inr s \<Rightarrow>
          (case to_document (se_yaml se) (mgd_definition (ms_stored s)) of
             Inl e \<Rightarrow> (Inl e, sv)
           | Inr d \<Rightarrow>
               (let d' = (if enabled then alist_del ''enabled'' d else alist_put ''enabled'' (VBool False) d)
                in case FromDocument (se_yaml se) d' of
                     Inl e \<Rightarrow> (Inl e, sv)
                   | Inr raw \<Rightarrow> service_update se key raw expectedVersion author sv)))"

subsection \<open>Delete\<close>

definition service_Delete ::
    "'p service_env \<Rightarrow> string \<Rightarrow> int \<Rightarrow> 'p service_state \<Rightarrow> (service_error + nat) \<times> 'p service_state" where
  "service_Delete se key expectedVersion sv =
     (if se_cycle se then (Inl ErrCycleInProgress, sv)
      else case managedState se key (sv_states sv) of
        Inl e \<Rightarrow> (Inl e, sv)
      | Inr s \<Rightarrow>
          (if mgd_version (ms_stored s) \<noteq> expectedVersion
           then (Inl (StorageRefused (ErrManagedVersionMismatch ManagedEndpointsTable)), sv)
           else if \<not> se_supported se then (Inl ErrStorageNotSupported, sv)
           else
             (let mon = sv_monitor sv; conflict = state_InConflict s;
                  previous = live_parsed key (ms_parsed s) (mo_registry mon);
                  wasMonitored = (\<not> conflict \<and> parsed_IsValid previous \<and> IsEndpointMonitored key (mo_registry mon))
              in case stop_previous wasMonitored key (mo_registry mon) of
                   Inl e \<Rightarrow> (Inl e, sv)
                 | Inr reg \<Rightarrow>
                     (let triggeredAlerts = (if conflict then 0 else length (filter triggered (parsed_alerts previous)))
                      in case DeleteManagedEndpoint key expectedVersion (\<not> conflict) no_apply (mo_store mon) () of
                           (Some e, db, _) \<Rightarrow>
                             (Inl (change_error e),
                              sv\<lparr>sv_monitor := mon\<lparr>mo_store := db,
                                   mo_registry := restart_previous wasMonitored previous reg\<rparr>\<rparr>)
                         | (None, db, _) \<Rightarrow>
                             (Inr triggeredAlerts,
                              sv\<lparr>sv_deleted_metrics :=
                                   (if conflict then sv_deleted_metrics sv else sv_deleted_metrics sv @ [key]),
                                 sv_states := removeState key (sv_states sv),
                                 sv_monitor := ForgetExternalEndpoint key (mon\<lparr>mo_store := db, mo_registry := reg\<rparr>),
                                 sv_forgotten := sv_forgotten sv @ [key]\<rparr>)))))"

end
