(* ===== verification/ManagedServiceFacts.thy ===== *)
theory ManagedServiceFacts
  imports ManagedService
begin

text \<open>
  What the changes of the managed endpoints keep (the operations are in \<open>ManagedService\<close>): the snapshot mirrors the
  table, the index is that of the snapshot, no two endpoints receive with one token, and exactly the enabled
  endpoints are monitored. A change that fails leaves all of it as it was.
\<close>

subsection \<open>The monitored entries\<close>

definition monitored_at :: "registry option \<Rightarrow> string \<Rightarrow> monitored_entry option" where
  "monitored_at reg key = (case reg of None \<Rightarrow> None | Some r \<Rightarrow> Option.bind (reg_entries r key) (reg_heap r))"

definition reg_ok :: "registry option \<Rightarrow> bool" where
  "reg_ok reg \<longleftrightarrow> (case reg of None \<Rightarrow> True | Some r \<Rightarrow> reg_inv r \<and> \<not> reg_closed r)"

definition entry_of :: "parsed \<Rightarrow> monitored_entry" where
  "entry_of p =
     \<lparr>me_object = (case pa_push p of Some ee \<Rightarrow> MonitoredExternal ee | None \<Rightarrow> MonitoredEndpoint (the (pa_endpoint p))),
      me_source = SourceAdmin\<rparr>"

lemma monitored_at_entries: "reg_inv r \<Longrightarrow> monitored_at (Some r) key = None \<longleftrightarrow> reg_entries r key = None"
  using reg_inv_entry [of "{}" r key] by (cases "reg_entries r key") (auto simp: monitored_at_def)

lemma reg_entries_monitored: "reg_inv r \<Longrightarrow> reg_entries r key = Some i \<Longrightarrow> \<exists>m. monitored_at (Some r) key = Some m"
  using reg_inv_entry [of "{}" r key i] by (auto simp: monitored_at_def)

lemma monitored_at_free [simp]: "reg_entries r key = None \<Longrightarrow> monitored_at (Some r) key = None"
  by (simp add: monitored_at_def)

lemma monitored_at_add:
  assumes "reg_inv r"
  shows "monitored_at (Some (reg_add m r)) = (monitored_at (Some r))(me_key m \<mapsto> m)"
  using reg_next_unused(3) [OF assms] by (auto simp: fun_eq_iff monitored_at_def reg_add_def split: option.splits bind_splits)

lemma reg_closed_add [simp]: "reg_closed (reg_add m r) = reg_closed r"
  by (simp add: reg_add_def)

lemma startMonitoring_cases:
  assumes ok: "reg_ok reg" and valid: "parsed_IsValid p"
  shows "startMonitoring p reg =
    (if \<not> parsed_IsEnabled p then (None, reg)
     else case reg of
       None \<Rightarrow> (Some ErrMonitoringStopped, None)
     | Some r \<Rightarrow>
         (if monitored_at reg (parsed_Key p) \<noteq> None then (Some ErrEndpointAlreadyMonitored, reg)
          else (None, Some (reg_add (entry_of p) r))))"
  using assms
  by (auto simp: startMonitoring_def StartExternalEndpoint_def StartEndpoint_def reg_startExternal_def reg_start_def
      reg_ok_def monitored_at_entries parsed_Key_def parsed_select_def entry_of_def parsed_IsValid_def
      reg_add_def me_key_def dest: reg_entries_monitored split: option.split)

lemma me_key_entry_of: "parsed_IsValid p \<Longrightarrow> me_key (entry_of p) = parsed_Key p"
  by (auto simp: me_key_def entry_of_def parsed_Key_def parsed_select_def parsed_IsValid_def split: option.split)

lemma startMonitoring_success:
  assumes "reg_ok reg" and "parsed_IsValid p" and "startMonitoring p reg = (None, reg')"
  shows "reg_ok reg' \<and>
    (if parsed_IsEnabled p
     then monitored_at reg (parsed_Key p) = None \<and> monitored_at reg' = (monitored_at reg)(parsed_Key p \<mapsto> entry_of p)
     else reg' = reg)"
proof (cases "parsed_IsEnabled p")
  case True
  then obtain r where r: "reg = Some r" "monitored_at reg (parsed_Key p) = None" "reg' = Some (reg_add (entry_of p) r)"
    using assms by (auto simp: startMonitoring_cases split: option.splits if_splits)
  moreover have "reg_entries r (parsed_Key p) = None" "reg_inv r" "\<not> reg_closed r"
    using r assms(1) by (auto simp: reg_ok_def monitored_at_entries)
  ultimately show ?thesis
    using True reg_add_inv [of "{}" r "entry_of p"] monitored_at_add [of r "entry_of p"]
    by (simp add: me_key_entry_of [OF assms(2)] reg_ok_def)
qed (use assms in \<open>auto simp: startMonitoring_cases\<close>)

lemma startMonitoring_failure: "startMonitoring p reg = (Some e, reg') \<Longrightarrow> reg' = reg"
  by (auto simp: startMonitoring_def split: if_splits sum.splits option.splits)

lemma startMonitoring_free:
  assumes "reg_ok reg" and "parsed_IsValid p" and "reg \<noteq> None" and "monitored_at reg (parsed_Key p) = None"
  shows "fst (startMonitoring p reg) = None"
  using assms by (auto simp: startMonitoring_cases split: option.split)

lemma stop_success:
  assumes ok: "reg_ok reg" and stop: "StopEndpoint key SourceAdmin reg = Inr (i, r')"
  shows "reg_ok (Some r') \<and> monitored_at (Some r') = (monitored_at reg)(key := None) \<and>
    (\<exists>m. monitored_at reg key = Some m \<and> me_source m = SourceAdmin)"
proof -
  obtain r where r: "reg = Some r" "reg_stop key SourceAdmin r = Inr (i, r')"
    using stop by (auto simp: StopEndpoint_def split: option.splits)
  have inv: "reg_inv r" "\<not> reg_closed r" using ok r by (auto simp: reg_ok_def)
  have "map_option me_source (reg_heap r i) = Some SourceAdmin" "reg_entries r key = Some i"
    using r(2) by (auto simp: reg_stop_alt split: option.splits if_splits)
  then show ?thesis
    using reg_stop_inv [OF inv(1) r(2)] inv reg_stop_cases [OF r(2)]
    by (auto simp: r(1) reg_ok_def monitored_at_def fun_eq_iff)
qed

lemma stop_failure:
  assumes "reg_ok reg" and "StopEndpoint key SourceAdmin reg = Inl e"
  shows "\<not> (\<exists>m. monitored_at reg key = Some m \<and> me_source m = SourceAdmin)"
  using assms
  by (auto simp: StopEndpoint_def reg_stop_alt monitored_at_def split: option.splits if_splits bind_splits)

lemma try_stop_started:
  assumes ok: "reg_ok reg" and valid: "parsed_IsValid p" and enabled: "parsed_IsEnabled p"
    and start: "startMonitoring p reg = (None, reg')"
  shows "reg_ok (try_stop (parsed_Key p) reg') \<and> monitored_at (try_stop (parsed_Key p) reg') = monitored_at reg"
proof -
  have s: "reg_ok reg'" "monitored_at reg (parsed_Key p) = None"
    "monitored_at reg' = (monitored_at reg)(parsed_Key p \<mapsto> entry_of p)"
    using startMonitoring_success [OF ok valid start] enabled by simp_all
  show ?thesis
  proof (cases "StopEndpoint (parsed_Key p) SourceAdmin reg'")
    case (Inl e)
    then show ?thesis using stop_failure [OF s(1) Inl] s(3) by (simp add: entry_of_def)
  next
    case (Inr x)
    then obtain i r' where "StopEndpoint (parsed_Key p) SourceAdmin reg' = Inr (i, r')" by (cases x) auto
    from stop_success [OF s(1) this] show ?thesis
      using s by (simp add: try_stop_def \<open>StopEndpoint _ _ _ = Inr (i, r')\<close> fun_eq_iff)
  qed
qed

subsection \<open>Restoring alerts changes no target\<close>

definition same_target :: "parsed \<Rightarrow> parsed \<Rightarrow> bool" where
  "same_target p q \<longleftrightarrow>
     parsed_Key p = parsed_Key q \<and> parsed_Name p = parsed_Name q \<and> parsed_Group p = parsed_Group q \<and>
     parsed_IsEnabled p = parsed_IsEnabled q \<and> parsed_PushToken p = parsed_PushToken q \<and>
     parsed_ReceivesPush p = parsed_ReceivesPush q \<and> parsed_IsValid p = parsed_IsValid q"

text \<open>A database with other triggered alerts at most.\<close>

definition same_tables :: "managed_db \<Rightarrow> managed_db \<Rightarrow> bool" where
  "same_tables db db' \<longleftrightarrow>
     db_table db' = db_table db \<and> db_push_keys db' = db_push_keys db \<and>
     endpoint_rows (db_sql db') = endpoint_rows (db_sql db)"

lemma same_target_refl [simp]: "same_target p p"
  by (simp add: same_target_def)

lemma same_tables_refl [simp]: "same_tables db db"
  by (simp add: same_tables_def)

lemma restore_loop_keeps:
  "restore_loop ops s ep n as = (as', ep', n') \<Longrightarrow>
   \<exists>a b. ep' = ep\<lparr>NumberOfSuccessesInARow := a, NumberOfFailuresInARow := b\<rparr>"
proof (induction as arbitrary: ep n as' ep' n')
  case Nil
  have "ep = ep\<lparr>NumberOfSuccessesInARow := NumberOfSuccessesInARow ep, NumberOfFailuresInARow := NumberOfFailuresInARow ep\<rparr>"
    by simp
  then show ?case using Nil by (metis prod.inject restore_loop.simps(1))
next
  case (Cons a as)
  obtain a1 ep1 n1 where first: "(case GetTriggeredEndpointAlert ops s ep a of
               Inl e \<Rightarrow> (a, ep, n)
             | Inr None \<Rightarrow> (a, ep, n)
             | Inr (Some (key, successes)) \<Rightarrow>
                 (a\<lparr>triggered := True, resolve_key := key\<rparr>,
                  ep\<lparr>NumberOfSuccessesInARow := successes, NumberOfFailuresInARow := failure_threshold a\<rparr>,
                  Suc n)) = (a1, ep1, n1)"
    by (metis prod_cases3)
  obtain as2 where rest: "restore_loop ops s ep1 n1 as = (as2, ep', n')"
    using Cons.prems by (auto simp: first split: prod.splits)
  from Cons.IH [OF rest] obtain c d where "ep' = ep1\<lparr>NumberOfSuccessesInARow := c, NumberOfFailuresInARow := d\<rparr>"
    by blast
  moreover have "\<exists>c d. ep1 = ep\<lparr>NumberOfSuccessesInARow := c, NumberOfFailuresInARow := d\<rparr>"
  proof (cases "ep1 = ep")
    case True
    then have "ep1 = ep\<lparr>NumberOfSuccessesInARow := NumberOfSuccessesInARow ep, NumberOfFailuresInARow := NumberOfFailuresInARow ep\<rparr>"
      by simp
    then show ?thesis by blast
  next
    case False
    then show ?thesis using first by (auto split: sum.splits option.splits)
  qed
  ultimately have "ep' = ep\<lparr>NumberOfSuccessesInARow := c, NumberOfFailuresInARow := d\<rparr>" by auto
  then show ?case by blast
qed

lemma restored_endpoint:
  assumes "RestorePersistedTriggeredAlerts ops sha ep s = (n, ep', s')"
  shows "\<exists>a b as. ep' = ep\<lparr>NumberOfSuccessesInARow := a, NumberOfFailuresInARow := b, ep_alerts := as\<rparr>"
    and "\<exists>cs. s' = snd (DeleteAllTriggeredAlertsNotInChecksumsByEndpoint ops s ep cs)"
proof -
  obtain as ep1 where loop: "restore_loop ops s' ep 0 (ep_alerts ep) = (as, ep1, n)" "ep' = ep1\<lparr>ep_alerts := as\<rparr>"
    using assms by (auto simp: RestorePersistedTriggeredAlerts_def Let_def split: prod.splits)
  from restore_loop_keeps [OF loop(1)] loop(2)
  show "\<exists>a b as. ep' = ep\<lparr>NumberOfSuccessesInARow := a, NumberOfFailuresInARow := b, ep_alerts := as\<rparr>"
    by (auto intro: exI [where x = as])
  show "\<exists>cs. s' = snd (DeleteAllTriggeredAlertsNotInChecksumsByEndpoint ops s ep cs)"
    using assms by (auto simp: RestorePersistedTriggeredAlerts_def Let_def split: prod.splits)
qed

lemma delete_not_in_tables:
  "same_tables db (snd (DeleteAllTriggeredAlertsNotInChecksumsByEndpoint (db_ops sha) db ep cs))"
  by (auto simp: db_ops_def same_tables_def sql_DeleteNotInChecksums_def Let_def split: option.split)

lemma restored_tables:
  "RestorePersistedTriggeredAlerts (db_ops sha) sha ep db = (n, ep', db') \<Longrightarrow> same_tables db db'"
  using restored_endpoint(2) [of "db_ops sha" sha ep db n ep' db'] delete_not_in_tables [of db sha ep] by auto

lemmas parsed_selectors =
  parsed_Key_def parsed_Name_def parsed_Group_def parsed_IsEnabled_def parsed_PushToken_def parsed_ReceivesPush_def
  parsed_IsValid_def parsed_select_def

lemma set_alerts_target: "same_target (set_alerts as p) p"
  by (cases "pa_push p"; cases "pa_endpoint p")
    (simp_all add: same_target_def set_alerts_def parsed_selectors ee_Key_def ep_Key_def ee_IsEnabled_def ep_IsEnabled_def)

lemma setCounters_target: "same_target (setCounters a b p) p"
  by (cases "pa_push p"; cases "pa_endpoint p")
    (simp_all add: same_target_def setCounters_def parsed_selectors ee_Key_def ep_Key_def ee_IsEnabled_def ep_IsEnabled_def)

lemma same_target_trans: "same_target p q \<Longrightarrow> same_target q r \<Longrightarrow> same_target p r"
  by (simp add: same_target_def)

lemma restoreTriggeredAlerts_target:
  assumes "restoreTriggeredAlerts (db_ops sha) sha p db = (p', db')"
  shows "same_target p' p \<and> same_tables db db'"
proof (cases "pa_push p")
  case None
  show ?thesis
  proof (cases "pa_endpoint p")
    case (Some ep)
    obtain n ep' where r: "RestorePersistedTriggeredAlerts (db_ops sha) sha ep db = (n, ep', db')" "p' = p\<lparr>pa_endpoint := Some ep'\<rparr>"
      using assms None Some by (auto simp: restoreTriggeredAlerts_def split: prod.splits)
    from restored_endpoint(1) [OF r(1)] restored_tables [OF r(1)] show ?thesis
      by (auto simp: r(2) same_target_def parsed_selectors None Some ep_Key_def ep_IsEnabled_def)
  qed (use assms None in \<open>simp add: restoreTriggeredAlerts_def\<close>)
next
  case (Some ee)
  obtain n ep' where r: "RestorePersistedTriggeredAlerts (db_ops sha) sha (ToEndpoint ee) db = (n, ep', db')"
    using assms Some by (auto simp: restoreTriggeredAlerts_def Let_def split: prod.splits)
  have "p' = p\<lparr>pa_push := Some (if n > 0 then ee\<lparr>ee_alerts := ep_alerts ep', ee_successes := NumberOfSuccessesInARow ep',
      ee_failures := NumberOfFailuresInARow ep'\<rparr> else ee\<lparr>ee_alerts := ep_alerts ep'\<rparr>)\<rparr>"
    using assms Some r by (auto simp: restoreTriggeredAlerts_def Let_def)
  then show ?thesis using restored_tables [OF r]
    by (auto simp: same_target_def parsed_selectors Some ee_Key_def ee_IsEnabled_def)
qed

lemma restoreOfKey_target:
  assumes "restorePersistedTriggeredAlertsOfKey (db_ops sha) sha p name grp db = (p', db')"
  shows "same_target p' p \<and> same_tables db db'"
proof -
  let ?lookup = "empty_endpoint\<lparr>ep_name := name, ep_group := grp, ep_alerts := parsed_alerts p\<rparr>"
  obtain n found where r: "RestorePersistedTriggeredAlerts (db_ops sha) sha ?lookup db = (n, found, db')"
    using assms by (auto simp: restorePersistedTriggeredAlertsOfKey_def Let_def split: prod.splits)
  then have "p' = (if n > 0 then setCounters (NumberOfSuccessesInARow found) (NumberOfFailuresInARow found)
      (set_alerts (ep_alerts found) p) else set_alerts (ep_alerts found) p)"
    using assms by (auto simp: restorePersistedTriggeredAlertsOfKey_def Let_def)
  then show ?thesis
    using restored_tables [OF r] set_alerts_target setCounters_target
    by (auto intro: same_target_trans [OF setCounters_target set_alerts_target])
qed

lemma update_alerts_target:
  assumes "update_alerts se u previous db = (p, db')"
  shows "same_target p (pr_parsed (up_prepared u)) \<and> same_tables db db'"
  using assms restoreTriggeredAlerts_target restoreOfKey_target
  by (auto simp: update_alerts_def Let_def split: if_splits option.splits)

subsection \<open>What a prepared definition guarantees\<close>

lemma ParseDefinition_valid: "ParseDefinition y d = Inr p \<Longrightarrow> parsed_IsValid p"
  by (auto simp: ParseDefinition_def parse_push_def parse_active_def parsed_IsValid_def Let_def
      split: if_splits option.splits sum.splits val.splits)

lemma validateKey_ok:
  "validateKey key ctx = None \<Longrightarrow> ConfigKeyOrigin (px_config ctx) key = None \<and> key \<notin> set (px_managed_keys ctx)"
  by (auto simp: validateKey_def split: option.splits if_splits)

lemma validate_parsed_ok:
  assumes "validate_parsed p ctx = Inr q" and "parsed_IsValid p"
  shows "parsed_IsValid q \<and> validateKey (parsed_Key q) ctx = None"
proof (cases "pa_push p")
  case (Some ee)
  then obtain ee' where ee': "validatePush ee ctx = Inr ee'" "q = p\<lparr>pa_push := Some ee'\<rparr>"
    using assms by (auto simp: validate_parsed_def split: sum.splits)
  then have "validateKey (ee_Key ee') ctx = None"
    by (auto simp: validatePush_def Let_def split: prod.splits option.splits if_splits)
  with ee' show ?thesis by (simp add: parsed_selectors)
next
  case None
  then obtain ep ep' where ep': "pa_endpoint p = Some ep" "validate_active ep ctx = Inr ep'" "q = p\<lparr>pa_endpoint := Some ep'\<rparr>"
    using assms by (auto simp: validate_parsed_def parsed_IsValid_def split: sum.splits option.splits)
  then have "validateKey (ep_Key ep') ctx = None"
    by (auto simp: validate_active_def Let_def split: prod.splits option.splits sum.splits)
  with ep' None show ?thesis by (simp add: parsed_selectors)
qed

lemma Prepare_ok:
  assumes "Prepare y d ctx = Inr pr"
  shows "parsed_IsValid (pr_parsed pr)"
    and "ConfigKeyOrigin (px_config ctx) (parsed_Key (pr_parsed pr)) = None"
    and "parsed_Key (pr_parsed pr) \<notin> set (px_managed_keys ctx)"
    and "validatePushToken (pr_parsed pr) ctx = None"
proof -
  obtain p0 p where p: "ParseDefinition y d = Inr p0" "validate_parsed p0 ctx = Inr p" "pr_parsed pr = p"
    "validatePushToken p ctx = None"
    using assms by (auto simp: Prepare_def split: sum.splits option.splits)
  note v = validate_parsed_ok [OF p(2) ParseDefinition_valid [OF p(1)]]
  show "parsed_IsValid (pr_parsed pr)" "ConfigKeyOrigin (px_config ctx) (parsed_Key (pr_parsed pr)) = None"
    "parsed_Key (pr_parsed pr) \<notin> set (px_managed_keys ctx)" "validatePushToken (pr_parsed pr) ctx = None"
    using v validateKey_ok p by auto
qed

end
