(* ===== verification/ManagedServiceSafety.thy ===== *)
theory ManagedServiceSafety
  imports ManagedServiceFacts
begin

text \<open>
  The invariant of the service of the managed endpoints and the outcome of its changes: each either does everything
  (the row, the snapshot, the index and the monitoring) or nothing.
\<close>

subsection \<open>The invariant\<close>

text \<open>The object that is monitored under a key for the administration.\<close>

definition admin_at :: "registry option \<Rightarrow> string \<Rightarrow> monitored option" where
  "admin_at reg key =
     (case monitored_at reg key of
        None \<Rightarrow> None | Some m \<Rightarrow> (if me_source m = SourceAdmin then Some (me_object m) else None))"

text \<open>The object of a definition, up to what the monitoring changes of it.\<close>

definition same_object :: "monitored \<Rightarrow> parsed \<Rightarrow> bool" where
  "same_object m p =
     (case m of
        MonitoredEndpoint ep \<Rightarrow> pa_push p = None \<and> pa_endpoint p \<noteq> None \<and> ep_Key ep = parsed_Key p \<and> ep_IsEnabled ep
      | MonitoredExternal ee \<Rightarrow> pa_push p \<noteq> None \<and> ee_Key ee = parsed_Key p \<and> ee_IsEnabled ee)"

definition monitors_at :: "monitored option \<Rightarrow> managed_state option \<Rightarrow> bool" where
  "monitors_at m s =
     (case s of
        None \<Rightarrow> m = None
      | Some st \<Rightarrow>
          (if parsed_IsEnabled (ms_parsed st) then (case m of None \<Rightarrow> False | Some obj \<Rightarrow> same_object obj (ms_parsed st))
           else m = None))"

definition tokens_unique :: "snapshot \<Rightarrow> bool" where
  "tokens_unique snap \<longleftrightarrow>
     (\<forall>k k' s s'. map_of snap k = Some s \<longrightarrow> map_of snap k' = Some s' \<longrightarrow> k \<noteq> k' \<longrightarrow>
        parsed_ReceivesPush (ms_parsed s) \<longrightarrow> parsed_ReceivesPush (ms_parsed s') \<longrightarrow>
        parsed_PushToken (ms_parsed s) \<noteq> [] \<longrightarrow> parsed_PushToken (ms_parsed s) \<noteq> parsed_PushToken (ms_parsed s'))"

definition state_ok :: "string \<Rightarrow> managed_state \<Rightarrow> bool" where
  "state_ok k s \<longleftrightarrow>
     mgd_key (ms_stored s) = k \<and>
     (parsed_IsValid (ms_parsed s) \<longrightarrow> parsed_Key (ms_parsed s) = k \<and> \<not> state_InConflict s)"

definition service_inv :: "'p service_state \<Rightarrow> bool" where
  "service_inv sv \<longleftrightarrow>
     (let g = sv_states sv; snap = current_states g; mon = sv_monitor sv; reg = mo_registry mon
      in distinct (map fst snap) \<and>
         mg_index g = Some (newPushIndex snap) \<and>
         (\<forall>k s. map_of snap k = Some s \<longrightarrow> state_ok k s) \<and>
         (\<forall>k. map_of (db_table (mo_store mon) ManagedEndpointsTable) k = map_option ms_stored (map_of snap k)) \<and>
         reg_ok reg \<and>
         (\<forall>k. monitors_at (admin_at reg k) (map_of snap k)) \<and>
         tokens_unique snap)"

lemma service_invD:
  assumes "service_inv sv"
  shows "distinct (map fst (current_states (sv_states sv)))"
    and "mg_index (sv_states sv) = Some (newPushIndex (current_states (sv_states sv)))"
    and "map_of (current_states (sv_states sv)) k = Some s \<Longrightarrow> state_ok k s"
    and "map_of (db_table (mo_store (sv_monitor sv)) ManagedEndpointsTable) k =
           map_option ms_stored (map_of (current_states (sv_states sv)) k)"
    and "reg_ok (mo_registry (sv_monitor sv))"
    and "monitors_at (admin_at (mo_registry (sv_monitor sv)) k) (map_of (current_states (sv_states sv)) k)"
    and "tokens_unique (current_states (sv_states sv))"
  using assms by (auto simp: service_inv_def Let_def)

lemma parsed_enabled_valid: "parsed_IsEnabled p \<Longrightarrow> parsed_IsValid p"
  by (auto simp: parsed_selectors split: option.splits)

lemma admin_at_None: "admin_at reg k = None \<longleftrightarrow> (\<forall>m. monitored_at reg k = Some m \<longrightarrow> me_source m \<noteq> SourceAdmin)"
  by (auto simp: admin_at_def split: option.splits)

lemma same_object_entry: "parsed_IsEnabled p \<Longrightarrow> same_object (me_object (entry_of p)) p"
  by (auto simp: same_object_def entry_of_def parsed_selectors split: option.splits)

subsection \<open>Stopping and restarting the previous object\<close>

text \<open>What the invariant says of the state of a key and its live object.\<close>

definition key_ok :: "registry option \<Rightarrow> string \<Rightarrow> managed_state \<Rightarrow> bool" where
  "key_ok reg0 key s \<longleftrightarrow> reg_ok reg0 \<and> state_ok key s \<and> monitors_at (admin_at reg0 key) (Some s)"

definition previous :: "registry option \<Rightarrow> string \<Rightarrow> managed_state \<Rightarrow> parsed" where
  "previous reg0 key s = live_parsed key (ms_parsed s) reg0"

definition was :: "registry option \<Rightarrow> string \<Rightarrow> managed_state \<Rightarrow> bool" where
  "was reg0 key s \<longleftrightarrow> parsed_IsValid (previous reg0 key s) \<and> IsEndpointMonitored key reg0"

lemma key_okD:
  "key_ok reg0 key s \<Longrightarrow> reg_ok reg0"
  "key_ok reg0 key s \<Longrightarrow> state_ok key s"
  "key_ok reg0 key s \<Longrightarrow> monitors_at (admin_at reg0 key) (Some s)"
  by (simp_all add: key_ok_def)

lemma not_admin:
  assumes key_ok: "key_ok reg0 key s" and free: "admin_at reg0 key = None"
  shows "(previous reg0 key s) = ms_parsed s" and "\<not> parsed_IsEnabled (previous reg0 key s)" and "stop_previous (was reg0 key s) key reg0 = Inr reg0"
proof -
  note reg0_ok = key_okD(1) [OF key_ok] and s_ok = key_okD(2) [OF key_ok] and monitored = key_okD(3) [OF key_ok]
  have none: "\<forall>m. monitored_at reg0 key = Some m \<longrightarrow> me_source m \<noteq> SourceAdmin"
    using free by (simp add: admin_at_None)
  then show prev: "(previous reg0 key s) = ms_parsed s"
    by (auto simp: previous_def live_parsed_def monitored_at_def split: option.splits)
  show "\<not> parsed_IsEnabled (previous reg0 key s)"
    using monitored free by (simp add: monitors_at_def prev split: if_splits)
  show "stop_previous (was reg0 key s) key reg0 = Inr reg0"
  proof (cases "StopEndpoint key SourceAdmin reg0")
    case (Inl e)
    then have "was reg0 key s \<Longrightarrow> e = ErrEndpointNotMonitored"
      by (auto simp: was_def IsEndpointMonitored_def StopEndpoint_def reg_stop_alt split: option.splits if_splits)
    then show ?thesis by (simp add: stop_previous_def Inl)
  next
    case (Inr x)
    then show ?thesis using none stop_success [OF reg0_ok, of key "fst x" "snd x"] by (cases x) auto
  qed
qed

lemma admin:
  assumes key_ok: "key_ok reg0 key s" and at: "admin_at reg0 key = Some obj"
  shows "parsed_IsEnabled (previous reg0 key s)" and "parsed_Key (previous reg0 key s) = key" and "monitored_at reg0 key = Some (entry_of (previous reg0 key s))"
    and "was reg0 key s" and "\<exists>r. stop_previous (was reg0 key s) key reg0 = Inr (Some r) \<and> reg_ok (Some r) \<and>
      monitored_at (Some r) = (monitored_at reg0)(key := None)"
proof -
  note reg0_ok = key_okD(1) [OF key_ok] and s_ok = key_okD(2) [OF key_ok] and monitored = key_okD(3) [OF key_ok]
  have enabled: "parsed_IsEnabled (ms_parsed s)" and same: "same_object obj (ms_parsed s)"
    using monitored at by (auto simp: monitors_at_def split: if_splits)
  have pkey: "parsed_Key (ms_parsed s) = key"
    using s_ok parsed_enabled_valid [OF enabled] by (simp add: state_ok_def)
  obtain m where m: "monitored_at reg0 key = Some m" "me_source m = SourceAdmin" "me_object m = obj"
    using at by (auto simp: admin_at_def split: option.splits if_splits)
  then have entry_at: "Option.bind reg0 (\<lambda>r. Option.bind (reg_entries r key) (reg_heap r)) = Some m"
    by (auto simp: monitored_at_def split: option.splits)
  have prev: "(previous reg0 key s) = (case obj of MonitoredEndpoint ep \<Rightarrow> (ms_parsed s)\<lparr>pa_endpoint := Some ep\<rparr>
      | MonitoredExternal ee \<Rightarrow> (ms_parsed s)\<lparr>pa_push := Some ee\<rparr>)"
    using same m by (auto simp: previous_def live_parsed_def entry_at same_object_def split: monitored.splits)
  show prev_enabled: "parsed_IsEnabled (previous reg0 key s)" "parsed_Key (previous reg0 key s) = key"
    using same pkey by (auto simp: prev same_object_def parsed_selectors split: monitored.splits option.splits)
  show entry: "monitored_at reg0 key = Some (entry_of (previous reg0 key s))"
    using same m by (auto simp: prev same_object_def entry_of_def split: monitored.splits)
  have "IsEndpointMonitored key reg0"
    using m(1) by (auto simp: IsEndpointMonitored_def reg_isMonitored_def monitored_at_def split: option.splits bind_splits)
  then show was: "was reg0 key s" using parsed_enabled_valid [OF prev_enabled(1)] by (simp add: was_def)
  show "\<exists>r. stop_previous (was reg0 key s) key reg0 = Inr (Some r) \<and> reg_ok (Some r) \<and>
      monitored_at (Some r) = (monitored_at reg0)(key := None)"
  proof (cases "StopEndpoint key SourceAdmin reg0")
    case (Inl e)
    then show ?thesis using stop_failure [OF reg0_ok Inl] m by blast
  next
    case (Inr x)
    obtain i r where "x = (i, r)" by (cases x)
    then show ?thesis using stop_success [OF reg0_ok, of key i r] Inr was by (auto simp: stop_previous_def)
  qed
qed

lemma stopped:
  assumes key_ok: "key_ok reg0 key s" and stop: "stop_previous (was reg0 key s) key reg0 = Inr reg"
  shows "reg_ok reg" and "admin_at reg = (admin_at reg0)(key := None)" and "reg = None \<longleftrightarrow> reg0 = None"
proof -
  have "reg_ok reg \<and> admin_at reg = (admin_at reg0)(key := None) \<and> (reg = None \<longleftrightarrow> reg0 = None)"
  proof (cases "admin_at reg0 key")
    case None
    then show ?thesis using not_admin(3) [OF key_ok None] stop key_okD(1) [OF key_ok] by (auto simp: fun_eq_iff)
  next
    case (Some obj)
    then show ?thesis using admin(3,5) [OF key_ok Some] stop
      by (auto simp: admin_at_def fun_eq_iff monitored_at_def)
  qed
  then show "reg_ok reg" "admin_at reg = (admin_at reg0)(key := None)" "reg = None \<longleftrightarrow> reg0 = None" by simp_all
qed

lemma stop_never_fails: "key_ok reg0 key s \<Longrightarrow> stop_previous (was reg0 key s) key reg0 \<noteq> Inl e"
  using admin(5) [of reg0 key s] not_admin(3) [of reg0 key s] by (cases "admin_at reg0 key") auto

text \<open>From the entries after the stop, the restart of the previous object gives those before it.\<close>

lemma restarted:
  assumes key_ok: "key_ok reg0 key s" and stop: "stop_previous (was reg0 key s) key reg0 = Inr reg"
    and ok: "reg_ok reg'" and same: "monitored_at reg' = monitored_at reg" and none: "reg' = None \<longleftrightarrow> reg = None"
  shows "reg_ok (restart_previous (was reg0 key s) (previous reg0 key s) reg') \<and>
    monitored_at (restart_previous (was reg0 key s) (previous reg0 key s) reg') = monitored_at reg0"
proof (cases "admin_at reg0 key")
  case None
  then have "reg = reg0" using not_admin(3) [OF key_ok] stop by simp
  then show ?thesis
    using not_admin(2) [OF key_ok None] ok same by (simp add: restart_previous_def startMonitoring_def)
next
  case (Some obj)
  note a = admin [OF key_ok Some]
  let ?p = "previous reg0 key s"
  obtain r where r: "reg = Some r" "monitored_at (Some r) = (monitored_at reg0)(key := None)"
    using a(5) stop by auto
  have valid: "parsed_IsValid ?p" using a(1) by (rule parsed_enabled_valid)
  have free: "fst (startMonitoring ?p reg') = None"
    using startMonitoring_free [OF ok valid] none r same a(2) by simp
  then have "startMonitoring ?p reg' = (None, snd (startMonitoring ?p reg'))" by (metis prod.collapse)
  from startMonitoring_success [OF ok valid this] show ?thesis
    using a(1-4) r same by (auto simp: restart_previous_def fun_eq_iff)
qed

subsection \<open>The transactions\<close>

lemma startMonitoring_None: "startMonitoring p reg = (e, reg') \<Longrightarrow> reg' = None \<longleftrightarrow> reg = None"
  by (auto simp: startMonitoring_def StartEndpoint_def StartExternalEndpoint_def
      split: if_splits sum.splits option.splits)

lemma apply_start_failure:
  assumes tx: "inTransaction w (apply_start p) db (reg, False) = (Some e, db', reg', started)"
    and ok: "reg_ok reg" and valid: "parsed_IsValid p"
  defines "reg'' \<equiv> (if started then try_stop (parsed_Key p) reg' else reg')"
  shows "db' = db \<and> reg_ok reg'' \<and> monitored_at reg'' = monitored_at reg \<and> (reg'' = None \<longleftrightarrow> reg = None)"
proof -
  have db: "db' = db" using tx by (rule inTransaction_failure)
  consider "reg' = reg" "\<not> started" | "startMonitoring p reg = (None, reg')" "started = parsed_IsEnabled p"
    using tx by (auto simp: inTransaction_def apply_start_def dest: startMonitoring_failure
        split: if_splits sum.splits prod.splits option.splits)
  then show ?thesis
  proof cases
    case 1
    then show ?thesis using db ok by (simp add: reg''_def)
  next
    case 2
    show ?thesis
    proof (cases "parsed_IsEnabled p")
      case True
      have "reg'' = None \<longleftrightarrow> reg = None"
        using startMonitoring_None [OF 2(1)] by (auto simp: reg''_def try_stop_def StopEndpoint_def split: sum.splits option.splits)
      then show ?thesis using try_stop_started [OF ok valid True 2(1)] db 2(2) True by (simp add: reg''_def)
    next
      case False
      then show ?thesis using startMonitoring_success [OF ok valid 2(1)] 2(2) db ok by (simp add: reg''_def)
    qed
  qed
qed

lemma written_Inl: "written tb k r = (Inl e, db', m') \<longleftrightarrow> r = (Some e, db', m')"
  by (auto simp: written_def split: prod.splits option.splits)

lemma written_Inr: "written tb k r = (Inr x, db', m') \<longleftrightarrow> r = (None, db', m') \<and> x = the (map_of (db_table db' tb) k)"
  by (auto simp: written_def split: prod.splits option.splits)

lemma apply_start_success: "apply_start p (reg, b) = (None, reg', started) \<Longrightarrow> startMonitoring p reg = (None, reg')"
  by (auto simp: apply_start_def split: prod.splits option.splits)

lemma create_failure:
  assumes "CreateManagedEndpoint now row (apply_start p) db (reg, False) = (Inl e, db', reg', started)"
    and "reg_ok reg" and "parsed_IsValid p"
  shows "db' = db \<and> reg_ok (if started then try_stop (parsed_Key p) reg' else reg') \<and>
    monitored_at (if started then try_stop (parsed_Key p) reg' else reg') = monitored_at reg"
  using assms apply_start_failure [of _ p db reg e db' reg' started]
  by (simp add: CreateManagedEndpoint_def table_create_def written_Inl)

text \<open>The new rows of a successful rename: the other rows keep, and the new key was free.\<close>

lemma rename_success:
  assumes "RenameManagedEndpoint now row v rn f db m = (Inr new, db', m')"
  shows "\<exists>old. map_of (db_table db ManagedEndpointsTable) (rn_old_key rn) = Some old \<and> mgd_version old = v \<and>
    new = updated_row now row v old \<and> f m = (None, m') \<and>
    map_of (db_table db' ManagedEndpointsTable) =
      (map_of (db_table db ManagedEndpointsTable))(rn_old_key rn := None, mgd_key row \<mapsto> new)"
proof -
  have w: "rename_write now row v rn db = Inr db'" "f m = (None, m')"
    "new = the (map_of (db_table db' ManagedEndpointsTable) (mgd_key row))"
    using assms by (auto simp: RenameManagedEndpoint_def written_Inr inTransaction_success)
  obtain old where old: "map_of (db_table db ManagedEndpointsTable) (rn_old_key rn) = Some old" "mgd_version old = v"
    using w(1) by (auto simp: rename_write_def Let_def split: if_splits option.splits)
  have "db_table db' ManagedEndpointsTable =
      alist_put (mgd_key row) (updated_row now row v old) (alist_del (rn_old_key rn) (db_table db ManagedEndpointsTable))"
    using w(1) old by (auto simp: rename_write_def Let_def split: if_splits option.splits sum.splits)
  then show ?thesis using old w(2,3) by (auto simp: fun_eq_iff)
qed

lemma update_write_success:
  assumes "UpdateManagedEndpoint now row v f db m = (Inr new, db', m')"
  shows "\<exists>old. map_of (db_table db ManagedEndpointsTable) (mgd_key row) = Some old \<and> mgd_version old = v \<and>
    new = updated_row now row v old \<and> f m = (None, m') \<and>
    map_of (db_table db' ManagedEndpointsTable) = (map_of (db_table db ManagedEndpointsTable))(mgd_key row \<mapsto> new)"
  using table_update_success [OF assms [unfolded UpdateManagedEndpoint_def]] by (auto simp: fun_eq_iff)

lemma write_update_success:
  assumes "write_update se u key v row plan p db reg = (Inr new, db', reg', started)"
    and "\<not> up_renaming u \<longrightarrow> mgd_key row = key"
  shows "\<exists>old. map_of (db_table db ManagedEndpointsTable) key = Some old \<and> mgd_version old = v \<and>
    new = updated_row (se_now se) row v old \<and> startMonitoring p reg = (None, reg') \<and>
    map_of (db_table db' ManagedEndpointsTable) =
      (map_of (db_table db ManagedEndpointsTable))(key := None, mgd_key row \<mapsto> new)"
proof (cases "up_renaming u")
  case True
  from rename_success [OF assms(1) [unfolded write_update_def if_P [OF True]]]
  show ?thesis by (auto dest: apply_start_success)
next
  case False
  from update_write_success [OF assms(1) [unfolded write_update_def if_not_P [OF False]]] False assms(2)
  show ?thesis by (auto dest: apply_start_success)
qed

lemma write_update_failure:
  assumes "write_update se u key v row plan p db reg = (Inl e, db', reg', started)"
    and "reg_ok reg" and "parsed_IsValid p"
  shows "db' = db \<and> reg_ok (if started then try_stop (parsed_Key p) reg' else reg') \<and>
    monitored_at (if started then try_stop (parsed_Key p) reg' else reg') = monitored_at reg \<and>
    ((if started then try_stop (parsed_Key p) reg' else reg') = None \<longleftrightarrow> reg = None)"
proof -
  have "\<exists>w. inTransaction w (apply_start p) db (reg, False) = (Some e, db', reg', started)"
    using assms(1) by (auto simp: write_update_def RenameManagedEndpoint_def UpdateManagedEndpoint_def table_update_def
        written_Inl split: if_splits)
  then show ?thesis using apply_start_failure [OF _ assms(2,3)] by blast
qed

subsection \<open>What a change leaves\<close>

definition unchanged :: "'p service_state \<Rightarrow> 'p service_state \<Rightarrow> bool" where
  "unchanged sv sv' \<longleftrightarrow>
     sv_states sv' = sv_states sv \<and>
     same_tables (mo_store (sv_monitor sv)) (mo_store (sv_monitor sv')) \<and>
     monitored_at (mo_registry (sv_monitor sv')) = monitored_at (mo_registry (sv_monitor sv)) \<and>
     sv_deleted_metrics sv' = sv_deleted_metrics sv \<and> sv_forgotten sv' = sv_forgotten sv"

text \<open>The state of the old key is replaced by one of the new key, in the snapshot, the table and the monitoring.\<close>

definition replaced :: "string \<Rightarrow> managed_state \<Rightarrow> 'p service_state \<Rightarrow> 'p service_state \<Rightarrow> bool" where
  "replaced key s' sv sv' \<longleftrightarrow>
     (let rows = (\<lambda>sv. map_of (db_table (mo_store (sv_monitor sv)) ManagedEndpointsTable));
          reg = mo_registry (sv_monitor sv); reg' = mo_registry (sv_monitor sv'); newKey = mgd_key (ms_stored s')
      in sv_states sv' = replaceState key s' (sv_states sv) \<and>
         rows sv' = (rows sv)(key := None, newKey \<mapsto> ms_stored s') \<and>
         reg_ok reg' \<and>
         admin_at reg' = (if parsed_IsEnabled (ms_parsed s')
                          then (admin_at reg)(key := None, newKey \<mapsto> me_object (entry_of (ms_parsed s')))
                          else (admin_at reg)(key := None)))"

lemma unchanged_refl [simp]: "unchanged sv sv"
  by (simp add: unchanged_def)

lemma admin_at_cong: "monitored_at reg = monitored_at reg' \<Longrightarrow> admin_at reg = admin_at reg'"
  by (simp add: admin_at_def fun_eq_iff)

lemma unchanged_inv:
  assumes "service_inv sv" and "unchanged sv sv'" and "reg_ok (mo_registry (sv_monitor sv'))"
  shows "service_inv sv'"
  using assms admin_at_cong [of "mo_registry (sv_monitor sv')" "mo_registry (sv_monitor sv)"]
  by (simp add: service_inv_def Let_def unchanged_def same_tables_def)

text \<open>The new state: valid, its key its own or free, its token used by no other endpoint.\<close>

definition fits :: "string \<Rightarrow> managed_state \<Rightarrow> snapshot \<Rightarrow> bool" where
  "fits key s' snap \<longleftrightarrow>
     state_ok (mgd_key (ms_stored s')) s' \<and>
     (mgd_key (ms_stored s') \<noteq> key \<longrightarrow> map_of snap (mgd_key (ms_stored s')) = None) \<and>
     (parsed_ReceivesPush (ms_parsed s') \<longrightarrow> parsed_PushToken (ms_parsed s') \<noteq> [] \<longrightarrow>
        (\<forall>k s. map_of snap k = Some s \<longrightarrow> k \<noteq> key \<longrightarrow> parsed_ReceivesPush (ms_parsed s) \<longrightarrow>
           parsed_PushToken (ms_parsed s) \<noteq> parsed_PushToken (ms_parsed s')))"

lemma tokens_unique_put:
  assumes "tokens_unique snap" and "fits key s' snap"
  shows "tokens_unique (alist_put (mgd_key (ms_stored s')) s' (alist_del key snap))"
  using assms unfolding tokens_unique_def fits_def
  by (simp add: if_split_eq1 split: if_splits) metis

lemma replaced_inv:
  assumes inv: "service_inv sv" and rep: "replaced key s' sv sv'"
    and fit: "fits key s' (current_states (sv_states sv))"
  shows "service_inv sv'"
proof -
  note I = service_invD [OF inv]
  let ?snap = "current_states (sv_states sv)" and ?new = "mgd_key (ms_stored s')"
  let ?snap' = "alist_put ?new s' (alist_del key ?snap)"
  have g: "sv_states sv' = publish_states ?snap' (sv_states sv)"
    using rep by (simp add: replaced_def Let_def replaceState_def)
  have snap: "current_states (sv_states sv') = ?snap'" "mg_index (sv_states sv') = Some (newPushIndex ?snap')"
    by (simp_all add: g publish_states_def current_states_def)
  have dist: "distinct (map fst ?snap')" using I(1) by (simp add: alist_del_def)
  have ok: "state_ok k s" if "map_of ?snap' k = Some s" for k s
    using that fit I(3) by (auto simp: fits_def split: if_splits)
  have rows: "map_of (db_table (mo_store (sv_monitor sv')) ManagedEndpointsTable) k = map_option ms_stored (map_of ?snap' k)" for k
    using rep I(4) by (auto simp: replaced_def Let_def)
  have reg: "reg_ok (mo_registry (sv_monitor sv'))" using rep by (simp add: replaced_def Let_def)
  let ?at = "admin_at (mo_registry (sv_monitor sv))"
  have at: "admin_at (mo_registry (sv_monitor sv')) k =
      (if k = ?new \<and> parsed_IsEnabled (ms_parsed s') then Some (me_object (entry_of (ms_parsed s')))
       else if k = key then None else ?at k)" for k
    using rep by (simp add: replaced_def Let_def)
  have free: "?new \<noteq> key \<Longrightarrow> ?at ?new = None"
    using I(6) [of ?new] fit by (simp add: fits_def monitors_at_def)
  have mon: "monitors_at (admin_at (mo_registry (sv_monitor sv')) k) (map_of ?snap' k)" for k
  proof (cases "k = ?new")
    case True
    then show ?thesis using free same_object_entry [of "ms_parsed s'"] by (simp add: at monitors_at_def)
  next
    case False
    then show ?thesis using I(6) [of k] by (simp add: at monitors_at_def)
  qed
  show ?thesis
    using dist ok rows reg mon tokens_unique_put [OF I(7) fit] by (simp add: service_inv_def Let_def snap)
qed

subsection \<open>The outcome of an update\<close>

lemma receives_valid: "parsed_ReceivesPush p \<Longrightarrow> parsed_IsValid p"
  by (auto simp: parsed_ReceivesPush_def parsed_IsValid_def)

lemma key_ne: "parsed_IsValid p \<Longrightarrow> parsed_Key p \<noteq> []"
  by (auto simp: parsed_selectors ee_Key_def ep_Key_def ConvertGroupAndNameToKey_def split: option.split)

lemma managed_listed:
  assumes "service_inv sv" and "map_of (current_states (sv_states sv)) k = Some s"
  shows "s \<in> set (managed_List (sv_states sv))" and "mgd_key (ms_stored s) = k" and "k \<in> set (managed_Keys (sv_states sv))"
proof -
  show "mgd_key (ms_stored s) = k" using service_invD(3) [OF assms] by (simp add: state_ok_def)
  moreover show "s \<in> set (managed_List (sv_states sv))"
    using map_of_SomeD [OF assms(2)] by (force simp: managed_List_def)
  ultimately show "k \<in> set (managed_Keys (sv_states sv))" by (force simp: managed_Keys_def)
qed

lemma prepared_fits:
  assumes inv: "service_inv sv" and prep: "service_prepare se (sv_states sv) raw key = Inr pr"
    and same: "same_target p (pr_parsed pr)" and stored: "mgd_key stored = parsed_Key (pr_parsed pr)"
  shows "fits key (newStateFromPrepared stored (pr'\<lparr>pr_parsed := p\<rparr>) effective) (current_states (sv_states sv))"
    and "key = [] \<Longrightarrow>
      fits (mgd_key stored) (newStateFromPrepared stored (pr'\<lparr>pr_parsed := p\<rparr>) effective) (current_states (sv_states sv)) \<and>
      map_of (current_states (sv_states sv)) (mgd_key stored) = None"
proof -
  let ?g = "sv_states sv" and ?new = "parsed_Key (pr_parsed pr)"
  obtain d ctx where P: "Prepare (se_yaml se) d ctx = Inr pr"
    "px_managed_keys ctx = (if key = [] then managed_Keys ?g else keysExcept (managed_Keys ?g) key)"
    "px_push_tokens ctx = service_pushTokens (px_config ctx) ?g key"
    using prep by (auto simp: service_prepare_def Let_def split: sum.splits if_splits)
  note ok = Prepare_ok [OF P(1)]
  have valid: "parsed_IsValid p" "parsed_Key p = ?new" using same ok(1) by (simp_all add: same_target_def)
  have free: "map_of (current_states ?g) ?new = None" if "?new \<noteq> key"
  proof (rule ccontr)
    assume "map_of (current_states ?g) ?new \<noteq> None"
    then obtain s where "map_of (current_states ?g) ?new = Some s" by blast
    from managed_listed(3) [OF inv this] show False using ok(3) P(2) that by (simp add: keysExcept_def split: if_splits)
  qed
  have token: "parsed_PushToken (ms_parsed s) \<noteq> parsed_PushToken p"
    if "parsed_ReceivesPush p" "parsed_PushToken p \<noteq> []" "map_of (current_states ?g) k = Some s" "k \<noteq> key" for k s
  proof
    assume "parsed_PushToken (ms_parsed s) = parsed_PushToken p"
    then have "managed_token ?g key (parsed_PushToken p)"
      using managed_listed(1,2) [OF inv that(3)] that(2,4) by (auto simp: managed_token_def list_ex_iff)
    then have "px_push_tokens ctx (parsed_PushToken p) \<noteq> None" by (simp add: P(3) service_pushTokens_def)
    then show False
      using ok(4) same that(1,2) by (auto simp: validatePushToken_def same_target_def Let_def split: if_splits option.splits)
  qed
  have other: "k \<noteq> key" if "key = []" "parsed_ReceivesPush (ms_parsed s)" "map_of (current_states ?g) k = Some s" for k s
    using service_invD(3) [OF inv that(3)] receives_valid [OF that(2)] key_ne that(1) by (auto simp: state_ok_def)
  show "fits key (newStateFromPrepared stored (pr'\<lparr>pr_parsed := p\<rparr>) effective) (current_states ?g)"
    using valid free token stored
    by (auto simp: fits_def newStateFromPrepared_def state_ok_def state_InConflict_def)
  show "fits (mgd_key stored) (newStateFromPrepared stored (pr'\<lparr>pr_parsed := p\<rparr>) effective) (current_states ?g) \<and>
      map_of (current_states ?g) (mgd_key stored) = None" if "key = []"
    using valid free token other stored key_ne [OF ok(1)] that
    by (auto simp: fits_def newStateFromPrepared_def state_ok_def state_InConflict_def)
qed

lemma check_update_ok:
  assumes "check_update se g key raw v = Inr u"
  shows "managed_Get key g = Some (up_state u)" and "mgd_version (ms_stored (up_state u)) = v"
    and "service_prepare se g raw key = Inr (up_prepared u)"
    and "\<not> up_renaming u \<longrightarrow> parsed_Key (pr_parsed (up_prepared u)) = key"
  using assms
  by (auto simp: check_update_def managedState_def Let_def split: sum.splits if_splits option.splits)

text \<open>The new row of an update, before the store sets its version and times.\<close>

definition update_input :: "update_plan \<Rightarrow> string \<Rightarrow> managed_row" where
  "update_input u author =
     \<lparr>mgd_key = parsed_Key (pr_parsed (up_prepared u)), mgd_definition = pr_definition (up_prepared u),
      mgd_version = 0, mgd_created_at = zero_time, mgd_updated_at = zero_time, mgd_updated_by = author\<rparr>"

definition answers :: "'p service_env \<Rightarrow> managed_state \<Rightarrow> service_error + detail \<Rightarrow> bool" where
  "answers se s res \<longleftrightarrow>
     (case adminDetail (se_yaml se) (se_url se) s of
        Inl e \<Rightarrow> res = Inl e
      | Inr d \<Rightarrow> (\<exists>pages. res = Inr (d\<lparr>dt_affected_pages := pages\<rparr>)))"

definition update_outcome ::
    "'p service_env \<Rightarrow> update_plan \<Rightarrow> string \<Rightarrow> int \<Rightarrow> string \<Rightarrow> service_error + detail \<Rightarrow> 'p service_state \<Rightarrow>
     'p service_state \<Rightarrow> bool" where
  "update_outcome se u key v author res sv sv' \<longleftrightarrow>
     (\<exists>p. same_target p (pr_parsed (up_prepared u)) \<and>
        (let s = newStateFromPrepared (updated_row (se_now se) (update_input u author) v (ms_stored (up_state u)))
               ((up_prepared u)\<lparr>pr_parsed := p\<rparr>) (up_effective u)
         in answers se s res \<and> replaced key s sv sv'))"

lemma finish_update_answers:
  "answers se (newStateFromPrepared stored ((up_prepared u)\<lparr>pr_parsed := p\<rparr>) (up_effective u))
     (fst (finish_update se u key stored plan p sv))"
proof -
  have same: "\<exists>pages. d = d\<lparr>dt_affected_pages := pages\<rparr>" for d :: detail
    by (rule exI [of _ "dt_affected_pages d"]) simp
  show ?thesis
    by (auto simp: answers_def finish_update_def Let_def same split: sum.split option.split)
qed

lemma finish_update_state:
  "sv_states (snd (finish_update se u key stored plan p sv)) =
     replaceState key (newStateFromPrepared stored ((up_prepared u)\<lparr>pr_parsed := p\<rparr>) (up_effective u)) (sv_states sv)"
  "mo_store (sv_monitor (snd (finish_update se u key stored plan p sv))) = mo_store (sv_monitor sv)"
  "mo_registry (sv_monitor (snd (finish_update se u key stored plan p sv))) = mo_registry (sv_monitor sv)"
  by (simp_all add: finish_update_def Let_def ForgetExternalEndpoint_def)

lemma apply_update_cases:
  assumes inv: "service_inv sv" and check: "check_update se (sv_states sv) key raw v = Inr u"
    and run: "apply_update se u key v author sv = (res, sv')"
  shows "isl res \<and> unchanged sv sv' \<and> reg_ok (mo_registry (sv_monitor sv')) \<or> update_outcome se u key v author res sv sv'"
proof -
  note C = check_update_ok [OF check]
  let ?s = "up_state u" and ?mon = "sv_monitor sv"
  let ?reg0 = "mo_registry ?mon"
  have at: "map_of (current_states (sv_states sv)) key = Some ?s"
    using C(1) by (simp add: managed_Get_def)
  have key_ok: "key_ok ?reg0 key ?s"
    using service_invD(3) [OF inv at] service_invD(5) [OF inv] service_invD(6) [OF inv, of key]
    by (simp add: key_ok_def at)
  obtain reg where stop: "stop_previous (was ?reg0 key ?s) key ?reg0 = Inr reg"
    using stop_never_fails [OF key_ok] by (cases "stop_previous (was ?reg0 key ?s) key ?reg0") auto
  note S = stopped [OF key_ok stop] and R = restarted [OF key_ok stop]
  obtain p db where alerts: "update_alerts se u (previous ?reg0 key ?s) (mo_store ?mon) = (p, db)" by fastforce
  have p: "same_target p (pr_parsed (up_prepared u))" "same_tables (mo_store ?mon) db"
    using update_alerts_target [OF alerts] by simp_all
  let ?new = "parsed_Key (pr_parsed (up_prepared u))"
  have valid: "parsed_IsValid p" "parsed_Key p = ?new"
    using p(1) C(3) Prepare_ok(1) by (auto simp: same_target_def service_prepare_def Let_def split: sum.splits if_splits)
  have app: "apply_update se u key v author sv =
     (case plan_rename se (up_renaming u \<and> \<not> state_InConflict ?s \<and> ?new \<noteq> key) key ?new author (sv_pages sv) of
        Inl e \<Rightarrow> (Inl e, sv\<lparr>sv_monitor := ?mon\<lparr>mo_store := db,
          mo_registry := restart_previous (was ?reg0 key ?s) (previous ?reg0 key ?s) reg\<rparr>\<rparr>)
      | Inr (plan, pages) \<Rightarrow>
          (let (res, db', reg', started) = write_update se u key v (update_input u author) plan p db reg
           in case res of
                Inl e \<Rightarrow>
                  (Inl (change_error e),
                   sv\<lparr>sv_monitor := ?mon\<lparr>mo_store := db', mo_registry :=
                        restart_previous (was ?reg0 key ?s) (previous ?reg0 key ?s)
                          (if started then try_stop ?new reg' else reg')\<rparr>,
                      sv_pages := discard_plan se plan pages\<rparr>)
              | Inr stored \<Rightarrow>
                  finish_update se u key stored plan p
                    (sv\<lparr>sv_monitor := ?mon\<lparr>mo_store := db', mo_registry := reg'\<rparr>, sv_pages := pages\<rparr>)))"
    unfolding apply_update_def previous_def was_def update_input_def Let_def
    by (simp add: stop [unfolded previous_def was_def] alerts [unfolded previous_def])
  show ?thesis
  proof (cases "plan_rename se (up_renaming u \<and> \<not> state_InConflict ?s \<and> ?new \<noteq> key) key ?new author (sv_pages sv)")
    case (Inl e)
    then show ?thesis using run R [OF S(1)] p(2) by (auto simp: app unchanged_def)
  next
    case (Inr x)
    obtain plan pages where x: "x = (plan, pages)" by (cases x)
    obtain wr db' reg' started where w: "write_update se u key v (update_input u author) plan p db reg = (wr, db', reg', started)"
      by (metis prod_cases4)
    show ?thesis
    proof (cases wr)
      case (Inl e)
      note F = write_update_failure [OF w [unfolded Inl] S(1) valid(1), unfolded valid(2)]
      then show ?thesis
        using run R [of "if started then try_stop ?new reg' else reg'"] p(2)
        by (simp add: app \<open>plan_rename _ _ _ _ _ _ = Inr x\<close> x w Inl unchanged_def) fastforce
    next
      case (Inr stored)
      have row: "mgd_key (update_input u author) = ?new" by (simp add: update_input_def)
      obtain old where U: "map_of (db_table db ManagedEndpointsTable) key = Some old" "mgd_version old = v"
          "stored = updated_row (se_now se) (update_input u author) v old" "startMonitoring p reg = (None, reg')"
          "map_of (db_table db' ManagedEndpointsTable) =
             (map_of (db_table db ManagedEndpointsTable))(key := None, ?new \<mapsto> stored)"
        using write_update_success [OF w [unfolded Inr]] C(4) row by auto
      have old: "old = ms_stored ?s" and db: "db_table db = db_table (mo_store ?mon)"
        using U(1) p(2) service_invD(4) [OF inv, of key] by (simp_all add: same_tables_def at)
      note M = startMonitoring_success [OF S(1) valid(1) U(4)]
      have fin: "(res, sv') = finish_update se u key stored plan p
          (sv\<lparr>sv_monitor := ?mon\<lparr>mo_store := db', mo_registry := reg'\<rparr>, sv_pages := pages\<rparr>)"
        using run by (simp add: app \<open>plan_rename _ _ _ _ _ _ = Inr x\<close> x w Inr)
      then have snd: "sv' = snd (finish_update se u key stored plan p
          (sv\<lparr>sv_monitor := ?mon\<lparr>mo_store := db', mo_registry := reg'\<rparr>, sv_pages := pages\<rparr>))"
        by (metis snd_conv)
      have ans: "answers se (newStateFromPrepared stored ((up_prepared u)\<lparr>pr_parsed := p\<rparr>) (up_effective u)) res"
        using finish_update_answers [of se stored p u key plan] fin by (metis fst_conv)
      have adm: "admin_at reg' = (if parsed_IsEnabled p then (admin_at reg)(?new \<mapsto> me_object (entry_of p)) else admin_at reg)"
        using M by (auto simp: admin_at_def fun_eq_iff valid(2) entry_of_def)
      have "replaced key (newStateFromPrepared stored ((up_prepared u)\<lparr>pr_parsed := p\<rparr>) (up_effective u)) sv sv'"
        using M U(5) S(2) adm row
        by (simp add: replaced_def Let_def snd finish_update_state newStateFromPrepared_def U(3) updated_row_def db)
      then show ?thesis using p(1) ans by (auto simp: update_outcome_def Let_def U(3) old)
    qed
  qed
qed

lemma service_update_cases:
  assumes "service_inv sv" and "service_update se key raw v author sv = (res, sv')"
  shows "isl res \<and> unchanged sv sv' \<and> reg_ok (mo_registry (sv_monitor sv')) \<or>
    (\<exists>u. check_update se (sv_states sv) key raw v = Inr u \<and> update_outcome se u key v author res sv sv')"
proof (cases "check_update se (sv_states sv) key raw v")
  case (Inl e)
  then show ?thesis using assms service_invD(5) [OF assms(1)] by (auto simp: service_update_def)
next
  case (Inr u)
  then show ?thesis using apply_update_cases [OF assms(1) Inr, of author res sv'] assms(2) by (simp add: service_update_def)
qed

lemma service_update_inv:
  assumes inv: "service_inv sv" and run: "service_update se key raw v author sv = (res, sv')"
  shows "service_inv sv'"
  using service_update_cases [OF inv run]
proof
  assume "isl res \<and> unchanged sv sv' \<and> reg_ok (mo_registry (sv_monitor sv'))"
  then show ?thesis using unchanged_inv [OF inv] by blast
next
  assume "\<exists>u. check_update se (sv_states sv) key raw v = Inr u \<and> update_outcome se u key v author res sv sv'"
  then obtain u p where u: "check_update se (sv_states sv) key raw v = Inr u" "same_target p (pr_parsed (up_prepared u))"
    "replaced key (newStateFromPrepared (updated_row (se_now se) (update_input u author) v (ms_stored (up_state u)))
       ((up_prepared u)\<lparr>pr_parsed := p\<rparr>) (up_effective u)) sv sv'"
    by (auto simp: update_outcome_def Let_def)
  show ?thesis
    by (rule replaced_inv [OF inv u(3)], rule prepared_fits(1) [OF inv check_update_ok(3) [OF u(1)] u(2)])
      (simp add: updated_row_def update_input_def)
qed

subsection \<open>Create\<close>

lemma create_success:
  assumes "CreateManagedEndpoint now row f db m = (Inr new, db', m')"
  shows "map_of (db_table db ManagedEndpointsTable) (mgd_key row) = None \<and>
    new = row\<lparr>mgd_version := 1, mgd_created_at := now, mgd_updated_at := now\<rparr> \<and> f m = (None, m') \<and>
    map_of (db_table db' ManagedEndpointsTable) = (map_of (db_table db ManagedEndpointsTable))(mgd_key row \<mapsto> new)"
  using table_create_success [OF assms [unfolded CreateManagedEndpoint_def]]
  by (auto simp: fun_eq_iff map_add_def split: option.split)

definition create_outcome :: "'p service_env \<Rightarrow> string \<Rightarrow> 'p service_state \<Rightarrow> 'p service_state \<Rightarrow> bool" where
  "create_outcome se author sv sv' \<longleftrightarrow>
     (\<exists>s. managed_Get (mgd_key (ms_stored s)) (sv_states sv) = None \<and>
        mgd_version (ms_stored s) = 1 \<and> mgd_created_at (ms_stored s) = se_now se \<and> mgd_updated_by (ms_stored s) = author \<and>
        fits (mgd_key (ms_stored s)) s (current_states (sv_states sv)) \<and>
        replaced (mgd_key (ms_stored s)) s sv sv')"

lemma service_create_cases:
  assumes inv: "service_inv sv" and run: "service_create se raw0 author generate sv = (res, sv')"
  shows "isl res \<and> unchanged sv sv' \<and> reg_ok (mo_registry (sv_monitor sv')) \<or> create_outcome se author sv sv'"
proof -
  note I = service_invD [OF inv]
  let ?mon = "sv_monitor sv" and ?g = "sv_states sv"
  have refused: "sv' = sv \<and> isl res \<Longrightarrow> ?thesis" using I(5) by simp
  show ?thesis
  proof (cases "\<exists>raw pr effective. (if generate then withGeneratedPushToken (se_yaml se) (se_random se) raw0 else Inr raw0) = Inr raw \<and>
      service_prepare se ?g raw [] = Inr pr \<and> effectiveDefinition (se_yaml se) (pr_parsed pr) = Inr effective \<and>
      \<not> se_cycle se \<and> se_supported se")
    case False
    then have "sv' = sv \<and> isl res"
      using run by (auto simp: service_create_def Let_def split: sum.splits if_splits)
    then show ?thesis by (rule refused)
  next
    case True
    then obtain raw pr effective where C:
      "(if generate then withGeneratedPushToken (se_yaml se) (se_random se) raw0 else Inr raw0) = Inr raw"
      "service_prepare se ?g raw [] = Inr pr" "effectiveDefinition (se_yaml se) (pr_parsed pr) = Inr effective"
      "\<not> se_cycle se" "se_supported se" by blast
    let ?new = "parsed_Key (pr_parsed pr)"
    let ?row = "\<lparr>mgd_key = ?new, mgd_definition = pr_definition pr, mgd_version = 0, mgd_created_at = zero_time,
      mgd_updated_at = zero_time, mgd_updated_by = author\<rparr>"
    obtain p db where alerts: "restoreTriggeredAlerts (db_ops (se_sha se)) (se_sha se) (pr_parsed pr) (mo_store ?mon) = (p, db)"
      by fastforce
    note P = restoreTriggeredAlerts_target [OF alerts]
    have valid: "parsed_IsValid p" "parsed_Key p = ?new"
      using P C(2) Prepare_ok(1) by (auto simp: same_target_def service_prepare_def Let_def split: sum.splits if_splits)
    obtain wr db' reg' started where w:
      "CreateManagedEndpoint (se_now se) ?row (apply_start p) db (mo_registry ?mon, False) = (wr, db', reg', started)"
      by (metis prod_cases4)
    have app: "(res, sv') = (case wr of
        Inl e \<Rightarrow> (Inl (change_error e), sv\<lparr>sv_monitor := ?mon\<lparr>mo_store := db',
                    mo_registry := (if started then try_stop ?new reg' else reg')\<rparr>\<rparr>)
      | Inr stored \<Rightarrow>
          (adminDetail (se_yaml se) (se_url se) (newStateFromPrepared stored (pr\<lparr>pr_parsed := p\<rparr>) effective),
           sv\<lparr>sv_states := putState (newStateFromPrepared stored (pr\<lparr>pr_parsed := p\<rparr>) effective) ?g,
              sv_monitor := ?mon\<lparr>mo_store := db', mo_registry := reg'\<rparr>\<rparr>))"
      using run [symmetric] unfolding service_create_def Let_def
      by (simp add: C alerts w split del: if_split)
    show ?thesis
    proof (cases wr)
      case (Inl e)
      then show ?thesis using app P create_failure [OF w [unfolded Inl] I(5) valid(1)]
        by (auto simp: unchanged_def valid(2))
    next
      case (Inr stored)
      let ?s = "newStateFromPrepared stored (pr\<lparr>pr_parsed := p\<rparr>) effective"
      note U = create_success [OF w [unfolded Inr]]
      have stored: "mgd_key stored = ?new" "ms_stored ?s = stored" "ms_parsed ?s = p"
        using U by (simp_all add: newStateFromPrepared_def)
      have free: "map_of (current_states ?g) ?new = None" and fit: "fits ?new ?s (current_states ?g)"
        using prepared_fits(2) [OF inv C(2) conjunct1 [OF P] stored(1), of pr effective] stored(1) by simp_all
      have start: "startMonitoring p (mo_registry ?mon) = (None, reg')"
        using U by (auto dest: apply_start_success)
      note M = startMonitoring_success [OF I(5) valid(1) start]
      have adm: "admin_at reg' = (if parsed_IsEnabled p then (admin_at (mo_registry ?mon))(?new \<mapsto> me_object (entry_of p))
          else admin_at (mo_registry ?mon))"
        using M by (auto simp: admin_at_def fun_eq_iff valid(2) entry_of_def)
      have gone: "admin_at (mo_registry ?mon) ?new = None" using I(6) [of ?new] free by (simp add: monitors_at_def)
      have "replaced ?new ?s sv sv'"
        using app M U adm gone P stored by (auto simp: replaced_def Let_def Inr putState_def same_tables_def fun_eq_iff)
      then show ?thesis using free fit U stored
        by (auto simp: create_outcome_def managed_Get_def intro!: exI [where x = ?s])
    qed
  qed
qed

lemma service_create_inv:
  assumes inv: "service_inv sv" and run: "service_create se raw author generate sv = (res, sv')"
  shows "service_inv sv'"
  using service_create_cases [OF inv run] unchanged_inv [OF inv] replaced_inv [OF inv]
  by (auto simp: create_outcome_def)

subsection \<open>Delete\<close>

definition delete_outcome :: "string \<Rightarrow> int \<Rightarrow> 'p service_state \<Rightarrow> 'p service_state \<Rightarrow> bool" where
  "delete_outcome key v sv sv' \<longleftrightarrow>
     (let rows = (\<lambda>sv. map_of (db_table (mo_store (sv_monitor sv)) ManagedEndpointsTable));
          reg = mo_registry (sv_monitor sv); reg' = mo_registry (sv_monitor sv')
      in (\<exists>s. managed_Get key (sv_states sv) = Some s \<and> mgd_version (ms_stored s) = v) \<and>
         sv_states sv' = removeState key (sv_states sv) \<and>
         rows sv' = (rows sv)(key := None) \<and>
         reg_ok reg' \<and> admin_at reg' = (admin_at reg)(key := None))"

lemma delete_success:
  assumes "DeleteManagedEndpoint key v data f db m = (None, db', m')"
  shows "\<exists>old. map_of (db_table db ManagedEndpointsTable) key = Some old \<and> mgd_version old = v \<and>
    map_of (db_table db' ManagedEndpointsTable) = (map_of (db_table db ManagedEndpointsTable))(key := None)"
  using assms
  by (auto simp: DeleteManagedEndpoint_def inTransaction_success delete_write_def on_table_def delete_row_def
      split: sum.splits option.splits if_splits)

lemma conflict_not_monitored: "key_ok reg0 key s \<Longrightarrow> (\<not> state_InConflict s \<and> was reg0 key s) = was reg0 key s"
proof (cases "admin_at reg0 key")
  case None
  assume k: "key_ok reg0 key s"
  show ?thesis using not_admin(1) [OF k None] key_okD(2) [OF k] by (auto simp: was_def state_ok_def)
next
  case (Some obj)
  assume k: "key_ok reg0 key s"
  have "parsed_IsEnabled (ms_parsed s)"
    using key_okD(3) [OF k] Some by (auto simp: monitors_at_def split: if_splits)
  then have "\<not> state_InConflict s" using key_okD(2) [OF k] parsed_enabled_valid by (auto simp: state_ok_def)
  then show ?thesis by simp
qed

lemma service_Delete_cases:
  assumes inv: "service_inv sv" and run: "service_Delete se key v sv = (res, sv')"
  shows "isl res \<and> unchanged sv sv' \<and> reg_ok (mo_registry (sv_monitor sv')) \<or>
    (\<exists>n. res = Inr n) \<and> delete_outcome key v sv sv'"
proof (cases "\<not> se_cycle se \<and> se_supported se \<and> (\<exists>s. managedState se key (sv_states sv) = Inr s \<and> mgd_version (ms_stored s) = v)")
  case False
  then show ?thesis using run service_invD(5) [OF inv]
    by (auto simp: service_Delete_def split: sum.splits if_splits)
next
  case True
  then obtain s where C: "\<not> se_cycle se" "se_supported se" "managedState se key (sv_states sv) = Inr s"
    "mgd_version (ms_stored s) = v" by blast
  let ?mon = "sv_monitor sv"
  let ?reg0 = "mo_registry ?mon"
  have at: "map_of (current_states (sv_states sv)) key = Some s"
    using C(3) by (auto simp: managedState_def managed_Get_def split: option.splits if_splits)
  have key_ok: "key_ok ?reg0 key s"
    using service_invD(3) [OF inv at] service_invD(5) [OF inv] service_invD(6) [OF inv, of key]
    by (simp add: key_ok_def at)
  obtain reg where stop: "stop_previous (was ?reg0 key s) key ?reg0 = Inr reg"
    using stop_never_fails [OF key_ok] by (cases "stop_previous (was ?reg0 key s) key ?reg0") auto
  note S = stopped [OF key_ok stop] and R = restarted [OF key_ok stop]
  obtain e db u where w: "DeleteManagedEndpoint key v (\<not> state_InConflict s)
      (no_apply :: unit \<Rightarrow> registry_error option \<times> unit) (mo_store ?mon) () = (e, db, u)"
    by (metis prod_cases3)
  have was: "(\<not> state_InConflict s \<and> parsed_IsValid (live_parsed key (ms_parsed s) ?reg0) \<and> IsEndpointMonitored key ?reg0) =
      was ?reg0 key s"
    using conflict_not_monitored [OF key_ok] by (simp add: was_def previous_def)
  have app: "(res, sv') = (case e of
      Some e' \<Rightarrow> (Inl (change_error e'), sv\<lparr>sv_monitor := ?mon\<lparr>mo_store := db,
        mo_registry := restart_previous (was ?reg0 key s) (previous ?reg0 key s) reg\<rparr>\<rparr>)
    | None \<Rightarrow> (Inr (if state_InConflict s then 0 else length (filter triggered (parsed_alerts (previous ?reg0 key s)))),
        sv\<lparr>sv_deleted_metrics := (if state_InConflict s then sv_deleted_metrics sv else sv_deleted_metrics sv @ [key]),
           sv_states := removeState key (sv_states sv),
           sv_monitor := ForgetExternalEndpoint key (?mon\<lparr>mo_store := db, mo_registry := reg\<rparr>),
           sv_forgotten := sv_forgotten sv @ [key]\<rparr>))"
    using run [symmetric] unfolding service_Delete_def Let_def
    by (cases e) (simp_all add: C was stop w previous_def)
  show ?thesis
  proof (cases e)
    case (Some e')
    have "db = mo_store ?mon" using inTransaction_failure [OF w [unfolded DeleteManagedEndpoint_def Some]] .
    then show ?thesis using app R [OF S(1)] by (simp add: Some unchanged_def)
  next
    case None
    then show ?thesis using app S delete_success [OF w [unfolded None]] C(4) at
      by (auto simp: delete_outcome_def Let_def managed_Get_def ForgetExternalEndpoint_def)
  qed
qed

lemma delete_inv:
  assumes inv: "service_inv sv" and del: "delete_outcome key v sv sv'"
  shows "service_inv sv'"
proof -
  note I = service_invD [OF inv]
  let ?snap = "current_states (sv_states sv)"
  have snap: "current_states (sv_states sv') = alist_del key ?snap"
    "mg_index (sv_states sv') = Some (newPushIndex (alist_del key ?snap))"
    using del by (simp_all add: delete_outcome_def Let_def removeState_def publish_states_def current_states_def)
  have dist: "distinct (map fst (alist_del key ?snap))" using I(1) by (simp add: alist_del_def)
  have mon: "monitors_at (admin_at (mo_registry (sv_monitor sv')) k) (((map_of ?snap)(key := None)) k)" for k
    using del I(6) [of k] by (auto simp: delete_outcome_def Let_def monitors_at_def)
  have "tokens_unique (alist_del key ?snap)"
    using I(7) unfolding tokens_unique_def by (auto split: if_splits)
  moreover have "state_ok k s" if "map_of (alist_del key ?snap) k = Some s" for k s
    using that I(3) by (auto split: if_splits)
  moreover have "map_of (db_table (mo_store (sv_monitor sv')) ManagedEndpointsTable) k =
      map_option ms_stored (map_of (alist_del key ?snap) k)" for k
    using del I(4) [of k] by (simp add: delete_outcome_def Let_def)
  moreover have "reg_ok (mo_registry (sv_monitor sv'))" using del by (simp add: delete_outcome_def Let_def)
  ultimately show ?thesis using dist mon by (simp add: service_inv_def Let_def snap)
qed

subsection \<open>Runs\<close>

datatype service_op =
    CreateOp string string
  | RestoreOp string string
  | UpdateOp string string int string
  | EnableOp string bool int string
  | DeleteOp string int

definition service_step :: "'p service_env \<Rightarrow> service_op \<Rightarrow> 'p service_state \<Rightarrow> 'p service_state" where
  "service_step se op sv =
     (case op of
        CreateOp raw author \<Rightarrow> snd (service_Create se raw author sv)
      | RestoreOp raw author \<Rightarrow> snd (service_RestoreCreate se raw author sv)
      | UpdateOp key raw v author \<Rightarrow> snd (service_Update se key raw v author sv)
      | EnableOp key enabled v author \<Rightarrow> snd (service_SetEnabled se key enabled v author sv)
      | DeleteOp key v \<Rightarrow> snd (service_Delete se key v sv))"

text \<open>Every operation with its own environment: time, faults of the participant, alerting and labels may change.\<close>

definition service_run :: "('p service_env \<times> service_op) list \<Rightarrow> 'p service_state \<Rightarrow> 'p service_state" where
  "service_run ops sv = fold (\<lambda>(se, op). service_step se op) ops sv"

lemma service_SetEnabled_cases:
  "service_SetEnabled se key enabled v author sv = (res, sv') \<Longrightarrow>
   isl res \<and> sv' = sv \<or> (\<exists>raw. service_update se key raw v author sv = (res, sv'))"
  by (auto simp: service_SetEnabled_def Let_def split: if_splits sum.splits)

lemma service_step_inv:
  assumes "service_inv sv"
  shows "service_inv (service_step se op sv)"
proof (cases op)
  case (CreateOp raw author)
  then show ?thesis
    using service_create_inv [OF assms, of se raw author True] by (simp add: service_step_def service_Create_def)
      (metis prod.collapse)
next
  case (RestoreOp raw author)
  then show ?thesis
    using service_create_inv [OF assms, of se raw author False]
    by (simp add: service_step_def service_RestoreCreate_def) (metis prod.collapse)
next
  case (UpdateOp key raw v author)
  then show ?thesis
    using service_update_inv [OF assms, of se key raw v author] assms
    by (simp add: service_step_def service_Update_def) (metis prod.collapse)
next
  case (EnableOp key enabled v author)
  obtain res sv' where r: "service_SetEnabled se key enabled v author sv = (res, sv')" by fastforce
  show ?thesis
    using service_SetEnabled_cases [OF r] service_update_inv [OF assms] assms by (auto simp: EnableOp service_step_def r)
next
  case (DeleteOp key v)
  obtain res sv' where r: "service_Delete se key v sv = (res, sv')" by fastforce
  show ?thesis
    using service_Delete_cases [OF assms r] unchanged_inv [OF assms] delete_inv [OF assms]
    by (auto simp: DeleteOp service_step_def r)
qed

lemma service_run_inv: "service_inv sv \<Longrightarrow> service_inv (service_run ops sv)"
  by (induction ops arbitrary: sv) (auto simp: service_run_def service_step_inv)

end
