(* ===== verification/PushKeys.thy ===== *)
theory PushKeys
  imports ManagedStore PushTokens "HOL-Library.Multiset"
begin

text \<open>
  The global push keys (\<^verbatim>\<open>internal/pushkey\<close>: \<^verbatim>\<open>pushkey.go\<close>, \<^verbatim>\<open>restore.go\<close>): the keys of the configuration file and
  those created through the administration, whose tokens are only stored as hashes. The snapshot is replaced by
  every change; a change holds the mutex, so that it is one step on the snapshot and the database.

  The hash (SHA-256 in the code) is a parameter that gives the bytes; \<open>HashSize\<close> is their number.
\<close>

subsection \<open>Hexadecimal text\<close>

definition HashSize :: nat where "HashSize = 32"

definition hex_digit :: "nat \<Rightarrow> char" where
  "hex_digit n = (if n < 10 then char_of (48 + n) else char_of (87 + n))"

definition hex_number :: "char \<Rightarrow> nat option" where
  "hex_number c =
     (let n = of_char c :: nat
      in if 48 \<le> n \<and> n \<le> 57 then Some (n - 48)
         else if 97 \<le> n \<and> n \<le> 102 then Some (n - 87)
         else if 65 \<le> n \<and> n \<le> 70 then Some (n - 55)
         else None)"

fun EncodeToString :: "string \<Rightarrow> string" where
  "EncodeToString [] = []"
| "EncodeToString (c # s) = hex_digit (of_char c div 16) # hex_digit (of_char c mod 16) # EncodeToString s"

fun DecodeString :: "string \<Rightarrow> string option" where
  "DecodeString [] = Some []"
| "DecodeString [c] = None"
| "DecodeString (a # b # s) =
     (case (hex_number a, hex_number b) of
        (Some x, Some y) \<Rightarrow> map_option (Cons (char_of (16 * x + y))) (DecodeString s)
      | _ \<Rightarrow> None)"

subsection \<open>The snapshot\<close>

datatype key_origin = OriginConfig | OriginAdmin

record key_view =
  kv_id :: int
  kv_name :: string
  kv_hint :: string
  kv_origin :: key_origin
  kv_created_at :: "time option"
  kv_created_by :: string

text \<open>\<open>pks_hashes\<close> maps the hash of a token to the name of its key.\<close>

record key_snapshot =
  pks_config :: "key_view list"
  pks_managed :: "key_view list"
  pks_hashes :: "string \<Rightarrow> string option"
  pks_managed_hashes :: "int \<Rightarrow> string option"
  pks_unavailable :: bool

datatype push_key_error =
    PushKeyCycleInProgress
  | PushKeyNotSupported
  | PushKeyNameInUse string
  | PushKeyNotFound
  | PushKeyInvalidName
  | PushKeyInvalidRestored
  | PushKeyHashInUse
  | PushKeyRandomness
  | PushKeyStorage managed_store_error

definition empty_keys :: key_snapshot where
  "empty_keys =
     \<lparr>pks_config = [], pks_managed = [], pks_hashes = (\<lambda>_. None), pks_managed_hashes = (\<lambda>_. None),
      pks_unavailable = False\<rparr>"

definition managed_key_view :: "push_key_row \<Rightarrow> key_view" where
  "managed_key_view stored =
     \<lparr>kv_id = pkr_id stored, kv_name = pkr_name stored, kv_hint = pkr_hint stored, kv_origin = OriginAdmin,
      kv_created_at = Some (pkr_created_at stored), kv_created_by = pkr_created_by stored\<rparr>"

definition addManaged :: "push_key_row \<Rightarrow> string \<Rightarrow> key_snapshot \<Rightarrow> key_snapshot" where
  "addManaged stored hash snap =
     snap\<lparr>pks_managed := pks_managed snap @ [managed_key_view stored],
          pks_managed_hashes := (pks_managed_hashes snap)(pkr_id stored \<mapsto> hash),
          pks_hashes := (pks_hashes snap)(hash \<mapsto> pkr_name stored)\<rparr>"

text \<open>The bodies of the two loops of \<open>Load\<close>.\<close>

definition add_config_key :: "push_key \<Rightarrow> key_snapshot \<Rightarrow> key_snapshot" where
  "add_config_key k snap =
     snap\<lparr>pks_config := pks_config snap @
            [\<lparr>kv_id = 0, kv_name = pk_name k, kv_hint = TokenHint (pk_token k), kv_origin = OriginConfig,
              kv_created_at = None, kv_created_by = []\<rparr>],
          pks_hashes := (pks_hashes snap)(pk_hash k \<mapsto> pk_name k)\<rparr>"

definition add_stored_key :: "push_key_row \<Rightarrow> key_snapshot \<Rightarrow> key_snapshot" where
  "add_stored_key stored snap =
     (case DecodeString (pkr_token_hash stored) of
        None \<Rightarrow> snap
      | Some hash \<Rightarrow> (if length hash \<noteq> HashSize then snap else addManaged stored hash snap))"

text \<open>\<open>supported\<close>: the storage has push keys.\<close>

definition pushkey_Load :: "push_key list \<Rightarrow> bool \<Rightarrow> managed_db \<Rightarrow> key_snapshot" where
  "pushkey_Load configKeys supported db =
     (let next = fold add_config_key configKeys empty_keys
      in if \<not> supported then next
         else case ListPushKeys db of
                None \<Rightarrow> next\<lparr>pks_unavailable := True\<rparr>
              | Some stored \<Rightarrow> fold add_stored_key stored next)"

text \<open>\<open>current\<close> is nil until the first load.\<close>

definition pushkey_Lookup :: "(string \<Rightarrow> string) \<Rightarrow> string \<Rightarrow> key_snapshot option \<Rightarrow> string option" where
  "pushkey_Lookup sha token current = Option.bind current (\<lambda>snap. pks_hashes snap (sha token))"

definition pushkey_List :: "key_snapshot option \<Rightarrow> bool \<times> key_view list" where
  "pushkey_List current =
     (case current of
        None \<Rightarrow> (False, [])
      | Some snap \<Rightarrow> (pks_unavailable snap, sort_key kv_name (pks_config snap) @ sort_key kv_name (pks_managed snap)))"

definition the_keys :: "key_snapshot option \<Rightarrow> key_snapshot" where
  "the_keys current = (case current of None \<Rightarrow> empty_keys | Some snap \<Rightarrow> snap)"

subsection \<open>Create and delete\<close>

text \<open>The environment: a cycle in progress, the support of the storage, the time, the hash, the random numbers.\<close>

record key_env =
  ke_cycle :: bool
  ke_supported :: bool
  ke_now :: time
  ke_sha :: "string \<Rightarrow> string"
  ke_random :: "nat \<Rightarrow> nat option"

record key_state =
  ks_current :: "key_snapshot option"
  ks_db :: managed_db

definition store_key_error :: "string \<Rightarrow> unit tx_error \<Rightarrow> push_key_error" where
  "store_key_error name e =
     (case e of
        StoreFailure ErrPushKeyAlreadyExists \<Rightarrow> PushKeyNameInUse name
      | StoreFailure s \<Rightarrow> PushKeyStorage s
      | ApplyFailure _ \<Rightarrow> PushKeyStorage DatabaseError)"

definition key_row :: "string \<Rightarrow> string \<Rightarrow> string \<Rightarrow> string \<Rightarrow> push_key_row" where
  "key_row name tokenHash hint author =
     \<lparr>pkr_id = 0, pkr_name = name, pkr_token_hash = tokenHash, pkr_hint = hint, pkr_created_at = zero_time,
      pkr_created_by = author\<rparr>"

text \<open>The write and the publication that \<open>Create\<close> and \<open>Restore\<close> share.\<close>

definition store_key ::
    "key_env \<Rightarrow> push_key_row \<Rightarrow> string \<Rightarrow> key_state \<Rightarrow> (push_key_error + key_view) \<times> key_state" where
  "store_key ke row hash st =
     (case CreatePushKey (ke_now ke) row no_apply (ks_db st) () of
        (Inl e, db, _) \<Rightarrow> (Inl (store_key_error (pkr_name row) e), st\<lparr>ks_db := db\<rparr>)
      | (Inr stored, db, _) \<Rightarrow>
          (Inr (managed_key_view stored),
           st\<lparr>ks_current := Some (addManaged stored hash (the_keys (ks_current st))), ks_db := db\<rparr>))"

definition name_in_use :: "string \<Rightarrow> key_snapshot option \<Rightarrow> bool" where
  "name_in_use name current \<longleftrightarrow>
     (case current of
        None \<Rightarrow> False
      | Some snap \<Rightarrow> list_ex (\<lambda>k. kv_name k = name) (pks_config snap @ pks_managed snap))"

definition pushkey_Create ::
    "key_env \<Rightarrow> string \<Rightarrow> string \<Rightarrow> key_state \<Rightarrow> (push_key_error + key_view \<times> string) \<times> key_state" where
  "pushkey_Create ke name0 author st =
     (let name = trim_space name0
      in if ke_cycle ke then (Inl PushKeyCycleInProgress, st)
         else if \<not> valid_key_name name then (Inl PushKeyInvalidName, st)
         else if name_in_use name (ks_current st) then (Inl (PushKeyNameInUse name), st)
         else if \<not> ke_supported ke then (Inl PushKeyNotSupported, st)
         else case GenerateToken (ke_random ke) of
           None \<Rightarrow> (Inl PushKeyRandomness, st)
         | Some token \<Rightarrow>
             (let hash = ke_sha ke token;
                  (res, st') = store_key ke (key_row name (EncodeToString hash) (TokenHint token) author) hash st
              in (case res of Inl e \<Rightarrow> Inl e | Inr k \<Rightarrow> Inr (k, token), st')))"

text \<open>The last key of the loop with the identifier gives the name.\<close>

definition managed_name :: "int \<Rightarrow> key_snapshot option \<Rightarrow> string" where
  "managed_name i current =
     (case current of
        None \<Rightarrow> []
      | Some snap \<Rightarrow>
          fold (\<lambda>k name. if kv_id k = i then kv_name k else name) (pks_managed snap) [])"

text \<open>The snapshot after a deletion; \<open>snap\<close> is the one before. The last loop is meant to keep the keys of the file.\<close>

definition without_key :: "int \<Rightarrow> string \<Rightarrow> key_snapshot \<Rightarrow> key_snapshot" where
  "without_key i name snap =
     (let removed = (case pks_managed_hashes snap i of
                       None \<Rightarrow> snap
                     | Some hash \<Rightarrow>
                         snap\<lparr>pks_hashes := (pks_hashes snap)(hash := None),
                              pks_managed_hashes := (pks_managed_hashes snap)(i := None)\<rparr>)
      in removed\<lparr>pks_managed := filter (\<lambda>k. kv_id k \<noteq> i) (pks_managed snap),
                 pks_hashes := (\<lambda>h. if pks_hashes removed h = None \<and> pks_hashes snap h \<noteq> Some name
                                    then pks_hashes snap h else pks_hashes removed h)\<rparr>)"

definition pushkey_Delete :: "key_env \<Rightarrow> int \<Rightarrow> key_state \<Rightarrow> push_key_error option \<times> key_state" where
  "pushkey_Delete ke i st =
     (let name = managed_name i (ks_current st)
      in if ke_cycle ke then (Some PushKeyCycleInProgress, st)
         else if name = [] then (Some PushKeyNotFound, st)
         else if \<not> ke_supported ke then (Some PushKeyNotSupported, st)
         else case DeletePushKey i (no_apply :: unit \<Rightarrow> unit option \<times> unit) (ks_db st) () of
                (Some e, db, _) \<Rightarrow>
                  (Some (case e of
                           StoreFailure ErrPushKeyNotFound \<Rightarrow> PushKeyNotFound
                         | StoreFailure s \<Rightarrow> PushKeyStorage s
                         | ApplyFailure _ \<Rightarrow> PushKeyStorage DatabaseError), st\<lparr>ks_db := db\<rparr>)
              | (None, db, _) \<Rightarrow>
                  (None, st\<lparr>ks_current := Some (without_key i name (the_keys (ks_current st))), ks_db := db\<rparr>))"

subsection \<open>Restore\<close>

definition lower_hex :: "char \<Rightarrow> bool" where
  "lower_hex c \<longleftrightarrow> (let n = of_char c :: nat in 48 \<le> n \<and> n \<le> 57 \<or> 97 \<le> n \<and> n \<le> 102)"

definition ValidateRestoredKey :: "string \<Rightarrow> string \<Rightarrow> string \<Rightarrow> push_key_error + string" where
  "ValidateRestoredKey name tokenHash hint =
     (if \<not> valid_key_name name \<or> trim_space name \<noteq> name then Inl PushKeyInvalidRestored
      else if \<not> (length tokenHash = 64 \<and> list_all lower_hex tokenHash) then Inl PushKeyInvalidRestored
      else if \<not> (length hint \<le> 4 \<and> list_all is_token_char hint) then Inl PushKeyInvalidRestored
      else Inr (case DecodeString tokenHash of None \<Rightarrow> replicate HashSize (char_of (0 :: nat)) | Some h \<Rightarrow> h))"

text \<open>\<open>FindByName\<close>: the origin and whether the hash is the given one.\<close>

definition FindByName :: "string \<Rightarrow> string \<Rightarrow> key_snapshot option \<Rightarrow> (key_origin \<times> bool) option" where
  "FindByName name hash current =
     Option.bind current (\<lambda>snap.
       (if list_ex (\<lambda>k. kv_name k = name) (pks_config snap) then Some (OriginConfig, False)
        else map_option (\<lambda>k. (OriginAdmin, pks_managed_hashes snap (kv_id k) = Some hash))
               (find (\<lambda>k. kv_name k = name) (pks_managed snap))))"

definition IsHashInUse :: "string \<Rightarrow> key_snapshot option \<Rightarrow> bool" where
  "IsHashInUse hash current \<longleftrightarrow> Option.bind current (\<lambda>snap. pks_hashes snap hash) \<noteq> None"

definition pushkey_IsManagedUnavailable :: "key_snapshot option \<Rightarrow> bool" where
  "pushkey_IsManagedUnavailable current = (case current of None \<Rightarrow> False | Some snap \<Rightarrow> pks_unavailable snap)"

text \<open>\<open>isEndpointTokenHash\<close> is what the guard passes, while the tokens of the endpoints cannot change.\<close>

definition pushkey_Restore ::
    "key_env \<Rightarrow> string \<Rightarrow> string \<Rightarrow> string \<Rightarrow> string \<Rightarrow> (string \<Rightarrow> bool) \<Rightarrow> key_state \<Rightarrow>
     (push_key_error + key_view) \<times> key_state" where
  "pushkey_Restore ke name tokenHash hint author isEndpointTokenHash st =
     (case ValidateRestoredKey name tokenHash hint of
        Inl e \<Rightarrow> (Inl e, st)
      | Inr hash \<Rightarrow>
          (if ke_cycle ke then (Inl PushKeyCycleInProgress, st)
           else if \<not> ke_supported ke then (Inl PushKeyNotSupported, st)
           else if FindByName name hash (ks_current st) \<noteq> None then (Inl (PushKeyNameInUse name), st)
           else if IsHashInUse hash (ks_current st) \<or> isEndpointTokenHash hash then (Inl PushKeyHashInUse, st)
           else store_key ke (key_row name tokenHash hint author) hash st))"

section \<open>Facts\<close>

lemma hex_number_digit: "n < 16 \<Longrightarrow> hex_number (hex_digit n) = Some n"
  by (auto simp: hex_number_def hex_digit_def Let_def)

lemma Decode_Encode [simp]: "DecodeString (EncodeToString s) = Some s"
proof (induction s)
  case (Cons c s)
  have "of_char c div 16 < (16 :: nat)"
    using nat_of_char_less_256 [of c] by (simp add: less_mult_imp_div_less)
  with Cons show ?case by (simp add: hex_number_digit)
qed simp

lemma length_Encode [simp]: "length (EncodeToString s) = 2 * length s"
  by (induction s) auto

lemma Encode_inj: "EncodeToString s = EncodeToString t \<Longrightarrow> s = t"
  by (metis Decode_Encode option.inject)

lemma of_hex_number: "lower_hex c \<Longrightarrow> \<exists>n < 16. hex_number c = Some n \<and> hex_digit n = c"
  by (auto simp: lower_hex_def hex_number_def hex_digit_def Let_def intro!: char_of_eq_iff [THEN iffD2])

lemma Encode_Decode:
  "list_all lower_hex s \<Longrightarrow> even (length s) \<Longrightarrow> \<exists>h. s = EncodeToString h \<and> DecodeString s = Some h"
proof (induction s rule: DecodeString.induct)
  case (3 a b s)
  obtain m n where "m < 16" "hex_number a = Some m" "hex_digit m = a" "n < 16" "hex_number b = Some n" "hex_digit n = b"
    using of_hex_number [of a] of_hex_number [of b] 3(2) by auto
  moreover from this obtain h where "s = EncodeToString h" "DecodeString s = Some h"
    using 3 by auto
  ultimately have "a # b # s = EncodeToString (char_of (16 * m + n) # h)"
    "DecodeString (a # b # s) = Some (char_of (16 * m + n) # h)"
    by simp_all
  then show ?case by blast
qed auto

text \<open>
  What the snapshot has to be: the keys of the file and the rows of the table. A hash is accepted when it is that of
  a key of the file or of a row.
\<close>

definition row_hash :: "push_key_row \<Rightarrow> string" where
  "row_hash r = (case DecodeString (pkr_token_hash r) of None \<Rightarrow> [] | Some h \<Rightarrow> h)"

definition accepted_hash :: "push_key list \<Rightarrow> push_key_row list \<Rightarrow> string \<Rightarrow> bool" where
  "accepted_hash configKeys rows h \<longleftrightarrow> h \<in> pk_hash ` set configKeys \<or> h \<in> row_hash ` set rows"

definition keys_mirror :: "push_key list \<Rightarrow> push_key_row list \<Rightarrow> key_snapshot \<Rightarrow> bool" where
  "keys_mirror configKeys rows snap \<longleftrightarrow>
     (\<forall>h. pks_hashes snap h \<noteq> None \<longleftrightarrow> accepted_hash configKeys rows h) \<and>
     (\<forall>r \<in> set rows. pks_managed_hashes snap (pkr_id r) = Some (row_hash r) \<and>
        pks_hashes snap (row_hash r) = Some (pkr_name r)) \<and>
     set (pks_managed snap) = managed_key_view ` set rows"

text \<open>The constraints of the table; the hashes are written by the code, in lower case.\<close>

definition key_rows_ok :: "push_key_row list \<Rightarrow> bool" where
  "key_rows_ok rows \<longleftrightarrow>
     distinct (map pkr_id rows) \<and> distinct (map pkr_name rows) \<and> distinct (map pkr_token_hash rows) \<and>
     (\<forall>r \<in> set rows. pkr_name r \<noteq> [] \<and> (\<exists>h. length h = HashSize \<and> pkr_token_hash r = EncodeToString h))"

lemma row_hash_unique: "key_rows_ok rows \<Longrightarrow> inj_on row_hash (set rows)"
proof (rule inj_onI)
  fix r r' assume ok: "key_rows_ok rows" and r: "r \<in> set rows" "r' \<in> set rows" "row_hash r = row_hash r'"
  obtain h h' where "pkr_token_hash r = EncodeToString h" "pkr_token_hash r' = EncodeToString h'"
    using ok r by (force simp: key_rows_ok_def)
  then have "pkr_token_hash r = pkr_token_hash r'" using r(3) by (simp add: row_hash_def)
  then show "r = r'" using ok r(1,2) by (auto simp: key_rows_ok_def distinct_map dest: inj_onD)
qed

lemma row_id_unique: "key_rows_ok rows \<Longrightarrow> inj_on pkr_id (set rows)"
  by (simp add: key_rows_ok_def distinct_map)

text \<open>A row of the table that is added.\<close>

lemma addManaged_mirror:
  assumes mirror: "keys_mirror ck rows snap" and ok: "key_rows_ok (rows @ [r])" and hash: "row_hash r = h"
  shows "keys_mirror ck (rows @ [r]) (addManaged r h snap)"
proof -
  have "row_hash r' \<noteq> h \<and> pkr_id r' \<noteq> pkr_id r" if "r' \<in> set rows" for r'
    using that row_hash_unique [OF ok] row_id_unique [OF ok] ok hash
    by (auto simp: key_rows_ok_def inj_on_def)
  then show ?thesis
    using mirror hash by (auto simp: keys_mirror_def addManaged_def accepted_hash_def)
qed

lemma key_rows_ok_append: "key_rows_ok (rows @ rows') \<Longrightarrow> key_rows_ok rows"
  by (auto simp: key_rows_ok_def)

lemma add_stored_mirror:
  "key_rows_ok (rows @ rows') \<Longrightarrow> keys_mirror ck rows snap \<Longrightarrow> keys_mirror ck (rows @ rows') (fold add_stored_key rows' snap)"
proof (induction rows' arbitrary: rows snap)
  case (Cons r rs)
  have ok: "key_rows_ok (rows @ [r])" using Cons.prems(1) key_rows_ok_append [of "rows @ [r]" rs] by simp
  obtain h where h: "length h = HashSize" "pkr_token_hash r = EncodeToString h"
    using Cons.prems(1) by (auto simp: key_rows_ok_def)
  have "add_stored_key r snap = addManaged r h snap" by (simp add: add_stored_key_def h)
  moreover have "keys_mirror ck (rows @ [r]) (addManaged r h snap)"
    by (rule addManaged_mirror [OF Cons.prems(2) ok]) (simp add: row_hash_def h)
  ultimately show ?case using Cons.IH [of "rows @ [r]"] Cons.prems(1) by simp
qed simp

lemma config_mirror: "keys_mirror ck [] (fold add_config_key ck empty_keys)"
proof -
  have "pks_managed (fold add_config_key ck snap) = pks_managed snap \<and>
      (pks_hashes (fold add_config_key ck snap) h \<noteq> None \<longleftrightarrow> h \<in> pk_hash ` set ck \<or> pks_hashes snap h \<noteq> None)" for snap h
    by (induction ck arbitrary: snap) (auto simp: add_config_key_def)
  then show ?thesis by (simp add: keys_mirror_def accepted_hash_def empty_keys_def)
qed

lemma key_rows_ok_perm: "key_rows_ok rows \<Longrightarrow> mset rows' = mset rows \<Longrightarrow> key_rows_ok rows'"
  unfolding key_rows_ok_def by (metis mset_eq_imp_distinct_iff mset_map mset_eq_setD)

lemma mirror_set: "keys_mirror ck rows snap \<Longrightarrow> set rows' = set rows \<Longrightarrow> keys_mirror ck rows' snap"
  by (simp add: keys_mirror_def accepted_hash_def)

lemma Load_mirror:
  assumes "key_rows_ok (db_push_keys db)" and "db_tx db \<noteq> TxStatement 0"
  shows "keys_mirror ck (db_push_keys db) (pushkey_Load ck True db)"
proof -
  let ?sorted = "sort_key pkr_name (db_push_keys db)"
  have "keys_mirror ck ([] @ ?sorted) (fold add_stored_key ?sorted (fold add_config_key ck empty_keys))"
    by (rule add_stored_mirror) (use key_rows_ok_perm [OF assms(1), of ?sorted] config_mirror in simp_all)
  then show ?thesis using assms(2) mirror_set [of ck ?sorted] by (simp add: pushkey_Load_def ListPushKeys_def)
qed

subsection \<open>Changes\<close>

text \<open>The invariant: the snapshot mirrors the table, which keeps its constraints, and no row shares the hash of a key of the file.\<close>

definition key_inv :: "push_key list \<Rightarrow> key_state \<Rightarrow> bool" where
  "key_inv ck st \<longleftrightarrow>
     (case ks_current st of None \<Rightarrow> False | Some snap \<Rightarrow> keys_mirror ck (db_push_keys (ks_db st)) snap) \<and>
     key_rows_ok (db_push_keys (ks_db st)) \<and>
     (\<forall>r \<in> set (db_push_keys (ks_db st)). pkr_id r < db_next_push_key (ks_db st) \<and> row_hash r \<notin> pk_hash ` set ck)"

lemma store_key_cases:
  assumes "store_key ke row hash st = (res, st')"
  shows "isl res \<and> st' = st \<or>
    (let stored = row\<lparr>pkr_id := db_next_push_key (ks_db st), pkr_created_at := ke_now ke\<rparr>; db = ks_db st
     in res = Inr (managed_key_view stored) \<and>
        \<not> list_ex (\<lambda>k. pkr_name k = pkr_name row \<or> pkr_token_hash k = pkr_token_hash row) (db_push_keys db) \<and>
        st' = st\<lparr>ks_current := Some (addManaged stored hash (the_keys (ks_current st))),
                 ks_db := db\<lparr>db_push_keys := db_push_keys db @ [stored], db_next_push_key := db_next_push_key db + 1\<rparr>\<rparr>)"
  using assms
  by (auto simp: store_key_def CreatePushKey_def inTransaction_def insert_push_key_def no_apply_def Let_def
      split: if_splits)

lemma store_key_inv:
  assumes inv: "key_inv ck st" and run: "store_key ke row hash st = (res, st')"
    and row: "pkr_name row \<noteq> []" "pkr_token_hash row = EncodeToString hash" "length hash = HashSize"
    and fresh: "hash \<notin> pk_hash ` set ck"
  shows "key_inv ck st'"
proof (cases "isl res")
  case True
  then show ?thesis using store_key_cases [OF run] inv by (auto simp: Let_def)
next
  case False
  let ?db = "ks_db st"
  let ?stored = "row\<lparr>pkr_id := db_next_push_key ?db, pkr_created_at := ke_now ke\<rparr>"
  have new: "\<not> list_ex (\<lambda>k. pkr_name k = pkr_name row \<or> pkr_token_hash k = pkr_token_hash row) (db_push_keys ?db)"
    and st': "st' = st\<lparr>ks_current := Some (addManaged ?stored hash (the_keys (ks_current st))),
      ks_db := ?db\<lparr>db_push_keys := db_push_keys ?db @ [?stored], db_next_push_key := db_next_push_key ?db + 1\<rparr>\<rparr>"
    using store_key_cases [OF run] False by (auto simp: Let_def)
  obtain snap where snap: "ks_current st = Some snap" "keys_mirror ck (db_push_keys ?db) snap"
    using inv by (auto simp: key_inv_def split: option.splits)
  have ids: "pkr_id r < db_next_push_key ?db" if "r \<in> set (db_push_keys ?db)" for r
    using inv that by (simp add: key_inv_def)
  have ok: "key_rows_ok (db_push_keys ?db @ [?stored])"
    using inv new row ids by (fastforce simp: key_inv_def key_rows_ok_def list_ex_iff)
  have hash: "row_hash ?stored = hash" by (simp add: row_hash_def row)
  show ?thesis
    using addManaged_mirror [OF snap(2) ok hash] ok ids inv fresh hash
    by (force simp: key_inv_def st' the_keys_def snap(1))
qed

lemma find_unique: "inj_on f (set xs) \<Longrightarrow> x \<in> set xs \<Longrightarrow>
    fold (\<lambda>k acc. if f k = f x then g k else acc) xs z = g x"
proof (induction xs rule: rev_induct)
  case (snoc y ys)
  then show ?case by (cases "f y = f x") (auto simp: inj_on_def)
qed simp

lemma fold_absent: "\<forall>k \<in> set xs. f k \<noteq> c \<Longrightarrow> fold (\<lambda>k acc. if f k = c then g k else acc) xs z = z"
  by (induction xs arbitrary: z) auto

lemma managed_name_row:
  assumes mirror: "keys_mirror ck rows snap" and ok: "key_rows_ok rows" and r: "r \<in> set rows"
  shows "managed_name (pkr_id r) (Some snap) = pkr_name r"
proof -
  have "inj_on kv_id (set (pks_managed snap))"
    using mirror row_id_unique [OF ok] by (auto simp: keys_mirror_def inj_on_def managed_key_view_def)
  moreover have "managed_key_view r \<in> set (pks_managed snap)" using mirror r by (simp add: keys_mirror_def)
  ultimately have "fold (\<lambda>k name. if kv_id k = kv_id (managed_key_view r) then kv_name k else name) (pks_managed snap) [] =
      kv_name (managed_key_view r)"
    by (rule find_unique)
  then show ?thesis by (simp add: managed_name_def managed_key_view_def)
qed

lemma pushkey_Delete_cases:
  assumes snap: "ks_current st = Some snap" "keys_mirror ck (db_push_keys (ks_db st)) snap"
    and ok: "key_rows_ok (db_push_keys (ks_db st))" and run: "pushkey_Delete ke i st = (e, st')"
  shows "e \<noteq> None \<and> st' = st \<or>
    (e = None \<and> (\<exists>r \<in> set (db_push_keys (ks_db st)). pkr_id r = i \<and>
       st' = st\<lparr>ks_current := Some (without_key i (pkr_name r) (the_keys (ks_current st))),
                ks_db := (ks_db st)\<lparr>db_push_keys := filter (\<lambda>k. pkr_id k \<noteq> i) (db_push_keys (ks_db st))\<rparr>\<rparr>))"
proof (cases "\<exists>r \<in> set (db_push_keys (ks_db st)). pkr_id r = i")
  case True
  then obtain r where r: "r \<in> set (db_push_keys (ks_db st))" "pkr_id r = i" by blast
  have "managed_name i (ks_current st) = pkr_name r"
    using managed_name_row [OF snap(2) ok r(1)] r(2) snap(1) by simp
  then show ?thesis using run r
    by (auto simp: pushkey_Delete_def DeletePushKey_def inTransaction_def remove_push_key_def no_apply_def Let_def
        list_ex_iff split: if_splits)
next
  case False
  then show ?thesis using run
    by (auto simp: pushkey_Delete_def DeletePushKey_def inTransaction_def remove_push_key_def no_apply_def Let_def
        list_ex_iff split: if_splits)
qed

text \<open>The loop at the end of \<open>Delete\<close> never adds anything: only the deleted hash is missing, with the deleted name.\<close>

lemma without_key_hashes:
  assumes "pks_managed_hashes snap i = Some h" and "pks_hashes snap h = Some name"
  shows "pks_hashes (without_key i name snap) = (pks_hashes snap)(h := None)"
  using assms by (auto simp: without_key_def fun_eq_iff)

lemma without_key_mirror:
  assumes mirror: "keys_mirror ck rows snap" and ok: "key_rows_ok rows" and r: "r \<in> set rows"
    and own: "row_hash r \<notin> pk_hash ` set ck"
  shows "keys_mirror ck (filter (\<lambda>k. pkr_id k \<noteq> pkr_id r) rows) (without_key (pkr_id r) (pkr_name r) snap)"
proof -
  let ?rows = "filter (\<lambda>k. pkr_id k \<noteq> pkr_id r) rows"
  have r': "pks_managed_hashes snap (pkr_id r) = Some (row_hash r)" "pks_hashes snap (row_hash r) = Some (pkr_name r)"
    using mirror r by (auto simp: keys_mirror_def)
  note hashes = without_key_hashes [OF r']
  have other: "pkr_id x \<noteq> pkr_id r \<longleftrightarrow> row_hash x \<noteq> row_hash r" if "x \<in> set rows" for x
    using that r row_id_unique [OF ok] row_hash_unique [OF ok] by (auto dest: inj_onD)
  have "accepted_hash ck ?rows h \<longleftrightarrow> accepted_hash ck rows h \<and> h \<noteq> row_hash r" for h
    using other own by (fastforce simp: accepted_hash_def)
  moreover have "pks_managed_hashes (without_key (pkr_id r) (pkr_name r) snap) =
      (pks_managed_hashes snap)(pkr_id r := None)"
    by (simp add: without_key_def r')
  moreover have "set (pks_managed (without_key (pkr_id r) (pkr_name r) snap)) = managed_key_view ` set ?rows"
    using mirror by (auto simp: keys_mirror_def without_key_def r' managed_key_view_def)
  ultimately show ?thesis using mirror other by (auto simp: keys_mirror_def hashes)
qed

lemma key_rows_ok_filter: "key_rows_ok rows \<Longrightarrow> key_rows_ok (filter P rows)"
  by (auto simp: key_rows_ok_def intro: distinct_map_filter)

lemma pushkey_Delete_inv:
  assumes inv: "key_inv ck st" and run: "pushkey_Delete ke i st = (e, st')"
  shows "key_inv ck st'"
proof -
  obtain snap where snap: "ks_current st = Some snap" "keys_mirror ck (db_push_keys (ks_db st)) snap"
    and ok: "key_rows_ok (db_push_keys (ks_db st))"
    using inv by (auto simp: key_inv_def split: option.splits)
  from pushkey_Delete_cases [OF snap ok run] show ?thesis
  proof
    assume "e = None \<and> (\<exists>r \<in> set (db_push_keys (ks_db st)). pkr_id r = i \<and>
         st' = st\<lparr>ks_current := Some (without_key i (pkr_name r) (the_keys (ks_current st))),
                  ks_db := (ks_db st)\<lparr>db_push_keys := filter (\<lambda>k. pkr_id k \<noteq> i) (db_push_keys (ks_db st))\<rparr>\<rparr>)"
    then obtain r where r: "r \<in> set (db_push_keys (ks_db st))" "pkr_id r = i"
      "st' = st\<lparr>ks_current := Some (without_key i (pkr_name r) (the_keys (ks_current st))),
                  ks_db := (ks_db st)\<lparr>db_push_keys := filter (\<lambda>k. pkr_id k \<noteq> i) (db_push_keys (ks_db st))\<rparr>\<rparr>"
      by blast
    have "keys_mirror ck (filter (\<lambda>k. pkr_id k \<noteq> i) (db_push_keys (ks_db st))) (without_key i (pkr_name r) snap)"
      using without_key_mirror [OF snap(2) _ r(1)] inv r by (auto simp: key_inv_def)
    then show ?thesis using inv by (simp add: key_inv_def r(3) the_keys_def snap(1) key_rows_ok_filter)
  qed (use inv in simp)
qed

text \<open>
  What the loop is for does not happen: a key of the file with the hash of the deleted key is not found any more,
  until the next load.
\<close>

lemma Delete_forgets_config_key:
  assumes ok: "key_rows_ok (db_push_keys db)" and tx: "db_tx db = TxNoFault"
    and r: "r \<in> set (db_push_keys db)" and run: "\<not> ke_cycle ke" "ke_supported ke"
    and key: "k \<in> set ck" "pk_hash k = sha token" "row_hash r = sha token"
  shows "pushkey_Lookup sha token (Some (pushkey_Load ck True db)) \<noteq> None \<and>
    (\<exists>st'. pushkey_Delete ke (pkr_id r) \<lparr>ks_current = Some (pushkey_Load ck True db), ks_db = db\<rparr> = (None, st') \<and>
       pushkey_Lookup sha token (ks_current st') = None)"
proof -
  let ?snap = "pushkey_Load ck True db"
  have mirror: "keys_mirror ck (db_push_keys db) ?snap" using Load_mirror [OF ok] tx by simp
  have before: "pushkey_Lookup sha token (Some ?snap) \<noteq> None"
  proof -
    have "accepted_hash ck (db_push_keys db) (sha token)"
      using key(1) by (auto simp: accepted_hash_def key(2) [symmetric])
    then have "pks_hashes ?snap (sha token) \<noteq> None" using mirror unfolding keys_mirror_def by blast
    then show ?thesis by (simp add: pushkey_Lookup_def)
  qed
  have name: "managed_name (pkr_id r) (Some ?snap) = pkr_name r" "pkr_name r \<noteq> []"
    using managed_name_row [OF mirror ok r] ok r by (simp_all add: key_rows_ok_def)
  have "pushkey_Delete ke (pkr_id r) \<lparr>ks_current = Some ?snap, ks_db = db\<rparr> =
      (None, \<lparr>ks_current = Some (without_key (pkr_id r) (pkr_name r) ?snap),
              ks_db = db\<lparr>db_push_keys := filter (\<lambda>k. pkr_id k \<noteq> pkr_id r) (db_push_keys db)\<rparr>\<rparr>)"
    using run r tx name
    by (auto simp: pushkey_Delete_def DeletePushKey_def inTransaction_def remove_push_key_def no_apply_def
        list_ex_iff the_keys_def)
  moreover have "pks_managed_hashes ?snap (pkr_id r) = Some (row_hash r)" "pks_hashes ?snap (row_hash r) = Some (pkr_name r)"
    using mirror r unfolding keys_mirror_def by blast+
  then have "pks_hashes (without_key (pkr_id r) (pkr_name r) ?snap) (sha token) = None"
    by (simp add: without_key_hashes key(3))
  ultimately show ?thesis using before by (simp add: pushkey_Lookup_def)
qed

text \<open>A run of operations; the hash of a token has its size, and no generated token has the hash of a key of the file.\<close>

datatype key_op =
    CreateKeyOp string string
  | RestoreKeyOp string string string string "string \<Rightarrow> bool"
  | DeleteKeyOp int

definition key_step :: "key_env \<Rightarrow> key_op \<Rightarrow> key_state \<Rightarrow> key_state" where
  "key_step ke op st =
     (case op of
        CreateKeyOp name author \<Rightarrow> snd (pushkey_Create ke name author st)
      | RestoreKeyOp name tokenHash hint author inUse \<Rightarrow> snd (pushkey_Restore ke name tokenHash hint author inUse st)
      | DeleteKeyOp i \<Rightarrow> snd (pushkey_Delete ke i st))"

definition fresh_tokens :: "push_key list \<Rightarrow> key_env \<Rightarrow> bool" where
  "fresh_tokens ck ke \<longleftrightarrow>
     (case GenerateToken (ke_random ke) of
        None \<Rightarrow> True
      | Some token \<Rightarrow> length (ke_sha ke token) = HashSize \<and> ke_sha ke token \<notin> pk_hash ` set ck)"

lemma trim_ne: "valid_key_name name \<Longrightarrow> name \<noteq> []"
  by (auto simp: valid_key_name_def rune_count.simps [of "[]"])

lemma key_step_inv:
  assumes inv: "key_inv ck st" and fresh: "fresh_tokens ck ke"
  shows "key_inv ck (key_step ke op st)"
proof (cases op)
  case (CreateKeyOp name author)
  let ?name = "trim_space name"
  show ?thesis
  proof (cases "\<exists>token. GenerateToken (ke_random ke) = Some token \<and> \<not> ke_cycle ke \<and> valid_key_name ?name \<and>
      \<not> name_in_use ?name (ks_current st) \<and> ke_supported ke")
    case True
    then obtain token where t: "GenerateToken (ke_random ke) = Some token" "\<not> ke_cycle ke" "valid_key_name ?name"
      "\<not> name_in_use ?name (ks_current st)" "ke_supported ke" by blast
    obtain res st' where s: "store_key ke (key_row ?name (EncodeToString (ke_sha ke token)) (TokenHint token) author)
        (ke_sha ke token) st = (res, st')" by fastforce
    have "key_inv ck st'"
      by (rule store_key_inv [OF inv s]) (use fresh t trim_ne in \<open>auto simp: key_row_def fresh_tokens_def\<close>)
    then show ?thesis by (simp add: CreateKeyOp key_step_def pushkey_Create_def t s)
  next
    case False
    then show ?thesis using inv
      by (auto simp: CreateKeyOp key_step_def pushkey_Create_def Let_def split: option.split)
  qed
next
  case (RestoreKeyOp name tokenHash hint author inUse)
  show ?thesis
  proof (cases "\<exists>hash. ValidateRestoredKey name tokenHash hint = Inr hash \<and> \<not> IsHashInUse hash (ks_current st) \<and>
      key_step ke op st = snd (store_key ke (key_row name tokenHash hint author) hash st)")
    case True
    then obtain hash where h: "ValidateRestoredKey name tokenHash hint = Inr hash" "\<not> IsHashInUse hash (ks_current st)"
      "key_step ke op st = snd (store_key ke (key_row name tokenHash hint author) hash st)" by blast
    have name: "valid_key_name name" and hex: "length tokenHash = 64" "list_all lower_hex tokenHash"
      using h(1) by (auto simp: ValidateRestoredKey_def split: if_splits)
    obtain h' where h': "tokenHash = EncodeToString h'" "DecodeString tokenHash = Some h'"
      using Encode_Decode [OF hex(2)] hex(1) by auto
    have hash: "hash = h'" using h(1) h'(2) by (auto simp: ValidateRestoredKey_def split: if_splits)
    obtain snap where snap: "ks_current st = Some snap" "keys_mirror ck (db_push_keys (ks_db st)) snap"
      using inv by (auto simp: key_inv_def split: option.splits)
    have "hash \<notin> pk_hash ` set ck"
      using h(2) snap unfolding IsHashInUse_def keys_mirror_def accepted_hash_def by force
    moreover obtain res st' where s: "store_key ke (key_row name tokenHash hint author) hash st = (res, st')" by fastforce
    moreover have "length h' = HashSize" using hex(1) h'(1) by (simp add: HashSize_def)
    ultimately have "key_inv ck st'"
      by (intro store_key_inv [OF inv s]) (use name trim_ne h'(1) hash in \<open>auto simp: key_row_def\<close>)
    then show ?thesis by (simp add: h(3) s)
  next
    case False
    then have "key_step ke op st = st"
      by (auto simp: RestoreKeyOp key_step_def pushkey_Restore_def split: sum.splits)
    then show ?thesis using inv by simp
  qed
next
  case (DeleteKeyOp i)
  obtain e st' where "pushkey_Delete ke i st = (e, st')" by fastforce
  then show ?thesis using pushkey_Delete_inv [OF inv] by (simp add: DeleteKeyOp key_step_def)
qed

definition key_run :: "(key_env \<times> key_op) list \<Rightarrow> key_state \<Rightarrow> key_state" where
  "key_run ops st = fold (\<lambda>(ke, op). key_step ke op) ops st"

lemma key_run_inv: "key_inv ck st \<Longrightarrow> list_all (fresh_tokens ck \<circ> fst) ops \<Longrightarrow> key_inv ck (key_run ops st)"
  by (induction ops arbitrary: st) (auto simp: key_run_def key_step_inv)

lemma Lookup_iff:
  "key_inv ck st \<Longrightarrow>
   pushkey_Lookup sha token (ks_current st) \<noteq> None \<longleftrightarrow> accepted_hash ck (db_push_keys (ks_db st)) (sha token)"
  by (auto simp: key_inv_def pushkey_Lookup_def keys_mirror_def split: option.splits)

end
