(* ===== verification/PushResolver.thy ===== *)
theory PushResolver
  imports ManagedRegistry PushKeys
begin

text \<open>
  The resolution of pushes (\<^verbatim>\<open>internal/push/resolver.go\<close>): the endpoints of the configuration that receive pushes
  and their tokens, the global push keys, and the managed endpoints and keys, which the resolver asks for.
\<close>

record target =
  tg_key :: string
  tg_external :: "external_endpoint option"
  tg_managed :: bool

text \<open>\<open>rs_tokens\<close> has the tokens of exactly one endpoint, \<open>rs_endpoint_tokens\<close> those of all.\<close>

record resolver =
  rs_targets :: "string \<Rightarrow> target option"
  rs_tokens :: "string \<Rightarrow> string option"
  rs_endpoint_tokens :: "string \<Rightarrow> string option"
  rs_global_keys :: "string \<Rightarrow> string option"

text \<open>\<open>addToken\<close>; the ambiguous tokens are carried along.\<close>

definition addToken :: "string \<Rightarrow> string \<Rightarrow> resolver \<times> string list \<Rightarrow> resolver \<times> string list" where
  "addToken token key acc =
     (let (rs, ambiguous) = acc;
          rs = rs\<lparr>rs_endpoint_tokens := (rs_endpoint_tokens rs)(key \<mapsto> token)\<rparr>
      in if token \<in> set ambiguous then (rs, ambiguous)
         else if rs_tokens rs token \<noteq> None
         then (rs\<lparr>rs_tokens := (rs_tokens rs)(token := None)\<rparr>, token # ambiguous)
         else (rs\<lparr>rs_tokens := (rs_tokens rs)(token \<mapsto> key)\<rparr>, ambiguous))"

definition add_target :: "target \<Rightarrow> resolver \<times> string list \<Rightarrow> resolver \<times> string list" where
  "add_target t acc = (let (rs, ambiguous) = acc in (rs\<lparr>rs_targets := (rs_targets rs)(tg_key t \<mapsto> t)\<rparr>, ambiguous))"

text \<open>The bodies of the loops over the external endpoints and over \<open>push.endpoints\<close>.\<close>

definition external_step :: "external_endpoint \<Rightarrow> resolver \<times> string list \<Rightarrow> resolver \<times> string list" where
  "external_step ee acc =
     (if \<not> ee_IsEnabled ee then acc
      else (let key = ee_Key ee;
                acc = add_target \<lparr>tg_key = key, tg_external = Some ee, tg_managed = False\<rparr> acc
            in if ee_token ee \<noteq> [] then addToken (ee_token ee) key acc else acc))"

definition push_endpoint_step :: "config \<Rightarrow> push_endpoint \<Rightarrow> resolver \<times> string list \<Rightarrow> resolver \<times> string list" where
  "push_endpoint_step c pe acc =
     (case GetEndpointByKey c (pe_key pe) of
        None \<Rightarrow> acc
      | Some ep \<Rightarrow>
          (if \<not> ep_IsEnabled ep then acc
           else (let key = ep_Key ep;
                     acc = add_target \<lparr>tg_key = key, tg_external = None, tg_managed = False\<rparr> acc
                 in if pe_token pe \<noteq> [] then addToken (pe_token pe) key acc else acc)))"

definition empty_resolver :: resolver where
  "empty_resolver =
     \<lparr>rs_targets = (\<lambda>_. None), rs_tokens = (\<lambda>_. None), rs_endpoint_tokens = (\<lambda>_. None), rs_global_keys = (\<lambda>_. None)\<rparr>"

definition NewResolver :: "config \<Rightarrow> resolver" where
  "NewResolver c =
     (let acc = fold external_step (cfg_external_endpoints c) (empty_resolver, [])
      in case cfg_push c of
           None \<Rightarrow> fst acc
         | Some p \<Rightarrow>
             fold (\<lambda>k rs. rs\<lparr>rs_global_keys := (rs_global_keys rs)(pk_hash k \<mapsto> pk_name k)\<rparr>) (pc_keys p)
               (fst (fold (push_endpoint_step c) (pc_endpoints p) acc)))"

text \<open>\<open>managed_target\<close>: the target of a managed endpoint.\<close>

definition managed_target :: "push_target \<Rightarrow> target" where
  "managed_target pt = \<lparr>tg_key = pt_key pt, tg_external = pt_push pt, tg_managed = True\<rparr>"

definition no_target :: target where
  "no_target = \<lparr>tg_key = [], tg_external = None, tg_managed = False\<rparr>"

text \<open>\<open>Resolve\<close> gives the target and the name of the global key that was used, if any.\<close>

definition Resolve ::
    "(string \<Rightarrow> string) \<Rightarrow> resolver \<Rightarrow> managed_registry \<Rightarrow> key_snapshot option \<Rightarrow> string \<Rightarrow> string \<Rightarrow>
     (target \<times> string) option" where
  "Resolve sha rs g ks token endpointKey =
     (if token = [] then None
      else if endpointKey = [] then
        (case rs_tokens rs token of
           Some key \<Rightarrow> Some (case rs_targets rs key of None \<Rightarrow> no_target | Some t \<Rightarrow> t, [])
         | None \<Rightarrow> map_option (\<lambda>pt. (managed_target pt, [])) (PushTargetByToken token g))
      else
        (let key = to_lower endpointKey;
             found = (case rs_targets rs key of
                        Some t \<Rightarrow> Some (t, case rs_endpoint_tokens rs key of None \<Rightarrow> [] | Some s \<Rightarrow> s)
                      | None \<Rightarrow> map_option (\<lambda>pt. (managed_target pt, PushTokenOf key g)) (PushTargetByKey key g))
         in case found of
              None \<Rightarrow> None
            | Some (t, endpointToken) \<Rightarrow>
                (if endpointToken \<noteq> [] \<and> endpointToken = token then Some (t, [])
                 else case rs_global_keys rs (sha token) of
                   Some name \<Rightarrow> Some (t, name)
                 | None \<Rightarrow> map_option (\<lambda>name. (t, name)) (pushkey_Lookup sha token ks))))"

section \<open>Facts\<close>

text \<open>The targets and the tokens of the configuration, in the order of the loops.\<close>

definition external_entry :: "external_endpoint \<Rightarrow> (target \<times> string) list" where
  "external_entry ee =
     (if ee_IsEnabled ee then [(\<lparr>tg_key = ee_Key ee, tg_external = Some ee, tg_managed = False\<rparr>, ee_token ee)] else [])"

definition push_entry :: "config \<Rightarrow> push_endpoint \<Rightarrow> (target \<times> string) list" where
  "push_entry c pe =
     (case GetEndpointByKey c (pe_key pe) of
        Some ep \<Rightarrow>
          (if ep_IsEnabled ep then [(\<lparr>tg_key = ep_Key ep, tg_external = None, tg_managed = False\<rparr>, pe_token pe)] else [])
      | None \<Rightarrow> [])"

definition config_receivers :: "config \<Rightarrow> (target \<times> string) list" where
  "config_receivers c =
     concat (map external_entry (cfg_external_endpoints c)) @
     (case cfg_push c of None \<Rightarrow> [] | Some p \<Rightarrow> concat (map (push_entry c) (pc_endpoints p)))"

definition owners :: "(target \<times> string) list \<Rightarrow> string \<Rightarrow> string list" where
  "owners entries token = map (tg_key \<circ> fst) (filter (\<lambda>(t, s). s = token) entries)"

definition resolver_inv :: "(target \<times> string) list \<Rightarrow> resolver \<times> string list \<Rightarrow> bool" where
  "resolver_inv entries acc \<longleftrightarrow>
     (\<forall>k t. rs_targets (fst acc) k = Some t \<longrightarrow> tg_key t = k \<and> t \<in> fst ` set entries) \<and>
     (\<forall>(t, s) \<in> set entries. rs_targets (fst acc) (tg_key t) \<noteq> None) \<and>
     (\<forall>k s. rs_endpoint_tokens (fst acc) k = Some s \<longrightarrow> s \<noteq> [] \<and> k \<in> set (owners entries s)) \<and>
     (\<forall>s. s \<noteq> [] \<longrightarrow>
        rs_tokens (fst acc) s = (case owners entries s of [k] \<Rightarrow> Some k | _ \<Rightarrow> None) \<and>
        (s \<in> set (snd acc) \<longleftrightarrow> length (owners entries s) \<ge> 2)) \<and>
     rs_global_keys (fst acc) = (\<lambda>_. None)"

text \<open>One entry: its target, and its token if it has one.\<close>

definition entry_step :: "target \<times> string \<Rightarrow> resolver \<times> string list \<Rightarrow> resolver \<times> string list" where
  "entry_step e acc = (let acc = add_target (fst e) acc in if snd e \<noteq> [] then addToken (snd e) (tg_key (fst e)) acc else acc)"

lemma owners_snoc: "owners (entries @ [(t, s)]) x = owners entries x @ (if s = x then [tg_key t] else [])"
  by (simp add: owners_def)

lemma addToken_sel:
  "rs_targets (fst (addToken token key acc)) = rs_targets (fst acc)"
  "rs_endpoint_tokens (fst (addToken token key acc)) = (rs_endpoint_tokens (fst acc))(key \<mapsto> token)"
  "rs_global_keys (fst (addToken token key acc)) = rs_global_keys (fst acc)"
  by (cases acc; simp add: addToken_def Let_def)+

lemma addToken_tokens:
  "rs_tokens (fst (addToken token key acc)) =
     (if token \<in> set (snd acc) then rs_tokens (fst acc)
      else (rs_tokens (fst acc))(token := (if rs_tokens (fst acc) token = None then Some key else None)))"
  "set (snd (addToken token key acc)) =
     (if token \<notin> set (snd acc) \<and> rs_tokens (fst acc) token \<noteq> None then insert token (set (snd acc)) else set (snd acc))"
  by (cases acc; simp add: addToken_def Let_def)+

lemma add_target_sel:
  "rs_targets (fst (add_target t acc)) = (rs_targets (fst acc))(tg_key t \<mapsto> t)"
  "rs_tokens (fst (add_target t acc)) = rs_tokens (fst acc)"
  "rs_endpoint_tokens (fst (add_target t acc)) = rs_endpoint_tokens (fst acc)"
  "rs_global_keys (fst (add_target t acc)) = rs_global_keys (fst acc)" "snd (add_target t acc) = snd acc"
  by (cases acc; simp add: add_target_def)+

lemma entry_step_inv:
  assumes inv: "resolver_inv entries acc"
  shows "resolver_inv (entries @ [(t, s)]) (entry_step (t, s) acc)"
proof -
  define acc1 where "acc1 = add_target t acc"
  have sel: "rs_targets (fst acc1) = (rs_targets (fst acc))(tg_key t \<mapsto> t)" "rs_tokens (fst acc1) = rs_tokens (fst acc)"
    "rs_endpoint_tokens (fst acc1) = rs_endpoint_tokens (fst acc)" "rs_global_keys (fst acc1) = rs_global_keys (fst acc)"
    "snd acc1 = snd acc"
    by (simp_all add: acc1_def add_target_sel)
  have step: "entry_step (t, s) acc = (if s \<noteq> [] then addToken s (tg_key t) acc1 else acc1)"
    by (simp add: entry_step_def acc1_def Let_def)
  have old: "\<And>k x. rs_targets (fst acc) k = Some x \<Longrightarrow> tg_key x = k \<and> x \<in> fst ` set entries"
    "\<And>x y. (x, y) \<in> set entries \<Longrightarrow> rs_targets (fst acc) (tg_key x) \<noteq> None"
    "\<And>k x. rs_endpoint_tokens (fst acc) k = Some x \<Longrightarrow> x \<noteq> [] \<and> k \<in> set (owners entries x)"
    "\<And>x. x \<noteq> [] \<Longrightarrow> rs_tokens (fst acc) x = (if length (owners entries x) = 1 then Some (hd (owners entries x)) else None)"
    "\<And>x. x \<noteq> [] \<Longrightarrow> x \<in> set (snd acc) \<longleftrightarrow> length (owners entries x) \<ge> 2"
    "rs_global_keys (fst acc) = (\<lambda>_. None)"
    using inv by (auto simp: resolver_inv_def single_case)
  have tokens: "rs_tokens (fst (entry_step (t, s) acc)) x =
      (if length (owners (entries @ [(t, s)]) x) = 1 then Some (hd (owners (entries @ [(t, s)]) x)) else None) \<and>
      (x \<in> set (snd (entry_step (t, s) acc)) \<longleftrightarrow> length (owners (entries @ [(t, s)]) x) \<ge> 2)" if x: "x \<noteq> []" for x
  proof (cases "x = s")
    case False
    then show ?thesis using old(4,5) [OF x] by (simp add: step addToken_tokens sel owners_snoc)
  next
    case True
    have "length (owners entries s) \<ge> 2 \<or> length (owners entries s) = 1 \<or> owners entries s = []"
      by (cases "owners entries s"; cases "tl (owners entries s)") auto
    then show ?thesis
      using old(4,5) [OF x] x by (elim disjE) (auto simp: step addToken_tokens sel owners_snoc True)
  qed
  have targets: "rs_targets (fst (entry_step (t, s) acc)) = (rs_targets (fst acc))(tg_key t \<mapsto> t)"
    by (simp add: step addToken_sel sel)
  have endpoint_tokens: "rs_endpoint_tokens (fst (entry_step (t, s) acc)) =
      (if s \<noteq> [] then (rs_endpoint_tokens (fst acc))(tg_key t \<mapsto> s) else rs_endpoint_tokens (fst acc))"
    by (simp add: step addToken_sel sel)
  have global_keys: "rs_global_keys (fst (entry_step (t, s) acc)) = (\<lambda>_. None)"
    using old(6) by (simp add: step addToken_sel sel)
  have "tg_key x = k \<and> x \<in> fst ` set (entries @ [(t, s)])" if "rs_targets (fst (entry_step (t, s) acc)) k = Some x" for k x
    using that old(1) [of k x] by (auto simp: targets split: if_splits)
  moreover have "rs_targets (fst (entry_step (t, s) acc)) (tg_key x) \<noteq> None" if "(x, y) \<in> set (entries @ [(t, s)])" for x y
    using that old(2) [of x y] by (auto simp: targets)
  moreover have "x \<noteq> [] \<and> k \<in> set (owners (entries @ [(t, s)]) x)"
    if "rs_endpoint_tokens (fst (entry_step (t, s) acc)) k = Some x" for k x
    using that old(3) [of k x] by (auto simp: endpoint_tokens owners_snoc split: if_splits)
  ultimately show ?thesis
    unfolding resolver_inv_def single_case using tokens global_keys by blast
qed

lemma external_steps:
  "fold external_step ees acc = fold entry_step (concat (map external_entry ees)) acc"
  by (induction ees arbitrary: acc) (simp_all add: external_step_def external_entry_def entry_step_def Let_def)

lemma push_endpoint_steps:
  "fold (push_endpoint_step c) pes acc = fold entry_step (concat (map (push_entry c) pes)) acc"
  by (induction pes arbitrary: acc)
    (simp_all add: push_endpoint_step_def push_entry_def entry_step_def Let_def split: option.split)

lemma entries_inv: "resolver_inv entries acc \<Longrightarrow> resolver_inv (entries @ rest) (fold entry_step rest acc)"
proof (induction rest arbitrary: entries acc)
  case (Cons e rest)
  show ?case using Cons.IH [OF entry_step_inv [OF Cons.prems, of "fst e" "snd e"]] by simp
qed simp

lemma empty_resolver_inv: "resolver_inv [] (empty_resolver, [])"
  by (simp add: resolver_inv_def empty_resolver_def owners_def)

lemma global_keys_fold:
  "rs_targets (fold (\<lambda>k rs. rs\<lparr>rs_global_keys := (rs_global_keys rs)(pk_hash k \<mapsto> pk_name k)\<rparr>) ks rs) = rs_targets rs \<and>
   rs_tokens (fold (\<lambda>k rs. rs\<lparr>rs_global_keys := (rs_global_keys rs)(pk_hash k \<mapsto> pk_name k)\<rparr>) ks rs) = rs_tokens rs \<and>
   rs_endpoint_tokens (fold (\<lambda>k rs. rs\<lparr>rs_global_keys := (rs_global_keys rs)(pk_hash k \<mapsto> pk_name k)\<rparr>) ks rs) = rs_endpoint_tokens rs \<and>
   (rs_global_keys (fold (\<lambda>k rs. rs\<lparr>rs_global_keys := (rs_global_keys rs)(pk_hash k \<mapsto> pk_name k)\<rparr>) ks rs) h \<noteq> None \<longleftrightarrow>
      rs_global_keys rs h \<noteq> None \<or> h \<in> pk_hash ` set ks)"
  by (induction ks arbitrary: rs) auto

definition config_key_hashes :: "config \<Rightarrow> string list" where
  "config_key_hashes c = (case cfg_push c of None \<Rightarrow> [] | Some p \<Rightarrow> map pk_hash (pc_keys p))"

text \<open>The resolver of a configuration.\<close>

lemma NewResolver_facts:
  fixes c :: config
  defines "rs \<equiv> NewResolver c" and "entries \<equiv> config_receivers c"
  shows "rs_targets rs k = Some t \<Longrightarrow> tg_key t = k \<and> t \<in> fst ` set entries"
    and "(t, s) \<in> set entries \<Longrightarrow> rs_targets rs (tg_key t) \<noteq> None"
    and "rs_endpoint_tokens rs k = Some s \<Longrightarrow> s \<noteq> [] \<and> k \<in> set (owners entries s)"
    and "s \<noteq> [] \<Longrightarrow> rs_tokens rs s = Some k \<longleftrightarrow> owners entries s = [k]"
    and "rs_global_keys rs h \<noteq> None \<longleftrightarrow> h \<in> set (config_key_hashes c)"
proof -
  define acc where "acc = fold entry_step entries (empty_resolver, [])"
  have inv: "resolver_inv entries acc"
    using entries_inv [OF empty_resolver_inv, of entries] by (simp add: acc_def)
  have rs: "rs = (case cfg_push c of None \<Rightarrow> fst acc
      | Some p \<Rightarrow> fold (\<lambda>k rs. rs\<lparr>rs_global_keys := (rs_global_keys rs)(pk_hash k \<mapsto> pk_name k)\<rparr>) (pc_keys p) (fst acc))"
    by (simp add: rs_def NewResolver_def acc_def entries_def config_receivers_def external_steps push_endpoint_steps
        Let_def split: option.split)
  have same: "rs_targets rs = rs_targets (fst acc)" "rs_tokens rs = rs_tokens (fst acc)"
    "rs_endpoint_tokens rs = rs_endpoint_tokens (fst acc)"
    by (simp_all add: rs global_keys_fold split: option.split)
  show "rs_targets rs k = Some t \<Longrightarrow> tg_key t = k \<and> t \<in> fst ` set entries"
    "(t, s) \<in> set entries \<Longrightarrow> rs_targets rs (tg_key t) \<noteq> None"
    "rs_endpoint_tokens rs k = Some s \<Longrightarrow> s \<noteq> [] \<and> k \<in> set (owners entries s)"
    using inv by (auto simp: resolver_inv_def same)
  show "rs_tokens rs s = Some k \<longleftrightarrow> owners entries s = [k]" if "s \<noteq> []"
    using inv that by (auto simp: resolver_inv_def same split: list.splits)
  show "rs_global_keys rs h \<noteq> None \<longleftrightarrow> h \<in> set (config_key_hashes c)"
    using inv by (simp add: rs config_key_hashes_def resolver_inv_def global_keys_fold del: not_None_eq split: option.split)
qed

text \<open>
  The specification: the index of the managed endpoints is that of the snapshot; a target receives pushes when the
  configuration or the snapshot says so; a token is that of a key when an enabled receiver of the key has it.
\<close>

definition published_index :: "managed_registry \<Rightarrow> bool" where
  "published_index g \<longleftrightarrow>
     distinct (map fst (current_states g)) \<and> mg_index g = Some (newPushIndex (current_states g))"

definition receiver :: "config \<Rightarrow> managed_registry \<Rightarrow> target \<Rightarrow> bool" where
  "receiver c g t \<longleftrightarrow>
     t \<in> fst ` set (config_receivers c) \<or>
     (\<exists>s. map_of (current_states g) (tg_key t) = Some s \<and> receives s \<and>
        t = \<lparr>tg_key = tg_key t, tg_external = pa_push (ms_parsed s), tg_managed = True\<rparr>)"

definition owns_token :: "config \<Rightarrow> managed_registry \<Rightarrow> string \<Rightarrow> string \<Rightarrow> bool" where
  "owns_token c g key token \<longleftrightarrow>
     token \<noteq> [] \<and> (key \<in> set (owners (config_receivers c) token) \<or> key \<in> set (token_users (current_states g) token))"

definition global_token :: "(string \<Rightarrow> string) \<Rightarrow> config \<Rightarrow> key_snapshot option \<Rightarrow> string \<Rightarrow> bool" where
  "global_token sha c ks token \<longleftrightarrow> sha token \<in> set (config_key_hashes c) \<or> pushkey_Lookup sha token ks \<noteq> None"

lemma published_publish: "distinct (map fst snap) \<Longrightarrow> published_index (publish_states snap g)"
  by (simp add: published_index_def publish_states_def current_states_def)

lemma target_by_key:
  assumes "published_index g" and "PushTargetByKey k g = Some pt"
  shows "\<exists>s. map_of (current_states g) k = Some s \<and> receives s \<and> pt = \<lparr>pt_key = k, pt_push = pa_push (ms_parsed s)\<rparr> \<and>
    PushTokenOf k g = parsed_PushToken (ms_parsed s)"
  using assms by (auto simp: published_index_def PushTargetByKey_def PushTokenOf_def index_by_key index_tokens
      simp del: map_of_eq_Some_iff split: option.splits if_splits)

lemma target_by_token:
  assumes "published_index g"
  shows "PushTargetByToken token g =
    (if token = [] then None
     else case token_users (current_states g) token of
            [k] \<Rightarrow> map_option (\<lambda>s. \<lparr>pt_key = k, pt_push = pa_push (ms_parsed s)\<rparr>) (map_of (current_states g) k)
          | _ \<Rightarrow> None)"
proof -
  let ?snap = "current_states g"
  have d: "distinct (map fst ?snap)" and ix: "mg_index g = Some (newPushIndex ?snap)"
    using assms by (simp_all add: published_index_def)
  show ?thesis
  proof (cases "ix_by_token (newPushIndex ?snap) token")
    case None
    then have "token \<noteq> [] \<Longrightarrow> token_users ?snap token \<noteq> [k]" for k
      using index_by_token [OF d, of token k] by auto
    then show ?thesis using None by (auto simp: PushTargetByToken_def ix split: list.split)
  next
    case (Some k)
    then have u: "token \<noteq> []" "token_users ?snap token = [k]" using index_by_token [OF d] by auto
    then obtain s where "map_of ?snap k = Some s" "receives s"
      using token_users_member [OF d, of k token] by auto
    then show ?thesis using Some u by (simp add: PushTargetByToken_def ix index_by_key [OF d])
  qed
qed

lemma owners_entry: "k \<in> set (owners entries s) \<longleftrightarrow> (\<exists>t. (t, s) \<in> set entries \<and> tg_key t = k)"
  by (force simp: owners_def)

text \<open>The form with the token alone.\<close>

lemma Resolve_token:
  assumes "published_index g"
  shows "Resolve sha (NewResolver c) g ks token [] =
    (if token = [] then None
     else case owners (config_receivers c) token of
            [k] \<Rightarrow> Some (the (rs_targets (NewResolver c) k), [])
          | _ \<Rightarrow> map_option (\<lambda>pt. (managed_target pt, [])) (PushTargetByToken token g))"
proof (cases "token = []")
  case False
  note F = NewResolver_facts(4) [OF False, of c]
  show ?thesis
  proof (cases "rs_tokens (NewResolver c) token")
    case None
    then have "owners (config_receivers c) token \<noteq> [k]" for k using F [of k] by simp
    then show ?thesis using False None by (auto simp: Resolve_def split: list.split)
  next
    case (Some k)
    then have o: "owners (config_receivers c) token = [k]" using F by simp
    then obtain t where "(t, token) \<in> set (config_receivers c)" "tg_key t = k"
      using owners_entry [of k "config_receivers c" token] by auto
    then obtain t' where "rs_targets (NewResolver c) k = Some t'" using NewResolver_facts(2) [of t token c] by auto
    then show ?thesis using False Some o by (simp add: Resolve_def)
  qed
qed (simp add: Resolve_def)

end
