(* ===== verification/ManagedExamples.thy ===== *)
theory ManagedExamples
  imports ManagedServiceSafety PushResolver
begin

text \<open>
  Concrete objects for the properties of the managed endpoints: an empty service on an empty database, and a YAML
  package whose texts are the names of push endpoints.
\<close>

definition sample_push :: "string \<Rightarrow> external_endpoint" where
  "sample_push name =
     \<lparr>ee_enabled = None, ee_name = name, ee_group = ''g'', ee_token = name @ ''-secret-1'', ee_alerts = [],
      ee_maintenance_windows = [], ee_heartbeat = \<lparr>hb_interval = 0, hb_retries = 0\<rparr>, ee_failures = 0, ee_successes = 0\<rparr>"

definition sample_yaml :: yaml_lib where
  "sample_yaml =
     \<lparr>y_first_document = (\<lambda>_. Decoded ()), y_second_document = (\<lambda>_. DecodeEOF),
      y_unmarshal = (\<lambda>s. Decoded (Some [(''type'', VStr ''push''), (''name'', VStr s)])),
      y_marshal = (\<lambda>d. case map_of d ''name'' of Some (VStr s) \<Rightarrow> Some s | _ \<Rightarrow> None),
      y_marshal_value = (\<lambda>_. None), y_decode_endpoint = (\<lambda>_. DecodeError),
      y_decode_external = (\<lambda>s. Decoded (sample_push s)), y_decode_push_option = (\<lambda>_. DecodeError),
      y_marshal_endpoint = (\<lambda>_. None), y_marshal_external = (\<lambda>ee. Some (ee_name ee))\<rparr>"

definition sample_url_lib :: url_lib where
  "sample_url_lib = \<lparr>url_Parse = (\<lambda>_. None), url_String = (\<lambda>_. [])\<rparr>"

definition sample_config :: config where
  "sample_config =
     \<lparr>cfg_disable_monitoring_lock = False, cfg_concurrency = 1, cfg_metrics_namespace = [], cfg_push = None,
      cfg_alerting = None, cfg_endpoints = [], cfg_external_endpoints = [sample_push ''door''], cfg_suites = [],
      cfg_storage = None, cfg_maintenance = None, cfg_tunnels = None\<rparr>"

definition sample_validation :: validation_env where
  "sample_validation =
     \<lparr>ve_lib = \<lparr>unmarshal = (\<lambda>_. None), marshal = (\<lambda>_. []), parse_duration = (\<lambda>_. None), parse_float = (\<lambda>_. None), float_text = (\<lambda>_. None)\<rparr>,
      ve_load = (\<lambda>_. None), ve_known_dns = (\<lambda>_. False), ve_load_key_pair = (\<lambda>_ _. None), ve_request_ok = (\<lambda>_. True)\<rparr>"

definition sample_context :: prepare_context where
  "sample_context =
     \<lparr>px_config = sample_config, px_env = sample_validation, px_managed_keys = [], px_allowed_labels = [],
      px_push_tokens = (\<lambda>_. None), px_is_push_key_token = (\<lambda>_. False), px_alerting = None\<rparr>"

definition sample_service_env :: "unit service_env" where
  "sample_service_env =
     \<lparr>se_yaml = sample_yaml, se_url = sample_url_lib, se_context = sample_context, se_sha = (\<lambda>s. s), se_cycle = False,
      se_supported = True, se_now = 5, se_random = (\<lambda>_. Some 0), se_participant = None\<rparr>"

definition empty_db :: managed_db where
  "empty_db =
     \<lparr>db_table = (\<lambda>_. []), db_push_keys = [], db_next_push_key = 1, db_sql = empty_sql, db_tx = TxNoFault\<rparr>"

definition empty_service :: "unit service_state" where
  "empty_service =
     \<lparr>sv_states = publish_states [] \<lparr>mg_states = None, mg_index = None, mg_config_definitions = [], mg_unavailable = False\<rparr>,
      sv_monitor = \<lparr>mo_store = empty_db, mo_last_pushes = (\<lambda>_. None), mo_retries_used = (\<lambda>_. None),
                    mo_registry = Some newEndpointRegistry, mo_published = [], mo_metrics = [], mo_notices = []\<rparr>,
      sv_pages = (), sv_deleted_metrics = [], sv_forgotten = []\<rparr>"

text \<open>Two endpoints are created, the first is updated.\<close>

definition sample_ops :: "(unit service_env \<times> service_op) list" where
  "sample_ops =
     [(sample_service_env, CreateOp ''lift'' ''ann''), (sample_service_env, CreateOp ''gate'' ''ann''),
      (sample_service_env, UpdateOp ''g_lift'' ''lift'' 1 ''bob'')]"

end
