(* ===== verification/ManagedProperties.thy ===== *)
theory ManagedProperties
  imports ManagedExamples
begin

text \<open>
  Properties of what is managed through the administration: the changes of the managed endpoints and of the push
  keys, the tokens of pushes, the versions of the rows, the secrets of the definitions.
\<close>

subsection \<open>Changes\<close>

lemma empty_service_inv: "service_inv empty_service"
proof -
  have "reg_ok (Some newEndpointRegistry)"
    by (simp add: reg_ok_def reg_inv_new) (simp add: newEndpointRegistry_def)
  moreover have "admin_at (Some newEndpointRegistry) k = None" for k
    by (simp add: admin_at_def monitored_at_def newEndpointRegistry_def)
  ultimately show ?thesis
    by (simp add: service_inv_def Let_def empty_service_def publish_states_def current_states_def empty_db_def
        tokens_unique_def monitors_at_def)
qed

lemma sample_run:
  "map (\<lambda>(k, r). (k, mgd_version r, mgd_updated_by r))
     (db_table (mo_store (sv_monitor (service_run sample_ops empty_service))) ManagedEndpointsTable) =
   [(''g_lift'', 2, ''bob''), (''g_gate'', 1, ''ann'')]"
  by code_simp

text \<open>C9. From a consistent state, every run of operations, whatever faults each meets, leaves a consistent state.\<close>

theorem managed_runs_keep_invariant: "service_inv sv \<Longrightarrow> service_inv (service_run ops sv)"
  by (rule service_run_inv)

lemma managed_runs_keep_invariant_witness:
  "service_inv (service_run sample_ops empty_service) \<and>
   length (db_table (mo_store (sv_monitor (service_run sample_ops empty_service))) ManagedEndpointsTable) = 2"
  using managed_runs_keep_invariant [OF empty_service_inv, of sample_ops] arg_cong [OF sample_run, of length]
  by simp

lemma managed_update_cases:
  assumes "service_inv sv" and "service_update se key raw v author sv = (res, sv')"
  shows "isl res \<and> unchanged sv sv' \<or>
    (\<exists>old new. managed_Get key (sv_states sv) = Some old \<and> mgd_version (ms_stored old) = v \<and>
       mgd_version (ms_stored new) = v + 1 \<and> mgd_created_at (ms_stored new) = mgd_created_at (ms_stored old) \<and>
       mgd_updated_at (ms_stored new) = se_now se \<and> mgd_updated_by (ms_stored new) = author \<and>
       fits key new (current_states (sv_states sv)) \<and> replaced key new sv sv' \<and> answers se new res)"
  using service_update_cases [OF assms]
proof (elim disjE exE conjE)
  fix u assume check: "check_update se (sv_states sv) key raw v = Inr u"
    and out: "update_outcome se u key v author res sv sv'"
  note C = check_update_ok [OF check]
  obtain p where p: "same_target p (pr_parsed (up_prepared u))"
    and new: "replaced key (newStateFromPrepared (updated_row (se_now se) (update_input u author) v (ms_stored (up_state u)))
       ((up_prepared u)\<lparr>pr_parsed := p\<rparr>) (up_effective u)) sv sv'"
    and ans: "answers se (newStateFromPrepared (updated_row (se_now se) (update_input u author) v (ms_stored (up_state u)))
       ((up_prepared u)\<lparr>pr_parsed := p\<rparr>) (up_effective u)) res"
    using out by (auto simp: update_outcome_def Let_def)
  let ?stored = "updated_row (se_now se) (update_input u author) v (ms_stored (up_state u))"
  let ?new = "newStateFromPrepared ?stored ((up_prepared u)\<lparr>pr_parsed := p\<rparr>) (up_effective u)"
  have "fits key ?new (current_states (sv_states sv))"
    by (rule prepared_fits(1) [OF assms(1) C(3) p]) (simp add: updated_row_def update_input_def)
  moreover have "ms_stored ?new = ?stored" by (simp add: newStateFromPrepared_def)
  moreover have "mgd_version ?stored = v + 1" "mgd_created_at ?stored = mgd_created_at (ms_stored (up_state u))"
    "mgd_updated_at ?stored = se_now se" "mgd_updated_by ?stored = author"
    by (simp_all add: updated_row_def update_input_def)
  ultimately show ?thesis using C(1,2) new ans by metis
qed blast

text \<open>C3. An update changes everything together or nothing: it either fails and leaves the rows, the snapshot and the
  monitored endpoints as they were, or replaces the row, the state and the monitored endpoint by those of the new version.
  After a replacement the answer is the detail of the new state, and an error only when this detail cannot be built.\<close>

theorem managed_update_all_or_nothing:
  assumes "service_inv sv" and "service_update se key raw v author sv = (res, sv')"
  shows "isl res \<and> unchanged sv sv' \<or>
    (\<exists>old new. managed_Get key (sv_states sv) = Some old \<and> mgd_version (ms_stored old) = v \<and>
       mgd_version (ms_stored new) = v + 1 \<and> mgd_created_at (ms_stored new) = mgd_created_at (ms_stored old) \<and>
       mgd_updated_at (ms_stored new) = se_now se \<and> mgd_updated_by (ms_stored new) = author \<and>
       fits key new (current_states (sv_states sv)) \<and> replaced key new sv sv' \<and>
       (case adminDetail (se_yaml se) (se_url se) new of
          Inl e \<Rightarrow> res = Inl e
        | Inr d \<Rightarrow> (\<exists>pages. res = Inr (d\<lparr>dt_affected_pages := pages\<rparr>))))"
  using managed_update_cases [OF assms] unfolding answers_def .

definition sample_update :: "(service_error + detail) \<times> unit service_state" where
  "sample_update =
     service_update sample_service_env ''g_lift'' ''lift'' 1 ''bob'' (service_run (take 2 sample_ops) empty_service)"

text \<open>The update of the sample succeeds; the same with the next version is refused and changes nothing.\<close>

lemma managed_update_all_or_nothing_witness:
  "(let sv = service_run (take 2 sample_ops) empty_service; (res, sv') = sample_update
    in \<not> isl res \<and> (\<exists>old new. managed_Get ''g_lift'' (sv_states sv) = Some old \<and> mgd_version (ms_stored old) = 1 \<and>
       mgd_version (ms_stored new) = 2 \<and> replaced ''g_lift'' new sv sv')) \<and>
   (case service_update sample_service_env ''g_lift'' ''lift'' 2 ''bob'' (service_run (take 2 sample_ops) empty_service) of
      (res, sv') \<Rightarrow> isl res \<and> unchanged (service_run (take 2 sample_ops) empty_service) sv')"
proof -
  let ?sv = "service_run (take 2 sample_ops) empty_service"
  note inv = service_run_inv [OF empty_service_inv, of "take 2 sample_ops"]
  obtain res sv' where u: "sample_update = (res, sv')" by fastforce
  have "\<not> isl (fst sample_update)" by code_simp
  then have ok: "\<not> isl res" by (simp add: u)
  then have "\<exists>old new. managed_Get ''g_lift'' (sv_states ?sv) = Some old \<and> mgd_version (ms_stored old) = 1 \<and>
       mgd_version (ms_stored new) = 2 \<and> replaced ''g_lift'' new ?sv sv'"
    using managed_update_all_or_nothing [OF inv u [unfolded sample_update_def]] by auto
  moreover obtain res2 sv2 where
    u2: "service_update sample_service_env ''g_lift'' ''lift'' 2 ''bob'' ?sv = (res2, sv2)" by fastforce
  have "map_option (\<lambda>s. mgd_version (ms_stored s)) (managed_Get ''g_lift'' (sv_states ?sv)) = Some 1" by code_simp
  then have "isl res2 \<and> unchanged ?sv sv2"
    using managed_update_all_or_nothing [OF inv u2] by auto
  ultimately show ?thesis unfolding Let_def u u2 prod.case using ok by blast
qed

text \<open>C25. Of two updates with the same expected version, at most one succeeds: the other changes nothing.\<close>

theorem one_update_per_version:
  assumes "service_inv sv" and "service_update se key raw v author sv = (Inr d, sv1)"
    and "service_update se' key raw' v author' sv1 = (res, sv2)"
  shows "isl res \<and> sv2 = sv1"
proof -
  obtain new where new: "mgd_version (ms_stored new) = v + 1" "replaced key new sv sv1"
    using managed_update_cases [OF assms(1,2)] by auto
  then have states: "managed_Get key (sv_states sv1) = (if mgd_key (ms_stored new) = key then Some new else None)"
    by (simp add: replaced_def Let_def replaceState_def publish_states_def managed_Get_def current_states_def)
  have "isl (check_update se' (sv_states sv1) key raw' v)"
    by (cases "mgd_key (ms_stored new) = key") (simp_all add: check_update_def managedState_def states new(1) split: option.split)
  then show ?thesis using assms(3) by (auto simp: service_update_def isl_def)
qed

lemma one_update_per_version_witness:
  "isl (fst (service_update sample_service_env ''g_lift'' ''gate'' 1 ''eve'' (snd sample_update))) \<and>
   snd (service_update sample_service_env ''g_lift'' ''gate'' 1 ''eve'' (snd sample_update)) = snd sample_update"
proof -
  have ok: "\<not> isl (fst sample_update)" by code_simp
  then obtain d where d: "fst sample_update = Inr d" by (cases "fst sample_update") auto
  have "service_update sample_service_env ''g_lift'' ''lift'' 1 ''bob'' (service_run (take 2 sample_ops) empty_service) =
      (Inr d, snd sample_update)"
    using d by (metis prod.collapse sample_update_def)
  from one_update_per_version [OF service_run_inv [OF empty_service_inv] this, of sample_service_env "''gate''" "''eve''"]
  show ?thesis by (metis prod.collapse)
qed

subsection \<open>Versions of the rows\<close>

text \<open>A run of updates of a table: the expected versions of those of the key \<open>k\<close> that succeeded, and the final state.\<close>

fun update_run ::
    "managed_table \<Rightarrow> string \<Rightarrow> ((time \<times> tx_fault \<times> ('m \<Rightarrow> 'a option \<times> 'm)) \<times> managed_row \<times> int) list \<Rightarrow>
     managed_db \<times> 'm \<Rightarrow> int list \<times> managed_db \<times> 'm" where
  "update_run tb k [] s = ([], s)"
| "update_run tb k ((env, r, v) # us) s =
     (let (ok, s') = table_step tb env r v s; (vs, s'') = update_run tb k us s'
      in (if ok \<and> mgd_key r = k then v # vs else vs, s''))"

lemma update_run_eq: "update_run tb k us s = tables.run tb k us s"
proof (induction us arbitrary: s)
  case (Cons u us)
  then show ?case by (cases u) (simp add: Let_def split_beta)
qed simp

text \<open>C20. Of any run of updates of a table, those of a row that succeed have consecutive versions: none is lost.\<close>

theorem no_update_is_lost:
  assumes "map_of (db_table db tb) k = Some old" and "update_run tb k us (db, m) = (vs, db', m')"
  shows "\<exists>new. map_of (db_table db' tb) k = Some new \<and> mgd_created_at new = mgd_created_at old \<and>
     mgd_version old \<le> mgd_version new \<and> vs = [mgd_version old .. mgd_version new - 1]"
  using tables.run_consecutive [of tb "(db, m)" k old us] assms by (simp add: update_run_eq table_row_def)

definition sample_row :: managed_row where
  "sample_row =
     \<lparr>mgd_key = ''page'', mgd_definition = ''d'', mgd_version = 1, mgd_created_at = 1, mgd_updated_at = 1, mgd_updated_by = ''ann''\<rparr>"

definition page_db :: managed_db where
  "page_db = empty_db\<lparr>db_table := (\<lambda>_. [])(ManagedStatusPagesTable := [(''page'', sample_row)])\<rparr>"

definition page_updates :: "((time \<times> tx_fault \<times> (unit \<Rightarrow> unit option \<times> unit)) \<times> managed_row \<times> int) list" where
  "page_updates =
     map (\<lambda>(f, v). ((7, f, no_apply), sample_row, v))
       [(TxNoFault, 1), (TxNoFault, 1), (TxCommit, 2), (TxLost, 2), (TxNoFault, 2), (TxNoFault, 4)]"

lemma no_update_is_lost_witness:
  "\<exists>new. map_of (db_table (fst (snd (update_run ManagedStatusPagesTable ''page'' page_updates (page_db, ())))) ManagedStatusPagesTable)
       ''page'' = Some new \<and> mgd_created_at new = mgd_created_at sample_row \<and> mgd_version sample_row \<le> mgd_version new \<and>
     [1, 2] = [mgd_version sample_row .. mgd_version new - 1]"
proof -
  have "fst (update_run ManagedStatusPagesTable ''page'' page_updates (page_db, ())) = [1, 2]" by code_simp
  then obtain db m where r: "update_run ManagedStatusPagesTable ''page'' page_updates (page_db, ()) = ([1, 2], db, m)"
    by (cases "update_run ManagedStatusPagesTable ''page'' page_updates (page_db, ())") auto
  have "map_of (db_table page_db ManagedStatusPagesTable) ''page'' = Some sample_row"
    by (simp add: page_db_def)
  from no_update_is_lost [OF this r] show ?thesis by (simp add: r)
qed

subsection \<open>Pushes\<close>

lemma Resolve_token_sound:
  assumes "published_index g" and "Resolve sha (NewResolver c) g ks token [] = Some (t, name)"
  shows "receiver c g t \<and> owns_token c g (tg_key t) token"
proof -
  have token: "token \<noteq> []" using assms(2) by (auto simp: Resolve_def)
  show ?thesis
  proof (cases "\<exists>k. owners (config_receivers c) token = [k]")
    case True
    then obtain k where k: "owners (config_receivers c) token = [k]" by blast
    then obtain t0 where "(t0, token) \<in> set (config_receivers c)" "tg_key t0 = k"
      using owners_entry [of k "config_receivers c" token] by auto
    then obtain t' where "rs_targets (NewResolver c) k = Some t'" using NewResolver_facts(2) [of t0 token c] by auto
    then show ?thesis
      using assms(2) k token NewResolver_facts(1) [of c k t'] by (auto simp: Resolve_token [OF assms(1)] receiver_def owns_token_def)
  next
    case False
    then have "map_option (\<lambda>pt. (managed_target pt, [])) (PushTargetByToken token g) = Some (t, name)"
      using assms(2) token by (auto simp: Resolve_token [OF assms(1)] split: list.splits)
    then obtain pt where pt: "PushTargetByToken token g = Some pt" "t = managed_target pt" by auto
    then obtain k s where k: "token_users (current_states g) token = [k]" "map_of (current_states g) k = Some s"
      "pt = \<lparr>pt_key = k, pt_push = pa_push (ms_parsed s)\<rparr>"
      using token by (auto simp: target_by_token [OF assms(1)] simp del: map_of_eq_Some_iff split: list.splits)
    have "receives s"
      using token_users_member [of "current_states g" k token] k assms(1) by (auto simp: published_index_def)
    then show ?thesis using k pt token by (auto simp: receiver_def owns_token_def managed_target_def)
  qed
qed

lemma Resolve_key_sound:
  assumes "published_index g" and "Resolve sha (NewResolver c) g ks token endpointKey = Some (t, name)" and "endpointKey \<noteq> []"
  shows "receiver c g t \<and> tg_key t = to_lower endpointKey \<and> (owns_token c g (tg_key t) token \<or> global_token sha c ks token)"
proof -
  let ?rs = "NewResolver c" and ?k = "to_lower endpointKey"
  have token: "token \<noteq> []" using assms(2) by (auto simp: Resolve_def)
  obtain own where found: "(case rs_targets ?rs ?k of
          Some t \<Rightarrow> Some (t, case rs_endpoint_tokens ?rs ?k of None \<Rightarrow> [] | Some s \<Rightarrow> s)
        | None \<Rightarrow> map_option (\<lambda>pt. (managed_target pt, PushTokenOf ?k g)) (PushTargetByKey ?k g)) = Some (t, own)"
    and accepted: "own = token \<or> rs_global_keys ?rs (sha token) \<noteq> None \<or> pushkey_Lookup sha token ks \<noteq> None"
    using assms(2,3) token by (auto simp: Resolve_def Let_def split: option.splits if_splits)
  have "receiver c g t \<and> tg_key t = ?k \<and> (own = token \<longrightarrow> owns_token c g ?k token)"
  proof (cases "rs_targets ?rs ?k")
    case (Some t')
    then have "t' = t" "own = (case rs_endpoint_tokens ?rs ?k of None \<Rightarrow> [] | Some s \<Rightarrow> s)" using found by auto
    then show ?thesis
      using NewResolver_facts(1) [OF Some] NewResolver_facts(3) [of c ?k token] token
      by (auto simp: receiver_def owns_token_def split: option.splits)
  next
    case None
    then obtain pt where pt: "PushTargetByKey ?k g = Some pt" "t = managed_target pt" "own = PushTokenOf ?k g"
      using found by auto
    from target_by_key [OF assms(1) pt(1)] obtain s where s: "map_of (current_states g) ?k = Some s" "receives s"
      "pt = \<lparr>pt_key = ?k, pt_push = pa_push (ms_parsed s)\<rparr>" "PushTokenOf ?k g = parsed_PushToken (ms_parsed s)"
      by blast
    then show ?thesis
      using pt token token_users_member [of "current_states g" ?k token] assms(1)
      by (auto simp: receiver_def owns_token_def managed_target_def published_index_def)
  qed
  then show ?thesis
    using accepted NewResolver_facts(5) [of c "sha token"] by (auto simp: global_token_def)
qed

text \<open>C6. 
  A push is accepted for an enabled endpoint that receives pushes, with a token of that endpoint or, when its key is
  given, with a global key.
\<close>

theorem push_needs_a_token_of_its_endpoint:
  assumes "published_index g" and "Resolve sha (NewResolver c) g ks token endpointKey = Some (t, name)"
  shows "receiver c g t \<and>
    (owns_token c g (tg_key t) token \<or>
     endpointKey \<noteq> [] \<and> tg_key t = to_lower endpointKey \<and> global_token sha c ks token)"
  using Resolve_token_sound [of g sha c ks token t name] Resolve_key_sound [OF assms] assms by blast

definition sample_states :: managed_registry where
  "sample_states = sv_states (service_run sample_ops empty_service)"

lemma sample_published: "published_index sample_states"
  using service_invD(1,2) [OF service_run_inv [OF empty_service_inv, of sample_ops]]
  by (simp add: published_index_def sample_states_def)

definition sample_resolve :: "string \<Rightarrow> string \<Rightarrow> (target \<times> string) option" where
  "sample_resolve = Resolve (\<lambda>s. s) (NewResolver sample_config) sample_states None"

lemma push_needs_a_token_of_its_endpoint_witness:
  "receiver sample_config sample_states (fst (the (sample_resolve ''lift-secret-1'' ''G_Lift''))) \<and>
   (owns_token sample_config sample_states (tg_key (fst (the (sample_resolve ''lift-secret-1'' ''G_Lift'')))) ''lift-secret-1'' \<or>
    ''G_Lift'' \<noteq> [] \<and> tg_key (fst (the (sample_resolve ''lift-secret-1'' ''G_Lift''))) = to_lower ''G_Lift'' \<and>
    global_token (\<lambda>s. s) sample_config None ''lift-secret-1'')"
proof -
  have "map_option snd (sample_resolve ''lift-secret-1'' ''G_Lift'') = Some []" by code_simp
  then obtain t where "sample_resolve ''lift-secret-1'' ''G_Lift'' = Some (t, [])" by auto
  with push_needs_a_token_of_its_endpoint [OF sample_published this [unfolded sample_resolve_def]]
  show ?thesis by (simp only: option.sel fst_conv)
qed

text \<open>C23. 
  A token alone leads to its endpoint when exactly one endpoint of the configuration has it, or else exactly one
  managed endpoint; the order in which the snapshot is ranged over plays no role.
\<close>

theorem push_by_token_needs_single_owner:
  assumes "published_index g"
  shows "map_option (tg_key \<circ> fst) (Resolve sha (NewResolver c) g ks token []) =
    (if token = [] then None
     else case owners (config_receivers c) token of
            [k] \<Rightarrow> Some k
          | _ \<Rightarrow> (case token_users (current_states g) token of [k] \<Rightarrow> Some k | _ \<Rightarrow> None))"
proof (cases "\<exists>k. owners (config_receivers c) token = [k]")
  case True
  then obtain k where k: "owners (config_receivers c) token = [k]" by blast
  then obtain t0 where "(t0, token) \<in> set (config_receivers c)" "tg_key t0 = k"
    using owners_entry [of k "config_receivers c" token] by auto
  then obtain t' where "rs_targets (NewResolver c) k = Some t'" using NewResolver_facts(2) [of t0 token c] by auto
  then show ?thesis
    using k NewResolver_facts(1) [of c k t'] by (simp add: Resolve_token [OF assms])
next
  case False
  have "map_option pt_key (PushTargetByToken token g) =
      (if token = [] then None else case token_users (current_states g) token of [k] \<Rightarrow> Some k | _ \<Rightarrow> None)"
  proof (cases "\<exists>k. token_users (current_states g) token = [k]")
    case True
    then obtain k where k: "token_users (current_states g) token = [k]" by blast
    then obtain s where "map_of (current_states g) k = Some s"
      using token_users_member [of "current_states g" k token] assms by (auto simp: published_index_def)
    then show ?thesis by (simp add: target_by_token [OF assms] k)
  qed (auto simp: target_by_token [OF assms] split: list.split)
  then show ?thesis
    using False by (auto simp: Resolve_token [OF assms] managed_target_def option.map_comp comp_def split: list.splits if_splits)
qed

lemma push_by_token_needs_single_owner_witness:
  "(if ''gate-secret-1'' = [] then None
    else case owners (config_receivers sample_config) ''gate-secret-1'' of
           [k] \<Rightarrow> Some k
         | _ \<Rightarrow> (case token_users (current_states sample_states) ''gate-secret-1'' of [k] \<Rightarrow> Some k | _ \<Rightarrow> None)) =
   Some ''g_gate''"
proof -
  have "map_option (tg_key \<circ> fst) (sample_resolve ''gate-secret-1'' []) = Some ''g_gate''" by code_simp
  then show ?thesis
    using push_by_token_needs_single_owner [OF sample_published, of "\<lambda>s. s" sample_config None "''gate-secret-1''"]
    by (simp only: sample_resolve_def)
qed

subsection \<open>Global push keys\<close>

definition hash32 :: "string \<Rightarrow> string" where
  "hash32 s = take 32 (s @ replicate 32 (CHR ''-''))"

definition sample_keys :: "push_key list" where
  "sample_keys = [\<lparr>pk_name = ''ci'', pk_token = ''ci-token-0123456789'', pk_hash = hash32 ''ci-token-0123456789''\<rparr>]"

definition sample_key_env :: "nat \<Rightarrow> key_env" where
  "sample_key_env n = \<lparr>ke_cycle = False, ke_supported = True, ke_now = 9, ke_sha = hash32, ke_random = (\<lambda>_. Some n)\<rparr>"

definition loaded_keys :: key_state where
  "loaded_keys = \<lparr>ks_current = Some (pushkey_Load sample_keys True empty_db), ks_db = empty_db\<rparr>"

definition sample_key_ops :: "(key_env \<times> key_op) list" where
  "sample_key_ops =
     [(sample_key_env 0, CreateKeyOp ''door'' ''ann''), (sample_key_env 1, CreateKeyOp ''lift'' ''ann''),
      (sample_key_env 0, DeleteKeyOp 1)]"

text \<open>C26. 
  The start is a state whose snapshot mirrors the file and the table and in which no stored row has the hash of a key of the
  file (\<open>key_inv\<close>); the hashes of the tokens that are generated are no keys of the file (\<open>fresh_tokens\<close>). Then, after any
  run of creations, restorations and deletions, a token is accepted exactly when its hash is that of a key of the file or of
  a stored row, and a load that can read the table accepts the same tokens. What happens to a row with the hash of a key of
  the file is \<open>deletion_forgets_config_key\<close>.
\<close>

theorem push_keys_survive_restart:
  assumes "key_inv ck st" and "list_all (fresh_tokens ck \<circ> fst) ops"
    and "db_tx (ks_db (key_run ops st)) \<noteq> TxStatement 0"
  shows "(pushkey_Lookup sha token (ks_current (key_run ops st)) \<noteq> None \<longleftrightarrow>
      accepted_hash ck (db_push_keys (ks_db (key_run ops st))) (sha token)) \<and>
    (pushkey_Lookup sha token (Some (pushkey_Load ck True (ks_db (key_run ops st)))) \<noteq> None \<longleftrightarrow>
      pushkey_Lookup sha token (ks_current (key_run ops st)) \<noteq> None)"
proof -
  have inv: "key_inv ck (key_run ops st)" by (rule key_run_inv [OF assms(1,2)])
  then have "keys_mirror ck (db_push_keys (ks_db (key_run ops st))) (pushkey_Load ck True (ks_db (key_run ops st)))"
    using Load_mirror assms(3) by (simp add: key_inv_def)
  then show ?thesis
    using Lookup_iff [OF inv, of sha token] by (simp add: pushkey_Lookup_def keys_mirror_def del: not_None_eq)
qed

lemma push_keys_survive_restart_witness:
  "pushkey_Lookup hash32 (replicate 32 (CHR ''B'')) (Some (pushkey_Load sample_keys True (ks_db (key_run sample_key_ops loaded_keys)))) \<noteq> None \<and>
   pushkey_Lookup hash32 (replicate 32 (CHR ''A'')) (Some (pushkey_Load sample_keys True (ks_db (key_run sample_key_ops loaded_keys)))) = None"
proof -
  have inv: "key_inv sample_keys loaded_keys"
    using Load_mirror [of empty_db sample_keys] by (simp add: key_inv_def loaded_keys_def empty_db_def key_rows_ok_def)
  have fresh: "list_all (fresh_tokens sample_keys \<circ> fst) sample_key_ops"
    unfolding fresh_tokens_def sample_keys_def by code_simp
  have tx: "db_tx (ks_db (key_run sample_key_ops loaded_keys)) \<noteq> TxStatement 0" by code_simp
  have "pushkey_Lookup hash32 (replicate 32 (CHR ''B'')) (ks_current (key_run sample_key_ops loaded_keys)) \<noteq> None"
    "pushkey_Lookup hash32 (replicate 32 (CHR ''A'')) (ks_current (key_run sample_key_ops loaded_keys)) = None"
    by code_simp+
  then show ?thesis
    using push_keys_survive_restart [OF inv fresh tx, of hash32 "replicate 32 (CHR ''B'')"]
      push_keys_survive_restart [OF inv fresh tx, of hash32 "replicate 32 (CHR ''A'')"]
    by blast
qed

text \<open>C40. The deletion of a key with the token of a key of the file also forgets the latter, until the next load.\<close>

theorem deletion_forgets_config_key:
  assumes "key_rows_ok (db_push_keys db)" and "db_tx db = TxNoFault" and "r \<in> set (db_push_keys db)"
    and "\<not> ke_cycle ke" and "ke_supported ke"
    and "k \<in> set ck" and "pk_hash k = sha token" and "row_hash r = sha token"
  shows "pushkey_Lookup sha token (Some (pushkey_Load ck True db)) \<noteq> None \<and>
    (\<exists>st'. pushkey_Delete ke (pkr_id r) \<lparr>ks_current = Some (pushkey_Load ck True db), ks_db = db\<rparr> = (None, st') \<and>
       pushkey_Lookup sha token (ks_current st') = None)"
  using assms by (rule Delete_forgets_config_key)

definition shared_key_row :: push_key_row where
  "shared_key_row =
     \<lparr>pkr_id = 1, pkr_name = ''old'', pkr_token_hash = EncodeToString (hash32 ''ci-token-0123456789''), pkr_hint = [],
      pkr_created_at = 1, pkr_created_by = ''ann''\<rparr>"

definition shared_key_db :: managed_db where
  "shared_key_db = empty_db\<lparr>db_push_keys := [shared_key_row], db_next_push_key := 2\<rparr>"

lemma deletion_forgets_config_key_witness:
  "\<exists>st'. pushkey_Delete (sample_key_env 0) 1 \<lparr>ks_current = Some (pushkey_Load sample_keys True shared_key_db), ks_db = shared_key_db\<rparr> =
       (None, st') \<and> pushkey_Lookup hash32 ''ci-token-0123456789'' (ks_current st') = None"
proof -
  have hash: "length (hash32 s) = HashSize" for s by (simp add: hash32_def HashSize_def)
  have "key_rows_ok (db_push_keys shared_key_db)"
    using hash [of "''ci-token-0123456789''"]
    by (auto simp: key_rows_ok_def shared_key_db_def shared_key_row_def simp del: EncodeToString.simps)
  from deletion_forgets_config_key [OF this, of shared_key_row "sample_key_env 0" "hd sample_keys" sample_keys hash32
      "''ci-token-0123456789''"]
  show ?thesis
    by (simp add: shared_key_db_def empty_db_def sample_key_env_def sample_keys_def row_hash_def shared_key_row_def)
qed

subsection \<open>Secrets\<close>

text \<open>No secret of a definition is left in what the administration shows.\<close>

theorem masked_secrets_hidden: "distinct (map fst d) \<Longrightarrow> secrets_hidden (MaskSecrets lib d)"
  by (rule mask_hides)

definition sample_document :: document where
  "sample_document =
     [(''name'', VStr ''web''),
      (''headers'', VMap [(''Authorization'', VStr ''Bearer t''), (''Accept'', VStr ''text/html'')]),
      (''client'', VMap [(''oauth2'', VMap [(''client-id'', VStr ''i''), (''client-secret'', VStr ''s'')])]),
      (''alerts'', VList [VMap [(''type'', VStr ''slack''), (''provider-override'', VMap [(''webhook-url'', VStr ''u'')])]])]"

lemma masked_secrets_hidden_witness:
  "secrets_hidden (MaskSecrets sample_url_lib sample_document) \<and>
   map_of (MaskSecrets sample_url_lib sample_document) ''headers'' =
     Some (VMap [(''Authorization'', VStr Mask), (''Accept'', VStr ''text/html'')])"
proof -
  have "distinct (map fst sample_document)" by code_simp
  from masked_secrets_hidden [OF this, of sample_url_lib] show ?thesis by code_simp
qed

text \<open>A definition that comes back as it was shown is stored as it was.\<close>

theorem masked_definition_restores:
  assumes "wf_val (VMap d)"
    and "\<And>u. map_of d ''url'' = Some (VStr u) \<Longrightarrow> restoreURL lib (maskURL lib u) u = u"
  shows "RestoreMaskedSecrets lib (MaskSecrets lib d) d = d"
  using assms by (rule mask_restore)

lemma masked_definition_restores_witness:
  "RestoreMaskedSecrets sample_url_lib (MaskSecrets sample_url_lib sample_document) sample_document = sample_document \<and>
   MaskSecrets sample_url_lib sample_document \<noteq> sample_document"
proof -
  have "wf_val (VMap sample_document)" by code_simp
  moreover have "map_of sample_document ''url'' = None" by code_simp
  moreover have "MaskSecrets sample_url_lib sample_document \<noteq> sample_document" by code_simp
  ultimately show ?thesis
    using masked_definition_restores [of sample_document sample_url_lib] by simp
qed

end
