(* ===== verification/ProviderSecrets.thy ===== *)
theory ProviderSecrets
  imports ManagedEndpoints Redaction PushKeys
begin

text \<open>
  The secrets of the definitions of alerting providers (\<^verbatim>\<open>internal/alertprovider\<close>): which fields are secret
  (\<^verbatim>\<open>secrets.go\<close>), their mask and its restoration (\<^verbatim>\<open>mask.go\<close>), the search for a masked secret (\<^verbatim>\<open>restore.go\<close>)
  and the redaction of texts (\<^verbatim>\<open>redact.go\<close>).

  A document is a tree, as in \<open>SecretMask\<close>; a missing stored value is \<open>VNil\<close>. A map is ranged over in the order of
  its entries. A number whose text is that of an integer is taken to be an \<^verbatim>\<open>int\<close>.
\<close>

subsection \<open>Secret fields\<close>

definition clientSecretPaths :: "string list" where
  "clientSecretPaths =
     [''client.oauth2.client-secret'', ''client.proxy-url'', ''client.tls.certificate-file'',
      ''client.tls.private-key-file'']"

definition clientPublicPaths :: "string list" where
  "clientPublicPaths =
     [''client.dns-resolver'', ''client.identity-aware-proxy.audience'', ''client.ignore-redirect'', ''client.insecure'',
      ''client.network'', ''client.oauth2.client-id'', ''client.oauth2.scopes'', ''client.oauth2.token-url'',
      ''client.store-cookies'', ''client.timeout'', ''client.tls.renegotiation'', ''client.tunnel'']"

definition typesWithClient :: "string list" where
  "typesWithClient =
     [''custom'', ''email'', ''gitea'', ''googlechat'', ''mattermost'', ''resend'', ''sendgrid'', ''teams'',
      ''telegram'']"

definition secretPaths :: "(string \<times> string list) list" where
  "secretPaths =
     [(''aws-ses'', [''access-key-id'', ''secret-access-key'']),
      (''clickup'', [''token'']),
      (''custom'', [''body'', ''headers.*'', ''placeholders.*.*'', ''url'']),
      (''datadog'', [''api-key'']),
      (''discord'', [''webhook-url'']),
      (''email'', [''password'']),
      (''gitea'', [''token'']),
      (''github'', [''token'']),
      (''gitlab'', [''authorization-key'', ''webhook-url'']),
      (''googlechat'', [''webhook-url'']),
      (''gotify'', [''token'']),
      (''homeassistant'', [''token'']),
      (''ifttt'', [''webhook-key'']),
      (''ilert'', [''integration-key'']),
      (''incident-io'', [''auth-token'', ''url'']),
      (''line'', [''channel-access-token'']),
      (''matrix'', [''access-token'']),
      (''mattermost'', [''webhook-url'']),
      (''messagebird'', [''access-key'']),
      (''n8n'', [''webhook-url'']),
      (''newrelic'', [''insert-key'']),
      (''ntfy'', [''token'']),
      (''opsgenie'', [''api-key'']),
      (''pagerduty'', [''integration-key'']),
      (''plivo'', [''auth-token'']),
      (''pushover'', [''application-token'', ''user-key'']),
      (''resend'', [''api-key'']),
      (''rocketchat'', [''webhook-url'']),
      (''sendgrid'', [''api-key'']),
      (''signal'', []),
      (''signl4'', [''team-secret'']),
      (''slack'', [''webhook-url'']),
      (''splunk'', [''hec-token'']),
      (''squadcast'', [''webhook-url'']),
      (''teams'', [''webhook-url'']),
      (''teams-workflows'', [''webhook-url'']),
      (''telegram'', [''token'']),
      (''twilio'', [''token'']),
      (''vonage'', [''api-key'', ''api-secret'']),
      (''webex'', [''webhook-url'']),
      (''zapier'', [''webhook-url'']),
      (''zulip'', [''bot-api-key''])]"

definition publicPaths :: "(string \<times> string list) list" where
  "publicPaths =
     [(''aws-ses'', [''from'', ''region'', ''to'']),
      (''clickup'', [''api-url'', ''assignees'', ''content'', ''list-id'', ''name'', ''notify-all'', ''priority'', ''status'']),
      (''custom'', [''method'']),
      (''datadog'', [''site'', ''tags'']),
      (''discord'', [''message-content'', ''title'']),
      (''email'', [''from'', ''host'', ''port'', ''to'', ''username'']),
      (''gitea'', [''assignees'', ''repository-url'']),
      (''github'', [''repository-url'']),
      (''gitlab'', [''environment-name'', ''monitoring-tool'', ''service'', ''severity'']),
      (''googlechat'', []),
      (''gotify'', [''priority'', ''server-url'', ''title'']),
      (''homeassistant'', [''event-type'', ''url'']),
      (''ifttt'', [''event-name'']),
      (''ilert'', []),
      (''incident-io'', [''metadata.*'', ''source-url'']),
      (''line'', [''user-ids'']),
      (''matrix'', [''internal-room-id'', ''server-url'']),
      (''mattermost'', [''channel'']),
      (''messagebird'', [''originator'', ''recipients'']),
      (''n8n'', [''title'']),
      (''newrelic'', [''account-id'', ''region'']),
      (''ntfy'', [''click'', ''disable-cache'', ''disable-firebase'', ''email'', ''priority'', ''topic'', ''url'']),
      (''opsgenie'', [''alias-prefix'', ''entity-prefix'', ''priority'', ''source'', ''tags'']),
      (''pagerduty'', []),
      (''plivo'', [''auth-id'', ''from'', ''to'']),
      (''pushover'', [''device'', ''priority'', ''resolved-priority'', ''sound'', ''title'', ''ttl'']),
      (''resend'', [''from'', ''to'']),
      (''rocketchat'', [''channel'']),
      (''sendgrid'', [''from'', ''to'']),
      (''signal'', [''api-url'', ''number'', ''recipients'']),
      (''signl4'', []),
      (''slack'', [''title'']),
      (''splunk'', [''hec-url'', ''index'', ''source'', ''sourcetype'']),
      (''squadcast'', []),
      (''teams'', [''title'']),
      (''teams-workflows'', [''title'']),
      (''telegram'', [''api-url'', ''id'', ''topic-id'']),
      (''twilio'', [''from'', ''sid'', ''text-twilio-resolved'', ''text-twilio-triggered'', ''to'']),
      (''vonage'', [''from'', ''to'']),
      (''webex'', []),
      (''zapier'', []),
      (''zulip'', [''bot-email'', ''channel-id'', ''domain'', ''topic''])]"

definition matchesPath :: "string \<Rightarrow> string \<Rightarrow> bool" where
  "matchesPath pattern path =
     (let patternSegments = str_split pattern ''.''; pathSegments = str_split path ''.''
      in length pathSegments \<ge> length patternSegments \<and>
         list_all (\<lambda>(segment, s). segment = ''*'' \<or> segment = s) (zip patternSegments pathSegments))"

definition classifiedPaths :: "string \<Rightarrow> bool \<Rightarrow> string list" where
  "classifiedPaths alertType secret =
     (let paths = (case map_of (if secret then secretPaths else publicPaths) alertType of None \<Rightarrow> [] | Some ps \<Rightarrow> ps)
      in if alertType \<in> set typesWithClient
         then paths @ (if secret then clientSecretPaths else clientPublicPaths) else paths)"

definition overridesPrefix :: string where "overridesPrefix = ''overrides[].''"
definition defaultAlertField :: string where "defaultAlertField = ''default-alert''"

definition isSecretPath :: "string \<Rightarrow> string \<Rightarrow> bool" where
  "isSecretPath alertType path0 =
     (let path = trim_prefix path0 overridesPrefix
      in if path = ''group'' then False
         else if prefix (defaultAlertField @ ''.provider-override'') path then True
         else if prefix (defaultAlertField @ ''.'') path then False
         else if list_ex (\<lambda>s. matchesPath s path) (classifiedPaths alertType True) then True
         else if list_ex (\<lambda>s. matchesPath s path) (classifiedPaths alertType False) then False
         else True)"

subsection \<open>Mask and restoration\<close>

definition MaskedValue :: string where
  "MaskedValue = replicate 8 (CHR ''*'')"

fun provider_maskValue :: "string \<Rightarrow> val \<Rightarrow> string \<Rightarrow> val" where
  "provider_maskValue ty (VMap m) path = VMap (map (\<lambda>(k, v). (k, provider_maskValue ty v (joinPath path k))) m)"
| "provider_maskValue ty (VList vs) path = VList (map (\<lambda>v. provider_maskValue ty v (path @ ''[]'')) vs)"
| "provider_maskValue ty VNil path = VNil"
| "provider_maskValue ty (VStr s) path = (if s \<noteq> [] \<and> isSecretPath ty path then VStr MaskedValue else VStr s)"
| "provider_maskValue ty v path = (if path \<noteq> [] \<and> isSecretPath ty path then VStr MaskedValue else v)"

definition provider_MaskSecrets :: "string \<Rightarrow> document \<Rightarrow> document" where
  "provider_MaskSecrets ty d = as_map (Some (provider_maskValue ty (VMap d) []))"

definition groupOf :: "val \<Rightarrow> string" where
  "groupOf element =
     (case map_of (as_map (Some element)) ''group'' of
        Some (VStr g) \<Rightarrow> g
      | Some (VNum s) \<Rightarrow> (if atoi s \<noteq> None then s else [])
      | _ \<Rightarrow> [])"

definition matchingElement :: "string \<Rightarrow> val \<Rightarrow> val list \<Rightarrow> nat \<Rightarrow> val" where
  "matchingElement path submitted stored i =
     (if path = ''overrides''
      then (case find (\<lambda>e. groupOf e = groupOf submitted) stored of None \<Rightarrow> VNil | Some e \<Rightarrow> e)
      else if i < length stored then stored ! i else VNil)"

text \<open>The results of a loop that stops at the first error.\<close>

fun collect :: "('e + 'a) list \<Rightarrow> 'e + 'a list" where
  "collect [] = Inr []"
| "collect (Inl e # rs) = Inl e"
| "collect (Inr x # rs) = (case collect rs of Inl e \<Rightarrow> Inl e | Inr xs \<Rightarrow> Inr (x # xs))"

text \<open>\<open>restoreValue\<close>; the error is the path of a secret with the mask and no stored value.\<close>

function (sequential) provider_restoreValue :: "string \<Rightarrow> val \<Rightarrow> val \<Rightarrow> string \<Rightarrow> string + val" where
  "provider_restoreValue ty (VMap m) stored path =
     (case collect (map (\<lambda>(k, v).
             (case provider_restoreValue ty v
                     (case map_of (as_map (Some stored)) k of None \<Rightarrow> VNil | Some w \<Rightarrow> w) (joinPath path k) of
                Inl e \<Rightarrow> Inl e | Inr r \<Rightarrow> Inr (k, r))) m) of
        Inl e \<Rightarrow> Inl e | Inr m' \<Rightarrow> Inr (VMap m'))"
| "provider_restoreValue ty (VList vs) stored path =
     (case collect (map (\<lambda>(i, v).
             provider_restoreValue ty v (matchingElement path v (list_value (Some stored)) i) (path @ ''[]''))
             (enumerate 0 vs)) of
        Inl e \<Rightarrow> Inl e | Inr vs' \<Rightarrow> Inr (VList vs'))"
| "provider_restoreValue ty (VStr s) stored path =
     (if s \<noteq> MaskedValue \<or> \<not> isSecretPath ty path then Inr (VStr s)
      else if stored = VNil then Inl path else Inr stored)"
| "provider_restoreValue ty v stored path = Inr v"
  by pat_completeness auto

termination provider_restoreValue
  by (relation "measure (\<lambda>(_, v, _). size v)") (auto dest: size_enumerate size_entry)

definition RestoreSecrets :: "string \<Rightarrow> document \<Rightarrow> document \<Rightarrow> string + document" where
  "RestoreSecrets ty submitted stored =
     (case provider_restoreValue ty (VMap submitted) (VMap stored) [] of
        Inl e \<Rightarrow> Inl e | Inr v \<Rightarrow> Inr (as_map (Some v)))"

fun hasMaskedSecret :: "string \<Rightarrow> val \<Rightarrow> string \<Rightarrow> bool" where
  "hasMaskedSecret ty (VMap m) path = list_ex (\<lambda>(k, v). hasMaskedSecret ty v (joinPath path k)) m"
| "hasMaskedSecret ty (VList vs) path = list_ex (\<lambda>v. hasMaskedSecret ty v (path @ ''[]'')) vs"
| "hasMaskedSecret ty (VStr s) path = (s = MaskedValue \<and> isSecretPath ty path)"
| "hasMaskedSecret ty v path = False"

subsection \<open>Redaction\<close>

definition minimumRedactedLength :: nat where "minimumRedactedLength = 4"
definition maximumDiagnosticLength :: nat where "maximumDiagnosticLength = 512"

fun secretValues :: "string \<Rightarrow> val \<Rightarrow> string \<Rightarrow> string list" where
  "secretValues ty (VMap m) path = concat (map (\<lambda>(k, v). secretValues ty v (joinPath path k)) m)"
| "secretValues ty (VList vs) path = concat (map (\<lambda>v. secretValues ty v (path @ ''[]'')) vs)"
| "secretValues ty VNil path = []"
| "secretValues ty v path =
     (if path \<noteq> [] \<and> isSecretPath ty path \<and> length (fmt_v v) \<ge> minimumRedactedLength \<and> fmt_v v \<noteq> MaskedValue
      then [fmt_v v] else [])"

text \<open>\<^verbatim>\<open>url.QueryEscape\<close> and \<^verbatim>\<open>url.PathEscape\<close>.\<close>

definition upper_hex_digit :: "nat \<Rightarrow> char" where
  "upper_hex_digit n = (if n < 10 then char_of (48 + n) else char_of (55 + n))"

definition unreserved :: "char \<Rightarrow> bool" where
  "unreserved c \<longleftrightarrow>
     (let n = of_char c :: nat
      in 48 \<le> n \<and> n \<le> 57 \<or> 65 \<le> n \<and> n \<le> 90 \<or> 97 \<le> n \<and> n \<le> 122 \<or> c \<in> set ''-_.~'')"

definition percent :: "char \<Rightarrow> string" where
  "percent c = [CHR ''%'', upper_hex_digit (of_char c div 16), upper_hex_digit (of_char c mod 16)]"

definition QueryEscape :: "string \<Rightarrow> string" where
  "QueryEscape s = concat (map (\<lambda>c. if unreserved c then [c] else if c = CHR '' '' then ''+'' else percent c) s)"

definition PathEscape :: "string \<Rightarrow> string" where
  "PathEscape s = concat (map (\<lambda>c. if unreserved c \<or> c \<in> set ''$&+:=@'' then [c] else percent c) s)"

text \<open>
  \<^verbatim>\<open>json.Marshal\<close> of a string, without the quotes around it: control characters, quotes, backslashes and the
  characters of HTML are escaped, so are the two line separators, and invalid bytes become the replacement character.
\<close>

definition backslash :: char where "backslash = char_of (92 :: nat)"

definition json_unicode :: "nat \<Rightarrow> string" where
  "json_unicode n = (backslash # ''u00'') @ [hex_digit (n div 16), hex_digit (n mod 16)]"

definition json_char :: "char \<Rightarrow> string" where
  "json_char c =
     (let n = of_char c :: nat
      in if n = 34 \<or> n = 92 then [backslash, c]
         else if n = 8 then (backslash # ''b'') else if n = 12 then (backslash # ''f'') else if n = 10 then (backslash # ''n'')
         else if n = 13 then (backslash # ''r'') else if n = 9 then (backslash # ''t'')
         else if n < 32 \<or> n = 60 \<or> n = 62 \<or> n = 38 then json_unicode n
         else [c])"

definition json_rune :: "string \<Rightarrow> string" where
  "json_rune r =
     (case r of
        [c] \<Rightarrow> (if of_char c < (128 :: nat) then json_char c else (backslash # ''ufffd''))
      | _ \<Rightarrow>
          (if map of_char r = [226, 128, 168 :: nat] then (backslash # ''u2028'')
           else if map of_char r = [226, 128, 169 :: nat] then (backslash # ''u2029'') else r))"

definition json_escape :: "string \<Rightarrow> string" where
  "json_escape s = concat (map json_rune (runes s))"

text \<open>\<^verbatim>\<open>strings.Trim(s, "\"")\<close> of the quoted text.\<close>

definition trim_quotes :: "string \<Rightarrow> string" where
  "trim_quotes s = rev (dropWhile (\<lambda>c. of_char c = (34 :: nat)) (rev (dropWhile (\<lambda>c. of_char c = (34 :: nat)) s)))"

definition secret_forms :: "string \<Rightarrow> string list" where
  "secret_forms s = [s, QueryEscape s, PathEscape s, trim_quotes (json_escape s)]"

definition redact_form :: "string \<Rightarrow> string \<Rightarrow> string" where
  "redact_form form text =
     (if length form \<ge> minimumRedactedLength then replace_all text form MaskedValue else text)"

definition ellipsis :: string where
  "ellipsis = map char_of [226, 128, 166 :: nat]"

text \<open>\<open>sort.Slice\<close> puts the longest secrets first; of secrets of one length the model keeps the order.\<close>

definition provider_redact :: "string \<Rightarrow> document \<Rightarrow> string \<Rightarrow> string" where
  "provider_redact ty d text0 =
     (let secrets = sort_key (\<lambda>s. - int (length s)) (secretValues ty (VMap d) []);
          text = fold redact_form (concat (map secret_forms secrets)) text0
      in if length text > maximumDiagnosticLength then take maximumDiagnosticLength text @ ellipsis else text)"

section \<open>Facts\<close>

text \<open>A value in which every secret is empty or masked.\<close>

fun secrets_masked :: "string \<Rightarrow> val \<Rightarrow> string \<Rightarrow> bool" where
  "secrets_masked ty (VMap m) path = list_all (\<lambda>(k, v). secrets_masked ty v (joinPath path k)) m"
| "secrets_masked ty (VList vs) path = list_all (\<lambda>v. secrets_masked ty v (path @ ''[]'')) vs"
| "secrets_masked ty VNil path = True"
| "secrets_masked ty (VStr s) path = (isSecretPath ty path \<longrightarrow> s \<in> {[], MaskedValue})"
| "secrets_masked ty v path = (path = [] \<or> \<not> isSecretPath ty path)"

lemma mask_secrets_masked: "secrets_masked ty (provider_maskValue ty v path) path"
  by (induction ty v path rule: provider_maskValue.induct) (auto simp: list_all_iff)

lemma secrets_masked_no_values: "secrets_masked ty v path \<Longrightarrow> secretValues ty v path = []"
  by (induction ty v path rule: secrets_masked.induct) (auto simp: list_all_iff minimumRedactedLength_def)

text \<open>The overrides of a definition have different groups.\<close>

fun groups_distinct :: "val \<Rightarrow> string \<Rightarrow> bool" where
  "groups_distinct (VMap m) path = list_all (\<lambda>(k, v). groups_distinct v (joinPath path k)) m"
| "groups_distinct (VList vs) path =
     ((path = ''overrides'' \<longrightarrow> distinct (map groupOf vs)) \<and> list_all (\<lambda>v. groups_distinct v (path @ ''[]'')) vs)"
| "groups_distinct v path = True"

lemma collect_all: "(\<And>x. x \<in> set xs \<Longrightarrow> f x = Inr (g x)) \<Longrightarrow> collect (map f xs) = Inr (map g xs)"
  by (induction xs) auto

lemma group_not_secret: "isSecretPath ty ''overrides[].group'' = False"
  by (simp add: isSecretPath_def overridesPrefix_def trim_prefix_def Let_def)

lemma map_of_masked:
  "map_of (map (\<lambda>(k, v). (k, f k v)) m) k = map_option (f k) (map_of m k)"
  by (induction m) auto

lemma groupOf_masked: "groupOf (provider_maskValue ty v ''overrides[]'') = groupOf v"
proof (cases v)
  case (VMap m)
  have "joinPath ''overrides[]'' ''group'' = ''overrides[].group''" by (simp add: joinPath_def)
  then show ?thesis
    by (cases "map_of m ''group''"; cases "the (map_of m ''group'')")
      (simp_all add: VMap groupOf_def as_map_def map_of_masked [of "\<lambda>k v. provider_maskValue ty v (joinPath ''overrides[]'' k)"] group_not_secret)
qed (simp_all add: groupOf_def as_map_def)

lemma find_group:
  "distinct (map groupOf vs) \<Longrightarrow> v \<in> set vs \<Longrightarrow> find (\<lambda>e. groupOf e = groupOf v) vs = Some v"
  by (induction vs) auto

lemma matching_masked:
  assumes "path = ''overrides'' \<longrightarrow> distinct (map groupOf vs)" and "i < length vs"
  shows "matchingElement path (provider_maskValue ty (vs ! i) (path @ ''[]'')) vs i = vs ! i"
  using assms find_group [of vs "vs ! i"] by (auto simp: matchingElement_def groupOf_masked)

lemma provider_value_roundtrip:
  "wf_val v \<Longrightarrow> groups_distinct v path \<Longrightarrow> provider_restoreValue ty (provider_maskValue ty v path) v path = Inr v"
proof (induction ty v path rule: provider_maskValue.induct)
  case (1 ty m path)
  have step: "(case provider_restoreValue ty (provider_maskValue ty v (joinPath path k))
        (case map_of m k of None \<Rightarrow> VNil | Some w \<Rightarrow> w) (joinPath path k) of Inl e \<Rightarrow> Inl e | Inr r \<Rightarrow> Inr (k, r)) = Inr (k, v)"
    if "(k, v) \<in> set m" for k v
  proof -
    have "map_of m k = Some v" using 1(2) that by simp
    moreover have "wf_val v" "groups_distinct v (joinPath path k)" using 1(2,3) that by (auto simp: list_all_iff)
    ultimately show ?thesis using 1(1) [OF that HOL.refl] by simp
  qed
  have "collect (map (\<lambda>(k, v). (case provider_restoreValue ty (provider_maskValue ty v (joinPath path k))
        (case map_of m k of None \<Rightarrow> VNil | Some w \<Rightarrow> w) (joinPath path k) of Inl e \<Rightarrow> Inl e | Inr r \<Rightarrow> Inr (k, r))) m) = Inr (map id m)"
    by (rule collect_all) (use step in auto)
  then show ?case by (simp add: as_map_def comp_def case_prod_unfold cong: sum.case_cong)
next
  case (2 ty vs path)
  have step: "provider_restoreValue ty (provider_maskValue ty (vs ! i) (path @ ''[]''))
      (matchingElement path (provider_maskValue ty (vs ! i) (path @ ''[]'')) vs i) (path @ ''[]'') = Inr (vs ! i)"
    if "i < length vs" for i
    using 2 that matching_masked [of path vs i ty] by (simp add: list_all_length)
  have "collect (map (\<lambda>(i, v). provider_restoreValue ty v (matchingElement path v vs i) (path @ ''[]''))
      (enumerate 0 (map (\<lambda>v. provider_maskValue ty v (path @ ''[]'')) vs))) =
      Inr (map (\<lambda>(i, v). vs ! i) (enumerate 0 (map (\<lambda>v. provider_maskValue ty v (path @ ''[]'')) vs)))"
    by (rule collect_all) (use step in \<open>auto simp: in_set_enumerate_eq\<close>)
  moreover have "map (\<lambda>(i, v). vs ! i) (enumerate 0 (map (\<lambda>v. provider_maskValue ty v (path @ ''[]'')) vs)) = vs"
    by (rule nth_equalityI) (auto simp: nth_enumerate_eq)
  ultimately show ?case by (simp add: list_value_def)
qed auto

text \<open>A restored value has no masked secret, if the stored one has none.\<close>

lemma collect_Inr: "collect rs = Inr xs \<Longrightarrow> rs = map Inr xs"
  by (induction rs arbitrary: xs rule: collect.induct) (auto split: sum.splits)

lemma masked_element:
  "\<not> hasMaskedSecret ty (VList vs) path \<Longrightarrow> \<not> hasMaskedSecret ty (matchingElement path w vs i) (path @ ''[]'')"
  by (auto simp: matchingElement_def list_ex_iff find_Some_iff split: option.split)

lemma restored_not_masked:
  "provider_restoreValue ty v stored path = Inr r \<Longrightarrow> \<not> hasMaskedSecret ty stored path \<Longrightarrow> \<not> hasMaskedSecret ty r path"
proof (induction ty v stored path arbitrary: r rule: provider_restoreValue.induct)
  case (1 ty m stored path)
  let ?child = "\<lambda>k. case map_of (as_map (Some stored)) k of None \<Rightarrow> VNil | Some w \<Rightarrow> w"
  let ?f = "\<lambda>(k, v). (case provider_restoreValue ty v (?child k) (joinPath path k) of Inl e \<Rightarrow> Inl e | Inr r \<Rightarrow> Inr (k, r))"
  obtain m' where m': "collect (map ?f m) = Inr m'" and r: "r = VMap m'"
    using 1(2) by (auto split: sum.splits)
  have child: "\<not> hasMaskedSecret ty (?child k) (joinPath path k)" for k
    using 1(3) by (cases stored) (auto simp: as_map_def list_ex_iff split: option.split dest: map_of_SomeD)
  have "\<not> hasMaskedSecret ty w (joinPath path k)" if "(k, w) \<in> set m'" for k w
  proof -
    have "Inr (k, w) \<in> set (map ?f m)" using that collect_Inr [OF m'] by auto
    then obtain v where v: "(k, v) \<in> set m" "provider_restoreValue ty v (?child k) (joinPath path k) = Inr w"
      by (auto split: sum.splits)
    show ?thesis using 1(1) [OF v(1) HOL.refl v(2) child] .
  qed
  then show ?case by (auto simp: r list_ex_iff)
next
  case (2 ty vs stored path)
  let ?l = "list_value (Some stored)"
  let ?f = "\<lambda>(i, v). provider_restoreValue ty v (matchingElement path v ?l i) (path @ ''[]'')"
  obtain vs' where vs': "collect (map ?f (enumerate 0 vs)) = Inr vs'" and r: "r = VList vs'"
    using 2(2) by (auto split: sum.splits)
  have element: "\<not> hasMaskedSecret ty (matchingElement path v ?l i) (path @ ''[]'')" for v i
    using 2(3) masked_element [of ty ?l path v i]
    by (cases stored) (auto simp: list_value_def matchingElement_def)
  have "\<not> hasMaskedSecret ty w (path @ ''[]'')" if "w \<in> set vs'" for w
  proof -
    have "Inr w \<in> set (map ?f (enumerate 0 vs))" using that collect_Inr [OF vs'] by auto
    then obtain i v where v: "(i, v) \<in> set (enumerate 0 vs)"
      "provider_restoreValue ty v (matchingElement path v ?l i) (path @ ''[]'') = Inr w"
      by auto
    show ?thesis using 2(1) [OF v(1) HOL.refl v(2) element] .
  qed
  then show ?case by (auto simp: r list_ex_iff)
qed (auto split: if_splits)

subsection \<open>Redacted texts\<close>

lemma MaskedValue_inert: "u \<noteq> [] \<Longrightarrow> CHR ''*'' \<notin> set u \<Longrightarrow> inert MaskedValue u"
  unfolding MaskedValue_def by (rule inert_replicate) simp_all

lemma redact_form_keeps: "inert MaskedValue u \<Longrightarrow> \<not> str_contains s u \<Longrightarrow> \<not> str_contains (redact_form form s) u"
  by (simp add: redact_form_def replace_all_keeps)

lemma redact_forms:
  "inert MaskedValue u \<Longrightarrow> \<not> str_contains s u \<or> u \<in> set forms \<and> length u \<ge> minimumRedactedLength \<Longrightarrow>
   \<not> str_contains (fold redact_form forms s) u"
proof (induction forms arbitrary: s)
  case (Cons form forms)
  have "\<not> str_contains (redact_form form s) u \<or> u \<in> set forms \<and> length u \<ge> minimumRedactedLength"
    using Cons.prems redact_form_keeps [of u s form] by (auto simp: redact_form_def replace_all_removes)
  then show ?case using Cons.IH [OF Cons.prems(1)] by simp
qed auto

lemma redact_leaves_no_secret:
  assumes secret: "s \<in> set (secretValues ty (VMap d) [])" and form: "u \<in> set (secret_forms s)"
    and long: "length u \<ge> minimumRedactedLength" and star: "CHR ''*'' \<notin> set u" and byte: "char_of (226 :: nat) \<notin> set u"
  shows "\<not> str_contains (provider_redact ty d text) u"
proof -
  have ne: "u \<noteq> []" using long by (auto simp: minimumRedactedLength_def)
  define forms where "forms = concat (map secret_forms (sort_key (\<lambda>s. - int (length s)) (secretValues ty (VMap d) [])))"
  have "u \<in> set forms" using secret form by (auto simp: forms_def)
  then have no: "\<not> str_contains (fold redact_form forms text) u"
    using redact_forms [OF MaskedValue_inert [OF ne star]] long by blast
  have rest: "\<not> str_contains [char_of (128 :: nat), char_of (166 :: nat)] u"
    using long by (auto simp: str_contains_iff minimumRedactedLength_def dest: arg_cong [of _ _ length])
  have "\<not> str_contains (take n (fold redact_form forms text) @ ellipsis) u" for n
    using contains_around [OF byte, of "take n (fold redact_form forms text)" "[char_of (128 :: nat), char_of (166 :: nat)]"]
      contains_take [OF no] rest by (simp add: ellipsis_def)
  then show ?thesis using no by (simp add: provider_redact_def Let_def forms_def)
qed

end
