(* ===== verification/AlertProviders.thy ===== *)
theory AlertProviders
  imports ManagedService ProviderSecrets
begin

text \<open>
  The alerting providers managed through the administration (\<^verbatim>\<open>internal/alertprovider\<close>): the validation of a
  definition (\<^verbatim>\<open>definition.go\<close>), the snapshot of the providers with the effective configuration (\<^verbatim>\<open>registry.go\<close>,
  \<^verbatim>\<open>types.go\<close>), their changes (\<^verbatim>\<open>service.go\<close>), and the managed endpoints that depend on them (\<^verbatim>\<open>dependents.go\<close>,
  \<^verbatim>\<open>internal/managedendpoint/alert_providers.go\<close>).

  A change holds the lifecycle change, the lock of the dependents and the mutex: it is one step on the
  \<open>provider_state\<close>. What the code does by reflection on the forty structs of providers is the \<open>provider_lib\<close>.
\<close>

subsection \<open>Types of providers\<close>

text \<open>The YAML names of the fields of \<open>alerting.Config\<close>, in their order.\<close>

definition provider_types :: "string list" where
  "provider_types =
     [''aws-ses'', ''clickup'', ''custom'', ''datadog'', ''discord'', ''email'', ''github'', ''gitlab'', ''gitea'',
      ''googlechat'', ''gotify'', ''homeassistant'', ''ifttt'', ''ilert'', ''incident-io'', ''line'', ''matrix'',
      ''mattermost'', ''messagebird'', ''newrelic'', ''n8n'', ''ntfy'', ''opsgenie'', ''pagerduty'', ''plivo'',
      ''pushover'', ''resend'', ''rocketchat'', ''sendgrid'', ''signal'', ''signl4'', ''slack'', ''splunk'',
      ''squadcast'', ''teams'', ''teams-workflows'', ''telegram'', ''twilio'', ''vonage'', ''webex'', ''zapier'',
      ''zulip'']"

definition IsType :: "string \<Rightarrow> bool" where
  "IsType ty \<longleftrightarrow> ty \<in> set provider_types"

definition alertTypeOf :: "string \<Rightarrow> string" where
  "alertTypeOf name = to_lower (trim_space name)"

definition providerOf :: "alerting_section option \<Rightarrow> string \<Rightarrow> provider_config option" where
  "providerOf alerting ty = (if IsType ty then Option.bind alerting (\<lambda>al. al ty) else None)"

text \<open>\<open>compose\<close> of \<^verbatim>\<open>types.go\<close>.\<close>

definition compose_types :: "alerting_section option \<Rightarrow> (string \<times> provider_config) list \<Rightarrow> alerting_section" where
  "compose_types base managed =
     (\<lambda>ty. case (if IsType ty then map_of managed ty else None) of
             Some p \<Rightarrow> Some p | None \<Rightarrow> Option.bind base (\<lambda>al. al ty))"

text \<open>\<open>declaredAlertTypes\<close> of a section; the file's own list is that of the section as it was read.\<close>

definition declaredAlertTypes :: "alerting_section option \<Rightarrow> string list" where
  "declaredAlertTypes alerting = filter (\<lambda>ty. providerOf alerting ty \<noteq> None) provider_types"

subsection \<open>Definitions\<close>

text \<open>
  \<open>pl_decode\<close> decodes a definition into the struct of a type, with unknown keys refused, \<open>pl_zero\<close> is its zero
  value; \<open>pl_aws_keys\<close>: both keys of AWS SES are set; \<open>pl_overrides\<close>: the group of every override and the error
  of its configuration merged over the default one; \<open>pl_alert_types\<close> decodes the types of the alerts of a definition
  of an endpoint.
\<close>

record provider_lib =
  pl_decode :: "string \<Rightarrow> string \<Rightarrow> provider_config decoded"
  pl_zero :: "string \<Rightarrow> provider_config"
  pl_aws_keys :: "provider_config \<Rightarrow> bool"
  pl_overrides :: "provider_config \<Rightarrow> (string \<times> string option) list"
  pl_marshal :: "provider_config \<Rightarrow> string option"
  pl_alert_types :: "string \<Rightarrow> string list option"

datatype provider_error =
    ProviderEmptyDefinition
  | ProviderInvalidDefinition
  | ProviderDefaultAlert alert_error
  | ProviderOverride string
  | ProviderUnknownType string
  | ProviderFieldNotAllowed string
  | ProviderMaskWithoutValue string
  | ProviderTypeMismatch
  | ProviderConfiguredInFile
  | ProviderAlreadyExists
  | ProviderNotFound
  | ProviderVersionMismatch
  | ProviderStorageNotSupported
  | ProviderCycleInProgress
  | ProviderNotConfigured
  | ProviderInUse "string list"
  | ProviderDependents "(string \<times> managed_error) list"
  | ProviderStorage managed_store_error
  | ProviderUndecodable
  | ProviderDetailNotEncoded

record prov_prepared =
  pp_type :: string
  pp_provider :: provider_config
  pp_document :: document
  pp_definition :: string

definition decodeDocument :: "yaml_lib \<Rightarrow> string \<Rightarrow> provider_error + document" where
  "decodeDocument y raw =
     (if trim_space raw = [] then Inl ProviderEmptyDefinition
      else case y_first_document y raw of
        DecodeEOF \<Rightarrow> Inl ProviderEmptyDefinition
      | DecodeError \<Rightarrow> Inl ProviderInvalidDefinition
      | Decoded _ \<Rightarrow>
          (case y_unmarshal y raw of
             DecodeError \<Rightarrow> Inl ProviderInvalidDefinition
           | d \<Rightarrow>
               (if y_second_document y raw \<noteq> DecodeEOF then Inl ProviderInvalidDefinition
                else case d of Decoded (Some doc) \<Rightarrow> Inr doc | _ \<Rightarrow> Inl ProviderEmptyDefinition)))"

definition validate_provider_definition :: "provider_lib \<Rightarrow> string \<Rightarrow> provider_config \<Rightarrow> provider_error option" where
  "validate_provider_definition pl ty p =
     (if pv_error p \<noteq> None then Some ProviderInvalidDefinition
      else if ty = ''aws-ses'' \<and> \<not> pl_aws_keys pl p
      then Some (ProviderFieldNotAllowed ''access-key-id and secret-access-key'')
      else case (case pv_default_alert p of
                   None \<Rightarrow> None | Some d \<Rightarrow> fst (alert_ValidateAndSetDefaults (d\<lparr>al_type := ty\<rparr>))) of
             Some e \<Rightarrow> Some (ProviderDefaultAlert e)
           | None \<Rightarrow>
               map_option (\<lambda>(g, _). ProviderOverride g) (find (\<lambda>(_, e). e \<noteq> None) (pl_overrides pl p)))"

definition PrepareDocument :: "yaml_lib \<Rightarrow> provider_lib \<Rightarrow> string \<Rightarrow> document \<Rightarrow> provider_error + prov_prepared" where
  "PrepareDocument y pl ty d =
     (if \<not> IsType ty then Inl (ProviderUnknownType ty)
      else case ForbiddenFieldPath d of
        Some path \<Rightarrow> Inl (ProviderFieldNotAllowed path)
      | None \<Rightarrow>
          (case y_marshal y d of
             None \<Rightarrow> Inl ProviderInvalidDefinition
           | Some definition \<Rightarrow>
               (case (if d = [] then Decoded (pl_zero pl ty)
                      else case pl_decode pl ty definition of DecodeEOF \<Rightarrow> Decoded (pl_zero pl ty) | r \<Rightarrow> r) of
                  Decoded p \<Rightarrow>
                    (case validate_provider_definition pl ty p of
                       Some e \<Rightarrow> Inl e
                     | None \<Rightarrow> Inr \<lparr>pp_type = ty, pp_provider = p, pp_document = d, pp_definition = definition\<rparr>)
                | _ \<Rightarrow> Inl ProviderInvalidDefinition)))"

text \<open>The text of the type of a document, trimmed only to see whether it is there.\<close>

definition type_of_document :: "document \<Rightarrow> string" where
  "type_of_document d = (case map_of d ''type'' of Some (VStr t) \<Rightarrow> t | _ \<Rightarrow> [])"

definition provider_Prepare :: "yaml_lib \<Rightarrow> provider_lib \<Rightarrow> string \<Rightarrow> provider_error + prov_prepared" where
  "provider_Prepare y pl raw =
     (case decodeDocument y raw of
        Inl e \<Rightarrow> Inl e
      | Inr d \<Rightarrow>
          (let name = type_of_document d
           in if trim_space name = [] then Inl ProviderInvalidDefinition
              else PrepareDocument y pl (alertTypeOf name) (alist_del ''type'' d)))"

subsection \<open>The snapshot\<close>

record managed_entry =
  en_stored :: managed_row
  en_document :: "document option"
  en_prepared :: "prov_prepared option"
  en_error :: "provider_error option"

record prov_snapshot =
  ps_config :: config
  ps_declared :: "string list"
  ps_managed :: "(string \<times> managed_entry) list"
  ps_effective :: alerting_section
  ps_unavailable :: bool

definition newManagedEntry :: "yaml_lib \<Rightarrow> provider_lib \<Rightarrow> managed_row \<Rightarrow> managed_entry" where
  "newManagedEntry y pl stored =
     (case y_unmarshal y (mgd_definition stored) of
        DecodeError \<Rightarrow>
          \<lparr>en_stored = stored, en_document = None, en_prepared = None, en_error = Some ProviderUndecodable\<rparr>
      | r \<Rightarrow>
          (let d = (case r of Decoded (Some d) \<Rightarrow> d | _ \<Rightarrow> [])
           in case PrepareDocument y pl (alertTypeOf (mgd_key stored)) d of
                Inl e \<Rightarrow> \<lparr>en_stored = stored, en_document = Some d, en_prepared = None, en_error = Some e\<rparr>
              | Inr p \<Rightarrow> \<lparr>en_stored = stored, en_document = Some d, en_prepared = Some p, en_error = None\<rparr>))"

text \<open>\<open>compose\<close> of \<^verbatim>\<open>registry.go\<close>: the valid managed providers of the types that the file does not declare.\<close>

definition usable_entries :: "string list \<Rightarrow> (string \<times> managed_entry) list \<Rightarrow> (string \<times> provider_config) list" where
  "usable_entries declared managed =
     concat (map (\<lambda>(ty, e). case en_prepared e of
                              None \<Rightarrow> []
                            | Some p \<Rightarrow> (if ty \<in> set declared then [] else [(ty, pp_provider p)])) managed)"

definition snapshot_compose :: "prov_snapshot \<Rightarrow> alerting_section" where
  "snapshot_compose snap =
     compose_types (cfg_alerting (ps_config snap)) (usable_entries (ps_declared snap) (ps_managed snap))"

text \<open>\<open>pst_watchdog\<close> is the configuration of \<open>SetManagedAlertingConfig\<close>.\<close>

record 'p provider_state =
  pst_snapshot :: "prov_snapshot option"
  pst_watchdog :: "alerting_section option"
  pst_service :: "'p service_state"

definition publishSnapshot :: "prov_snapshot \<Rightarrow> 'p provider_state \<Rightarrow> 'p provider_state" where
  "publishSnapshot snap st = st\<lparr>pst_snapshot := Some snap, pst_watchdog := Some (ps_effective snap)\<rparr>"

definition provider_db :: "'p provider_state \<Rightarrow> managed_db" where
  "provider_db st = mo_store (sv_monitor (pst_service st))"

definition set_provider_db :: "managed_db \<Rightarrow> 'p provider_state \<Rightarrow> 'p provider_state" where
  "set_provider_db db st =
     st\<lparr>pst_service := (pst_service st)\<lparr>sv_monitor := (sv_monitor (pst_service st))\<lparr>mo_store := db\<rparr>\<rparr>\<rparr>"

text \<open>\<open>declared\<close> is \<open>DeclaredAlertTypes\<close> of the configuration.\<close>

definition providers_Load ::
    "yaml_lib \<Rightarrow> provider_lib \<Rightarrow> config \<Rightarrow> string list \<Rightarrow> bool \<Rightarrow> 'p provider_state \<Rightarrow> 'p provider_state" where
  "providers_Load y pl c declared supported st =
     (let listed = (if supported then ListManagedAlertProviders (provider_db st) else Some []);
          rows = (case listed of None \<Rightarrow> [] | Some rows \<Rightarrow> rows);
          managed = fold (\<lambda>row m. alist_put (alertTypeOf (mgd_key row)) (newManagedEntry y pl row) m) rows [];
          snap = \<lparr>ps_config = c, ps_declared = declared, ps_managed = managed, ps_effective = (\<lambda>_. None),
                  ps_unavailable = (listed = None)\<rparr>
      in publishSnapshot (snap\<lparr>ps_effective := snapshot_compose snap\<rparr>) st)"

definition Effective :: "'p provider_state \<Rightarrow> alerting_section option" where
  "Effective st = map_option ps_effective (pst_snapshot st)"

subsection \<open>Dependents\<close>

text \<open>\<open>Dependents\<close> and \<open>DependentsPlan\<close>: the operations that a change of a provider calls.\<close>

record ('d, 'plan) dependents =
  dp_users :: "string \<Rightarrow> 'd \<Rightarrow> string list"
  dp_plan :: "alerting_section \<Rightarrow> string \<Rightarrow> 'd \<Rightarrow> provider_error + 'plan"
  dp_keys :: "'plan \<Rightarrow> string list"
  dp_stop :: "'plan \<Rightarrow> 'd \<Rightarrow> 'plan \<times> 'd"
  dp_start :: "'plan \<Rightarrow> 'd \<Rightarrow> string list \<times> 'd"

subsection \<open>Changes\<close>

definition provider_store_error :: "managed_store_error \<Rightarrow> provider_error" where
  "provider_store_error e =
     (case e of
        ErrManagedNotFound ManagedAlertProvidersTable \<Rightarrow> ProviderNotFound
      | ErrManagedVersionMismatch ManagedAlertProvidersTable \<Rightarrow> ProviderVersionMismatch
      | _ \<Rightarrow> ProviderStorage e)"

definition provider_create_error :: "managed_store_error \<Rightarrow> provider_error" where
  "provider_create_error e =
     (case e of
        ErrManagedAlreadyExists ManagedAlertProvidersTable \<Rightarrow> ProviderAlreadyExists
      | _ \<Rightarrow> ProviderStorage e)"

definition tx_store_error :: "unit tx_error \<Rightarrow> managed_store_error" where
  "tx_store_error e = (case e of StoreFailure s \<Rightarrow> s | ApplyFailure _ \<Rightarrow> DatabaseError)"

text \<open>
  The three changes: the new entry (none for a deletion) and the storage operation, which gives the row it wrote.
\<close>

datatype store_operation = StoreCreate managed_row | StoreUpdate managed_row int | StoreDelete string int

definition run_store :: "time \<Rightarrow> store_operation \<Rightarrow> managed_db \<Rightarrow> (provider_error + managed_row option) \<times> managed_db" where
  "run_store now sop db =
     (case sop of
        StoreCreate row \<Rightarrow>
          (case CreateManagedAlertProvider now row (no_apply :: unit \<Rightarrow> unit option \<times> unit) db () of
             (Inl e, db', _) \<Rightarrow> (Inl (provider_create_error (tx_store_error e)), db')
           | (Inr new, db', _) \<Rightarrow> (Inr (Some new), db'))
      | StoreUpdate row v \<Rightarrow>
          (case UpdateManagedAlertProvider now row v (no_apply :: unit \<Rightarrow> unit option \<times> unit) db () of
             (Inl e, db', _) \<Rightarrow> (Inl (provider_store_error (tx_store_error e)), db')
           | (Inr new, db', _) \<Rightarrow> (Inr (Some new), db'))
      | StoreDelete ty v \<Rightarrow>
          (case DeleteManagedAlertProvider ty v (no_apply :: unit \<Rightarrow> unit option \<times> unit) db () of
             (Some e, db', _) \<Rightarrow> (Inl (provider_store_error (tx_store_error e)), db')
           | (None, db', _) \<Rightarrow> (Inr None, db')))"

definition prepared_entry :: "prov_prepared \<Rightarrow> managed_row \<Rightarrow> managed_entry" where
  "prepared_entry p stored =
     \<lparr>en_stored = stored, en_document = Some (pp_document p), en_prepared = Some p, en_error = None\<rparr>"

definition provider_row :: "prov_prepared \<Rightarrow> string \<Rightarrow> managed_row" where
  "provider_row p author =
     \<lparr>mgd_key = pp_type p, mgd_definition = pp_definition p, mgd_version = 0, mgd_created_at = zero_time,
      mgd_updated_at = zero_time, mgd_updated_by = author\<rparr>"

type_synonym provider_change = "prov_snapshot \<Rightarrow> provider_error + managed_entry option \<times> store_operation"

definition create_change :: "prov_prepared \<Rightarrow> string \<Rightarrow> provider_change" where
  "create_change p author snap =
     (if pp_type p \<in> set (ps_declared snap) then Inl ProviderConfiguredInFile
      else if map_of (ps_managed snap) (pp_type p) \<noteq> None then Inl ProviderAlreadyExists
      else Inr (Some (prepared_entry p (provider_row p author)), StoreCreate (provider_row p author)))"

definition update_change :: "prov_prepared \<Rightarrow> int \<Rightarrow> string \<Rightarrow> provider_change" where
  "update_change p expectedVersion author snap =
     (if pp_type p \<in> set (ps_declared snap) then Inl ProviderConfiguredInFile
      else case map_of (ps_managed snap) (pp_type p) of
        None \<Rightarrow> Inl ProviderNotFound
      | Some previous \<Rightarrow>
          (if mgd_version (en_stored previous) \<noteq> expectedVersion then Inl ProviderVersionMismatch
           else Inr (Some (prepared_entry p (provider_row p author)), StoreUpdate (provider_row p author) expectedVersion)))"

definition delete_change :: "string \<Rightarrow> int \<Rightarrow> provider_change" where
  "delete_change ty expectedVersion snap =
     (case map_of (ps_managed snap) ty of
        None \<Rightarrow> Inl ProviderNotFound
      | Some previous \<Rightarrow>
          (if mgd_version (en_stored previous) \<noteq> expectedVersion then Inl ProviderVersionMismatch
           else Inr (None, StoreDelete ty expectedVersion)))"

text \<open>
  The snapshot after a change. The row of the entry is shared with the storage, which sets its version and times
  (\<open>written_entry\<close>).
\<close>

definition next_snapshot :: "string \<Rightarrow> managed_entry option \<Rightarrow> prov_snapshot \<Rightarrow> prov_snapshot" where
  "next_snapshot ty entry snap =
     (let next' = snap\<lparr>ps_managed := (case entry of
                         None \<Rightarrow> alist_del ty (ps_managed snap)
                       | Some e \<Rightarrow> alist_put ty e (ps_managed snap))\<rparr>
      in next'\<lparr>ps_effective := snapshot_compose next'\<rparr>)"

definition written_entry :: "managed_row option \<Rightarrow> managed_entry option \<Rightarrow> managed_entry option" where
  "written_entry stored entry =
     (case stored of None \<Rightarrow> entry | Some row \<Rightarrow> map_option (\<lambda>e. e\<lparr>en_stored := row\<rparr>) entry)"

text \<open>The part before the storage: the plan of the dependents, or what refuses the change.\<close>

definition plan_change ::
    "('p service_state, 'plan) dependents option \<Rightarrow> string \<Rightarrow> managed_entry option \<Rightarrow> prov_snapshot \<Rightarrow> alerting_section \<Rightarrow>
     'p service_state \<Rightarrow> provider_error + 'plan option" where
  "plan_change participant ty entry snap effective sv =
     (case participant of
        None \<Rightarrow> Inr None
      | Some dp \<Rightarrow>
          (if ty \<in> set (ps_declared snap) then Inr None
           else case entry of
             None \<Rightarrow> (if dp_users dp ty sv \<noteq> [] then Inl (ProviderInUse (dp_users dp ty sv)) else Inr None)
           | Some _ \<Rightarrow> (case dp_plan dp effective ty sv of Inl e \<Rightarrow> Inl e | Inr plan \<Rightarrow> Inr (Some plan))))"

text \<open>
  The definitions in a \<open>Detail\<close>, with their YAML text: the one in use and, when the file shadows a managed provider, the
  managed one, secrets masked. The other fields of a detail are read from the snapshot and cannot fail.
\<close>

record provider_detail =
  pd_definition :: "(document \<times> string) option"
  pd_managed :: "(document \<times> string) option"

definition newDefinition :: "yaml_lib \<Rightarrow> document \<Rightarrow> (document \<times> string) option" where
  "newDefinition y d =
     map_option (\<lambda>text. (d, if text = ''{}'' @ [CHR 0x0A] then [] else text)) (y_marshal y d)"

definition entry_document :: "managed_entry \<Rightarrow> document" where
  "entry_document e = (case en_document e of None \<Rightarrow> [] | Some d \<Rightarrow> d)"

definition definitionDocument :: "yaml_lib \<Rightarrow> provider_lib \<Rightarrow> string \<Rightarrow> prov_snapshot \<Rightarrow> document option" where
  "definitionDocument y pl ty snap =
     (if ty \<notin> set (ps_declared snap)
      then Some (case map_of (ps_managed snap) ty of Some e \<Rightarrow> entry_document e | None \<Rightarrow> [])
      else case providerOf (cfg_alerting (ps_config snap)) ty of
        None \<Rightarrow> Some []
      | Some p \<Rightarrow>
          (case pl_marshal pl p of
             None \<Rightarrow> None
           | Some text \<Rightarrow>
               (case y_unmarshal y text of DecodeError \<Rightarrow> None | Decoded (Some d) \<Rightarrow> Some d | _ \<Rightarrow> Some [])))"

definition provider_detail_of :: "yaml_lib \<Rightarrow> provider_lib \<Rightarrow> string \<Rightarrow> prov_snapshot \<Rightarrow> provider_detail option" where
  "provider_detail_of y pl ty snap =
     (let managed = map_of (ps_managed snap) ty; declared = (ty \<in> set (ps_declared snap));
          masked = (\<lambda>d. newDefinition y (provider_MaskSecrets ty d));
          definition' = (if declared \<or> managed \<noteq> None
                         then map_option Some (Option.bind (definitionDocument y pl ty snap) masked) else Some None)
      in case definition' of
           None \<Rightarrow> None
         | Some def' \<Rightarrow>
             (case managed of
                Some e \<Rightarrow>
                  (if declared
                   then map_option (\<lambda>m. \<lparr>pd_definition = def', pd_managed = Some m\<rparr>) (masked (entry_document e))
                   else Some \<lparr>pd_definition = def', pd_managed = None\<rparr>)
              | None \<Rightarrow> Some \<lparr>pd_definition = def', pd_managed = None\<rparr>))"

record write_report =
  wr_detail :: "provider_detail option"
  wr_restarted :: "string list"
  wr_warnings :: "string list"

text \<open>What follows the storage: the affected endpoints stop, the snapshot is published, they start again.\<close>

definition finish_write ::
    "('p service_state, 'plan) dependents option \<Rightarrow> 'plan option \<Rightarrow> prov_snapshot \<Rightarrow> 'p provider_state \<Rightarrow>
     write_report \<times> 'p provider_state" where
  "finish_write participant plan snap st =
     (case (plan, participant) of
        (Some pl, Some dp) \<Rightarrow>
          (let (pl', sv) = dp_stop dp pl (pst_service st);
               st = publishSnapshot snap (st\<lparr>pst_service := sv\<rparr>);
               (warnings, sv) = dp_start dp pl' (pst_service st)
           in (\<lparr>wr_detail = None, wr_restarted = dp_keys dp pl', wr_warnings = warnings\<rparr>, st\<lparr>pst_service := sv\<rparr>))
      | _ \<Rightarrow> (\<lparr>wr_detail = None, wr_restarted = [], wr_warnings = []\<rparr>, publishSnapshot snap st))"

text \<open>
  The answer of \<open>write\<close> has the detail of a provider that was written, which \<open>detail\<close> gives. When it cannot be encoded the
  error is returned although the change was stored and published. A deletion asks for no detail.
\<close>

definition write_answer ::
    "(prov_snapshot \<Rightarrow> provider_detail option) \<Rightarrow> managed_entry option \<Rightarrow> prov_snapshot \<Rightarrow> write_report \<Rightarrow>
     provider_error + write_report" where
  "write_answer detail entry snap report =
     (if entry = None then Inr report
      else case detail snap of
        None \<Rightarrow> Inl ProviderDetailNotEncoded
      | Some d \<Rightarrow> Inr (report\<lparr>wr_detail := Some d\<rparr>))"

definition provider_write ::
    "('p service_state, 'plan) dependents option \<Rightarrow> 'p service_env \<Rightarrow> (prov_snapshot \<Rightarrow> provider_detail option) \<Rightarrow> string \<Rightarrow>
     provider_change \<Rightarrow> 'p provider_state \<Rightarrow> (provider_error + write_report) \<times> 'p provider_state" where
  "provider_write participant se detail ty change st =
     (if se_cycle se then (Inl ProviderCycleInProgress, st)
      else if \<not> se_supported se then (Inl ProviderStorageNotSupported, st)
      else case pst_snapshot st of
        None \<Rightarrow> (Inl ProviderCycleInProgress, st)
      | Some snap \<Rightarrow>
          (case change snap of
             Inl e \<Rightarrow> (Inl e, st)
           | Inr (entry, sop) \<Rightarrow>
               (case plan_change participant ty entry snap (ps_effective (next_snapshot ty entry snap)) (pst_service st) of
                  Inl e \<Rightarrow> (Inl e, st)
                | Inr plan \<Rightarrow>
                    (case run_store (se_now se) sop (provider_db st) of
                       (Inl e, db) \<Rightarrow> (Inl e, set_provider_db db st)
                     | (Inr stored, db) \<Rightarrow>
                         (let next' = next_snapshot ty (written_entry stored entry) snap;
                              (report, st') = finish_write participant plan next' (set_provider_db db st)
                          in (write_answer detail entry next' report, st'))))))"

definition prepareSubmitted ::
    "yaml_lib \<Rightarrow> provider_lib \<Rightarrow> prov_snapshot option \<Rightarrow> string \<Rightarrow> string \<Rightarrow> provider_error + prov_prepared" where
  "prepareSubmitted y pl current raw name =
     (case decodeDocument y raw of
        Inl e \<Rightarrow> Inl e
      | Inr d0 \<Rightarrow>
          (let submittedType = type_of_document d0; d = alist_del ''type'' d0;
               ty = (if name \<noteq> [] then alertTypeOf name else alertTypeOf submittedType)
           in if name \<noteq> [] \<and> submittedType \<noteq> [] \<and> alertTypeOf submittedType \<noteq> alertTypeOf name
              then Inl ProviderTypeMismatch
              else if ty = [] then Inl ProviderInvalidDefinition
              else if \<not> IsType ty then Inl (ProviderUnknownType ty)
              else
                (let stored = (case Option.bind current (\<lambda>snap. map_of (ps_managed snap) ty) of
                                 None \<Rightarrow> [] | Some e \<Rightarrow> (case en_document e of None \<Rightarrow> [] | Some doc \<Rightarrow> doc))
                 in case RestoreSecrets ty d stored of
                      Inl path \<Rightarrow> Inl (ProviderMaskWithoutValue path)
                    | Inr restored \<Rightarrow> PrepareDocument y pl ty restored)))"

definition provider_Create ::
    "('p service_state, 'plan) dependents option \<Rightarrow> 'p service_env \<Rightarrow> provider_lib \<Rightarrow> string \<Rightarrow> string \<Rightarrow> 'p provider_state \<Rightarrow>
     (provider_error + write_report) \<times> 'p provider_state" where
  "provider_Create participant se pl raw author st =
     (case prepareSubmitted (se_yaml se) pl (pst_snapshot st) raw [] of
        Inl e \<Rightarrow> (Inl e, st)
      | Inr p \<Rightarrow> provider_write participant se (provider_detail_of (se_yaml se) pl (pp_type p)) (pp_type p)
                   (create_change p author) st)"

definition provider_Update ::
    "('p service_state, 'plan) dependents option \<Rightarrow> 'p service_env \<Rightarrow> provider_lib \<Rightarrow> string \<Rightarrow> string \<Rightarrow> int \<Rightarrow> string \<Rightarrow>
     'p provider_state \<Rightarrow> (provider_error + write_report) \<times> 'p provider_state" where
  "provider_Update participant se pl name raw expectedVersion author st =
     (case prepareSubmitted (se_yaml se) pl (pst_snapshot st) raw name of
        Inl e \<Rightarrow> (Inl e, st)
      | Inr p \<Rightarrow> provider_write participant se (provider_detail_of (se_yaml se) pl (pp_type p)) (pp_type p)
                   (update_change p expectedVersion author) st)"

definition provider_Delete ::
    "('p service_state, 'plan) dependents option \<Rightarrow> 'p service_env \<Rightarrow> string \<Rightarrow> int \<Rightarrow> 'p provider_state \<Rightarrow>
     (provider_error + write_report) \<times> 'p provider_state" where
  "provider_Delete participant se name expectedVersion st =
     (let ty = alertTypeOf name
      in if \<not> IsType ty then (Inl ProviderNotFound, st)
         else provider_write participant se (\<lambda>_. None) ty (delete_change ty expectedVersion) st)"

section \<open>The managed endpoints as dependents\<close>

text \<open>A change of the plan; \<open>pc_previous\<close> has the object that was monitored, \<open>pc_monitored\<close> is \<open>wasMonitored\<close>.\<close>

record endpoint_change =
  pc_previous :: managed_state
  pc_next :: managed_state
  pc_monitored :: bool

definition definitionUsesAlertType :: "provider_lib \<Rightarrow> string \<Rightarrow> string \<Rightarrow> bool" where
  "definitionUsesAlertType pl definition ty =
     (case pl_alert_types pl definition of
        None \<Rightarrow> False | Some ts \<Rightarrow> list_ex (\<lambda>t. to_lower (trim_space t) = ty) ts)"

definition dependents_Users :: "provider_lib \<Rightarrow> string \<Rightarrow> 'p service_state \<Rightarrow> string list" where
  "dependents_Users pl ty sv =
     sort (map (mgd_key \<circ> ms_stored)
       (filter (\<lambda>s. definitionUsesAlertType pl (mgd_definition (ms_stored s)) ty) (managed_List (sv_states sv))))"

definition plan_context :: "prepare_context \<Rightarrow> alerting_section \<Rightarrow> prepare_context" where
  "plan_context ctx alerting =
     ctx\<lparr>px_allowed_labels := GetUniqueExtraMetricLabels (px_config ctx), px_push_tokens := (\<lambda>_. None),
         px_is_push_key_token := (\<lambda>_. False), px_alerting := Some alerting\<rparr>"

definition planned_change ::
    "'p service_env \<Rightarrow> alerting_section \<Rightarrow> string list \<Rightarrow> managed_state \<Rightarrow> endpoint_change" where
  "planned_change se alerting keys s =
     \<lparr>pc_previous = s,
      pc_next = prepareState (se_yaml se)
        ((plan_context (se_context se) alerting)\<lparr>px_managed_keys := keysExcept keys (mgd_key (ms_stored s))\<rparr>) (ms_stored s),
      pc_monitored = False\<rparr>"

definition dependents_Plan ::
    "'p service_env \<Rightarrow> provider_lib \<Rightarrow> alerting_section \<Rightarrow> string \<Rightarrow> 'p service_state \<Rightarrow>
     provider_error + endpoint_change list" where
  "dependents_Plan se pl alerting ty sv =
     (let g = sv_states sv;
          changes = map (planned_change se alerting (managed_Keys g))
            (filter (\<lambda>s. \<not> state_InConflict s \<and> definitionUsesAlertType pl (mgd_definition (ms_stored s)) ty) (managed_List g));
          failures = concat (map (\<lambda>c. case (ms_error (pc_next c), ms_error (pc_previous c)) of
                                       (Some e, None) \<Rightarrow> [(mgd_key (ms_stored (pc_previous c)), e)] | _ \<Rightarrow> []) changes)
      in if failures \<noteq> [] then Inl (ProviderDependents failures)
         else Inr (sort_key (\<lambda>c. mgd_key (ms_stored (pc_previous c))) changes))"

definition dependents_Keys :: "endpoint_change list \<Rightarrow> string list" where
  "dependents_Keys plan = map (\<lambda>c. mgd_key (ms_stored (pc_previous c))) plan"

text \<open>The bodies of the loops of \<open>Stop\<close> and \<open>Start\<close>.\<close>

definition stop_change :: "endpoint_change \<Rightarrow> registry option \<Rightarrow> endpoint_change \<times> registry option" where
  "stop_change c reg =
     (let key = mgd_key (ms_stored (pc_previous c));
          live = live_parsed key (ms_parsed (pc_previous c)) reg;
          c = c\<lparr>pc_previous := (pc_previous c)\<lparr>ms_parsed := live\<rparr>\<rparr>
      in if \<not> parsed_IsValid live \<or> \<not> IsEndpointMonitored key reg then (c, reg)
         else case StopEndpoint key SourceAdmin reg of
           Inl e \<Rightarrow> (if e = ErrEndpointNotMonitored then (c\<lparr>pc_monitored := True\<rparr>, reg) else (c, reg))
         | Inr (_, r) \<Rightarrow> (c\<lparr>pc_monitored := True\<rparr>, Some r))"

fun stop_changes :: "endpoint_change list \<Rightarrow> registry option \<Rightarrow> endpoint_change list \<times> registry option" where
  "stop_changes [] reg = ([], reg)"
| "stop_changes (c # cs) reg =
     (let (c', reg') = stop_change c reg; (cs', reg'') = stop_changes cs reg' in (c' # cs', reg''))"

definition set_registry :: "registry option \<Rightarrow> 'p service_state \<Rightarrow> 'p service_state" where
  "set_registry reg sv = sv\<lparr>sv_monitor := (sv_monitor sv)\<lparr>mo_registry := reg\<rparr>\<rparr>"

definition dependents_Stop ::
    "endpoint_change list \<Rightarrow> 'p service_state \<Rightarrow> endpoint_change list \<times> 'p service_state" where
  "dependents_Stop plan sv =
     (let (plan', reg) = stop_changes plan (mo_registry (sv_monitor sv)) in (plan', set_registry reg sv))"

definition alertingEndpointOf :: "parsed \<Rightarrow> endpoint option" where
  "alertingEndpointOf p = (case pa_push p of Some ee \<Rightarrow> Some (ToEndpoint ee) | None \<Rightarrow> pa_endpoint p)"

text \<open>The warnings are the keys of the endpoints that are invalid or could not be started.\<close>

definition start_change ::
    "(string \<Rightarrow> string) \<Rightarrow> endpoint_change \<Rightarrow> 'p service_state \<Rightarrow> string list \<times> 'p service_state" where
  "start_change sha c sv =
     (let next' = pc_next c; key = mgd_key (ms_stored next'); ops = db_ops sha; mon = sv_monitor sv;
          (p, db) =
            (if parsed_IsValid (ms_parsed next')
             then restoreTriggeredAlerts ops sha (ms_parsed next')
                    (fst (MigrateTriggeredAlerts ops sha (alertingEndpointOf (ms_parsed (pc_previous c)))
                            (alertingEndpointOf (ms_parsed next')) (mo_store mon)))
             else (ms_parsed next', mo_store mon));
          sv = sv\<lparr>sv_states := putState (next'\<lparr>ms_parsed := p\<rparr>) (sv_states sv), sv_monitor := mon\<lparr>mo_store := db\<rparr>\<rparr>
      in if ms_error next' \<noteq> None then ([key], sv)
         else if \<not> parsed_IsEnabled p then ([], sv)
         else case startMonitoring p (mo_registry mon) of
           (Some _, reg) \<Rightarrow> ([key], set_registry reg sv)
         | (None, reg) \<Rightarrow> ([], set_registry reg sv))"

fun dependents_Start ::
    "(string \<Rightarrow> string) \<Rightarrow> endpoint_change list \<Rightarrow> 'p service_state \<Rightarrow> string list \<times> 'p service_state" where
  "dependents_Start sha [] sv = ([], sv)"
| "dependents_Start sha (c # cs) sv =
     (let (ws, sv') = start_change sha c sv; (ws', sv'') = dependents_Start sha cs sv' in (ws @ ws', sv''))"

definition alertProviderDependents ::
    "'p service_env \<Rightarrow> provider_lib \<Rightarrow> ('p service_state, endpoint_change list) dependents" where
  "alertProviderDependents se pl =
     \<lparr>dp_users = dependents_Users pl, dp_plan = dependents_Plan se pl, dp_keys = dependents_Keys,
      dp_stop = dependents_Stop, dp_start = dependents_Start (se_sha se)\<rparr>"

end
