(* ===== verification/AlertProviderFacts.thy ===== *)
theory AlertProviderFacts
  imports AlertProviders ManagedServiceFacts
begin

text \<open>
  Facts about the managed alerting providers: a change is applied as a whole or not at all, the snapshot mirrors the
  table, and the endpoints that depend on a provider keep being valid. What a change needs of the dependents is the
  locale \<open>provider_dependents\<close>, interpreted on the managed endpoints.
\<close>

subsection \<open>The storage operations\<close>

definition provider_rows :: "managed_db \<Rightarrow> string \<Rightarrow> managed_row option" where
  "provider_rows db = map_of (db_table db ManagedAlertProvidersTable)"

lemma run_store_failure: "run_store now sop db = (Inl e, db') \<Longrightarrow> db' = db"
  by (auto simp: run_store_def CreateManagedAlertProvider_def UpdateManagedAlertProvider_def DeleteManagedAlertProvider_def
      table_delete_def dest: table_create_failure table_update_failure inTransaction_failure
      split: store_operation.splits prod.splits sum.splits option.splits)

lemma run_store_create:
  assumes "run_store now (StoreCreate row) db = (Inr stored, db')"
  shows "\<exists>new. stored = Some new \<and> mgd_key new = mgd_key row \<and> provider_rows db (mgd_key row) = None \<and>
    provider_rows db' = (provider_rows db)(mgd_key row \<mapsto> new)"
proof -
  obtain new where "CreateManagedAlertProvider now row (no_apply :: unit \<Rightarrow> unit option \<times> unit) db () = (Inr new, db', ())"
    and stored: "stored = Some new"
    using assms by (auto simp: run_store_def split: prod.splits sum.splits)
  from table_create_success [OF this(1) [unfolded CreateManagedAlertProvider_def]] show ?thesis
    by (auto simp: stored provider_rows_def fun_eq_iff map_add_def split: option.split)
qed

lemma run_store_update:
  assumes "run_store now (StoreUpdate row v) db = (Inr stored, db')"
  shows "\<exists>old new. stored = Some new \<and> mgd_key new = mgd_key row \<and> mgd_version new = v + 1 \<and>
    provider_rows db (mgd_key row) = Some old \<and> mgd_version old = v \<and>
    provider_rows db' = (provider_rows db)(mgd_key row \<mapsto> new)"
proof -
  obtain new where "UpdateManagedAlertProvider now row v (no_apply :: unit \<Rightarrow> unit option \<times> unit) db () = (Inr new, db', ())"
    and stored: "stored = Some new"
    using assms by (auto simp: run_store_def split: prod.splits sum.splits)
  from table_update_success [OF this(1) [unfolded UpdateManagedAlertProvider_def]] show ?thesis
    by (auto simp: stored provider_rows_def updated_row_def)
qed

lemma run_store_delete:
  assumes "run_store now (StoreDelete ty v) db = (Inr stored, db')"
  shows "stored = None \<and> provider_rows db' = (provider_rows db)(ty := None)"
  using assms
  by (auto simp: run_store_def DeleteManagedAlertProvider_def table_delete_def inTransaction_success on_table_def
      delete_row_def provider_rows_def split: prod.splits sum.splits option.splits if_splits)

subsection \<open>The effective configuration\<close>

lemma usable_entries_at:
  assumes "distinct (map fst managed)"
  shows "map_of (usable_entries declared managed) ty =
    (if ty \<in> set declared then None
     else Option.bind (map_of managed ty) (\<lambda>e. map_option pp_provider (en_prepared e)))"
proof -
  have absent: "map_of (usable_entries declared m) ty = None" if "ty \<notin> fst ` set m" for m :: "(string \<times> managed_entry) list"
    using that by (induction m) (auto simp: usable_entries_def map_add_def split: option.splits)
  show ?thesis
    using assms
  proof (induction managed)
    case (Cons x managed)
    obtain t e where x: "x = (t, e)" by (cases x)
    have step: "usable_entries declared ((t, e) # managed) =
        (case en_prepared e of None \<Rightarrow> [] | Some p \<Rightarrow> (if t \<in> set declared then [] else [(t, pp_provider p)])) @
        usable_entries declared managed"
      by (simp add: usable_entries_def)
    show ?case
      using Cons absent [of managed] by (auto simp: step x map_add_def split: option.split)
  qed (simp add: usable_entries_def)
qed

text \<open>What the managed endpoints use for a type: the file, if it declares the type, or the managed provider if it is valid.\<close>

definition effective_spec :: "prov_snapshot \<Rightarrow> string \<Rightarrow> provider_config option" where
  "effective_spec snap ty =
     (let base = Option.bind (cfg_alerting (ps_config snap)) (\<lambda>al. al ty)
      in if ty \<in> set (ps_declared snap) \<or> \<not> IsType ty then base
         else case Option.bind (map_of (ps_managed snap) ty) en_prepared of None \<Rightarrow> base | Some p \<Rightarrow> Some (pp_provider p))"

lemma snapshot_compose_spec:
  "distinct (map fst (ps_managed snap)) \<Longrightarrow> snapshot_compose snap = effective_spec snap"
  by (rule ext) (auto simp: snapshot_compose_def compose_types_def effective_spec_def usable_entries_at Let_def
      split: option.split bind_splits)

subsection \<open>The invariant\<close>

definition entry_ok :: "string \<Rightarrow> managed_entry \<Rightarrow> bool" where
  "entry_ok ty e \<longleftrightarrow> mgd_key (en_stored e) = ty"

definition provider_inv :: "'p provider_state \<Rightarrow> bool" where
  "provider_inv st \<longleftrightarrow>
     (case pst_snapshot st of
        None \<Rightarrow> False
      | Some snap \<Rightarrow>
          distinct (map fst (ps_managed snap)) \<and>
          provider_rows (provider_db st) = map_option en_stored \<circ> map_of (ps_managed snap) \<and>
          (\<forall>ty e. map_of (ps_managed snap) ty = Some e \<longrightarrow> entry_ok ty e) \<and>
          ps_effective snap = effective_spec snap \<and>
          pst_watchdog st = Some (ps_effective snap))"

definition change_for :: "string \<Rightarrow> provider_change \<Rightarrow> bool" where
  "change_for ty change \<longleftrightarrow>
     (\<exists>p author. change = create_change p author \<and> pp_type p = ty) \<or>
     (\<exists>p v author. change = update_change p v author \<and> pp_type p = ty) \<or>
     (\<exists>v. change = delete_change ty v)"

text \<open>The snapshot of a change and the row that was written agree.\<close>

lemma next_snapshot_inv:
  assumes inv: "distinct (map fst (ps_managed snap))"
      "\<And>ty e. map_of (ps_managed snap) ty = Some e \<Longrightarrow> entry_ok ty e"
      "provider_rows db = map_option en_stored \<circ> map_of (ps_managed snap)"
    and change: "change_for ty change" "change snap = Inr (entry, sop)"
    and run: "run_store now sop db = (Inr stored, db')"
  defines "next' \<equiv> next_snapshot ty (written_entry stored entry) snap"
  shows "distinct (map fst (ps_managed next'))"
    and "\<And>ty' e. map_of (ps_managed next') ty' = Some e \<Longrightarrow> entry_ok ty' e"
    and "provider_rows db' = map_option en_stored \<circ> map_of (ps_managed next')"
    and "ps_effective next' = effective_spec next'"
proof -
  have managed: "ps_managed next' = (case written_entry stored entry of
      None \<Rightarrow> alist_del ty (ps_managed snap) | Some e \<Rightarrow> alist_put ty e (ps_managed snap))"
    by (simp add: next'_def next_snapshot_def Let_def)
  show dist: "distinct (map fst (ps_managed next'))"
    using inv(1) by (auto simp: managed distinct_alist_put distinct_alist_del split: option.split)
  have "snapshot_compose (next'\<lparr>ps_effective := e\<rparr>) = snapshot_compose next'" for e
    by (simp add: snapshot_compose_def)
  then have "ps_effective next' = snapshot_compose next'"
    by (simp add: next'_def next_snapshot_def Let_def snapshot_compose_def)
  then show "ps_effective next' = effective_spec next'" using snapshot_compose_spec [OF dist] by simp
  have "(\<forall>ty' e. map_of (ps_managed next') ty' = Some e \<longrightarrow> entry_ok ty' e) \<and>
      provider_rows db' = map_option en_stored \<circ> map_of (ps_managed next')"
    using change(1) unfolding change_for_def
  proof (elim disjE exE conjE)
    fix p author assume c: "change = create_change p author" "pp_type p = ty"
    then have e: "entry = Some (prepared_entry p (provider_row p author))" "sop = StoreCreate (provider_row p author)"
      using change(2) by (auto simp: create_change_def split: if_splits)
    then obtain new where "stored = Some new" "mgd_key new = ty" "provider_rows db' = (provider_rows db)(ty \<mapsto> new)"
      using run_store_create [OF run [unfolded e]] by (auto simp: provider_row_def c)
    then show ?thesis
      using inv(2,3) e by (auto simp: managed written_entry_def entry_ok_def fun_eq_iff prepared_entry_def)
  next
    fix p v author assume c: "change = update_change p v author" "pp_type p = ty"
    then have e: "entry = Some (prepared_entry p (provider_row p author))" "sop = StoreUpdate (provider_row p author) v"
      using change(2) by (auto simp: update_change_def split: if_splits option.splits)
    then obtain new where "stored = Some new" "mgd_key new = ty" "provider_rows db' = (provider_rows db)(ty \<mapsto> new)"
      using run_store_update [OF run [unfolded e]] by (auto simp: provider_row_def c)
    then show ?thesis
      using inv(2,3) e by (auto simp: managed written_entry_def entry_ok_def fun_eq_iff prepared_entry_def)
  next
    fix v assume c: "change = delete_change ty v"
    then have e: "entry = None" "sop = StoreDelete ty v"
      using change(2) by (auto simp: delete_change_def split: if_splits option.splits)
    then have "stored = None" "provider_rows db' = (provider_rows db)(ty := None)"
      using run_store_delete [OF run [unfolded e]] by auto
    then show ?thesis
      using inv(2,3) e by (auto simp: managed written_entry_def fun_eq_iff)
  qed
  then show "\<And>ty' e. map_of (ps_managed next') ty' = Some e \<Longrightarrow> entry_ok ty' e"
    "provider_rows db' = map_option en_stored \<circ> map_of (ps_managed next')"
    by blast+
qed

subsection \<open>A change\<close>

lemma set_provider_db_same [simp]: "set_provider_db (provider_db st) st = st"
  by (simp add: set_provider_db_def provider_db_def)

lemma set_provider_db_sel [simp]:
  "provider_db (set_provider_db db st) = db" "pst_snapshot (set_provider_db db st) = pst_snapshot st"
  "pst_watchdog (set_provider_db db st) = pst_watchdog st"
  "sv_states (pst_service (set_provider_db db st)) = sv_states (pst_service st)"
  "mo_registry (sv_monitor (pst_service (set_provider_db db st))) = mo_registry (sv_monitor (pst_service st))"
  by (simp_all add: set_provider_db_def provider_db_def)

text \<open>
  A change that is refused leaves everything as it was; one that is stored is published, also when its detail cannot be
  encoded.
\<close>

lemma provider_write_cases:
  assumes "provider_write participant se detail ty change st = (res, st')"
  obtains "isl res" and "st' = st"
  | snap entry sop plan stored db report where "pst_snapshot st = Some snap" and "change snap = Inr (entry, sop)"
      and "plan_change participant ty entry snap (ps_effective (next_snapshot ty entry snap)) (pst_service st) = Inr plan"
      and "run_store (se_now se) sop (provider_db st) = (Inr stored, db)"
      and "res = write_answer detail entry (next_snapshot ty (written_entry stored entry) snap) report"
      and "finish_write participant plan (next_snapshot ty (written_entry stored entry) snap) (set_provider_db db st) = (report, st')"
  using assms
  by (auto simp: provider_write_def Let_def dest: run_store_failure split: if_splits option.splits sum.splits prod.splits)

lemma written_effective:
  "ps_effective (next_snapshot ty (written_entry stored entry) snap) = ps_effective (next_snapshot ty entry snap)"
proof -
  have put: "usable_entries declared (alist_put ty (e\<lparr>en_stored := row\<rparr>) m) = usable_entries declared (alist_put ty e m)" for declared e row m
    by (induction m) (auto simp: usable_entries_def)
  show ?thesis
    by (cases entry; cases stored) (simp_all add: next_snapshot_def Let_def snapshot_compose_def written_entry_def put)
qed

text \<open>
  What a change needs of its dependents: they leave the table of the providers alone, and a plan that was accepted
  brings no dependent from valid to invalid. \<open>well\<close> is the invariant of their state.
\<close>

definition rows_of :: "'p service_state \<Rightarrow> string \<Rightarrow> managed_row option" where
  "rows_of sv = provider_rows (mo_store (sv_monitor sv))"

locale provider_dependents =
  fixes dp :: "('p service_state, 'plan) dependents"
    and valid :: "string \<Rightarrow> 'p service_state \<Rightarrow> bool"
    and well :: "'p service_state \<Rightarrow> bool"
  assumes stop_rows: "dp_stop dp plan sv = (plan', sv') \<Longrightarrow> rows_of sv' = rows_of sv"
    and start_rows: "dp_start dp plan sv = (warnings, sv') \<Longrightarrow> rows_of sv' = rows_of sv"
    and cycle_well: "dp_stop dp plan sv = (plan', sv1) \<Longrightarrow> dp_start dp plan' sv1 = (warnings, sv2) \<Longrightarrow> well sv \<Longrightarrow> well sv2"
    and plan_keeps: "dp_plan dp effective ty sv = Inr plan \<Longrightarrow> sv_states sv0 = sv_states sv \<Longrightarrow>
        dp_stop dp plan sv0 = (plan', sv1) \<Longrightarrow> dp_start dp plan' sv1 = (warnings, sv2) \<Longrightarrow> well sv \<Longrightarrow>
        valid k sv \<Longrightarrow> valid k sv2"
    and states_valid: "sv_states sv' = sv_states sv \<Longrightarrow> valid k sv' = valid k sv"
    and states_well: "sv_states sv' = sv_states sv \<Longrightarrow> well sv' = well sv"
begin

lemma finish_rows:
  assumes "finish_write (Some dp) plan snap st = (report, st')"
  shows "provider_rows (provider_db st') = provider_rows (provider_db st)" and "pst_snapshot st' = Some snap"
    and "pst_watchdog st' = Some (ps_effective snap)"
proof -
  have "provider_rows (provider_db st') = provider_rows (provider_db st) \<and> pst_snapshot st' = Some snap \<and>
    pst_watchdog st' = Some (ps_effective snap)"
  proof (cases plan)
    case None
    then show ?thesis using assms by (auto simp: finish_write_def publishSnapshot_def provider_db_def)
  next
    case (Some pl)
    obtain pl' sv1 where stop: "dp_stop dp pl (pst_service st) = (pl', sv1)" by fastforce
    obtain ws sv2 where start: "dp_start dp pl' sv1 = (ws, sv2)" by fastforce
    have "st' = (publishSnapshot snap (st\<lparr>pst_service := sv1\<rparr>))\<lparr>pst_service := sv2\<rparr>"
      using assms Some stop start by (simp add: finish_write_def publishSnapshot_def Let_def)
    then show ?thesis
      using stop_rows [OF stop] start_rows [OF start]
      by (simp add: publishSnapshot_def provider_db_def rows_of_def)
  qed
  then show "provider_rows (provider_db st') = provider_rows (provider_db st)" "pst_snapshot st' = Some snap"
    "pst_watchdog st' = Some (ps_effective snap)" by simp_all
qed

lemma write_inv:
  assumes inv: "provider_inv st" and change: "change_for ty change"
    and run: "provider_write (Some dp) se detail ty change st = (res, st')"
  shows "provider_inv st'"
  using run
proof (cases rule: provider_write_cases)
  case (2 snap entry sop plan stored db report)
  note I = inv [unfolded provider_inv_def 2(1), simplified]
  have rows: "provider_rows (provider_db st) = map_option en_stored \<circ> map_of (ps_managed snap)" using I by blast
  have ok: "\<And>ty e. map_of (ps_managed snap) ty = Some e \<Longrightarrow> entry_ok ty e"
    using I by (simp del: map_of_eq_Some_iff)
  note N = next_snapshot_inv [OF _ ok rows change 2(2,4)]
  note F = finish_rows [OF 2(6)]
  show ?thesis
    using N I F by (simp add: provider_inv_def del: map_of_eq_Some_iff)
qed (use inv in simp)

lemma write_keeps_valid:
  assumes well: "well (pst_service st)" and run: "provider_write (Some dp) se detail ty change st = (res, st')"
    and valid: "valid k (pst_service st)"
  shows "valid k (pst_service st') \<and> well (pst_service st')"
  using run
proof (cases rule: provider_write_cases)
  case (2 snap entry sop plan stored db report)
  let ?st = "set_provider_db db st"
  have v: "valid k (pst_service ?st)" "well (pst_service ?st)"
    using states_valid [of "pst_service ?st" "pst_service st" k] states_well [of "pst_service ?st" "pst_service st"] valid well
    by simp_all
  show ?thesis
  proof (cases plan)
    case None
    then have "pst_service st' = pst_service ?st"
      using 2(6) by (auto simp: finish_write_def publishSnapshot_def split: option.splits)
    with v show ?thesis by simp
  next
    case (Some pl)
    then have plan: "dp_plan dp (ps_effective (next_snapshot ty entry snap)) ty (pst_service st) = Inr pl"
      using 2(3) by (auto simp: plan_change_def split: if_splits option.splits sum.splits)
    obtain pl' sv1 where stop: "dp_stop dp pl (pst_service ?st) = (pl', sv1)" by fastforce
    obtain ws sv2 where start: "dp_start dp pl' sv1 = (ws, sv2)" by fastforce
    have "pst_service st' = sv2"
      using 2(6) Some stop start by (auto simp: finish_write_def publishSnapshot_def Let_def)
    moreover have "valid k sv2" by (rule plan_keeps [OF plan _ stop start well valid]) simp
    ultimately show ?thesis using cycle_well [OF stop start v(2)] by simp
  qed
qed (use well valid in simp)

end

subsection \<open>The managed endpoints\<close>

definition keyed :: "'p service_state \<Rightarrow> bool" where
  "keyed sv \<longleftrightarrow>
     (let snap = current_states (sv_states sv)
      in distinct (map fst snap) \<and> (\<forall>(k, s) \<in> set snap. mgd_key (ms_stored s) = k))"

definition valid_at :: "string \<Rightarrow> 'p service_state \<Rightarrow> bool" where
  "valid_at k sv \<longleftrightarrow> (case managed_Get k (sv_states sv) of None \<Rightarrow> False | Some s \<Rightarrow> ms_error s = None)"

lemma putState_states:
  "current_states (putState s g) =
   alist_put (mgd_key (ms_stored s)) s (alist_del (mgd_key (ms_stored s)) (current_states g))"
  by (simp add: putState_def replaceState_def publish_states_def current_states_def)

lemma putState_Get: "managed_Get k (putState s g) = (if k = mgd_key (ms_stored s) then Some s else managed_Get k g)"
  by (simp add: managed_Get_def putState_states)

lemma keyed_put:
  assumes "keyed sv" and "sv_states sv' = putState s (sv_states sv)"
  shows "keyed sv'"
proof -
  let ?snap = "current_states (sv_states sv)" and ?k = "mgd_key (ms_stored s)"
  have snap': "current_states (sv_states sv') = alist_put ?k s (alist_del ?k ?snap)"
    using assms(2) by (simp add: putState_states)
  have dist: "distinct (map fst (alist_put ?k s (alist_del ?k ?snap)))"
    using assms(1) by (simp add: keyed_def Let_def distinct_alist_put distinct_alist_del)
  have "mgd_key (ms_stored s') = k'" if "(k', s') \<in> set (alist_put ?k s (alist_del ?k ?snap))" for k' s'
  proof -
    have "map_of (alist_put ?k s (alist_del ?k ?snap)) k' = Some s'"
      by (rule map_of_eq_Some_iff [OF dist, THEN iffD2, OF that])
    then have "k' = ?k \<and> s' = s \<or> map_of ?snap k' = Some s'"
      unfolding map_of_alist_put map_of_alist_del fun_upd_apply by (cases "k' = ?k") simp_all
    then show ?thesis
    proof
      assume "map_of ?snap k' = Some s'"
      then have "(k', s') \<in> set ?snap" by (rule map_of_SomeD)
      then show ?thesis using assms(1) unfolding keyed_def Let_def by blast
    qed simp
  qed
  with dist show ?thesis unfolding keyed_def Let_def snap' by blast
qed

text \<open>The migration of triggered alerts writes no table of the administration.\<close>

lemma upsert_tables: "db_table (snd (UpsertTriggeredEndpointAlert (db_ops sha) db ep a)) = db_table db"
  by (simp add: db_ops_def split: prod.split)

lemma fst_upserted: "fst (case r of (Some e, s') \<Rightarrow> (s', n) | (None, s') \<Rightarrow> (s', m)) = snd r"
  by (cases r; cases "fst r") auto

lemma migrate_loop_tables: "db_table (fst (migrate_loop (db_ops sha) sha previous next' db n ps as)) = db_table db"
proof (induction ps arbitrary: db n as)
  case (Cons p ps)
  show ?case
  proof (cases as)
    case (Cons a as')
    let ?step = "if al_type a \<noteq> al_type p then (db, n)
             else if Checksum sha p = Checksum sha a \<or> \<not> alert_IsEnabled a then (db, n)
             else (case GetTriggeredEndpointAlert (db_ops sha) db previous p of
                     Inl e \<Rightarrow> (db, n)
                   | Inr None \<Rightarrow> (db, n)
                   | Inr (Some (key, successes)) \<Rightarrow>
                       (let migratedAlert = a\<lparr>triggered := True, resolve_key := key\<rparr>;
                            migratingEndpoint = next'\<lparr>NumberOfSuccessesInARow := successes\<rparr>
                        in case UpsertTriggeredEndpointAlert (db_ops sha) db migratingEndpoint migratedAlert of
                             (Some e, s') \<Rightarrow> (s', n)
                           | (None, s') \<Rightarrow> (s', Suc n)))"
    have step: "db_table (fst ?step) = db_table db"
      by (simp add: Let_def fst_upserted upsert_tables split: sum.split option.split)
    have "migrate_loop (db_ops sha) sha previous next' db n (p # ps) as =
        migrate_loop (db_ops sha) sha previous next' (fst ?step) (snd ?step) ps as'"
      unfolding Cons migrate_loop.simps(1) Let_def by (rule case_prod_beta)
    then show ?thesis using Cons.IH [of "fst ?step" "snd ?step" as'] step by simp
  qed simp
qed simp

lemma migrate_tables: "db_table (fst (MigrateTriggeredAlerts (db_ops sha) sha p q db)) = db_table db"
  by (simp add: MigrateTriggeredAlerts_def migrate_loop_tables split: option.split)

lemma start_change_sel:
  assumes "start_change sha c sv = (ws, sv')"
  shows "\<exists>p. sv_states sv' = putState ((pc_next c)\<lparr>ms_parsed := p\<rparr>) (sv_states sv)"
    and "db_table (mo_store (sv_monitor sv')) = db_table (mo_store (sv_monitor sv))"
proof -
  let ?n = "pc_next c" and ?mon = "sv_monitor sv"
  let ?db = "fst (MigrateTriggeredAlerts (db_ops sha) sha (alertingEndpointOf (ms_parsed (pc_previous c)))
      (alertingEndpointOf (ms_parsed ?n)) (mo_store ?mon))"
  obtain p db where r: "(if parsed_IsValid (ms_parsed ?n) then restoreTriggeredAlerts (db_ops sha) sha (ms_parsed ?n) ?db
      else (ms_parsed ?n, mo_store ?mon)) = (p, db)"
    by fastforce
  have db: "db_table db = db_table (mo_store ?mon)"
    using r restoreTriggeredAlerts_target [of sha "ms_parsed ?n" ?db p db]
    by (auto simp: same_tables_def migrate_tables split: if_splits)
  define sv1 where "sv1 = sv\<lparr>sv_states := putState (?n\<lparr>ms_parsed := p\<rparr>) (sv_states sv), sv_monitor := ?mon\<lparr>mo_store := db\<rparr>\<rparr>"
  have "sv' = sv1 \<or> (\<exists>reg. sv' = set_registry reg sv1)"
    using assms by (auto simp: start_change_def Let_def r sv1_def split: if_splits prod.splits option.splits)
  then show "\<exists>p. sv_states sv' = putState (?n\<lparr>ms_parsed := p\<rparr>) (sv_states sv)"
    "db_table (mo_store (sv_monitor sv')) = db_table (mo_store (sv_monitor sv))"
    by (auto simp: sv1_def set_registry_def db)
qed

lemma dependents_Start_sel:
  "dependents_Start sha cs sv = (ws, sv') \<Longrightarrow>
   db_table (mo_store (sv_monitor sv')) = db_table (mo_store (sv_monitor sv)) \<and> (keyed sv \<longrightarrow> keyed sv')"
proof (induction cs arbitrary: sv ws)
  case (Cons c cs)
  obtain ws1 sv1 ws2 where r: "start_change sha c sv = (ws1, sv1)" "dependents_Start sha cs sv1 = (ws2, sv')"
    using Cons.prems by (auto split: prod.splits)
  show ?case using Cons.IH [OF r(2)] start_change_sel [OF r(1)] keyed_put by auto
qed simp

lemma dependents_Start_valid:
  assumes "dependents_Start sha cs sv = (ws, sv')" and "valid_at k sv"
    and "\<forall>c \<in> set cs. valid_at (mgd_key (ms_stored (pc_next c))) sv0 \<longrightarrow> ms_error (pc_next c) = None"
    and "valid_at k sv0"
  shows "valid_at k sv'"
  using assms(1-3)
proof (induction cs arbitrary: sv ws)
  case (Cons c cs)
  obtain ws1 sv1 ws2 where r: "start_change sha c sv = (ws1, sv1)" "dependents_Start sha cs sv1 = (ws2, sv')"
    using Cons.prems(1) by (auto split: prod.splits)
  obtain p where "sv_states sv1 = putState ((pc_next c)\<lparr>ms_parsed := p\<rparr>) (sv_states sv)"
    using start_change_sel(1) [OF r(1)] by blast
  then have "valid_at k sv1" using Cons.prems(2,3) assms(4) by (auto simp: valid_at_def putState_Get)
  then show ?case using Cons.IH [OF r(2)] Cons.prems(3) by simp
qed simp

lemma stop_changes_next: "stop_changes cs reg = (cs', reg') \<Longrightarrow> map pc_next cs' = map pc_next cs"
proof (induction cs arbitrary: reg cs' reg')
  case (Cons c cs)
  obtain c1 reg1 cs2 reg2 where r: "stop_change c reg = (c1, reg1)" "stop_changes cs reg1 = (cs2, reg2)" "cs' = c1 # cs2"
    using Cons.prems by (auto split: prod.splits)
  have "pc_next c1 = pc_next c"
    using r(1) by (auto simp: stop_change_def Let_def split: if_splits sum.splits prod.splits)
  then show ?case using Cons.IH [OF r(2)] r(3) by simp
qed simp

lemma dependents_Stop_sel:
  assumes "dependents_Stop plan sv = (plan', sv')"
  shows "sv_states sv' = sv_states sv" and "mo_store (sv_monitor sv') = mo_store (sv_monitor sv)"
    and "map pc_next plan' = map pc_next plan"
  using assms stop_changes_next by (auto simp: dependents_Stop_def set_registry_def split: prod.splits)

lemma prepareState_stored [simp]: "ms_stored (prepareState y ctx stored) = stored"
  by (simp add: prepareState_def newStateFromPrepared_def Let_def split: option.split sum.split)

lemma concat_Nil_conv: "concat xss = [] \<longleftrightarrow> (\<forall>xs \<in> set xss. xs = [])"
  by (induction xss) auto

text \<open>Every change of an accepted plan prepares the state of its key again, without error if it had none.\<close>

lemma dependents_Plan_changes:
  assumes "dependents_Plan se pl effective ty sv = Inr plan" and "keyed sv" and "c \<in> set plan"
  shows "ms_stored (pc_next c) = ms_stored (pc_previous c)"
    and "managed_Get (mgd_key (ms_stored (pc_previous c))) (sv_states sv) = Some (pc_previous c)"
    and "ms_error (pc_previous c) = None \<Longrightarrow> ms_error (pc_next c) = None"
    and "valid_at (mgd_key (ms_stored (pc_next c))) sv \<Longrightarrow> ms_error (pc_next c) = None"
proof -
  let ?g = "sv_states sv"
  let ?used = "filter (\<lambda>s. \<not> state_InConflict s \<and> definitionUsesAlertType pl (mgd_definition (ms_stored s)) ty) (managed_List ?g)"
  let ?changes = "map (planned_change se effective (managed_Keys ?g)) ?used"
  have ok: "concat (map (\<lambda>c. case (ms_error (pc_next c), ms_error (pc_previous c)) of
                        (Some e, None) \<Rightarrow> [(mgd_key (ms_stored (pc_previous c)), e)] | _ \<Rightarrow> []) ?changes) = []"
    and plan: "plan = sort_key (\<lambda>c. mgd_key (ms_stored (pc_previous c))) ?changes"
    using assms(1) by (auto simp: dependents_Plan_def Let_def split: if_splits)
  have c: "c \<in> set ?changes" using assms(3) by (simp add: plan)
  then obtain s where s: "s \<in> set (managed_List ?g)" "c = planned_change se effective (managed_Keys ?g) s" by auto
  show stored: "ms_stored (pc_next c) = ms_stored (pc_previous c)" by (simp add: s planned_change_def)
  have prev: "pc_previous c = s" by (simp add: s planned_change_def)
  obtain k where k: "(k, s) \<in> set (current_states ?g)" using s(1) by (auto simp: managed_List_def)
  then have "k = mgd_key (ms_stored s)" using assms(2) by (auto simp: keyed_def Let_def)
  with k have "map_of (current_states ?g) (mgd_key (ms_stored s)) = Some s"
    using assms(2) by (simp add: keyed_def Let_def)
  then show get: "managed_Get (mgd_key (ms_stored (pc_previous c))) ?g = Some (pc_previous c)"
    by (simp add: managed_Get_def prev)
  show none: "ms_error (pc_next c) = None" if "ms_error (pc_previous c) = None"
  proof -
    have "(case (ms_error (pc_next c), ms_error (pc_previous c)) of
                        (Some e, None) \<Rightarrow> [(mgd_key (ms_stored (pc_previous c)), e)] | _ \<Rightarrow> []) = []"
      using ok c unfolding concat_Nil_conv by (metis (no_types, lifting) image_eqI set_map)
    with that show ?thesis by (auto split: option.splits)
  qed
  show "ms_error (pc_next c) = None" if "valid_at (mgd_key (ms_stored (pc_next c))) sv"
    using that get none by (simp add: valid_at_def stored)
qed

interpretation endpoint_dependents: provider_dependents
  "alertProviderDependents se pl :: ('p service_state, endpoint_change list) dependents"
  "valid_at :: string \<Rightarrow> 'p service_state \<Rightarrow> bool" "keyed :: 'p service_state \<Rightarrow> bool" for se pl
proof
  fix plan plan' ws effective ty k and sv sv' sv0 sv1 sv2 :: "'p service_state"
  let ?dp = "alertProviderDependents se pl"
  show "dp_stop ?dp plan sv = (plan', sv') \<Longrightarrow> rows_of sv' = rows_of sv"
    using dependents_Stop_sel(2) [of plan sv plan' sv'] by (simp add: alertProviderDependents_def rows_of_def)
  show "dp_start ?dp plan sv = (ws, sv') \<Longrightarrow> rows_of sv' = rows_of sv"
    using dependents_Start_sel [of "se_sha se" plan sv ws sv']
    by (simp add: alertProviderDependents_def rows_of_def provider_rows_def)
  show "dp_stop ?dp plan sv = (plan', sv1) \<Longrightarrow> dp_start ?dp plan' sv1 = (ws, sv2) \<Longrightarrow> keyed sv \<Longrightarrow> keyed sv2"
    using dependents_Stop_sel(1) [of plan sv plan' sv1] dependents_Start_sel [of "se_sha se" plan' sv1 ws sv2]
    by (simp add: alertProviderDependents_def keyed_def)
  show "dp_plan ?dp effective ty sv = Inr plan \<Longrightarrow> sv_states sv0 = sv_states sv \<Longrightarrow>
      dp_stop ?dp plan sv0 = (plan', sv1) \<Longrightarrow> dp_start ?dp plan' sv1 = (ws, sv2) \<Longrightarrow> keyed sv \<Longrightarrow>
      valid_at k sv \<Longrightarrow> valid_at k sv2"
  proof -
    assume plan: "dp_plan ?dp effective ty sv = Inr plan" and same: "sv_states sv0 = sv_states sv"
      and stop: "dp_stop ?dp plan sv0 = (plan', sv1)" and start: "dp_start ?dp plan' sv1 = (ws, sv2)"
      and keyed: "keyed sv" and valid: "valid_at k sv"
    have P: "dependents_Plan se pl effective ty sv = Inr plan" using plan by (simp add: alertProviderDependents_def)
    note S = dependents_Stop_sel [of plan sv0 plan' sv1]
    have stop': "dependents_Stop plan sv0 = (plan', sv1)" using stop by (simp add: alertProviderDependents_def)
    have next_ok: "\<forall>c \<in> set plan'. valid_at (mgd_key (ms_stored (pc_next c))) sv \<longrightarrow> ms_error (pc_next c) = None"
    proof
      fix c assume "c \<in> set plan'"
      then have "pc_next c \<in> set (map pc_next plan)" using S(3) [OF stop'] by (metis image_eqI set_map)
      then obtain c0 where "c0 \<in> set plan" "pc_next c = pc_next c0" by auto
      then show "valid_at (mgd_key (ms_stored (pc_next c))) sv \<longrightarrow> ms_error (pc_next c) = None"
        using dependents_Plan_changes(4) [OF P keyed, of c0] by simp
    qed
    have "valid_at k sv1" using valid S(1) [OF stop'] same by (simp add: valid_at_def)
    with start show "valid_at k sv2"
      using dependents_Start_valid [of "se_sha se" plan' sv1 ws sv2 k sv] next_ok valid
      by (simp add: alertProviderDependents_def)
  qed
  show "sv_states sv' = sv_states sv \<Longrightarrow> valid_at k sv' = valid_at k sv" by (simp add: valid_at_def)
  show "sv_states sv' = sv_states sv \<Longrightarrow> keyed sv' = keyed sv" by (simp add: keyed_def)
qed

end
