(* ===== verification/AlertProviderSafety.thy ===== *)
theory AlertProviderSafety
  imports AlertProviderFacts HealthFacts
begin

text \<open>
  The alerts of the managed endpoints always have a provider: a prepared definition only uses the providers of its
  context, a provider in use cannot be deleted, and a change prepares the endpoints that use it again.
\<close>

subsection \<open>The types of the alerts\<close>

lemma validate_types: "validate_alerts as = (None, bs) \<Longrightarrow> map al_type bs = map al_type as"
  by (induction as arbitrary: bs)
    (auto simp: alert_ValidateAndSetDefaults_def Let_def split: prod.splits option.splits if_splits)

lemma name_group_types:
  "validateEndpointNameGroupAndAlerts name grp as = (None, bs) \<Longrightarrow> map al_type bs = map al_type as"
  by (auto simp: validateEndpointNameGroupAndAlerts_def split: if_splits prod.splits option.splits dest: validate_types)

definition provided :: "alerting_section option \<Rightarrow> alert list \<Rightarrow> bool" where
  "provided alerting as \<longleftrightarrow> (\<forall>t \<in> set (map al_type as). Option.bind alerting (\<lambda>al. al t) \<noteq> None)"

lemma validateAlerts_provided:
  assumes "validateAlerts grp alerting as = (None, bs)"
  shows "provided alerting bs"
proof -
  obtain u where v: "validate_seq (validate_managed_alert grp alerting) () as = (None, u, bs)"
    using assms by (auto simp: validateAlerts_def Let_def split: prod.splits)
  have step: "Option.bind alerting (\<lambda>al. al (al_type b)) \<noteq> None"
    if "validate_managed_alert grp alerting s a = (None, s', b)" for s s' :: unit and a b
    using that by (auto simp: validate_managed_alert_def Let_def split: option.splits if_splits)
  let ?R = "\<lambda>(a :: alert) (b :: alert). Option.bind alerting (\<lambda>al. al (al_type b)) \<noteq> None"
  have "list_all2 ?R as bs"
    using validate_seq_rel [of "validate_managed_alert grp alerting" "()" as u bs ?R] v step by blast
  then have "Option.bind alerting (\<lambda>al. al (al_type b)) \<noteq> None" if "b \<in> set bs" for b
    using that by (auto simp: list_all2_conv_all_nth in_set_conv_nth)
  then show ?thesis by (simp add: provided_def)
qed

lemma external_types: "ee_ValidateAndSetDefaults ee = (None, ee') \<Longrightarrow> map al_type (ee_alerts ee') = map al_type (ee_alerts ee)"
proof -
  assume v: "ee_ValidateAndSetDefaults ee = (None, ee')"
  obtain as where as: "validateEndpointNameGroupAndAlerts (ee_name ee) (ee_group ee) (ee_alerts ee) = (None, as)"
    using v by (cases "validateEndpointNameGroupAndAlerts (ee_name ee) (ee_group ee) (ee_alerts ee)"; cases "fst (validateEndpointNameGroupAndAlerts (ee_name ee) (ee_group ee) (ee_alerts ee))")
      (simp_all add: ee_ValidateAndSetDefaults_def)
  with v have "ee_alerts ee' = as" by (auto simp: ee_ValidateAndSetDefaults_def Let_def split: if_splits)
  then show ?thesis using name_group_types [OF as] by simp
qed

lemma endpoint_types:
  assumes "ep_ValidateAndSetDefaults env ep = (None, ep')"
  shows "map al_type (ep_alerts ep') = map al_type (ep_alerts ep)"
  using assms
proof (rule validate_endpoint_cases)
  fix as cl ui ep1
  assume "validateEndpointNameGroupAndAlerts (ep_name ep) (ep_group ep) (ep_alerts ep) = (None, as)"
    and "ep1 = set_endpoint_defaults (ep\<lparr>ep_alerts := as, ep_client := Some cl, ep_ui := Some ui\<rparr>)"
    and "validate_target env ep1 = (None, ep')"
  then show ?thesis using validate_target_sel(3) [of env ep1 None ep'] name_group_types by simp
qed

lemma provided_types: "map al_type as = map al_type bs \<Longrightarrow> provided alerting as = provided alerting bs"
  by (simp add: provided_def)

lemma validateAlerts_types:
  assumes "validateAlerts grp alerting as = (None, bs)"
  shows "map al_type bs = map al_type as"
proof -
  obtain u where v: "validate_seq (validate_managed_alert grp alerting) () as = (None, u, bs)"
    using assms by (auto simp: validateAlerts_def Let_def split: prod.splits)
  have step: "al_type b = al_type a"
    if "validate_managed_alert grp alerting s a = (None, s', b)" for s s' :: unit and a b
    using that by (auto simp: validate_managed_alert_def MergeProviderDefaultAlertIntoEndpointAlert_def Let_def
        split: option.splits if_splits)
  let ?R = "\<lambda>(a :: alert) (b :: alert). al_type b = al_type a"
  have "list_all2 ?R as bs"
    using validate_seq_rel [of "validate_managed_alert grp alerting" "()" as u bs ?R] v step by blast
  then show ?thesis by (auto simp: list_eq_iff_nth_eq list_all2_conv_all_nth)
qed

lemma validatePush_types:
  assumes "validatePush ee ctx = Inr ee'"
  shows "provided (px_alerting ctx) (ee_alerts ee')" and "map al_type (ee_alerts ee') = map al_type (ee_alerts ee)"
proof -
  obtain as where as: "validateAlerts (ee_group ee) (px_alerting ctx) (ee_alerts ee) = (None, as)"
    using assms by (auto simp: validatePush_def split: prod.splits option.splits)
  define e1 where "e1 = (let ee = ee\<lparr>ee_alerts := as\<rparr> in
    if hb_interval (ee_heartbeat ee) = 0
    then ee\<lparr>ee_heartbeat := (ee_heartbeat ee)\<lparr>hb_interval := DefaultPushHeartbeatInterval\<rparr>\<rparr> else ee)"
  have "ee_ValidateAndSetDefaults e1 = (None, ee')"
    using assms as by (auto simp: validatePush_def e1_def Let_def split: prod.splits option.splits)
  then have "map al_type (ee_alerts ee') = map al_type (ee_alerts e1)" by (rule external_types)
  moreover have "ee_alerts e1 = as" by (simp add: e1_def Let_def)
  ultimately have types: "map al_type (ee_alerts ee') = map al_type as" by simp
  then show "provided (px_alerting ctx) (ee_alerts ee')" using validateAlerts_provided [OF as] provided_types by metis
  show "map al_type (ee_alerts ee') = map al_type (ee_alerts ee)" using types validateAlerts_types [OF as] by simp
qed

lemma validate_active_provided:
  assumes "validate_active ep ctx = Inr ep'"
  shows "provided (px_alerting ctx) (ep_alerts ep')"
proof -
  obtain as where as: "validateAlerts (ep_group ep) (px_alerting ctx) (ep_alerts ep) = (None, as)"
    using assms by (auto simp: validate_active_def split: prod.splits option.splits)
  obtain e1 where e1: "ep_ValidateAndSetDefaults (px_env ctx) (ep\<lparr>ep_alerts := as\<rparr>) = (None, e1)"
    "ep_alerts ep' = ep_alerts e1"
    using assms as by (auto simp: validate_active_def Let_def split: prod.splits option.splits sum.splits)
  have "map al_type (ep_alerts ep') = map al_type as" using endpoint_types [OF e1(1)] e1(2) by simp
  then show ?thesis using validateAlerts_provided [OF as] provided_types by metis
qed

lemma Prepare_provided:
  assumes "Prepare y d ctx = Inr pr"
  shows "provided (px_alerting ctx) (parsed_alerts (pr_parsed pr))"
proof -
  obtain p0 where p: "ParseDefinition y d = Inr p0" "validate_parsed p0 ctx = Inr (pr_parsed pr)"
    using assms by (auto simp: Prepare_def split: sum.splits option.splits)
  show ?thesis
  proof (cases "pa_push p0")
    case (Some ee)
    then obtain ee' where "validatePush ee ctx = Inr ee'" "pr_parsed pr = p0\<lparr>pa_push := Some ee'\<rparr>"
      using p(2) by (auto simp: validate_parsed_def split: sum.splits)
    then show ?thesis using validatePush_types(1) by (simp add: parsed_alerts_def parsed_select_def)
  next
    case None
    then obtain ep where ep: "pa_endpoint p0 = Some ep"
      using ParseDefinition_valid [OF p(1)] by (auto simp: parsed_IsValid_def)
    with None obtain ep' where "validate_active ep ctx = Inr ep'" "pr_parsed pr = p0\<lparr>pa_endpoint := Some ep'\<rparr>"
      using p(2) by (auto simp: validate_parsed_def split: sum.splits)
    then show ?thesis using validate_active_provided None by (simp add: parsed_alerts_def parsed_select_def)
  qed
qed

text \<open>The restoration of triggered alerts keeps the types.\<close>

lemma restore_loop_types:
  "restore_loop ops s ep n as = (as', ep', n') \<Longrightarrow> map al_type as' = map al_type as"
proof (induction as arbitrary: ep n as' ep' n')
  case (Cons a as)
  let ?step = "case GetTriggeredEndpointAlert ops s ep a of
      Inl e \<Rightarrow> (a, ep, n)
    | Inr None \<Rightarrow> (a, ep, n)
    | Inr (Some (key, successes)) \<Rightarrow>
        (a\<lparr>triggered := True, resolve_key := key\<rparr>,
         ep\<lparr>NumberOfSuccessesInARow := successes, NumberOfFailuresInARow := failure_threshold a\<rparr>, Suc n)"
  obtain a1 ep1 n1 where step: "?step = (a1, ep1, n1)" by (metis prod_cases3)
  obtain as2 ep2 n2 where rest: "restore_loop ops s ep1 n1 as = (as2, ep2, n2)" by (metis prod_cases3)
  have "as' = a1 # as2"
    using Cons.prems unfolding restore_loop.simps Let_def step by (simp add: rest)
  moreover have "al_type a1 = al_type a" using step by (auto split: sum.splits option.splits)
  ultimately show ?case using Cons.IH [OF rest] by simp
qed simp

lemma RestorePersisted_types:
  assumes "RestorePersistedTriggeredAlerts ops sha ep s = (n, ep', s')"
  shows "map al_type (ep_alerts ep') = map al_type (ep_alerts ep)"
  using assms by (auto simp: RestorePersistedTriggeredAlerts_def Let_def dest: restore_loop_types split: prod.splits)

definition types_of_alerts :: "parsed \<Rightarrow> string list" where
  "types_of_alerts p = map al_type (parsed_alerts p)"

lemma restored_types:
  assumes "restoreTriggeredAlerts ops sha p s = (p', s')"
  shows "types_of_alerts p' = types_of_alerts p"
proof (cases "pa_push p")
  case (Some ee)
  obtain n conv s1 where r: "RestorePersistedTriggeredAlerts ops sha (ToEndpoint ee) s = (n, conv, s1)"
    by (metis prod_cases3)
  have "map al_type (ep_alerts conv) = map al_type (ee_alerts ee)"
    using RestorePersisted_types [OF r] by (simp add: ToEndpoint_def)
  then show ?thesis
    using assms Some
    by (auto simp: restoreTriggeredAlerts_def r Let_def types_of_alerts_def parsed_alerts_def parsed_select_def)
next
  case None
  then show ?thesis
    using assms RestorePersisted_types
    by (auto simp: restoreTriggeredAlerts_def Let_def types_of_alerts_def parsed_alerts_def parsed_select_def
        split: option.splits prod.splits)
qed

subsection \<open>The alerts of the managed endpoints have a provider\<close>

text \<open>
  A state is covered when each type of its alerts is configured and found in its stored definition. An endpoint whose
  key the file took monitors nothing.
\<close>

definition covered :: "provider_lib \<Rightarrow> alerting_section \<Rightarrow> managed_state \<Rightarrow> bool" where
  "covered pl effective s \<longleftrightarrow>
     (state_InConflict s \<longrightarrow> types_of_alerts (ms_parsed s) = []) \<and>
     (\<forall>t \<in> set (types_of_alerts (ms_parsed s)).
        effective t \<noteq> None \<and> definitionUsesAlertType pl (mgd_definition (ms_stored s)) t)"

definition all_covered :: "provider_lib \<Rightarrow> alerting_section \<Rightarrow> 'p service_state \<Rightarrow> bool" where
  "all_covered pl effective sv \<longleftrightarrow> (\<forall>(k, s) \<in> set (current_states (sv_states sv)). covered pl effective s)"

text \<open>The decoder of the types of the alerts sees the alerts that the decoder of the definitions sees.\<close>

definition decoders_agree :: "yaml_lib \<Rightarrow> provider_lib \<Rightarrow> bool" where
  "decoders_agree y pl \<longleftrightarrow>
     (\<forall>d ctx pr. Prepare y d ctx = Inr pr \<longrightarrow>
        (\<forall>t \<in> set (types_of_alerts (pr_parsed pr)). definitionUsesAlertType pl d t))"

lemma no_alerts [simp]: "types_of_alerts no_parsed = []"
  by (simp add: types_of_alerts_def parsed_alerts_def parsed_select_def no_parsed_def)

lemma prepareState_covered:
  assumes "decoders_agree y pl" and "px_alerting ctx = Some effective"
  shows "covered pl effective (prepareState y ctx stored)"
proof (cases "ConfigKeyOrigin (px_config ctx) (mgd_key stored)")
  case None
  show ?thesis
  proof (cases "Prepare y (mgd_definition stored) ctx")
    case (Inr pr)
    have "\<forall>t \<in> set (types_of_alerts (pr_parsed pr)). effective t \<noteq> None \<and> definitionUsesAlertType pl (mgd_definition stored) t"
      using Prepare_provided [OF Inr] assms Inr unfolding decoders_agree_def provided_def types_of_alerts_def by auto
    then show ?thesis
      by (auto simp: prepareState_def None Inr covered_def newStateFromPrepared_def Let_def state_InConflict_def
          split: sum.split)
  qed (simp add: prepareState_def None covered_def Let_def)
qed (simp add: prepareState_def covered_def)

lemma planned_covered:
  assumes "decoders_agree (se_yaml se) pl"
  shows "covered pl effective (pc_next (planned_change se effective keys s))"
  unfolding planned_change_def endpoint_change.select_convs
  by (rule prepareState_covered [OF assms]) (simp add: plan_context_def)

lemma covered_parsed: "types_of_alerts p = types_of_alerts (ms_parsed s) \<Longrightarrow> covered pl effective (s\<lparr>ms_parsed := p\<rparr>) = covered pl effective s"
  by (simp add: covered_def state_InConflict_def)

lemma set_alist_put: "set (alist_put k v m) \<subseteq> insert (k, v) (set m)"
  by (induction m) (auto split: if_splits)

lemma put_covered:
  assumes "all_covered pl effective sv" and "covered pl effective s" and "sv_states sv' = putState s (sv_states sv)"
  shows "all_covered pl effective sv'"
proof -
  have "set (current_states (sv_states sv')) \<subseteq> insert (mgd_key (ms_stored s), s) (set (current_states (sv_states sv)))"
    using assms(3) set_alist_put by (fastforce simp: putState_states alist_del_def)
  then show ?thesis using assms(1,2) unfolding all_covered_def by blast
qed

lemma planned_member:
  assumes "dependents_Plan se pl effective ty sv = Inr cs" and "c \<in> set cs"
  shows "\<exists>s \<in> set (managed_List (sv_states sv)). c = planned_change se effective (managed_Keys (sv_states sv)) s"
proof -
  let ?used = "filter (\<lambda>s. \<not> state_InConflict s \<and> definitionUsesAlertType pl (mgd_definition (ms_stored s)) ty)
      (managed_List (sv_states sv))"
  have "cs = sort_key (\<lambda>c. mgd_key (ms_stored (pc_previous c))) (map (planned_change se effective (managed_Keys (sv_states sv))) ?used)"
    using assms(1) unfolding dependents_Plan_def Let_def by (simp split: if_splits)
  then have "set cs = planned_change se effective (managed_Keys (sv_states sv)) ` set ?used" by simp
  with assms(2) show ?thesis by auto
qed

lemma sort_empty: "sort xs = [] \<longleftrightarrow> xs = []"
  by (metis length_0_conv length_sort)

lemma start_change_covered:
  assumes "start_change sha c sv = (ws, sv')" and "all_covered pl effective sv" and "covered pl effective (pc_next c)"
  shows "all_covered pl effective sv'"
proof -
  let ?n = "pc_next c" and ?mon = "sv_monitor sv"
  let ?db = "fst (MigrateTriggeredAlerts (db_ops sha) sha (alertingEndpointOf (ms_parsed (pc_previous c)))
      (alertingEndpointOf (ms_parsed ?n)) (mo_store ?mon))"
  obtain p db where r: "(if parsed_IsValid (ms_parsed ?n) then restoreTriggeredAlerts (db_ops sha) sha (ms_parsed ?n) ?db
      else (ms_parsed ?n, mo_store ?mon)) = (p, db)"
    by fastforce
  have "types_of_alerts p = types_of_alerts (ms_parsed ?n)" using r restored_types by (auto split: if_splits)
  then have p: "covered pl effective (?n\<lparr>ms_parsed := p\<rparr>)" using assms(3) covered_parsed by blast
  have "sv_states sv' = putState (?n\<lparr>ms_parsed := p\<rparr>) (sv_states sv)"
    using assms(1) by (auto simp: start_change_def Let_def r set_registry_def split: if_splits prod.splits option.splits)
  then show ?thesis by (rule put_covered [OF assms(2) p])
qed

lemma dependents_Start_covered:
  "dependents_Start sha cs sv = (ws, sv') \<Longrightarrow> all_covered pl effective sv \<Longrightarrow>
   \<forall>c \<in> set cs. covered pl effective (pc_next c) \<Longrightarrow> all_covered pl effective sv'"
proof (induction cs arbitrary: sv ws)
  case (Cons c cs)
  obtain ws1 sv1 ws2 where r: "start_change sha c sv = (ws1, sv1)" "dependents_Start sha cs sv1 = (ws2, sv')"
    using Cons.prems(1) by (auto split: prod.splits)
  show ?case using Cons.IH [OF r(2)] start_change_covered [OF r(1)] Cons.prems(2,3) by simp
qed simp

text \<open>A change configures the types that were configured, save the one it deletes.\<close>

lemma change_configures:
  assumes inv: "provider_inv st" "pst_snapshot st = Some snap"
    and change: "change_for ty change" "change snap = Inr (entry, sop)"
    and keep: "t \<noteq> ty \<or> entry \<noteq> None \<or> ty \<in> set (ps_declared snap)"
    and t: "ps_effective snap t \<noteq> None"
  shows "ps_effective (next_snapshot ty entry snap) t \<noteq> None"
proof -
  let ?next = "next_snapshot ty entry snap"
  have dist: "distinct (map fst (ps_managed snap))" and eff: "ps_effective snap = effective_spec snap"
    using inv by (auto simp: provider_inv_def)
  have managed: "ps_managed ?next = (case entry of
      None \<Rightarrow> alist_del ty (ps_managed snap) | Some e \<Rightarrow> alist_put ty e (ps_managed snap))"
    and rest: "ps_config ?next = ps_config snap" "ps_declared ?next = ps_declared snap"
    and composed: "ps_effective ?next = snapshot_compose ?next"
    by (simp_all add: next_snapshot_def Let_def snapshot_compose_def)
  have "distinct (map fst (ps_managed ?next))"
    using dist by (auto simp: managed distinct_alist_put distinct_alist_del split: option.split)
  then have eff': "ps_effective ?next = effective_spec ?next" by (simp add: composed snapshot_compose_spec)
  have prepared: "en_prepared e \<noteq> None" if "entry = Some e" for e
    using change that unfolding change_for_def
    by (auto simp: create_change_def update_change_def delete_change_def prepared_entry_def split: if_splits option.splits)
  show ?thesis
  proof (cases "t = ty")
    case False
    then have "map_of (ps_managed ?next) t = map_of (ps_managed snap) t" by (simp add: managed split: option.split)
    then have "effective_spec ?next t = effective_spec snap t" unfolding effective_spec_def rest by (rule arg_cong)
    then show ?thesis using t by (simp add: eff eff')
  next
    case True
    then show ?thesis
      using keep t prepared by (auto simp: eff eff' effective_spec_def rest managed Let_def split: option.splits if_splits)
  qed
qed

lemma covered_mono:
  assumes "covered pl effective s" and "\<And>t. t \<in> set (types_of_alerts (ms_parsed s)) \<Longrightarrow> effective t \<noteq> None \<Longrightarrow> effective' t \<noteq> None"
  shows "covered pl effective' s"
  using assms by (auto simp: covered_def)

text \<open>A change of a provider leaves every alert of every managed endpoint with a provider.\<close>

lemma write_covers:
  assumes agree: "decoders_agree (se_yaml se) pl"
    and inv: "provider_inv st" and snap: "pst_snapshot st = Some snap"
    and cov: "all_covered pl (ps_effective snap) (pst_service st)"
    and change: "change_for ty change"
    and run: "provider_write (Some (alertProviderDependents se pl)) se detail ty change st = (res, st')"
  shows "\<exists>snap'. pst_snapshot st' = Some snap' \<and> all_covered pl (ps_effective snap') (pst_service st')"
  using run
proof (cases rule: provider_write_cases)
  case (2 snap1 entry sop plan stored db report)
  let ?dp = "alertProviderDependents se pl" and ?st = "set_provider_db db st"
  let ?next = "next_snapshot ty (written_entry stored entry) snap" and ?eff = "ps_effective (next_snapshot ty entry snap)"
  have s1: "snap1 = snap" using 2(1) snap by simp
  have eff: "ps_effective ?next = ?eff" by (rule written_effective)
  have snap': "pst_snapshot st' = Some ?next"
    using endpoint_dependents.finish_rows(2) [OF 2(6)] s1 by simp
  have states: "sv_states (pst_service ?st) = sv_states (pst_service st)" by simp
  have unused: "ty \<notin> set (types_of_alerts (ms_parsed s))"
    if "entry = None" "ty \<notin> set (ps_declared snap)" "(k, s) \<in> set (current_states (sv_states (pst_service st)))" for k s
  proof -
    have "dependents_Users pl ty (pst_service st) = []"
      using 2(3) that by (auto simp: plan_change_def alertProviderDependents_def s1 split: if_splits)
    then have "\<not> definitionUsesAlertType pl (mgd_definition (ms_stored s)) ty"
      using that(3) by (force simp: dependents_Users_def managed_List_def filter_empty_conv sort_empty)
    then show ?thesis using cov that(3) unfolding all_covered_def covered_def by blast
  qed
  have now: "all_covered pl ?eff (pst_service st)"
    unfolding all_covered_def
  proof safe
    fix k s assume s: "(k, s) \<in> set (current_states (sv_states (pst_service st)))"
    then have c: "covered pl (ps_effective snap) s" using cov unfolding all_covered_def by blast
    show "covered pl ?eff s"
      by (rule covered_mono [OF c], rule change_configures [OF inv snap change 2(2) [unfolded s1]])
        (use unused [OF _ _ s] in auto)
  qed
  have "all_covered pl ?eff (pst_service st')"
  proof (cases plan)
    case None
    then have "sv_states (pst_service st') = sv_states (pst_service st)"
      using 2(6) by (auto simp: finish_write_def publishSnapshot_def split: option.splits)
    with now show ?thesis by (simp add: all_covered_def)
  next
    case (Some cs)
    then have plan: "dependents_Plan se pl ?eff ty (pst_service st) = Inr cs"
      using 2(3) s1 by (auto simp: plan_change_def alertProviderDependents_def split: if_splits option.splits sum.splits)
    obtain cs' sv1 where stop: "dependents_Stop cs (pst_service ?st) = (cs', sv1)" by fastforce
    obtain ws sv2 where start: "dependents_Start (se_sha se) cs' sv1 = (ws, sv2)" by fastforce
    have sv2: "pst_service st' = sv2"
      using 2(6) Some stop start by (auto simp: finish_write_def publishSnapshot_def Let_def alertProviderDependents_def)
    have planned: "covered pl ?eff (pc_next c)" if c: "c \<in> set cs" for c
    proof -
      obtain s where "c = planned_change se ?eff (managed_Keys (sv_states (pst_service st))) s"
        using planned_member [OF plan c] by blast
      then show ?thesis using planned_covered [OF agree] by simp
    qed
    have "\<forall>c \<in> set cs'. covered pl ?eff (pc_next c)"
    proof
      fix c assume "c \<in> set cs'"
      then have "pc_next c \<in> set (map pc_next cs)" using dependents_Stop_sel(3) [OF stop] by (metis image_eqI set_map)
      then show "covered pl ?eff (pc_next c)" using planned by auto
    qed
    moreover have "all_covered pl ?eff sv1"
      using now dependents_Stop_sel(1) [OF stop] by (simp add: all_covered_def)
    ultimately show ?thesis unfolding sv2 using dependents_Start_covered [OF start] by blast
  qed
  with snap' eff show ?thesis by simp
qed (use snap cov in auto)

subsection \<open>The load\<close>

lemma fold_put_entries:
  assumes "distinct (map fst ps)" and "\<forall>(k, row) \<in> set ps. mgd_key row = k \<and> alertTypeOf k = k"
  shows "map_of (fold (\<lambda>row m. alist_put (alertTypeOf (mgd_key row)) (newManagedEntry y pl row) m) (map snd ps) m0) =
    map_of m0 ++ (map_option (newManagedEntry y pl) \<circ> map_of ps)"
  using assms
proof (induction ps arbitrary: m0)
  case (Cons p ps)
  obtain k row where p: "p = (k, row)" by (cases p)
  have "map_of ps k = None" using Cons.prems(1) p by (simp add: map_of_eq_None_iff)
  with Cons p show ?case by (auto simp: fun_eq_iff map_add_def split: option.split)
qed (simp add: map_add_def fun_eq_iff)

lemma newManagedEntry_stored [simp]: "en_stored (newManagedEntry y pl row) = row"
  by (simp add: newManagedEntry_def Let_def split: decoded.split sum.split)

text \<open>The load on a table with distinct, normalized keys that can be read.\<close>

definition provider_table_ok :: "managed_db \<Rightarrow> bool" where
  "provider_table_ok db \<longleftrightarrow>
     (let t = db_table db ManagedAlertProvidersTable
      in db_tx db \<noteq> TxStatement 0 \<and> distinct (map fst t) \<and> (\<forall>(k, row) \<in> set t. mgd_key row = k \<and> alertTypeOf k = k))"

lemma effective_spec_update: "effective_spec (snap\<lparr>ps_effective := e\<rparr>) = effective_spec snap"
  by (rule ext) (cases snap, simp add: effective_spec_def Let_def)

lemma providers_Load_inv:
  assumes "provider_table_ok (provider_db st)"
  shows "provider_inv (providers_Load y pl c declared True st)"
proof -
  let ?t = "db_table (provider_db st) ManagedAlertProvidersTable"
  let ?managed = "fold (\<lambda>row m. alist_put (alertTypeOf (mgd_key row)) (newManagedEntry y pl row) m) (map snd (sort_key fst ?t)) []"
  have t: "distinct (map fst ?t)" "\<forall>(k, row) \<in> set ?t. mgd_key row = k \<and> alertTypeOf k = k"
    using assms by (auto simp: provider_table_ok_def Let_def)
  have entries: "map_of ?managed = map_option (newManagedEntry y pl) \<circ> map_of ?t"
    using fold_put_entries [of "sort_key fst ?t" y pl "[]"] t
    by (simp add: distinct_fst_sort map_of_sorted fun_eq_iff map_add_def split: option.split)
  define snap where "snap = \<lparr>ps_config = c, ps_declared = declared, ps_managed = ?managed, ps_effective = (\<lambda>_. None),
    ps_unavailable = False\<rparr>"
  define loaded where "loaded = snap\<lparr>ps_effective := snapshot_compose snap\<rparr>"
  have load: "providers_Load y pl c declared True st = publishSnapshot loaded st"
    using assms
    by (simp add: providers_Load_def ListManagedAlertProviders_def table_list_def provider_table_ok_def Let_def snap_def loaded_def)
  have managed: "ps_managed loaded = ?managed" by (simp add: loaded_def snap_def)
  have dist: "distinct (map fst (ps_managed loaded))" unfolding managed by (rule fold_put_distinct) simp
  then have "ps_effective loaded = effective_spec loaded"
    using snapshot_compose_spec [of snap] by (simp add: loaded_def effective_spec_update)
  moreover have "provider_rows (provider_db (publishSnapshot loaded st)) = map_of ?t"
    by (simp add: publishSnapshot_def provider_db_def provider_rows_def)
  moreover have "map_of ?t = map_option en_stored \<circ> map_of (ps_managed loaded)"
    by (simp add: managed entries fun_eq_iff option.map_comp comp_def option.map_ident)
  moreover have "entry_ok ty e" if "map_of (ps_managed loaded) ty = Some e" for ty e
    using t(2) that unfolding managed entries by (auto simp: entry_ok_def dest!: map_of_SomeD)
  moreover have "pst_snapshot (publishSnapshot loaded st) = Some loaded"
    "pst_watchdog (publishSnapshot loaded st) = Some (ps_effective loaded)"
    by (simp_all add: publishSnapshot_def)
  ultimately show ?thesis
    using dist unfolding load provider_inv_def by (simp del: map_of_eq_Some_iff)
qed

subsection \<open>Runs\<close>

datatype provider_op =
    ProviderCreateOp string string
  | ProviderUpdateOp string string int string
  | ProviderDeleteOp string int

fun provider_step ::
    "provider_lib \<Rightarrow> 'p service_env \<times> provider_op \<Rightarrow> 'p provider_state \<Rightarrow> (provider_error + write_report) \<times> 'p provider_state" where
  "provider_step pl (se, ProviderCreateOp raw author) st =
     provider_Create (Some (alertProviderDependents se pl)) se pl raw author st"
| "provider_step pl (se, ProviderUpdateOp name raw v author) st =
     provider_Update (Some (alertProviderDependents se pl)) se pl name raw v author st"
| "provider_step pl (se, ProviderDeleteOp name v) st =
     provider_Delete (Some (alertProviderDependents se pl)) se name v st"

definition provider_run ::
    "provider_lib \<Rightarrow> ('p service_env \<times> provider_op) list \<Rightarrow> 'p provider_state \<Rightarrow> 'p provider_state" where
  "provider_run pl ops st = fold (\<lambda>x st. snd (provider_step pl x st)) ops st"

text \<open>Each operation is a change of one type, or refused before.\<close>

lemma provider_step_write:
  assumes "provider_step pl (se, x) st = (res, st')"
  obtains "isl res" and "st' = st"
  | detail ty change where "change_for ty change"
      and "provider_write (Some (alertProviderDependents se pl)) se detail ty change st = (res, st')"
proof -
  have "isl res \<and> st' = st \<or> (\<exists>detail ty change. change_for ty change \<and>
      provider_write (Some (alertProviderDependents se pl)) se detail ty change st = (res, st'))"
    using assms
    by (cases x) (simp_all add: provider_Create_def provider_Update_def provider_Delete_def Let_def split: sum.splits if_splits,
        (metis change_for_def isl_def)+)
  then show ?thesis using that by blast
qed

definition effective_covers :: "provider_lib \<Rightarrow> 'p provider_state \<Rightarrow> bool" where
  "effective_covers pl st \<longleftrightarrow>
     (case Effective st of None \<Rightarrow> False | Some effective \<Rightarrow> all_covered pl effective (pst_service st))"

lemma provider_step_inv:
  assumes "provider_inv st" and "provider_step pl (se, x) st = (res, st')"
  shows "provider_inv st'"
  using assms(2)
proof (cases rule: provider_step_write)
  case (2 detail ty change)
  then show ?thesis using endpoint_dependents.write_inv [OF assms(1)] by blast
qed (use assms(1) in simp)

lemma provider_step_covers:
  assumes agree: "decoders_agree (se_yaml se) pl" and inv: "provider_inv st" and cov: "effective_covers pl st"
    and run: "provider_step pl (se, x) st = (res, st')"
  shows "effective_covers pl st'"
  using run
proof (cases rule: provider_step_write)
  case (2 detail ty change)
  obtain snap where snap: "pst_snapshot st = Some snap" "all_covered pl (ps_effective snap) (pst_service st)"
    using cov by (auto simp: effective_covers_def Effective_def split: option.splits)
  show ?thesis using write_covers [OF agree inv snap 2] by (auto simp: effective_covers_def Effective_def)
qed (use cov in simp)

lemma provider_step_valid:
  assumes "keyed (pst_service st)" and "valid_at k (pst_service st)" and "provider_step pl (se, x) st = (res, st')"
  shows "valid_at k (pst_service st') \<and> keyed (pst_service st')"
  using assms(3)
proof (cases rule: provider_step_write)
  case (2 detail ty change)
  then show ?thesis using endpoint_dependents.write_keeps_valid [OF assms(1) _ assms(2)] by blast
qed (use assms in simp)

lemma provider_run_inv:
  "provider_inv st \<Longrightarrow> provider_inv (provider_run pl ops st)"
proof (induction ops arbitrary: st)
  case (Cons x ops)
  obtain se op where x: "x = (se, op)" by (cases x)
  obtain res st1 where r: "provider_step pl (se, op) st = (res, st1)" by fastforce
  then show ?case using Cons.IH [OF provider_step_inv [OF Cons.prems r]] by (simp add: provider_run_def x)
qed (simp add: provider_run_def)

lemma provider_run_covers:
  "provider_inv st \<Longrightarrow> effective_covers pl st \<Longrightarrow> \<forall>(se, x) \<in> set ops. decoders_agree (se_yaml se) pl \<Longrightarrow>
   effective_covers pl (provider_run pl ops st)"
proof (induction ops arbitrary: st)
  case (Cons x ops)
  obtain se op where x: "x = (se, op)" by (cases x)
  obtain res st1 where r: "provider_step pl (se, op) st = (res, st1)" by fastforce
  have "effective_covers pl st1" using provider_step_covers [OF _ Cons.prems(1,2) r] Cons.prems(3) x by simp
  then show ?case
    using Cons.IH [OF provider_step_inv [OF Cons.prems(1) r]] Cons.prems(3) r by (simp add: provider_run_def x)
qed (simp add: provider_run_def)

lemma provider_run_valid:
  "keyed (pst_service st) \<Longrightarrow> valid_at k (pst_service st) \<Longrightarrow> valid_at k (pst_service (provider_run pl ops st))"
proof (induction ops arbitrary: st)
  case (Cons x ops)
  obtain se op where x: "x = (se, op)" by (cases x)
  obtain res st1 where r: "provider_step pl (se, op) st = (res, st1)" by fastforce
  then show ?case using Cons.IH provider_step_valid [OF Cons.prems r] by (simp add: provider_run_def x)
qed (simp add: provider_run_def)

text \<open>A change touches one type.\<close>

lemma change_touches_one_type:
  assumes inv: "provider_inv st" and change: "change_for ty change" and "t \<noteq> ty"
    and run: "provider_write (Some (alertProviderDependents se pl)) se detail ty change st = (res, st')"
  shows "provider_rows (provider_db st') t = provider_rows (provider_db st) t"
    and "Option.bind (Effective st') (\<lambda>al. al t) = Option.bind (Effective st) (\<lambda>al. al t)"
proof -
  have inv': "provider_inv st'" by (rule endpoint_dependents.write_inv [OF inv change run])
  have "\<exists>snap snap'. pst_snapshot st = Some snap \<and> pst_snapshot st' = Some snap' \<and>
      map_of (ps_managed snap') t = map_of (ps_managed snap) t \<and> ps_config snap' = ps_config snap \<and>
      ps_declared snap' = ps_declared snap"
    using run
  proof (cases rule: provider_write_cases)
    case (2 snap entry sop plan stored db report')
    let ?next = "next_snapshot ty (written_entry stored entry) snap"
    have "pst_snapshot st' = Some ?next" by (rule endpoint_dependents.finish_rows(2) [OF 2(6)])
    moreover have "map_of (ps_managed ?next) t = map_of (ps_managed snap) t"
      using assms(3) by (simp add: next_snapshot_def Let_def split: option.split)
    moreover have "ps_config ?next = ps_config snap" "ps_declared ?next = ps_declared snap"
      by (simp_all add: next_snapshot_def Let_def)
    ultimately show ?thesis using 2(1) by blast
  qed (use inv in \<open>auto simp: provider_inv_def split: option.splits\<close>)
  then obtain snap snap' where snap: "pst_snapshot st = Some snap" "pst_snapshot st' = Some snap'"
    and same: "map_of (ps_managed snap') t = map_of (ps_managed snap) t" "ps_config snap' = ps_config snap"
      "ps_declared snap' = ps_declared snap"
    by blast
  have S: "provider_rows (provider_db st) t = map_option en_stored (map_of (ps_managed snap) t)"
    "ps_effective snap = effective_spec snap"
    using inv unfolding provider_inv_def snap(1) by simp_all
  have S': "provider_rows (provider_db st') t = map_option en_stored (map_of (ps_managed snap') t)"
    "ps_effective snap' = effective_spec snap'"
    using inv' unfolding provider_inv_def snap(2) by simp_all
  show "provider_rows (provider_db st') t = provider_rows (provider_db st) t" using S(1) S'(1) same(1) by simp
  have "effective_spec snap' t = effective_spec snap t" unfolding effective_spec_def same by (rule HOL.refl)
  then show "Option.bind (Effective st') (\<lambda>al. al t) = Option.bind (Effective st) (\<lambda>al. al t)"
    using S(2) S'(2) snap by (simp add: Effective_def)
qed

end
