(* ===== verification/AlertProviderProperties.thy ===== *)
theory AlertProviderProperties
  imports AlertProviderSafety ManagedExamples Examples
begin

text \<open>
  Properties of the alerting providers managed through the administration: the agreement of the snapshot, the table
  and the configuration in use, what a change does to the endpoints that use the provider, the secrets of a definition.
\<close>

subsection \<open>Concrete objects\<close>

text \<open>A provider is the text \<open>hook\<close>, the endpoint \<open>bell\<close> has an alert of it.\<close>

definition bell_alert :: alert where
  "bell_alert = sample_alert\<lparr>minimum_reminder_interval := 0, provider_override := []\<rparr>"

definition provider_yaml :: yaml_lib where
  "provider_yaml = sample_yaml
     \<lparr>y_unmarshal := (\<lambda>s. Decoded (Some (if s = ''hook'' then [(''type'', VStr ''slack''), (''webhook-url'', VStr s)]
                                         else [(''type'', VStr ''push''), (''name'', VStr s)]))),
      y_marshal := (\<lambda>d. case map_of d ''webhook-url'' of Some (VStr s) \<Rightarrow> Some s | _ \<Rightarrow> y_marshal sample_yaml d),
      y_decode_external := (\<lambda>s. Decoded ((sample_push s)\<lparr>ee_alerts := (if s = ''bell'' then [bell_alert] else [])\<rparr>))\<rparr>"

definition good_provider :: provider_config where
  "good_provider = \<lparr>pv_error = None, pv_default_alert = None, pv_override_error = (\<lambda>_ _. None)\<rparr>"

definition sample_provider_lib :: provider_lib where
  "sample_provider_lib =
     \<lparr>pl_decode = (\<lambda>ty s. Decoded good_provider), pl_zero = (\<lambda>_. good_provider), pl_aws_keys = (\<lambda>_. False),
      pl_overrides = (\<lambda>_. []), pl_marshal = (\<lambda>_. None), pl_alert_types = (\<lambda>s. Some [''slack''])\<rparr>"

definition provider_service_env :: "unit service_env" where
  "provider_service_env = sample_service_env
     \<lparr>se_yaml := provider_yaml,
      se_context := sample_context\<lparr>px_alerting := Some (\<lambda>ty. if ty = ''slack'' then Some good_provider else None)\<rparr>\<rparr>"

definition no_providers :: "unit provider_state" where
  "no_providers = providers_Load provider_yaml sample_provider_lib sample_config [] True
     \<lparr>pst_snapshot = None, pst_watchdog = None, pst_service = empty_service\<rparr>"

text \<open>The provider is created, then the endpoint that uses it.\<close>

definition belled :: "unit provider_state" where
  "belled =
     (let st = provider_run sample_provider_lib [(provider_service_env, ProviderCreateOp ''hook'' ''ann'')] no_providers
      in st\<lparr>pst_service := service_run [(provider_service_env, CreateOp ''bell'' ''ann'')] (pst_service st)\<rparr>)"

definition sample_provider_ops :: "(unit service_env \<times> provider_op) list" where
  "sample_provider_ops =
     [(provider_service_env, ProviderUpdateOp ''slack'' ''hook'' 1 ''bob''), (provider_service_env, ProviderDeleteOp ''slack'' 2)]"

lemma no_providers_inv: "provider_inv no_providers"
  unfolding no_providers_def
  by (rule providers_Load_inv) (simp add: provider_table_ok_def provider_db_def empty_service_def empty_db_def Let_def)

lemma belled_run:
  "effective_covers sample_provider_lib belled"
  "db_table (provider_db belled) ManagedAlertProvidersTable =
   db_table (provider_db (provider_run sample_provider_lib [(provider_service_env, ProviderCreateOp ''hook'' ''ann'')] no_providers))
     ManagedAlertProvidersTable"
  by code_simp+

lemma belled_inv: "provider_inv belled"
proof -
  let ?st = "provider_run sample_provider_lib [(provider_service_env, ProviderCreateOp ''hook'' ''ann'')] no_providers"
  have "provider_inv ?st" by (rule provider_run_inv [OF no_providers_inv])
  moreover have "provider_rows (provider_db belled) = provider_rows (provider_db ?st)"
    using belled_run(2) by (simp add: provider_rows_def)
  moreover have "pst_snapshot belled = pst_snapshot ?st" "pst_watchdog belled = pst_watchdog ?st"
    by (simp_all add: belled_def Let_def)
  ultimately show ?thesis unfolding provider_inv_def by (simp only:)
qed



subsection \<open>Changes\<close>

text \<open>C16. After any run of changes, the snapshot is the table, the configuration in use is the file's with the
  valid managed providers of the types that the file does not declare, and the monitoring uses it.\<close>

theorem provider_runs_keep_agreement:
  "provider_table_ok (provider_db st) \<Longrightarrow>
   provider_inv (provider_run pl ops (providers_Load y pl c declared True st))"
  by (rule provider_run_inv [OF providers_Load_inv])

lemma provider_runs_keep_agreement_witness:
  "provider_inv (provider_run sample_provider_lib sample_provider_ops
     (providers_Load provider_yaml sample_provider_lib sample_config [] True belled))"
  by (rule provider_runs_keep_agreement) code_simp



text \<open>C17. No change of a provider makes a valid managed endpoint invalid.\<close>

theorem provider_changes_keep_endpoints_valid:
  "keyed (pst_service st) \<Longrightarrow> valid_at k (pst_service st) \<Longrightarrow> valid_at k (pst_service (provider_run pl ops st))"
  by (rule provider_run_valid)

lemma provider_changes_keep_endpoints_valid_witness:
  "valid_at ''g_bell'' (pst_service (provider_run sample_provider_lib sample_provider_ops belled))"
  by (rule provider_changes_keep_endpoints_valid) code_simp+

text \<open>C18. A provider that a managed endpoint uses is not deleted, unless the file declares its type.\<close>

theorem used_provider_not_deleted:
  assumes "pst_snapshot st = Some snap" and "alertTypeOf name \<notin> set (ps_declared snap)"
    and "(k, s) \<in> set (current_states (sv_states (pst_service st)))"
    and "definitionUsesAlertType pl (mgd_definition (ms_stored s)) (alertTypeOf name)"
    and "provider_Delete (Some (alertProviderDependents se pl)) se name v st = (res, st')"
  shows "isl res \<and> st' = st"
proof -
  have "s \<in> set (managed_List (sv_states (pst_service st)))" using assms(3) by (force simp: managed_List_def)
  then have "dependents_Users pl (alertTypeOf name) (pst_service st) \<noteq> []"
    using assms(4) by (auto simp: dependents_Users_def sort_empty filter_empty_conv)
  then show ?thesis
    using assms(1,2,5)
    by (auto simp: provider_Delete_def provider_write_def delete_change_def plan_change_def alertProviderDependents_def
        Let_def split: if_splits option.splits)
qed

lemma used_provider_not_deleted_witness:
  "isl (fst (provider_Delete (Some (alertProviderDependents provider_service_env sample_provider_lib)) provider_service_env ''slack'' 1 belled))"
proof -
  let ?del = "provider_Delete (Some (alertProviderDependents provider_service_env sample_provider_lib)) provider_service_env ''slack'' 1 belled"
  obtain snap where snap: "pst_snapshot belled = Some snap"
    using belled_inv by (auto simp: provider_inv_def split: option.splits)
  have "map_option ps_declared (pst_snapshot belled) = Some []" by code_simp
  then have declared: "ps_declared snap = []" by (simp add: snap)
  have "list_ex (\<lambda>(k, s). definitionUsesAlertType sample_provider_lib (mgd_definition (ms_stored s)) (alertTypeOf ''slack''))
      (current_states (sv_states (pst_service belled)))"
    by code_simp
  then obtain k s where "(k, s) \<in> set (current_states (sv_states (pst_service belled)))"
    "definitionUsesAlertType sample_provider_lib (mgd_definition (ms_stored s)) (alertTypeOf ''slack'')"
    by (auto simp: list_ex_iff)
  from used_provider_not_deleted [OF snap _ this, of provider_service_env 1 "fst ?del" "snd ?del"] show ?thesis
    by (simp add: declared)
qed

text \<open>A change that is refused changes nothing, unless only its answer could not be encoded; one that is stored changes the row and
  the provider of one type.\<close>

theorem provider_change_touches_one_type:
  assumes "provider_inv st" and "provider_step pl (se, x) st = (res, st')"
  shows "(\<forall>e. res = Inl e \<longrightarrow> st' = st \<or> e = ProviderDetailNotEncoded) \<and>
    (\<exists>ty. \<forall>t. t \<noteq> ty \<longrightarrow> provider_rows (provider_db st') t = provider_rows (provider_db st) t \<and>
      Option.bind (Effective st') (\<lambda>al. al t) = Option.bind (Effective st) (\<lambda>al. al t))"
  using assms(2)
proof (cases rule: provider_step_write)
  case (2 detail ty change)
  have "st' = st \<or> e = ProviderDetailNotEncoded" if "res = Inl e" for e
    using 2(2) by (cases rule: provider_write_cases) (use that in \<open>auto simp: write_answer_def split: if_splits option.splits\<close>)
  then show ?thesis using change_touches_one_type [OF assms(1) 2(1) _ 2(2)] by blast
qed simp

subsection \<open>Secrets\<close>

text \<open>C39. A masked definition that is submitted unchanged is restored to the stored one, when its mappings have distinct keys and
  no two overrides of it have the same group: \<open>matchingElement\<close> takes the first override of a group, so that the second one
  would get the secrets of the first.\<close>

theorem masked_provider_restores:
  assumes "wf_val (VMap d)" and "groups_distinct (VMap d) []"
  shows "RestoreSecrets ty (provider_MaskSecrets ty d) d = Inr d"
  using provider_value_roundtrip [OF assms, of ty]
  by (simp add: RestoreSecrets_def provider_MaskSecrets_def as_map_def)

definition secret_definition :: document where
  "secret_definition =
     [(''webhook-url'', VStr ''https://hooks/T0KEN''),
      (''overrides'', VList [VMap [(''group'', VStr ''core''), (''webhook-url'', VStr ''https://hooks/K3Y'')],
                           VMap [(''group'', VStr ''edge''), (''webhook-url'', VStr ''https://hooks/P4SS'')]])]"

lemma masked_provider_restores_witness:
  "RestoreSecrets ''slack'' (provider_MaskSecrets ''slack'' secret_definition) secret_definition = Inr secret_definition \<and>
   provider_MaskSecrets ''slack'' secret_definition \<noteq> secret_definition"
proof
  show "RestoreSecrets ''slack'' (provider_MaskSecrets ''slack'' secret_definition) secret_definition = Inr secret_definition"
    by (rule masked_provider_restores) code_simp+
  show "provider_MaskSecrets ''slack'' secret_definition \<noteq> secret_definition" by code_simp
qed

text \<open>No diagnostic of a provider has a secret of its definition, in none of the forms of a URL or of JSON.\<close>

theorem diagnostics_have_no_secret:
  assumes "s \<in> set (secretValues ty (VMap d) [])" and "u \<in> set (secret_forms s)"
    and "length u \<ge> minimumRedactedLength" and "CHR ''*'' \<notin> set u" and "char_of (226 :: nat) \<notin> set u"
  shows "\<not> str_contains (provider_redact ty d text) u"
  using assms by (rule redact_leaves_no_secret)

lemma diagnostics_have_no_secret_witness:
  "\<not> str_contains (provider_redact ''slack'' secret_definition ''Post https%3A%2F%2Fhooks%2FT0KEN: timeout'') ''https%3A%2F%2Fhooks%2FT0KEN''"
  by (rule diagnostics_have_no_secret [of "''https://hooks/T0KEN''"]) code_simp+

end
