(* ===== verification/PageConfig.thy ===== *)
theory PageConfig
  imports ManagedEndpoints "HOL-Library.Word"
begin

text \<open>
  The configuration of the public status pages (\<^verbatim>\<open>internal/config/statuspage\<close>): the section of the file, the
  definition of a page with its views, and their validation. What it establishes is in theory \<open>PageValidity\<close>.
\<close>

subsection \<open>Addresses\<close>

text \<open>\<^verbatim>\<open>netip.Addr\<close> and \<^verbatim>\<open>netip.Prefix\<close>; the zone of an IPv6 address is its text.\<close>

datatype addr = NoAddr | Addr4 "32 word" | Addr6 "128 word" string

record ip_prefix =
  pf_addr :: addr
  pf_bits :: int

definition addr_zone :: "addr \<Rightarrow> string" where
  "addr_zone a = (case a of Addr6 _ z \<Rightarrow> z | _ \<Rightarrow> [])"

definition BitLen :: "addr \<Rightarrow> int" where
  "BitLen a = (case a of NoAddr \<Rightarrow> 0 | Addr4 _ \<Rightarrow> 32 | Addr6 _ _ \<Rightarrow> 128)"

definition Is4In6 :: "addr \<Rightarrow> bool" where
  "Is4In6 a = (case a of Addr6 w _ \<Rightarrow> drop_bit 32 w = 0xFFFF | _ \<Rightarrow> False)"

definition Unmap :: "addr \<Rightarrow> addr" where
  "Unmap a = (case a of Addr6 w z \<Rightarrow> if drop_bit 32 w = 0xFFFF then Addr4 (ucast w) else a | _ \<Rightarrow> a)"

text \<open>The address with only its first bits kept.\<close>

definition keep_bits :: "int \<Rightarrow> addr \<Rightarrow> addr" where
  "keep_bits n a =
     (case a of
        NoAddr \<Rightarrow> NoAddr
      | Addr4 w \<Rightarrow> Addr4 (push_bit (nat (32 - n)) (drop_bit (nat (32 - n)) w))
      | Addr6 w z \<Rightarrow> Addr6 (push_bit (nat (128 - n)) (drop_bit (nat (128 - n)) w)) z)"

definition valid_prefix :: "ip_prefix \<Rightarrow> bool" where
  "valid_prefix p \<longleftrightarrow> pf_addr p \<noteq> NoAddr \<and> 0 \<le> pf_bits p \<and> pf_bits p \<le> BitLen (pf_addr p)"

definition Masked :: "ip_prefix \<Rightarrow> ip_prefix" where
  "Masked p = p\<lparr>pf_addr := keep_bits (pf_bits p) (pf_addr p)\<rparr>"

definition prefix_contains :: "ip_prefix \<Rightarrow> addr \<Rightarrow> bool" where
  "prefix_contains p a \<longleftrightarrow>
     valid_prefix p \<and> addr_zone a = [] \<and>
     (case (pf_addr p, a) of
        (Addr4 v, Addr4 w) \<Rightarrow> drop_bit (nat (32 - pf_bits p)) v = drop_bit (nat (32 - pf_bits p)) w
      | (Addr6 v _, Addr6 w _) \<Rightarrow> drop_bit (nat (128 - pf_bits p)) v = drop_bit (nat (128 - pf_bits p)) w
      | _ \<Rightarrow> False)"

subsection \<open>Pages\<close>

record environment =
  env_id :: string
  env_name :: string
  env_short :: string

record group_details =
  gd_description :: string
  gd_tags :: "string list option"

record classification =
  cs_application :: string
  cs_environment :: string

text \<open>A nil slice or map is \<open>None\<close>, a nil pointer in it too.\<close>

record views =
  vw_enabled :: "string list option"
  vw_default :: string
  vw_group_label :: string
  vw_environments :: "environment option list"
  vw_applications :: "string list option"
  vw_groups :: "(string \<times> group_details option) list option"
  vw_endpoints :: "(string \<times> classification option) list option"

record page_auth =
  au_username :: string
  au_hash :: string

record page =
  pg_slug :: string
  pg_title :: string
  pg_description :: string
  pg_groups :: "string list"
  pg_endpoints :: "string list"
  pg_featured :: "string list"
  pg_charts :: "string list"
  pg_show_certificates :: bool
  pg_show_messages :: bool
  pg_collapsed :: bool
  pg_views :: "views option"
  pg_auth :: "page_auth option"
  pg_enabled :: "bool option"

definition page_IsEnabled :: "page \<Rightarrow> bool" where
  "page_IsEnabled p \<longleftrightarrow> pg_enabled p = None \<or> pg_enabled p = Some True"

definition RequiresLogin :: "page option \<Rightarrow> bool" where
  "RequiresLogin p \<longleftrightarrow> (case p of None \<Rightarrow> False | Some p \<Rightarrow> pg_auth p \<noteq> None)"

definition MaximumSlugLength :: nat where "MaximumSlugLength = 64"
definition MaximumTitleLength :: nat where "MaximumTitleLength = 100"
definition MaximumDescriptionLength :: nat where "MaximumDescriptionLength = 1000"
definition MaximumGroups :: nat where "MaximumGroups = 50"
definition MaximumGroupLength :: nat where "MaximumGroupLength = 200"
definition MaximumEndpointKeys :: nat where "MaximumEndpointKeys = 1000"
definition MaximumEndpointKeyLength :: nat where "MaximumEndpointKeyLength = 400"
definition MaximumAuthUsernameLength :: nat where "MaximumAuthUsernameLength = 100"
definition MaximumFeatured :: nat where "MaximumFeatured = 10"
definition MaximumCharts :: nat where "MaximumCharts = 10"
definition DefaultMaximumEndpointsPerPage :: int where "DefaultMaximumEndpointsPerPage = 400"
definition DefaultRateLimit :: int where "DefaultRateLimit = 120"

datatype list_error = TooManyEntries nat | EntryLength nat | DuplicateEntry string

datatype views_error =
    NoView
  | UnknownView string
  | DuplicateView string
  | DefaultNotEnabled string
  | GroupLabelTooLong
  | TooManyEnvironments
  | EmptyEnvironment
  | InvalidEnvironmentID string
  | DuplicateEnvironment string
  | EnvironmentNameTooLong string
  | EnvironmentShortTooLong string
  | InvalidApplications list_error
  | TooManyGroups
  | GroupNameLength
  | DuplicateGroup string
  | EmptyGroupDetails string
  | GroupDescriptionTooLong string
  | InvalidTags string list_error
  | TooManyClassifications
  | ClassifiedKeyLength
  | DuplicateClassification string
  | EmptyClassification string
  | ApplicationTooLong string
  | UndeclaredEnvironment string string

datatype page_error =
    ErrInvalidSlug
  | ErrReservedSlug string
  | ErrInvalidTitle
  | ErrDescriptionTooLong
  | ErrInvalidGroups list_error
  | ErrInvalidEndpoints list_error
  | ErrInvalidFeatured list_error
  | ErrInvalidCharts list_error
  | ErrEmptySelection
  | ErrInvalidAuthUsername
  | ErrInvalidAuthPasswordHash
  | ErrInvalidViews views_error

subsection \<open>Validation of a page\<close>

definition slug_char :: "char \<Rightarrow> bool" where
  "slug_char c \<longleftrightarrow> (let n = of_char c :: nat in 97 \<le> n \<and> n \<le> 122 \<or> is_digit c)"

text \<open>The patterns of the slugs and of the environments, with their maximum length.\<close>

definition hyphenated :: "nat \<Rightarrow> string \<Rightarrow> bool" where
  "hyphenated n s \<longleftrightarrow>
     s \<noteq> [] \<and> length s \<le> n \<and> slug_char (hd s) \<and> slug_char (last s) \<and>
     list_all (\<lambda>c. slug_char c \<or> c = CHR ''-'') s"

definition reservedSlugs :: "string list" where
  "reservedSlugs = [''exposure'', ''new'', ''options'', ''preview'', ''validate'']"

definition ValidateSlug :: "string \<Rightarrow> page_error option" where
  "ValidateSlug slug =
     (if length slug > MaximumSlugLength \<or> \<not> hyphenated 64 slug then Some ErrInvalidSlug
      else if slug \<in> set reservedSlugs then Some (ErrReservedSlug slug)
      else None)"

definition NormalizeGroup :: "string \<Rightarrow> string" where
  "NormalizeGroup = trim_space"

definition normalize_key :: "string \<Rightarrow> string" where
  "normalize_key k = to_lower (trim_space k)"

fun normalize_entries :: "nat \<Rightarrow> (string \<Rightarrow> string) \<Rightarrow> string list \<Rightarrow> string list \<Rightarrow> list_error + string list" where
  "normalize_entries n f seen [] = Inr []"
| "normalize_entries n f seen (v # vs) =
     (let v = f v
      in if rune_count v = 0 \<or> rune_count v > n then Inl (EntryLength n)
         else if v \<in> set seen then Inl (DuplicateEntry v)
         else map_sum id ((#) v) (normalize_entries n f (v # seen) vs))"

definition normalizeList :: "string list \<Rightarrow> nat \<Rightarrow> nat \<Rightarrow> (string \<Rightarrow> string) \<Rightarrow> list_error + string list" where
  "normalizeList vs maximumItems maxLength f =
     (if length vs > maximumItems then Inl (TooManyEntries maximumItems)
      else normalize_entries maxLength f [] vs)"

text \<open>\<^verbatim>\<open>base64.URLEncoding\<close>, \<^verbatim>\<open>bcrypt.Cost\<close> and the decoder of addresses are parameters.\<close>

record page_lib =
  lb_base64 :: "string \<Rightarrow> string option"
  lb_bcrypt_cost :: "string \<Rightarrow> bool"
  lb_decode_page :: "string \<Rightarrow> page decoded"
  lb_second_document :: "string \<Rightarrow> unit decoded"
  lb_marshal_page :: "page \<Rightarrow> string option"
  lb_parse_prefix :: "string \<Rightarrow> ip_prefix option"
  lb_parse_addr :: "string \<Rightarrow> addr option"
  lb_parse_addr_port :: "string \<Rightarrow> addr option"

definition auth_validate :: "page_lib \<Rightarrow> page_auth option \<Rightarrow> page_error + page_auth option" where
  "auth_validate lib a =
     (case a of
        None \<Rightarrow> Inr None
      | Some a \<Rightarrow>
          (let a = a\<lparr>au_username := trim_space (au_username a)\<rparr>
           in if rune_count (au_username a) = 0 \<or> rune_count (au_username a) > MaximumAuthUsernameLength
              then Inl ErrInvalidAuthUsername
              else case lb_base64 lib (trim_space (au_hash a)) of
                None \<Rightarrow> Inl ErrInvalidAuthPasswordHash
              | Some hash \<Rightarrow> (if lb_bcrypt_cost lib hash then Inr (Some a) else Inl ErrInvalidAuthPasswordHash)))"

subsection \<open>Validation of the views\<close>

definition ViewList :: string where "ViewList = ''list''"
definition ViewGrouped :: string where "ViewGrouped = ''grouped''"
definition ViewMatrix :: string where "ViewMatrix = ''matrix''"

definition knownViews :: "string list" where "knownViews = [ViewList, ViewGrouped, ViewMatrix]"

definition DefaultGroupLabel :: string where "DefaultGroupLabel = ''Group''"
definition MaximumGroupLabelLength :: nat where "MaximumGroupLabelLength = 30"
definition MaximumEnvironments :: nat where "MaximumEnvironments = 10"
definition MaximumEnvironmentIDLength :: nat where "MaximumEnvironmentIDLength = 20"
definition MaximumEnvironmentNameLength :: nat where "MaximumEnvironmentNameLength = 40"
definition MaximumEnvironmentShortLength :: nat where "MaximumEnvironmentShortLength = 8"
definition MaximumApplications :: nat where "MaximumApplications = 50"
definition MaximumApplicationLength :: nat where "MaximumApplicationLength = 40"
definition MaximumGroupDescriptionLength :: nat where "MaximumGroupDescriptionLength = 100"
definition MaximumGroupTags :: nat where "MaximumGroupTags = 5"
definition MaximumGroupTagLength :: nat where "MaximumGroupTagLength = 20"

definition EffectiveEnabled :: "views option \<Rightarrow> string list" where
  "EffectiveEnabled v = (case Option.bind v vw_enabled of None \<Rightarrow> [ViewList] | Some vs \<Rightarrow> vs)"

text \<open>The first enabled view; validation refuses an empty list, on which the code would panic.\<close>

definition EffectiveDefault :: "views option \<Rightarrow> string" where
  "EffectiveDefault v =
     (case v of
        Some w \<Rightarrow> (if vw_default w \<noteq> [] then vw_default w else hd (EffectiveEnabled v))
      | None \<Rightarrow> hd (EffectiveEnabled v))"

definition EffectiveGroupLabel :: "views option \<Rightarrow> string" where
  "EffectiveGroupLabel v =
     (case v of None \<Rightarrow> DefaultGroupLabel | Some w \<Rightarrow> if vw_group_label w = [] then DefaultGroupLabel else vw_group_label w)"

definition DisplayName :: "environment \<Rightarrow> string" where
  "DisplayName e = (if env_name e \<noteq> [] then env_name e else env_id e)"

definition ShortName :: "environment \<Rightarrow> string" where
  "ShortName e = (if env_short e \<noteq> [] then env_short e else take MaximumEnvironmentShortLength (to_upper (env_id e)))"

definition page_Classification :: "views option \<Rightarrow> string \<Rightarrow> classification option" where
  "page_Classification v key = Option.bind (Option.bind (Option.bind v vw_endpoints) (\<lambda>m. map_of m key)) id"

definition GroupDetailsOf :: "views option \<Rightarrow> string \<Rightarrow> group_details option" where
  "GroupDetailsOf v group' = Option.bind (Option.bind (Option.bind v vw_groups) (\<lambda>m. map_of m group')) id"

fun validate_enabled_views :: "string list \<Rightarrow> string list \<Rightarrow> views_error + string list" where
  "validate_enabled_views seen [] = Inr []"
| "validate_enabled_views seen (v # vs) =
     (let v = trim_space v
      in if v \<notin> set knownViews then Inl (UnknownView v)
         else if v \<in> set seen then Inl (DuplicateView v)
         else map_sum id ((#) v) (validate_enabled_views (v # seen) vs))"

definition validateViews :: "views \<Rightarrow> views_error + views" where
  "validateViews v =
     (if vw_enabled v = Some [] then Inl NoView
      else case (case vw_enabled v of None \<Rightarrow> Inr None | Some vs \<Rightarrow> map_sum id Some (validate_enabled_views [] vs)) of
        Inl e \<Rightarrow> Inl e
      | Inr enabled \<Rightarrow>
          (let v = v\<lparr>vw_enabled := enabled, vw_default := trim_space (vw_default v)\<rparr>
           in if vw_default v \<noteq> [] \<and> vw_default v \<notin> set (EffectiveEnabled (Some v)) then Inl (DefaultNotEnabled (vw_default v))
              else (let v = v\<lparr>vw_group_label := trim_space (vw_group_label v)\<rparr>
                    in if rune_count (vw_group_label v) > MaximumGroupLabelLength then Inl GroupLabelTooLong else Inr v)))"

fun validate_environment_list :: "string list \<Rightarrow> environment option list \<Rightarrow> views_error + environment option list" where
  "validate_environment_list ids [] = Inr []"
| "validate_environment_list ids (None # es) = Inl EmptyEnvironment"
| "validate_environment_list ids (Some e # es) =
     (let i = trim_space (env_id e); name = trim_space (env_name e); short = trim_space (env_short e)
      in if \<not> hyphenated MaximumEnvironmentIDLength i then Inl (InvalidEnvironmentID i)
         else if i \<in> set ids then Inl (DuplicateEnvironment i)
         else if rune_count name > MaximumEnvironmentNameLength then Inl (EnvironmentNameTooLong i)
         else if rune_count short > MaximumEnvironmentShortLength then Inl (EnvironmentShortTooLong i)
         else map_sum id ((#) (Some \<lparr>env_id = i, env_name = name, env_short = short\<rparr>)) (validate_environment_list (i # ids) es))"

definition validateEnvironments :: "views \<Rightarrow> views_error + views" where
  "validateEnvironments v =
     (if length (vw_environments v) > MaximumEnvironments then Inl TooManyEnvironments
      else map_sum id (\<lambda>es. v\<lparr>vw_environments := es\<rparr>) (validate_environment_list [] (vw_environments v)))"

definition environment_ids :: "views \<Rightarrow> string list" where
  "environment_ids v = map env_id (List.map_filter id (vw_environments v))"

text \<open>The loops over the groups and the classified endpoints, in the order of their keys.\<close>

definition sorted_entries :: "(string \<times> 'a) list \<Rightarrow> (string \<times> 'a) list" where
  "sorted_entries m = sort_key fst m"

fun validate_group_entries ::
    "(string \<times> group_details option) list \<Rightarrow> (string \<times> group_details option) list \<Rightarrow>
     views_error + (string \<times> group_details option) list" where
  "validate_group_entries done' [] = Inr done'"
| "validate_group_entries done' ((name, details) # rest) =
     (let normalized = NormalizeGroup name
      in if rune_count normalized = 0 \<or> rune_count normalized > MaximumGroupLength then Inl GroupNameLength
         else if map_of done' normalized \<noteq> None then Inl (DuplicateGroup normalized)
         else case details of
           None \<Rightarrow> Inl (EmptyGroupDetails normalized)
         | Some d \<Rightarrow>
             (let d = d\<lparr>gd_description := trim_space (gd_description d)\<rparr>
              in if rune_count (gd_description d) > MaximumGroupDescriptionLength then Inl (GroupDescriptionTooLong normalized)
                 else case (case gd_tags d of
                              None \<Rightarrow> Inr None
                            | Some ts \<Rightarrow> map_sum id Some (normalizeList ts MaximumGroupTags MaximumGroupTagLength trim_space)) of
                   Inl e \<Rightarrow> Inl (InvalidTags normalized e)
                 | Inr tags \<Rightarrow>
                     (if gd_description d = [] \<and> tags \<in> {None, Some []} then Inl (EmptyGroupDetails normalized)
                      else validate_group_entries (done' @ [(normalized, Some (d\<lparr>gd_tags := tags\<rparr>))]) rest)))"

definition validateGroups :: "views \<Rightarrow> views_error + (string \<times> group_details option) list option" where
  "validateGroups v =
     (case vw_groups v of
        None \<Rightarrow> Inr None
      | Some m \<Rightarrow>
          (if length m > MaximumGroups then Inl TooManyGroups
           else map_sum id Some (validate_group_entries [] (sorted_entries m))))"

fun validate_endpoint_entries ::
    "string list \<Rightarrow> (string \<times> classification option) list \<Rightarrow> (string \<times> classification option) list \<Rightarrow>
     views_error + (string \<times> classification option) list" where
  "validate_endpoint_entries environments done' [] = Inr done'"
| "validate_endpoint_entries environments done' ((rawKey, classified) # rest) =
     (let key = normalize_key rawKey
      in if rune_count key = 0 \<or> rune_count key > MaximumEndpointKeyLength then Inl ClassifiedKeyLength
         else if map_of done' key \<noteq> None then Inl (DuplicateClassification key)
         else case classified of
           None \<Rightarrow> Inl (EmptyClassification key)
         | Some c \<Rightarrow>
             (let c = \<lparr>cs_application = trim_space (cs_application c), cs_environment = trim_space (cs_environment c)\<rparr>
              in if cs_application c = [] \<and> cs_environment c = [] then Inl (EmptyClassification key)
                 else if rune_count (cs_application c) > MaximumApplicationLength then Inl (ApplicationTooLong key)
                 else if cs_environment c \<noteq> [] \<and> cs_environment c \<notin> set environments
                 then Inl (UndeclaredEnvironment key (cs_environment c))
                 else validate_endpoint_entries environments (done' @ [(key, Some c)]) rest))"

definition validate_classifications ::
    "views \<Rightarrow> string list \<Rightarrow> views_error + (string \<times> classification option) list option" where
  "validate_classifications v environments =
     (case vw_endpoints v of
        None \<Rightarrow> Inr None
      | Some m \<Rightarrow>
          (if length m > MaximumEndpointKeys then Inl TooManyClassifications
           else map_sum id Some (validate_endpoint_entries environments [] (sorted_entries m))))"

definition views_validate :: "views option \<Rightarrow> views_error + views option" where
  "views_validate v =
     (case v of
        None \<Rightarrow> Inr None
      | Some v \<Rightarrow>
          (case validateViews v of
             Inl e \<Rightarrow> Inl e
           | Inr v \<Rightarrow>
               (case validateEnvironments v of
                  Inl e \<Rightarrow> Inl e
                | Inr v \<Rightarrow>
                    (case normalizeList (case vw_applications v of None \<Rightarrow> [] | Some as \<Rightarrow> as)
                            MaximumApplications MaximumApplicationLength trim_space of
                       Inl e \<Rightarrow> Inl (InvalidApplications e)
                     | Inr applications \<Rightarrow>
                         (case validateGroups v of
                            Inl e \<Rightarrow> Inl e
                          | Inr groups \<Rightarrow>
                              (case validate_classifications v (environment_ids v) of
                                 Inl e \<Rightarrow> Inl e
                               | Inr endpoints \<Rightarrow>
                                   Inr (Some (v\<lparr>vw_applications := map_option (\<lambda>_. applications) (vw_applications v),
                                                vw_groups := groups, vw_endpoints := endpoints\<rparr>))))))))"

subsection \<open>Validation of the section\<close>

definition page_ValidateAndSetDefaults :: "page_lib \<Rightarrow> page \<Rightarrow> page_error + page" where
  "page_ValidateAndSetDefaults lib p =
     (let p = p\<lparr>pg_slug := trim_space (pg_slug p)\<rparr>
      in case ValidateSlug (pg_slug p) of
        Some e \<Rightarrow> Inl e
      | None \<Rightarrow>
          (let p = p\<lparr>pg_title := trim_space (pg_title p), pg_description := trim_space (pg_description p)\<rparr>
           in if rune_count (pg_title p) = 0 \<or> rune_count (pg_title p) > MaximumTitleLength then Inl ErrInvalidTitle
              else if rune_count (pg_description p) > MaximumDescriptionLength then Inl ErrDescriptionTooLong
              else case normalizeList (pg_groups p) MaximumGroups MaximumGroupLength trim_space of
                Inl e \<Rightarrow> Inl (ErrInvalidGroups e)
              | Inr groups \<Rightarrow>
                  (case normalizeList (pg_endpoints p) MaximumEndpointKeys MaximumEndpointKeyLength normalize_key of
                     Inl e \<Rightarrow> Inl (ErrInvalidEndpoints e)
                   | Inr endpoints \<Rightarrow>
                       (case normalizeList (pg_featured p) MaximumFeatured MaximumEndpointKeyLength normalize_key of
                          Inl e \<Rightarrow> Inl (ErrInvalidFeatured e)
                        | Inr featured \<Rightarrow>
                            (case normalizeList (pg_charts p) MaximumCharts MaximumEndpointKeyLength normalize_key of
                               Inl e \<Rightarrow> Inl (ErrInvalidCharts e)
                             | Inr charts \<Rightarrow>
                                 (if groups = [] \<and> endpoints = [] \<and> featured = [] then Inl ErrEmptySelection
                                  else case auth_validate lib (pg_auth p) of
                                    Inl e \<Rightarrow> Inl e
                                  | Inr auth \<Rightarrow>
                                      (case views_validate (pg_views p) of
                                         Inl e \<Rightarrow> Inl (ErrInvalidViews e)
                                       | Inr views \<Rightarrow>
                                           Inr (p\<lparr>pg_auth := auth, pg_views := views, pg_groups := groups,
                                                  pg_endpoints := endpoints, pg_featured := featured,
                                                  pg_charts := charts\<rparr>))))))))"

text \<open>The section \<open>status-pages\<close>; an empty entry of the list of pages is \<open>None\<close>.\<close>

record pages_config =
  pgc_enabled :: "bool option"
  pgc_trusted :: "string list"
  pgc_rate_limit :: "int option"
  pgc_maximum :: "int option"
  pgc_pages :: "page option list"
  pgc_prefixes :: "ip_prefix list"

datatype pages_config_error =
    ErrInvalidRateLimit
  | ErrInvalidMaximumEndpointsPerPage
  | ErrInvalidTrustedProxy string
  | EmptyPage
  | InvalidPage string page_error
  | ErrDuplicateSlug string

definition pages_IsEnabled :: "pages_config option \<Rightarrow> bool" where
  "pages_IsEnabled c \<longleftrightarrow> (case c of None \<Rightarrow> True | Some c \<Rightarrow> pgc_enabled c = None \<or> pgc_enabled c = Some True)"

definition GetRateLimit :: "pages_config option \<Rightarrow> int" where
  "GetRateLimit c = (case Option.bind c pgc_rate_limit of None \<Rightarrow> DefaultRateLimit | Some n \<Rightarrow> n)"

definition GetMaximumEndpointsPerPage :: "pages_config option \<Rightarrow> int" where
  "GetMaximumEndpointsPerPage c =
     (case Option.bind c pgc_maximum of None \<Rightarrow> DefaultMaximumEndpointsPerPage | Some n \<Rightarrow> n)"

definition TrustedProxyPrefixes :: "pages_config option \<Rightarrow> ip_prefix list" where
  "TrustedProxyPrefixes c = (case c of None \<Rightarrow> [] | Some c \<Rightarrow> pgc_prefixes c)"

definition parseTrustedProxy :: "page_lib \<Rightarrow> string \<Rightarrow> pages_config_error + ip_prefix" where
  "parseTrustedProxy lib value0 =
     (let value = trim_space value0
      in if CHR ''/'' \<in> set value
         then (case lb_parse_prefix lib value of
                 None \<Rightarrow> Inl (ErrInvalidTrustedProxy value)
               | Some p \<Rightarrow>
                   (if Is4In6 (pf_addr p)
                    then (if pf_bits p - 96 < 0 then Inl (ErrInvalidTrustedProxy value)
                          else Inr (Masked \<lparr>pf_addr = Unmap (pf_addr p), pf_bits = pf_bits p - 96\<rparr>))
                    else Inr (Masked p)))
         else (case lb_parse_addr lib value of
                 None \<Rightarrow> Inl (ErrInvalidTrustedProxy value)
               | Some a \<Rightarrow>
                   (if addr_zone a \<noteq> [] then Inl (ErrInvalidTrustedProxy value)
                    else Inr \<lparr>pf_addr = Unmap a, pf_bits = BitLen (Unmap a)\<rparr>)))"

fun validate_proxies :: "page_lib \<Rightarrow> string list \<Rightarrow> pages_config_error + ip_prefix list" where
  "validate_proxies lib [] = Inr []"
| "validate_proxies lib (v # vs) =
     (case parseTrustedProxy lib v of Inl e \<Rightarrow> Inl e | Inr p \<Rightarrow> map_sum id ((#) p) (validate_proxies lib vs))"

fun validate_pages :: "page_lib \<Rightarrow> string list \<Rightarrow> page option list \<Rightarrow> pages_config_error + page option list" where
  "validate_pages lib slugs [] = Inr []"
| "validate_pages lib slugs (None # ps) = Inl EmptyPage"
| "validate_pages lib slugs (Some p # ps) =
     (case page_ValidateAndSetDefaults lib p of
        Inl e \<Rightarrow> Inl (InvalidPage (trim_space (pg_slug p)) e)
      | Inr p \<Rightarrow>
          (if pg_slug p \<in> set slugs then Inl (ErrDuplicateSlug (pg_slug p))
           else map_sum id ((#) (Some p)) (validate_pages lib (pg_slug p # slugs) ps)))"

definition pages_ValidateAndSetDefaults :: "page_lib \<Rightarrow> pages_config \<Rightarrow> pages_config_error + pages_config" where
  "pages_ValidateAndSetDefaults lib c =
     (if (case pgc_rate_limit c of None \<Rightarrow> False | Some n \<Rightarrow> n < 0) then Inl ErrInvalidRateLimit
      else if (case pgc_maximum c of None \<Rightarrow> False | Some n \<Rightarrow> n < 1 \<or> n > int MaximumEndpointKeys)
      then Inl ErrInvalidMaximumEndpointsPerPage
      else case validate_proxies lib (pgc_trusted c) of
        Inl e \<Rightarrow> Inl e
      | Inr proxies \<Rightarrow>
          (case validate_pages lib [] (pgc_pages c) of
             Inl e \<Rightarrow> Inl e
           | Inr pages \<Rightarrow> Inr (c\<lparr>pgc_prefixes := proxies, pgc_pages := pages\<rparr>)))"

text \<open>\<open>Parse\<close> of \<^verbatim>\<open>statuspage/definition.go\<close>.\<close>

datatype definition_error = ErrEmptyPageDefinition | ErrInvalidPageDefinition | RefusedPage page_error

definition page_Parse :: "page_lib \<Rightarrow> string \<Rightarrow> definition_error + page" where
  "page_Parse lib definition =
     (if trim_space definition = [] then Inl ErrEmptyPageDefinition
      else case lb_decode_page lib definition of
        DecodeEOF \<Rightarrow> Inl ErrEmptyPageDefinition
      | DecodeError \<Rightarrow> Inl ErrInvalidPageDefinition
      | Decoded p \<Rightarrow>
          (if lb_second_document lib definition \<noteq> DecodeEOF then Inl ErrInvalidPageDefinition
           else case page_ValidateAndSetDefaults lib p of Inl e \<Rightarrow> Inl (RefusedPage e) | Inr p \<Rightarrow> Inr p))"

end
