(* ===== verification/PageSelection.thy ===== *)
theory PageSelection
  imports PageConfig "HOL-Library.Multiset" "HOL-Library.Product_Lexorder"
begin

text \<open>
  The endpoints that a page shows (\<^verbatim>\<open>internal/statuspage/selection.go\<close>): the featured ones, then the groups, cut at the
  limit of the installation. The reference is \<open>display_order\<close>, the whole list before the cut.
\<close>

subsection \<open>Sorting by a comparison\<close>

text \<open>\<^verbatim>\<open>sort.Slice\<close> on comparisons that leave no two different elements equal.\<close>

fun insert_by :: "('a \<Rightarrow> 'a \<Rightarrow> bool) \<Rightarrow> 'a \<Rightarrow> 'a list \<Rightarrow> 'a list" where
  "insert_by lt x [] = [x]"
| "insert_by lt x (y # ys) = (if lt y x then y # insert_by lt x ys else x # y # ys)"

definition sort_by :: "('a \<Rightarrow> 'a \<Rightarrow> bool) \<Rightarrow> 'a list \<Rightarrow> 'a list" where
  "sort_by lt xs = foldr (insert_by lt) xs []"

lemma mset_insert_by [simp]: "mset (insert_by lt x ys) = add_mset x (mset ys)"
  by (induction ys) auto

lemma mset_sort_by [simp]: "mset (sort_by lt xs) = mset xs"
  by (induction xs) (simp_all add: sort_by_def)

lemma set_sort_by [simp]: "set (sort_by lt xs) = set xs"
  by (metis mset_sort_by set_mset_mset)

lemma length_sort_by [simp]: "length (sort_by lt xs) = length xs"
  by (metis mset_sort_by size_mset)

lemma distinct_sort_by [simp]: "distinct (sort_by lt xs) = distinct xs"
  by (metis mset_sort_by mset_eq_imp_distinct_iff)

lemma set_insert_by [simp]: "set (insert_by lt x ys) = insert x (set ys)"
  by (induction ys) auto

lemma sorted_insert_by:
  assumes trans: "\<And>a b c. lt a b \<Longrightarrow> lt b c \<Longrightarrow> lt a c" and asym: "\<And>a b. lt a b \<Longrightarrow> \<not> lt b a"
    and total: "\<And>a b c. \<not> lt b a \<Longrightarrow> \<not> lt c b \<Longrightarrow> \<not> lt c a"
    and sorted: "sorted_wrt (\<lambda>a b. \<not> lt b a) ys"
  shows "sorted_wrt (\<lambda>a b. \<not> lt b a) (insert_by lt x ys)"
  using sorted
proof (induction ys)
  case (Cons y ys)
  show ?case
  proof (cases "lt y x")
    case True
    then show ?thesis using Cons asym by auto
  next
    case False
    then show ?thesis using Cons.prems total by auto
  qed
qed simp

lemma sorted_sort_by:
  assumes "\<And>a b c. lt a b \<Longrightarrow> lt b c \<Longrightarrow> lt a c" and "\<And>a b. lt a b \<Longrightarrow> \<not> lt b a"
    and "\<And>a b c. \<not> lt b a \<Longrightarrow> \<not> lt c b \<Longrightarrow> \<not> lt c a"
  shows "sorted_wrt (\<lambda>a b. \<not> lt b a) (sort_by lt xs)"
  by (induction xs) (simp_all add: sort_by_def sorted_insert_by [OF assms])

subsection \<open>The selection\<close>

record endpoint_ref =
  er_key :: string
  er_name :: string
  er_group :: string

record page_section =
  sc_group :: string
  sc_endpoints :: "endpoint_ref list"

record selection =
  sl_featured :: "endpoint_ref list"
  sl_sections :: "page_section list"
  sl_truncated :: bool

definition selection_Refs :: "selection \<Rightarrow> endpoint_ref list" where
  "selection_Refs s = sl_featured s @ concat (map sc_endpoints (sl_sections s))"

definition selection_Keys :: "selection \<Rightarrow> string list" where
  "selection_Keys s = map er_key (selection_Refs s)"

definition groupLess :: "(string \<Rightarrow> nat option) \<Rightarrow> string \<Rightarrow> string \<Rightarrow> bool" where
  "groupLess order a b \<longleftrightarrow>
     (case (order a, order b) of
        (Some i, Some j) \<Rightarrow> i < j
      | (Some _, None) \<Rightarrow> True
      | (None, Some _) \<Rightarrow> False
      | (None, None) \<Rightarrow>
          (if (a = []) \<noteq> (b = []) then b = []
           else if to_lower a \<noteq> to_lower b then to_lower a < to_lower b
           else a < b))"

definition refLess :: "endpoint_ref \<Rightarrow> endpoint_ref \<Rightarrow> bool" where
  "refLess a b \<longleftrightarrow>
     (if to_lower (er_name a) \<noteq> to_lower (er_name b) then to_lower (er_name a) < to_lower (er_name b)
      else er_key a < er_key b)"

text \<open>The position of a group in the page; of two equal entries the last one counts.\<close>

definition group_order :: "page \<Rightarrow> string \<Rightarrow> nat option" where
  "group_order p = map_of (rev (zip (pg_groups p) [0..<length (pg_groups p)]))"

definition refs_by_key :: "endpoint_ref list \<Rightarrow> string \<Rightarrow> endpoint_ref option" where
  "refs_by_key refs = map_of (rev (map (\<lambda>r. (er_key r, r)) refs))"

text \<open>The loop over the featured keys: those shown, those that exist, whether some were left out, what remains.\<close>

fun select_featured ::
    "(string \<Rightarrow> endpoint_ref option) \<Rightarrow> nat \<Rightarrow> string list \<Rightarrow> endpoint_ref list \<times> string list \<times> bool \<times> nat" where
  "select_featured byKey n [] = ([], [], False, n)"
| "select_featured byKey n (k # ks) =
     (case byKey k of
        None \<Rightarrow> select_featured byKey n ks
      | Some r \<Rightarrow>
          (if n = 0 then (let (fs, keys, _, m) = select_featured byKey 0 ks in (fs, k # keys, True, m))
           else (let (fs, keys, t, m) = select_featured byKey (n - 1) ks in (r # fs, k # keys, t, m))))"

definition in_sections :: "page \<Rightarrow> string list \<Rightarrow> endpoint_ref \<Rightarrow> bool" where
  "in_sections p featured r \<longleftrightarrow>
     er_key r \<notin> set featured \<and> (NormalizeGroup (er_group r) \<in> set (pg_groups p) \<or> er_key r \<in> set (pg_endpoints p))"

definition endpoints_by_group :: "page \<Rightarrow> string list \<Rightarrow> endpoint_ref list \<Rightarrow> (string \<times> endpoint_ref list) list" where
  "endpoints_by_group p featured refs =
     (let shown = filter (in_sections p featured) refs
      in map (\<lambda>g. (g, filter (\<lambda>r. NormalizeGroup (er_group r) = g) shown))
           (sort_by (groupLess (group_order p)) (remdups (map (NormalizeGroup \<circ> er_group) shown))))"

fun select_sections :: "nat \<Rightarrow> (string \<times> endpoint_ref list) list \<Rightarrow> page_section list \<times> bool" where
  "select_sections n [] = ([], False)"
| "select_sections n ((g, es) # rest) =
     (let es = sort_by refLess es
      in if n = 0 then ([], True)
         else (let kept = take n es; (ss, t) = select_sections (n - length kept) rest
               in (\<lparr>sc_group = g, sc_endpoints = kept\<rparr> # ss, length es > n \<or> t)))"

definition Select :: "page \<Rightarrow> endpoint_ref list \<Rightarrow> int \<Rightarrow> selection" where
  "Select p refs limit =
     (let (featured, keys, t, n) = select_featured (refs_by_key refs) (nat (max limit 0)) (pg_featured p);
          (ss, t') = select_sections n (endpoints_by_group p keys refs)
      in \<lparr>sl_featured = featured, sl_sections = ss, sl_truncated = t \<or> t'\<rparr>)"

section \<open>The reference\<close>

definition featured_refs :: "page \<Rightarrow> endpoint_ref list \<Rightarrow> endpoint_ref list" where
  "featured_refs p refs = List.map_filter (refs_by_key refs) (pg_featured p)"

definition display_order :: "page \<Rightarrow> endpoint_ref list \<Rightarrow> endpoint_ref list" where
  "display_order p refs =
     featured_refs p refs @
     concat (map (sort_by refLess \<circ> snd)
       (endpoints_by_group p (filter (\<lambda>k. refs_by_key refs k \<noteq> None) (pg_featured p)) refs))"

lemma select_featured_take:
  "select_featured byKey n ks =
     (let fs = List.map_filter byKey ks
      in (take n fs, filter (\<lambda>k. byKey k \<noteq> None) ks, length fs > n, n - length fs))"
proof (induction ks arbitrary: n)
  case (Cons k ks)
  show ?case
  proof (cases "byKey k")
    case (Some r)
    then show ?thesis
      by (cases n) (simp_all add: Cons.IH Let_def map_filter_def)
  qed (simp add: Cons.IH Let_def map_filter_def)
qed (simp add: map_filter_def)

lemma select_sections_take:
  "list_all (\<lambda>(g, es). es \<noteq> []) groups \<Longrightarrow> select_sections n groups = (ss, t) \<Longrightarrow>
   concat (map sc_endpoints ss) = take n (concat (map (sort_by refLess \<circ> snd) groups)) \<and>
   (t \<longleftrightarrow> length (concat (map (sort_by refLess \<circ> snd) groups)) > n)"
proof (induction groups arbitrary: n ss t)
  case (Cons x groups)
  obtain g es where x: "x = (g, es)" by (cases x)
  have ne: "es \<noteq> []" "sort_by refLess es \<noteq> []"
    using Cons.prems(1) x length_sort_by [of refLess es] by (auto simp del: length_sort_by)
  show ?case
  proof (cases "n = 0")
    case True
    then show ?thesis using Cons.prems(2) x ne by simp
  next
    case False
    let ?es = "sort_by refLess es"
    obtain ss' t' where r: "select_sections (n - length (take n ?es)) groups = (ss', t')" by fastforce
    have ss: "ss = \<lparr>sc_group = g, sc_endpoints = take n ?es\<rparr> # ss'" and t: "t \<longleftrightarrow> length ?es > n \<or> t'"
      using Cons.prems(2) False r by (simp_all add: x Let_def)
    have IH: "concat (map sc_endpoints ss') = take (n - length (take n ?es)) (concat (map (sort_by refLess \<circ> snd) groups))"
      "t' \<longleftrightarrow> length (concat (map (sort_by refLess \<circ> snd) groups)) > n - length (take n ?es)"
      using Cons.IH [OF _ r] Cons.prems(1) by (simp_all add: comp_def)
    show ?thesis using IH ss t by (auto simp: x comp_def min_def)
  qed
qed auto

lemma endpoints_by_group_ne: "list_all (\<lambda>(g, es). es \<noteq> []) (endpoints_by_group p featured refs)"
  by (auto simp: endpoints_by_group_def Let_def list_all_iff filter_empty_conv)

text \<open>The selection is the prefix of the reference, and is marked as truncated exactly when that leaves something out.\<close>

lemma Select_display_order:
  "selection_Refs (Select p refs limit) = take (nat limit) (display_order p refs)"
  "sl_truncated (Select p refs limit) \<longleftrightarrow> length (display_order p refs) > nat limit"
proof -
  let ?n = "nat (max limit 0)" and ?fs = "featured_refs p refs"
    and ?groups = "endpoints_by_group p (filter (\<lambda>k. refs_by_key refs k \<noteq> None) (pg_featured p)) refs"
  have n: "?n = nat limit" by simp
  obtain ss t where s: "select_sections (?n - length ?fs) ?groups = (ss, t)" by fastforce
  have sel: "Select p refs limit = \<lparr>sl_featured = take ?n ?fs, sl_sections = ss, sl_truncated = length ?fs > ?n \<or> t\<rparr>"
    using s unfolding Select_def select_featured_take Let_def featured_refs_def by simp
  note S = select_sections_take [OF endpoints_by_group_ne s]
  show "selection_Refs (Select p refs limit) = take (nat limit) (display_order p refs)"
    using S by (simp add: sel selection_Refs_def display_order_def n)
  show "sl_truncated (Select p refs limit) \<longleftrightarrow> length (display_order p refs) > nat limit"
    using S by (auto simp: sel display_order_def n)
qed

text \<open>What the reference has: the endpoints the page selects, each once, in the order of the page.\<close>

definition page_shows :: "page \<Rightarrow> endpoint_ref \<Rightarrow> bool" where
  "page_shows p r \<longleftrightarrow>
     er_key r \<in> set (pg_featured p) \<or> NormalizeGroup (er_group r) \<in> set (pg_groups p) \<or> er_key r \<in> set (pg_endpoints p)"

lemma refs_by_key_spec:
  assumes "distinct (map er_key refs)"
  shows "refs_by_key refs k = Some r \<longleftrightarrow> r \<in> set refs \<and> er_key r = k"
proof -
  have "distinct (map fst (rev (map (\<lambda>r. (er_key r, r)) refs)))"
    using assms by (simp add: comp_def flip: rev_map)
  then show ?thesis unfolding refs_by_key_def by (auto simp: map_of_eq_Some_iff)
qed

lemma featured_refs_set:
  assumes "distinct (map er_key refs)"
  shows "set (featured_refs p refs) = {r \<in> set refs. er_key r \<in> set (pg_featured p)}"
proof -
  have "set (List.map_filter f ks) = {r. \<exists>k \<in> set ks. f k = Some r}" for f :: "string \<Rightarrow> endpoint_ref option" and ks
    by (induction ks) (auto simp: map_filter_def)
  then have "r \<in> set (featured_refs p refs) \<longleftrightarrow> (\<exists>k \<in> set (pg_featured p). r \<in> set refs \<and> er_key r = k)" for r
    by (simp add: featured_refs_def refs_by_key_spec [OF assms])
  then show ?thesis by auto
qed

lemma featured_refs_keys:
  assumes "distinct (map er_key refs)"
  shows "map er_key (featured_refs p refs) = filter (\<lambda>k. refs_by_key refs k \<noteq> None) (pg_featured p)"
proof -
  have "map er_key (List.map_filter (refs_by_key refs) ks) = filter (\<lambda>k. refs_by_key refs k \<noteq> None) ks" for ks
  proof (induction ks)
    case (Cons k ks)
    then show ?case using refs_by_key_spec [OF assms, of k] by (cases "refs_by_key refs k") (auto simp: map_filter_def)
  qed (simp add: map_filter_def)
  then show ?thesis by (simp add: featured_refs_def)
qed

lemma concat_groups_set:
  "set (concat (map (sort_by refLess \<circ> snd) (endpoints_by_group p featured refs))) = set (filter (in_sections p featured) refs)"
  by (auto simp: endpoints_by_group_def Let_def)

lemma concat_groups_distinct:
  assumes "distinct refs"
  shows "distinct (concat (map (sort_by refLess \<circ> snd) (endpoints_by_group p featured refs)))"
proof -
  let ?shown = "filter (in_sections p featured) refs"
  have "distinct (concat (map (\<lambda>g. sort_by refLess (filter (\<lambda>r. NormalizeGroup (er_group r) = g) ?shown)) gs))" if "distinct gs" for gs
    using that assms by (induction gs) auto
  then show ?thesis by (simp add: endpoints_by_group_def Let_def comp_def)
qed

lemma display_order_set:
  assumes "distinct (map er_key refs)"
  shows "set (display_order p refs) = {r \<in> set refs. page_shows p r}"
proof -
  have "er_key r \<in> set (filter (\<lambda>k. refs_by_key refs k \<noteq> None) (pg_featured p)) \<longleftrightarrow> er_key r \<in> set (pg_featured p)"
    if "r \<in> set refs" for r
  proof -
    have "refs_by_key refs (er_key r) = Some r" using refs_by_key_spec [OF assms] that by blast
    then show ?thesis by simp
  qed
  then show ?thesis
    unfolding display_order_def set_append concat_groups_set featured_refs_set [OF assms]
    by (auto simp: in_sections_def page_shows_def)
qed

lemma display_order_distinct:
  assumes "distinct (map er_key refs)" and "distinct (pg_featured p)"
  shows "distinct (map er_key (display_order p refs))"
proof -
  let ?keys = "filter (\<lambda>k. refs_by_key refs k \<noteq> None) (pg_featured p)"
  let ?rest = "concat (map (sort_by refLess \<circ> snd) (endpoints_by_group p ?keys refs))"
  have inj: "inj_on er_key (set refs)" "distinct refs" using assms(1) by (simp_all add: distinct_map)
  have "distinct ?rest" by (rule concat_groups_distinct [OF inj(2)])
  moreover have sub: "set ?rest \<subseteq> set refs" unfolding concat_groups_set by auto
  ultimately have "distinct (map er_key ?rest)"
    using inj(1) by (auto simp: distinct_map intro: inj_on_subset)
  moreover have "set ?keys \<inter> set (map er_key ?rest) = {}"
    unfolding set_map concat_groups_set by (auto simp: in_sections_def)
  ultimately show ?thesis
    using assms(2) unfolding display_order_def map_append featured_refs_keys [OF assms(1)] distinct_append
    by simp
qed

subsection \<open>The order\<close>

lemma key_total: "\<not> y < x \<Longrightarrow> \<not> z < y \<Longrightarrow> \<not> z < (x :: 'a :: linorder)"
  by (meson less_le_trans not_le)

lemma pair_less: "(a, b) < (c, d) \<longleftrightarrow> (if a \<noteq> c then a < c else b < d)" for a c :: "'a :: linorder" and b d :: "'b :: linorder"
  by (auto simp: order.strict_iff_order)

text \<open>Both comparisons are those of a key.\<close>

definition group_key :: "(string \<Rightarrow> nat option) \<Rightarrow> string \<Rightarrow> nat \<times> nat \<times> string \<times> string" where
  "group_key ord g =
     (case ord g of Some i \<Rightarrow> (0, i, [], []) | None \<Rightarrow> if g = [] then (2, 0, [], []) else (1, 0, to_lower g, g))"

lemma groupLess_key: "groupLess ord a b \<longleftrightarrow> group_key ord a < group_key ord b"
  by (cases "ord a"; cases "ord b") (simp_all add: groupLess_def group_key_def pair_less del: less_prod_simp)

lemma refLess_key: "refLess a b \<longleftrightarrow> (to_lower (er_name a), er_key a) < (to_lower (er_name b), er_key b)"
  by (simp add: refLess_def pair_less del: less_prod_simp)

lemma groupLess_order:
  "groupLess ord a b \<Longrightarrow> groupLess ord b c \<Longrightarrow> groupLess ord a c"
  "groupLess ord a b \<Longrightarrow> \<not> groupLess ord b a"
  "\<not> groupLess ord b a \<Longrightarrow> \<not> groupLess ord c b \<Longrightarrow> \<not> groupLess ord c a"
  unfolding groupLess_key by - (rule less_trans, assumption+, rule less_not_sym, assumption, rule key_total, assumption+)

lemma refLess_order:
  "refLess a b \<Longrightarrow> refLess b c \<Longrightarrow> refLess a c"
  "refLess a b \<Longrightarrow> \<not> refLess b a"
  "\<not> refLess b a \<Longrightarrow> \<not> refLess c b \<Longrightarrow> \<not> refLess c a"
  unfolding refLess_key by - (rule less_trans, assumption+, rule less_not_sym, assumption, rule key_total, assumption+)

text \<open>Which of two endpoints outside of the featured ones comes first.\<close>

definition shown_before :: "page \<Rightarrow> endpoint_ref \<Rightarrow> endpoint_ref \<Rightarrow> bool" where
  "shown_before p a b \<longleftrightarrow>
     (let g = NormalizeGroup (er_group a); h = NormalizeGroup (er_group b)
      in if g = h then \<not> refLess b a else \<not> groupLess (group_order p) h g)"

lemma sorted_concat_groups:
  assumes "sorted_wrt (\<lambda>g h. \<not> groupLess (group_order p) h g) gs" and "distinct gs"
  shows "sorted_wrt (shown_before p)
    (concat (map (\<lambda>g. sort_by refLess (filter (\<lambda>r. NormalizeGroup (er_group r) = g) refs)) gs))"
  using assms
proof (induction gs)
  case (Cons g gs)
  let ?es = "sort_by refLess (filter (\<lambda>r. NormalizeGroup (er_group r) = g) refs)"
  have "sorted_wrt (\<lambda>a b. \<not> refLess b a) ?es" by (rule sorted_sort_by) (fact refLess_order)+
  then have "sorted_wrt (shown_before p) ?es"
    by (rule sorted_wrt_mono_rel [rotated]) (simp add: shown_before_def Let_def)
  moreover have "shown_before p a b"
    if "a \<in> set ?es" "h \<in> set gs" "NormalizeGroup (er_group b) = h" for a b h
    using that Cons.prems by (auto simp: shown_before_def Let_def)
  then have "\<forall>a \<in> set ?es. \<forall>b \<in> set (concat (map (\<lambda>g. sort_by refLess (filter (\<lambda>r. NormalizeGroup (er_group r) = g) refs)) gs)).
      shown_before p a b"
    by simp
  moreover have "sorted_wrt (shown_before p)
      (concat (map (\<lambda>g. sort_by refLess (filter (\<lambda>r. NormalizeGroup (er_group r) = g) refs)) gs))"
    using Cons by simp
  ultimately show ?case unfolding list.map concat.simps sorted_wrt_append by blast
qed simp

lemma display_order_sorted:
  "sorted_wrt (shown_before p) (drop (length (featured_refs p refs)) (display_order p refs))"
proof -
  let ?keys = "filter (\<lambda>k. refs_by_key refs k \<noteq> None) (pg_featured p)"
  let ?shown = "filter (in_sections p ?keys) refs"
  let ?gs = "sort_by (groupLess (group_order p)) (remdups (map (NormalizeGroup \<circ> er_group) ?shown))"
  have "sorted_wrt (\<lambda>g h. \<not> groupLess (group_order p) h g) ?gs" by (rule sorted_sort_by) (fact groupLess_order)+
  then show ?thesis
    unfolding display_order_def endpoints_by_group_def Let_def
    using sorted_concat_groups [of p ?gs ?shown] by (simp add: comp_def)
qed

end
