(* ===== verification/PageRegistry.thy ===== *)
theory PageRegistry
  imports PageSelection ManagedService
begin

text \<open>
  The status pages and their administration (\<^verbatim>\<open>internal/statuspage\<close>): the published snapshot (\<^verbatim>\<open>registry.go\<close>), the
  login in a submitted definition (\<^verbatim>\<open>credential.go\<close>), the changes (\<^verbatim>\<open>service.go\<close>), the restore (\<^verbatim>\<open>restore.go\<close>)
  and the participant in the renames of managed endpoints (\<^verbatim>\<open>rename.go\<close>).

  A change holds the mutex and a lifecycle change, so that it is one step on the database and the \<open>pages_state\<close>.
\<close>

subsection \<open>The snapshot\<close>

datatype page_origin = PageOfFile | PageOfAdmin

datatype managed_page_error = PageDefinition definition_error | SlugMismatch string

record page_status =
  sg_origin :: page_origin
  sg_slug :: string
  sg_page :: "page option"
  sg_stored :: "managed_row option"
  sg_conflict :: string
  sg_error :: "managed_page_error option"

definition page_InConflict :: "page_status \<Rightarrow> bool" where
  "page_InConflict s \<longleftrightarrow> sg_conflict s \<noteq> []"

definition IsPublished :: "page_status \<Rightarrow> bool" where
  "IsPublished s \<longleftrightarrow>
     (case sg_page s of
        None \<Rightarrow> False
      | Some p \<Rightarrow>
          (if page_InConflict s then False
           else if sg_origin s = PageOfAdmin then pg_enabled p = Some True
           else page_IsEnabled p))"

text \<open>The maps of the snapshot by slug; \<open>sn_endpoints\<close> are the endpoints of the file.\<close>

record pages_snapshot =
  sn_revision :: nat
  sn_generation :: nat
  sn_results :: int
  sn_maximum :: int
  sn_enabled :: bool
  sn_unavailable :: bool
  sn_config :: "(string \<times> page_status) list"
  sn_managed :: "(string \<times> page_status) list"
  sn_endpoints :: "endpoint_ref list"

record pages_state =
  pn_current :: "pages_snapshot option"
  pn_revisions :: nat
  pn_generations :: nat

record published =
  pb_page :: page
  pb_revision :: nat
  pb_generation :: nat
  pb_results :: int
  pb_maximum :: int

definition MaximumPublicResults :: int where "MaximumPublicResults = 50"

definition publish_pages :: "pages_snapshot \<Rightarrow> pages_state \<Rightarrow> pages_state" where
  "publish_pages next' st =
     st\<lparr>pn_revisions := Suc (pn_revisions st), pn_current := Some (next'\<lparr>sn_revision := Suc (pn_revisions st)\<rparr>)\<rparr>"

definition newManagedState :: "page_lib \<Rightarrow> managed_row \<Rightarrow> (string \<times> page_status) list \<Rightarrow> page_status" where
  "newManagedState lib stored configStates =
     (let s = \<lparr>sg_origin = PageOfAdmin, sg_slug = mgd_key stored, sg_page = None, sg_stored = Some stored,
               sg_conflict = [], sg_error = None\<rparr>
      in if map_of configStates (mgd_key stored) \<noteq> None then s\<lparr>sg_conflict := ''the configuration file''\<rparr>
         else case page_Parse lib (mgd_definition stored) of
           Inl e \<Rightarrow> s\<lparr>sg_error := Some (PageDefinition e)\<rparr>
         | Inr p \<Rightarrow>
             (if pg_slug p \<noteq> mgd_key stored then s\<lparr>sg_error := Some (SlugMismatch (pg_slug p))\<rparr>
              else s\<lparr>sg_page := Some p\<rparr>))"

definition maximumPublicResults :: "config \<Rightarrow> int" where
  "maximumPublicResults c =
     (case cfg_storage c of
        None \<Rightarrow> MaximumPublicResults
      | Some st \<Rightarrow>
          (if st_maximum_results st > 0 \<and> st_maximum_results st < MaximumPublicResults
           then st_maximum_results st else MaximumPublicResults))"

definition configEndpointRefs :: "config \<Rightarrow> endpoint_ref list" where
  "configEndpointRefs c =
     map (\<lambda>ep. \<lparr>er_key = ep_Key ep, er_name = ep_name ep, er_group = ep_group ep\<rparr>) (filter ep_IsEnabled (cfg_endpoints c)) @
     map (\<lambda>ee. \<lparr>er_key = ee_Key ee, er_name = ee_name ee, er_group = ee_group ee\<rparr>)
       (filter ee_IsEnabled (cfg_external_endpoints c))"

text \<open>The sections of the file and what the storage lists, \<open>None\<close> when it has no managed pages.\<close>

definition pages_Load ::
    "page_lib \<Rightarrow> config \<Rightarrow> pages_config option \<Rightarrow> managed_row list option option \<Rightarrow> pages_state \<Rightarrow> pages_state" where
  "pages_Load lib c pages listed st0 =
     (let st = st0\<lparr>pn_generations := Suc (pn_generations st0)\<rparr>;
          configStates = (case pages of None \<Rightarrow> []
            | Some ps \<Rightarrow> fold (\<lambda>p m. alist_put (pg_slug p)
                \<lparr>sg_origin = PageOfFile, sg_slug = pg_slug p, sg_page = Some p, sg_stored = None, sg_conflict = [],
                 sg_error = None\<rparr> m) (List.map_filter id (pgc_pages ps)) []);
          rows = (case listed of Some (Some rows) \<Rightarrow> rows | _ \<Rightarrow> []);
          managedStates = fold (\<lambda>row m. alist_put (mgd_key row) (newManagedState lib row configStates) m) rows []
      in publish_pages
           \<lparr>sn_revision = 0, sn_generation = pn_generations st, sn_results = maximumPublicResults c,
            sn_maximum = GetMaximumEndpointsPerPage pages, sn_enabled = pages_IsEnabled pages,
            sn_unavailable = (listed = Some None), sn_config = configStates, sn_managed = managedStates,
            sn_endpoints = configEndpointRefs c\<rparr> st)"

definition page_Lookup :: "string \<Rightarrow> pages_state \<Rightarrow> published option" where
  "page_Lookup slug st =
     (case pn_current st of
        None \<Rightarrow> None
      | Some snap \<Rightarrow>
          (if \<not> sn_enabled snap then None
           else case (case map_of (sn_config snap) slug of None \<Rightarrow> map_of (sn_managed snap) slug | s \<Rightarrow> s) of
             None \<Rightarrow> None
           | Some s \<Rightarrow>
               (if \<not> IsPublished s then None
                else map_option (\<lambda>p. \<lparr>pb_page = p, pb_revision = sn_revision snap, pb_generation = sn_generation snap,
                                      pb_results = sn_results snap, pb_maximum = sn_maximum snap\<rparr>) (sg_page s))))"

definition sortedStates :: "(string \<times> page_status) list \<Rightarrow> page_status list" where
  "sortedStates m = sort_key sg_slug (map snd m)"

definition pages_List :: "pages_state \<Rightarrow> page_status list" where
  "pages_List st =
     (case pn_current st of None \<Rightarrow> [] | Some snap \<Rightarrow> sortedStates (sn_config snap) @ sortedStates (sn_managed snap))"

definition pages_Enabled :: "pages_state \<Rightarrow> bool" where
  "pages_Enabled st \<longleftrightarrow> (case pn_current st of None \<Rightarrow> False | Some snap \<Rightarrow> sn_enabled snap)"

definition IsManagedUnavailable :: "pages_state \<Rightarrow> bool" where
  "IsManagedUnavailable st \<longleftrightarrow> (case pn_current st of None \<Rightarrow> False | Some snap \<Rightarrow> sn_unavailable snap)"

text \<open>The endpoints of a managed state that can be published: an active one and a push one.\<close>

definition managed_refs :: "managed_state \<Rightarrow> endpoint_ref list" where
  "managed_refs s =
     (case pa_endpoint (ms_parsed s) of
        None \<Rightarrow> []
      | Some ep \<Rightarrow> if ep_IsEnabled ep then [\<lparr>er_key = ep_Key ep, er_name = ep_name ep, er_group = ep_group ep\<rparr>] else []) @
     (case pa_push (ms_parsed s) of
        None \<Rightarrow> []
      | Some ee \<Rightarrow> if ee_IsEnabled ee then [\<lparr>er_key = ee_Key ee, er_name = ee_name ee, er_group = ee_group ee\<rparr>] else [])"

definition endpointsAndLimit :: "managed_registry \<Rightarrow> pages_state \<Rightarrow> endpoint_ref list \<times> int" where
  "endpointsAndLimit g st =
     ((case pn_current st of None \<Rightarrow> [] | Some snap \<Rightarrow> sn_endpoints snap) @ concat (map managed_refs (managed_List g)),
      (case pn_current st of None \<Rightarrow> DefaultMaximumEndpointsPerPage | Some snap \<Rightarrow> sn_maximum snap))"

definition pages_Endpoints :: "managed_registry \<Rightarrow> pages_state \<Rightarrow> endpoint_ref list" where
  "pages_Endpoints g st = fst (endpointsAndLimit g st)"

subsection \<open>The login of a submitted definition\<close>

text \<open>The nodes of a YAML document: a scalar has its text, the others have none.\<close>

datatype yaml_node = Scalar string | Mapping "(string \<times> yaml_node) list" | OtherNode

datatype page_service_error =
    ErrPageReadOnly
  | ErrPageCycle
  | ErrSlugChanged
  | ErrSlugInUse string
  | ErrPageStorage
  | ErrPageNotFound
  | ErrPageUnavailable
  | ErrExposureQuery
  | ErrAuthPasswordTooShort
  | ErrAuthPasswordTooLong
  | ErrAuthPasswordRequired
  | ErrMaskedHash
  | HashFailed
  | EncodingFailed
  | RefusedPageDefinition definition_error
  | PageStorageRefused managed_store_error

text \<open>
  \<open>pe_decode\<close> decodes a text into the node of its mapping, if it is one; \<open>pe_hash\<close> is \<^verbatim>\<open>bcrypt\<close> with the salt of the
  call, already in base64; \<open>pe_assemble\<close> assembles the payload of a page.
\<close>

record page_env =
  pe_lib :: page_lib
  pe_decode :: "string \<Rightarrow> (string \<times> yaml_node) list option"
  pe_encode :: "(string \<times> yaml_node) list \<Rightarrow> string option"
  pe_hash :: "string \<Rightarrow> string option"
  pe_cycle :: bool
  pe_supported :: bool
  pe_now :: time
  pe_assemble :: "page \<Rightarrow> int \<Rightarrow> int \<Rightarrow> string option"

definition authFieldName :: string where "authFieldName = ''auth''"
definition authPasswordFieldName :: string where "authPasswordFieldName = ''password''"
definition authPasswordHashFieldName :: string where "authPasswordHashFieldName = ''password-bcrypt-base64''"
definition MinimumAuthPasswordLength :: nat where "MinimumAuthPasswordLength = 8"
definition MaximumAuthPasswordBytes :: nat where "MaximumAuthPasswordBytes = 72"

definition valueOf :: "yaml_node option \<Rightarrow> string" where
  "valueOf n = (case n of Some (Scalar s) \<Rightarrow> s | _ \<Rightarrow> [])"

fun removeMappingKey :: "string \<Rightarrow> (string \<times> yaml_node) list \<Rightarrow> (string \<times> yaml_node) list" where
  "removeMappingKey key [] = []"
| "removeMappingKey key ((k, v) # m) = (if k = key then m else (k, v) # removeMappingKey key m)"

definition setMappingValue :: "string \<Rightarrow> string \<Rightarrow> (string \<times> yaml_node) list \<Rightarrow> (string \<times> yaml_node) list" where
  "setMappingValue key v m = alist_put key (Scalar v) m"

definition encode_auth ::
    "page_env \<Rightarrow> (string \<times> yaml_node) list \<Rightarrow> (string \<times> yaml_node) list \<Rightarrow> page_service_error + string" where
  "encode_auth e d auth =
     (case pe_encode e (alist_put authFieldName (Mapping auth) d) of None \<Rightarrow> Inl EncodingFailed | Some s \<Rightarrow> Inr s)"

definition resolveSubmittedCredential :: "page_env \<Rightarrow> string \<Rightarrow> string \<Rightarrow> page_service_error + string" where
  "resolveSubmittedCredential e raw storedHash =
     (case pe_decode e raw of
        None \<Rightarrow> Inr raw
      | Some d \<Rightarrow>
          (case map_of d authFieldName of
             Some (Mapping auth0) \<Rightarrow>
               (let password = trim_space (valueOf (map_of auth0 authPasswordFieldName));
                    auth = removeMappingKey authPasswordFieldName auth0
                in if password \<noteq> []
                   then (if rune_count password < MinimumAuthPasswordLength then Inl ErrAuthPasswordTooShort
                         else if length password > MaximumAuthPasswordBytes then Inl ErrAuthPasswordTooLong
                         else case pe_hash e password of
                           None \<Rightarrow> Inl HashFailed
                         | Some h \<Rightarrow> encode_auth e d (setMappingValue authPasswordHashFieldName h auth))
                   else (let submittedHash = trim_space (valueOf (map_of auth authPasswordHashFieldName))
                         in if submittedHash \<noteq> [] \<and> submittedHash \<noteq> Mask then encode_auth e d auth
                            else if storedHash = [] then Inl ErrAuthPasswordRequired
                            else encode_auth e d (setMappingValue authPasswordHashFieldName storedHash auth)))
           | _ \<Rightarrow> Inr raw))"

definition storedPasswordHash :: "page_env \<Rightarrow> string \<Rightarrow> pages_state \<Rightarrow> string" where
  "storedPasswordHash e slug st =
     (if slug = [] then []
      else case Option.bind (pn_current st) (\<lambda>snap. map_of (sn_managed snap) slug) of
        None \<Rightarrow> []
      | Some s \<Rightarrow>
          (let p = (case sg_page s of
                      Some p \<Rightarrow> Some p
                    | None \<Rightarrow> (case sg_stored s of
                                 None \<Rightarrow> None
                               | Some row \<Rightarrow> (case page_Parse (pe_lib e) (mgd_definition row) of Inl _ \<Rightarrow> None | Inr p \<Rightarrow> Some p)))
           in case Option.bind p pg_auth of None \<Rightarrow> [] | Some a \<Rightarrow> au_hash a))"

definition mergeRestoredCredential :: "page_env \<Rightarrow> string \<Rightarrow> pages_state \<Rightarrow> page_service_error + string" where
  "mergeRestoredCredential e raw st =
     (case pe_decode e raw of
        None \<Rightarrow> Inr raw
      | Some d \<Rightarrow>
          (case map_of d authFieldName of
             Some (Mapping auth) \<Rightarrow>
               (if trim_space (valueOf (map_of auth authPasswordHashFieldName)) \<noteq> Mask then Inr raw
                else (let stored = storedPasswordHash e (trim_space (valueOf (map_of d ''slug''))) st
                      in if stored = [] then Inl ErrMaskedHash
                         else encode_auth e d (setMappingValue authPasswordHashFieldName stored auth)))
           | _ \<Rightarrow> Inr raw))"

definition maskCredential :: "page \<Rightarrow> page" where
  "maskCredential p = p\<lparr>pg_auth := map_option (\<lambda>a. a\<lparr>au_hash := Mask\<rparr>) (pg_auth p)\<rparr>"

definition maskCredentialInDefinition :: "page_env \<Rightarrow> string \<Rightarrow> string" where
  "maskCredentialInDefinition e raw =
     (case pe_decode e raw of
        None \<Rightarrow> raw
      | Some d \<Rightarrow>
          (case map_of d authFieldName of
             Some (Mapping auth) \<Rightarrow>
               (if map_of auth authPasswordHashFieldName = None then raw
                else case encode_auth e d (setMappingValue authPasswordHashFieldName Mask auth) of Inl _ \<Rightarrow> [] | Inr s \<Rightarrow> s)
           | _ \<Rightarrow> raw))"

end
