(* ===== verification/PageService.thy ===== *)
theory PageService
  imports PageRegistry
begin

text \<open>
  The changes of the status pages managed through the administration (\<^verbatim>\<open>statuspage/service.go\<close>), the restore of a
  backup (\<^verbatim>\<open>restore.go\<close>), the participant in renames (\<^verbatim>\<open>rename.go\<close>) and what the administration shows.
\<close>

subsection \<open>Submitted definitions\<close>

definition disabled_by_default :: "page \<Rightarrow> page" where
  "disabled_by_default p = (if pg_enabled p = None then p\<lparr>pg_enabled := Some False\<rparr> else p)"

definition parseSubmitted :: "page_env \<Rightarrow> string \<Rightarrow> string \<Rightarrow> pages_state \<Rightarrow> page_service_error + page" where
  "parseSubmitted e raw slug st =
     (case resolveSubmittedCredential e raw (storedPasswordHash e slug st) of
        Inl er \<Rightarrow> Inl er
      | Inr resolved \<Rightarrow>
          (case page_Parse (pe_lib e) resolved of
             Inl er \<Rightarrow> Inl (RefusedPageDefinition er)
           | Inr p0 \<Rightarrow>
               (let p = disabled_by_default p0
                in if slug \<noteq> [] then (if pg_slug p \<noteq> slug then Inl ErrSlugChanged else Inr p)
                   else case pn_current st of
                     None \<Rightarrow> Inr p
                   | Some snap \<Rightarrow>
                       (if map_of (sn_config snap) (pg_slug p) \<noteq> None \<or> map_of (sn_managed snap) (pg_slug p) \<noteq> None
                        then Inl (ErrSlugInUse (pg_slug p)) else Inr p))))"

subsection \<open>Changes\<close>

type_synonym pages_system = "managed_db \<times> pages_state"

definition managedStoreForChange :: "page_env \<Rightarrow> string \<Rightarrow> int \<Rightarrow> pages_state \<Rightarrow> page_service_error + page_status" where
  "managedStoreForChange e slug expectedVersion st =
     (case pn_current st of
        None \<Rightarrow> Inl ErrPageNotFound
      | Some snap \<Rightarrow>
          (case map_of (sn_managed snap) slug of
             None \<Rightarrow> (if map_of (sn_config snap) slug \<noteq> None then Inl ErrPageReadOnly else Inl ErrPageNotFound)
           | Some s \<Rightarrow>
               (if map_option mgd_version (sg_stored s) \<noteq> Some expectedVersion
                then Inl (PageStorageRefused (ErrManagedVersionMismatch ManagedStatusPagesTable))
                else if \<not> pe_supported e then Inl ErrPageStorage
                else Inr s)))"

definition empty_pages_snapshot :: pages_snapshot where
  "empty_pages_snapshot =
     \<lparr>sn_revision = 0, sn_generation = 0, sn_results = MaximumPublicResults, sn_maximum = DefaultMaximumEndpointsPerPage,
      sn_enabled = True, sn_unavailable = False, sn_config = [], sn_managed = [], sn_endpoints = []\<rparr>"

definition cloneCurrentSnapshot :: "pages_state \<Rightarrow> pages_snapshot" where
  "cloneCurrentSnapshot st =
     (case pn_current st of None \<Rightarrow> empty_pages_snapshot | Some snap \<Rightarrow> snap\<lparr>sn_revision := 0\<rparr>)"

definition publishManaged :: "page_env \<Rightarrow> managed_row \<Rightarrow> pages_state \<Rightarrow> page_status \<times> pages_state" where
  "publishManaged e stored st =
     (let next' = cloneCurrentSnapshot st; s = newManagedState (pe_lib e) stored (sn_config next')
      in (s, publish_pages (next'\<lparr>sn_managed := alist_put (mgd_key stored) s (sn_managed next')\<rparr>) st))"

definition page_row :: "page \<Rightarrow> string \<Rightarrow> string \<Rightarrow> managed_row" where
  "page_row p definition author =
     \<lparr>mgd_key = pg_slug p, mgd_definition = definition, mgd_version = 0, mgd_created_at = zero_time,
      mgd_updated_at = zero_time, mgd_updated_by = author\<rparr>"

definition page_tx_error :: "unit tx_error \<Rightarrow> page_service_error" where
  "page_tx_error e = PageStorageRefused (case e of StoreFailure s \<Rightarrow> s | ApplyFailure _ \<Rightarrow> DatabaseError)"

definition page_save ::
    "page_env \<Rightarrow> page \<Rightarrow> int \<Rightarrow> string \<Rightarrow> pages_system \<Rightarrow> (page_service_error + page_status) \<times> pages_system" where
  "page_save e p expectedVersion author sys =
     (let (db, st) = sys
      in case lb_marshal_page (pe_lib e) p of
           None \<Rightarrow> (Inl EncodingFailed, sys)
         | Some definition \<Rightarrow>
             (case UpdateManagedStatusPage (pe_now e) (page_row p definition author) expectedVersion
                     (no_apply :: unit \<Rightarrow> unit option \<times> unit) db () of
                (Inl er, db', _) \<Rightarrow> (Inl (page_tx_error er), db', st)
              | (Inr stored, db', _) \<Rightarrow> (let (s, st') = publishManaged e stored st in (Inr s, db', st'))))"

definition pages_Create :: "page_env \<Rightarrow> string \<Rightarrow> string \<Rightarrow> pages_system \<Rightarrow> (page_service_error + page_status) \<times> pages_system" where
  "pages_Create e raw author sys =
     (let (db, st) = sys
      in if pe_cycle e then (Inl ErrPageCycle, sys)
         else if \<not> pe_supported e then (Inl ErrPageStorage, sys)
         else case parseSubmitted e raw [] st of
           Inl er \<Rightarrow> (Inl er, sys)
         | Inr p \<Rightarrow>
             (case lb_marshal_page (pe_lib e) p of
                None \<Rightarrow> (Inl EncodingFailed, sys)
              | Some definition \<Rightarrow>
                  (case CreateManagedStatusPage (pe_now e) (page_row p definition author)
                          (no_apply :: unit \<Rightarrow> unit option \<times> unit) db () of
                     (Inl er, db', _) \<Rightarrow> (Inl (page_tx_error er), db', st)
                   | (Inr stored, db', _) \<Rightarrow> (let (s, st') = publishManaged e stored st in (Inr s, db', st')))))"

definition pages_Update ::
    "page_env \<Rightarrow> string \<Rightarrow> string \<Rightarrow> int \<Rightarrow> string \<Rightarrow> pages_system \<Rightarrow> (page_service_error + page_status) \<times> pages_system" where
  "pages_Update e slug raw expectedVersion author sys =
     (if pe_cycle e then (Inl ErrPageCycle, sys)
      else case managedStoreForChange e slug expectedVersion (snd sys) of
        Inl er \<Rightarrow> (Inl er, sys)
      | Inr _ \<Rightarrow>
          (case parseSubmitted e raw slug (snd sys) of
             Inl er \<Rightarrow> (Inl er, sys)
           | Inr p \<Rightarrow> page_save e p expectedVersion author sys))"

definition pages_SetEnabled ::
    "page_env \<Rightarrow> string \<Rightarrow> bool \<Rightarrow> int \<Rightarrow> string \<Rightarrow> pages_system \<Rightarrow> (page_service_error + page_status) \<times> pages_system" where
  "pages_SetEnabled e slug enabled expectedVersion author sys =
     (if pe_cycle e then (Inl ErrPageCycle, sys)
      else case managedStoreForChange e slug expectedVersion (snd sys) of
        Inl er \<Rightarrow> (Inl er, sys)
      | Inr s \<Rightarrow>
          (case page_Parse (pe_lib e) (case sg_stored s of None \<Rightarrow> [] | Some row \<Rightarrow> mgd_definition row) of
             Inl er \<Rightarrow> (Inl (RefusedPageDefinition er), sys)
           | Inr p \<Rightarrow> page_save e (p\<lparr>pg_enabled := Some enabled\<rparr>) expectedVersion author sys))"

definition pages_Delete ::
    "page_env \<Rightarrow> string \<Rightarrow> int \<Rightarrow> pages_system \<Rightarrow> page_service_error option \<times> pages_system" where
  "pages_Delete e slug expectedVersion sys =
     (let (db, st) = sys
      in if pe_cycle e then (Some ErrPageCycle, sys)
         else case managedStoreForChange e slug expectedVersion st of
           Inl er \<Rightarrow> (Some er, sys)
         | Inr _ \<Rightarrow>
             (case DeleteManagedStatusPage slug expectedVersion (no_apply :: unit \<Rightarrow> unit option \<times> unit) db () of
                (Some er, db', _) \<Rightarrow> (Some (page_tx_error er), db', st)
              | (None, db', _) \<Rightarrow>
                  (let next' = cloneCurrentSnapshot st
                   in (None, db', publish_pages (next'\<lparr>sn_managed := alist_del slug (sn_managed next')\<rparr>) st))))"

text \<open>
  The preview of a page, also of one that is not published. The slot of its semaphore is not modelled; the time of the
  assembly is in \<open>pe_assemble\<close>.
\<close>

definition page_Preview :: "page_env \<Rightarrow> string \<Rightarrow> pages_state \<Rightarrow> page_service_error + string" where
  "page_Preview e slug st =
     (case pn_current st of
        None \<Rightarrow> Inl ErrPageNotFound
      | Some snap \<Rightarrow>
          (case (case map_of (sn_managed snap) slug of None \<Rightarrow> map_of (sn_config snap) slug | s \<Rightarrow> s) of
             None \<Rightarrow> Inl ErrPageNotFound
           | Some s \<Rightarrow>
               (case (case sg_page s of
                        Some p \<Rightarrow> Inr p
                      | None \<Rightarrow> page_Parse (pe_lib e) (case sg_stored s of None \<Rightarrow> [] | Some row \<Rightarrow> mgd_definition row)) of
                  Inl er \<Rightarrow> Inl (RefusedPageDefinition er)
                | Inr p \<Rightarrow>
                    (case pe_assemble e p (sn_results snap) (sn_maximum snap) of
                       None \<Rightarrow> Inl ErrPageUnavailable | Some body \<Rightarrow> Inr body))))"

subsection \<open>Renames of endpoints\<close>

fun replace_key_loop :: "string \<Rightarrow> string \<Rightarrow> string list \<Rightarrow> string list \<Rightarrow> string list" where
  "replace_key_loop oldKey newKey replaced [] = replaced"
| "replace_key_loop oldKey newKey replaced (k # ks) =
     (let k = (if k = oldKey then newKey else k)
      in replace_key_loop oldKey newKey (if k \<in> set replaced then replaced else replaced @ [k]) ks)"

definition replaceEndpointKey :: "string list \<Rightarrow> string \<Rightarrow> string \<Rightarrow> string list \<times> bool" where
  "replaceEndpointKey keys oldKey newKey =
     (if oldKey \<notin> set keys then (keys, False) else (replace_key_loop oldKey newKey [] keys, True))"

definition renameClassification :: "page \<Rightarrow> string \<Rightarrow> string \<Rightarrow> page \<times> bool" where
  "renameClassification p oldKey newKey =
     (case page_Classification (pg_views p) oldKey of
        None \<Rightarrow> (p, False)
      | Some c \<Rightarrow>
          (p\<lparr>pg_views := map_option (\<lambda>v. v\<lparr>vw_endpoints :=
               map_option (\<lambda>m. alist_put newKey (Some c) (alist_del oldKey m)) (vw_endpoints v)\<rparr>) (pg_views p)\<rparr>, True))"

definition renamed_page :: "page \<Rightarrow> string \<Rightarrow> string \<Rightarrow> page option" where
  "renamed_page p oldKey newKey =
     (let (endpoints, ec) = replaceEndpointKey (pg_endpoints p) oldKey newKey;
          (featured, fc) = replaceEndpointKey (pg_featured p) oldKey newKey;
          (p', cc) = renameClassification p oldKey newKey
      in if \<not> ec \<and> \<not> fc \<and> \<not> cc then None else Some (p'\<lparr>pg_endpoints := endpoints, pg_featured := featured\<rparr>))"

definition affected_page :: "string \<Rightarrow> page_status \<Rightarrow> (string \<times> string) option" where
  "affected_page oldKey s =
     (case sg_page s of
        None \<Rightarrow> None
      | Some p \<Rightarrow>
          (if oldKey \<in> set (pg_endpoints p) \<or> oldKey \<in> set (pg_featured p) \<or> page_Classification (pg_views p) oldKey \<noteq> None
           then Some (sg_slug s, pg_title p) else None))"

fun plan_page_updates ::
    "page_env \<Rightarrow> string \<Rightarrow> string \<Rightarrow> string \<Rightarrow> page_status list \<Rightarrow> (managed_row \<times> int) list option" where
  "plan_page_updates e oldKey newKey author [] = Some []"
| "plan_page_updates e oldKey newKey author (s # ss) =
     (case sg_stored s of
        None \<Rightarrow> plan_page_updates e oldKey newKey author ss
      | Some row \<Rightarrow>
          (case page_Parse (pe_lib e) (mgd_definition row) of
             Inl _ \<Rightarrow> plan_page_updates e oldKey newKey author ss
           | Inr p \<Rightarrow>
               (case renamed_page p oldKey newKey of
                  None \<Rightarrow> plan_page_updates e oldKey newKey author ss
                | Some p' \<Rightarrow>
                    (case lb_marshal_page (pe_lib e) p' of
                       None \<Rightarrow> None
                     | Some definition \<Rightarrow>
                         map_option ((#) (\<lparr>mgd_key = sg_slug s, mgd_definition = definition, mgd_version = 0,
                             mgd_created_at = mgd_created_at row, mgd_updated_at = zero_time, mgd_updated_by = author\<rparr>,
                           mgd_version row)) (plan_page_updates e oldKey newKey author ss)))))"

text \<open>The error of the encoder of the YAML package is \<open>RenameRefused\<close>.\<close>

definition PrepareKeyRename ::
    "page_env \<Rightarrow> string \<Rightarrow> string \<Rightarrow> string \<Rightarrow> pages_state \<Rightarrow> service_error + rename_plan \<times> pages_state" where
  "PrepareKeyRename e oldKey newKey author st =
     (case pn_current st of
        None \<Rightarrow> Inr (\<lparr>kn_pages = [], kn_affected = []\<rparr>, st)
      | Some snap \<Rightarrow>
          (case plan_page_updates e oldKey newKey author (sortedStates (sn_managed snap)) of
             None \<Rightarrow> Inl RenameRefused
           | Some updates \<Rightarrow>
               Inr (\<lparr>kn_pages = updates,
                     kn_affected = List.map_filter (affected_page oldKey) (sortedStates (sn_config snap))\<rparr>, st)))"

definition commit_key_rename :: "page_env \<Rightarrow> managed_row list \<Rightarrow> pages_state \<Rightarrow> pages_state" where
  "commit_key_rename e rows st =
     (if rows = [] then st
      else (let next' = cloneCurrentSnapshot st
            in publish_pages (next'\<lparr>sn_managed :=
                 fold (\<lambda>row m. alist_put (mgd_key row) (newManagedState (pe_lib e) row (sn_config next')) m) rows
                   (sn_managed next')\<rparr>) st))"

definition keyRenameParticipant :: "page_env \<Rightarrow> pages_state rename_participant" where
  "keyRenameParticipant e =
     \<lparr>kp_prepare = PrepareKeyRename e, kp_commit = commit_key_rename e, kp_discard = (\<lambda>st. st)\<rparr>"

subsection \<open>Views\<close>

datatype page_warning =
    GroupWithoutMatch string
  | EndpointWithoutMatch string
  | FeaturedWithoutMatch string
  | ClassificationWithoutMatch string
  | ChartsIgnored "string list"
  | TruncatedAt int

definition selectionWarnings :: "page \<Rightarrow> endpoint_ref list \<Rightarrow> page_warning list" where
  "selectionWarnings p refs =
     (let groups = map (NormalizeGroup \<circ> er_group) refs; keys = map er_key refs
      in map GroupWithoutMatch (filter (\<lambda>g. g \<notin> set groups) (pg_groups p)) @
         map EndpointWithoutMatch (filter (\<lambda>k. k \<notin> set keys) (pg_endpoints p)) @
         map FeaturedWithoutMatch (filter (\<lambda>k. k \<notin> set keys) (pg_featured p)) @
         map ClassificationWithoutMatch
           (filter (\<lambda>k. k \<notin> set keys)
             (sort (map fst (case Option.bind (pg_views p) vw_endpoints of None \<Rightarrow> [] | Some m \<Rightarrow> m)))) @
         (if pg_charts p \<noteq> [] then [ChartsIgnored (pg_charts p)] else []))"

definition withTruncationWarning :: "page_warning list \<Rightarrow> selection \<Rightarrow> int \<Rightarrow> page_warning list" where
  "withTruncationWarning ws sel limit = (if sl_truncated sel then ws @ [TruncatedAt limit] else ws)"

record page_validation =
  pv_definition :: page
  pv_warnings :: "page_warning list"
  pv_endpoints :: nat

definition page_Validate ::
    "page_env \<Rightarrow> managed_registry \<Rightarrow> string \<Rightarrow> string \<Rightarrow> pages_state \<Rightarrow> page_service_error + page_validation" where
  "page_Validate e g raw slug st =
     (case parseSubmitted e raw slug st of
        Inl er \<Rightarrow> Inl er
      | Inr p \<Rightarrow>
          (let (refs, limit) = endpointsAndLimit g st; sel = Select p refs limit
           in Inr \<lparr>pv_definition = maskCredential p,
                   pv_warnings = withTruncationWarning (selectionWarnings p refs) sel limit,
                   pv_endpoints = length (selection_Keys sel)\<rparr>))"

record page_item =
  pi_slug :: string
  pi_title :: string
  pi_origin :: page_origin
  pi_enabled :: bool
  pi_published :: bool
  pi_conflict :: string
  pi_error :: "managed_page_error option"
  pi_endpoints :: nat
  pi_truncated :: bool
  pi_login :: bool
  pi_path :: string
  pi_stored :: "(int \<times> time \<times> time \<times> string) option"

definition described_page :: "page_env \<Rightarrow> page_status \<Rightarrow> page option" where
  "described_page e s =
     (case sg_page s of
        Some p \<Rightarrow> Some p
      | None \<Rightarrow>
          (case sg_stored s of
             None \<Rightarrow> None
           | Some row \<Rightarrow> (case page_Parse (pe_lib e) (mgd_definition row) of Inl _ \<Rightarrow> None | Inr p \<Rightarrow> Some p)))"

definition newItem :: "page_env \<Rightarrow> page_status \<Rightarrow> endpoint_ref list \<Rightarrow> int \<Rightarrow> pages_state \<Rightarrow> page_item" where
  "newItem e s refs limit st =
     (let item = \<lparr>pi_slug = sg_slug s, pi_title = [], pi_origin = sg_origin s, pi_enabled = False,
                  pi_published = (pages_Enabled st \<and> IsPublished s), pi_conflict = sg_conflict s, pi_error = sg_error s,
                  pi_endpoints = 0, pi_truncated = False, pi_login = False, pi_path = ''/status/'' @ sg_slug s,
                  pi_stored = map_option (\<lambda>r. (mgd_version r, mgd_created_at r, mgd_updated_at r, mgd_updated_by r)) (sg_stored s)\<rparr>
      in case described_page e s of
           None \<Rightarrow> item
         | Some p \<Rightarrow>
             (let sel = Select p refs limit
              in item\<lparr>pi_title := pg_title p,
                      pi_enabled := (if sg_origin s = PageOfAdmin then pg_enabled p = Some True else page_IsEnabled p),
                      pi_endpoints := length (selection_Keys sel), pi_truncated := sl_truncated sel,
                      pi_login := RequiresLogin (Some p)\<rparr>))"

record page_detail =
  pd_item :: page_item
  pd_definition :: "page option"
  pd_yaml :: string

definition newDetail :: "page_env \<Rightarrow> managed_registry \<Rightarrow> page_status \<Rightarrow> pages_state \<Rightarrow> page_service_error + page_detail" where
  "newDetail e g s st =
     (let (refs, limit) = endpointsAndLimit g st; item = newItem e s refs limit st
      in case sg_stored s of
           Some row \<Rightarrow>
             Inr \<lparr>pd_item = item,
                  pd_definition = (case page_Parse (pe_lib e) (mgd_definition row) of
                                     Inl _ \<Rightarrow> None | Inr p \<Rightarrow> Some (maskCredential p)),
                  pd_yaml = maskCredentialInDefinition e (mgd_definition row)\<rparr>
         | None \<Rightarrow>
             (case sg_page s of
                None \<Rightarrow> Inl EncodingFailed
              | Some p \<Rightarrow>
                  (case lb_marshal_page (pe_lib e) (maskCredential p) of
                     None \<Rightarrow> Inl EncodingFailed
                   | Some y \<Rightarrow> Inr \<lparr>pd_item = item, pd_definition = Some (maskCredential p), pd_yaml = y\<rparr>)))"

definition findState :: "string \<Rightarrow> pages_state \<Rightarrow> page_status option" where
  "findState slug st =
     Option.bind (pn_current st)
       (\<lambda>snap. case map_of (sn_managed snap) slug of None \<Rightarrow> map_of (sn_config snap) slug | s \<Rightarrow> s)"

definition page_Get :: "page_env \<Rightarrow> managed_registry \<Rightarrow> string \<Rightarrow> pages_state \<Rightarrow> page_service_error + page_detail" where
  "page_Get e g slug st =
     (case findState slug st of None \<Rightarrow> Inl ErrPageNotFound | Some s \<Rightarrow> newDetail e g s st)"

record pages_listing =
  pl_enabled :: bool
  pl_unavailable :: bool
  pl_items :: "page_item list"

definition pages_service_List :: "page_env \<Rightarrow> managed_registry \<Rightarrow> pages_state \<Rightarrow> pages_listing" where
  "pages_service_List e g st =
     (let (refs, limit) = endpointsAndLimit g st
      in \<lparr>pl_enabled = pages_Enabled st, pl_unavailable = IsManagedUnavailable st,
          pl_items = map (\<lambda>s. newItem e s refs limit st) (pages_List st)\<rparr>)"

record page_options =
  op_groups :: "(string \<times> nat) list"
  op_endpoints :: "endpoint_ref list"

definition optionLess :: "endpoint_ref \<Rightarrow> endpoint_ref \<Rightarrow> bool" where
  "optionLess a b \<longleftrightarrow> (if er_group a \<noteq> er_group b then er_group a < er_group b else er_key a < er_key b)"

definition page_Options :: "managed_registry \<Rightarrow> pages_state \<Rightarrow> page_options" where
  "page_Options g st =
     (let refs = pages_Endpoints g st;
          groups = filter (\<lambda>n. n \<noteq> []) (map (NormalizeGroup \<circ> er_group) refs)
      in \<lparr>op_groups = map (\<lambda>n. (n, count_list groups n)) (sort (remdups groups)),
          op_endpoints = sort_by optionLess refs\<rparr>)"

datatype exposure_reason = ByGroup | ByKey

definition exposure_of :: "string \<Rightarrow> string \<Rightarrow> page \<Rightarrow> exposure_reason option" where
  "exposure_of group' key p =
     (if group' \<noteq> [] \<and> group' \<in> set (pg_groups p) then Some ByGroup
      else if key \<noteq> [] \<and> (key \<in> set (pg_endpoints p) \<or> key \<in> set (pg_featured p)) then Some ByKey
      else None)"

record exposure_item =
  ex_slug :: string
  ex_title :: string
  ex_origin :: page_origin
  ex_published :: bool
  ex_reason :: exposure_reason

definition page_Exposure :: "string \<Rightarrow> string \<Rightarrow> pages_state \<Rightarrow> page_service_error + exposure_item list" where
  "page_Exposure group0 key0 st =
     (let group' = NormalizeGroup group0; key = normalize_key key0
      in if group' = [] \<and> key = [] then Inl ErrExposureQuery
         else Inr (List.map_filter (\<lambda>s. Option.bind (sg_page s) (\<lambda>p. map_option (\<lambda>r.
                \<lparr>ex_slug = sg_slug s, ex_title = pg_title p, ex_origin = sg_origin s,
                 ex_published = (pages_Enabled st \<and> IsPublished s), ex_reason = r\<rparr>) (exposure_of group' key p)))
              (pages_List st)))"

subsection \<open>Restore\<close>

definition ManagedDefinition :: "string \<Rightarrow> pages_state \<Rightarrow> (string \<times> int) option" where
  "ManagedDefinition slug st =
     Option.bind (pn_current st) (\<lambda>snap. Option.bind (map_of (sn_managed snap) slug)
       (\<lambda>s. map_option (\<lambda>r. (mgd_definition r, mgd_version r)) (sg_stored s)))"

definition NormalizeDefinition :: "page_env \<Rightarrow> string \<Rightarrow> page_service_error + page \<times> string" where
  "NormalizeDefinition e raw =
     (case page_Parse (pe_lib e) raw of
        Inl er \<Rightarrow> Inl (RefusedPageDefinition er)
      | Inr p0 \<Rightarrow>
          (let p = disabled_by_default p0
           in case lb_marshal_page (pe_lib e) p of None \<Rightarrow> Inl EncodingFailed | Some d \<Rightarrow> Inr (p, d)))"

definition page_ValidateRestore ::
    "page_env \<Rightarrow> managed_registry \<Rightarrow> string \<Rightarrow> endpoint_ref list \<Rightarrow> pages_state \<Rightarrow>
     page_service_error + page \<times> string \<times> page_warning list" where
  "page_ValidateRestore e g raw refs st =
     (case mergeRestoredCredential e raw st of
        Inl er \<Rightarrow> Inl er
      | Inr merged \<Rightarrow>
          (case NormalizeDefinition e merged of
             Inl er \<Rightarrow> Inl er
           | Inr (p, d) \<Rightarrow>
               (if (case pn_current st of None \<Rightarrow> False | Some snap \<Rightarrow> map_of (sn_config snap) (pg_slug p) \<noteq> None)
                then Inl (ErrSlugInUse (pg_slug p))
                else (let limit = snd (endpointsAndLimit g st)
                      in Inr (p, d, withTruncationWarning (selectionWarnings p refs) (Select p refs limit) limit)))))"

definition SelectionWarnings :: "managed_registry \<Rightarrow> page \<Rightarrow> pages_state \<Rightarrow> page_warning list" where
  "SelectionWarnings g p st =
     (let (refs, limit) = endpointsAndLimit g st
      in withTruncationWarning (selectionWarnings p refs) (Select p refs limit) limit)"

end
