(* ===== verification/PageFacts.thy ===== *)
theory PageFacts
  imports PageService
begin

text \<open>
  The published snapshot of the status pages and the table of the database: every change, the renames of managed endpoints
  among them, keeps them in agreement.
\<close>

subsection \<open>The invariant\<close>

definition page_rows :: "managed_db \<Rightarrow> string \<Rightarrow> managed_row option" where
  "page_rows db = map_of (db_table db ManagedStatusPagesTable)"

text \<open>What a snapshot has of the file and of its load: the changes keep it.\<close>

definition file_part :: "pages_snapshot \<Rightarrow> pages_snapshot" where
  "file_part snap = snap\<lparr>sn_revision := 0, sn_managed := []\<rparr>"

text \<open>
  Every published managed page is that of its row, and while the table could be listed every row is published. The rows
  are kept by their slug.
\<close>

definition pages_inv :: "page_lib \<Rightarrow> pages_snapshot \<Rightarrow> managed_db \<Rightarrow> pages_state \<Rightarrow> bool" where
  "pages_inv lib F db st \<longleftrightarrow>
     (case pn_current st of
        None \<Rightarrow> False
      | Some snap \<Rightarrow>
          distinct (map fst (sn_managed snap)) \<and>
          file_part snap = F \<and>
          sn_revision snap = pn_revisions st \<and>
          (\<forall>slug s. map_of (sn_managed snap) slug = Some s \<longrightarrow>
             (\<exists>r. page_rows db slug = Some r \<and> s = newManagedState lib r (sn_config snap))) \<and>
          (\<not> sn_unavailable snap \<longrightarrow> (\<forall>slug. map_of (sn_managed snap) slug = None \<longrightarrow> page_rows db slug = None)) \<and>
          (\<forall>slug r. page_rows db slug = Some r \<longrightarrow> mgd_key r = slug))"

lemma pages_invD:
  assumes "pages_inv lib F db st"
  obtains snap where "pn_current st = Some snap" and "distinct (map fst (sn_managed snap))" and "file_part snap = F"
    and "sn_revision snap = pn_revisions st"
    and "\<And>slug s. map_of (sn_managed snap) slug = Some s \<Longrightarrow>
           \<exists>r. page_rows db slug = Some r \<and> s = newManagedState lib r (sn_config snap)"
    and "\<And>slug. \<not> sn_unavailable snap \<Longrightarrow> map_of (sn_managed snap) slug = None \<Longrightarrow> page_rows db slug = None"
    and "\<And>slug r. page_rows db slug = Some r \<Longrightarrow> mgd_key r = slug"
  using assms unfolding pages_inv_def by (auto split: option.splits simp del: map_of_eq_Some_iff)

lemma pages_inv_current:
  "pages_inv lib F db st \<Longrightarrow> \<exists>snap. pn_current st = Some snap \<and> distinct (map fst (sn_managed snap))"
  by (auto simp: pages_inv_def split: option.splits)

lemma newManagedState_sel [simp]:
  "sg_stored (newManagedState lib r config) = Some r"
  "sg_slug (newManagedState lib r config) = mgd_key r"
  "sg_origin (newManagedState lib r config) = PageOfAdmin"
  by (simp_all add: newManagedState_def Let_def split: option.split sum.split)

lemma newManagedState_page:
  "sg_page (newManagedState lib r config) = Some p \<longleftrightarrow>
   map_of config (mgd_key r) = None \<and> page_Parse lib (mgd_definition r) = Inr p \<and> pg_slug p = mgd_key r"
  by (auto simp: newManagedState_def Let_def split: option.splits sum.splits if_splits)

lemma cong_rows: "page_rows db' = page_rows db \<Longrightarrow> pages_inv lib F db' st = pages_inv lib F db st"
  by (simp only: pages_inv_def)

text \<open>A publication after a change of some rows of the table.\<close>

lemma publish_inv:
  assumes inv: "pages_inv lib F db st" and current: "pn_current st = Some snap"
    and dist: "distinct (map fst m)"
    and same: "\<And>slug. slug \<notin> S \<Longrightarrow> map_of m slug = map_of (sn_managed snap) slug \<and> page_rows db' slug = page_rows db slug"
    and changed: "\<And>slug. slug \<in> S \<Longrightarrow> map_of m slug = map_option (\<lambda>r. newManagedState lib r (sn_config snap)) (page_rows db' slug)"
    and keys: "\<And>slug r. slug \<in> S \<Longrightarrow> page_rows db' slug = Some r \<Longrightarrow> mgd_key r = slug"
  shows "pages_inv lib F db' (publish_pages (cloneCurrentSnapshot st\<lparr>sn_managed := m\<rparr>) st)"
proof -
  let ?snap = "snap\<lparr>sn_revision := Suc (pn_revisions st), sn_managed := m\<rparr>"
  obtain snap' where I: "pn_current st = Some snap'" "file_part snap' = F"
    "\<And>slug s. map_of (sn_managed snap') slug = Some s \<Longrightarrow>
       \<exists>r. page_rows db slug = Some r \<and> s = newManagedState lib r (sn_config snap')"
    "\<And>slug. \<not> sn_unavailable snap' \<Longrightarrow> map_of (sn_managed snap') slug = None \<Longrightarrow> page_rows db slug = None"
    "\<And>slug r. page_rows db slug = Some r \<Longrightarrow> mgd_key r = slug"
    by (rule pages_invD [OF inv]) blast
  have snap: "snap' = snap" using I(1) current by simp
  have agree: "\<exists>r. page_rows db' slug = Some r \<and> s = newManagedState lib r (sn_config snap)" if "map_of m slug = Some s" for slug s
  proof (cases "slug \<in> S")
    case True
    then show ?thesis using changed [OF True] that by (cases "page_rows db' slug") auto
  next
    case False
    then show ?thesis using same [OF False] I(3) [of slug s] that snap by simp
  qed
  have complete: "page_rows db' slug = None" if "\<not> sn_unavailable snap" "map_of m slug = None" for slug
  proof (cases "slug \<in> S")
    case True
    then show ?thesis using changed [OF True] that by (cases "page_rows db' slug") auto
  next
    case False
    then show ?thesis using same [OF False] I(4) [of slug] that snap by simp
  qed
  have key: "mgd_key r = slug" if "page_rows db' slug = Some r" for slug r
    using that keys [of slug r] same [of slug] I(5) [of slug r] by (cases "slug \<in> S") auto
  have "publish_pages (cloneCurrentSnapshot st\<lparr>sn_managed := m\<rparr>) st =
      st\<lparr>pn_revisions := Suc (pn_revisions st), pn_current := Some ?snap\<rparr>"
    by (cases snap) (simp add: publish_pages_def cloneCurrentSnapshot_def current)
  then show ?thesis unfolding pages_inv_def using dist agree complete key I(2) snap by (simp add: file_part_def del: map_of_eq_Some_iff)
qed

subsection \<open>The changes of the pages\<close>

lemma publishManaged_inv:
  assumes inv: "pages_inv lib F db st" and lib: "pe_lib e = lib"
    and rows: "page_rows db' = (page_rows db)(mgd_key r \<mapsto> r)" and pub: "publishManaged e r st = (s, st')"
  shows "pages_inv lib F db' st'"
proof -
  obtain snap where current: "pn_current st = Some snap" and dist: "distinct (map fst (sn_managed snap))"
    using pages_inv_current [OF inv] by blast
  let ?m = "alist_put (mgd_key r) (newManagedState lib r (sn_config snap)) (sn_managed snap)"
  have "st' = publish_pages (cloneCurrentSnapshot st\<lparr>sn_managed := ?m\<rparr>) st"
    using pub by (auto simp: publishManaged_def Let_def lib cloneCurrentSnapshot_def current)
  moreover have "pages_inv lib F db' (publish_pages (cloneCurrentSnapshot st\<lparr>sn_managed := ?m\<rparr>) st)"
    by (rule publish_inv [OF inv current, where S = "{mgd_key r}"]) (use dist rows in auto)
  ultimately show ?thesis by simp
qed

text \<open>Faults of the database belong to one change: the invariant does not depend on them.\<close>

definition faulty :: "tx_fault \<Rightarrow> pages_system \<Rightarrow> pages_system" where
  "faulty fault sys = ((fst sys)\<lparr>db_tx := fault\<rparr>, snd sys)"

lemma page_rows_update [simp]:
  "page_rows (db\<lparr>db_tx := f\<rparr>) = page_rows db"
  "page_rows (db\<lparr>db_table := (db_table db)(ManagedStatusPagesTable := rows)\<rparr>) = map_of rows"
  by (simp_all add: page_rows_def)

lemma page_save_inv:
  assumes inv: "pages_inv lib F (fst sys) (snd sys)" and lib: "pe_lib e = lib"
    and save: "page_save e p v author sys = (res, sys')"
  shows "pages_inv lib F (fst sys') (snd sys')"
proof -
  obtain db st where sys: "sys = (db, st)" by (cases sys)
  show ?thesis
  proof (cases "lb_marshal_page (pe_lib e) p")
    case None
    then show ?thesis using save inv by (simp add: page_save_def sys)
  next
    case (Some enc)
    let ?w = "UpdateManagedStatusPage (pe_now e) (page_row p enc author) v
        (no_apply :: unit \<Rightarrow> unit option \<times> unit) db ()"
    obtain db' where w: "?w = (fst ?w, db', ())" by (cases ?w) auto
    show ?thesis
    proof (cases "fst ?w")
      case (Inl er)
      then have "db' = db" using table_update_failure w unfolding UpdateManagedStatusPage_def by metis
      moreover have "sys' = (db', st)" using save Some w Inl by (auto simp: page_save_def sys split: prod.splits sum.splits)
      ultimately show ?thesis using inv sys by simp
    next
      case (Inr stored)
      obtain s st' where pub: "publishManaged e stored st = (s, st')" by fastforce
      have "sys' = (db', st')" using save Some w Inr pub by (auto simp: page_save_def sys split: prod.splits sum.splits)
      moreover obtain old where "stored = updated_row (pe_now e) (page_row p enc author) v old"
        "db' = db\<lparr>db_table := (db_table db)(ManagedStatusPagesTable :=
           alist_put (pg_slug p) stored (db_table db ManagedStatusPagesTable))\<rparr>"
        using table_update_success [of ManagedStatusPagesTable "pe_now e" "page_row p enc author" v no_apply db "()" stored db' "()"]
          w Inr unfolding UpdateManagedStatusPage_def page_row_def by auto
      then have "page_rows db' = (page_rows db)(mgd_key stored \<mapsto> stored)"
        by (auto simp: page_rows_def updated_row_def page_row_def)
      ultimately show ?thesis using publishManaged_inv [OF _ lib _ pub, of F db db'] inv sys by simp
    qed
  qed
qed

lemma pages_Create_inv:
  assumes inv: "pages_inv lib F (fst sys) (snd sys)" and lib: "pe_lib e = lib"
    and create: "pages_Create e raw author sys = (res, sys')"
  shows "pages_inv lib F (fst sys') (snd sys')"
proof -
  obtain db st where sys: "sys = (db, st)" by (cases sys)
  consider "sys' = sys" | p enc where "lb_marshal_page (pe_lib e) p = Some enc"
    "(case CreateManagedStatusPage (pe_now e) (page_row p enc author)
        (no_apply :: unit \<Rightarrow> unit option \<times> unit) db () of
      (Inl er, db', _) \<Rightarrow> (Inl (page_tx_error er), db', st)
    | (Inr stored, db', _) \<Rightarrow> (let (s, st') = publishManaged e stored st in (Inr s, db', st'))) = (res, sys')"
    using create unfolding pages_Create_def sys Let_def by (auto split: if_splits sum.splits option.splits)
  then show ?thesis
  proof cases
    case (2 p enc)
    let ?w = "CreateManagedStatusPage (pe_now e) (page_row p enc author)
        (no_apply :: unit \<Rightarrow> unit option \<times> unit) db ()"
    obtain db' where w: "?w = (fst ?w, db', ())" by (cases ?w) auto
    show ?thesis
    proof (cases "fst ?w")
      case (Inl er)
      then have "db' = db" using table_create_failure w unfolding CreateManagedStatusPage_def by metis
      moreover have "sys' = (db', st)" using 2(2) w Inl by (auto split: prod.splits sum.splits)
      ultimately show ?thesis using inv sys by simp
    next
      case (Inr stored)
      obtain s st' where pub: "publishManaged e stored st = (s, st')" by fastforce
      have "sys' = (db', st')" using 2(2) w Inr pub by (auto split: prod.splits sum.splits)
      moreover have c: "map_of (db_table db ManagedStatusPagesTable) (pg_slug p) = None"
        "stored = (page_row p enc author)\<lparr>mgd_version := 1, mgd_created_at := pe_now e, mgd_updated_at := pe_now e\<rparr>"
        "db' = db\<lparr>db_table := (db_table db)(ManagedStatusPagesTable :=
           db_table db ManagedStatusPagesTable @ [(pg_slug p, stored)])\<rparr>"
        using table_create_success [of ManagedStatusPagesTable "pe_now e" "page_row p enc author" no_apply db "()" stored db' "()"]
          w Inr unfolding CreateManagedStatusPage_def by (auto simp: page_row_def)
      have "mgd_key stored = pg_slug p" by (simp add: c(2) page_row_def)
      then have "page_rows db' = (page_rows db)(mgd_key stored \<mapsto> stored)"
        using c(1,3) by (auto simp: page_rows_def map_add_def fun_eq_iff split: option.split)
      ultimately show ?thesis using publishManaged_inv [OF _ lib _ pub, of F db db'] inv sys by simp
    qed
  qed (use inv in simp)
qed

lemma pages_Delete_inv:
  assumes inv: "pages_inv lib F (fst sys) (snd sys)" and del: "pages_Delete e slug v sys = (res, sys')"
  shows "pages_inv lib F (fst sys') (snd sys')"
proof -
  obtain db st where sys: "sys = (db, st)" by (cases sys)
  obtain snap where current: "pn_current st = Some snap" and keys: "distinct (map fst (sn_managed snap))"
    using pages_inv_current [OF inv] sys by auto
  let ?w = "DeleteManagedStatusPage slug v (no_apply :: unit \<Rightarrow> unit option \<times> unit) db ()"
  let ?m = "alist_del slug (sn_managed snap)"
  obtain db' where w: "?w = (fst ?w, db', ())" by (cases ?w) auto
  have result: "sys' = sys \<or> fst ?w \<noteq> None \<and> sys' = (db', st) \<or>
      fst ?w = None \<and> sys' = (db', publish_pages (cloneCurrentSnapshot st\<lparr>sn_managed := ?m\<rparr>) st)"
    using del w by (auto simp: pages_Delete_def sys cloneCurrentSnapshot_def current split: if_splits sum.splits option.splits prod.splits)
  show ?thesis
  proof (cases "fst ?w")
    case None
    then have "db' = db\<lparr>db_table := (db_table db)(ManagedStatusPagesTable := alist_del slug (db_table db ManagedStatusPagesTable))\<rparr>"
      using w by (auto simp: DeleteManagedStatusPage_def table_delete_def inTransaction_def on_table_def delete_row_def no_apply_def
          split: if_splits sum.splits option.splits)
    then have rows: "page_rows db' = (page_rows db)(slug := None)" by (auto simp: page_rows_def)
    have "pages_inv lib F db' (publish_pages (cloneCurrentSnapshot st\<lparr>sn_managed := ?m\<rparr>) st)"
      by (rule publish_inv [of lib F db st snap _ "{slug}"])
        (use inv sys current keys rows in \<open>auto simp: distinct_alist_del\<close>)
    then show ?thesis using result inv sys None by auto
  next
    case (Some er)
    then have "db' = db" using w inTransaction_failure unfolding DeleteManagedStatusPage_def table_delete_def by metis
    then show ?thesis using result inv sys Some by auto
  qed
qed

subsection \<open>The renames\<close>

text \<open>The pages of a plan as the transaction writes them.\<close>

definition renamed_rows :: "time \<Rightarrow> (managed_row \<times> int) list \<Rightarrow> (string \<times> managed_row) list" where
  "renamed_rows now ups = map (\<lambda>(page, v). (mgd_key page, page\<lparr>mgd_version := v + 1, mgd_updated_at := now\<rparr>)) ups"

lemma renamed_rows_simps [simp]:
  "renamed_rows now [] = []"
  "renamed_rows now ((page, v) # ups) = (mgd_key page, page\<lparr>mgd_version := v + 1, mgd_updated_at := now\<rparr>) # renamed_rows now ups"
  by (simp_all add: renamed_rows_def)

lemma keys_renamed [simp]: "map fst (renamed_rows now ups) = map (mgd_key \<circ> fst) ups"
  by (induction ups) auto

lemma update_pages_rows:
  assumes "update_pages fault now n ups rows = Inr rows'" and "distinct (map (mgd_key \<circ> fst) ups)"
    and "\<And>page v old. (page, v) \<in> set ups \<Longrightarrow> map_of rows (mgd_key page) = Some old \<Longrightarrow> mgd_created_at page = mgd_created_at old"
  shows "map_of rows' = map_of rows ++ map_of (renamed_rows now ups)"
  using assms
proof (induction ups arbitrary: n rows)
  case (Cons u ups)
  obtain page v where u: "u = (page, v)" by (cases u)
  obtain old where old: "map_of rows (mgd_key page) = Some old"
    and rest: "update_pages fault now (Suc n) ups (alist_put (mgd_key page) (updated_row now page v old) rows) = Inr rows'"
    using Cons.prems(1) unfolding u update_pages.simps by (auto split: if_splits option.splits)
  have new: "mgd_key page \<notin> (mgd_key \<circ> fst) ` set ups" using Cons.prems(2) by (simp add: u)
  have "updated_row now page v old = page\<lparr>mgd_version := v + 1, mgd_updated_at := now\<rparr>"
    using Cons.prems(3) [of page v old] old by (cases page) (simp add: u updated_row_def)
  moreover have "map_of rows' = map_of (alist_put (mgd_key page) (updated_row now page v old) rows) ++ map_of (renamed_rows now ups)"
  proof (rule Cons.IH [OF rest])
    show "distinct (map (mgd_key \<circ> fst) ups)" using Cons.prems(2) by (simp add: comp_def)
    fix page' v' old'
    assume "(page', v') \<in> set ups"
      and "map_of (alist_put (mgd_key page) (updated_row now page v old) rows) (mgd_key page') = Some old'"
    moreover from this have "mgd_key page' \<noteq> mgd_key page" using new by force
    ultimately show "mgd_created_at page' = mgd_created_at old'" using Cons.prems(3) [of page' v' old'] by (auto simp: u)
  qed
  moreover have "map_of (renamed_rows now ups) (mgd_key page) = None"
  proof -
    have "fst ` set (renamed_rows now ups) = (mgd_key \<circ> fst) ` set ups" by (metis keys_renamed set_map)
    with new show ?thesis by (simp add: map_of_eq_None_iff)
  qed
  ultimately show ?case by (auto simp: u fun_eq_iff map_add_def split: option.split)
qed (simp add: map_add_def fun_eq_iff)

lemma plan_of_states:
  "plan_page_updates e oldKey newKey author ss = Some ups \<Longrightarrow>
   distinct (map sg_slug ss) \<Longrightarrow>
   distinct (map (mgd_key \<circ> fst) ups) \<and> (mgd_key \<circ> fst) ` set ups \<subseteq> sg_slug ` set ss \<and>
   (\<forall>page v. (page, v) \<in> set ups \<longrightarrow> (\<exists>s \<in> set ss. \<exists>row. sg_stored s = Some row \<and> mgd_key page = sg_slug s \<and>
      mgd_created_at page = mgd_created_at row))"
proof (induction ss arbitrary: ups)
  case (Cons s ss)
  have dist: "distinct (map sg_slug ss)" "sg_slug s \<notin> sg_slug ` set ss" using Cons.prems(2) by auto
  consider "plan_page_updates e oldKey newKey author ss = Some ups"
    | row enc us where "sg_stored s = Some row" "plan_page_updates e oldKey newKey author ss = Some us"
      "ups = (\<lparr>mgd_key = sg_slug s, mgd_definition = enc, mgd_version = 0,
          mgd_created_at = mgd_created_at row, mgd_updated_at = zero_time, mgd_updated_by = author\<rparr>, mgd_version row) # us"
    using Cons.prems(1) by (auto split: option.splits sum.splits)
  then show ?case
  proof cases
    case 1
    then show ?thesis using Cons.IH [OF 1 dist(1)] by auto
  next
    case (2 row enc us)
    then show ?thesis using Cons.IH [OF 2(2) dist(1)] dist(2) by auto
  qed
qed simp

lemma sortedStates_slugs:
  assumes "\<And>k s. (k, s) \<in> set m \<Longrightarrow> sg_slug s = k" and "distinct (map fst m)"
  shows "distinct (map sg_slug (sortedStates m))"
proof -
  have "map (sg_slug \<circ> snd) m = map fst m" using assms(1) by (auto intro!: map_cong)
  then have "distinct (map sg_slug (map snd m))" using assms(2) unfolding map_map by (simp only:)
  then have "inj_on sg_slug (set (map snd m)) \<and> distinct (map snd m)" by (simp only: distinct_map)
  then show ?thesis by (simp add: sortedStates_def distinct_map)
qed

lemma fold_put_states:
  assumes "distinct (map mgd_key rows)"
  shows "map_of (fold (\<lambda>row m. alist_put (mgd_key row) (f row) m) rows m) =
    map_of m ++ map_of (map (\<lambda>row. (mgd_key row, f row)) rows)"
  using assms
proof (induction rows arbitrary: m)
  case (Cons row rows)
  have "map_of (map (\<lambda>row. (mgd_key row, f row)) rows) (mgd_key row) = None"
    using Cons.prems by (auto simp: map_of_eq_None_iff)
  with Cons show ?case by (auto simp: fun_eq_iff map_add_def split: option.split)
qed (simp add: map_add_def fun_eq_iff)

lemma keyed_None: "slug \<notin> mgd_key ` set rows \<Longrightarrow> map_of (map (\<lambda>row. (mgd_key row, f row)) rows) slug = None"
  by (induction rows) auto

lemma keyed_Some:
  "row \<in> set rows \<Longrightarrow> distinct (map mgd_key rows) \<Longrightarrow>
   map_of (map (\<lambda>row. (mgd_key row, f row)) rows) (mgd_key row) = Some (f row)"
proof (induction rows)
  case (Cons a rows)
  then show ?case by (cases "a = row") (auto simp del: map_of_eq_Some_iff intro: rev_image_eqI)
qed simp

lemma commit_inv:
  assumes inv: "pages_inv lib F db st" and lib: "pe_lib e = lib" and current: "pn_current st = Some snap"
    and rows: "page_rows db' = page_rows db ++ map_of (map (\<lambda>row. (mgd_key row, row)) rows)"
    and dist: "distinct (map mgd_key rows)"
  shows "pages_inv lib F db' (commit_key_rename e rows st)"
proof (cases "rows = []")
  case True
  then have "page_rows db' = page_rows db" using rows by simp
  then show ?thesis using inv True cong_rows [of db' db lib F st] by (simp add: commit_key_rename_def)
next
  case False
  let ?new = "\<lambda>row. newManagedState lib row (sn_config snap)"
  let ?m = "fold (\<lambda>row m. alist_put (mgd_key row) (?new row) m) rows (sn_managed snap)"
  let ?S = "mgd_key ` set rows"
  have clone: "cloneCurrentSnapshot st = snap\<lparr>sn_revision := 0\<rparr>" by (simp add: cloneCurrentSnapshot_def current)
  have "commit_key_rename e rows st = publish_pages (cloneCurrentSnapshot st\<lparr>sn_managed := ?m\<rparr>) st"
    using False by (simp add: commit_key_rename_def clone lib Let_def)
  moreover have "pages_inv lib F db' (publish_pages (cloneCurrentSnapshot st\<lparr>sn_managed := ?m\<rparr>) st)"
  proof (rule publish_inv [OF inv current, where S = ?S])
    show "distinct (map fst ?m)"
      by (rule fold_put_distinct) (use pages_inv_current [OF inv] current in auto)
    have eq: "map_of ?m = map_of (sn_managed snap) ++ map_of (map (\<lambda>row. (mgd_key row, ?new row)) rows)"
      by (rule fold_put_states [OF dist])
    {
      fix slug assume out: "slug \<notin> ?S"
      show "map_of ?m slug = map_of (sn_managed snap) slug \<and> page_rows db' slug = page_rows db slug"
        by (simp add: eq rows map_add_def keyed_None [OF out])
    next
      fix slug assume "slug \<in> ?S"
      then obtain row where row: "row \<in> set rows" "mgd_key row = slug" by blast
      show "map_of ?m slug = map_option ?new (page_rows db' slug)"
        using keyed_Some [OF row(1) dist, of ?new] keyed_Some [OF row(1) dist, of "\<lambda>row. row"]
        by (simp add: eq rows map_add_def row(2) del: map_of_eq_Some_iff)
      fix r assume "page_rows db' slug = Some r"
      then show "mgd_key r = slug" using row keyed_Some [OF row(1) dist, of "\<lambda>row. row"] by (simp add: rows map_add_def)
    }
  qed
  ultimately show ?thesis by simp
qed

end
