(* ===== verification/PageSafety.thy ===== *)
theory PageSafety
  imports PageFacts ManagedServiceSafety
begin

text \<open>
  The changes of the administration, of the pages and of the managed endpoints, in any order: the published pages keep
  being those of the table, also when a rename writes pages in the transaction of the endpoint.
\<close>

subsection \<open>The endpoints\<close>

definition site_inv :: "page_lib \<Rightarrow> pages_snapshot \<Rightarrow> pages_state service_state \<Rightarrow> bool" where
  "site_inv lib F sv \<longleftrightarrow> pages_inv lib F (mo_store (sv_monitor sv)) (sv_pages sv)"

text \<open>A change that leaves the pages and their table alone.\<close>

definition same_pages :: "'p service_state \<Rightarrow> 'p service_state \<Rightarrow> bool" where
  "same_pages sv sv' \<longleftrightarrow>
     page_rows (mo_store (sv_monitor sv')) = page_rows (mo_store (sv_monitor sv)) \<and> sv_pages sv' = sv_pages sv"

lemma same_pages_refl [simp]: "same_pages sv sv"
  by (simp add: same_pages_def)

lemma same_pages_inv: "same_pages sv sv' \<Longrightarrow> site_inv lib F sv \<Longrightarrow> site_inv lib F sv'"
  unfolding same_pages_def site_inv_def using cong_rows by metis

lemma same_tables_rows: "same_tables db db' \<Longrightarrow> page_rows db' = page_rows db"
  by (simp add: same_tables_def page_rows_def)

lemma on_endpoints_rows: "on_table ManagedEndpointsTable f db = Inr db' \<Longrightarrow> page_rows db' = page_rows db"
  by (auto simp: on_table_def page_rows_def split: sum.splits)

lemma transaction_rows:
  assumes "inTransaction w f db m = (e, db', m')" and "\<And>tx. w db = Inr tx \<Longrightarrow> page_rows tx = page_rows db"
  shows "page_rows db' = page_rows db"
  using assms by (auto simp: inTransaction_def split: if_splits sum.splits prod.splits option.splits)

lemma create_rows: "CreateManagedEndpoint now row f db m = (res, db', m') \<Longrightarrow> page_rows db' = page_rows db"
proof -
  let ?w = "on_table ManagedEndpointsTable (insert_row ManagedEndpointsTable (db_tx db) now row)"
  assume "CreateManagedEndpoint now row f db m = (res, db', m')"
  then obtain e where "inTransaction ?w f db m = (e, db', m')"
    by (auto simp: CreateManagedEndpoint_def table_create_def written_def split: prod.splits option.splits)
  then show ?thesis by (rule transaction_rows) (rule on_endpoints_rows)
qed

lemma update_rows: "UpdateManagedEndpoint now row v f db m = (res, db', m') \<Longrightarrow> page_rows db' = page_rows db"
proof -
  let ?w = "on_table ManagedEndpointsTable (update_row ManagedEndpointsTable (db_tx db) now row v)"
  assume "UpdateManagedEndpoint now row v f db m = (res, db', m')"
  then obtain e where "inTransaction ?w f db m = (e, db', m')"
    by (auto simp: UpdateManagedEndpoint_def table_update_def written_def split: prod.splits option.splits)
  then show ?thesis by (rule transaction_rows) (rule on_endpoints_rows)
qed

lemma delete_rows: "DeleteManagedEndpoint key v b f db m = (res, db', m') \<Longrightarrow> page_rows db' = page_rows db"
  unfolding DeleteManagedEndpoint_def
  by (erule transaction_rows) (auto simp: delete_write_def page_rows_def on_table_def split: if_splits sum.splits)

lemma restored_rows: "restoreTriggeredAlerts (db_ops sha) sha p db = (p', db') \<Longrightarrow> page_rows db' = page_rows db"
  using restoreTriggeredAlerts_target same_tables_rows by blast

lemma service_create_pages: "same_pages sv (snd (service_create se raw author generate sv))"
  unfolding service_create_def Let_def
  by (auto simp: same_pages_def dest!: create_rows restored_rows split: if_splits sum.splits prod.splits)

lemma service_Delete_pages: "same_pages sv (snd (service_Delete se key v sv))"
  unfolding service_Delete_def Let_def ForgetExternalEndpoint_def
  by (auto simp: same_pages_def dest!: delete_rows split: if_splits sum.splits prod.splits option.splits)

subsection \<open>The renames of endpoints\<close>

text \<open>The written pages of a plan are those of the commit.\<close>

lemma written_renamed: "map (\<lambda>row. (mgd_key row, row)) (written_pages now plan) = renamed_rows now (kn_pages plan)"
  by (auto simp: written_pages_def renamed_rows_def)

lemma renamed_pages_inv:
  assumes inv: "pages_inv lib F db st" and lib: "pe_lib e = lib"
    and prepare: "PrepareKeyRename e oldKey newKey author st = Inr (plan, st')"
    and update: "update_pages fault now n (kn_pages plan) (db_table db ManagedStatusPagesTable) = Inr rows'"
    and rows': "page_rows db' = map_of rows'"
  shows "pages_inv lib F db' (commit_key_rename e (written_pages now plan) st')"
proof -
  obtain snap where snap: "pn_current st = Some snap" "distinct (map fst (sn_managed snap))"
    and agree: "\<And>slug s. map_of (sn_managed snap) slug = Some s \<Longrightarrow>
       \<exists>r. page_rows db slug = Some r \<and> s = newManagedState lib r (sn_config snap)"
    and keys: "\<And>slug r. page_rows db slug = Some r \<Longrightarrow> mgd_key r = slug"
    by (rule pages_invD [OF inv]) blast
  let ?ss = "sortedStates (sn_managed snap)"
  have plan: "plan_page_updates e oldKey newKey author ?ss = Some (kn_pages plan)" and st': "st' = st"
    using prepare by (auto simp: PrepareKeyRename_def snap(1) split: option.splits)
  have state: "sg_slug s = slug \<and> (\<exists>r. page_rows db slug = Some r \<and> s = newManagedState lib r (sn_config snap))"
    if "(slug, s) \<in> set (sn_managed snap)" for slug s
  proof -
    have "map_of (sn_managed snap) slug = Some s" using that snap(2) by simp
    from agree [OF this] keys show ?thesis by auto
  qed
  have dist: "distinct (map sg_slug ?ss)"
    by (rule sortedStates_slugs [OF conjunct1 [OF state] snap(2)])
  note P = plan_of_states [OF plan dist]
  have created: "mgd_created_at page = mgd_created_at old"
    if mem: "(page, v) \<in> set (kn_pages plan)" and old: "map_of (db_table db ManagedStatusPagesTable) (mgd_key page) = Some old" for page v old
  proof -
    obtain s row where s: "s \<in> set ?ss" "sg_stored s = Some row" "mgd_key page = sg_slug s" "mgd_created_at page = mgd_created_at row"
      using P [THEN conjunct2, THEN conjunct2, rule_format, OF mem] by auto
    then obtain slug where "(slug, s) \<in> set (sn_managed snap)" by (auto simp: sortedStates_def)
    from state [OF this] obtain r where "sg_slug s = slug" "page_rows db slug = Some r" "s = newManagedState lib r (sn_config snap)"
      by blast
    then show ?thesis using s(2-4) old by (simp add: page_rows_def)
  qed
  have "page_rows db' = page_rows db ++ map_of (map (\<lambda>row. (mgd_key row, row)) (written_pages now plan))"
  proof -
    have "map_of rows' = page_rows db ++ map_of (renamed_rows now (kn_pages plan))"
      unfolding page_rows_def by (rule update_pages_rows [OF update P [THEN conjunct1]]) (rule created)
    then show ?thesis by (simp only: rows' written_renamed)
  qed
  moreover have "distinct (map mgd_key (written_pages now plan))"
  proof -
    have "map mgd_key (written_pages now plan) = map (mgd_key \<circ> fst) (kn_pages plan)" by (auto simp: written_pages_def)
    then show ?thesis using P by simp
  qed
  ultimately show ?thesis unfolding st' by (rule commit_inv [OF inv lib snap(1)])
qed

lemma rename_rows:
  assumes "RenameManagedEndpoint now row v rn f db m = (Inr stored, db', m')"
  shows "\<exists>rows'. update_pages (db_tx db) now 5 (rn_status_pages rn) (db_table db ManagedStatusPagesTable) = Inr rows' \<and>
    page_rows db' = map_of rows'"
proof -
  have "rename_write now row v rn db = Inr db'"
    using assms by (auto simp: RenameManagedEndpoint_def written_Inr inTransaction_success)
  then show ?thesis
    by (auto simp: rename_write_def Let_def page_rows_def split: if_splits option.splits sum.splits)
qed

lemma write_update_db:
  assumes "write_update se u key v row plan p db reg = (Inl er, db', m')"
  shows "db' = db"
proof -
  obtain w where "inTransaction w (apply_start p) db (reg, False) = (Some er, db', m')"
    using assms by (auto simp: write_update_def RenameManagedEndpoint_def UpdateManagedEndpoint_def table_update_def
        written_Inl split: if_splits)
  then show ?thesis by (rule inTransaction_failure)
qed

text \<open>The participant is that of the pages, or there is none.\<close>

definition pages_participate :: "page_lib \<Rightarrow> pages_state service_env \<Rightarrow> bool" where
  "pages_participate lib se \<longleftrightarrow> (\<exists>e. pe_lib e = lib \<and> se_participant se = Some (keyRenameParticipant e))"

lemma plan_rename_pages:
  assumes "plan_rename se needed key newKey author st = Inr (plan, st')"
    and "se_participant se = Some (keyRenameParticipant e)"
  shows "st' = st \<and> (case plan of None \<Rightarrow> True | Some k \<Rightarrow> needed \<and> PrepareKeyRename e key newKey author st = Inr (k, st))"
proof (cases needed)
  case True
  obtain k st1 where r: "PrepareKeyRename e key newKey author st = Inr (k, st1)" "plan = Some k" "st' = st1"
    using assms True by (auto simp: plan_rename_def keyRenameParticipant_def split: sum.splits)
  then have "st1 = st" by (auto simp: PrepareKeyRename_def split: option.splits)
  then show ?thesis using r True by simp
qed (use assms in \<open>simp add: plan_rename_def\<close>)

lemma apply_update_site:
  assumes inv: "site_inv lib F sv" and part: "pages_participate lib se"
    and step: "apply_update se u key v author sv = (res, sv')"
  shows "site_inv lib F sv'"
proof -
  obtain e where lib: "pe_lib e = lib" and kp: "se_participant se = Some (keyRenameParticipant e)"
    using part by (auto simp: pages_participate_def)
  let ?mon = "sv_monitor sv"
  define newKey where "newKey = parsed_Key (pr_parsed (up_prepared u))"
  define previous where "previous = live_parsed key (ms_parsed (up_state u)) (mo_registry ?mon)"
  define wasMonitored where "wasMonitored = (parsed_IsValid previous \<and> IsEndpointMonitored key (mo_registry ?mon))"
  define needed where "needed = (up_renaming u \<and> \<not> state_InConflict (up_state u) \<and> newKey \<noteq> key)"
  define row where "row = \<lparr>mgd_key = newKey, mgd_definition = pr_definition (up_prepared u), mgd_version = 0,
      mgd_created_at = zero_time, mgd_updated_at = zero_time, mgd_updated_by = author\<rparr>"
  note defs = newKey_def [symmetric] previous_def [symmetric] wasMonitored_def [symmetric] needed_def [symmetric] row_def [symmetric]
  show ?thesis
  proof (cases "stop_previous wasMonitored key (mo_registry ?mon)")
    case (Inl er)
    then show ?thesis using step inv by (simp add: apply_update_def Let_def defs)
  next
    case (Inr reg)
    obtain p db where alerts: "update_alerts se u previous (mo_store ?mon) = (p, db)" by fastforce
    have rows: "page_rows db = page_rows (mo_store ?mon)"
      using update_alerts_target [OF alerts] same_tables_rows by blast
    have inv': "pages_inv lib F db (sv_pages sv)"
      using inv cong_rows [OF rows, of lib F "sv_pages sv"] by (simp add: site_inv_def)
    show ?thesis
    proof (cases "plan_rename se needed key newKey author (sv_pages sv)")
      case (Inl er)
      then have "sv' = sv\<lparr>sv_monitor := ?mon\<lparr>mo_store := db, mo_registry := restart_previous wasMonitored previous reg\<rparr>\<rparr>"
        using step Inr alerts by (simp add: apply_update_def Let_def defs)
      then show ?thesis using inv' by (simp add: site_inv_def)
    next
      case plan: (Inr x)
      obtain plan pages where x: "x = (plan, pages)" by (cases x)
      note P = plan_rename_pages [OF plan [unfolded x] kp]
      obtain wres db' reg' started where w: "write_update se u key v row plan p db reg = (wres, db', reg', started)"
        by (metis prod_cases4)
      show ?thesis
      proof (cases wres)
        case (Inl er)
        have "sv_pages sv' = sv_pages sv" "mo_store (sv_monitor sv') = db'"
          using step Inr alerts plan x w Inl P
          by (auto simp: apply_update_def Let_def defs discard_plan_def kp keyRenameParticipant_def split: option.splits)
        then show ?thesis using inv' write_update_db [OF w [unfolded Inl]] by (simp add: site_inv_def)
      next
        case (Inr stored)
        have sv': "sv_pages sv' = commit_plan se plan (sv_pages sv)" "mo_store (sv_monitor sv') = db'"
          using step \<open>stop_previous wasMonitored key (mo_registry ?mon) = Inr reg\<close> alerts plan x w Inr P
          by (auto simp: apply_update_def Let_def defs finish_update_def ForgetExternalEndpoint_def)
        show ?thesis
        proof (cases "up_renaming u")
          case False
          then have "plan = None" using P by (auto simp: needed_def split: option.splits)
          moreover have "page_rows db' = page_rows db"
            using w False Inr update_rows by (auto simp: write_update_def)
          ultimately show ?thesis
            using inv' cong_rows [of db' db lib F "sv_pages sv"] sv' by (simp add: site_inv_def commit_plan_def)
        next
          case True
          obtain rows' where u: "update_pages (db_tx db) (se_now se) 5 (case plan of None \<Rightarrow> [] | Some k \<Rightarrow> kn_pages k)
              (db_table db ManagedStatusPagesTable) = Inr rows'" "page_rows db' = map_of rows'"
            using rename_rows w True Inr by (fastforce simp: write_update_def)
          show ?thesis
          proof (cases plan)
            case None
            then have "page_rows db' = page_rows db" using u by (simp add: page_rows_def)
            then show ?thesis
              using inv' cong_rows [of db' db lib F "sv_pages sv"] sv' None by (simp add: site_inv_def commit_plan_def)
          next
            case (Some k)
            then have prepare: "PrepareKeyRename e key newKey author (sv_pages sv) = Inr (k, sv_pages sv)" using P by simp
            have "pages_inv lib F db' (commit_key_rename e (written_pages (se_now se) k) (sv_pages sv))"
              using renamed_pages_inv [OF inv' lib prepare _ u(2)] u(1) Some by simp
            then show ?thesis using sv' Some by (simp add: site_inv_def commit_plan_def kp keyRenameParticipant_def)
          qed
        qed
      qed
    qed
  qed
qed

subsection \<open>Runs\<close>

datatype page_op =
    CreatePage string string
  | UpdatePage string string int string
  | EnablePage string bool int string
  | DeletePage string int

datatype site_op = PageOp page_op | EndpointOp service_op

fun page_change :: "page_env \<Rightarrow> page_op \<Rightarrow> pages_system \<Rightarrow> pages_system" where
  "page_change e (CreatePage raw author) sys = snd (pages_Create e raw author sys)"
| "page_change e (UpdatePage slug raw v author) sys = snd (pages_Update e slug raw v author sys)"
| "page_change e (EnablePage slug enabled v author) sys = snd (pages_SetEnabled e slug enabled v author sys)"
| "page_change e (DeletePage slug v) sys = snd (pages_Delete e slug v sys)"

text \<open>Every change has its own environments and its own fault of the database.\<close>

type_synonym site_env = "page_env \<times> pages_state service_env \<times> tx_fault"

definition with_fault :: "tx_fault \<Rightarrow> 'p service_state \<Rightarrow> 'p service_state" where
  "with_fault fault sv = sv\<lparr>sv_monitor := (sv_monitor sv)\<lparr>mo_store := (mo_store (sv_monitor sv))\<lparr>db_tx := fault\<rparr>\<rparr>\<rparr>"

fun site_step :: "site_env \<Rightarrow> site_op \<Rightarrow> pages_state service_state \<Rightarrow> pages_state service_state" where
  "site_step (e, se, fault) (PageOp op) sv =
     (let sv = with_fault fault sv; (db, st) = page_change e op (mo_store (sv_monitor sv), sv_pages sv)
      in sv\<lparr>sv_monitor := (sv_monitor sv)\<lparr>mo_store := db\<rparr>, sv_pages := st\<rparr>)"
| "site_step (e, se, fault) (EndpointOp op) sv = service_step se op (with_fault fault sv)"

fun site_run :: "(site_env \<times> site_op) list \<Rightarrow> pages_state service_state \<Rightarrow> pages_state service_state" where
  "site_run [] sv = sv"
| "site_run ((env, op) # ops) sv = site_run ops (site_step env op sv)"

definition site_env_ok :: "page_lib \<Rightarrow> site_env \<Rightarrow> bool" where
  "site_env_ok lib env \<longleftrightarrow> (case env of (e, se, fault) \<Rightarrow> pe_lib e = lib \<and> pages_participate lib se)"

lemma pages_Update_cases:
  "pages_Update e slug raw v author sys = (res, sys') \<Longrightarrow> sys' = sys \<or> (\<exists>p. page_save e p v author sys = (res, sys'))"
  by (auto simp: pages_Update_def split: if_splits sum.splits)

lemma pages_SetEnabled_cases:
  "pages_SetEnabled e slug b v author sys = (res, sys') \<Longrightarrow> sys' = sys \<or> (\<exists>p. page_save e p v author sys = (res, sys'))"
  by (auto simp: pages_SetEnabled_def Let_def split: if_splits sum.splits)

lemma page_change_inv:
  assumes inv: "pages_inv lib F (fst sys) (snd sys)" and lib: "pe_lib e = lib"
  shows "pages_inv lib F (fst (page_change e op sys)) (snd (page_change e op sys))"
proof (cases op)
  case (CreatePage raw author)
  obtain res sys' where r: "pages_Create e raw author sys = (res, sys')" by (cases "pages_Create e raw author sys")
  show ?thesis using pages_Create_inv [OF inv lib r] by (simp add: CreatePage r)
next
  case (UpdatePage slug raw v author)
  obtain res sys' where r: "pages_Update e slug raw v author sys = (res, sys')"
    by (cases "pages_Update e slug raw v author sys")
  show ?thesis using pages_Update_cases [OF r] page_save_inv [OF inv lib] inv by (auto simp: UpdatePage r)
next
  case (EnablePage slug b v author)
  obtain res sys' where r: "pages_SetEnabled e slug b v author sys = (res, sys')"
    by (cases "pages_SetEnabled e slug b v author sys")
  show ?thesis using pages_SetEnabled_cases [OF r] page_save_inv [OF inv lib] inv by (auto simp: EnablePage r)
next
  case (DeletePage slug v)
  obtain res sys' where r: "pages_Delete e slug v sys = (res, sys')"
    by (cases "pages_Delete e slug v sys")
  show ?thesis using pages_Delete_inv [OF inv r] by (simp add: DeletePage r)
qed

lemma service_update_site:
  assumes "site_inv lib F sv" and "pages_participate lib se"
  shows "site_inv lib F (snd (service_update se key raw v author sv))"
proof (cases "check_update se (sv_states sv) key raw v")
  case (Inr u)
  obtain res sv' where r: "apply_update se u key v author sv = (res, sv')" by fastforce
  show ?thesis using apply_update_site [OF assms r] by (simp add: service_update_def Inr r)
qed (use assms in \<open>simp add: service_update_def\<close>)

lemma service_step_site:
  assumes inv: "site_inv lib F sv" and part: "pages_participate lib se"
  shows "site_inv lib F (service_step se op sv)"
proof (cases op)
  case (EnableOp key enabled v author)
  obtain res sv' where r: "service_SetEnabled se key enabled v author sv = (res, sv')" by fastforce
  from service_SetEnabled_cases [OF r] show ?thesis
  proof
    assume "\<exists>raw'. service_update se key raw' v author sv = (res, sv')"
    then obtain raw' where "service_update se key raw' v author sv = (res, sv')" by blast
    then show ?thesis
      using service_update_site [OF assms, of key raw' v author] by (simp add: EnableOp service_step_def r)
  qed (use inv in \<open>simp add: EnableOp service_step_def r\<close>)
qed (use inv service_update_site [OF assms] same_pages_inv [OF service_create_pages inv] same_pages_inv [OF service_Delete_pages inv]
    in \<open>simp_all add: service_step_def service_Create_def service_RestoreCreate_def service_Update_def\<close>)

lemma with_fault_inv: "site_inv lib F (with_fault fault sv) = site_inv lib F sv"
proof -
  have "page_rows (mo_store (sv_monitor (with_fault fault sv))) = page_rows (mo_store (sv_monitor sv))"
    by (simp add: with_fault_def page_rows_def)
  from cong_rows [OF this, of lib F "sv_pages sv"] show ?thesis by (simp add: site_inv_def with_fault_def)
qed

lemma site_step_inv:
  assumes inv: "site_inv lib F sv" and ok: "site_env_ok lib env"
  shows "site_inv lib F (site_step env op sv)"
proof -
  obtain e se fault where env: "env = (e, se, fault)" by (cases env)
  let ?sv = "with_fault fault sv"
  have inv': "site_inv lib F ?sv" using inv by (simp add: with_fault_inv)
  have lib: "pe_lib e = lib" and part: "pages_participate lib se" using ok by (simp_all add: site_env_ok_def env)
  show ?thesis
  proof (cases op)
    case (PageOp op')
    obtain db st where r: "page_change e op' (mo_store (sv_monitor ?sv), sv_pages ?sv) = (db, st)" by fastforce
    have "pages_inv lib F db st"
      using page_change_inv [of lib F "(mo_store (sv_monitor ?sv), sv_pages ?sv)" e op'] inv' lib r by (simp add: site_inv_def)
    then show ?thesis using r by (simp add: PageOp env Let_def site_inv_def)
  next
    case (EndpointOp op')
    then show ?thesis using service_step_site [OF inv' part] by (simp add: env)
  qed
qed

lemma site_run_inv:
  "site_inv lib F sv \<Longrightarrow> \<forall>x \<in> set ops. site_env_ok lib (fst x) \<Longrightarrow> site_inv lib F (site_run ops sv)"
proof (induction ops arbitrary: sv)
  case (Cons x ops)
  obtain env op where x: "x = (env, op)" by (cases x)
  have "site_env_ok lib env" using Cons.prems(2) by (simp add: x)
  from Cons.IH [OF site_step_inv [OF Cons.prems(1) this]] show ?case using Cons.prems(2) by (simp add: x)
qed simp

subsection \<open>The load\<close>

definition page_table_ok :: "managed_db \<Rightarrow> bool" where
  "page_table_ok db \<longleftrightarrow>
     (let t = db_table db ManagedStatusPagesTable in distinct (map fst t) \<and> (\<forall>(k, row) \<in> set t. mgd_key row = k))"

text \<open>The states of the sections of the file.\<close>

definition file_states :: "pages_config option \<Rightarrow> (string \<times> page_status) list" where
  "file_states pages =
     (case pages of None \<Rightarrow> []
      | Some ps \<Rightarrow> fold (\<lambda>p m. alist_put (pg_slug p)
          \<lparr>sg_origin = PageOfFile, sg_slug = pg_slug p, sg_page = Some p, sg_stored = None, sg_conflict = [],
           sg_error = None\<rparr> m) (List.map_filter id (pgc_pages ps)) [])"

text \<open>What the load takes from the file; \<open>ok\<close>: the table could be listed.\<close>

definition loaded_file :: "config \<Rightarrow> pages_config option \<Rightarrow> bool \<Rightarrow> nat \<Rightarrow> pages_snapshot" where
  "loaded_file c pages ok generation =
     \<lparr>sn_revision = 0, sn_generation = generation, sn_results = maximumPublicResults c,
      sn_maximum = GetMaximumEndpointsPerPage pages, sn_enabled = pages_IsEnabled pages, sn_unavailable = (\<not> ok),
      sn_config = file_states pages, sn_managed = [], sn_endpoints = configEndpointRefs c\<rparr>"

lemma pages_Load_inv:
  assumes "page_table_ok db"
  shows "pages_inv lib (loaded_file c pages (db_tx db \<noteq> TxStatement 0) (Suc (pn_generations st))) db
    (pages_Load lib c pages (Some (ListManagedStatusPages db)) st)"
proof -
  let ?t = "db_table db ManagedStatusPagesTable"
  let ?ok = "db_tx db \<noteq> TxStatement 0"
  let ?new = "\<lambda>row. newManagedState lib row (file_states pages)"
  let ?rows = "if ?ok then map snd (sort_key fst ?t) else []"
  let ?managed = "fold (\<lambda>row m. alist_put (mgd_key row) (?new row) m) ?rows []"
  have t: "distinct (map fst ?t)" "\<And>k row. (k, row) \<in> set ?t \<Longrightarrow> mgd_key row = k"
    using assms by (auto simp: page_table_ok_def Let_def)
  have keys: "map (mgd_key \<circ> snd) (sort_key fst ?t) = map fst (sort_key fst ?t)" using t(2) by auto
  have dist: "distinct (map mgd_key (map snd (sort_key fst ?t)))"
    unfolding map_map keys using t(1) by (simp add: distinct_fst_sort)
  have entries: "map_of (map (\<lambda>row. (mgd_key row, ?new row)) (map snd (sort_key fst ?t))) slug =
      map_option ?new (page_rows db slug)" for slug
  proof -
    have eq: "map (\<lambda>row. (mgd_key row, ?new row)) (map snd (sort_key fst ?t)) =
        map (\<lambda>(k, row). (k, ?new row)) (sort_key fst ?t)"
      using t(2) by auto
    show ?thesis unfolding eq by (simp add: map_of_map map_of_sorted [OF t(1)] page_rows_def)
  qed
  define M where "M = ?managed"
  have managed: "map_of M slug = (if ?ok then map_option ?new (page_rows db slug) else None)" for slug
    using fold_put_states [of ?rows ?new "[]"] dist entries [of slug] by (simp add: M_def map_add_def split: option.split)
  define st' where "st' = st\<lparr>pn_generations := Suc (pn_generations st)\<rparr>"
  define snap where "snap = (loaded_file c pages ?ok (Suc (pn_generations st)))\<lparr>sn_managed := M\<rparr>"
  have load: "pages_Load lib c pages (Some (ListManagedStatusPages db)) st = publish_pages snap st'"
    by (simp add: pages_Load_def Let_def st'_def snap_def M_def loaded_file_def file_states_def
        ListManagedStatusPages_def table_list_def)
  have keyed: "mgd_key r = slug" if "page_rows db slug = Some r" for slug r
    using t(2) map_of_SomeD [OF that [unfolded page_rows_def]] .
  have "distinct (map fst M)" unfolding M_def by (rule fold_put_distinct) simp
  then show ?thesis
    unfolding load pages_inv_def publish_pages_def using managed keyed
    by (auto simp: snap_def loaded_file_def file_part_def simp del: map_of_eq_Some_iff)
qed

end
