(* ===== verification/FailureLimits.thy ===== *)
theory FailureLimits
  imports PageConfig
begin

text \<open>
  The two counters of failed logins: that of \<open>security.basic\<close> (\<^verbatim>\<open>internal/security/limiter.go\<close>), which forgets the client
  whose last failure is the oldest, and that of the status pages (\<open>pageFailureLimiter\<close> of \<^verbatim>\<open>internal/statuspage/auth.go\<close>),
  which counts no new client while it is full. Both open a window with the first failure and block a client that has failed
  too often until its window ends: the locale \<open>failure_counter\<close> is this contract, with the bound that follows from it.
\<close>

subsection \<open>The contract\<close>

text \<open>
  \<open>live k now s\<close> is the count of the open window of the client \<open>k\<close> and the end of the window; \<open>counted\<close> holds when the
  counter has room for a failure of the client.
\<close>

locale failure_counter =
  fixes blocked :: "'k \<Rightarrow> time \<Rightarrow> 's \<Rightarrow> bool"
    and checked :: "'k \<Rightarrow> time \<Rightarrow> 's \<Rightarrow> 's"
    and failed :: "'k \<Rightarrow> time \<Rightarrow> 's \<Rightarrow> 's"
    and live :: "'k \<Rightarrow> time \<Rightarrow> 's \<Rightarrow> (nat \<times> time) option"
    and counted :: "'k \<Rightarrow> time \<Rightarrow> 's \<Rightarrow> bool"
    and limit :: nat
    and window :: duration
    and ok :: "'s \<Rightarrow> bool"
  assumes limit_pos: "0 < limit"
    and checked_ok: "ok s \<Longrightarrow> ok (checked k now s)"
    and failed_ok: "ok s \<Longrightarrow> ok (failed k now s)"
    and live_later: "now \<le> now' \<Longrightarrow> live k now' s =
      (case live k now s of None \<Rightarrow> None | Some (n, e) \<Rightarrow> if now' < e then Some (n, e) else None)"
    and live_end: "live k now s = Some (n, e) \<Longrightarrow> now < e"
    and blocked_iff: "ok s \<Longrightarrow> blocked k now s \<longleftrightarrow> (\<exists>n e. live k now s = Some (n, e) \<and> limit \<le> n)"
    and live_checked: "ok s \<Longrightarrow> live k' now (checked k now s) = live k' now s"
    and live_failed: "ok s \<Longrightarrow> counted k now s \<Longrightarrow> live k now (failed k now s) =
      (case live k now s of None \<Rightarrow> Some (1, now + window) | Some (n, e) \<Rightarrow> Some (Suc n, e))"
    and live_failed_other: "ok s \<Longrightarrow> counted k now s \<Longrightarrow> k' \<noteq> k \<Longrightarrow> live k' now (failed k now s) = live k' now s"
    and window_pos: "0 < window"
begin

text \<open>An attempt: the check, the credential when the client is not blocked, the failure when it is wrong.\<close>

definition attempt :: "'k \<times> bool \<times> time \<Rightarrow> 's \<Rightarrow> bool \<times> 's" where
  "attempt a s =
     (case a of (k, good, now) \<Rightarrow>
        if blocked k now s then (False, checked k now s)
        else if good then (False, checked k now s)
        else (True, failed k now (checked k now s)))"

fun roomy :: "('k \<times> bool \<times> time) list \<Rightarrow> 's \<Rightarrow> bool" where
  "roomy [] s \<longleftrightarrow> True"
| "roomy ((k, good, now) # as) s \<longleftrightarrow>
     counted k now (checked k now s) \<and> roomy as (snd (attempt (k, good, now) s))"

text \<open>How many wrong credentials of a client are verified.\<close>

fun verified :: "'k \<Rightarrow> ('k \<times> bool \<times> time) list \<Rightarrow> 's \<Rightarrow> nat" where
  "verified k [] s = 0"
| "verified k (a # as) s =
     (if fst (attempt a s) \<and> fst a = k then 1 else 0) + verified k as (snd (attempt a s))"

text \<open>The failures that a client may still have in its window.\<close>

definition left :: "'k \<Rightarrow> time \<Rightarrow> 's \<Rightarrow> nat" where
  "left k now s = (case live k now s of None \<Rightarrow> limit | Some (n, _) \<Rightarrow> limit - n)"

text \<open>The time from which a failure opens another window.\<close>

definition renewed :: "'k \<Rightarrow> time \<Rightarrow> 's \<Rightarrow> time \<Rightarrow> bool" where
  "renewed k now s until \<longleftrightarrow> (case live k now s of None \<Rightarrow> False | Some (_, e) \<Rightarrow> e < until)"

lemma attempt_live:
  assumes "ok s" and "counted k now (checked k now s)"
  shows "live k' now (snd (attempt (k, good, now) s)) =
    (if fst (attempt (k, good, now) s) \<and> k' = k
     then (case live k now s of None \<Rightarrow> Some (1, now + window) | Some (n, e) \<Rightarrow> Some (Suc n, e))
     else live k' now s)"
  and "ok (snd (attempt (k, good, now) s))"
  and "fst (attempt (k, good, now) s) \<Longrightarrow> \<forall>n e. live k now s = Some (n, e) \<longrightarrow> n < limit"
  using assms live_failed [of "checked k now s" k now] live_failed_other [of "checked k now s" k now k'] live_checked [of s k' now k]
    live_checked [of s k now k] checked_ok [of s k now] failed_ok [of "checked k now s" k now] blocked_iff [of s k now]
  by (auto simp: attempt_def)

text \<open>
  Within a period of the length of the window, the wrong credentials of a client that are verified are at most those
  left in its open window and those of one more window.
\<close>

lemma verified_bound:
  assumes "ok s" and "roomy as s" and "sorted (map (snd \<circ> snd) as)"
    and "\<forall>a \<in> set as. now \<le> snd (snd a) \<and> snd (snd a) < until"
    and "until \<le> now + window"
  shows "verified k as s \<le> left k now s + (if renewed k now s until then limit else 0)"
  using assms
proof (induction as arbitrary: s now)
  case (Cons a as)
  obtain k1 good now1 where a: "a = (k1, good, now1)" by (cases a)
  let ?s = "snd (attempt a s)"
  have now1: "now \<le> now1" "now1 < until" using Cons.prems(4) by (simp_all add: a)
  have c: "counted k1 now1 (checked k1 now1 s)" using Cons.prems(2) by (simp add: a)
  note L = attempt_live [OF Cons.prems(1) c, where good = good]
  have later: "\<forall>a \<in> set as. now1 \<le> snd (snd a) \<and> snd (snd a) < until"
    using Cons.prems(3,4) by (auto simp: a)
  have "verified k as ?s \<le> left k now1 ?s + (if renewed k now1 ?s until then limit else 0)"
    by (rule Cons.IH [OF _ _ _ later]) (use L(2) Cons.prems now1 in \<open>simp_all add: a\<close>)
  moreover have "(if fst (attempt a s) \<and> k1 = k then 1 else 0) + (left k now1 ?s + (if renewed k now1 ?s until then limit else 0))
      \<le> left k now s + (if renewed k now s until then limit else 0)"
  proof (cases "live k now s")
    case None
    then have "live k now1 s = None" using live_later [OF now1(1), of k s] by simp
    then show ?thesis using L(1) limit_pos now1 Cons.prems(5) None by (auto simp: a left_def renewed_def split: if_splits)
  next
    case (Some w)
    obtain n e where w: "w = (n, e)" by (cases w)
    have l1: "live k now1 s = (if now1 < e then Some (n, e) else None)"
      using live_later [OF now1(1), of k s] Some w by simp
    show ?thesis
    proof (cases "now1 < e")
      case True
      then show ?thesis using L(1,3) l1 Some w by (auto simp: a left_def renewed_def)
    next
      case False
      then have "e < until" using now1 by simp
      then show ?thesis using L(1) l1 Some w limit_pos now1 Cons.prems(5) live_end [OF Some [unfolded w]] False
        by (auto simp: a left_def renewed_def)
    qed
  qed
  ultimately show ?case by (simp add: a)
qed simp

text \<open>A blocked client is admitted again when its window ends.\<close>

lemma unblocked_later:
  assumes "ok s" and "blocked k now s" and "live k now s = Some (n, e)" and "e \<le> now'"
  shows "\<not> blocked k now' s"
  using assms live_later [of now now' k s] live_end [OF assms(3)] blocked_iff [of s k now'] by auto

end

subsection \<open>The failures on the status pages\<close>

definition authFailureWindow :: duration where "authFailureWindow = 5 * minute"
definition authMaximumFailures :: nat where "authMaximumFailures = 10"
definition authMaximumFailureKeys :: nat where "authMaximumFailureKeys = 10000"

text \<open>\<open>failureCount\<close>: the count and the end of the window, by the page and the client.\<close>

type_synonym page_failures = "(string \<times> nat \<times> time) list"

definition page_blocked :: "string \<Rightarrow> time \<Rightarrow> page_failures \<Rightarrow> (bool \<times> duration) \<times> page_failures" where
  "page_blocked key now fs =
     (case map_of fs key of
        None \<Rightarrow> ((False, 0), fs)
      | Some (n, e) \<Rightarrow>
          (if \<not> now < e then ((False, 0), alist_del key fs)
           else if n < authMaximumFailures then ((False, 0), fs)
           else ((True, time_sub e now), fs)))"

definition failures_evictExpired :: "time \<Rightarrow> page_failures \<Rightarrow> page_failures" where
  "failures_evictExpired now fs = filter (\<lambda>(_, _, e). now < e) fs"

definition page_failure :: "string \<Rightarrow> time \<Rightarrow> page_failures \<Rightarrow> page_failures" where
  "page_failure key now fs =
     (case map_of fs key of
        Some (n, e) \<Rightarrow>
          (if now < e then alist_put key (Suc n, e) fs
           else if length fs < authMaximumFailureKeys then alist_put key (1, now + authFailureWindow) fs
           else (let fs = failures_evictExpired now fs
                 in if length fs \<ge> authMaximumFailureKeys then fs else alist_put key (1, now + authFailureWindow) fs))
      | None \<Rightarrow>
          (if length fs < authMaximumFailureKeys then alist_put key (1, now + authFailureWindow) fs
           else (let fs = failures_evictExpired now fs
                 in if length fs \<ge> authMaximumFailureKeys then fs else alist_put key (1, now + authFailureWindow) fs)))"

definition page_live :: "string \<Rightarrow> time \<Rightarrow> page_failures \<Rightarrow> (nat \<times> time) option" where
  "page_live key now fs = (case map_of fs key of None \<Rightarrow> None | Some (n, e) \<Rightarrow> if now < e then Some (n, e) else None)"

definition page_counted :: "string \<Rightarrow> time \<Rightarrow> page_failures \<Rightarrow> bool" where
  "page_counted key now fs \<longleftrightarrow>
     page_live key now fs \<noteq> None \<or> length fs < authMaximumFailureKeys \<or>
     length (failures_evictExpired now fs) < authMaximumFailureKeys"

lemma evicted_live:
  assumes "distinct (map fst fs)"
  shows "map_of (failures_evictExpired now fs) key = page_live key now fs"
  using assms
proof (induction fs)
  case (Cons x fs)
  obtain k n e where x: "x = (k, n, e)" by (cases x)
  have "map_of fs k = None" using Cons.prems by (simp add: x map_of_eq_None_iff)
  with Cons show ?case by (auto simp: failures_evictExpired_def page_live_def x split: option.split)
qed (simp add: failures_evictExpired_def page_live_def)

lemma evicted_page_live:
  "distinct (map fst fs) \<Longrightarrow> page_live key now (failures_evictExpired now fs) = page_live key now fs"
  unfolding page_live_def [of key now "failures_evictExpired now fs"] evicted_live
  by (auto simp: page_live_def split: option.splits)

lemma put_page_live:
  "page_live key now (alist_put k (n, e) fs) =
   (if key = k then (if now < e then Some (n, e) else None) else page_live key now fs)"
  by (simp add: page_live_def)

text \<open>A failure that is counted, on the entries that the counter has then.\<close>

lemma page_failure_cases:
  assumes "distinct (map fst fs)" and "page_counted key now fs"
  obtains fs' where "distinct (map fst fs')" and "\<And>k. page_live k now fs' = page_live k now fs"
    and "page_failure key now fs =
      alist_put key (case page_live key now fs of None \<Rightarrow> (1, now + authFailureWindow) | Some (n, e) \<Rightarrow> (Suc n, e)) fs'"
proof (cases "page_live key now fs \<noteq> None \<or> length fs < authMaximumFailureKeys")
  case True
  then show ?thesis
    using that [of fs] assms(1) by (auto simp: page_failure_def page_live_def split: option.splits if_splits)
next
  case False
  then show ?thesis
    using that [of "failures_evictExpired now fs"] assms evicted_page_live [of fs]
    by (auto simp: page_failure_def page_live_def page_counted_def Let_def failures_evictExpired_def split: option.splits if_splits)
qed

interpretation pages: failure_counter
  "\<lambda>k now fs. fst (fst (page_blocked k now fs))" "\<lambda>k now fs. snd (page_blocked k now fs)" page_failure page_live page_counted
  authMaximumFailures authFailureWindow "\<lambda>fs. distinct (map fst fs)"
proof
  fix fs :: page_failures and k k' :: string and now now' e :: time and n :: nat
  show "0 < authMaximumFailures" "0 < authFailureWindow"
    by (simp_all add: authMaximumFailures_def authFailureWindow_def go_time)
  show "page_live k now' fs = (case page_live k now fs of None \<Rightarrow> None | Some (n, e) \<Rightarrow> if now' < e then Some (n, e) else None)"
    if "now \<le> now'"
    using that by (auto simp: page_live_def split: option.splits)
  show "now < e" if "page_live k now fs = Some (n, e)"
    using that by (auto simp: page_live_def split: option.splits if_splits)
  assume ok: "distinct (map fst fs)"
  show "distinct (map fst (snd (page_blocked k now fs)))"
    using ok by (auto simp: page_blocked_def alist_del_def split: option.split)
  show "distinct (map fst (page_failure k now fs))"
    using ok by (auto simp: page_failure_def failures_evictExpired_def Let_def split: option.split)
  show "fst (fst (page_blocked k now fs)) = (\<exists>n e. page_live k now fs = Some (n, e) \<and> authMaximumFailures \<le> n)"
    by (auto simp: page_blocked_def page_live_def split: option.splits)
  show "page_live k' now (snd (page_blocked k now fs)) = page_live k' now fs"
    by (auto simp: page_blocked_def page_live_def split: option.splits)
  show "page_live k now (page_failure k now fs) =
      (case page_live k now fs of None \<Rightarrow> Some (1, now + authFailureWindow) | Some (n, e) \<Rightarrow> Some (Suc n, e))"
    if counted: "page_counted k now fs"
    by (rule page_failure_cases [OF ok counted])
      (auto simp: put_page_live authFailureWindow_def go_time page_live_def split: option.splits if_splits)
  show "page_live k' now (page_failure k now fs) = page_live k' now fs" if counted: "page_counted k now fs" and "k' \<noteq> k"
    by (rule page_failure_cases [OF ok counted]) (use that(2) in \<open>simp add: put_page_live split: option.split\<close>)
qed

subsection \<open>The failures of the login\<close>

definition failureLimiterWindow :: duration where "failureLimiterWindow = minute"
definition failureLimiterMaximumFailures :: nat where "failureLimiterMaximumFailures = 10"
definition failureLimiterMaximumKeys :: nat where "failureLimiterMaximumKeys = 10000"

text \<open>The clients in the order of their last failures, the most recent one first.\<close>

record login_limiter =
  ll_window :: duration
  ll_maximum :: nat
  ll_keys :: nat
  ll_entries :: "(ip_prefix \<times> time \<times> nat) list"

definition newFailureLimiterWithWindow :: "duration \<Rightarrow> nat \<Rightarrow> nat \<Rightarrow> login_limiter" where
  "newFailureLimiterWithWindow w maximum keys = \<lparr>ll_window = w, ll_maximum = maximum, ll_keys = keys, ll_entries = []\<rparr>"

definition newFailureLimiter :: "nat \<Rightarrow> nat \<Rightarrow> login_limiter" where
  "newFailureLimiter maximum keys = newFailureLimiterWithWindow failureLimiterWindow maximum keys"

definition no_prefix :: ip_prefix where "no_prefix = \<lparr>pf_addr = NoAddr, pf_bits = -1\<rparr>"

definition failureLimiterKey :: "addr \<Rightarrow> ip_prefix" where
  "failureLimiterKey ip =
     (case Unmap ip of
        NoAddr \<Rightarrow> no_prefix
      | Addr4 w \<Rightarrow> \<lparr>pf_addr = Addr4 w, pf_bits = 32\<rparr>
      | Addr6 w z \<Rightarrow> \<lparr>pf_addr = keep_bits 64 (Addr6 w []), pf_bits = 64\<rparr>)"

definition limiter_Blocked :: "addr \<Rightarrow> time \<Rightarrow> login_limiter \<Rightarrow> bool \<times> duration" where
  "limiter_Blocked ip now l =
     (case map_of (ll_entries l) (failureLimiterKey ip) of
        None \<Rightarrow> (False, 0)
      | Some (start, failures) \<Rightarrow>
          (let windowEnd = start + ll_window l
           in if failures < ll_maximum l \<or> \<not> now < windowEnd then (False, 0)
              else (True, max (time_sub windowEnd now) second)))"

text \<open>The clients beyond the maximum are forgotten, from the back.\<close>

function forget_oldest :: "nat \<Rightarrow> 'a list \<Rightarrow> 'a list" where
  "forget_oldest n xs = (if length xs > n then forget_oldest n (butlast xs) else xs)"
  by auto
termination by (relation "measure (length \<circ> snd)") auto

declare forget_oldest.simps [simp del]

definition limiter_Failure :: "addr \<Rightarrow> time \<Rightarrow> login_limiter \<Rightarrow> login_limiter" where
  "limiter_Failure ip now l =
     (let key = failureLimiterKey ip
      in case map_of (ll_entries l) key of
           Some (start, failures) \<Rightarrow>
             (let (start, failures) = (if \<not> now < start + ll_window l then (now, 0) else (start, failures))
              in l\<lparr>ll_entries := (key, start, Suc failures) # alist_del key (ll_entries l)\<rparr>)
         | None \<Rightarrow> l\<lparr>ll_entries := forget_oldest (ll_keys l) ((key, now, 1) # ll_entries l)\<rparr>)"

lemma forget_oldest_take: "forget_oldest n xs = take n xs"
proof (induction "length xs" arbitrary: xs rule: less_induct)
  case less
  show ?case
  proof (cases "length xs > n")
    case True
    then have "forget_oldest n (butlast xs) = take n (butlast xs)" by (intro less) simp
    then show ?thesis using True by (simp add: forget_oldest.simps [of n xs] take_butlast)
  qed (simp add: forget_oldest.simps [of n xs])
qed

definition login_live :: "ip_prefix \<Rightarrow> time \<Rightarrow> login_limiter \<Rightarrow> (nat \<times> time) option" where
  "login_live key now l =
     (case map_of (ll_entries l) key of
        None \<Rightarrow> None | Some (start, n) \<Rightarrow> if now < start + ll_window l then Some (n, start + ll_window l) else None)"

definition login_counted :: "ip_prefix \<Rightarrow> login_limiter \<Rightarrow> bool" where
  "login_counted key l \<longleftrightarrow> map_of (ll_entries l) key \<noteq> None \<or> length (ll_entries l) < ll_keys l"

text \<open>The limiter of \<open>security.basic\<close>.\<close>

definition login_limiter_ok :: "login_limiter \<Rightarrow> bool" where
  "login_limiter_ok l \<longleftrightarrow>
     ll_window l = failureLimiterWindow \<and> ll_maximum l = failureLimiterMaximumFailures \<and>
     distinct (map fst (ll_entries l)) \<and> length (ll_entries l) \<le> ll_keys l"

lemma new_limiter_ok: "login_limiter_ok (newFailureLimiter failureLimiterMaximumFailures keys)"
  by (simp add: login_limiter_ok_def newFailureLimiter_def newFailureLimiterWithWindow_def)

text \<open>The clients are identified by their prefix: the check and the failure by it.\<close>

definition blocked_prefix :: "ip_prefix \<Rightarrow> time \<Rightarrow> login_limiter \<Rightarrow> bool" where
  "blocked_prefix key now l \<longleftrightarrow> (\<exists>n e. login_live key now l = Some (n, e) \<and> ll_maximum l \<le> n)"

definition fail_prefix :: "ip_prefix \<Rightarrow> time \<Rightarrow> login_limiter \<Rightarrow> login_limiter" where
  "fail_prefix key now l =
     (case map_of (ll_entries l) key of
        Some (start, n) \<Rightarrow>
          l\<lparr>ll_entries := (key, if now < start + ll_window l then (start, Suc n) else (now, 1)) # alist_del key (ll_entries l)\<rparr>
      | None \<Rightarrow> l\<lparr>ll_entries := take (ll_keys l) ((key, now, 1) # ll_entries l)\<rparr>)"

lemma limiter_Blocked_prefix: "fst (limiter_Blocked ip now l) = blocked_prefix (failureLimiterKey ip) now l"
  by (auto simp: limiter_Blocked_def blocked_prefix_def login_live_def Let_def split: option.splits)

lemma limiter_Failure_prefix: "limiter_Failure ip now l = fail_prefix (failureLimiterKey ip) now l"
  by (auto simp: limiter_Failure_def fail_prefix_def Let_def forget_oldest_take split: option.split)

interpretation logins: failure_counter
  blocked_prefix "\<lambda>k now l. l" fail_prefix login_live "\<lambda>k now. login_counted k"
  failureLimiterMaximumFailures failureLimiterWindow login_limiter_ok
proof
  fix l :: login_limiter and k k' :: ip_prefix and now now' e :: time and n :: nat
  show "0 < failureLimiterMaximumFailures" "0 < failureLimiterWindow"
    by (simp_all add: failureLimiterMaximumFailures_def failureLimiterWindow_def go_time)
  show "login_live k now' l = (case login_live k now l of None \<Rightarrow> None | Some (n, e) \<Rightarrow> if now' < e then Some (n, e) else None)"
    if "now \<le> now'"
    using that by (auto simp: login_live_def split: option.splits)
  show "now < e" if "login_live k now l = Some (n, e)"
    using that by (auto simp: login_live_def split: option.splits if_splits)
  assume ok: "login_limiter_ok l"
  show "login_limiter_ok l" "login_live k' now l = login_live k' now l" by (rule ok, rule HOL.refl)
  show "login_limiter_ok (fail_prefix k now l)"
  proof (cases "map_of (ll_entries l) k")
    case None
    then have "distinct (map fst ((k, now, 1) # ll_entries l))" using ok by (simp add: login_limiter_ok_def map_of_eq_None_iff)
    then have "distinct (map fst (take (ll_keys l) ((k, now, 1) # ll_entries l)))" by (metis distinct_take take_map)
    then show ?thesis using ok None by (simp add: fail_prefix_def login_limiter_ok_def)
  next
    case (Some x)
    then have "length (alist_del k (ll_entries l)) < length (ll_entries l)" using length_alist_del [of "ll_entries l" k] by simp
    then show ?thesis using ok Some by (cases x) (auto simp: fail_prefix_def login_limiter_ok_def alist_del_def)
  qed
  show "blocked_prefix k now l = (\<exists>n e. login_live k now l = Some (n, e) \<and> failureLimiterMaximumFailures \<le> n)"
    using ok by (simp add: blocked_prefix_def login_limiter_ok_def)
  assume counted: "login_counted k l"
  have window: "ll_window l = failureLimiterWindow" "0 < failureLimiterWindow"
    using ok by (simp_all add: login_limiter_ok_def failureLimiterWindow_def go_time)
  have entries: "map_of (ll_entries (fail_prefix k now l)) = (map_of (ll_entries l))(k \<mapsto>
      (case map_of (ll_entries l) k of Some (start, n) \<Rightarrow> if now < start + ll_window l then (start, Suc n) else (now, 1)
       | None \<Rightarrow> (now, 1)))"
    using counted by (auto simp: fail_prefix_def login_counted_def fun_eq_iff split: option.split)
  have same: "ll_window (fail_prefix k now l) = ll_window l" by (simp add: fail_prefix_def split: option.split)
  show "login_live k now (fail_prefix k now l) =
      (case login_live k now l of None \<Rightarrow> Some (1, now + failureLimiterWindow) | Some (n, e) \<Rightarrow> Some (Suc n, e))"
    unfolding login_live_def entries same using window by (auto split: option.split)
  show "login_live k' now (fail_prefix k now l) = login_live k' now l" if "k' \<noteq> k"
    unfolding login_live_def entries same using that by simp
qed

end
