(* ===== verification/PublicPages.thy ===== *)
theory PublicPages
  imports FailureLimits PageRegistry Complex_Main
begin

text \<open>
  The public side of the status pages (\<^verbatim>\<open>internal/statuspage\<close>): the client of a request (\<^verbatim>\<open>clientip.go\<close>), the limit of the
  costly responses (\<^verbatim>\<open>limiter.go\<close>) and what a page serves (\<^verbatim>\<open>public.go\<close>).
\<close>

subsection \<open>The client of a request\<close>

definition maximumForwardedForEntries :: nat where "maximumForwardedForEntries = 20"
definition maximumForwardedForLineLength :: nat where "maximumForwardedForLineLength = 1024"

definition isTrustedProxy :: "addr \<Rightarrow> ip_prefix list \<Rightarrow> bool" where
  "isTrustedProxy a proxies \<longleftrightarrow> list_ex (\<lambda>p. prefix_contains p a) proxies"

definition parseForwardedAddr :: "page_lib \<Rightarrow> string \<Rightarrow> addr option" where
  "parseForwardedAddr lib entry =
     (case (case lb_parse_addr lib entry of None \<Rightarrow> lb_parse_addr_port lib entry | Some a \<Rightarrow> Some a) of
        None \<Rightarrow> None
      | Some a \<Rightarrow> if addr_zone a \<noteq> [] then None else Some (Unmap a))"

text \<open>The entries of a line, after those of the lines before; \<open>None\<close> with too many.\<close>

fun add_entries :: "string list \<Rightarrow> string list \<Rightarrow> string list option" where
  "add_entries entries [] = Some entries"
| "add_entries entries (x # xs) =
     (if length entries = maximumForwardedForEntries then None else add_entries (entries @ [trim_space x]) xs)"

fun forwarded_entries :: "string list \<Rightarrow> string list \<Rightarrow> string list option" where
  "forwarded_entries entries [] = Some entries"
| "forwarded_entries entries (line # lines) =
     (if length line > maximumForwardedForLineLength then None
      else case add_entries entries (str_split line '','') of
        None \<Rightarrow> None
      | Some entries \<Rightarrow> forwarded_entries entries lines)"

text \<open>The loop from the last entry; \<open>None\<close> on an invalid one.\<close>

fun rightmost_untrusted :: "page_lib \<Rightarrow> ip_prefix list \<Rightarrow> addr \<Rightarrow> string list \<Rightarrow> addr option" where
  "rightmost_untrusted lib proxies client [] = Some client"
| "rightmost_untrusted lib proxies client (x # xs) =
     (case parseForwardedAddr lib x of
        None \<Rightarrow> None
      | Some a \<Rightarrow> if isTrustedProxy a proxies then rightmost_untrusted lib proxies a xs else Some a)"

definition ClientIP :: "page_lib \<Rightarrow> addr \<Rightarrow> string list \<Rightarrow> ip_prefix list \<Rightarrow> addr" where
  "ClientIP lib remote0 forwardedFor proxies =
     (let remote = Unmap remote0
      in if forwardedFor = [] \<or> \<not> isTrustedProxy remote proxies then remote
         else case forwarded_entries [] forwardedFor of
           None \<Rightarrow> remote
         | Some entries \<Rightarrow>
             (case rightmost_untrusted lib proxies remote (rev entries) of None \<Rightarrow> remote | Some a \<Rightarrow> a))"

text \<open>\<open>netip.Addr\<close>: the private, loopback and link-local addresses.\<close>

definition IsPrivate :: "addr \<Rightarrow> bool" where
  "IsPrivate a \<longleftrightarrow>
     (case a of
        NoAddr \<Rightarrow> False
      | Addr4 w \<Rightarrow> drop_bit 24 w = 10 \<or> drop_bit 20 w = 0xAC1 \<or> drop_bit 16 w = 0xC0A8
      | Addr6 w _ \<Rightarrow> drop_bit 121 w = 0x7E)"

definition IsLoopback :: "addr \<Rightarrow> bool" where
  "IsLoopback a \<longleftrightarrow> (case a of NoAddr \<Rightarrow> False | Addr4 w \<Rightarrow> drop_bit 24 w = 127 | Addr6 w _ \<Rightarrow> w = 1)"

definition IsLinkLocalUnicast :: "addr \<Rightarrow> bool" where
  "IsLinkLocalUnicast a \<longleftrightarrow>
     (case a of NoAddr \<Rightarrow> False | Addr4 w \<Rightarrow> drop_bit 16 w = 0xA9FE | Addr6 w _ \<Rightarrow> drop_bit 118 w = 0x3FA)"

definition carrierGradeNAT :: ip_prefix where
  "carrierGradeNAT = \<lparr>pf_addr = Addr4 0x64400000, pf_bits = 10\<rparr>"

definition shouldWarnSharedRateLimit :: "addr \<Rightarrow> bool \<Rightarrow> ip_prefix list \<Rightarrow> bool" where
  "shouldWarnSharedRateLimit remote0 hasForwardedFor proxies \<longleftrightarrow>
     (let remote = Unmap remote0
      in if \<not> hasForwardedFor \<or> remote = NoAddr \<or> isTrustedProxy remote proxies then False
         else IsPrivate remote \<or> IsLoopback remote \<or> IsLinkLocalUnicast remote \<or> prefix_contains carrierGradeNAT remote)"

text \<open>The generation of the last warning and its address.\<close>

type_synonym shared_warning = "nat \<times> addr option"

definition warnSharedRateLimit :: "nat \<Rightarrow> addr \<Rightarrow> shared_warning \<Rightarrow> bool \<times> shared_warning" where
  "warnSharedRateLimit generation remote st =
     (if fst st = generation then (False, st) else (True, generation, Some (Unmap remote)))"

definition ObserveConnection :: "nat \<Rightarrow> addr \<Rightarrow> bool \<Rightarrow> ip_prefix list \<Rightarrow> shared_warning \<Rightarrow> shared_warning" where
  "ObserveConnection generation remote hasForwardedFor proxies st =
     (if shouldWarnSharedRateLimit remote hasForwardedFor proxies then snd (warnSharedRateLimit generation remote st) else st)"

definition SharedRateLimitWarning :: "nat \<Rightarrow> shared_warning \<Rightarrow> addr option" where
  "SharedRateLimitWarning generation st = (if generation = 0 \<or> fst st \<noteq> generation then None else snd st)"

lemma add_entries_append:
  "add_entries entries xs = Some ys \<Longrightarrow> ys = entries @ map trim_space xs"
  by (induction entries xs rule: add_entries.induct) (auto split: if_splits)

lemma forwarded_entries_lines:
  "forwarded_entries entries lines = Some ys \<Longrightarrow>
   ys = entries @ concat (map (\<lambda>line. map trim_space (str_split line '','')) lines)"
  by (induction entries lines rule: forwarded_entries.induct)
    (auto simp del: str_split.simps split: if_splits option.splits dest: add_entries_append)

lemma rightmost_untrusted_spec:
  assumes "rightmost_untrusted lib proxies client xs = Some a" and "xs \<noteq> []"
  shows "\<exists>post x pre. xs = post @ x # pre \<and> parseForwardedAddr lib x = Some a \<and>
     (\<forall>y \<in> set post. \<exists>b. parseForwardedAddr lib y = Some b \<and> isTrustedProxy b proxies) \<and>
     (isTrustedProxy a proxies \<longrightarrow> pre = [])"
  using assms
proof (induction xs arbitrary: client)
  case (Cons x xs)
  obtain b where b: "parseForwardedAddr lib x = Some b" using Cons.prems by (auto split: option.splits)
  show ?case
  proof (cases "isTrustedProxy b proxies \<and> xs \<noteq> []")
    case True
    then have "rightmost_untrusted lib proxies b xs = Some a" using Cons.prems b by simp
    from Cons.IH [OF this] True obtain post x' pre where d: "xs = post @ x' # pre" "parseForwardedAddr lib x' = Some a"
      "\<forall>y \<in> set post. \<exists>b. parseForwardedAddr lib y = Some b \<and> isTrustedProxy b proxies" "isTrustedProxy a proxies \<longrightarrow> pre = []"
      by blast
    then show ?thesis using b True by (intro exI [of _ "x # post"] exI [of _ x'] exI [of _ pre]) simp
  next
    case False
    then have "a = b" "isTrustedProxy b proxies \<longrightarrow> xs = []" using Cons.prems b by (auto split: if_splits)
    then show ?thesis using b by (intro exI [of _ "[]"] exI [of _ x] exI [of _ xs]) simp
  qed
qed simp

lemma str_split_nonempty: "str_split s sep \<noteq> []"
  by (subst str_split.simps) (auto split: option.split)

text \<open>The entries of the lines, from the left.\<close>

definition entries_of :: "string list \<Rightarrow> string list" where
  "entries_of lines = concat (map (\<lambda>line. map trim_space (str_split line '','')) lines)"

lemma ClientIP_spec:
  "ClientIP lib remote lines proxies = Unmap remote \<or>
   isTrustedProxy (Unmap remote) proxies \<and>
   (\<exists>pre x post. entries_of lines = pre @ x # post \<and> parseForwardedAddr lib x = Some (ClientIP lib remote lines proxies) \<and>
      (\<forall>y \<in> set post. \<exists>b. parseForwardedAddr lib y = Some b \<and> isTrustedProxy b proxies) \<and>
      (isTrustedProxy (ClientIP lib remote lines proxies) proxies \<longrightarrow> pre = []))"
proof (cases "lines = [] \<or> \<not> isTrustedProxy (Unmap remote) proxies")
  case False
  show ?thesis
  proof (cases "forwarded_entries [] lines")
    case (Some entries)
    then have e: "entries = entries_of lines" using forwarded_entries_lines [of "[]" lines entries] by (simp add: entries_of_def)
    obtain line rest where "lines = line # rest" using False by (cases lines) auto
    then have ne: "rev entries \<noteq> []" using str_split_nonempty by (simp add: e entries_of_def)
    show ?thesis
    proof (cases "rightmost_untrusted lib proxies (Unmap remote) (rev entries)")
      case None
      then show ?thesis using False Some by (simp add: ClientIP_def Let_def)
    next
      case (Some a)
      then have c: "ClientIP lib remote lines proxies = a"
        using False \<open>forwarded_entries [] lines = Some entries\<close> by (simp add: ClientIP_def Let_def)
      from rightmost_untrusted_spec [OF Some ne] obtain post x pre where d: "rev entries = post @ x # pre"
        "parseForwardedAddr lib x = Some a" "\<forall>y \<in> set post. \<exists>b. parseForwardedAddr lib y = Some b \<and> isTrustedProxy b proxies"
        "isTrustedProxy a proxies \<longrightarrow> pre = []" by blast
      have "entries_of lines = rev pre @ x # rev post"
        using d(1) e by (metis append.assoc append_Cons append_Nil rev.simps(2) rev_append rev_rev_ident)
      then show ?thesis unfolding c using d False
        by (intro disjI2 conjI exI [of _ "rev pre"] exI [of _ x] exI [of _ "rev post"]) simp_all
    qed
  qed (use False in \<open>simp add: ClientIP_def Let_def\<close>)
qed (auto simp: ClientIP_def Let_def)

subsection \<open>The limit of the costly responses\<close>

definition limiterWindow :: duration where "limiterWindow = minute"
definition maximumLimiterKeys :: nat where "maximumLimiterKeys = 50000"

text \<open>
  The clients in the order in which they were seen, the most recent one first: the start of the window, its count and
  that of the window before.
\<close>

record public_limiter =
  pu_limit :: int
  pu_keys :: nat
  pu_entries :: "(ip_prefix \<times> time \<times> int \<times> int) list"

definition NewLimiter :: "int \<Rightarrow> nat \<Rightarrow> public_limiter" where
  "NewLimiter limit keys = \<lparr>pu_limit = limit, pu_keys = keys, pu_entries = []\<rparr>"

definition SetLimit :: "int \<Rightarrow> public_limiter \<Rightarrow> public_limiter" where
  "SetLimit limit l = (if pu_limit l \<noteq> limit then l\<lparr>pu_entries := [], pu_limit := limit\<rparr> else l\<lparr>pu_limit := limit\<rparr>)"

definition window_start :: "time \<Rightarrow> time" where
  "window_start now = now - (now - quot now limiterWindow * limiterWindow)"

text \<open>\<open>limiterKey\<close> is the function of the login limiter. The estimate is exact here; the code rounds it to a \<open>float64\<close>.\<close>

definition limiterKey :: "addr \<Rightarrow> ip_prefix" where
  "limiterKey ip =
     (case Unmap ip of
        NoAddr \<Rightarrow> no_prefix
      | Addr4 w \<Rightarrow> \<lparr>pf_addr = Addr4 w, pf_bits = 32\<rparr>
      | Addr6 w z \<Rightarrow> \<lparr>pf_addr = keep_bits 64 (Addr6 w []), pf_bits = 64\<rparr>)"

type_synonym limiter_entry = "time \<times> int \<times> int"

text \<open>The entry of a client and the entries of the others: a new client takes the place of the oldest one.\<close>

definition seen_entry :: "ip_prefix \<Rightarrow> time \<Rightarrow> public_limiter \<Rightarrow> limiter_entry \<times> (ip_prefix \<times> limiter_entry) list" where
  "seen_entry key start l =
     (case map_of (pu_entries l) key of
        Some e \<Rightarrow> (e, alist_del key (pu_entries l))
      | None \<Rightarrow> ((start, 0, 0), tl (forget_oldest (pu_keys l) ((key, start, 0, 0) # pu_entries l))))"

text \<open>The entry moved to the window that starts at \<open>start\<close>.\<close>

fun slide :: "time \<Rightarrow> limiter_entry \<Rightarrow> limiter_entry" where
  "slide start (entryStart, current, previous) =
     (let elapsedWindows = quot (start - entryStart) limiterWindow
      in if elapsedWindows = 1 then (start, 0, current)
         else if elapsedWindows > 1 then (start, 0, 0)
         else (entryStart, current, previous))"

definition estimated :: "time \<Rightarrow> time \<Rightarrow> int \<Rightarrow> int \<Rightarrow> rat" where
  "estimated now start current previous =
     of_int previous * (1 - of_int (now - start) / of_int limiterWindow) + of_int current"

definition limiter_Hit :: "addr \<Rightarrow> time \<Rightarrow> public_limiter \<Rightarrow> (bool \<times> duration) \<times> public_limiter" where
  "limiter_Hit ip now l =
     (if pu_limit l \<le> 0 then ((True, 0), l)
      else
        (let key = limiterKey ip; start = window_start now;
             (entry, others) = seen_entry key start l;
             (entryStart, current, previous) = slide start entry
         in if estimated now start current previous + 1 > of_int (pu_limit l)
            then ((False, max (start + limiterWindow - now) second),
                  l\<lparr>pu_entries := (key, entryStart, current, previous) # others\<rparr>)
            else ((True, 0), l\<lparr>pu_entries := (key, entryStart, current + 1, previous) # others\<rparr>)))"

text \<open>How often a client was allowed in the window that starts at \<open>w\<close>.\<close>

definition allowed_in :: "ip_prefix \<Rightarrow> time \<Rightarrow> public_limiter \<Rightarrow> int" where
  "allowed_in key w l =
     (case map_of (pu_entries l) key of None \<Rightarrow> 0 | Some (start, current, _) \<Rightarrow> if start = w then current else 0)"

text \<open>No entry is of a later window, and its counts are not negative.\<close>

definition public_limiter_ok :: "time \<Rightarrow> public_limiter \<Rightarrow> bool" where
  "public_limiter_ok w l \<longleftrightarrow>
     distinct (map fst (pu_entries l)) \<and>
     (\<forall>k start current previous. map_of (pu_entries l) k = Some (start, current, previous) \<longrightarrow>
        start \<le> w \<and> (\<exists>m. start = m * limiterWindow) \<and> 0 \<le> current \<and> 0 \<le> previous)"

lemma window_start_alt: "window_start now = quot now limiterWindow * limiterWindow"
  by (simp add: window_start_def)

lemma window_start_bounds: "0 \<le> now \<Longrightarrow> window_start now \<le> now \<and> now < window_start now + limiterWindow"
proof -
  assume "0 \<le> now"
  have "0 < limiterWindow" by (simp add: limiterWindow_def go_time)
  moreover from this \<open>0 \<le> now\<close> have "window_start now = now div limiterWindow * limiterWindow"
    by (simp only: window_start_alt quot_nonneg)
  ultimately show ?thesis
    using pos_mod_sign [of limiterWindow now] pos_mod_bound [of limiterWindow now] div_mult_mod_eq [of now limiterWindow]
    by linarith
qed

lemma elapsed_windows:
  assumes "a * limiterWindow \<le> b * limiterWindow"
  shows "quot (b * limiterWindow - a * limiterWindow) limiterWindow = b - a"
proof -
  have W: "0 < limiterWindow" by (simp add: limiterWindow_def go_time)
  have "a \<le> b" using assms W by simp
  then have "0 \<le> (b - a) * limiterWindow" using W by simp
  from quot_nonneg [OF this W] show ?thesis using W by (simp only: left_diff_distrib) simp
qed

text \<open>
  A hit in the window \<open>w\<close>: the count of its client grows by one if it is allowed, and stays below the limit.
\<close>

lemma limiter_Hit_counts:
  assumes ok: "public_limiter_ok w l" and limit: "0 < pu_limit l" and now: "window_start now = w" "0 \<le> now"
    and room: "length (pu_entries l) < pu_keys l"
    and hit: "limiter_Hit ip now l = ((b, wait), l')"
  shows "public_limiter_ok w l'" and "pu_limit l' = pu_limit l" and "pu_keys l' = pu_keys l"
    and "length (pu_entries l') \<le> Suc (length (pu_entries l))"
    and "allowed_in k w l' = allowed_in k w l + (if b \<and> k = limiterKey ip then 1 else 0)"
    and "b \<Longrightarrow> allowed_in (limiterKey ip) w l' \<le> pu_limit l"
proof -
  let ?key = "limiterKey ip"
  obtain mw where mw: "w = mw * limiterWindow" using now(1) by (auto simp: window_start_alt)
  obtain s0 c0 p0 others where e0: "seen_entry ?key w l = ((s0, c0, p0), others)" by (metis prod.collapse)
  have take: "tl (forget_oldest (pu_keys l) ((?key, w, 0, 0) # pu_entries l)) = pu_entries l"
    using room by (simp add: forget_oldest_take take_Cons split: nat.split)
  have others: "distinct (map fst others)" "map_of others = (map_of (pu_entries l))(?key := None)" "length others \<le> length (pu_entries l)"
  proof -
    have "length (alist_del ?key (pu_entries l)) \<le> length (pu_entries l)" by (simp add: alist_del_def)
    then show "distinct (map fst others)" "map_of others = (map_of (pu_entries l))(?key := None)" "length others \<le> length (pu_entries l)"
      using e0 take ok by (auto simp: seen_entry_def public_limiter_ok_def distinct_alist_del split: option.splits)
  qed
  have e0_ok: "s0 \<le> w" "0 \<le> c0" "0 \<le> p0" "\<exists>m. s0 = m * limiterWindow"
    and before: "allowed_in ?key w l = (if s0 = w then c0 else 0)"
    using ok e0 mw unfolding public_limiter_ok_def seen_entry_def allowed_in_def
    by (auto simp del: map_of_eq_Some_iff split: option.splits)
  obtain m0 where m0: "s0 = m0 * limiterWindow" using e0_ok(4) by blast
  have elapsed: "quot (w - s0) limiterWindow = mw - m0" using elapsed_windows [of m0 mw] e0_ok(1) by (simp add: mw m0)
  have le: "m0 \<le> mw" using e0_ok(1) by (simp add: mw m0 limiterWindow_def go_time)
  have same: "s0 = w \<longleftrightarrow> mw = m0" by (auto simp: mw m0 limiterWindow_def go_time)
  obtain c1 p1 where step: "slide w (s0, c0, p0) = (w, c1, p1)" and c1: "c1 = (if s0 = w then c0 else 0)" and p1: "0 \<le> p1"
    using le e0_ok same elapsed by (cases "mw = m0"; cases "mw - m0 = 1") auto
  have result: "b = (\<not> estimated now w c1 p1 + 1 > of_int (pu_limit l))"
    "l' = l\<lparr>pu_entries := (?key, w, (if b then c1 + 1 else c1), p1) # others\<rparr>"
    using hit limit e0 step unfolding limiter_Hit_def now(1) by (auto simp: Let_def split: if_splits)
  have entries: "map_of (pu_entries l') = (map_of (pu_entries l))(?key \<mapsto> (w, (if b then c1 + 1 else c1), p1))"
    by (simp add: result(2) others(2))
  show "public_limiter_ok w l'"
    using ok others(1,2) e0_ok c1 p1 mw unfolding public_limiter_ok_def entries
    by (auto simp: result(2) map_of_eq_None_iff [symmetric])
  show "pu_limit l' = pu_limit l" "pu_keys l' = pu_keys l" "length (pu_entries l') \<le> Suc (length (pu_entries l))"
    using others(3) by (simp_all add: result(2))
  show "allowed_in k w l' = allowed_in k w l + (if b \<and> k = ?key then 1 else 0)"
    using before c1 unfolding allowed_in_def entries by (auto simp: allowed_in_def)
  show "allowed_in ?key w l' \<le> pu_limit l" if b
  proof -
    have "0 \<le> (1 :: rat) - of_int (now - w) / of_int limiterWindow"
      using window_start_bounds [OF now(2)] now(1) by (simp add: limiterWindow_def go_time field_simps)
    then have "of_int c1 \<le> estimated now w c1 p1" using p1 by (simp add: estimated_def)
    then have "of_int (c1 + 1) \<le> (of_int (pu_limit l) :: rat)" using result(1) that by simp
    then have "c1 + 1 \<le> pu_limit l" by (simp only: of_int_le_iff)
    then show ?thesis using that unfolding allowed_in_def entries by simp
  qed
qed

text \<open>The hits of a run, each with whether it was allowed.\<close>

fun hit_run :: "(addr \<times> time) list \<Rightarrow> public_limiter \<Rightarrow> (addr \<times> bool) list" where
  "hit_run [] l = []"
| "hit_run ((ip, now) # hits) l = (let ((b, wait), l') = limiter_Hit ip now l in (ip, b) # hit_run hits l')"

definition allowed_hits :: "ip_prefix \<Rightarrow> (addr \<times> bool) list \<Rightarrow> (addr \<times> bool) list" where
  "allowed_hits key hits = filter (\<lambda>(ip, b). b \<and> limiterKey ip = key) hits"

lemma hits_bound:
  assumes "public_limiter_ok w l" and "0 < pu_limit l"
    and "\<forall>(ip, now) \<in> set hits. window_start now = w \<and> 0 \<le> now"
    and "length (pu_entries l) + length hits \<le> pu_keys l"
  shows "int (length (allowed_hits k (hit_run hits l))) + allowed_in k w l \<le> max (pu_limit l) (allowed_in k w l)"
  using assms
proof (induction hits arbitrary: l)
  case (Cons h hits)
  obtain ip now where h: "h = (ip, now)" by (cases h)
  obtain b wait l' where r: "limiter_Hit ip now l = ((b, wait), l')" by (metis prod.collapse)
  have now: "window_start now = w" "0 \<le> now" using Cons.prems(3) by (simp_all add: h)
  have room: "length (pu_entries l) < pu_keys l" using Cons.prems(4) by simp
  note H = limiter_Hit_counts [OF Cons.prems(1,2) now room r]
  have IH: "int (length (allowed_hits k (hit_run hits l'))) + allowed_in k w l' \<le> max (pu_limit l) (allowed_in k w l')"
    using Cons.IH [OF H(1)] H(2,3,4) Cons.prems by (simp add: h)
  show ?case
  proof (cases "b \<and> limiterKey ip = k")
    case True
    then have "allowed_in k w l' \<le> pu_limit l" "allowed_in k w l' = allowed_in k w l + 1" using H(5) [of k] H(6) by auto
    then show ?thesis using IH True by (simp add: h r allowed_hits_def)
  next
    case False
    then have "allowed_in k w l' = allowed_in k w l" using H(5) [of k] by auto
    then show ?thesis using IH False by (auto simp: h r allowed_hits_def)
  qed
qed (simp add: allowed_hits_def)

subsection \<open>What a page serves\<close>

definition publicCacheTTL :: duration where "publicCacheTTL = 30 * second"
definition unavailableCacheTTL :: duration where "unavailableCacheTTL = 5 * second"
definition maximumPublicEvents :: nat where "maximumPublicEvents = 50"

datatype cached_payload = CachedBody string | UnavailableMarker

datatype public_error = PublicPageNotFound | PublicPageUnavailable

text \<open>What a request of a payload gives, and what it puts into the cache: the key, the value and how long it stays.\<close>

type_synonym public_result = "(public_error + string) \<times> (string \<times> cached_payload \<times> duration) option"

definition cached_result :: "cached_payload \<Rightarrow> public_error + string" where
  "cached_result c = (case c of CachedBody b \<Rightarrow> Inr b | UnavailableMarker \<Rightarrow> Inl PublicPageUnavailable)"

text \<open>
  \<open>cache\<close> is the package of the cache at the first look, \<open>again\<close> at the second one, in the group that joins the concurrent
  assemblies; \<open>slot\<close>: a slot of the semaphore was free in time.
\<close>

definition cachedAssemblyIn ::
    "(string \<Rightarrow> cached_payload option) \<Rightarrow> (string \<Rightarrow> cached_payload option) \<Rightarrow> bool \<Rightarrow> string \<Rightarrow> duration \<Rightarrow>
     string option \<Rightarrow> public_result" where
  "cachedAssemblyIn cache again slot cacheKey ttl assembled =
     (case cache cacheKey of
        Some c \<Rightarrow> (cached_result c, None)
      | None \<Rightarrow>
          (case again cacheKey of
             Some c \<Rightarrow> (cached_result c, None)
           | None \<Rightarrow>
               (if \<not> slot then (Inl PublicPageUnavailable, None)
                else case assembled of
                  None \<Rightarrow> (Inl PublicPageUnavailable, Some (cacheKey, UnavailableMarker, unavailableCacheTTL))
                | Some body \<Rightarrow> (Inr body, Some (cacheKey, CachedBody body, ttl)))))"

definition pageCacheKey :: "string \<Rightarrow> nat \<Rightarrow> nat \<Rightarrow> string" where
  "pageCacheKey slug revision generation = slug @ ''|'' @ itoa (int revision) @ ''|'' @ itoa (int generation)"

definition endpointCacheKey :: "string \<Rightarrow> nat \<Rightarrow> nat \<Rightarrow> string \<Rightarrow> nat \<Rightarrow> string" where
  "endpointCacheKey slug revision generation key sequence =
     pageCacheKey slug revision generation @ ''|endpoint|'' @ key @ ''|'' @ itoa (int sequence)"

text \<open>
  The environment of a request: the cache, the endpoints of the running program, the sequence of the last result of a
  key, and the readers of the storage: \<open>pv_summaries\<close> of keys and a maximum, \<open>pv_events\<close> of a key, with their failures,
  \<open>pv_page\<close> and \<open>pv_details\<close> the payloads of \<^verbatim>\<open>payload.go\<close>.
\<close>

record 'sum public_env =
  pv_cache :: "string \<Rightarrow> cached_payload option"
  pv_again :: "string \<Rightarrow> cached_payload option"
  pv_slot :: bool
  pv_refs :: "endpoint_ref list"
  pv_sequence :: "string \<Rightarrow> nat"
  pv_summaries :: "(string list \<Rightarrow> int \<Rightarrow> 'sum option) option"
  pv_events :: "(string \<Rightarrow> string list option) option"
  pv_page :: "page \<Rightarrow> selection \<Rightarrow> 'sum \<Rightarrow> string"
  pv_details :: "page \<Rightarrow> endpoint_ref \<Rightarrow> 'sum \<Rightarrow> string list \<Rightarrow> string"

definition findShownEndpoint :: "published \<Rightarrow> endpoint_ref list \<Rightarrow> string \<Rightarrow> endpoint_ref option" where
  "findShownEndpoint pub refs key = find (\<lambda>r. er_key r = key) (selection_Refs (Select (pb_page pub) refs (pb_maximum pub)))"

definition IsEndpointShownOf :: "published \<Rightarrow> endpoint_ref list \<Rightarrow> string \<Rightarrow> bool" where
  "IsEndpointShownOf pub refs key \<longleftrightarrow>
     (if key = [] \<or> length key > MaximumEndpointKeyLength then False else findShownEndpoint pub refs key \<noteq> None)"

definition assemble :: "'sum public_env \<Rightarrow> page \<Rightarrow> int \<Rightarrow> int \<Rightarrow> string option" where
  "assemble e p maximumResults maximumEndpoints =
     (case pv_summaries e of
        None \<Rightarrow> None
      | Some read \<Rightarrow>
          (let sel = Select p (pv_refs e) maximumEndpoints
           in map_option (pv_page e p sel) (read (selection_Keys sel) maximumResults)))"

definition assembleEndpointDetails :: "'sum public_env \<Rightarrow> page \<Rightarrow> endpoint_ref \<Rightarrow> int \<Rightarrow> string option" where
  "assembleEndpointDetails e p ref maximumResults =
     (case (pv_summaries e, pv_events e) of
        (Some read, Some events) \<Rightarrow>
          (case read [er_key ref] maximumResults of
             None \<Rightarrow> None
           | Some summary \<Rightarrow> map_option (pv_details e p ref summary) (events (er_key ref)))
      | _ \<Rightarrow> None)"

definition PublicPageOf :: "'sum public_env \<Rightarrow> string \<Rightarrow> published \<Rightarrow> public_result" where
  "PublicPageOf e slug pub =
     cachedAssemblyIn (pv_cache e) (pv_again e) (pv_slot e) (pageCacheKey slug (pb_revision pub) (pb_generation pub)) publicCacheTTL
       (assemble e (pb_page pub) (pb_results pub) (pb_maximum pub))"

definition PublicPage :: "'sum public_env \<Rightarrow> string \<Rightarrow> pages_state \<Rightarrow> public_result" where
  "PublicPage e slug st =
     (case page_Lookup slug st of None \<Rightarrow> (Inl PublicPageNotFound, None) | Some pub \<Rightarrow> PublicPageOf e slug pub)"

definition PublicEndpointDetailsOf :: "'sum public_env \<Rightarrow> string \<Rightarrow> published \<Rightarrow> string \<Rightarrow> public_result" where
  "PublicEndpointDetailsOf e slug pub key =
     (if key = [] \<or> length key > MaximumEndpointKeyLength then (Inl PublicPageNotFound, None)
      else case findShownEndpoint pub (pv_refs e) key of
        None \<Rightarrow> (Inl PublicPageNotFound, None)
      | Some ref \<Rightarrow>
          cachedAssemblyIn (pv_cache e) (pv_again e) (pv_slot e)
            (endpointCacheKey slug (pb_revision pub) (pb_generation pub) key (pv_sequence e key)) publicCacheTTL
            (assembleEndpointDetails e (pb_page pub) ref (pb_results pub)))"

definition PublicEndpointDetails :: "'sum public_env \<Rightarrow> string \<Rightarrow> string \<Rightarrow> pages_state \<Rightarrow> public_result" where
  "PublicEndpointDetails e slug key st =
     (case page_Lookup slug st of
        None \<Rightarrow> (Inl PublicPageNotFound, None) | Some pub \<Rightarrow> PublicEndpointDetailsOf e slug pub key)"

subsection \<open>The keys of the cache\<close>

lemma itoa_no_bar: "CHR ''|'' \<notin> set (itoa i)"
  using itoa_chars [of "CHR ''|''" i] by (auto simp: is_digit_def)

lemma pageCacheKey_inj:
  assumes "CHR ''|'' \<notin> set slug" and "CHR ''|'' \<notin> set slug'"
    and "pageCacheKey slug r g = pageCacheKey slug' r' g'"
  shows "slug = slug' \<and> r = r' \<and> g = g'"
proof -
  have eq: "slug @ CHR ''|'' # (itoa (int r) @ CHR ''|'' # itoa (int g)) = slug' @ CHR ''|'' # (itoa (int r') @ CHR ''|'' # itoa (int g'))"
    using assms(3) by (simp add: pageCacheKey_def)
  then have "slug = slug'" "itoa (int r) @ CHR ''|'' # itoa (int g) = itoa (int r') @ CHR ''|'' # itoa (int g')"
    using split_at_eq [OF assms(1,2)] by blast+
  then show ?thesis using split_at_eq [OF itoa_no_bar itoa_no_bar] by simp
qed

lemma split_last:
  assumes "c \<notin> set b" and "c \<notin> set b'" and "a @ c # b = a' @ c # b'"
  shows "a = a' \<and> b = b'"
proof -
  have "rev b @ c # rev a = rev b' @ c # rev a'" using arg_cong [OF assms(3), of rev] by simp
  then show ?thesis using split_at_eq [of c "rev b" "rev b'" "rev a" "rev a'"] assms(1,2) by simp
qed

lemma endpointCacheKey_inj:
  assumes "CHR ''|'' \<notin> set slug" and "CHR ''|'' \<notin> set slug'"
    and "endpointCacheKey slug r g key n = endpointCacheKey slug' r' g' key' n'"
  shows "slug = slug' \<and> r = r' \<and> g = g' \<and> key = key' \<and> n = n'"
proof -
  have "(pageCacheKey slug r g @ ''|endpoint|'' @ key) @ CHR ''|'' # itoa (int n) =
      (pageCacheKey slug' r' g' @ ''|endpoint|'' @ key') @ CHR ''|'' # itoa (int n')"
    using assms(3) by (simp add: endpointCacheKey_def)
  from split_last [OF itoa_no_bar itoa_no_bar this]
  have front: "pageCacheKey slug r g @ ''|endpoint|'' @ key = pageCacheKey slug' r' g' @ ''|endpoint|'' @ key'" and n: "n = n'"
    by simp_all
  have "slug @ CHR ''|'' # (itoa (int r) @ CHR ''|'' # (itoa (int g) @ CHR ''|'' # (''endpoint|'' @ key))) =
      slug' @ CHR ''|'' # (itoa (int r') @ CHR ''|'' # (itoa (int g') @ CHR ''|'' # (''endpoint|'' @ key')))"
    using front by (simp add: pageCacheKey_def)
  then have "slug = slug'" and rest: "itoa (int r) @ CHR ''|'' # (itoa (int g) @ CHR ''|'' # (''endpoint|'' @ key)) =
      itoa (int r') @ CHR ''|'' # (itoa (int g') @ CHR ''|'' # (''endpoint|'' @ key'))"
    using split_at_eq [OF assms(1,2)] by blast+
  moreover have "itoa (int r) = itoa (int r')" and rest': "itoa (int g) @ CHR ''|'' # (''endpoint|'' @ key) =
      itoa (int g') @ CHR ''|'' # (''endpoint|'' @ key')"
    using rest split_at_eq [OF itoa_no_bar itoa_no_bar] by blast+
  moreover have "itoa (int g) = itoa (int g')" "''endpoint|'' @ key = ''endpoint|'' @ key'"
    using rest' split_at_eq [OF itoa_no_bar itoa_no_bar] by blast+
  ultimately show ?thesis using n by simp
qed

lemma cache_keys_apart:
  assumes "CHR ''|'' \<notin> set slug" and "CHR ''|'' \<notin> set slug'"
  shows "pageCacheKey slug r g \<noteq> endpointCacheKey slug' r' g' key n"
proof
  assume eq: "pageCacheKey slug r g = endpointCacheKey slug' r' g' key n"
  have "count_list (pageCacheKey slug r g) (CHR ''|'') = 2"
    using assms(1) itoa_no_bar by (simp add: pageCacheKey_def count_notin)
  moreover have "2 < count_list (endpointCacheKey slug' r' g' key n) (CHR ''|'')"
    by (simp add: endpointCacheKey_def pageCacheKey_def)
  ultimately show False using eq by simp
qed

end
