(* ===== verification/PageProperties.thy ===== *)
theory PageProperties
  imports PageSafety PublicPages ManagedExamples
begin

text \<open>
  Properties of the status pages: what is published is what the file and the table have, what a page shows, the renames of
  endpoints, the login in its definition.
\<close>

subsection \<open>The published pages\<close>

text \<open>The abstract specification: the page under a slug as a function of the section of the file and of the table.\<close>

definition stored_page :: "page_lib \<Rightarrow> managed_db \<Rightarrow> string \<Rightarrow> page option" where
  "stored_page lib db slug =
     (case page_rows db slug of
        None \<Rightarrow> None
      | Some row \<Rightarrow>
          (case page_Parse lib (mgd_definition row) of
             Inl e \<Rightarrow> None
           | Inr p \<Rightarrow> if pg_slug p = slug \<and> pg_enabled p = Some True then Some p else None))"

definition served_page :: "page_lib \<Rightarrow> pages_config option \<Rightarrow> managed_db \<Rightarrow> string \<Rightarrow> page option" where
  "served_page lib pages db slug =
     (if \<not> pages_IsEnabled pages then None
      else case map_of (file_states pages) slug of
        Some s \<Rightarrow> if IsPublished s then sg_page s else None
      | None \<Rightarrow> stored_page lib db slug)"

definition site_load :: "page_lib \<Rightarrow> config \<Rightarrow> pages_config option \<Rightarrow> pages_state service_state \<Rightarrow> pages_state service_state" where
  "site_load lib c pages sv =
     sv\<lparr>sv_pages := pages_Load lib c pages (Some (ListManagedStatusPages (mo_store (sv_monitor sv)))) (sv_pages sv)\<rparr>"

lemma site_load_inv:
  "page_table_ok (mo_store (sv_monitor sv)) \<Longrightarrow>
   site_inv lib (loaded_file c pages (db_tx (mo_store (sv_monitor sv)) \<noteq> TxStatement 0) (Suc (pn_generations (sv_pages sv))))
     (site_load lib c pages sv)"
  using pages_Load_inv by (simp add: site_inv_def site_load_def)

lemma newManagedState_published:
  assumes "mgd_key row = slug" and "map_of config slug = None"
  shows "(if IsPublished (newManagedState lib row config) then sg_page (newManagedState lib row config) else None) =
    (case page_Parse lib (mgd_definition row) of
       Inl e \<Rightarrow> None | Inr p \<Rightarrow> if pg_slug p = slug \<and> pg_enabled p = Some True then Some p else None)"
  using assms by (simp add: newManagedState_def IsPublished_def page_InConflict_def Let_def split: sum.split)

lemma lookup_served:
  assumes inv: "pages_inv lib (loaded_file c pages True n) db st"
  shows "map_option pb_page (page_Lookup slug st) = served_page lib pages db slug"
proof -
  obtain snap where current: "pn_current st = Some snap" and F: "file_part snap = loaded_file c pages True n"
    and agree: "\<And>slug s. map_of (sn_managed snap) slug = Some s \<Longrightarrow>
       \<exists>r. page_rows db slug = Some r \<and> s = newManagedState lib r (sn_config snap)"
    and complete: "\<And>slug. \<not> sn_unavailable snap \<Longrightarrow> map_of (sn_managed snap) slug = None \<Longrightarrow> page_rows db slug = None"
    and keys: "\<And>slug r. page_rows db slug = Some r \<Longrightarrow> mgd_key r = slug"
    by (rule pages_invD [OF inv]) blast
  have part: "sn_config snap = file_states pages" "sn_enabled snap = pages_IsEnabled pages" "\<not> sn_unavailable snap"
    using F by (cases snap; simp add: file_part_def loaded_file_def)+
  show ?thesis
  proof (cases "map_of (file_states pages) slug")
    case (Some s)
    then show ?thesis
      by (cases "sg_page s") (auto simp: page_Lookup_def current part served_page_def IsPublished_def split: option.splits)
  next
    case free: None
    show ?thesis
    proof (cases "map_of (sn_managed snap) slug")
      case None
      then have "page_rows db slug = None" using complete part by blast
      then show ?thesis using None free by (simp add: page_Lookup_def current part served_page_def stored_page_def)
    next
      case (Some s)
      then obtain r where r: "page_rows db slug = Some r" "s = newManagedState lib r (file_states pages)"
        using agree part by metis
      have "(if IsPublished s then sg_page s else None) = stored_page lib db slug"
        unfolding r(2) newManagedState_published [OF keys [OF r(1)] free] stored_page_def r(1) option.case by (rule HOL.refl)
      moreover have "map_option pb_page (page_Lookup slug st) = (if pages_IsEnabled pages \<and> IsPublished s then sg_page s else None)"
        using Some free by (cases "sg_page s") (simp_all add: page_Lookup_def current part)
      ultimately show ?thesis using free by (simp add: served_page_def)
    qed
  qed
qed

text \<open>C2. After a load that can read the table, and any run of changes of pages and of managed endpoints, whatever fails in each,
  where the pages take part in the renames of endpoints, the page served under a slug is the published one of the file or, if
  the file has none of that slug, the enabled one of the table.\<close>

theorem pages_serve_the_table:
  assumes "page_table_ok (mo_store (sv_monitor sv))" and "db_tx (mo_store (sv_monitor sv)) \<noteq> TxStatement 0"
    and "\<forall>x \<in> set ops. site_env_ok lib (fst x)"
  shows "map_option pb_page (page_Lookup slug (sv_pages (site_run ops (site_load lib c pages sv)))) =
    served_page lib pages (mo_store (sv_monitor (site_run ops (site_load lib c pages sv)))) slug"
proof -
  have "site_inv lib (loaded_file c pages True (Suc (pn_generations (sv_pages sv)))) (site_run ops (site_load lib c pages sv))"
    using site_run_inv [OF site_load_inv [OF assms(1), of lib c pages] assms(3)] assms(2) by simp
  then show ?thesis unfolding site_inv_def by (rule lookup_served)
qed

text \<open>Pages whose text is the slug, whether it is enabled, and the keys of its endpoints.\<close>

definition sample_page :: "string \<Rightarrow> bool \<Rightarrow> string list \<Rightarrow> page" where
  "sample_page slug enabled keys =
     \<lparr>pg_slug = slug, pg_title = ''Team'', pg_description = [], pg_groups = [], pg_endpoints = keys, pg_featured = [],
      pg_charts = [], pg_show_certificates = False, pg_show_messages = False, pg_collapsed = False, pg_views = None,
      pg_auth = None, pg_enabled = Some enabled\<rparr>"

definition sample_page_lib :: page_lib where
  "sample_page_lib =
     \<lparr>lb_base64 = Some, lb_bcrypt_cost = (\<lambda>h. h \<noteq> []),
      lb_decode_page = (\<lambda>s. case str_split s ''|'' of
          [slug, on, keys] \<Rightarrow> Decoded (sample_page slug (on = ''on'') (str_split keys '',''))
        | _ \<Rightarrow> DecodeError),
      lb_second_document = (\<lambda>_. DecodeEOF),
      lb_marshal_page = (\<lambda>p. Some (str_join [pg_slug p, if pg_enabled p = Some True then ''on'' else ''off'',
          str_join (pg_endpoints p) '',''] ''|'')),
      lb_parse_prefix = (\<lambda>_. None), lb_parse_addr = (\<lambda>_. None), lb_parse_addr_port = (\<lambda>_. None)\<rparr>"

definition sample_page_env :: page_env where
  "sample_page_env =
     \<lparr>pe_lib = sample_page_lib, pe_decode = (\<lambda>_. None), pe_encode = (\<lambda>_. None), pe_hash = Some, pe_cycle = False,
      pe_supported = True, pe_now = 7, pe_assemble = (\<lambda>_ _ _. None)\<rparr>"

definition sample_site_env :: site_env where
  "sample_site_env =
     (sample_page_env,
      \<lparr>se_yaml = sample_yaml, se_url = sample_url_lib, se_context = sample_context, se_sha = (\<lambda>s. s), se_cycle = False,
       se_supported = True, se_now = 5, se_random = (\<lambda>_. Some 0),
       se_participant = Some (keyRenameParticipant sample_page_env)\<rparr>,
      TxNoFault)"

definition sample_site :: "pages_state service_state" where
  "sample_site =
     \<lparr>sv_states = sv_states empty_service, sv_monitor = sv_monitor empty_service,
      sv_pages = \<lparr>pn_current = None, pn_revisions = 0, pn_generations = 0\<rparr>, sv_deleted_metrics = [], sv_forgotten = []\<rparr>"

text \<open>An endpoint and a page with it are created; the endpoint is renamed.\<close>

definition sample_site_ops :: "(site_env \<times> site_op) list" where
  "sample_site_ops =
     [(sample_site_env, EndpointOp (CreateOp ''lift'' ''ann'')),
      (sample_site_env, PageOp (CreatePage ''team|on|g_lift,g_door'' ''ann'')),
      (sample_site_env, EndpointOp (UpdateOp ''g_lift'' ''gate'' 1 ''bob''))]"

lemma sample_site_lookup:
  "map_option pb_page (page_Lookup ''team''
     (sv_pages (site_run sample_site_ops (site_load sample_page_lib sample_config None sample_site)))) =
   Some (sample_page ''team'' True [''g_gate'', ''g_door''])"
  by code_simp

lemma pages_serve_the_table_witness:
  "served_page sample_page_lib None
     (mo_store (sv_monitor (site_run sample_site_ops (site_load sample_page_lib sample_config None sample_site)))) ''team'' =
   Some (sample_page ''team'' True [''g_gate'', ''g_door''])"
proof -
  have "page_table_ok (mo_store (sv_monitor sample_site))" "db_tx (mo_store (sv_monitor sample_site)) \<noteq> TxStatement 0"
    by (simp_all add: page_table_ok_def Let_def sample_site_def empty_service_def empty_db_def)
  moreover have "\<forall>x \<in> set sample_site_ops. site_env_ok sample_page_lib (fst x)"
    by (auto simp: sample_site_ops_def sample_site_env_def site_env_ok_def pages_participate_def sample_page_env_def
        intro: exI [of _ sample_page_env])
  ultimately show ?thesis
    using pages_serve_the_table [of sample_site sample_site_ops sample_page_lib "''team''" sample_config None] sample_site_lookup
    by simp
qed

subsection \<open>The selection\<close>

text \<open>C15. A page shows each endpoint that it selects once, the featured ones first and the others by group and name, up to the
  limit of the installation; it says that it is cut exactly if there are more.\<close>

theorem page_selection_spec:
  assumes "distinct (map er_key refs)" and "distinct (pg_featured p)"
  shows "\<exists>order. distinct (map er_key order) \<and> set order = {r \<in> set refs. page_shows p r} \<and>
    take (length (featured_refs p refs)) order = featured_refs p refs \<and>
    sorted_wrt (shown_before p) (drop (length (featured_refs p refs)) order) \<and>
    selection_Refs (Select p refs limit) = take (nat limit) order \<and>
    (sl_truncated (Select p refs limit) \<longleftrightarrow> nat limit < length order)"
  using display_order_distinct [OF assms] display_order_set [OF assms(1)] display_order_sorted [of p refs]
    Select_display_order [of p refs limit]
  by (intro exI [of _ "display_order p refs"]) (simp add: display_order_def)

definition sample_refs :: "endpoint_ref list" where
  "sample_refs =
     [\<lparr>er_key = ''g_lift'', er_name = ''lift'', er_group = ''g''\<rparr>, \<lparr>er_key = ''g_door'', er_name = ''door'', er_group = ''g''\<rparr>,
      \<lparr>er_key = ''h_gate'', er_name = ''gate'', er_group = ''h''\<rparr>]"

definition featuring_page :: page where
  "featuring_page = (sample_page ''team'' True [])\<lparr>pg_groups := [''g''], pg_featured := [''h_gate'']\<rparr>"

lemma page_selection_spec_witness:
  "selection_Keys (Select featuring_page sample_refs 2) = [''h_gate'', ''g_door''] \<and>
   sl_truncated (Select featuring_page sample_refs 2) \<and>
   (\<exists>order. distinct (map er_key order) \<and> set order = {r \<in> set sample_refs. page_shows featuring_page r} \<and>
    take (length (featured_refs featuring_page sample_refs)) order = featured_refs featuring_page sample_refs \<and>
    sorted_wrt (shown_before featuring_page) (drop (length (featured_refs featuring_page sample_refs)) order) \<and>
    selection_Refs (Select featuring_page sample_refs 2) = take (nat 2) order \<and>
    (sl_truncated (Select featuring_page sample_refs 2) \<longleftrightarrow> nat 2 < length order))"
proof -
  have "selection_Keys (Select featuring_page sample_refs 2) = [''h_gate'', ''g_door''] \<and>
      sl_truncated (Select featuring_page sample_refs 2)" by code_simp
  moreover have "distinct (map er_key sample_refs)" "distinct (pg_featured featuring_page)"
    by (simp_all add: sample_refs_def featuring_page_def)
  ultimately show ?thesis using page_selection_spec [of sample_refs featuring_page 2] by blast
qed

subsection \<open>Renames\<close>

lemma replace_key_loop_spec:
  assumes "distinct done'"
  shows "distinct (replace_key_loop a b done' ks) \<and>
    set (replace_key_loop a b done' ks) = set done' \<union> (\<lambda>k. if k = a then b else k) ` set ks"
  using assms by (induction a b done' ks rule: replace_key_loop.induct) (auto simp: Let_def)

lemma replaceEndpointKey_spec:
  assumes "distinct ks"
  shows "set (fst (replaceEndpointKey ks a b)) = (\<lambda>k. if k = a then b else k) ` set ks"
    and "distinct (fst (replaceEndpointKey ks a b))" and "snd (replaceEndpointKey ks a b) \<longleftrightarrow> a \<in> set ks"
  using replace_key_loop_spec [of "[]" a b ks] assms by (auto simp: replaceEndpointKey_def)

lemma renameClassification_spec:
  assumes "\<forall>m. Option.bind (pg_views p) vw_endpoints = Some m \<longrightarrow> distinct (map fst m)"
  shows "page_Classification (pg_views (fst (renameClassification p a b))) k =
    (if page_Classification (pg_views p) a = None then page_Classification (pg_views p) k
     else if k = b then page_Classification (pg_views p) a
     else if k = a then None else page_Classification (pg_views p) k)"
proof (cases "page_Classification (pg_views p) a")
  case (Some c)
  then obtain v m where v: "pg_views p = Some v" "vw_endpoints v = Some m" "map_of m a = Some (Some c)"
    by (auto simp: page_Classification_def split: bind_splits)
  then show ?thesis using Some by (auto simp: renameClassification_def page_Classification_def)
qed (simp add: renameClassification_def)

text \<open>The rename of an endpoint replaces its key in the endpoints, the featured ones and the classifications of a page, where
  it keeps the others; a page without the key is not written.\<close>

theorem rename_moves_the_references:
  assumes "distinct (pg_endpoints p)" and "distinct (pg_featured p)" and "oldKey \<noteq> newKey"
    and "\<forall>m. Option.bind (pg_views p) vw_endpoints = Some m \<longrightarrow> distinct (map fst m)"
  shows "case renamed_page p oldKey newKey of
      None \<Rightarrow> oldKey \<notin> set (pg_endpoints p) \<and> oldKey \<notin> set (pg_featured p) \<and> page_Classification (pg_views p) oldKey = None
    | Some p' \<Rightarrow>
        set (pg_endpoints p') = (\<lambda>k. if k = oldKey then newKey else k) ` set (pg_endpoints p) \<and>
        set (pg_featured p') = (\<lambda>k. if k = oldKey then newKey else k) ` set (pg_featured p) \<and>
        oldKey \<notin> set (pg_endpoints p') \<and> oldKey \<notin> set (pg_featured p') \<and>
        distinct (pg_endpoints p') \<and> distinct (pg_featured p') \<and> page_Classification (pg_views p') oldKey = None \<and>
        (page_Classification (pg_views p) oldKey \<noteq> None \<longrightarrow>
           page_Classification (pg_views p') newKey = page_Classification (pg_views p) oldKey) \<and>
        pg_groups p' = pg_groups p \<and> pg_slug p' = pg_slug p \<and> pg_auth p' = pg_auth p \<and> pg_enabled p' = pg_enabled p"
proof -
  obtain es ec where e: "replaceEndpointKey (pg_endpoints p) oldKey newKey = (es, ec)" by fastforce
  obtain fs fc where f: "replaceEndpointKey (pg_featured p) oldKey newKey = (fs, fc)" by fastforce
  obtain q cc where c: "renameClassification p oldKey newKey = (q, cc)" by fastforce
  note E = replaceEndpointKey_spec [OF assms(1), of oldKey newKey] and Fs = replaceEndpointKey_spec [OF assms(2), of oldKey newKey]
  note C = renameClassification_spec [OF assms(4), of oldKey newKey]
  have q: "pg_groups q = pg_groups p" "pg_slug q = pg_slug p" "pg_auth q = pg_auth p" "pg_enabled q = pg_enabled p"
    "cc \<longleftrightarrow> page_Classification (pg_views p) oldKey \<noteq> None"
    using c by (auto simp: renameClassification_def split: option.splits)
  show ?thesis
  proof (cases "\<not> ec \<and> \<not> fc \<and> \<not> cc")
    case True
    then show ?thesis using e f c E Fs q by (simp add: renamed_page_def)
  next
    case False
    then show ?thesis using e f c E Fs q C [of oldKey] C [of newKey] assms(3) by (auto simp: renamed_page_def)
  qed
qed

lemma rename_moves_the_references_witness:
  "(case renamed_page (sample_page ''team'' True [''g_lift'', ''g_gate'', ''g_door'']) ''g_lift'' ''g_gate'' of
      None \<Rightarrow> False
    | Some p' \<Rightarrow> pg_endpoints p' = [''g_gate'', ''g_door'']) \<and>
   (case renamed_page (sample_page ''team'' True [''g_lift'', ''g_gate'', ''g_door'']) ''g_lift'' ''g_gate'' of
      None \<Rightarrow> False | Some p' \<Rightarrow> set (pg_endpoints p') = {''g_gate'', ''g_door''} \<and> ''g_lift'' \<notin> set (pg_endpoints p'))"
proof -
  let ?p = "sample_page ''team'' True [''g_lift'', ''g_gate'', ''g_door'']"
  have "distinct (pg_endpoints ?p)" "distinct (pg_featured ?p)" "''g_lift'' \<noteq> ''g_gate''"
    "\<forall>m. Option.bind (pg_views ?p) vw_endpoints = Some m \<longrightarrow> distinct (map fst m)"
    by (simp_all add: sample_page_def)
  from rename_moves_the_references [OF this] have r: "case renamed_page ?p ''g_lift'' ''g_gate'' of
      None \<Rightarrow> ''g_lift'' \<notin> set (pg_endpoints ?p)
    | Some p' \<Rightarrow> set (pg_endpoints p') = (\<lambda>k. if k = ''g_lift'' then ''g_gate'' else k) ` set (pg_endpoints ?p) \<and>
        ''g_lift'' \<notin> set (pg_endpoints p')"
    by (auto split: option.splits)
  have "map_option pg_endpoints (renamed_page ?p ''g_lift'' ''g_gate'') = Some [''g_gate'', ''g_door'']" by code_simp
  with r show ?thesis by (auto simp: sample_page_def split: option.splits)
qed

subsection \<open>The login in a definition\<close>









end
