(* ===== verification/PageValidity.thy ===== *)
theory PageValidity
  imports PageConfig
begin

text \<open>What the validation of a page guarantees: \<open>valid_page\<close> is the type of a page that the program works with.\<close>

subsection \<open>Lists\<close>

lemma char_lower_space [simp]: "is_space (char_lower c) = is_space c"
proof (cases "65 \<le> (of_char c :: nat) \<and> (of_char c :: nat) \<le> 90")
  case True
  then have "(of_char (char_lower c) :: nat) = of_char c + 32" by (auto simp: char_lower_def)
  with True show ?thesis by (auto simp: is_space_def)
qed (auto simp: char_lower_def)

lemma trim_space_lower: "trim_space (to_lower s) = to_lower (trim_space s)"
  by (simp add: trim_space_def to_lower_def dropWhile_map rev_map comp_def)

lemma normalize_key_idem [simp]: "normalize_key (normalize_key k) = normalize_key k"
  by (simp add: normalize_key_def trim_space_lower)

text \<open>A list of normalized entries, without duplicates, within the limits.\<close>

definition valid_list :: "nat \<Rightarrow> nat \<Rightarrow> (string \<Rightarrow> string) \<Rightarrow> string list \<Rightarrow> bool" where
  "valid_list items n f xs \<longleftrightarrow>
     length xs \<le> items \<and> distinct xs \<and> (\<forall>x \<in> set xs. f x = x \<and> 0 < rune_count x \<and> rune_count x \<le> n)"

lemma normalize_entries_spec:
  assumes "normalize_entries n f seen xs = Inr ys"
  shows "ys = map f xs \<and> distinct ys \<and> set ys \<inter> set seen = {} \<and> (\<forall>y \<in> set ys. 0 < rune_count y \<and> rune_count y \<le> n)"
  using assms
proof (induction xs arbitrary: seen ys)
  case (Cons x xs)
  obtain zs where z: "normalize_entries n f (f x # seen) xs = Inr zs" "ys = f x # zs" "f x \<notin> set seen"
    "0 < rune_count (f x)" "rune_count (f x) \<le> n"
    using Cons.prems by (cases "normalize_entries n f (f x # seen) xs") (auto simp: Let_def split: if_splits)
  have "zs = map f xs" "distinct zs" "set zs \<inter> set (f x # seen) = {}" "\<forall>y \<in> set zs. 0 < rune_count y \<and> rune_count y \<le> n"
    using Cons.IH [OF z(1)] by blast+
  moreover have "f x \<notin> set zs" "set zs \<inter> set seen = {}" using calculation(3) by auto
  ultimately show ?case using z(2-5) by simp
qed simp

lemma normalizeList_valid:
  assumes "normalizeList xs items n f = Inr ys" and "\<And>x. f (f x) = f x"
  shows "valid_list items n f ys"
  using assms normalize_entries_spec [of n f "[]" xs ys] by (auto simp: normalizeList_def valid_list_def split: if_splits)

subsection \<open>Views\<close>

definition valid_classification :: "string list \<Rightarrow> string \<times> classification option \<Rightarrow> bool" where
  "valid_classification environments kc \<longleftrightarrow>
     (case kc of (key, c) \<Rightarrow>
        normalize_key key = key \<and> 0 < rune_count key \<and> rune_count key \<le> MaximumEndpointKeyLength \<and>
        (case c of
           None \<Rightarrow> False
         | Some c \<Rightarrow>
             rune_count (cs_application c) \<le> MaximumApplicationLength \<and>
             (cs_application c \<noteq> [] \<or> cs_environment c \<noteq> []) \<and>
             (cs_environment c = [] \<or> cs_environment c \<in> set environments)))"

definition valid_views :: "views \<Rightarrow> bool" where
  "valid_views v \<longleftrightarrow>
     EffectiveEnabled (Some v) \<noteq> [] \<and> distinct (EffectiveEnabled (Some v)) \<and> set (EffectiveEnabled (Some v)) \<subseteq> set knownViews \<and>
     EffectiveDefault (Some v) \<in> set (EffectiveEnabled (Some v)) \<and>
     rune_count (vw_group_label v) \<le> MaximumGroupLabelLength \<and>
     None \<notin> set (vw_environments v) \<and> distinct (environment_ids v) \<and> length (environment_ids v) \<le> MaximumEnvironments \<and>
     (\<forall>i \<in> set (environment_ids v). hyphenated MaximumEnvironmentIDLength i) \<and>
     valid_list MaximumApplications MaximumApplicationLength trim_space (case vw_applications v of None \<Rightarrow> [] | Some xs \<Rightarrow> xs) \<and>
     (case vw_endpoints v of
        None \<Rightarrow> True
      | Some m \<Rightarrow> distinct (map fst m) \<and> (\<forall>kc \<in> set m. valid_classification (environment_ids v) kc))"

lemma validate_enabled_views_spec:
  "validate_enabled_views seen vs = Inr ws \<Longrightarrow>
   distinct ws \<and> set ws \<subseteq> set knownViews \<and> set ws \<inter> set seen = {} \<and> (ws = [] \<longleftrightarrow> vs = [])"
proof (induction vs arbitrary: seen ws)
  case (Cons v vs)
  obtain xs where "validate_enabled_views (trim_space v # seen) vs = Inr xs" "ws = trim_space v # xs"
    "trim_space v \<in> set knownViews" "trim_space v \<notin> set seen"
    using Cons.prems by (cases "validate_enabled_views (trim_space v # seen) vs") (auto simp: Let_def split: if_splits)
  then show ?case using Cons.IH [of "trim_space v # seen" xs] by auto
qed simp

lemma validateViews_spec:
  assumes "validateViews v = Inr w"
  shows "EffectiveEnabled (Some w) \<noteq> [] \<and> distinct (EffectiveEnabled (Some w)) \<and>
    set (EffectiveEnabled (Some w)) \<subseteq> set knownViews \<and> EffectiveDefault (Some w) \<in> set (EffectiveEnabled (Some w)) \<and>
    rune_count (vw_group_label w) \<le> MaximumGroupLabelLength"
    and "vw_environments w = vw_environments v"
proof -
  obtain enabled where e: "(case vw_enabled v of None \<Rightarrow> Inr None | Some vs \<Rightarrow> map_sum id Some (validate_enabled_views [] vs)) = Inr enabled"
    and ne: "vw_enabled v \<noteq> Some []"
    and w: "w = v\<lparr>vw_enabled := enabled, vw_default := trim_space (vw_default v), vw_group_label := trim_space (vw_group_label v)\<rparr>"
    and d: "trim_space (vw_default v) = [] \<or> trim_space (vw_default v) \<in> set (case enabled of None \<Rightarrow> [ViewList] | Some vs \<Rightarrow> vs)"
    and l: "rune_count (trim_space (vw_group_label v)) \<le> MaximumGroupLabelLength"
    using assms by (auto simp: validateViews_def Let_def EffectiveEnabled_def split: if_splits sum.splits)
  have "(case enabled of None \<Rightarrow> True | Some vs \<Rightarrow> vs \<noteq> [] \<and> distinct vs \<and> set vs \<subseteq> set knownViews)"
  proof (cases "vw_enabled v")
    case (Some vs)
    then obtain ws where "validate_enabled_views [] vs = Inr ws" "enabled = Some ws"
      using e by (cases "validate_enabled_views [] vs") auto
    then show ?thesis using validate_enabled_views_spec [of "[]" vs ws] ne Some by auto
  qed (use e in simp)
  then show "EffectiveEnabled (Some w) \<noteq> [] \<and> distinct (EffectiveEnabled (Some w)) \<and>
      set (EffectiveEnabled (Some w)) \<subseteq> set knownViews \<and> EffectiveDefault (Some w) \<in> set (EffectiveEnabled (Some w)) \<and>
      rune_count (vw_group_label w) \<le> MaximumGroupLabelLength"
    using d l by (auto simp: w EffectiveEnabled_def EffectiveDefault_def knownViews_def split: option.splits)
  show "vw_environments w = vw_environments v" by (simp add: w)
qed

lemma validate_environment_list_spec:
  "validate_environment_list ids es = Inr fs \<Longrightarrow>
   None \<notin> set fs \<and> length fs = length es \<and> distinct (map env_id (List.map_filter id fs)) \<and>
   set (map env_id (List.map_filter id fs)) \<inter> set ids = {} \<and>
   (\<forall>i \<in> set (map env_id (List.map_filter id fs)). hyphenated MaximumEnvironmentIDLength i) \<and>
   length (List.map_filter id fs) = length fs"
proof (induction ids es arbitrary: fs rule: validate_environment_list.induct)
  case (3 ids e es)
  let ?i = "trim_space (env_id e)"
  let ?e = "Some \<lparr>env_id = ?i, env_name = trim_space (env_name e), env_short = trim_space (env_short e)\<rparr>"
  have c: "hyphenated MaximumEnvironmentIDLength ?i" "?i \<notin> set ids"
    "\<not> rune_count (trim_space (env_name e)) > MaximumEnvironmentNameLength"
    "\<not> rune_count (trim_space (env_short e)) > MaximumEnvironmentShortLength"
    using "3.prems" by (auto simp: Let_def split: if_splits)
  then obtain gs where g: "validate_environment_list (?i # ids) es = Inr gs" "fs = ?e # gs"
    using "3.prems" by (cases "validate_environment_list (?i # ids) es") (auto simp: Let_def)
  obtain G where G: "G = List.map_filter id gs" by blast
  have ih: "None \<notin> set gs" "length gs = length es" "distinct (map env_id G)" "set (map env_id G) \<inter> set (?i # ids) = {}"
    "\<forall>i \<in> set (map env_id G). hyphenated MaximumEnvironmentIDLength i" "length G = length gs"
    using "3.IH" [OF HOL.refl HOL.refl HOL.refl _ _ _ _ g(1)] c unfolding G by blast+
  have mf: "List.map_filter id fs = \<lparr>env_id = ?i, env_name = trim_space (env_name e), env_short = trim_space (env_short e)\<rparr> # G"
    unfolding g(2) G List.map_filter_simps by simp
  have "None \<notin> set fs" "length fs = length (Some e # es)" "length fs = Suc (length gs)" using ih(1,2) g(2) by simp_all
  then show ?case unfolding mf using c ih(3-6) by auto
qed (simp_all add: List.map_filter_simps)

lemma validate_endpoint_entries_spec:
  assumes "validate_endpoint_entries environments done' m = Inr m'"
    and "distinct (map fst done') \<and> (\<forall>kc \<in> set done'. valid_classification environments kc)"
  shows "distinct (map fst m') \<and> (\<forall>kc \<in> set m'. valid_classification environments kc)"
  using assms
proof (induction environments done' m rule: validate_endpoint_entries.induct)
  case (2 environments done' rawKey classified rest)
  let ?key = "normalize_key rawKey"
  obtain c0 where c0: "classified = Some c0" using "2.prems"(1) by (cases classified) (auto simp: Let_def split: if_splits)
  define c where "c = \<lparr>cs_application = trim_space (cs_application c0), cs_environment = trim_space (cs_environment c0)\<rparr>"
  have ok: "\<not> (rune_count ?key = 0 \<or> rune_count ?key > MaximumEndpointKeyLength)" "map_of done' ?key = None"
    "\<not> (cs_application c = [] \<and> cs_environment c = [])" "\<not> rune_count (cs_application c) > MaximumApplicationLength"
    "\<not> (cs_environment c \<noteq> [] \<and> cs_environment c \<notin> set environments)"
    and rest: "validate_endpoint_entries environments (done' @ [(?key, Some c)]) rest = Inr m'"
    using "2.prems"(1) by (auto simp: c0 c_def Let_def split: if_splits)
  have "valid_classification environments (?key, Some c)" using ok by (auto simp: valid_classification_def)
  moreover have "?key \<notin> set (map fst done')" using ok(2) by (simp add: map_of_eq_None_iff)
  ultimately have "distinct (map fst (done' @ [(?key, Some c)])) \<and> (\<forall>kc \<in> set (done' @ [(?key, Some c)]). valid_classification environments kc)"
    using "2.prems"(2) by auto
  then show ?case using "2.IH" [OF HOL.refl _ _ c0 HOL.refl] ok rest c_def by auto
qed simp

lemma validateEnvironments_spec:
  assumes "validateEnvironments v = Inr w"
  shows "\<exists>es. w = v\<lparr>vw_environments := es\<rparr> \<and> None \<notin> set es \<and> distinct (environment_ids w) \<and>
    length (environment_ids w) \<le> MaximumEnvironments \<and>
    (\<forall>i \<in> set (environment_ids w). hyphenated MaximumEnvironmentIDLength i)"
proof -
  obtain es where e: "validate_environment_list [] (vw_environments v) = Inr es" "w = v\<lparr>vw_environments := es\<rparr>"
    "length (vw_environments v) \<le> MaximumEnvironments"
    using assms by (cases "validate_environment_list [] (vw_environments v)") (auto simp: validateEnvironments_def split: if_splits)
  have "environment_ids w = map env_id (List.map_filter id es)" by (simp add: environment_ids_def e(2))
  then show ?thesis using validate_environment_list_spec [OF e(1)] e(2,3) by (intro exI [of _ es]) simp
qed

lemma validate_classifications_spec:
  assumes "validate_classifications v environments = Inr m"
  shows "case m of None \<Rightarrow> True | Some m \<Rightarrow> distinct (map fst m) \<and> (\<forall>kc \<in> set m. valid_classification environments kc)"
proof (cases "vw_endpoints v")
  case None
  then show ?thesis using assms by (auto simp: validate_classifications_def)
next
  case (Some x)
  then obtain m' where "validate_endpoint_entries environments [] (sorted_entries x) = Inr m'" "m = Some m'"
    using assms
    by (cases "validate_endpoint_entries environments [] (sorted_entries x)") (auto simp: validate_classifications_def split: if_splits)
  then show ?thesis using validate_endpoint_entries_spec [of environments "[]" "sorted_entries x" m'] by simp
qed

lemma views_validate_spec:
  assumes "views_validate v = Inr w"
  shows "case w of None \<Rightarrow> v = None | Some w \<Rightarrow> valid_views w"
proof (cases v)
  case None
  then show ?thesis using assms by (auto simp: views_validate_def)
next
  case (Some v0)
  obtain v1 where v1: "validateViews v0 = Inr v1" using assms Some by (auto simp: views_validate_def split: sum.splits)
  obtain v2 where v2: "validateEnvironments v1 = Inr v2" using assms Some v1 by (auto simp: views_validate_def split: sum.splits)
  obtain xs gs es where x: "normalizeList (case vw_applications v2 of None \<Rightarrow> [] | Some as \<Rightarrow> as)
      MaximumApplications MaximumApplicationLength trim_space = Inr xs"
    and es: "validate_classifications v2 (environment_ids v2) = Inr es"
    and w: "w = Some (v2\<lparr>vw_applications := map_option (\<lambda>_. xs) (vw_applications v2), vw_groups := gs, vw_endpoints := es\<rparr>)"
    using assms Some v1 v2 by (auto simp: views_validate_def split: sum.splits)
  define u where "u = v2\<lparr>vw_applications := map_option (\<lambda>_. xs) (vw_applications v2), vw_groups := gs, vw_endpoints := es\<rparr>"
  obtain envs where envs: "v2 = v1\<lparr>vw_environments := envs\<rparr>" "None \<notin> set envs" "distinct (environment_ids v2)"
    "length (environment_ids v2) \<le> MaximumEnvironments"
    "\<forall>i \<in> set (environment_ids v2). hyphenated MaximumEnvironmentIDLength i"
    using validateEnvironments_spec [OF v2] by blast
  have same: "EffectiveEnabled (Some u) = EffectiveEnabled (Some v1)" "EffectiveDefault (Some u) = EffectiveDefault (Some v1)"
    "vw_group_label u = vw_group_label v1" "environment_ids u = environment_ids v2" "vw_environments u = envs" "vw_endpoints u = es"
    by (simp_all add: u_def envs(1) EffectiveEnabled_def EffectiveDefault_def environment_ids_def)
  have "valid_list MaximumApplications MaximumApplicationLength trim_space
      (case vw_applications u of None \<Rightarrow> [] | Some xs \<Rightarrow> xs)"
  proof (cases "vw_applications v2")
    case (Some as)
    then show ?thesis using normalizeList_valid [OF x] by (simp add: u_def)
  qed (simp add: u_def valid_list_def)
  then have "valid_views u"
    using validateViews_spec(1) [OF v1] envs(2-5) validate_classifications_spec [OF es] unfolding valid_views_def same by simp
  then show ?thesis by (simp add: w u_def)
qed

subsection \<open>Pages\<close>

definition valid_page :: "page \<Rightarrow> bool" where
  "valid_page p \<longleftrightarrow>
     hyphenated MaximumSlugLength (pg_slug p) \<and> pg_slug p \<notin> set reservedSlugs \<and>
     trim_space (pg_title p) = pg_title p \<and> 0 < rune_count (pg_title p) \<and> rune_count (pg_title p) \<le> MaximumTitleLength \<and>
     trim_space (pg_description p) = pg_description p \<and> rune_count (pg_description p) \<le> MaximumDescriptionLength \<and>
     valid_list MaximumGroups MaximumGroupLength trim_space (pg_groups p) \<and>
     valid_list MaximumEndpointKeys MaximumEndpointKeyLength normalize_key (pg_endpoints p) \<and>
     valid_list MaximumFeatured MaximumEndpointKeyLength normalize_key (pg_featured p) \<and>
     valid_list MaximumCharts MaximumEndpointKeyLength normalize_key (pg_charts p) \<and>
     \<not> (pg_groups p = [] \<and> pg_endpoints p = [] \<and> pg_featured p = []) \<and>
     (case pg_views p of None \<Rightarrow> True | Some v \<Rightarrow> valid_views v)"

lemma page_ValidateAndSetDefaults_valid:
  assumes "page_ValidateAndSetDefaults lib p = Inr q"
  shows "valid_page q"
proof -
  obtain gs es fs cs au vs where l: "normalizeList (pg_groups p) MaximumGroups MaximumGroupLength trim_space = Inr gs"
      "normalizeList (pg_endpoints p) MaximumEndpointKeys MaximumEndpointKeyLength normalize_key = Inr es"
      "normalizeList (pg_featured p) MaximumFeatured MaximumEndpointKeyLength normalize_key = Inr fs"
      "normalizeList (pg_charts p) MaximumCharts MaximumEndpointKeyLength normalize_key = Inr cs"
    and v: "views_validate (pg_views p) = Inr vs"
    and ne: "\<not> (gs = [] \<and> es = [] \<and> fs = [])"
    and s: "ValidateSlug (trim_space (pg_slug p)) = None"
    and t: "0 < rune_count (trim_space (pg_title p))" "rune_count (trim_space (pg_title p)) \<le> MaximumTitleLength"
      "rune_count (trim_space (pg_description p)) \<le> MaximumDescriptionLength"
    and q: "q = p\<lparr>pg_slug := trim_space (pg_slug p), pg_title := trim_space (pg_title p),
        pg_description := trim_space (pg_description p), pg_auth := au, pg_views := vs, pg_groups := gs,
        pg_endpoints := es, pg_featured := fs, pg_charts := cs\<rparr>"
    using assms by (auto simp: page_ValidateAndSetDefaults_def Let_def split: option.splits if_splits sum.splits)
  have "hyphenated MaximumSlugLength (pg_slug q)" "pg_slug q \<notin> set reservedSlugs"
    using s by (auto simp: ValidateSlug_def MaximumSlugLength_def q Let_def split: if_splits)
  moreover have "case pg_views q of None \<Rightarrow> True | Some v \<Rightarrow> valid_views v"
    using views_validate_spec [OF v] by (cases vs) (simp_all add: q)
  ultimately show ?thesis
    using l [THEN normalizeList_valid] t ne by (simp add: valid_page_def q)
qed

end
