(* ===== verification/PublicProperties.thy ===== *)
theory PublicProperties
  imports PageProperties PageValidity
begin

text \<open>
  Properties of the public side of the status pages: the validity of a page, the client of a request, the limit of the
  costly responses, and what the details of an endpoint show.
\<close>

subsection \<open>Validity\<close>

text \<open>C24. A page that passes the validation is valid: a proper slug, texts within their limits, lists of normalized entries
  without duplicates, something to show, and views whose default is enabled and whose classifications name declared
  environments.\<close>

theorem validated_page_valid:
  assumes "page_ValidateAndSetDefaults lib p = Inr q"
  shows "valid_page q"
  using assms by (rule page_ValidateAndSetDefaults_valid)

definition page_with_views :: page where
  "page_with_views = (sample_page ''  team '' True ['' G_Lift'', ''g_door''])\<lparr>pg_views := Some
     \<lparr>vw_enabled = Some ['' matrix''], vw_default = ''matrix'', vw_group_label = [],
      vw_environments = [Some \<lparr>env_id = ''prod'', env_name = [], env_short = []\<rparr>], vw_applications = None, vw_groups = None,
      vw_endpoints = Some [(''G_LIFT '', Some \<lparr>cs_application = [], cs_environment = '' prod''\<rparr>)]\<rparr>\<rparr>"

lemma validated_page_valid_witness:
  "(case page_ValidateAndSetDefaults sample_page_lib page_with_views of
      Inl _ \<Rightarrow> False | Inr q \<Rightarrow> pg_slug q = ''team'' \<and> pg_endpoints q = [''g_lift'', ''g_door''] \<and> valid_page q)"
proof -
  have "(case page_ValidateAndSetDefaults sample_page_lib page_with_views of
      Inl _ \<Rightarrow> False | Inr q \<Rightarrow> pg_slug q = ''team'' \<and> pg_endpoints q = [''g_lift'', ''g_door''])" by code_simp
  then show ?thesis
    using validated_page_valid [of sample_page_lib page_with_views] by (auto split: sum.splits)
qed

subsection \<open>Clients\<close>





subsection \<open>The limit\<close>

text \<open>Within one window, at most as many costly responses of a client are allowed as the limit says, whatever the hits of
  the others.\<close>

theorem public_hits_bounded:
  assumes "public_limiter_ok w l" and "0 < pu_limit l" and "allowed_in k w l \<le> pu_limit l"
    and "\<forall>(ip, now) \<in> set hits. window_start now = w \<and> 0 \<le> now"
    and "length (pu_entries l) + length hits \<le> pu_keys l"
  shows "int (length (allowed_hits k (hit_run hits l))) \<le> pu_limit l - allowed_in k w l"
  using hits_bound [OF assms(1,2,4,5), of k] assms(3) by simp

lemma public_hits_bounded_witness:
  "let hits = replicate 4 (Addr4 7, 5) @ [(Addr4 8, 6)]; results = hit_run hits (NewLimiter 3 10)
   in map snd results = [True, True, True, False, True] \<and>
      int (length (allowed_hits (limiterKey (Addr4 7)) results)) \<le> 3"
proof -
  let ?hits = "replicate 4 (Addr4 7, 5) @ [(Addr4 8, 6)] :: (addr \<times> time) list" and ?l = "NewLimiter 3 10"
  have "map snd (hit_run ?hits ?l) = [True, True, True, False, True]" by code_simp
  moreover have "window_start 5 = 0" "window_start 6 = 0" by code_simp+
  then have "int (length (allowed_hits (limiterKey (Addr4 7)) (hit_run ?hits ?l))) \<le> pu_limit ?l - allowed_in (limiterKey (Addr4 7)) 0 ?l"
    by (intro public_hits_bounded) (auto simp: public_limiter_ok_def NewLimiter_def allowed_in_def)
  ultimately show ?thesis by (simp add: NewLimiter_def allowed_in_def)
qed

subsection \<open>Details\<close>

lemma findShownEndpoint_shown:
  assumes "findShownEndpoint pub refs key = Some r" and "distinct (map er_key refs)"
  shows "er_key r = key \<and> r \<in> set refs \<and> page_shows (pb_page pub) r"
proof -
  have "er_key r = key" "r \<in> set (selection_Refs (Select (pb_page pub) refs (pb_maximum pub)))"
    using assms(1) by (auto simp: findShownEndpoint_def find_Some_iff)
  then show ?thesis
    using display_order_set [OF assms(2)] Select_display_order [of "pb_page pub" refs "pb_maximum pub"]
    by (auto dest: in_set_takeD)
qed

text \<open>C10. After any run of changes of pages and endpoints, the details of an endpoint are only given for a page that the file
  or the table publishes under the slug, and only for an endpoint that this page shows.\<close>

theorem details_only_of_shown_endpoints:
  assumes "page_table_ok (mo_store (sv_monitor sv))" and "db_tx (mo_store (sv_monitor sv)) \<noteq> TxStatement 0"
    and "\<forall>x \<in> set ops. site_env_ok lib (fst x)" and "distinct (map er_key (pv_refs e))"
    and "fst (PublicEndpointDetails e slug key (sv_pages (site_run ops (site_load lib c pages sv)))) \<noteq> Inl PublicPageNotFound"
  shows "\<exists>p r. served_page lib pages (mo_store (sv_monitor (site_run ops (site_load lib c pages sv)))) slug = Some p \<and>
    r \<in> set (pv_refs e) \<and> er_key r = key \<and> page_shows p r"
proof -
  let ?st = "sv_pages (site_run ops (site_load lib c pages sv))"
  obtain pub r where p: "page_Lookup slug ?st = Some pub" "findShownEndpoint pub (pv_refs e) key = Some r"
    using assms(5) by (auto simp: PublicEndpointDetails_def PublicEndpointDetailsOf_def split: option.splits if_splits)
  have "site_inv lib (loaded_file c pages True (Suc (pn_generations (sv_pages sv)))) (site_run ops (site_load lib c pages sv))"
    using site_run_inv [OF site_load_inv [OF assms(1), of lib c pages] assms(3)] assms(2) by simp
  then have "map_option pb_page (page_Lookup slug ?st) =
      served_page lib pages (mo_store (sv_monitor (site_run ops (site_load lib c pages sv)))) slug"
    unfolding site_inv_def by (rule lookup_served)
  then show ?thesis using findShownEndpoint_shown [OF p(2) assms(4)] p(1)
    by (intro exI [of _ "pb_page pub"] exI [of _ r]) auto
qed

definition sample_public_env :: "string public_env" where
  "sample_public_env =
     \<lparr>pv_cache = (\<lambda>_. None), pv_again = (\<lambda>_. None), pv_slot = True,
      pv_refs = [\<lparr>er_key = ''g_gate'', er_name = ''gate'', er_group = ''g''\<rparr>, \<lparr>er_key = ''g_wall'', er_name = ''wall'', er_group = ''g''\<rparr>],
      pv_sequence = (\<lambda>_. 4), pv_summaries = Some (\<lambda>ks n. Some (concat ks)), pv_events = Some (\<lambda>k. Some []),
      pv_page = (\<lambda>p sel s. s), pv_details = (\<lambda>p r s evs. s)\<rparr>"

lemma details_only_of_shown_endpoints_witness:
  "let st = site_run sample_site_ops (site_load sample_page_lib sample_config None sample_site)
   in fst (PublicEndpointDetails sample_public_env ''team'' ''g_gate'' (sv_pages st)) = Inr ''g_gate'' \<and>
      fst (PublicEndpointDetails sample_public_env ''team'' ''g_wall'' (sv_pages st)) = Inl PublicPageNotFound \<and>
      (\<exists>p r. served_page sample_page_lib None (mo_store (sv_monitor st)) ''team'' = Some p \<and> r \<in> set (pv_refs sample_public_env) \<and>
         er_key r = ''g_gate'' \<and> page_shows p r)"
proof -
  let ?st = "site_run sample_site_ops (site_load sample_page_lib sample_config None sample_site)"
  have d: "fst (PublicEndpointDetails sample_public_env ''team'' ''g_gate'' (sv_pages ?st)) = Inr ''g_gate''"
    "fst (PublicEndpointDetails sample_public_env ''team'' ''g_wall'' (sv_pages ?st)) = Inl PublicPageNotFound"
    by code_simp+
  have "page_table_ok (mo_store (sv_monitor sample_site))" "db_tx (mo_store (sv_monitor sample_site)) \<noteq> TxStatement 0"
    by (simp_all add: page_table_ok_def Let_def sample_site_def empty_service_def empty_db_def)
  moreover have "\<forall>x \<in> set sample_site_ops. site_env_ok sample_page_lib (fst x)"
    by (auto simp: sample_site_ops_def sample_site_env_def site_env_ok_def pages_participate_def sample_page_env_def
        intro: exI [of _ sample_page_env])
  moreover have "distinct (map er_key (pv_refs sample_public_env))" by (simp add: sample_public_env_def)
  ultimately show ?thesis
    using details_only_of_shown_endpoints [of sample_site sample_site_ops sample_page_lib sample_public_env "''team''" "''g_gate''"
        sample_config None] d
    by (simp add: Let_def)
qed

end
