(* ===== verification/PageAuth.thy ===== *)
theory PageAuth
  imports FailureLimits PageRegistry
begin

text \<open>
  The login of a status page (\<^verbatim>\<open>internal/statuspage/auth.go\<close>, with \<open>CheckCredentials\<close> and \<open>CredentialFingerprint\<close> of
  \<^verbatim>\<open>internal/security/basic_auth.go\<close>): the failures that block a client, the memory of the verified credentials, the check
  with \<^verbatim>\<open>bcrypt\<close>. A verification is one step here; \<open>request_step\<close> takes it apart where other requests can run in between.
\<close>

subsection \<open>Credentials\<close>

text \<open>
  The functions of other packages: the SHA-256 and the HMAC with the key of the process, both in hexadecimal; the bytes that
  the decoder of base64 gives, also before an error; \<^verbatim>\<open>bcrypt\<close>; the text of a prefix. \<open>ae_has_key\<close>: the process could
  draw a key.
\<close>

record auth_env =
  ae_sha :: "string \<Rightarrow> string"
  ae_mac :: "string \<Rightarrow> string"
  ae_has_key :: bool
  ae_base64 :: "string \<Rightarrow> string"
  ae_compare :: "string \<Rightarrow> string \<Rightarrow> bool"
  ae_prefix :: "ip_prefix \<Rightarrow> string"

definition CheckCredentials :: "auth_env \<Rightarrow> string \<Rightarrow> string \<Rightarrow> string \<Rightarrow> string \<Rightarrow> bool" where
  "CheckCredentials e expectedUsername expectedHash username password =
     (let usernameMatches = (ae_sha e expectedUsername = ae_sha e username);
          passwordMatches = ae_compare e (ae_base64 e expectedHash) password
      in usernameMatches \<and> passwordMatches)"

definition CredentialFingerprint :: "auth_env \<Rightarrow> string \<Rightarrow> string \<Rightarrow> string" where
  "CredentialFingerprint e username hash = ae_sha e (itoa (int (length username)) @ '':'' @ username @ hash)"

text \<open>Each part with its length.\<close>

definition measured :: "string \<Rightarrow> string" where
  "measured part = itoa (int (length part)) @ '':'' @ part"

definition verificationKey :: "auth_env \<Rightarrow> string \<Rightarrow> string \<Rightarrow> string \<Rightarrow> string \<Rightarrow> string" where
  "verificationKey e slug username password fingerprint =
     (if \<not> ae_has_key e then []
      else ae_mac e (concat (map measured [slug, username, password, fingerprint])))"

text \<open>\<open>Addr.Prefix\<close>, which drops the zone; with the lengths used it has no error.\<close>

definition addr_prefix :: "addr \<Rightarrow> int \<Rightarrow> ip_prefix" where
  "addr_prefix a n =
     (case a of
        NoAddr \<Rightarrow> no_prefix
      | Addr4 w \<Rightarrow> \<lparr>pf_addr = keep_bits n a, pf_bits = n\<rparr>
      | Addr6 w z \<Rightarrow> \<lparr>pf_addr = keep_bits n (Addr6 w []), pf_bits = n\<rparr>)"

definition failureKey :: "auth_env \<Rightarrow> string \<Rightarrow> addr \<Rightarrow> string" where
  "failureKey e slug ip =
     (let prefixLength = (case ip of Addr6 _ _ \<Rightarrow> if Is4In6 ip then 32 else 64 | _ \<Rightarrow> 32)
      in slug @ char_of (0 :: nat) # ae_prefix e (addr_prefix ip prefixLength))"

subsection \<open>The memory of the verifications\<close>

definition authVerificationTTL :: duration where "authVerificationTTL = 5 * minute"
definition authMaximumVerifications :: nat where "authMaximumVerifications = 10000"

type_synonym verification_memory = "(string \<times> time) list"

definition memory_contains :: "string \<Rightarrow> time \<Rightarrow> verification_memory \<Rightarrow> bool \<times> verification_memory" where
  "memory_contains key now m =
     (if key = [] then (False, m)
      else case map_of m key of
        None \<Rightarrow> (False, m)
      | Some expiresAt \<Rightarrow> (if \<not> now < expiresAt then (False, alist_del key m) else (True, m)))"

definition memory_evictExpired :: "time \<Rightarrow> verification_memory \<Rightarrow> verification_memory" where
  "memory_evictExpired now m = filter (\<lambda>(_, e). now < e) m"

text \<open>The loop that looks for the oldest entry, in the order of the list.\<close>

fun oldest_entry :: "string \<Rightarrow> time \<Rightarrow> verification_memory \<Rightarrow> string" where
  "oldest_entry oldestKey oldest [] = oldestKey"
| "oldest_entry oldestKey oldest ((key, e) # m) =
     (if oldest = zero_time \<or> e < oldest then oldest_entry key e m else oldest_entry oldestKey oldest m)"

definition memory_remember :: "string \<Rightarrow> time \<Rightarrow> verification_memory \<Rightarrow> verification_memory" where
  "memory_remember key expiresAt m =
     (if key = [] then m
      else (let m = (if length m \<ge> authMaximumVerifications
                     then (let m = memory_evictExpired (expiresAt - authVerificationTTL) m
                           in if length m \<ge> authMaximumVerifications then alist_del (oldest_entry [] zero_time m) m else m)
                     else m)
            in alist_put key expiresAt m))"

subsection \<open>The verification\<close>

datatype auth_result = AuthAllowed | AuthUnauthorized | AuthTooManyFailures

record auth_state =
  as_memory :: verification_memory
  as_failures :: page_failures

definition resetAuthState :: "auth_state \<Rightarrow> auth_state" where
  "resetAuthState st = st\<lparr>as_memory := [], as_failures := []\<rparr>"

text \<open>The credential of a request: \<open>None\<close> without one.\<close>

definition VerifyPageCredential ::
    "auth_env \<Rightarrow> page \<Rightarrow> string \<Rightarrow> (string \<times> string) option \<Rightarrow> addr \<Rightarrow> time \<Rightarrow> auth_state \<Rightarrow>
     (auth_result \<times> duration) \<times> auth_state" where
  "VerifyPageCredential e p slug credential ip now st =
     (case pg_auth p of
        None \<Rightarrow> ((AuthAllowed, 0), st)
      | Some auth \<Rightarrow>
          (let key = failureKey e slug ip; ((blocked, retryAfter), fs) = page_blocked key now (as_failures st);
               st = st\<lparr>as_failures := fs\<rparr>
           in if blocked then ((AuthTooManyFailures, retryAfter), st)
              else case credential of
                None \<Rightarrow> ((AuthUnauthorized, 0), st\<lparr>as_failures := page_failure key now fs\<rparr>)
              | Some (username, password) \<Rightarrow>
                  (let memoryKey = verificationKey e slug username password (CredentialFingerprint e (au_username auth) (au_hash auth));
                       (known, m) = memory_contains memoryKey now (as_memory st);
                       st = st\<lparr>as_memory := m\<rparr>
                   in if known then ((AuthAllowed, 0), st)
                      else if \<not> CheckCredentials e (au_username auth) (au_hash auth) username password
                      then ((AuthUnauthorized, 0), st\<lparr>as_failures := page_failure key now fs\<rparr>)
                      else ((AuthAllowed, 0), st\<lparr>as_memory := memory_remember memoryKey (now + authVerificationTTL) m\<rparr>))))"

subsection \<open>The length of each part\<close>

lemma itoa_no_colon: "CHR '':'' \<notin> set (itoa i)"
  using itoa_chars [of "CHR '':''" i] by (auto simp: is_digit_def)

lemma measured_append:
  "measured a @ s = measured b @ t \<Longrightarrow> a = b \<and> s = t"
proof -
  assume eq: "measured a @ s = measured b @ t"
  have "itoa (int (length a)) @ CHR '':'' # (a @ s) = itoa (int (length b)) @ CHR '':'' # (b @ t)"
    using eq by (simp add: measured_def)
  then have "itoa (int (length a)) = itoa (int (length b))" "a @ s = b @ t"
    using split_at_eq [OF itoa_no_colon itoa_no_colon] by blast+
  then have "length a = length b" by simp
  with \<open>a @ s = b @ t\<close> show ?thesis by simp
qed

lemma measured_list: "concat (map measured xs) = concat (map measured ys) \<Longrightarrow> length xs = length ys \<Longrightarrow> xs = ys"
proof (induction xs arbitrary: ys)
  case (Cons x xs)
  then obtain y ys' where "ys = y # ys'" by (cases ys) auto
  with Cons show ?case using measured_append [of x "concat (map measured xs)" y "concat (map measured ys')"] by simp
qed simp

subsection \<open>Runs\<close>

record auth_request =
  rq_page :: page
  rq_credential :: "(string \<times> string) option"
  rq_ip :: addr
  rq_now :: time

datatype auth_op = Verify auth_request | ResetAuth

definition verify_request :: "auth_env \<Rightarrow> auth_request \<Rightarrow> auth_state \<Rightarrow> auth_result \<times> auth_state" where
  "verify_request e r st =
     (let ((res, retry), st') = VerifyPageCredential e (rq_page r) (pg_slug (rq_page r)) (rq_credential r) (rq_ip r) (rq_now r) st
      in (res, st'))"

text \<open>The verifications of a run, with their results; a load of the pages resets the state in between.\<close>

fun auth_run :: "auth_env \<Rightarrow> auth_op list \<Rightarrow> auth_state \<Rightarrow> (auth_request \<times> auth_result) list" where
  "auth_run e [] st = []"
| "auth_run e (ResetAuth # ops) st = auth_run e ops (resetAuthState st)"
| "auth_run e (Verify r # ops) st = (let (res, st') = verify_request e r st in (r, res) # auth_run e ops st')"

definition request_fingerprint :: "auth_env \<Rightarrow> page_auth \<Rightarrow> string" where
  "request_fingerprint e a = CredentialFingerprint e (au_username a) (au_hash a)"

text \<open>What the run hashes: the functions of other packages have no collision on it.\<close>

definition hashed :: "auth_op list \<Rightarrow> string set" where
  "hashed ops = {measured (au_username a) @ au_hash a | r a. Verify r \<in> set ops \<and> pg_auth (rq_page r) = Some a}"

definition authenticated :: "auth_env \<Rightarrow> auth_op list \<Rightarrow> string set" where
  "authenticated e ops =
     {concat (map measured [pg_slug (rq_page r), u, p, request_fingerprint e a]) | r a u p.
        Verify r \<in> set ops \<and> pg_auth (rq_page r) = Some a \<and> rq_credential r = Some (u, p)}"

definition right_credential :: "auth_env \<Rightarrow> auth_request \<Rightarrow> bool" where
  "right_credential e r \<longleftrightarrow>
     (case pg_auth (rq_page r) of
        None \<Rightarrow> True
      | Some a \<Rightarrow> (case rq_credential r of None \<Rightarrow> False | Some (u, p) \<Rightarrow> CheckCredentials e (au_username a) (au_hash a) u p))"

definition request_key :: "auth_env \<Rightarrow> auth_request \<Rightarrow> string" where
  "request_key e r =
     (case (pg_auth (rq_page r), rq_credential r) of
        (Some a, Some (u, p)) \<Rightarrow> verificationKey e (pg_slug (rq_page r)) u p (request_fingerprint e a) | _ \<Rightarrow> [])"

text \<open>Every entry of the memory is of a request with the right credential.\<close>

definition memory_ok :: "auth_env \<Rightarrow> auth_op list \<Rightarrow> verification_memory \<Rightarrow> bool" where
  "memory_ok e ops m \<longleftrightarrow>
     (\<forall>k. map_of m k \<noteq> None \<longrightarrow> k \<noteq> [] \<longrightarrow>
        (\<exists>r. Verify r \<in> set ops \<and> right_credential e r \<and> request_key e r = k \<and> pg_auth (rq_page r) \<noteq> None))"

lemma same_key_right:
  assumes sha: "inj_on (ae_sha e) (hashed ops)" and mac: "inj_on (ae_mac e) (authenticated e ops)"
    and r: "Verify r \<in> set ops" "right_credential e r" "pg_auth (rq_page r) \<noteq> None"
    and r': "Verify r' \<in> set ops" "pg_auth (rq_page r') = Some a'" "rq_credential r' = Some (u', p')"
    and key: "request_key e r = request_key e r'" and ne: "request_key e r' \<noteq> []"
  shows "right_credential e r'"
proof -
  obtain a u p where a: "pg_auth (rq_page r) = Some a" "rq_credential r = Some (u, p)"
    using r(2,3) by (auto simp: right_credential_def split: option.splits)
  let ?parts = "\<lambda>r a u p. [pg_slug (rq_page r), u, p, request_fingerprint e a]"
  have "ae_has_key e" using ne r' by (auto simp: request_key_def verificationKey_def split: if_splits)
  then have "ae_mac e (concat (map measured (?parts r a u p))) = ae_mac e (concat (map measured (?parts r' a' u' p')))"
    using key a r' by (simp add: request_key_def verificationKey_def)
  moreover have "concat (map measured (?parts r a u p)) \<in> authenticated e ops"
    "concat (map measured (?parts r' a' u' p')) \<in> authenticated e ops"
    using r(1) a r' by (auto simp: authenticated_def)
  ultimately have "concat (map measured (?parts r a u p)) = concat (map measured (?parts r' a' u' p'))"
    using mac by (meson inj_onD)
  then have "?parts r a u p = ?parts r' a' u' p'" by (rule measured_list) simp
  then have same: "u = u'" "p = p'" "request_fingerprint e a = request_fingerprint e a'" by simp_all
  have "ae_sha e (measured (au_username a) @ au_hash a) = ae_sha e (measured (au_username a') @ au_hash a')"
    using same(3) by (simp add: request_fingerprint_def CredentialFingerprint_def measured_def)
  moreover have "measured (au_username a) @ au_hash a \<in> hashed ops" "measured (au_username a') @ au_hash a' \<in> hashed ops"
    using r(1) a r' by (auto simp: hashed_def)
  ultimately have "measured (au_username a) @ au_hash a = measured (au_username a') @ au_hash a'"
    using sha by (meson inj_onD)
  from measured_append [OF this] show ?thesis using r(2) a r' same by (simp add: right_credential_def)
qed

lemma remembered_subset:
  "map_of (memory_remember key e m) k \<noteq> None \<Longrightarrow> k = key \<and> key \<noteq> [] \<or> map_of m k \<noteq> None"
proof -
  have f: "map_of (filter (\<lambda>(_, x). P x) m) k \<noteq> None \<Longrightarrow> map_of m k \<noteq> None" for P :: "time \<Rightarrow> bool" and m :: verification_memory
    by (induction m) (auto split: if_splits)
  assume "map_of (memory_remember key e m) k \<noteq> None"
  then show ?thesis
    using f [of "\<lambda>x. e - authVerificationTTL < x" m]
    by (auto simp: memory_remember_def memory_evictExpired_def Let_def simp del: map_of_eq_Some_iff not_None_eq
        split: if_splits)
qed

lemma contains_memory:
  assumes "memory_contains key now m = (b, m')"
  shows "map_of m' k \<noteq> None \<Longrightarrow> map_of m k \<noteq> None" and "b \<Longrightarrow> key \<noteq> [] \<and> map_of m key \<noteq> None"
  using assms by (auto simp: memory_contains_def split: if_splits option.splits)

text \<open>One verification.\<close>

lemma verify_request_sound:
  assumes v: "verify_request e r st = (res, st')" and r: "Verify r \<in> set ops" and ok: "memory_ok e ops (as_memory st)"
    and sha: "inj_on (ae_sha e) (hashed ops)" and mac: "inj_on (ae_mac e) (authenticated e ops)"
  shows "memory_ok e ops (as_memory st') \<and> (res = AuthAllowed \<longrightarrow> right_credential e r)"
proof (cases "pg_auth (rq_page r)")
  case None
  then show ?thesis using v ok by (auto simp: verify_request_def VerifyPageCredential_def right_credential_def)
next
  case (Some a)
  let ?key = "failureKey e (pg_slug (rq_page r)) (rq_ip r)"
  obtain blocked retry fs where b: "page_blocked ?key (rq_now r) (as_failures st) = ((blocked, retry), fs)"
    by (metis prod.collapse)
  show ?thesis
  proof (cases "blocked \<or> rq_credential r = None")
    case True
    then show ?thesis using v ok Some b by (auto simp: verify_request_def VerifyPageCredential_def Let_def split: option.splits if_splits)
  next
    case False
    then obtain u p where c: "rq_credential r = Some (u, p)" by auto
    let ?mk = "request_key e r"
    have mk: "verificationKey e (pg_slug (rq_page r)) u p (CredentialFingerprint e (au_username a) (au_hash a)) = ?mk"
      by (simp add: request_key_def Some c request_fingerprint_def)
    obtain known m where k: "memory_contains ?mk (rq_now r) (as_memory st) = (known, m)" by fastforce
    have m_ok: "memory_ok e ops m" using ok contains_memory(1) [OF k] unfolding memory_ok_def by blast
    show ?thesis
    proof (cases known)
      case True
      have "st' = st\<lparr>as_failures := fs, as_memory := m\<rparr>"
        using v False Some b c k True by (simp add: verify_request_def VerifyPageCredential_def Let_def mk)
      moreover obtain r0 where "Verify r0 \<in> set ops" "right_credential e r0" "request_key e r0 = ?mk" "pg_auth (rq_page r0) \<noteq> None"
        using contains_memory(2) [OF k True] ok unfolding memory_ok_def by blast
      ultimately show ?thesis
        using same_key_right [OF sha mac, of r0 r a u p] r Some c contains_memory(2) [OF k True] m_ok by simp
    next
      case unknown: False
      show ?thesis
      proof (cases "CheckCredentials e (au_username a) (au_hash a) u p")
        case True
        then have right: "right_credential e r" by (simp add: right_credential_def Some c)
        have "st' = st\<lparr>as_failures := fs, as_memory := memory_remember ?mk (rq_now r + authVerificationTTL) m\<rparr>"
          using v False Some b c k unknown True by (simp add: verify_request_def VerifyPageCredential_def Let_def mk)
        moreover have "memory_ok e ops (memory_remember ?mk (rq_now r + authVerificationTTL) m)"
          unfolding memory_ok_def
        proof (intro allI impI)
          fix k' assume "map_of (memory_remember ?mk (rq_now r + authVerificationTTL) m) k' \<noteq> None" "k' \<noteq> []"
          then consider "k' = ?mk" | "map_of m k' \<noteq> None" using remembered_subset by blast
          then show "\<exists>r. Verify r \<in> set ops \<and> right_credential e r \<and> request_key e r = k' \<and> pg_auth (rq_page r) \<noteq> None"
            using r right Some m_ok \<open>k' \<noteq> []\<close> unfolding memory_ok_def by cases blast+
        qed
        ultimately show ?thesis using right by simp
      next
        case False
        then show ?thesis
          using v \<open>\<not> (blocked \<or> rq_credential r = None)\<close> Some b c k unknown m_ok
          by (auto simp: verify_request_def VerifyPageCredential_def Let_def mk)
      qed
    qed
  qed
qed

lemma auth_run_sound:
  assumes "set ops' \<subseteq> set ops" and "memory_ok e ops (as_memory st)"
    and "inj_on (ae_sha e) (hashed ops)" and "inj_on (ae_mac e) (authenticated e ops)"
    and "(r, AuthAllowed) \<in> set (auth_run e ops' st)"
  shows "right_credential e r"
  using assms(1,2,5)
proof (induction ops' arbitrary: st)
  case (Cons op ops')
  show ?case
  proof (cases op)
    case (Verify r')
    obtain res st' where v: "verify_request e r' st = (res, st')" by fastforce
    have "Verify r' \<in> set ops" using Cons.prems(1) by (simp add: Verify)
    note V = verify_request_sound [OF v this Cons.prems(2) assms(3,4)]
    show ?thesis using Cons.IH [of st'] Cons.prems V v by (auto simp: Verify)
  next
    case ResetAuth
    then show ?thesis using Cons.IH [of "resetAuthState st"] Cons.prems by (simp add: resetAuthState_def memory_ok_def)
  qed
qed simp

subsection \<open>The attempts of a run\<close>

lemma verify_attempt:
  assumes "pg_auth (rq_page r) = Some a" and "verify_request e r st = (res, st')"
  shows "pages.attempt (failureKey e (pg_slug (rq_page r)) (rq_ip r), res = AuthAllowed, rq_now r) (as_failures st) =
    (res = AuthUnauthorized, as_failures st')"
proof -
  let ?key = "failureKey e (pg_slug (rq_page r)) (rq_ip r)"
  obtain blocked retry fs where b: "page_blocked ?key (rq_now r) (as_failures st) = ((blocked, retry), fs)"
    by (metis prod.collapse)
  show ?thesis
    using assms b by (auto simp: verify_request_def VerifyPageCredential_def Let_def pages.attempt_def
        split: option.splits if_splits prod.splits)
qed

definition attempts_of :: "auth_env \<Rightarrow> (auth_request \<times> auth_result) list \<Rightarrow> (string \<times> bool \<times> time) list" where
  "attempts_of e results =
     map (\<lambda>(r, res). (failureKey e (pg_slug (rq_page r)) (rq_ip r), res = AuthAllowed, rq_now r))
       (filter (\<lambda>(r, _). pg_auth (rq_page r) \<noteq> None) results)"

definition refused_at :: "auth_env \<Rightarrow> string \<Rightarrow> (auth_request \<times> auth_result) list \<Rightarrow> (auth_request \<times> auth_result) list" where
  "refused_at e k results =
     filter (\<lambda>(r, res). res = AuthUnauthorized \<and> failureKey e (pg_slug (rq_page r)) (rq_ip r) = k) results"

lemma failures_length: "length (snd (pages.attempt a fs)) \<le> Suc (length fs)"
proof -
  have put: "length (alist_put k v m) \<le> Suc (length m)" for k :: string and v :: "nat \<times> time" and m
    by (induction m) auto
  have del: "length (alist_del k m) \<le> length m" for k :: string and m :: page_failures by (simp add: alist_del_def)
  have evict: "length (failures_evictExpired now m) \<le> length m" for now m by (simp add: failures_evictExpired_def)
  have put': "length (alist_put k v (failures_evictExpired now m)) \<le> Suc (length m)" for k v now m
    using put [of k v "failures_evictExpired now m"] evict [of now m] by simp
  have fail: "length (page_failure k now m) \<le> Suc (length m)" for k now m
    by (auto simp: page_failure_def Let_def put put' le_SucI [OF evict] split: option.split)
  have check: "length (snd (page_blocked k now m)) \<le> length m" for k now m
    using del [of k m] by (auto simp: page_blocked_def split: option.split)
  have both: "length (page_failure k now (snd (page_blocked k now fs))) \<le> Suc (length fs)" for k now
    using fail [of k now "snd (page_blocked k now fs)"] check [of k now fs] by linarith
  show ?thesis by (cases a) (auto simp: pages.attempt_def both le_SucI [OF check])
qed

lemma auth_run_attempts:
  assumes "distinct (map fst (as_failures st))" and "length (as_failures st) + length rs \<le> authMaximumFailureKeys"
  shows "pages.roomy (attempts_of e (auth_run e (map Verify rs) st)) (as_failures st) \<and>
    pages.verified k (attempts_of e (auth_run e (map Verify rs) st)) (as_failures st) =
      length (refused_at e k (auth_run e (map Verify rs) st))"
  using assms
proof (induction rs arbitrary: st)
  case (Cons r rs)
  obtain res st' where v: "verify_request e r st = (res, st')" by fastforce
  show ?case
  proof (cases "pg_auth (rq_page r)")
    case None
    then have "st' = st \<and> res = AuthAllowed" using v by (auto simp: verify_request_def VerifyPageCredential_def)
    then show ?thesis using Cons.IH [of st] Cons.prems v None by (simp add: attempts_of_def refused_at_def)
  next
    case (Some a)
    note A = verify_attempt [OF Some v]
    let ?key = "failureKey e (pg_slug (rq_page r)) (rq_ip r)"
    have "length (snd (page_blocked ?key (rq_now r) (as_failures st))) \<le> length (as_failures st)"
      by (auto simp: page_blocked_def alist_del_def split: option.split)
    then have counted: "page_counted ?key (rq_now r) (snd (page_blocked ?key (rq_now r) (as_failures st)))"
      using Cons.prems(2) by (simp add: page_counted_def)
    have "distinct (map fst (as_failures st'))"
      using pages.attempt_live(2) [OF Cons.prems(1) counted, of "res = AuthAllowed"] A by simp
    moreover have "length (as_failures st') + length rs \<le> authMaximumFailureKeys"
      using failures_length [of "(?key, res = AuthAllowed, rq_now r)" "as_failures st"] A Cons.prems(2) by simp
    ultimately show ?thesis
      using Cons.IH [of st'] v Some A counted by (auto simp: attempts_of_def refused_at_def)
  qed
qed (simp add: attempts_of_def refused_at_def)

lemma auth_run_requests: "map fst (auth_run e (map Verify rs) st) = rs"
  by (induction rs arbitrary: st) (auto split: prod.split)

lemma attempts_times: "\<forall>a \<in> set (attempts_of e results). snd (snd a) \<in> (rq_now \<circ> fst) ` set results"
  by (force simp: attempts_of_def)

lemma attempts_sorted: "sorted (map (rq_now \<circ> fst) results) \<Longrightarrow> sorted (map (snd \<circ> snd) (attempts_of e results))"
proof (induction results)
  case (Cons x results)
  then show ?case using attempts_times [of e results] by (cases x) (auto simp: attempts_of_def)
qed (simp add: attempts_of_def)

lemma refused_bound:
  assumes "distinct (map fst (as_failures st))" and "length (as_failures st) + length rs \<le> authMaximumFailureKeys"
    and "sorted (map rq_now rs)" and "\<forall>r \<in> set rs. now \<le> rq_now r \<and> rq_now r < now + authFailureWindow"
  shows "length (refused_at e k (auth_run e (map Verify rs) st)) \<le>
    (if page_live k now (as_failures st) = None then authMaximumFailures else 2 * authMaximumFailures)"
proof -
  let ?results = "auth_run e (map Verify rs) st"
  let ?as = "attempts_of e ?results"
  note R = auth_run_attempts [OF assms(1,2), of e k]
  have times: "map (rq_now \<circ> fst) ?results = map rq_now rs"
    using auth_run_requests [of e rs st] by (metis map_map)
  have "pages.verified k ?as (as_failures st) \<le> pages.left k now (as_failures st) +
      (if pages.renewed k now (as_failures st) (now + authFailureWindow) then authMaximumFailures else 0)"
  proof (rule pages.verified_bound [OF assms(1)])
    show "pages.roomy ?as (as_failures st)" using R by blast
    show "sorted (map (snd \<circ> snd) ?as)" by (rule attempts_sorted) (simp add: times assms(3))
    have "(rq_now \<circ> fst) ` set ?results = rq_now ` set rs" using times by (metis set_map)
    then show "\<forall>a \<in> set ?as. now \<le> snd (snd a) \<and> snd (snd a) < now + authFailureWindow"
      using attempts_times [of e ?results] assms(4) by fastforce
  qed simp
  moreover have "pages.left k now (as_failures st) \<le> authMaximumFailures"
    by (auto simp: pages.left_def split: option.split)
  ultimately show ?thesis using R by (auto simp: pages.left_def pages.renewed_def split: option.splits if_splits)
qed

subsection \<open>Requests at the same time\<close>

text \<open>
  The lock of the failures is held for the check and for the failure, not in between: other requests run there. An arrival
  is the check of a request, a completion the rest of it.
\<close>

datatype auth_event = Arrive nat auth_request | Complete nat

record auth_system =
  ay_state :: auth_state
  ay_pending :: "(nat \<times> auth_request) list"
  ay_results :: "(nat \<times> auth_result) list"

text \<open>The rest of a verification whose client was not blocked.\<close>

definition complete_request :: "auth_env \<Rightarrow> auth_request \<Rightarrow> auth_state \<Rightarrow> auth_result \<times> auth_state" where
  "complete_request e r st =
     (case pg_auth (rq_page r) of
        None \<Rightarrow> (AuthAllowed, st)
      | Some auth \<Rightarrow>
          (let key = failureKey e (pg_slug (rq_page r)) (rq_ip r)
           in case rq_credential r of
                None \<Rightarrow> (AuthUnauthorized, st\<lparr>as_failures := page_failure key (rq_now r) (as_failures st)\<rparr>)
              | Some (username, password) \<Rightarrow>
                  (let memoryKey = request_key e r;
                       (known, m) = memory_contains memoryKey (rq_now r) (as_memory st);
                       st = st\<lparr>as_memory := m\<rparr>
                   in if known then (AuthAllowed, st)
                      else if \<not> CheckCredentials e (au_username auth) (au_hash auth) username password
                      then (AuthUnauthorized, st\<lparr>as_failures := page_failure key (rq_now r) (as_failures st)\<rparr>)
                      else (AuthAllowed, st\<lparr>as_memory := memory_remember memoryKey (rq_now r + authVerificationTTL) m\<rparr>))))"

fun request_step :: "auth_env \<Rightarrow> auth_event \<Rightarrow> auth_system \<Rightarrow> auth_system" where
  "request_step e (Arrive i r) sys =
     (let key = failureKey e (pg_slug (rq_page r)) (rq_ip r);
          ((blocked, retry), fs) = (if pg_auth (rq_page r) = None then ((False, 0), as_failures (ay_state sys))
                                    else page_blocked key (rq_now r) (as_failures (ay_state sys)));
          sys = sys\<lparr>ay_state := (ay_state sys)\<lparr>as_failures := fs\<rparr>\<rparr>
      in if blocked then sys\<lparr>ay_results := ay_results sys @ [(i, AuthTooManyFailures)]\<rparr>
         else sys\<lparr>ay_pending := ay_pending sys @ [(i, r)]\<rparr>)"
| "request_step e (Complete i) sys =
     (case map_of (ay_pending sys) i of
        None \<Rightarrow> sys
      | Some r \<Rightarrow>
          (let (res, st) = complete_request e r (ay_state sys)
           in sys\<lparr>ay_state := st, ay_pending := alist_del i (ay_pending sys), ay_results := ay_results sys @ [(i, res)]\<rparr>))"

end
