(* ===== verification/Logins.thy ===== *)
theory Logins
  imports PageAuth MemoryStore
begin

text \<open>
  The authentication of the protected routes (\<^verbatim>\<open>internal/security\<close>): \<open>security.basic\<close> with its login sessions and its
  failure limiter, the decision of the callback of OpenID Connect, and who is an administrator
  (\<^verbatim>\<open>internal/config/admin\<close>). The sessions are kept by the storage: the memory store keeps them as they are, the SQL
  store with times in milliseconds. The locale \<open>session_store\<close> is what a login needs of both.
\<close>

subsection \<open>Login sessions\<close>

text \<open>The operations of a store: a creation and a deletion tell whether they succeeded, a failed read is \<open>Inl\<close>.\<close>

record 's session_ops =
  so_create :: "login_session \<Rightarrow> 's \<Rightarrow> bool \<times> 's"
  so_get :: "string \<Rightarrow> 's \<Rightarrow> (unit + login_session option) \<times> 's"
  so_delete :: "string \<Rightarrow> 's \<Rightarrow> bool \<times> 's"
  so_delete_expired :: "time \<Rightarrow> 's \<Rightarrow> nat option \<times> 's"

locale session_store =
  fixes ops :: "'s session_ops" and row :: "'s \<Rightarrow> string \<Rightarrow> login_session option" and ok :: "'s \<Rightarrow> bool"
  assumes get: "ok st \<Longrightarrow> so_get ops hash st = (r, st') \<Longrightarrow> row st' h = row st h \<and> (\<forall>s. r = Inr s \<longrightarrow> s = row st hash)"
    and create: "ok st \<Longrightarrow> so_create ops s st = (b, st') \<Longrightarrow> row st' h = Some s' \<Longrightarrow>
      row st h = Some s' \<or> b \<and> h = ls_token_hash s \<and> ls_fingerprint s' = ls_fingerprint s \<and>
        ls_username s' = ls_username s \<and> ls_expires_at s' \<le> ls_expires_at s"
    and delete: "ok st \<Longrightarrow> so_delete ops hash st = (b, st') \<Longrightarrow> row st' h = Some s' \<Longrightarrow>
      row st h = Some s' \<and> (b \<longrightarrow> h \<noteq> hash)"
    and delete_expired: "ok st \<Longrightarrow> so_delete_expired ops now st = (n, st') \<Longrightarrow> row st' h = Some s' \<Longrightarrow>
      row st h = Some s'"
    and get_ok: "ok st \<Longrightarrow> so_get ops hash st = (r, st') \<Longrightarrow> ok st'"
    and create_ok: "ok st \<Longrightarrow> so_create ops s st = (b, st') \<Longrightarrow> ok st'"
    and delete_ok: "ok st \<Longrightarrow> so_delete ops hash st = (b, st') \<Longrightarrow> ok st'"
    and delete_expired_ok: "ok st \<Longrightarrow> so_delete_expired ops now st = (n, st') \<Longrightarrow> ok st'"

subsection \<open>The memory store\<close>

definition memory_session_ops :: "'sr memory_store session_ops" where
  "memory_session_ops =
     \<lparr>so_create = (\<lambda>s m. (True, CreateLoginSession s m)),
      so_get = (\<lambda>hash m. (Inr (case GetLoginSession hash m of Inl ErrLoginSessionNotFound \<Rightarrow> None | Inr s \<Rightarrow> Some s), m)),
      so_delete = (\<lambda>hash m. (True, DeleteLoginSession hash m)),
      so_delete_expired = (\<lambda>now m. map_prod Some id (DeleteExpiredLoginSessions now m))\<rparr>"

interpretation memory_sessions: session_store memory_session_ops "\<lambda>m. map_of (ms_login_sessions m)"
  "\<lambda>m. distinct (map fst (ms_login_sessions m))"
  by unfold_locales
    (auto simp: memory_session_ops_def CreateLoginSession_def GetLoginSession_def DeleteLoginSession_def
      DeleteExpiredLoginSessions_def Let_def distinct_alist_del simp del: map_of_eq_Some_iff dest: map_of_filtered
      split: if_splits option.splits session_error.splits)

subsection \<open>The SQL store\<close>

text \<open>The rows by their hash, with times in milliseconds. \<open>sq_faults\<close> tells which of the next statements fail.\<close>

record sql_sessions =
  sq_rows :: "(string \<times> login_session) list"
  sq_faults :: "bool list"

definition sql_statement :: "sql_sessions \<Rightarrow> bool \<times> sql_sessions" where
  "sql_statement q = (case sq_faults q of [] \<Rightarrow> (False, q) | f # fs \<Rightarrow> (f, q\<lparr>sq_faults := fs\<rparr>))"

definition unix_milli :: "time \<Rightarrow> int" where "unix_milli t = t div millisecond"

text \<open>The hash is the primary key of the table.\<close>

definition sql_CreateLoginSession :: "login_session \<Rightarrow> sql_sessions \<Rightarrow> bool \<times> sql_sessions" where
  "sql_CreateLoginSession s q =
     (let (fault, q) = sql_statement q
      in if fault \<or> map_of (sq_rows q) (ls_token_hash s) \<noteq> None then (False, q)
         else (True, q\<lparr>sq_rows := sq_rows q @ [(ls_token_hash s,
                 s\<lparr>ls_created_at := unix_milli (ls_created_at s), ls_expires_at := unix_milli (ls_expires_at s)\<rparr>)]\<rparr>))"

definition session_of_row :: "login_session \<Rightarrow> login_session" where
  "session_of_row r = r\<lparr>ls_created_at := ls_created_at r * millisecond, ls_expires_at := ls_expires_at r * millisecond\<rparr>"

definition sql_GetLoginSession :: "string \<Rightarrow> sql_sessions \<Rightarrow> (unit + login_session option) \<times> sql_sessions" where
  "sql_GetLoginSession hash q =
     (let (fault, q) = sql_statement q
      in (if fault then Inl () else Inr (map_option session_of_row (map_of (sq_rows q) hash)), q))"

definition sql_DeleteLoginSession :: "string \<Rightarrow> sql_sessions \<Rightarrow> bool \<times> sql_sessions" where
  "sql_DeleteLoginSession hash q =
     (let (fault, q) = sql_statement q
      in if fault then (False, q) else (True, q\<lparr>sq_rows := alist_del hash (sq_rows q)\<rparr>))"

definition sql_DeleteExpired :: "time \<Rightarrow> sql_sessions \<Rightarrow> nat option \<times> sql_sessions" where
  "sql_DeleteExpired now q =
     (let (fault, q) = sql_statement q
      in if fault then (None, q)
         else (let kept = filter (\<lambda>(_, s). \<not> ls_expires_at s \<le> unix_milli now) (sq_rows q)
               in (Some (length (sq_rows q) - length kept), q\<lparr>sq_rows := kept\<rparr>)))"

definition sql_session_ops :: "sql_sessions session_ops" where
  "sql_session_ops =
     \<lparr>so_create = sql_CreateLoginSession, so_get = sql_GetLoginSession,
      so_delete = sql_DeleteLoginSession, so_delete_expired = sql_DeleteExpired\<rparr>"

definition sql_row :: "sql_sessions \<Rightarrow> string \<Rightarrow> login_session option" where
  "sql_row q h = map_option session_of_row (map_of (sq_rows q) h)"

lemma milli_le: "unix_milli t * millisecond \<le> t"
  by (simp add: unix_milli_def go_time)

lemma sql_statement_rows: "sql_statement q = (fault, q') \<Longrightarrow> sq_rows q' = sq_rows q"
  by (auto simp: sql_statement_def split: list.splits)

interpretation sql_sessions: session_store sql_session_ops sql_row "\<lambda>q. distinct (map fst (sq_rows q))"
proof unfold_locales
  fix q q' :: sql_sessions and s s' :: login_session and h hash :: string and b :: bool and now n
    and r :: "unit + login_session option"
  assume ok: "distinct (map fst (sq_rows q))"
  obtain fault q0 where q0: "sql_statement q = (fault, q0)" "sq_rows q0 = sq_rows q"
    using sql_statement_rows [of q] by (metis prod.collapse)
  show "so_get sql_session_ops hash q = (r, q') \<Longrightarrow>
      sql_row q' h = sql_row q h \<and> (\<forall>s. r = Inr s \<longrightarrow> s = sql_row q hash)"
    using q0 by (auto simp: sql_session_ops_def sql_GetLoginSession_def sql_row_def split: if_splits)
  show "so_create sql_session_ops s q = (b, q') \<Longrightarrow> sql_row q' h = Some s' \<Longrightarrow>
      sql_row q h = Some s' \<or> b \<and> h = ls_token_hash s \<and> ls_fingerprint s' = ls_fingerprint s \<and>
        ls_username s' = ls_username s \<and> ls_expires_at s' \<le> ls_expires_at s"
    using milli_le [of "ls_expires_at s"] q0
    by (auto simp: sql_session_ops_def sql_CreateLoginSession_def sql_row_def session_of_row_def map_add_def
        simp del: map_of_eq_Some_iff split: if_splits option.splits)
  show "so_delete sql_session_ops hash q = (b, q') \<Longrightarrow> sql_row q' h = Some s' \<Longrightarrow>
      sql_row q h = Some s' \<and> (b \<longrightarrow> h \<noteq> hash)"
    using q0 by (auto simp: sql_session_ops_def sql_DeleteLoginSession_def sql_row_def simp del: map_of_eq_Some_iff split: if_splits)
  show "so_delete_expired sql_session_ops now q = (n, q') \<Longrightarrow> sql_row q' h = Some s' \<Longrightarrow> sql_row q h = Some s'"
    using ok q0 by (auto simp: sql_session_ops_def sql_DeleteExpired_def sql_row_def Let_def simp del: map_of_eq_Some_iff
        dest: map_of_filtered split: if_splits)
  show "so_get sql_session_ops hash q = (r, q') \<Longrightarrow> distinct (map fst (sq_rows q'))"
    using ok q0 by (auto simp: sql_session_ops_def sql_GetLoginSession_def split: if_splits)
  show "so_create sql_session_ops s q = (b, q') \<Longrightarrow> distinct (map fst (sq_rows q'))"
    using ok q0 by (auto simp: sql_session_ops_def sql_CreateLoginSession_def map_of_eq_None_iff split: if_splits)
  show "so_delete sql_session_ops hash q = (b, q') \<Longrightarrow> distinct (map fst (sq_rows q'))"
    using ok q0 by (auto simp: sql_session_ops_def sql_DeleteLoginSession_def alist_del_def split: if_splits)
  show "so_delete_expired sql_session_ops now q = (n, q') \<Longrightarrow> distinct (map fst (sq_rows q'))"
    using ok q0 by (auto simp: sql_session_ops_def sql_DeleteExpired_def Let_def split: if_splits)
qed

subsection \<open>The configuration\<close>

record basic_config =
  bc_username :: string
  bc_hash :: string
  bc_ttl :: duration

record oidc_config =
  oc_issuer :: string
  oc_redirect :: string
  oc_client :: string
  oc_secret :: string
  oc_scopes :: "string list"
  oc_subjects :: "string list"
  oc_ttl :: duration

text \<open>\<open>sc_gate\<close>: the gate of OpenID Connect was set by the middleware.\<close>

record security_config =
  sc_basic :: "basic_config option"
  sc_oidc :: "oidc_config option"
  sc_gate :: bool

definition DefaultBasicSessionTTL :: duration where "DefaultBasicSessionTTL = 8 * hour"
definition MinimumBasicSessionTTL :: duration where "MinimumBasicSessionTTL = 5 * minute"
definition MaximumBasicSessionTTL :: duration where "MaximumBasicSessionTTL = 30 * 24 * hour"
definition DefaultOIDCSessionTTL :: duration where "DefaultOIDCSessionTTL = 8 * hour"

text \<open>
  \<open>lg_url_decode\<close> and \<open>lg_std_decode\<close> are the decoders of base64, without a value on an error; \<open>lg_raw_decodes\<close> tells
  whether that without padding has none. \<open>lg_cost\<close>: the bytes are a hash of \<^verbatim>\<open>bcrypt\<close>.
\<close>

record login_lib =
  lg_auth :: auth_env
  lg_url_decode :: "string \<Rightarrow> string option"
  lg_std_decode :: "string \<Rightarrow> string option"
  lg_raw_decodes :: "string \<Rightarrow> bool"
  lg_cost :: "string \<Rightarrow> bool"

definition isBcryptHashInBase64 :: "login_lib \<Rightarrow> string \<Rightarrow> bool" where
  "isBcryptHashInBase64 lib s \<longleftrightarrow> (case lg_url_decode lib s of None \<Rightarrow> False | Some hash \<Rightarrow> lg_cost lib hash)"

definition basic_isValid :: "login_lib \<Rightarrow> basic_config \<Rightarrow> bool" where
  "basic_isValid lib c \<longleftrightarrow>
     length (bc_username c) > 0 \<and> isBcryptHashInBase64 lib (bc_hash c) \<and>
     (bc_ttl c = 0 \<or> bc_ttl c \<ge> MinimumBasicSessionTTL \<and> bc_ttl c \<le> MaximumBasicSessionTTL)"

definition basic_validateAndSetDefaults :: "login_lib \<Rightarrow> basic_config \<Rightarrow> basic_config option" where
  "basic_validateAndSetDefaults lib c =
     (if \<not> basic_isValid lib c then None
      else Some (if bc_ttl c = 0 then c\<lparr>bc_ttl := DefaultBasicSessionTTL\<rparr> else c))"

definition sessionTTL :: "basic_config \<Rightarrow> duration" where
  "sessionTTL c = (if bc_ttl c \<le> 0 then DefaultBasicSessionTTL else bc_ttl c)"

definition oidc_ValidateAndSetDefaults :: "oidc_config \<Rightarrow> bool \<times> oidc_config" where
  "oidc_ValidateAndSetDefaults c =
     (oc_issuer c \<noteq> [] \<and> oc_redirect c \<noteq> [] \<and> suffix ''/authorization-code/callback'' (oc_redirect c) \<and>
      oc_client c \<noteq> [] \<and> oc_secret c \<noteq> [] \<and> oc_scopes c \<noteq> [],
      if oc_ttl c \<le> 0 then c\<lparr>oc_ttl := DefaultOIDCSessionTTL\<rparr> else c)"

definition security_ValidateAndSetDefaults :: "login_lib \<Rightarrow> security_config \<Rightarrow> security_config option" where
  "security_ValidateAndSetDefaults lib c =
     (case (case sc_basic c of None \<Rightarrow> Some None | Some b \<Rightarrow> map_option Some (basic_validateAndSetDefaults lib b)) of
        None \<Rightarrow> None
      | Some basic \<Rightarrow>
          (case sc_oidc c of
             None \<Rightarrow> Some (c\<lparr>sc_basic := basic\<rparr>)
           | Some o' \<Rightarrow>
               (let (valid, o'') = oidc_ValidateAndSetDefaults o'
                in if valid then Some (c\<lparr>sc_basic := basic, sc_oidc := Some o''\<rparr>) else None)))"

definition UsesBasicLogin :: "security_config option \<Rightarrow> bool" where
  "UsesBasicLogin c \<longleftrightarrow> (case c of None \<Rightarrow> False | Some c \<Rightarrow> sc_basic c \<noteq> None \<and> sc_oidc c = None)"

definition LoginMethod :: "security_config option \<Rightarrow> string" where
  "LoginMethod c =
     (case c of
        None \<Rightarrow> []
      | Some c \<Rightarrow> if sc_oidc c \<noteq> None then ''oidc'' else if sc_basic c \<noteq> None then ''basic'' else [])"

subsection \<open>Logins\<close>

definition loginSessionTokenSize :: nat where "loginSessionTokenSize = 32"

definition basic_checkCredentials :: "login_lib \<Rightarrow> basic_config \<Rightarrow> string \<Rightarrow> string \<Rightarrow> bool" where
  "basic_checkCredentials lib c username password = CheckCredentials (lg_auth lib) (bc_username c) (bc_hash c) username password"

definition credentialFingerprint :: "login_lib \<Rightarrow> basic_config \<Rightarrow> string" where
  "credentialFingerprint lib c = CredentialFingerprint (lg_auth lib) (bc_username c) (bc_hash c)"

text \<open>\<open>base64.RawURLEncoding.EncodedLen(32)\<close> is 43.\<close>

definition isLoginSessionToken :: "login_lib \<Rightarrow> string \<Rightarrow> bool" where
  "isLoginSessionToken lib token \<longleftrightarrow> length token = (loginSessionTokenSize * 8 + 5) div 6 \<and> lg_raw_decodes lib token"

definition hashLoginSessionToken :: "login_lib \<Rightarrow> string \<Rightarrow> string" where
  "hashLoginSessionToken lib token = ae_sha (lg_auth lib) token"

datatype login_error =
    TooManyFailuresError duration
  | ErrInvalidCredentials
  | ErrLoginSessionsUnsupported
  | LoginRandomnessFailed
  | LoginStorageFailed

text \<open>
  A login: the token is what the source of randomness gives, \<open>supported\<close> whether the storage has sessions. A success
  gives the token and the maximum age of the cookie, in seconds.
\<close>

definition basic_Login ::
    "'s session_ops \<Rightarrow> login_lib \<Rightarrow> basic_config \<Rightarrow> bool \<Rightarrow> time \<Rightarrow> addr \<Rightarrow> string option \<Rightarrow> string \<Rightarrow> string \<Rightarrow>
     login_limiter \<times> 's \<Rightarrow> (login_error + string \<times> int) \<times> login_limiter \<times> 's" where
  "basic_Login ops lib c supported now ip random username password sys =
     (let (l, st) = sys; (blocked, retryAfter) = limiter_Blocked ip now l
      in if blocked then (Inl (TooManyFailuresError retryAfter), l, st)
         else if \<not> basic_checkCredentials lib c username password
         then (Inl ErrInvalidCredentials, limiter_Failure ip now l, st)
         else if \<not> supported then (Inl ErrLoginSessionsUnsupported, l, st)
         else (let (deleted, st) = so_delete_expired ops now st
               in case random of
                    None \<Rightarrow> (Inl LoginRandomnessFailed, l, st)
                  | Some token \<Rightarrow>
                      (let ttl = sessionTTL c;
                           (created, st) = so_create ops
                             \<lparr>ls_token_hash = hashLoginSessionToken lib token, ls_username = bc_username c,
                              ls_fingerprint = credentialFingerprint lib c, ls_created_at = now, ls_expires_at = now + ttl\<rparr> st
                       in if \<not> created then (Inl LoginStorageFailed, l, st)
                          else (Inr (token, quot ttl second), l, st))))"

definition basic_Logout :: "'s session_ops \<Rightarrow> login_lib \<Rightarrow> bool \<Rightarrow> string \<Rightarrow> 's \<Rightarrow> bool \<times> 's" where
  "basic_Logout ops lib supported cookie st =
     (if isLoginSessionToken lib cookie \<and> supported then so_delete ops (hashLoginSessionToken lib cookie) st
      else (True, st))"

text \<open>The session of a token; one that expired or has another credential is deleted.\<close>

definition sessionUsername ::
    "'s session_ops \<Rightarrow> login_lib \<Rightarrow> basic_config \<Rightarrow> bool \<Rightarrow> string \<Rightarrow> time \<Rightarrow> 's \<Rightarrow> string option \<times> 's" where
  "sessionUsername ops lib c supported token now st =
     (if \<not> isLoginSessionToken lib token \<or> \<not> supported then (None, st)
      else (let tokenHash = hashLoginSessionToken lib token
            in case so_get ops tokenHash st of
                 (Inl _, st) \<Rightarrow> (None, st)
               | (Inr None, st) \<Rightarrow> (None, st)
               | (Inr (Some s), st) \<Rightarrow>
                   (if \<not> now < ls_expires_at s \<or> ls_fingerprint s \<noteq> credentialFingerprint lib c
                    then (None, snd (so_delete ops tokenHash st))
                    else (Some (ls_username s), st))))"

text \<open>\<open>strings.Cut\<close> at a character.\<close>

definition cut_at :: "char \<Rightarrow> string \<Rightarrow> (string \<times> string) option" where
  "cut_at ch s = (if ch \<in> set s then Some (takeWhile (\<lambda>x. x \<noteq> ch) s, tl (dropWhile (\<lambda>x. x \<noteq> ch) s)) else None)"

definition login_basicCredentials :: "login_lib \<Rightarrow> string \<Rightarrow> (string \<times> string) option" where
  "login_basicCredentials lib header =
     (case cut_at (CHR '' '') (trim_space header) of
        None \<Rightarrow> None
      | Some (scheme, encoded) \<Rightarrow>
          (if \<not> equal_fold scheme ''basic'' then None
           else case lg_std_decode lib (trim_space encoded) of None \<Rightarrow> None | Some decoded \<Rightarrow> cut_at (CHR '':'') decoded))"

text \<open>\<open>basicAuthentication\<close>: the user, or how long the client is blocked.\<close>

record basic_authentication =
  ba_username :: "string option"
  ba_retry :: duration

text \<open>
  \<open>authenticateBasic\<close> of a request with its cookie and its header: the result is kept for the request, so that it is
  computed once.
\<close>

definition authenticateBasic ::
    "'s session_ops \<Rightarrow> login_lib \<Rightarrow> basic_config \<Rightarrow> bool \<Rightarrow> time \<Rightarrow> addr \<Rightarrow> string \<Rightarrow> string \<Rightarrow>
     login_limiter \<times> 's \<Rightarrow> basic_authentication \<times> login_limiter \<times> 's" where
  "authenticateBasic ops lib c supported now ip cookie header sys =
     (let (l, st) = sys; (user, st) = sessionUsername ops lib c supported cookie now st
      in case user of
           Some username \<Rightarrow> (\<lparr>ba_username = Some username, ba_retry = 0\<rparr>, l, st)
         | None \<Rightarrow>
             (case login_basicCredentials lib header of
                None \<Rightarrow> (\<lparr>ba_username = None, ba_retry = 0\<rparr>, l, st)
              | Some (username, password) \<Rightarrow>
                  (let (blocked, retryAfter) = limiter_Blocked ip now l
                   in if blocked then (\<lparr>ba_username = None, ba_retry = retryAfter\<rparr>, l, st)
                      else if basic_checkCredentials lib c username password
                      then (\<lparr>ba_username = Some (bc_username c), ba_retry = 0\<rparr>, l, st)
                      else (\<lparr>ba_username = None, ba_retry = 0\<rparr>, limiter_Failure ip now l, st))))"

datatype middleware_result = Proceed | TooManyRequests int | AuthenticationRequired bool

text \<open>The middleware: the seconds to wait rounded up; the challenge is sent to clients that are no browsers.\<close>

definition basicMiddleware :: "bool \<Rightarrow> basic_authentication \<Rightarrow> middleware_result" where
  "basicMiddleware browser a =
     (if ba_username a \<noteq> None then Proceed
      else if ba_retry a > 0 then TooManyRequests (- ((- ba_retry a) div second))
      else AuthenticationRequired (\<not> browser))"

subsection \<open>OpenID Connect\<close>

text \<open>
  A request of the callback: its query, its cookies, and what the provider answers to the code: \<open>oi_token\<close> is the verified
  subject and nonce of the token, \<open>None\<close> when the exchange or the verification fails.
\<close>

record oidc_callback =
  oi_error :: string
  oi_state :: string
  oi_state_cookie :: "string option"
  oi_nonce_cookie :: "string option"
  oi_token :: "(string \<times> string) option"

datatype callback_result =
    ProviderError
  | StateNotFound
  | StateMismatch
  | TokenFailed
  | NonceNotFound
  | NonceMismatch
  | SessionCreated string duration
  | AccessDenied

definition callbackHandler :: "oidc_config \<Rightarrow> oidc_callback \<Rightarrow> callback_result" where
  "callbackHandler c r =
     (if oi_error r \<noteq> [] then ProviderError
      else case oi_state_cookie r of
        None \<Rightarrow> StateNotFound
      | Some state \<Rightarrow>
          (if oi_state r \<noteq> state then StateMismatch
           else case oi_token r of
             None \<Rightarrow> TokenFailed
           | Some (subject, nonce) \<Rightarrow>
               (case oi_nonce_cookie r of
                  None \<Rightarrow> NonceNotFound
                | Some cookie \<Rightarrow>
                    (if nonce \<noteq> cookie then NonceMismatch
                     else if oc_subjects c = [] then SessionCreated subject (oc_ttl c)
                     else if list_ex (\<lambda>s. to_lower s = to_lower subject) (oc_subjects c) then SessionCreated subject (oc_ttl c)
                     else AccessDenied))))"

subsection \<open>Administrators\<close>

record admin_config =
  ac_enabled :: bool
  ac_subjects :: "string list"
  ac_origins :: "string list"

definition admin_IsEnabled :: "admin_config option \<Rightarrow> bool" where
  "admin_IsEnabled c \<longleftrightarrow> (case c of None \<Rightarrow> False | Some c \<Rightarrow> ac_enabled c)"

definition IsSubjectAllowed :: "admin_config \<Rightarrow> string \<Rightarrow> bool" where
  "IsSubjectAllowed c subject \<longleftrightarrow> list_ex (\<lambda>s. equal_fold s subject) (ac_subjects c)"

text \<open>\<open>session\<close>: the subject of the session of OpenID Connect of the request.\<close>

definition sessionSubject :: "security_config \<Rightarrow> string option \<Rightarrow> string option" where
  "sessionSubject c session = (if \<not> sc_gate c then None else session)"

definition IsAdmin :: "security_config option \<Rightarrow> admin_config option \<Rightarrow> string option \<Rightarrow> basic_authentication \<Rightarrow> bool" where
  "IsAdmin c admin session a \<longleftrightarrow>
     (case (c, admin) of
        (Some c, Some ad) \<Rightarrow>
          (if \<not> admin_IsEnabled admin then False
           else if sc_oidc c \<noteq> None
           then (case sessionSubject c session of None \<Rightarrow> False | Some subject \<Rightarrow> IsSubjectAllowed ad subject)
           else sc_basic c \<noteq> None \<and> ba_username a \<noteq> None)
      | _ \<Rightarrow> False)"

definition IsAuthenticated :: "security_config option \<Rightarrow> string option \<Rightarrow> basic_authentication \<Rightarrow> bool" where
  "IsAuthenticated c session a \<longleftrightarrow>
     (if UsesBasicLogin c then ba_username a \<noteq> None
      else case c of None \<Rightarrow> False | Some c \<Rightarrow> sc_gate c \<and> session \<noteq> None)"

definition RequestAuthor :: "security_config option \<Rightarrow> string option \<Rightarrow> string option \<Rightarrow> string" where
  "RequestAuthor c session user =
     (case c of
        None \<Rightarrow> []
      | Some c \<Rightarrow>
          (if sc_oidc c \<noteq> None then (case sessionSubject c session of None \<Rightarrow> [] | Some s \<Rightarrow> s)
           else case user of None \<Rightarrow> [] | Some u \<Rightarrow> u))"

end
