(* ===== verification/LoginSafety.thy ===== *)
theory LoginSafety
  imports Logins
begin

text \<open>
  The runs of the login of \<open>security.basic\<close>: a request is served with a session only while a login with the right
  credential stands behind it. The lemmas are in the locale \<open>session_store\<close>, hence hold for both stores; and how many
  passwords of a client are checked per minute, with the locale \<open>failure_counter\<close>.
\<close>

subsection \<open>Runs\<close>

record login_env =
  lv_config :: basic_config
  lv_supported :: bool
  lv_now :: time
  lv_random :: "string option"
  lv_ip :: addr

datatype login_op =
    LoginWith string string
  | LogoutOf string
  | RequestWith string string

text \<open>What a step shows: a session was issued for a credential, was ended, or a request was served or not.\<close>

datatype login_event =
    Issued string basic_config time string string
  | NotIssued
  | Ended string
  | NotEnded
  | Answered basic_config time string string "string option"

fun login_step ::
    "'s session_ops \<Rightarrow> login_lib \<Rightarrow> login_env \<Rightarrow> login_op \<Rightarrow> login_limiter \<times> 's \<Rightarrow> login_event \<times> login_limiter \<times> 's" where
  "login_step ops lib env (LoginWith u p) sys =
     (let c = lv_config env;
          (res, sys') = basic_Login ops lib c (lv_supported env) (lv_now env) (lv_ip env) (lv_random env) u p sys
      in (case res of Inl _ \<Rightarrow> NotIssued | Inr (token, _) \<Rightarrow> Issued token c (lv_now env) u p, sys'))"
| "login_step ops lib env (LogoutOf cookie) sys =
     (let (done', st) = basic_Logout ops lib (lv_supported env) cookie (snd sys)
      in (if done' \<and> isLoginSessionToken lib cookie \<and> lv_supported env then Ended cookie else NotEnded, fst sys, st))"
| "login_step ops lib env (RequestWith cookie header) sys =
     (let c = lv_config env;
          (a, sys') = authenticateBasic ops lib c (lv_supported env) (lv_now env) (lv_ip env) cookie header sys
      in (Answered c (lv_now env) cookie header (ba_username a), sys'))"

text \<open>The events of a run, the last one first.\<close>

fun login_run ::
    "'s session_ops \<Rightarrow> login_lib \<Rightarrow> (login_env \<times> login_op) list \<Rightarrow> login_event list \<times> login_limiter \<times> 's \<Rightarrow>
     login_event list \<times> login_limiter \<times> 's" where
  "login_run ops lib [] r = r"
| "login_run ops lib ((env, op) # steps) (evs, sys) =
     (let (ev, sys') = login_step ops lib env op sys in login_run ops lib steps (ev # evs, sys'))"

text \<open>The logins of a token since it was last ended, from the events before, the last one first.\<close>

fun standing :: "login_lib \<Rightarrow> string \<Rightarrow> login_event list \<Rightarrow> (basic_config \<times> time \<times> string \<times> string) list" where
  "standing lib h [] = []"
| "standing lib h (ev # evs) =
     (case ev of
        Issued t c now u p \<Rightarrow> (if hashLoginSessionToken lib t = h then (c, now, u, p) # standing lib h evs else standing lib h evs)
      | Ended t \<Rightarrow> (if hashLoginSessionToken lib t = h then [] else standing lib h evs)
      | _ \<Rightarrow> standing lib h evs)"

text \<open>A login with the right credential stands behind a user that is served at a time under a configuration.\<close>

definition vouched :: "login_lib \<Rightarrow> basic_config \<Rightarrow> time \<Rightarrow> string \<Rightarrow> (basic_config \<times> time \<times> string \<times> string) list \<Rightarrow> bool" where
  "vouched lib c now user logins \<longleftrightarrow>
     (\<exists>c' t u p. (c', t, u, p) \<in> set logins \<and> basic_checkCredentials lib c' u p \<and> bc_username c' = user \<and>
        credentialFingerprint lib c' = credentialFingerprint lib c \<and> now < t + sessionTTL c')"

text \<open>Every request of the events that was served had the right credential or a standing login.\<close>

fun served_rightly :: "login_lib \<Rightarrow> login_event list \<Rightarrow> bool" where
  "served_rightly lib [] \<longleftrightarrow> True"
| "served_rightly lib (ev # evs) \<longleftrightarrow>
     (case ev of
        Answered c now cookie header (Some user) \<Rightarrow>
          vouched lib c now user (standing lib (hashLoginSessionToken lib cookie) evs) \<or>
          (case login_basicCredentials lib header of
             None \<Rightarrow> False | Some (u, p) \<Rightarrow> basic_checkCredentials lib c u p \<and> user = bc_username c)
      | _ \<Rightarrow> True) \<and> served_rightly lib evs"

definition backed :: "login_lib \<Rightarrow> login_session \<Rightarrow> (basic_config \<times> time \<times> string \<times> string) list \<Rightarrow> bool" where
  "backed lib s logins \<longleftrightarrow>
     (\<exists>c t u p. (c, t, u, p) \<in> set logins \<and> basic_checkCredentials lib c u p \<and> bc_username c = ls_username s \<and>
        credentialFingerprint lib c = ls_fingerprint s \<and> ls_expires_at s \<le> t + sessionTTL c)"

lemma backed_vouched:
  "backed lib s logins \<Longrightarrow> now < ls_expires_at s \<Longrightarrow> ls_fingerprint s = credentialFingerprint lib c \<Longrightarrow>
   vouched lib c now (ls_username s) logins"
  unfolding backed_def vouched_def by fastforce

lemma backed_Cons: "backed lib s logins \<Longrightarrow> backed lib s (x # logins)"
  by (auto simp: backed_def)

lemma backed_issue:
  "basic_checkCredentials lib c u p \<Longrightarrow> ls_username s = bc_username c \<Longrightarrow> ls_fingerprint s = credentialFingerprint lib c \<Longrightarrow>
   ls_expires_at s \<le> t + sessionTTL c \<Longrightarrow> backed lib s ((c, t, u, p) # logins)"
  by (auto simp: backed_def)

text \<open>What a session and a login can do to the store.\<close>

lemma sessionUsername_cases:
  assumes "sessionUsername ops lib c supported cookie now st = (user, st')"
    and "so_get ops (hashLoginSessionToken lib cookie) st = (r, st1)"
  shows "user = None \<and> st' \<in> {st, st1} \<or>
    user = None \<and> st' = snd (so_delete ops (hashLoginSessionToken lib cookie) st1) \<or>
    (\<exists>s. r = Inr (Some s) \<and> now < ls_expires_at s \<and>
       ls_fingerprint s = credentialFingerprint lib c \<and> user = Some (ls_username s) \<and> st' = st1)"
proof (cases "isLoginSessionToken lib cookie \<and> supported")
  case True
  then show ?thesis
    using assms by (auto simp: sessionUsername_def Let_def split: if_splits sum.splits option.splits)
qed (use assms in \<open>simp add: sessionUsername_def\<close>)

definition new_session :: "login_lib \<Rightarrow> basic_config \<Rightarrow> time \<Rightarrow> string \<Rightarrow> login_session" where
  "new_session lib c now token =
     \<lparr>ls_token_hash = hashLoginSessionToken lib token, ls_username = bc_username c, ls_fingerprint = credentialFingerprint lib c,
      ls_created_at = now, ls_expires_at = now + sessionTTL c\<rparr>"

lemma basic_Login_cases:
  assumes "basic_Login ops lib c supported now ip random u p (l, st) = (res, l', st')"
    and "so_delete_expired ops now st = (n, st1)"
  shows "isl res \<and> st' \<in> {st, st1} \<or>
    (\<exists>token b. basic_checkCredentials lib c u p \<and> so_create ops (new_session lib c now token) st1 = (b, st') \<and>
       (if b then \<exists>age. res = Inr (token, age) else isl res))"
proof -
  obtain blocked retry where bl: "limiter_Blocked ip now l = (blocked, retry)" by fastforce
  show ?thesis
  proof (cases "blocked \<or> \<not> basic_checkCredentials lib c u p \<or> \<not> supported \<or> random = None")
    case True
    then have "isl res \<and> st' \<in> {st, st1}"
      using assms bl by (cases blocked; cases "basic_checkCredentials lib c u p"; cases supported) (auto simp: basic_Login_def)
    then show ?thesis by (rule disjI1)
  next
    case False
    then obtain token where t: "random = Some token" by auto
    obtain b st2 where cr: "so_create ops (new_session lib c now token) st1 = (b, st2)" by fastforce
    have "(if b then res = Inr (token, quot (sessionTTL c) second) else isl res) \<and> st' = st2"
      using assms bl False t cr by (auto simp: basic_Login_def Let_def new_session_def [symmetric] split: if_splits)
    then show ?thesis using cr False by (intro disjI2 exI [of _ token] exI [of _ b]) auto
  qed
qed

context session_store
begin

text \<open>Every session of the store has a standing login.\<close>

definition sessions_inv :: "login_lib \<Rightarrow> login_event list \<Rightarrow> 's \<Rightarrow> bool" where
  "sessions_inv lib evs st \<longleftrightarrow>
     ok st \<and>
     (\<forall>h s. row st h = Some s \<longrightarrow>
        backed lib s (standing lib h evs))"

lemma sessions_subset:
  "sessions_inv lib evs st \<Longrightarrow> ok st' \<Longrightarrow> (\<And>h s. row st' h = Some s \<Longrightarrow> row st h = Some s) \<Longrightarrow> sessions_inv lib evs st'"
  unfolding sessions_inv_def by blast

lemma sessionUsername_inv:
  assumes inv: "sessions_inv lib evs st" and r: "sessionUsername ops lib c supported cookie now st = (user, st')"
  shows "sessions_inv lib evs st'"
    and "user = Some u \<Longrightarrow> vouched lib c now u (standing lib (hashLoginSessionToken lib cookie) evs)"
proof -
  let ?h = "hashLoginSessionToken lib cookie"
  have ok: "ok st" using inv by (simp add: sessions_inv_def)
  obtain read st0 where g: "so_get ops ?h st = (read, st0)" by fastforce
  have ok0: "ok st0" by (rule get_ok [OF ok g])
  have inv0: "sessions_inv lib evs st0"
    by (rule sessions_subset [OF inv ok0]) (use get [OF ok g] in simp)
  consider "user = None" "st' \<in> {st, st0}" | "user = None" "st' = snd (so_delete ops ?h st0)"
    | s where "read = Inr (Some s)" "now < ls_expires_at s" "ls_fingerprint s = credentialFingerprint lib c"
      "user = Some (ls_username s)" "st' = st0"
    using sessionUsername_cases [OF r g] by blast
  then have "sessions_inv lib evs st' \<and> (\<forall>u. user = Some u \<longrightarrow> vouched lib c now u (standing lib ?h evs))"
  proof cases
    case 2
    obtain b st1 where d: "so_delete ops ?h st0 = (b, st1)" by fastforce
    have "sessions_inv lib evs st1"
      by (rule sessions_subset [OF inv0 delete_ok [OF ok0 d]]) (use delete [OF ok0 d] in blast)
    then show ?thesis using 2 d by simp
  next
    case (3 s)
    have "row st ?h = Some s" using get [OF ok g] 3(1) by auto
    then have "backed lib s (standing lib ?h evs)" using inv unfolding sessions_inv_def by blast
    from backed_vouched [OF this 3(2,3)] show ?thesis using 3 inv0 by simp
  qed (use inv inv0 in auto)
  then show "sessions_inv lib evs st'" "user = Some u \<Longrightarrow> vouched lib c now u (standing lib ?h evs)" by simp_all
qed

lemma quiet_inv: "sessions_inv lib evs st \<Longrightarrow> (\<And>h. standing lib h (ev # evs) = standing lib h evs) \<Longrightarrow> sessions_inv lib (ev # evs) st"
  by (simp add: sessions_inv_def)

lemma login_step_inv:
  assumes inv: "sessions_inv lib evs (snd sys)" and r: "login_step ops lib env op sys = (ev, sys')"
  shows "sessions_inv lib (ev # evs) (snd sys') \<and> (served_rightly lib evs \<longrightarrow> served_rightly lib (ev # evs))"
proof -
  obtain l st where sys: "sys = (l, st)" by (cases sys)
  let ?c = "lv_config env"
  have I: "sessions_inv lib evs st" and ok: "ok st" using inv by (simp_all add: sys sessions_inv_def)
  show ?thesis
  proof (cases op)
    case (LoginWith u p)
    obtain res l' st' where b: "basic_Login ops lib ?c (lv_supported env) (lv_now env) (lv_ip env) (lv_random env) u p (l, st) =
        (res, l', st')" by (metis prod_cases3)
    obtain n st1 where e: "so_delete_expired ops (lv_now env) st = (n, st1)" by fastforce
    have ok1: "ok st1" by (rule delete_expired_ok [OF ok e])
    have I1: "sessions_inv lib evs st1"
      by (rule sessions_subset [OF I ok1]) (use delete_expired [OF ok e] in blast)
    from basic_Login_cases [OF b e] show ?thesis
    proof (elim disjE exE conjE)
      assume "isl res" "st' \<in> {st, st1}"
      then have "ev = NotIssued" "snd sys' = st'" using r b by (auto simp: LoginWith sys isl_def)
      then show ?thesis using I I1 \<open>st' \<in> {st, st1}\<close> by (auto simp: sessions_inv_def)
    next
      fix token b'
      assume good: "basic_checkCredentials lib ?c u p"
        and cr: "so_create ops (new_session lib ?c (lv_now env) token) st1 = (b', st')"
        and res: "if b' then \<exists>age. res = Inr (token, age) else isl res"
      have ok': "ok st'" by (rule create_ok [OF ok1 cr])
      have ev: "ev = (if b' then Issued token ?c (lv_now env) u p else NotIssued)" "snd sys' = st'"
        using r b res by (auto simp: LoginWith sys isl_def split: if_splits)
      have "backed lib s (standing lib h (ev # evs))" if at: "row st' h = Some s" for h s
      proof (cases "row st1 h = Some s")
        case True
        then have "backed lib s (standing lib h evs)" using I1 unfolding sessions_inv_def by blast
        then show ?thesis using ev by (simp add: backed_Cons)
      next
        case False
        then show ?thesis using create [OF ok1 cr at] good ev by (auto simp: new_session_def intro: backed_issue)
      qed
      then show ?thesis using ok' ev by (simp add: sessions_inv_def)
    qed
  next
    case (LogoutOf cookie)
    let ?h = "hashLoginSessionToken lib cookie"
    show ?thesis
    proof (cases "isLoginSessionToken lib cookie \<and> lv_supported env")
      case True
      obtain b st1 where d: "so_delete ops ?h st = (b, st1)" by fastforce
      have ev: "ev = (if b then Ended cookie else NotEnded)" "snd sys' = st1"
        using r d True by (auto simp: LogoutOf sys basic_Logout_def)
      have "backed lib s (standing lib h (ev # evs))" if at: "row st1 h = Some s" for h s
      proof -
        have "backed lib s (standing lib h evs)" using delete [OF ok d at] I unfolding sessions_inv_def by blast
        then show ?thesis using delete [OF ok d at] ev by auto
      qed
      then show ?thesis using delete_ok [OF ok d] ev by (simp add: sessions_inv_def)
    next
      case False
      then show ?thesis using r I by (auto simp: LogoutOf sys basic_Logout_def sessions_inv_def)
    qed
  next
    case (RequestWith cookie header)
    obtain user st1 where s: "sessionUsername ops lib ?c (lv_supported env) cookie (lv_now env) st = (user, st1)" by fastforce
    note S = sessionUsername_inv [OF I s]
    show ?thesis
    proof (cases user)
      case (Some u)
      then show ?thesis using r s S by (auto simp: RequestWith sys authenticateBasic_def sessions_inv_def)
    next
      case None
      then show ?thesis using r s S(1)
        by (auto simp: RequestWith sys authenticateBasic_def sessions_inv_def Let_def split: option.splits prod.splits if_splits)
    qed
  qed
qed

lemma login_run_inv:
  "sessions_inv lib evs (snd sys) \<Longrightarrow> served_rightly lib evs \<Longrightarrow> served_rightly lib (fst (login_run ops lib steps (evs, sys)))"
proof (induction steps arbitrary: evs sys)
  case (Cons x steps)
  obtain env op where x: "x = (env, op)" by (cases x)
  obtain ev sys' where r: "login_step ops lib env op sys = (ev, sys')" by (cases "login_step ops lib env op sys")
  show ?case using login_step_inv [OF Cons.prems(1) r] Cons.IH [of "ev # evs" sys'] Cons.prems(2) by (simp add: x r)
qed simp

lemma login_run_sound:
  "ok st \<Longrightarrow> (\<And>h. row st h = None) \<Longrightarrow> served_rightly lib (fst (login_run ops lib steps ([], l, st)))"
  by (rule login_run_inv) (simp_all add: sessions_inv_def)

end

end
