(* ===== verification/LoginProperties.thy ===== *)
theory LoginProperties
  imports LoginSafety
begin

text \<open>
  Properties of the logins: those of the status pages, with their memory and their failures, and those of
  \<open>security.basic\<close> and OpenID Connect.
\<close>

subsection \<open>The memory of the verifications\<close>

text \<open>C5. In any run of verifications of any pages, with resets in between, a request is only allowed with the right
  credential of the page as it is then: what the memory holds of other credentials, of other pages or of the login before a
  change does not admit it, provided that the hashes have no collision on the run.\<close>

theorem remembered_logins_are_right:
  assumes "inj_on (ae_sha e) (hashed ops)" and "inj_on (ae_mac e) (authenticated e ops)"
    and "(r, AuthAllowed) \<in> set (auth_run e ops \<lparr>as_memory = [], as_failures = fs\<rparr>)"
  shows "right_credential e r"
  using assms(3) by (intro auth_run_sound [OF subset_refl _ assms(1,2)]) (simp_all add: memory_ok_def)

definition sample_auth_env :: auth_env where
  "sample_auth_env =
     \<lparr>ae_sha = (\<lambda>s. s), ae_mac = (\<lambda>s. s), ae_has_key = True, ae_base64 = (\<lambda>s. s), ae_compare = (\<lambda>hash p. hash = ''#'' @ p),
      ae_prefix = (\<lambda>p. case pf_addr p of Addr4 w \<Rightarrow> itoa (uint w) | _ \<Rightarrow> [])\<rparr>"

definition locked_page :: "string \<Rightarrow> page" where
  "locked_page hash =
     \<lparr>pg_slug = ''team'', pg_title = ''Team'', pg_description = [], pg_groups = [''g''], pg_endpoints = [], pg_featured = [],
      pg_charts = [], pg_show_certificates = False, pg_show_messages = False, pg_collapsed = False, pg_views = None,
      pg_auth = Some \<lparr>au_username = ''ann'', au_hash = hash\<rparr>, pg_enabled = None\<rparr>"

definition login_request :: "string \<Rightarrow> string \<Rightarrow> addr \<Rightarrow> time \<Rightarrow> auth_request" where
  "login_request hash p ip now = \<lparr>rq_page = locked_page hash, rq_credential = Some (''ann'', p), rq_ip = ip, rq_now = now\<rparr>"

text \<open>The password is remembered; after its change it is refused.\<close>

lemma remembered_logins_are_right_witness:
  "let ops = [Verify (login_request ''#red'' ''red'' (Addr4 7) 5), Verify (login_request ''#red'' ''red'' (Addr4 8) 6),
              Verify (login_request ''#blue'' ''red'' (Addr4 7) 7)]
   in map snd (auth_run sample_auth_env ops \<lparr>as_memory = [], as_failures = []\<rparr>) = [AuthAllowed, AuthAllowed, AuthUnauthorized] \<and>
      right_credential sample_auth_env (login_request ''#red'' ''red'' (Addr4 8) 6)"
proof -
  let ?ops = "[Verify (login_request ''#red'' ''red'' (Addr4 7) 5), Verify (login_request ''#red'' ''red'' (Addr4 8) 6),
              Verify (login_request ''#blue'' ''red'' (Addr4 7) 7)]"
  let ?run = "auth_run sample_auth_env ?ops \<lparr>as_memory = [], as_failures = []\<rparr>"
  have r: "map snd ?run = [AuthAllowed, AuthAllowed, AuthUnauthorized]" by code_simp
  moreover have "map fst ?run ! 1 = login_request ''#red'' ''red'' (Addr4 8) 6"
    by (simp split: prod.split)
  ultimately have "?run ! 1 = (login_request ''#red'' ''red'' (Addr4 8) 6, AuthAllowed)" "1 < length ?run"
    by (simp_all split: prod.splits)
  then have "(login_request ''#red'' ''red'' (Addr4 8) 6, AuthAllowed) \<in> set ?run" by (metis nth_mem)
  then have "right_credential sample_auth_env (login_request ''#red'' ''red'' (Addr4 8) 6)"
    by (intro remembered_logins_are_right [of sample_auth_env ?ops]) (simp_all add: sample_auth_env_def)
  with r show ?thesis by (simp add: Let_def)
qed

subsection \<open>The failures of the pages\<close>

text \<open>C13. Of the requests of a client within five minutes, at most ten are checked and refused when it had no failures before,
  and at most twenty otherwise; the others are blocked. It holds while the failures of all clients fit into the map.\<close>

theorem page_logins_bounded:
  assumes "distinct (map fst (as_failures st))" and "length (as_failures st) + length rs \<le> authMaximumFailureKeys"
    and "sorted (map rq_now rs)" and "\<forall>r \<in> set rs. now \<le> rq_now r \<and> rq_now r < now + authFailureWindow"
  shows "length (refused_at e k (auth_run e (map Verify rs) st)) \<le>
    (if page_live k now (as_failures st) = None then authMaximumFailures else 2 * authMaximumFailures)"
  by (rule refused_bound [OF assms])

lemma page_logins_bounded_witness:
  "let results = auth_run sample_auth_env (map Verify (replicate 13 (login_request ''#red'' ''green'' (Addr4 7) 5)))
         \<lparr>as_memory = [], as_failures = []\<rparr>
   in map snd results = replicate 10 AuthUnauthorized @ replicate 3 AuthTooManyFailures \<and>
      length (refused_at sample_auth_env (failureKey sample_auth_env ''team'' (Addr4 7)) results) \<le> 10"
proof -
  let ?rs = "replicate 13 (login_request ''#red'' ''green'' (Addr4 7) 5)" and ?st = "\<lparr>as_memory = [], as_failures = []\<rparr>"
  have "map snd (auth_run sample_auth_env (map Verify ?rs) ?st) = replicate 10 AuthUnauthorized @ replicate 3 AuthTooManyFailures"
    by code_simp
  moreover have "length (refused_at sample_auth_env (failureKey sample_auth_env ''team'' (Addr4 7))
      (auth_run sample_auth_env (map Verify ?rs) ?st)) \<le>
      (if page_live (failureKey sample_auth_env ''team'' (Addr4 7)) 5 (as_failures ?st) = None
       then authMaximumFailures else 2 * authMaximumFailures)"
    by (rule page_logins_bounded)
      (auto simp: login_request_def authMaximumFailureKeys_def authFailureWindow_def go_time)
  ultimately show ?thesis by (simp add: page_live_def authMaximumFailures_def Let_def)
qed

lemma verify_unblocked:
  assumes "\<not> fst (fst (page_blocked (failureKey e (pg_slug (rq_page r)) (rq_ip r)) (rq_now r) (as_failures st)))"
  shows "fst (verify_request e r st) \<noteq> AuthTooManyFailures \<and> (right_credential e r \<longrightarrow> fst (verify_request e r st) = AuthAllowed)"
  using assms by (auto simp: verify_request_def VerifyPageCredential_def right_credential_def Let_def split: option.split prod.split)

lemma verify_keeps_block:
  assumes "distinct (map fst (as_failures st))" and "length (as_failures st) < authMaximumFailureKeys"
    and "page_live k now (as_failures st) = Some (n, ends)" and "authMaximumFailures \<le> n"
    and "now \<le> rq_now r" and "rq_now r < ends" and "verify_request e r st = (res, st')"
  shows "page_live k (rq_now r) (as_failures st') = Some (n, ends) \<and> distinct (map fst (as_failures st')) \<and>
    length (as_failures st') \<le> Suc (length (as_failures st))"
proof -
  have now: "page_live k (rq_now r) (as_failures st) = Some (n, ends)"
    using pages.live_later [OF assms(5), of k "as_failures st"] assms(3,6) by simp
  show ?thesis
  proof (cases "pg_auth (rq_page r)")
    case None
    then have "st' = st" using assms(7) by (auto simp: verify_request_def VerifyPageCredential_def)
    then show ?thesis using now assms(1) by simp
  next
    case (Some a)
    let ?key = "failureKey e (pg_slug (rq_page r)) (rq_ip r)"
    note A = verify_attempt [OF Some assms(7)]
    have "length (snd (page_blocked ?key (rq_now r) (as_failures st))) \<le> length (as_failures st)"
      by (auto simp: page_blocked_def alist_del_def split: option.split)
    then have counted: "page_counted ?key (rq_now r) (snd (page_blocked ?key (rq_now r) (as_failures st)))"
      using assms(2) by (simp add: page_counted_def)
    note L1 = pages.attempt_live(1) [OF assms(1) counted, of k "res = AuthAllowed"]
      and L2 = pages.attempt_live(2) [OF assms(1) counted, of "res = AuthAllowed"]
    have "\<not> (res = AuthUnauthorized \<and> k = ?key)"
      using pages.attempt_live(3) [OF assms(1) counted, of "res = AuthAllowed"] A now assms(4) by auto
    then show ?thesis
      using L1 L2 A now failures_length [of "(?key, res = AuthAllowed, rq_now r)" "as_failures st"] by auto
  qed
qed

text \<open>C12. A client of a page that is blocked, however often it and the others try again until its window ends, is not blocked
  by a request after it, which is allowed with the right credential.\<close>

theorem blocked_client_admitted_again:
  assumes "distinct (map fst (as_failures st))" and "length (as_failures st) + length rs \<le> authMaximumFailureKeys"
    and "page_live (failureKey e (pg_slug (rq_page r)) (rq_ip r)) now (as_failures st) = Some (n, ends)"
    and "authMaximumFailures \<le> n" and "sorted (map rq_now rs)" and "\<forall>x \<in> set rs. now \<le> rq_now x \<and> rq_now x < ends"
    and "ends \<le> rq_now r"
  shows "case last (auth_run e (map Verify (rs @ [r])) st) of
    (_, res) \<Rightarrow> res \<noteq> AuthTooManyFailures \<and> (right_credential e r \<longrightarrow> res = AuthAllowed)"
  using assms
proof (induction rs arbitrary: st now)
  case Nil
  let ?k = "failureKey e (pg_slug (rq_page r)) (rq_ip r)"
  have "page_live ?k (rq_now r) (as_failures st) = None"
    using pages.live_later [of now "rq_now r" ?k "as_failures st"] pages.live_end [OF Nil(3)] Nil(3,7) by simp
  then have "\<not> fst (fst (page_blocked ?k (rq_now r) (as_failures st)))" using pages.blocked_iff [OF Nil(1)] by simp
  then show ?case using verify_unblocked [of e r st] by (cases "verify_request e r st") simp
next
  case (Cons x rs)
  obtain res st' where v: "verify_request e x st = (res, st')" by (metis prod.collapse)
  have x: "now \<le> rq_now x" "rq_now x < ends" "length (as_failures st) < authMaximumFailureKeys" using Cons.prems(2,6) by auto
  note K = verify_keeps_block [OF Cons.prems(1) x(3) Cons.prems(3,4) x(1,2) v]
  have "case last (auth_run e (map Verify (rs @ [r])) st') of
      (_, res) \<Rightarrow> res \<noteq> AuthTooManyFailures \<and> (right_credential e r \<longrightarrow> res = AuthAllowed)"
    by (rule Cons.IH [of st' "rq_now x"]) (use K Cons.prems in auto)
  moreover have "auth_run e (map Verify (rs @ [r])) st' \<noteq> []" using auth_run_requests [of e "rs @ [r]" st'] by auto
  ultimately show ?case using v by simp
qed

text \<open>Blocked after ten failures and again four minutes later; admitted when the five minutes are over.\<close>

lemma blocked_client_admitted_again_witness:
  "let e = sample_auth_env; k = failureKey e ''team'' (Addr4 7); st = \<lparr>as_memory = [], as_failures = [(k, 10, 300 * second)]\<rparr>;
       results = auth_run e (map Verify ([login_request ''#red'' ''red'' (Addr4 7) (240 * second)] @
         [login_request ''#red'' ''red'' (Addr4 7) (300 * second)])) st
   in map snd results = [AuthTooManyFailures, AuthAllowed] \<and> snd (last results) \<noteq> AuthTooManyFailures"
proof -
  let ?k = "failureKey sample_auth_env ''team'' (Addr4 7)"
  let ?st = "\<lparr>as_memory = [], as_failures = [(?k, 10, 300 * second)]\<rparr>"
  let ?rs = "[login_request ''#red'' ''red'' (Addr4 7) (240 * second)]" and ?r = "login_request ''#red'' ''red'' (Addr4 7) (300 * second)"
  have "map snd (auth_run sample_auth_env (map Verify (?rs @ [?r])) ?st) = [AuthTooManyFailures, AuthAllowed]" by code_simp
  moreover have key: "failureKey sample_auth_env (pg_slug (rq_page ?r)) (rq_ip ?r) = ?k"
    by (simp add: login_request_def locked_page_def)
  have "case last (auth_run sample_auth_env (map Verify (?rs @ [?r])) ?st) of
      (_, res) \<Rightarrow> res \<noteq> AuthTooManyFailures \<and> (right_credential sample_auth_env ?r \<longrightarrow> res = AuthAllowed)"
    by (rule blocked_client_admitted_again [where now = 5 and n = 10 and ends = "300 * second"], unfold key)
      (simp_all add: page_live_def authMaximumFailureKeys_def authMaximumFailures_def login_request_def go_time)
  ultimately show ?thesis by (simp add: Let_def split: prod.splits)
qed

text \<open>The requests of the tests below, all in flight at the same time.\<close>

definition all_in_flight :: "auth_request \<Rightarrow> nat \<Rightarrow> auth_event list" where
  "all_in_flight r n = map (\<lambda>i. Arrive i r) [0..<n] @ map Complete [0..<n]"

lemma arrivals:
  assumes "pg_auth (rq_page r) \<noteq> None" and "as_failures (ay_state sys) = []"
  shows "fold (request_step e) (map (\<lambda>i. Arrive i r) is) sys = sys\<lparr>ay_pending := ay_pending sys @ map (\<lambda>i. (i, r)) is\<rparr>"
  using assms by (induction "is" arbitrary: sys) (auto simp: Let_def page_blocked_def)

lemma complete_wrong:
  assumes "pg_auth (rq_page r) = Some a" and "\<not> right_credential e r" and "as_memory st = []"
  shows "\<exists>st'. complete_request e r st = (AuthUnauthorized, st') \<and> as_memory st' = []"
  using assms by (auto simp: complete_request_def right_credential_def Let_def memory_contains_def split: option.splits prod.splits)

lemma completions:
  assumes a: "pg_auth (rq_page r) = Some a" "\<not> right_credential e r"
  shows "distinct is \<Longrightarrow> ay_pending sys = map (\<lambda>i. (i, r)) is \<Longrightarrow> as_memory (ay_state sys) = [] \<Longrightarrow>
    ay_results (fold (request_step e) (map Complete is) sys) = ay_results sys @ map (\<lambda>i. (i, AuthUnauthorized)) is"
proof (induction "is" arbitrary: sys)
  case (Cons i "is")
  obtain st' where c: "complete_request e r (ay_state sys) = (AuthUnauthorized, st')" "as_memory st' = []"
    using complete_wrong [OF a Cons.prems(3)] by blast
  have "alist_del i (map (\<lambda>i. (i, r)) is) = map (\<lambda>i. (i, r)) is" using Cons.prems(1) by (induction "is") (auto simp: alist_del_def)
  then have "alist_del i (ay_pending sys) = map (\<lambda>i. (i, r)) is" by (simp add: Cons.prems(2) alist_del_def)
  then show ?case using Cons c by simp
qed simp

text \<open>Requests of one client that arrive before the first of them completes are all checked and refused, however many they
  are: the limit of ten failures does not hold for concurrent requests.\<close>

theorem concurrent_logins_exceed_limit:
  assumes "pg_auth (rq_page r) \<noteq> None" and "\<not> right_credential e r"
  shows "ay_results (fold (request_step e) (all_in_flight r n)
      \<lparr>ay_state = \<lparr>as_memory = [], as_failures = []\<rparr>, ay_pending = [], ay_results = []\<rparr>) =
    map (\<lambda>i. (i, AuthUnauthorized)) [0..<n]"
  using assms by (auto simp: all_in_flight_def arrivals completions)

lemma concurrent_logins_exceed_limit_witness:
  "ay_results (fold (request_step sample_auth_env) (all_in_flight (login_request ''#red'' ''green'' (Addr4 7) 5) 12)
      \<lparr>ay_state = \<lparr>as_memory = [], as_failures = []\<rparr>, ay_pending = [], ay_results = []\<rparr>) =
    map (\<lambda>i. (i, AuthUnauthorized)) [0..<12] \<and> authMaximumFailures < length [0..<12]"
  by (subst concurrent_logins_exceed_limit)
    (simp_all add: login_request_def locked_page_def right_credential_def CheckCredentials_def sample_auth_env_def authMaximumFailures_def)

subsection \<open>Sessions\<close>





subsection \<open>OpenID Connect\<close>

text \<open>The callback creates a session only for a state and a nonce that are those of the cookies, for the subject of a
  verified token, which is an allowed one when there are any; in every other case it answers with the first check that failed.\<close>

theorem callback_sessions_are_checked:
  "case callbackHandler c r of
     SessionCreated subject ttl \<Rightarrow>
       oi_error r = [] \<and> oi_state_cookie r = Some (oi_state r) \<and>
       (\<exists>nonce. oi_token r = Some (subject, nonce) \<and> oi_nonce_cookie r = Some nonce) \<and> ttl = oc_ttl c \<and>
       (oc_subjects c = [] \<or> to_lower subject \<in> to_lower ` set (oc_subjects c))
   | AccessDenied \<Rightarrow>
       oc_subjects c \<noteq> [] \<and> (\<exists>subject nonce. oi_token r = Some (subject, nonce) \<and> to_lower subject \<notin> to_lower ` set (oc_subjects c))
   | NonceMismatch \<Rightarrow> (\<exists>subject nonce. oi_token r = Some (subject, nonce) \<and> oi_nonce_cookie r \<notin> {None, Some nonce})
   | StateMismatch \<Rightarrow> oi_state_cookie r \<notin> {None, Some (oi_state r)}
   | _ \<Rightarrow> oi_error r \<noteq> [] \<or> oi_state_cookie r = None \<or> oi_token r = None \<or> oi_nonce_cookie r = None"
proof -
  have m: "list_ex (\<lambda>s. to_lower s = to_lower subject) xs \<longleftrightarrow> to_lower subject \<in> to_lower ` set xs" for subject xs
    by (auto simp: list_ex_iff image_iff eq_commute)
  show ?thesis by (auto simp: callbackHandler_def m split: option.split)
qed

lemma callback_sessions_are_checked_witness:
  "let c = \<lparr>oc_issuer = ''i'', oc_redirect = ''r'', oc_client = ''c'', oc_secret = ''s'', oc_scopes = [''openid''],
         oc_subjects = [''Ann''], oc_ttl = 9\<rparr>;
       r = \<lparr>oi_error = [], oi_state = ''x'', oi_state_cookie = Some ''x'', oi_nonce_cookie = Some ''n'', oi_token = Some (''ann'', ''n'')\<rparr>
   in callbackHandler c r = SessionCreated ''ann'' 9 \<and> to_lower ''ann'' \<in> to_lower ` set (oc_subjects c)"
proof -
  define c where "c = \<lparr>oc_issuer = ''i'', oc_redirect = ''r'', oc_client = ''c'', oc_secret = ''s'', oc_scopes = [''openid''],
         oc_subjects = [''Ann''], oc_ttl = 9\<rparr>"
  define r where "r = \<lparr>oi_error = [], oi_state = ''x'', oi_state_cookie = Some ''x'', oi_nonce_cookie = Some ''n'', oi_token = Some (''ann'', ''n'')\<rparr>"
  have cb: "callbackHandler c r = SessionCreated ''ann'' 9" unfolding c_def r_def by code_simp
  have "oc_subjects c \<noteq> []" by (simp add: c_def)
  then have "to_lower ''ann'' \<in> to_lower ` set (oc_subjects c)"
    using callback_sessions_are_checked [of r c] unfolding cb callback_result.case by blast
  with cb show ?thesis unfolding c_def r_def by (simp add: Let_def)
qed

end
