(* ===== verification/Spec2Isabelle.thy ===== *)
theory Spec2Isabelle
  imports AlertProperties MonitorProperties StoreProperties HealthProperties ConfigProperties ManagedProperties
    AlertProviderProperties PageProperties PublicProperties LoginProperties
begin

text \<open>
  A model of go-uptime, a monitoring service: it checks endpoints and suites of endpoints, receives pushed results of
  external endpoints, keeps results, events, uptimes and response times, sends alerts, shows public status pages, and lets
  administrators manage endpoints, pages, alerting providers and push keys at run time.

  The parts and their theories, by the packages under \<^verbatim>\<open>src/internal\<close>:

  \<^item> Configuration: \<^verbatim>\<open>config/key\<close> (\<open>Keys\<close>), \<^verbatim>\<open>alerting/alert\<close> (\<open>Alerts\<close>), \<^verbatim>\<open>config/maintenance\<close> (\<open>Maintenance\<close>), \<^verbatim>\<open>client/config.go\<close>
    (\<open>Clients\<close>), \<^verbatim>\<open>config/push\<close> (\<open>PushTokens\<close>), \<^verbatim>\<open>config/config.go\<close> and what it validates (\<open>Configuration\<close>),
    \<^verbatim>\<open>config/endpoint\<close> (\<open>Endpoints\<close>: objects and validation).
  \<^item> Checks: \<open>Conditions\<close> (placeholders and conditions), \<open>Values\<close>, \<open>Glob\<close>, \<open>JsonPath\<close> (suite context, patterns, JSON paths),
    \<open>Health\<close> and \<open>HealthFacts\<close> (evaluation of an endpoint), \<^verbatim>\<open>config/suite\<close> (\<open>Suites\<close>), \<^verbatim>\<open>watchdog/suite.go\<close> (\<open>SuiteMonitor\<close>).
  \<^item> \<^verbatim>\<open>watchdog\<close>: \<open>Alerting\<close>, \<open>AlertingFacts\<close>, \<open>AlertPersistence\<close> (what a result does to the alerts and what is kept of
    them), \<open>Registry\<close> (the monitored endpoints and the interleavings of starts, stops and results; a stop takes the entry out
    of the map and cancels its context in two steps), \<open>PushMonitor\<close> (pushes, heartbeats, checks).
  \<^item> \<^verbatim>\<open>storage/store\<close>: \<open>TriggeredStore\<close> (the persisted alerts), \<open>MemoryStore\<close> and \<open>MemoryFacts\<close> (the memory store),
    \<open>ManagedStore\<close> (the tables of the administration: rows with versions, transactions with their faults).
  \<^item> \<^verbatim>\<open>managedendpoint\<close>: \<open>ManagedEndpoints\<close> (definitions), \<open>ManagedRegistry\<close> (the published snapshot and its index of tokens),
    \<open>SecretMask\<close> (masking and restoring), \<open>ManagedViews\<close> (what the administration shows), \<open>ManagedService\<close> (the changes),
    \<open>ManagedServiceFacts\<close> and \<open>ManagedServiceSafety\<close> (their invariant and outcome).
  \<^item> \<^verbatim>\<open>pushkey\<close>, \<^verbatim>\<open>push\<close>: \<open>PushKeys\<close> (the global keys), \<open>PushResolver\<close> (which endpoint a push is for).
  \<^item> \<^verbatim>\<open>alertprovider\<close>: \<open>ProviderSecrets\<close> and \<open>Redaction\<close> (secrets), \<open>AlertProviders\<close> (definitions, snapshot, changes and the managed
    endpoints that depend on them), \<open>AlertProviderFacts\<close>, \<open>AlertProviderSafety\<close>.
  \<^item> \<^verbatim>\<open>config/statuspage\<close>, \<^verbatim>\<open>statuspage\<close>: \<open>PageConfig\<close> and \<open>PageValidity\<close> (the section and a page, what the validation gives),
    \<open>PageSelection\<close> (what a page shows), \<open>PageRegistry\<close> (the published snapshot, the login in a definition), \<open>PageService\<close> (the
    changes and the part in renames), \<open>PageFacts\<close> and \<open>PageSafety\<close> (snapshot and table agree), \<open>PageAuth\<close> (the login of a page),
    \<open>PublicPages\<close> (client of a request, limit of costly responses, public routes).
  \<^item> \<^verbatim>\<open>security\<close>: \<open>FailureLimits\<close> (the counters of failed logins, also that of the pages), \<open>Logins\<close> (sessions, middleware,
    callback of OpenID Connect), \<open>LoginSafety\<close> (runs of logins and requests).

  How they interact: a check (\<open>Health\<close>), a push or a missed heartbeat (\<open>PushMonitor\<close>) gives a result; with the lock of the key held,
  which the \<open>Registry\<close> models, it is stored (\<open>MemoryStore\<close>) and handed to the alerts (\<open>Alerting\<close>), which persist what is
  triggered (\<open>TriggeredStore\<close>). A change of a managed endpoint (\<open>ManagedService\<close>) stops its monitoring, writes the row, publishes
  the new snapshot and starts the monitoring again; when it renames the endpoint, the pages (\<open>PageService\<close>) write their rows in the
  same transaction. A change of a provider (\<open>AlertProviders\<close>) does so for all managed endpoints that use it.

  Interfaces are locales, each interpreted on the definitions of the model: \<open>alert_store\<close> and \<open>persistent_alert_store\<close> (the
  store as the alerts see it; SQL and memory), \<open>versioned_table\<close> (the tables of the administration), \<open>provider_dependents\<close>
  (what depends on a provider; the managed endpoints), \<open>failure_counter\<close> (the limits of failed logins; pages and basic login),
  \<open>session_store\<close> (the login sessions; memory and SQL).

  Conventions: a string is the list of its bytes; times are nanoseconds since 1970 and durations nanoseconds, both unbounded,
  where the code saturates or wraps it is written out (\<open>time_sub\<close>, \<open>wrap64\<close>, \<open>64 word\<close>); an error is a value of a datatype and
  a panic \<open>None\<close> of an outer option or an error of its own; a Go map is an association list with distinct keys or a partial
  function; mutable objects are passed as state. What a mutex makes one step is one function; where the code lets go of a lock in
  between, the parts are steps of a relation (\<open>reg_step\<close>, \<open>request_step\<close>). The network, the clock, hashing, randomness, bcrypt, JSON and
  YAML, the parsers of durations, floats and addresses, the time zone database and the providers are parameters; a failing
  statement of the database is an input.

  The properties are in \<open>AlertProperties\<close>, \<open>MonitorProperties\<close>, \<open>StoreProperties\<close>, \<open>HealthProperties\<close>, \<open>ConfigProperties\<close>,
  \<open>ManagedProperties\<close>, \<open>AlertProviderProperties\<close>, \<open>PageProperties\<close>, \<open>PublicProperties\<close> and \<open>LoginProperties\<close>, each with a witness
  at a concrete input where it has hypotheses; \<open>Examples\<close> and \<open>ManagedExamples\<close> have the objects these use. The theories
  \<open>*Facts\<close>, \<open>*Safety\<close>, \<open>AlertPersistence\<close> and \<open>PageValidity\<close> have the invariants and the lemmas that the properties rest on.

  Termination: every recursive function of the model is total by a structural or measure argument, so that no fuel is needed:
  the JSON walk by the length of the path, the walk over hours by the time that is left, the splitting of strings by their length,
  the restoring of secrets by the size of the definition.

  Not modelled: the providers and the client (network protocols), the SQL engine, its schema and its queries of results, the
  decoding and watching of the configuration file, the assembly of the payloads of the pages and their cache (parameters of
  \<open>PublicPages\<close>), cookies and the OAuth exchange, backups, live updates, the HTTP handlers, metrics and the command line.
\<close>

end
